(* ===== verification/Prelude.thy ===== *)
theory Prelude
  imports Main "HOL-Library.Word" "HOL-Library.Multiset" "HOL-Library.Sublist"
    "HOL-Library.List_Lexorder" "HOL-Library.Char_ord"
begin

text \<open>
  Shared vocabulary of the development: the error type of \<open>agentbbs-core/src/error.rs\<close>
  and its result type, the collections of facts the component theories extend, and the
  list idioms of the Rust code (\<open>iter_mut().find\<close>, \<open>sort_by_key(Reverse)\<close>,
  the newest-\<open>limit\<close> window, push-if-absent) with the lemmas about them.
\<close>

section \<open>Fact collections\<close>

named_theorems result_simps \<open>unfolding rules for the result type\<close>
named_theorems bytes_simps \<open>definitions of canonical signing bytes\<close>
named_theorems inv_intros \<open>operations preserve their component's invariant\<close>

section \<open>Errors and results\<close>

text \<open>Rust strings are UTF-8 byte strings: a \<^typ>\<open>char\<close> stands for one byte, so
  \<open>len()\<close> is \<^const>\<open>length\<close>.\<close>

type_synonym bytes = string
type_synonym u8 = "8 word"
type_synonym u16 = "16 word"
type_synonym u32 = "32 word"
type_synonym u64 = "64 word"

datatype error =
    BadSignature
  | Malformed string string
  | PermissionDenied string
  | NotFound string
  | AlreadyExists string
  | Serde string
  | Storage string
  | Other string

type_synonym 'a result = "error + 'a"

definition malformed :: "string \<Rightarrow> string \<Rightarrow> error" where
  "malformed what detail = Malformed what detail"

text \<open>The messages of \<open>#[error(..)]\<close>.\<close>

fun error_display :: "error \<Rightarrow> string" where
  "error_display BadSignature = ''signature verification failed''"
| "error_display (Malformed what detail) = ''malformed '' @ what @ '': '' @ detail"
| "error_display (PermissionDenied c) = ''permission denied: capability '' @ c @ '' required''"
| "error_display (NotFound s) = ''not found: '' @ s"
| "error_display (AlreadyExists s) = ''already exists: '' @ s"
| "error_display (Serde s) = ''serde: '' @ s"
| "error_display (Storage s) = ''storage: '' @ s"
| "error_display (Other s) = s"

text \<open>The question-mark operator: an error returns early, a value is passed on.\<close>

fun rbind :: "'a result \<Rightarrow> ('a \<Rightarrow> 'b result) \<Rightarrow> 'b result" where
  "rbind (Inl e) f = Inl e"
| "rbind (Inr x) f = f x"

fun is_ok :: "'a result \<Rightarrow> bool" where
  "is_ok (Inl e) = False"
| "is_ok (Inr x) = True"

fun map_err :: "(error \<Rightarrow> error) \<Rightarrow> 'a result \<Rightarrow> 'a result" where
  "map_err f (Inl e) = Inl (f e)"
| "map_err f (Inr x) = Inr x"

text \<open>The conversion of a serialization error by the question-mark operator.\<close>

definition serde_err :: "string + 'a \<Rightarrow> 'a result" where
  "serde_err r = (case r of Inl e \<Rightarrow> Inl (Serde e) | Inr x \<Rightarrow> Inr x)"

definition ok_or :: "error \<Rightarrow> 'a option \<Rightarrow> 'a result" where
  "ok_or e x = (case x of None \<Rightarrow> Inl e | Some y \<Rightarrow> Inr y)"

lemma rbind_Inr_iff [result_simps]: "rbind r f = Inr y \<longleftrightarrow> (\<exists>x. r = Inr x \<and> f x = Inr y)"
  by (cases r) auto

lemma rbind_Inl_iff [result_simps]:
  "rbind r f = Inl e \<longleftrightarrow> r = Inl e \<or> (\<exists>x. r = Inr x \<and> f x = Inl e)"
  by (cases r) auto

lemma is_ok_iff [result_simps]: "is_ok r \<longleftrightarrow> (\<exists>x. r = Inr x)"
  by (cases r) auto

lemma is_ok_unit_iff: "is_ok (r :: unit result) \<longleftrightarrow> r = Inr ()"
  by (cases r) auto

lemma map_err_Inr_iff [result_simps]: "map_err f r = Inr x \<longleftrightarrow> r = Inr x"
  by (cases r) auto

lemma map_err_Inl_iff [result_simps]: "map_err f r = Inl e \<longleftrightarrow> (\<exists>e'. r = Inl e' \<and> e = f e')"
  by (cases r) auto

lemma ok_or_Inr_iff [result_simps]: "ok_or e x = Inr y \<longleftrightarrow> x = Some y"
  by (auto simp: ok_or_def split: option.splits)

lemma ok_or_Inl_iff [result_simps]: "ok_or e x = Inl e' \<longleftrightarrow> x = None \<and> e' = e"
  by (auto simp: ok_or_def split: option.splits)

section \<open>Rust list idioms\<close>

lemma option_eqI: "(\<And>y. a = Some y \<longleftrightarrow> b = Some y) \<Longrightarrow> a = b"
  by (cases a; cases b) auto

lemma find_append: "find p (xs @ ys) = (case find p xs of None \<Rightarrow> find p ys | Some x \<Rightarrow> Some x)"
  by (induction xs) auto

lemma find_key_iff:
  "distinct (map key xs) \<Longrightarrow> find (\<lambda>x. key x = k) xs = Some x \<longleftrightarrow> x \<in> set xs \<and> key x = k"
  by (induction xs) (auto simp: image_iff)

text \<open>\<open>iter_mut().find(p)\<close> followed by a write through the reference.\<close>

fun update_first :: "('a \<Rightarrow> bool) \<Rightarrow> ('a \<Rightarrow> 'a) \<Rightarrow> 'a list \<Rightarrow> 'a list" where
  "update_first p f [] = []"
| "update_first p f (x # xs) = (if p x then f x # xs else x # update_first p f xs)"

lemma length_update_first [simp]: "length (update_first p f xs) = length xs"
  by (induction xs) auto

lemma update_first_none: "\<not> list_ex p xs \<Longrightarrow> update_first p f xs = xs"
  by (induction xs) auto

lemma update_first_split:
  assumes "list_ex p xs"
  obtains ys x zs where "xs = ys @ x # zs" "p x" "\<not> list_ex p ys"
    "update_first p f xs = ys @ f x # zs"
  using assms
proof (induction xs arbitrary: thesis)
  case Nil
  then show ?case by simp
next
  case (Cons a xs)
  show ?case
  proof (cases "p a")
    case True
    then show ?thesis using Cons.prems(1)[of "[]" a xs] by simp
  next
    case False
    with Cons.prems(2) have "list_ex p xs" by simp
    then obtain ys x zs where "xs = ys @ x # zs" "p x" "\<not> list_ex p ys"
        "update_first p f xs = ys @ f x # zs"
      using Cons.IH by blast
    then show ?thesis using False Cons.prems(1)[of "a # ys" x zs] by simp
  qed
qed

lemma set_update_first: "set (update_first p f xs) \<subseteq> set xs \<union> f ` {x \<in> set xs. p x}"
  by (induction xs) auto

lemma map_update_first: "(\<And>x. p x \<Longrightarrow> g (f x) = g x) \<Longrightarrow> map g (update_first p f xs) = map g xs"
  by (induction xs) auto

lemma find_update_first:
  "(\<And>x. p x \<Longrightarrow> p (f x)) \<Longrightarrow> find p (update_first p f xs) = map_option f (find p xs)"
  by (induction xs) auto

lemma find_update_first_other:
  "(\<And>x. p x \<Longrightarrow> \<not> q x \<and> \<not> q (f x)) \<Longrightarrow> find q (update_first p f xs) = find q xs"
  by (induction xs) auto

lemma list_ex_key: "list_ex (\<lambda>x. key x = k) xs \<longleftrightarrow> k \<in> key ` set xs"
  by (auto simp: list_ex_iff)

text \<open>\<open>Option::unwrap_or\<close> and \<open>u64::saturating_sub\<close>.\<close>

definition unwrap_or :: "'a \<Rightarrow> 'a option \<Rightarrow> 'a" where
  "unwrap_or d x = (case x of None \<Rightarrow> d | Some y \<Rightarrow> y)"

lemma unwrap_or_simps [simp]: "unwrap_or d None = d" "unwrap_or d (Some y) = y"
  by (simp_all add: unwrap_or_def)

definition saturating_sub :: "u64 \<Rightarrow> u64 \<Rightarrow> u64" where
  "saturating_sub a b = (if a < b then 0 else a - b)"

lemma saturating_sub_unat: "unat (saturating_sub a b) = unat a - unat b"
  by (simp add: saturating_sub_def word_less_nat_alt unat_sub word_le_nat_alt)

lemma saturating_sub_less: "saturating_sub a b < c \<longleftrightarrow> unat a - unat b < unat c"
  by (simp add: word_less_nat_alt saturating_sub_unat)

text \<open>The newest-\<open>limit\<close> window: \<open>&ids[ids.len().saturating_sub(limit)..]\<close>.\<close>

definition window :: "nat \<Rightarrow> 'a list \<Rightarrow> 'a list" where
  "window limit xs = drop (length xs - limit) xs"

lemma window_all [simp]: "length xs \<le> limit \<Longrightarrow> window limit xs = xs"
  by (simp add: window_def)

lemma length_window: "length (window limit xs) = min limit (length xs)"
  by (simp add: window_def)

lemma set_window: "set (window limit xs) \<subseteq> set xs"
  by (auto simp: window_def dest: in_set_dropD)

lemma suffix_window: "suffix (window limit xs) xs"
  by (simp add: window_def suffix_drop)

text \<open>\<open>if !out.contains(&x) { out.push(x) }\<close>.\<close>

definition push_new :: "'a list \<Rightarrow> 'a \<Rightarrow> 'a list" where
  "push_new xs x = (if x \<in> set xs then xs else xs @ [x])"

lemma set_push_new [simp]: "set (push_new xs x) = insert x (set xs)"
  by (auto simp: push_new_def)

lemma distinct_push_new [simp]: "distinct xs \<Longrightarrow> distinct (push_new xs x)"
  by (auto simp: push_new_def)

text \<open>First-seen order without repetitions, as several components collect keys.\<close>

definition first_seen :: "'a list \<Rightarrow> 'a list" where
  "first_seen xs = foldl push_new [] xs"

lemma foldl_push_new_set: "set (foldl push_new acc xs) = set acc \<union> set xs"
  by (induction xs arbitrary: acc) auto

lemma foldl_push_new_distinct: "distinct acc \<Longrightarrow> distinct (foldl push_new acc xs)"
  by (induction xs arbitrary: acc) auto

lemma set_first_seen [simp]: "set (first_seen xs) = set xs"
  by (simp add: first_seen_def foldl_push_new_set)

lemma distinct_first_seen [simp]: "distinct (first_seen xs)"
  by (simp add: first_seen_def foldl_push_new_distinct)

lemma foldl_push_new_map:
  "foldl (\<lambda>out a. push_new out (f a)) acc xs = foldl push_new acc (map f xs)"
  by (induction xs arbitrary: acc) auto

text \<open>The stable descending sort \<open>sort_by_key(|x| Reverse(key(x)))\<close> on integer keys.\<close>

definition sort_desc :: "('a \<Rightarrow> int) \<Rightarrow> 'a list \<Rightarrow> 'a list" where
  "sort_desc key xs = sort_key (\<lambda>x. - key x) xs"

lemma mset_sort_desc [simp]: "mset (sort_desc key xs) = mset xs"
  by (simp add: sort_desc_def)

lemma set_sort_desc [simp]: "set (sort_desc key xs) = set xs"
  by (simp add: sort_desc_def)

lemma length_sort_desc [simp]: "length (sort_desc key xs) = length xs"
  by (simp add: sort_desc_def)

lemma sort_desc_sorted: "sorted_wrt (\<lambda>x y. key y \<le> key x) (sort_desc key xs)"
proof -
  have "sorted (map (\<lambda>x. - key x) (sort_desc key xs))"
    unfolding sort_desc_def by (rule sorted_sort_key)
  then show ?thesis
    by (simp add: sorted_wrt_map)
qed

lemma filter_sort_desc:
  "filter p (sort_desc key xs) = sort_desc key (filter p xs)"
  by (simp add: sort_desc_def filter_sort)

text \<open>
  The stable \<open>sort_by\<close> of a comparison, given as \<open>cmp(a, b) != Greater\<close>; insertion keeps
  equal elements in their order. It sorts when the comparison is total and transitive.
\<close>

fun insort_by :: "('a \<Rightarrow> 'a \<Rightarrow> bool) \<Rightarrow> 'a \<Rightarrow> 'a list \<Rightarrow> 'a list" where
  "insort_by le x [] = [x]"
| "insort_by le x (y # ys) = (if le x y then x # y # ys else y # insort_by le x ys)"

definition sort_by :: "('a \<Rightarrow> 'a \<Rightarrow> bool) \<Rightarrow> 'a list \<Rightarrow> 'a list" where
  "sort_by le xs = foldr (insort_by le) xs []"

lemma mset_insort_by [simp]: "mset (insort_by le x ys) = add_mset x (mset ys)"
  by (induction ys) auto

lemma mset_sort_by [simp]: "mset (sort_by le xs) = mset xs"
  by (induction xs) (simp_all add: sort_by_def)

lemma set_sort_by [simp]: "set (sort_by le xs) = set xs"
  by (metis mset_sort_by set_mset_mset)

lemma length_sort_by [simp]: "length (sort_by le xs) = length xs"
  by (metis mset_sort_by size_mset)

lemma distinct_sort_by [simp]: "distinct (sort_by le xs) = distinct xs"
  by (metis mset_sort_by mset_eq_imp_distinct_iff)

definition total_on_set :: "'a set \<Rightarrow> ('a \<Rightarrow> 'a \<Rightarrow> bool) \<Rightarrow> bool" where
  "total_on_set A le \<longleftrightarrow> (\<forall>x \<in> A. \<forall>y \<in> A. (le x y \<or> le y x) \<and> (\<forall>z \<in> A. le x y \<longrightarrow> le y z \<longrightarrow> le x z))"

lemma total_on_setD:
  assumes "total_on_set A le" "x \<in> A" "y \<in> A"
  shows "le x y \<or> le y x" "z \<in> A \<Longrightarrow> le x y \<Longrightarrow> le y z \<Longrightarrow> le x z"
  using assms unfolding total_on_set_def by blast+

lemma total_on_set_subset: "total_on_set A le \<Longrightarrow> B \<subseteq> A \<Longrightarrow> total_on_set B le"
  unfolding total_on_set_def by blast

lemma sorted_insort_by:
  assumes "sorted_wrt le ys" "total_on_set (insert x (set ys)) le"
  shows "sorted_wrt le (insort_by le x ys)"
  using assms
proof (induction ys)
  case (Cons y ys)
  note tot = total_on_setD[OF Cons.prems(2)]
  have "total_on_set (insert x (set ys)) le"
    by (rule total_on_set_subset[OF Cons.prems(2)]) auto
  then have ih: "sorted_wrt le (insort_by le x ys)" using Cons by simp
  have members: "set (insort_by le x ys) = insert x (set ys)"
    by (metis mset_insort_by set_mset_add_mset_insert set_mset_mset)
  show ?case
  proof (cases "le x y")
    case True
    have "le x z" if "z \<in> set ys" for z
      using tot(2)[of x y z] Cons.prems(1) True that by simp
    with True Cons.prems(1) show ?thesis by simp
  next
    case False
    with tot(1)[of x y] have "le y x" by simp
    with False ih Cons.prems(1) members show ?thesis by simp
  qed
qed simp

lemma sorted_sort_by:
  assumes "total_on_set (set xs) le" shows "sorted_wrt le (sort_by le xs)"
  using assms
proof (induction xs)
  case Nil
  then show ?case by (simp add: sort_by_def)
next
  case (Cons x xs)
  have "total_on_set (set xs) le" by (rule total_on_set_subset[OF Cons.prems]) auto
  then have "sorted_wrt le (sort_by le xs)" by (rule Cons.IH)
  then have "sorted_wrt le (insort_by le x (sort_by le xs))"
    using Cons.prems by (intro sorted_insort_by) simp_all
  then show ?case by (simp add: sort_by_def)
qed

text \<open>Sorting positions is sorting what they stand for; a strict order sorts in one way.\<close>

lemma map_insort_by: "map f (insort_by (\<lambda>i j. le (f i) (f j)) x ys) = insort_by le (f x) (map f ys)"
  by (induction ys) auto

lemma map_sort_by: "map f (sort_by (\<lambda>i j. le (f i) (f j)) xs) = sort_by le (map f xs)"
  by (induction xs) (simp_all add: sort_by_def map_insort_by)

lemma sort_by_cong:
  assumes "\<And>x y. x \<in> set xs \<Longrightarrow> y \<in> set xs \<Longrightarrow> le x y = le' x y"
  shows "sort_by le xs = sort_by le' xs"
proof -
  have insort: "(\<And>y. y \<in> set ys \<Longrightarrow> le x y = le' x y) \<Longrightarrow> insort_by le x ys = insort_by le' x ys" for x ys
    by (induction ys) auto
  show ?thesis using assms
  proof (induction xs)
    case (Cons x xs)
    have "sort_by le xs = sort_by le' xs" by (rule Cons.IH) (simp add: Cons.prems)
    moreover have "insort_by le x (sort_by le' xs) = insort_by le' x (sort_by le' xs)"
      by (rule insort) (simp add: Cons.prems)
    ultimately show ?case by (simp add: sort_by_def)
  qed (simp add: sort_by_def)
qed

lemma sorted_mset_unique:
  assumes "sorted_wrt le xs" "sorted_wrt le ys" "mset xs = mset ys"
    and "\<And>x y. x \<in> set xs \<Longrightarrow> y \<in> set xs \<Longrightarrow> le x y \<Longrightarrow> le y x \<Longrightarrow> x = y"
  shows "xs = ys"
  using assms
proof (induction xs arbitrary: ys)
  case Nil
  then show ?case by simp
next
  case (Cons x xs)
  obtain y ys' where ys: "ys = y # ys'" using Cons.prems(3) by (cases ys) auto
  have same: "set (x # xs) = set (y # ys')" using Cons.prems(3) ys by (metis set_mset_mset)
  have "x = y"
  proof (rule ccontr)
    assume "x \<noteq> y"
    then have "y \<in> set xs" "x \<in> set ys'" using same by auto
    then have "le x y" "le y x" using Cons.prems(1,2) ys by auto
    with Cons.prems(4)[of x y] \<open>y \<in> set xs\<close> \<open>x \<noteq> y\<close> show False by simp
  qed
  with Cons.prems ys have "xs = ys'" by (intro Cons.IH) auto
  with \<open>x = y\<close> ys show ?case by simp
qed

lemma u32_of_nat: "n < 2 ^ 32 \<Longrightarrow> unat (of_nat n :: u32) = n"
  by (simp add: unat_of_nat take_bit_nat_eq_self)

lemma u32_of_nat_one: "n < 2 ^ 32 \<Longrightarrow> (of_nat n :: u32) = 1 \<longleftrightarrow> n = 1"
  using u32_of_nat[of n] by auto

text \<open>\<open>iter().enumerate()\<close>.\<close>

lemma map_enumerate: "map (\<lambda>(i, x). f i x) (zip [0..<length xs] xs) = map (\<lambda>i. f i (xs ! i)) [0..<length xs]"
  by (rule nth_equalityI) simp_all

lemma map_nth_upt: "map (\<lambda>i. f (xs ! i)) [0..<length xs] = map f xs"
  by (rule nth_equalityI) simp_all

text \<open>\<open>max_by_key\<close> returns the \<^emph>\<open>last\<close> element of maximal key.\<close>

fun max_by_key_from :: "('a \<Rightarrow> int) \<Rightarrow> 'a \<Rightarrow> 'a list \<Rightarrow> 'a" where
  "max_by_key_from key b [] = b"
| "max_by_key_from key b (x # xs) =
     max_by_key_from key (if key b \<le> key x then x else b) xs"

fun max_by_key :: "('a \<Rightarrow> int) \<Rightarrow> 'a list \<Rightarrow> 'a option" where
  "max_by_key key [] = None"
| "max_by_key key (x # xs) = Some (max_by_key_from key x xs)"

lemma max_by_key_from_in: "max_by_key_from key b xs \<in> insert b (set xs)"
  by (induction xs arbitrary: b) auto

lemma max_by_key_from_ge:
  "y \<in> insert b (set xs) \<Longrightarrow> key y \<le> key (max_by_key_from key b xs)"
proof (induction xs arbitrary: b y)
  case Nil
  then show ?case by simp
next
  case (Cons x xs)
  let ?m = "if key b \<le> key x then x else b"
  have m: "key ?m \<le> key (max_by_key_from key ?m xs)"
    using Cons.IH[of ?m ?m] by simp
  show ?case
  proof (cases "y \<in> set xs")
    case True
    then show ?thesis using Cons.IH[of y ?m] by simp
  next
    case False
    with Cons.prems have "key y \<le> key ?m" by auto
    with m show ?thesis by simp
  qed
qed

lemma max_by_key_Some_iff: "max_by_key key xs = None \<longleftrightarrow> xs = []"
  by (cases xs) auto

lemma max_by_key_in: "max_by_key key xs = Some m \<Longrightarrow> m \<in> set xs"
  using max_by_key_from_in by (cases xs) fastforce+

lemma max_by_key_ge: "max_by_key key xs = Some m \<Longrightarrow> y \<in> set xs \<Longrightarrow> key y \<le> key m"
  by (cases xs) (auto intro!: max_by_key_from_ge)

lemma max_by_key_from_snoc:
  "max_by_key_from key b (xs @ [x]) =
     (if key (max_by_key_from key b xs) \<le> key x then x else max_by_key_from key b xs)"
  by (induction xs arbitrary: b) auto

lemma max_by_key_snoc:
  "max_by_key key (xs @ [x]) =
     (case max_by_key key xs of None \<Rightarrow> Some x | Some m \<Rightarrow> Some (if key m \<le> key x then x else m))"
  by (cases xs) (auto simp: max_by_key_from_snoc)

section \<open>Running fallible operations\<close>

text \<open>
  A client that applies a fallible state operation to one input after another, going on with
  the old state when it returns an error (the callers report the error and carry on).
\<close>

definition attempt :: "('s \<Rightarrow> 'i \<Rightarrow> 's result) \<Rightarrow> 's \<Rightarrow> 'i \<Rightarrow> 's" where
  "attempt op s i = (case op s i of Inl _ \<Rightarrow> s | Inr s' \<Rightarrow> s')"

definition attempts :: "('s \<Rightarrow> 'i \<Rightarrow> 's result) \<Rightarrow> 's \<Rightarrow> 'i list \<Rightarrow> 's" where
  "attempts op s is = foldl (attempt op) s is"

lemma attempts_Nil [simp]: "attempts op s [] = s"
  by (simp add: attempts_def)

lemma attempts_Cons [simp]: "attempts op s (i # is) = attempts op (attempt op s i) is"
  by (simp add: attempts_def)

lemma attempts_append [simp]: "attempts op s (is @ js) = attempts op (attempts op s is) js"
  by (simp add: attempts_def)

text \<open>An invariant every successful step keeps holds after any run.\<close>

lemma attempt_inv: "P s \<Longrightarrow> (\<And>s'. op s i = Inr s' \<Longrightarrow> P s') \<Longrightarrow> P (attempt op s i)"
  by (auto simp: attempt_def split: sum.split)

lemma attempts_inv:
  assumes "P s" "\<And>s i s'. P s \<Longrightarrow> op s i = Inr s' \<Longrightarrow> P s'"
  shows "P (attempts op s is)"
  using assms(1)
proof (induction "is" arbitrary: s)
  case Nil
  then show ?case by simp
next
  case (Cons i "is")
  have "P (attempt op s i)"
    using Cons.prems by (rule attempt_inv) (rule assms(2)[OF Cons.prems])
  then show ?case using Cons.IH by simp
qed

section \<open>Logs of verified items\<close>

text \<open>
  Several components keep a list of signed items and admit an item only after verifying it
  (approval decisions, moderation actions, credentials, decision records, market listings,
  arena submissions). The interface: \<open>admit\<close> is the component's operation, \<open>check\<close>
  its verification, \<open>items\<close> the list in its state. The laws: a failed check is returned and
  a successful one adds nothing but the checked item.
\<close>

locale verified_log =
  fixes check :: "'a \<Rightarrow> unit result"
    and admit :: "'l \<Rightarrow> 'a \<Rightarrow> 'l result"
    and items :: "'l \<Rightarrow> 'a list"
    and empty_log :: "'l"
  assumes items_empty: "items empty_log = []"
    and admit_err: "check a = Inl e \<Longrightarrow> admit l a = Inl e"
    and admit_ok: "check a = Inr () \<Longrightarrow> \<exists>l'. admit l a = Inr l'"
    and admit_items: "admit l a = Inr l' \<Longrightarrow> set (items l') \<subseteq> insert a (set (items l))"
begin

lemma admit_verified: "admit l a = Inr l' \<Longrightarrow> check a = Inr ()"
  by (cases "check a") (auto simp: admit_err)

lemma admit_total: "admit l a = Inl e \<longleftrightarrow> check a = Inl e"
proof (cases "check a")
  case (Inl e')
  then show ?thesis by (auto simp: admit_err)
next
  case (Inr u)
  then obtain l' where "admit l a = Inr l'" using admit_ok by (cases u) auto
  with Inr show ?thesis by auto
qed

definition all_verified :: "'l \<Rightarrow> bool" where
  "all_verified l \<longleftrightarrow> (\<forall>a \<in> set (items l). check a = Inr ())"

lemma all_verified_empty: "all_verified empty_log"
  by (simp add: all_verified_def items_empty)

lemma all_verified_admit: "all_verified l \<Longrightarrow> admit l a = Inr l' \<Longrightarrow> all_verified l'"
  unfolding all_verified_def using admit_items admit_verified by blast

lemma all_verified_attempt: "all_verified l \<Longrightarrow> all_verified (attempt admit l a)"
  by (auto simp: attempt_def split: sum.split intro: all_verified_admit)

lemma all_verified_run: "all_verified l \<Longrightarrow> all_verified (attempts admit l as)"
  by (induction as arbitrary: l) (auto simp: attempts_def intro: all_verified_attempt)

lemma run_from_empty: "a \<in> set (items (attempts admit empty_log as)) \<Longrightarrow> check a = Inr ()"
  using all_verified_run[OF all_verified_empty] by (auto simp: all_verified_def)

lemma attempts_items: "set (items (attempts admit l as)) \<subseteq> set (items l) \<union> {a \<in> set as. check a = Inr ()}"
proof (induction as arbitrary: l)
  case Nil
  then show ?case by simp
next
  case (Cons a as)
  have "set (items (attempt admit l a)) \<subseteq> set (items l) \<union> {x. x = a \<and> check x = Inr ()}"
  proof (cases "admit l a")
    case (Inl e)
    then show ?thesis by (simp add: attempt_def)
  next
    case (Inr l')
    then show ?thesis using admit_items[OF Inr] admit_verified[OF Inr] by (auto simp: attempt_def)
  qed
  with Cons.IH[of "attempt admit l a"] show ?case by (auto simp: attempts_def)
qed

end

section \<open>Lists without repeated keys\<close>

text \<open>
  Queues and logs that ignore an item whose key they already hold (drafts, decision records,
  messages of a board, announced peers). \<open>keep\<close> says which items are admitted at all.
\<close>

locale first_wins =
  fixes key :: "'a \<Rightarrow> 'k"
    and keep :: "'a \<Rightarrow> bool"
    and step :: "'l \<Rightarrow> 'a \<Rightarrow> 'l"
    and items :: "'l \<Rightarrow> 'a list"
  assumes step_items: "items (step l a) =
      (if keep a \<and> key a \<notin> key ` set (items l) then items l @ [a] else items l)"
begin

lemma step_distinct: "distinct (map key (items l)) \<Longrightarrow> distinct (map key (items (step l a)))"
  by (auto simp: step_items)

lemma run_distinct:
  "distinct (map key (items l)) \<Longrightarrow> distinct (map key (items (foldl step l as)))"
  by (induction as arbitrary: l) (auto intro!: step_distinct)

lemma step_find: "find (\<lambda>x. key x = k) (items (step l a)) =
    (case find (\<lambda>x. key x = k) (items l) of
       None \<Rightarrow> if keep a \<and> key a = k then Some a else None | Some x \<Rightarrow> Some x)"
proof (cases "key a \<in> key ` set (items l)")
  case True
  then have "key a = k \<Longrightarrow> find (\<lambda>x. key x = k) (items l) \<noteq> None"
    by (auto simp: find_None_iff)
  with True show ?thesis by (auto simp: step_items split: option.split)
next
  case False
  then show ?thesis by (auto simp: step_items find_append split: option.split)
qed

text \<open>The first admitted item of a key is the one found, whatever comes later.\<close>

lemma run_find: "find (\<lambda>x. key x = k) (items (foldl step l as)) =
    (case find (\<lambda>x. key x = k) (items l) of
       None \<Rightarrow> find (\<lambda>x. keep x \<and> key x = k) as | Some x \<Rightarrow> Some x)"
proof (induction as arbitrary: l)
  case Nil
  then show ?case by (simp split: option.split)
next
  case (Cons a as)
  show ?case
    unfolding foldl_Cons Cons.IH step_find by (simp split: option.split)
qed

lemma run_items: "set (items (foldl step l as)) \<subseteq> set (items l) \<union> {a \<in> set as. keep a}"
proof (induction as arbitrary: l)
  case Nil
  then show ?case by simp
next
  case (Cons a as)
  have "set (items (step l a)) \<subseteq> set (items l) \<union> {x. x = a \<and> keep x}"
    by (auto simp: step_items)
  with Cons.IH[of "step l a"] show ?case by auto
qed

lemma run_keys: "key ` set (items (foldl step l as)) =
    key ` set (items l) \<union> key ` {a \<in> set as. keep a}"
proof (induction as arbitrary: l)
  case Nil
  then show ?case by simp
next
  case (Cons a as)
  have "key ` set (items (step l a)) = key ` set (items l) \<union> {x. x = key a \<and> keep a}"
    by (auto simp: step_items)
  with Cons.IH[of "step l a"] show ?case by auto
qed

lemma step_again: "items (step (step l a) a) = items (step l a)"
  by (auto simp: step_items)

end

end
