(* ===== verification/Rust_Str.thy ===== *)
theory Rust_Str
  imports Prelude
begin

text \<open>
  The string operations of the Rust standard library the components use, on UTF-8 byte
  strings: decimal rendering, \<open>trim\<close>, \<open>contains\<close>, \<open>split_whitespace\<close>,
  and the length-prefixed framing every \<open>*.v1\<close> signing format is built from, with the
  proof that framing loses nothing.
\<close>

section \<open>Decimal rendering of unsigned numbers\<close>

definition digit_char :: "nat \<Rightarrow> char" where
  "digit_char d = char_of (48 + d)"

fun dec :: "nat \<Rightarrow> string" where
  "dec n = (if n < 10 then [digit_char n] else dec (n div 10) @ [digit_char (n mod 10)])"

declare dec.simps [simp del]

definition char_digit :: "char \<Rightarrow> nat" where
  "char_digit c = of_char c - 48"

definition undec :: "string \<Rightarrow> nat" where
  "undec s = foldl (\<lambda>n c. 10 * n + char_digit c) 0 s"

definition is_digit :: "char \<Rightarrow> bool" where
  "is_digit c \<longleftrightarrow> 48 \<le> (of_char c :: nat) \<and> (of_char c :: nat) \<le> 57"

lemma of_digit_char: "d < 10 \<Longrightarrow> (of_char (digit_char d) :: nat) = 48 + d"
  by (simp add: digit_char_def of_char_of take_bit_eq_mod)

lemma char_digit_digit_char [simp]: "d < 10 \<Longrightarrow> char_digit (digit_char d) = d"
  by (simp add: char_digit_def of_digit_char)

lemma is_digit_digit_char [simp]: "d < 10 \<Longrightarrow> is_digit (digit_char d)"
  by (simp add: is_digit_def of_digit_char)

lemma undec_snoc [simp]: "undec (s @ [c]) = 10 * undec s + char_digit c"
  by (simp add: undec_def)

lemma undec_dec [simp]: "undec (dec n) = n"
proof (induction n rule: dec.induct)
  case (1 n)
  show ?case
  proof (cases "n < 10")
    case True
    then show ?thesis by (subst dec.simps) (simp add: undec_def)
  next
    case False
    with "1.IH" show ?thesis by (subst dec.simps) simp
  qed
qed

lemma dec_inj [simp]: "dec m = dec n \<longleftrightarrow> m = n"
  by (metis undec_dec)

text \<open>Zero-padded to a width (\<open>{n:04}\<close>).\<close>

definition zero_pad :: "nat \<Rightarrow> nat \<Rightarrow> string" where
  "zero_pad w n = replicate (w - length (dec n)) (CHR ''0'') @ dec n"

lemma undec_zero_pad [simp]: "undec (zero_pad w n) = n"
proof -
  have "foldl (\<lambda>n c. 10 * n + char_digit c) 0 (replicate k (CHR ''0'')) = 0" for k
    by (induction k) (simp_all add: char_digit_def)
  then show ?thesis using undec_dec[of n] by (simp add: zero_pad_def undec_def)
qed

lemma zero_pad_inj [simp]: "zero_pad w m = zero_pad w n \<longleftrightarrow> m = n"
  by (metis undec_zero_pad)

lemma dec_digits: "c \<in> set (dec n) \<Longrightarrow> is_digit c"
proof (induction n arbitrary: c rule: dec.induct)
  case (1 n)
  show ?case
  proof (cases "n < 10")
    case True
    with "1.prems" show ?thesis by (subst (asm) dec.simps) simp
  next
    case False
    with "1.prems" have "c \<in> set (dec (n div 10)) \<or> c = digit_char (n mod 10)"
      by (subst (asm) dec.simps) auto
    with "1.IH" False show ?thesis by auto
  qed
qed

lemma dec_not_nil [simp]: "dec n \<noteq> []"
  by (subst dec.simps) simp

lemma not_digit_colon: "\<not> is_digit (CHR '':'')"
  by (simp add: is_digit_def)

lemma not_digit_newline: "\<not> is_digit (CHR 0x0A)"
  by (simp add: is_digit_def)

lemma dec_no_colon [simp]: "CHR '':'' \<notin> set (dec n)"
  using dec_digits not_digit_colon by blast

lemma dec_no_newline [simp]: "CHR 0x0A \<notin> set (dec n)"
  using dec_digits not_digit_newline by blast

text \<open>The display of a signed number.\<close>

definition dec_int :: "int \<Rightarrow> string" where
  "dec_int i = (if i < 0 then CHR ''-'' # dec (nat (- i)) else dec (nat i))"

lemma dec_int_inj [simp]: "dec_int i = dec_int j \<longleftrightarrow> i = j"
proof -
  have "CHR ''-'' \<notin> set (dec n)" for n
    using dec_digits[of "CHR ''-''" n] by (auto simp: is_digit_def)
  then have "CHR ''-'' # s \<noteq> dec n" for s n
    by (metis list.set_intros(1))
  then show ?thesis
    by (auto simp: dec_int_def) (metis)+
qed

lemma dec_int_clean [simp]: "CHR 0x0A \<notin> set (dec_int i)" "CHR '':'' \<notin> set (dec_int i)"
  by (simp_all add: dec_int_def)

section \<open>Separators\<close>

lemma split_at_sep:
  assumes "c \<notin> set xs" "c \<notin> set ys" "xs @ c # us = ys @ c # vs"
  shows "xs = ys \<and> us = vs"
  using assms
proof (induction xs arbitrary: ys)
  case Nil
  then show ?case by (cases ys) auto
next
  case (Cons x xs)
  then show ?case by (cases ys) auto
qed

lemma split_at_sep_iff:
  assumes "c \<notin> set xs" "c \<notin> set ys"
  shows "xs @ c # us = ys @ c # vs \<longleftrightarrow> xs = ys \<and> us = vs"
  using split_at_sep[OF assms] by blast

text \<open>The same from the end, when the separator occurs in neither tail.\<close>

lemma split_at_last_sep_iff:
  assumes "c \<notin> set us" "c \<notin> set vs"
  shows "xs @ c # us = ys @ c # vs \<longleftrightarrow> xs = ys \<and> us = vs"
proof -
  have "xs @ c # us = ys @ c # vs \<longleftrightarrow> rev us @ c # rev xs = rev vs @ c # rev ys"
    by (subst rev_is_rev_conv[symmetric]) simp
  also have "\<dots> \<longleftrightarrow> rev us = rev vs \<and> rev xs = rev ys"
    using assms by (intro split_at_sep_iff) simp_all
  finally show ?thesis by auto
qed

section \<open>Length-prefixed framing\<close>

text \<open>
  \<open>out.extend(format!("{}:", p.len())); out.extend(p); out.push(b'\n')\<close>, the loop body
  shared by every signed record, and its iteration over the record's fields.
\<close>

abbreviation newline :: char where
  "newline \<equiv> CHR 0x0A"

definition len_prefix :: "bytes \<Rightarrow> bytes" where
  "len_prefix p = dec (length p) @ '':'' @ p"

definition frame :: "bytes \<Rightarrow> bytes" where
  "frame p = len_prefix p @ [newline]"

fun frames :: "bytes list \<Rightarrow> bytes" where
  "frames [] = []"
| "frames (p # ps) = frame p @ frames ps"

lemma len_prefix_append_inj:
  "len_prefix p @ r = len_prefix q @ s \<longleftrightarrow> p = q \<and> r = s"
proof
  assume "len_prefix p @ r = len_prefix q @ s"
  then have "dec (length p) @ CHR '':'' # (p @ r) = dec (length q) @ CHR '':'' # (q @ s)"
    by (simp add: len_prefix_def)
  then have "dec (length p) = dec (length q) \<and> p @ r = q @ s"
    by (simp only: split_at_sep_iff[OF dec_no_colon dec_no_colon])
  then show "p = q \<and> r = s" by auto
qed simp

lemma frame_append_inj: "frame p @ r = frame q @ s \<longleftrightarrow> p = q \<and> r = s"
  by (simp add: frame_def len_prefix_append_inj)

lemma frame_not_nil [simp]: "frame p \<noteq> []"
  by (simp add: frame_def)

text \<open>Framing is injective on whole field lists: no field can be smuggled across a boundary.\<close>

lemma frames_inj: "frames ps = frames qs \<longleftrightarrow> ps = qs"
proof
  show "frames ps = frames qs \<Longrightarrow> ps = qs"
  proof (induction ps arbitrary: qs)
    case Nil
    then show ?case by (cases qs) auto
  next
    case (Cons p ps)
    then obtain q qs' where qs: "qs = q # qs'"
      by (cases qs) auto
    with Cons.prems have "p = q \<and> frames ps = frames qs'"
      by (simp add: frame_append_inj)
    with Cons.IH qs show ?case by blast
  qed
qed simp

lemma frames_append [simp]: "frames (ps @ qs) = frames ps @ frames qs"
  by (induction ps) auto

section \<open>Searching\<close>

text \<open>\<open>str::contains\<close>, \<open>str::starts_with\<close>, \<open>str::find\<close> of a byte string.\<close>

definition contains :: "string \<Rightarrow> string \<Rightarrow> bool" where
  "contains hay needle \<longleftrightarrow> sublist needle hay"

fun contains_code :: "string \<Rightarrow> string \<Rightarrow> bool" where
  "contains_code [] needle = (needle = [])"
| "contains_code (c # cs) needle = (prefix needle (c # cs) \<or> contains_code cs needle)"

lemma contains_eq_code [code]: "contains hay needle = contains_code hay needle"
  by (induction hay) (auto simp: contains_def sublist_Cons_right)

lemma contains_code_simps [simp]:
  "contains [] needle = (needle = [])"
  "contains (c # cs) needle = (prefix needle (c # cs) \<or> contains cs needle)"
  by (simp_all add: contains_eq_code)

lemma contains_append: "contains hay needle \<Longrightarrow> contains (pre @ hay @ post) needle"
  unfolding contains_def by (meson sublist_appendI sublist_order.order.trans)

text \<open>The number of non-overlapping matches, \<open>str::matches(p).count()\<close>, for a non-empty pattern.\<close>

function count_matches :: "string \<Rightarrow> string \<Rightarrow> nat" where
  "count_matches p [] = 0"
| "count_matches p (c # cs) =
     (if p \<noteq> [] \<and> prefix p (c # cs) then Suc (count_matches p (drop (length p) (c # cs)))
      else count_matches p cs)"
  by pat_completeness auto
termination
  by (relation "measure (\<lambda>(p, s). length s)") (auto simp: less_Suc_eq_le Suc_diff_le
      simp flip: length_greater_0_conv)

section \<open>White space\<close>

text \<open>
  One leading character of the Unicode property \<open>White_Space\<close>, which \<open>trim\<close> and
  \<open>split_whitespace\<close> use, on the UTF-8 encoding: the ASCII ones, U+0085, U+00A0, U+1680,
  U+2000 to U+200A, U+2028, U+2029, U+202F, U+205F and U+3000.
\<close>

definition ascii_ws :: "char \<Rightarrow> bool" where
  "ascii_ws c \<longleftrightarrow> (let n = (of_char c :: nat) in (9 \<le> n \<and> n \<le> 13) \<or> n = 32)"

definition ws2 :: "char \<Rightarrow> char \<Rightarrow> bool" where
  "ws2 a b \<longleftrightarrow> a = CHR 0xC2 \<and> (b = CHR 0x85 \<or> b = CHR 0xA0)"

definition ws3 :: "char \<Rightarrow> char \<Rightarrow> char \<Rightarrow> bool" where
  "ws3 a b c \<longleftrightarrow> (let n = (of_char c :: nat) in
     (a = CHR 0xE1 \<and> b = CHR 0x9A \<and> n = 128)
   \<or> (a = CHR 0xE2 \<and> b = CHR 0x80 \<and> (128 \<le> n \<and> n \<le> 138 \<or> n = 168 \<or> n = 169 \<or> n = 175))
   \<or> (a = CHR 0xE2 \<and> b = CHR 0x81 \<and> n = 159)
   \<or> (a = CHR 0xE3 \<and> b = CHR 0x80 \<and> n = 128))"

text \<open>The length in bytes of the white-space character a string starts with, 0 if none.\<close>

fun ws_len :: "string \<Rightarrow> nat" where
  "ws_len (a # b # c # s) =
     (if ascii_ws a then 1 else if ws2 a b then 2 else if ws3 a b c then 3 else 0)"
| "ws_len [a, b] = (if ascii_ws a then 1 else if ws2 a b then 2 else 0)"
| "ws_len [a] = (if ascii_ws a then 1 else 0)"
| "ws_len [] = 0"

lemma ws_len_le: "ws_len s \<le> length s"
  by (induction s rule: ws_len.induct) auto

lemma drop_shorter: "0 < n \<Longrightarrow> n \<le> length s \<Longrightarrow> length (drop n s) < length s"
  by simp

function trim_start :: "string \<Rightarrow> string" where
  "trim_start s = (if ws_len s = 0 then s else trim_start (drop (ws_len s) s))"
  by pat_completeness auto
termination
  by (relation "measure length") (simp, unfold in_measure, rule drop_shorter, simp, rule ws_len_le)

declare trim_start.simps [simp del]

text \<open>The same at the end of the string, on the reversed bytes.\<close>

fun ws_len_rev :: "string \<Rightarrow> nat" where
  "ws_len_rev (c # b # a # s) =
     (if ascii_ws c then 1 else if ws2 b c then 2 else if ws3 a b c then 3 else 0)"
| "ws_len_rev [c, b] = (if ascii_ws c then 1 else if ws2 b c then 2 else 0)"
| "ws_len_rev [c] = (if ascii_ws c then 1 else 0)"
| "ws_len_rev [] = 0"

lemma ws_len_rev_le: "ws_len_rev s \<le> length s"
  by (induction s rule: ws_len_rev.induct) auto

function trim_end_rev :: "string \<Rightarrow> string" where
  "trim_end_rev s = (if ws_len_rev s = 0 then s else trim_end_rev (drop (ws_len_rev s) s))"
  by pat_completeness auto
termination
  by (relation "measure length") (simp, unfold in_measure, rule drop_shorter, simp, rule ws_len_rev_le)

declare trim_end_rev.simps [simp del]

definition trim_end :: "string \<Rightarrow> string" where
  "trim_end s = rev (trim_end_rev (rev s))"

definition trim :: "string \<Rightarrow> string" where
  "trim s = trim_end (trim_start s)"

lemma suffix_trim_start: "suffix (trim_start s) s"
proof (induction s rule: trim_start.induct)
  case (1 s)
  show ?case
  proof (cases "ws_len s = 0")
    case True
    then show ?thesis by (simp add: trim_start.simps[of s])
  next
    case False
    with 1 show ?thesis
      by (metis suffix_drop suffix_order.trans trim_start.simps)
  qed
qed

lemma ws_len_trim_start: "ws_len (trim_start s) = 0"
proof (induction s rule: trim_start.induct)
  case (1 s)
  then show ?case by (cases "ws_len s = 0") (simp_all add: trim_start.simps[of s])
qed

lemma trim_start_id: "ws_len s = 0 \<Longrightarrow> trim_start s = s"
  by (simp add: trim_start.simps[of s])

lemma trim_start_idem: "trim_start (trim_start s) = trim_start s"
  by (rule trim_start_id) (rule ws_len_trim_start)

lemma trim_start_Nil [simp]: "trim_start [] = []"
  by (simp add: trim_start.simps[of "[]"])

lemma trim_Nil [simp]: "trim [] = []"
  by (simp add: trim_def trim_end_def trim_end_rev.simps[of "[]"])

lemma trim_space: "trim (CHR '' '' # s) = trim s"
proof -
  have "ws_len (CHR '' '' # s) = 1"
    by (cases "CHR '' '' # s" rule: ws_len.cases) (auto simp: ascii_ws_def)
  then show ?thesis by (simp add: trim_def trim_start.simps[of "CHR '' '' # s"])
qed

lemma trim_spaces: "trim (replicate n (CHR '' '') @ s) = trim s"
  by (induction n) (simp_all add: trim_space)

text \<open>A blank string is one of white space only: \<open>s.trim().is_empty()\<close>.\<close>

definition blank :: "string \<Rightarrow> bool" where
  "blank s \<longleftrightarrow> trim s = []"

lemma blank_Nil [simp]: "blank []"
  by (simp add: blank_def)

text \<open>\<open>split_whitespace\<close>: the maximal runs without white space, empty runs dropped.\<close>

function split_ws_from :: "string \<Rightarrow> string \<Rightarrow> string list" where
  "split_ws_from acc [] = (if acc = [] then [] else [rev acc])"
| "split_ws_from acc (c # cs) =
     (if ws_len (c # cs) = 0 then split_ws_from (c # acc) cs
      else (if acc = [] then [] else [rev acc]) @ split_ws_from [] (drop (ws_len (c # cs)) (c # cs)))"
  by pat_completeness auto
termination
  by (relation "measure (\<lambda>(a, s). length s)") (auto simp: less_Suc_eq_le Suc_diff_le)

definition split_whitespace :: "string \<Rightarrow> string list" where
  "split_whitespace s = split_ws_from [] s"

text \<open>\<open>lines\<close>: a line break ends a line, with a carriage return before it; no empty last line.\<close>

definition strip_cr :: "string \<Rightarrow> string" where
  "strip_cr s = (if s \<noteq> [] \<and> last s = CHR 0x0D then butlast s else s)"

fun lines_from :: "string \<Rightarrow> string \<Rightarrow> string list" where
  "lines_from acc [] = (if acc = [] then [] else [rev acc])"
| "lines_from acc (c # cs) =
     (if c = CHR 0x0A then strip_cr (rev acc) # lines_from [] cs else lines_from (c # acc) cs)"

definition str_lines :: "string \<Rightarrow> string list" where
  "str_lines s = lines_from [] s"

section \<open>ASCII case\<close>

definition ascii_lower_char :: "char \<Rightarrow> char" where
  "ascii_lower_char c = (let n = (of_char c :: nat) in if 65 \<le> n \<and> n \<le> 90 then char_of (n + 32) else c)"

definition to_ascii_lowercase :: "string \<Rightarrow> string" where
  "to_ascii_lowercase s = map ascii_lower_char s"

definition is_ascii :: "string \<Rightarrow> bool" where
  "is_ascii s \<longleftrightarrow> list_all (\<lambda>c. (of_char c :: nat) < 128) s"

definition is_ascii_lowercase :: "char \<Rightarrow> bool" where
  "is_ascii_lowercase c \<longleftrightarrow> 97 \<le> (of_char c :: nat) \<and> (of_char c :: nat) \<le> 122"

text \<open>\<open>[a, b, c].join(sep)\<close>.\<close>

fun join :: "string \<Rightarrow> string list \<Rightarrow> string" where
  "join sep [] = []"
| "join sep [x] = x"
| "join sep (x # y # xs) = x @ sep @ join sep (y # xs)"

section \<open>Strings that trimming leaves alone\<close>

definition graphic :: "char \<Rightarrow> bool" where
  "graphic c \<longleftrightarrow> (of_char c :: nat) < 128 \<and> \<not> ascii_ws c"

lemma graphic_not_ws:
  "graphic a \<Longrightarrow> \<not> ws2 a b" "graphic b \<Longrightarrow> \<not> ws2 a b"
  "graphic a \<Longrightarrow> \<not> ws3 a b c" "graphic c \<Longrightarrow> \<not> ws3 a b c"
  by (auto simp: graphic_def ws2_def ws3_def Let_def)

lemma ws_len_graphic: "graphic c \<Longrightarrow> ws_len (c # s) = 0"
  by (cases "c # s" rule: ws_len.cases) (auto simp: graphic_not_ws graphic_def)

lemma ws_len_rev_graphic: "graphic c \<Longrightarrow> ws_len_rev (c # s) = 0"
  by (cases "c # s" rule: ws_len_rev.cases) (auto simp: graphic_not_ws graphic_def)

lemma trim_graphic:
  assumes "list_all graphic s"
  shows "trim s = s"
proof (cases s rule: rev_cases)
  case Nil
  then show ?thesis by simp
next
  case (snoc t c)
  from assms snoc have c: "graphic c" by simp
  have "ws_len s = 0" using assms ws_len_graphic by (cases s) auto
  then have 1: "trim_start s = s" by (rule trim_start_id)
  have "trim_end_rev (rev s) = rev s"
    using ws_len_rev_graphic[OF c, of "rev t"] snoc
    by (subst trim_end_rev.simps) simp
  with 1 show ?thesis by (simp add: trim_def trim_end_def)
qed

lemma is_digit_graphic: "is_digit c \<Longrightarrow> graphic c"
  by (auto simp: is_digit_def graphic_def ascii_ws_def Let_def)

end
