(* ===== verification/Identity.thy ===== *)
theory Identity
  imports Rust_Str
begin

text \<open>
  Anonymous identities (\<open>agentbbs-core/src/identity.rs\<close>). The third-party code the crate
  rests on (\<open>ed25519_dalek\<close>, \<open>blake3\<close>, \<open>hex\<close>, \<open>chrono\<close>) is not under
  \<open>src/\<close>: its functions are the fields of an environment every definition takes, and
  what the theorems need of their documented behaviour is stated by the predicates
  \<open>sig_ok\<close>, \<open>hex_ok\<close> and \<open>time_ok\<close>. \<open>demo_env\<close> is a concrete
  environment satisfying all three, used by the witnesses.
\<close>

section \<open>The environment\<close>

text \<open>Instants are nanoseconds since the epoch.\<close>

type_synonym time = int

record env =
  key_err :: "bytes \<Rightarrow> string option"  \<comment> \<open>\<open>VerifyingKey::from_bytes\<close>: why the bytes are no key\<close>
  pub_of :: "bytes \<Rightarrow> bytes"  \<comment> \<open>the public key of a 32-byte seed\<close>
  sign_with :: "bytes \<Rightarrow> bytes \<Rightarrow> bytes"  \<comment> \<open>seed, message: the signature\<close>
  vk_verify :: "bytes \<Rightarrow> bytes \<Rightarrow> bytes \<Rightarrow> bool"  \<comment> \<open>key, message, signature\<close>
  blake3 :: "bytes \<Rightarrow> bytes"  \<comment> \<open>the 32-byte digest\<close>
  hex_enc :: "bytes \<Rightarrow> string"
  hex_dec :: "string \<Rightarrow> string + bytes"
  rfc3339 :: "time \<Rightarrow> string"
  to_lower :: "string \<Rightarrow> string"  \<comment> \<open>\<open>str::to_lowercase\<close>, full Unicode\<close>

definition blake3_hex :: "env \<Rightarrow> bytes \<Rightarrow> string" where
  "blake3_hex E m = hex_enc E (blake3 E m)"

definition sig_ok :: "env \<Rightarrow> bool" where
  "sig_ok E \<longleftrightarrow> (\<forall>seed msg. length seed = 32 \<longrightarrow>
     key_err E (pub_of E seed) = None \<and> length (pub_of E seed) = 32
   \<and> length (sign_with E seed msg) = 64 \<and> vk_verify E (pub_of E seed) msg (sign_with E seed msg))"

definition is_hex_digit :: "char \<Rightarrow> bool" where
  "is_hex_digit c \<longleftrightarrow> is_digit c \<or> (97 \<le> (of_char c :: nat) \<and> (of_char c :: nat) \<le> 102)"

definition hex_ok :: "env \<Rightarrow> bool" where
  "hex_ok E \<longleftrightarrow> (\<forall>b. hex_dec E (hex_enc E b) = Inr b \<and> length (hex_enc E b) = 2 * length b
     \<and> list_all is_hex_digit (hex_enc E b))"

definition time_ok :: "env \<Rightarrow> bool" where
  "time_ok E \<longleftrightarrow> inj (rfc3339 E) \<and> (\<forall>t. newline \<notin> set (rfc3339 E t))"

section \<open>Identifiers and signatures\<close>

definition AGENT_ID_LEN :: nat where
  "AGENT_ID_LEN = 32"

datatype agent_id = AgentId (as_bytes: bytes)

datatype signature = SignatureBytes (sig_bytes: bytes)

definition from_bytes :: "env \<Rightarrow> bytes \<Rightarrow> agent_id result" where
  "from_bytes E b = (case key_err E b of
     Some e \<Rightarrow> Inl (malformed ''agent id'' e) | None \<Rightarrow> Inr (AgentId b))"

definition from_hex :: "env \<Rightarrow> string \<Rightarrow> agent_id result" where
  "from_hex E s = (case hex_dec E (trim s) of
     Inl e \<Rightarrow> Inl (malformed ''agent id hex'' e)
   | Inr raw \<Rightarrow> if length raw = AGENT_ID_LEN then from_bytes E raw
                else Inl (malformed ''agent id'' ''expected 32 bytes''))"

definition to_hex :: "env \<Rightarrow> agent_id \<Rightarrow> string" where
  "to_hex E a = hex_enc E (as_bytes a)"

definition short_id :: "env \<Rightarrow> agent_id \<Rightarrow> string" where
  "short_id E a = hex_enc E (take 4 (as_bytes a))"

definition verify_sig :: "env \<Rightarrow> agent_id \<Rightarrow> bytes \<Rightarrow> signature \<Rightarrow> unit result" where
  "verify_sig E a msg sg = (case key_err E (as_bytes a) of
     Some e \<Rightarrow> Inl (malformed ''agent id'' e)
   | None \<Rightarrow> if vk_verify E (as_bytes a) msg (sig_bytes sg) then Inr () else Inl BadSignature)"

definition sig_to_hex :: "env \<Rightarrow> signature \<Rightarrow> string" where
  "sig_to_hex E sg = hex_enc E (sig_bytes sg)"

definition sig_from_hex :: "env \<Rightarrow> string \<Rightarrow> signature result" where
  "sig_from_hex E s = (case hex_dec E (trim s) of
     Inl e \<Rightarrow> Inl (malformed ''signature hex'' e)
   | Inr raw \<Rightarrow> if length raw = 64 then Inr (SignatureBytes raw)
                else Inl (malformed ''signature'' ''expected 64 bytes''))"

section \<open>Local identities\<close>

record identity =
  signing :: bytes
  ident :: agent_id

definition from_seed :: "env \<Rightarrow> bytes \<Rightarrow> identity" where
  "from_seed E seed = \<lparr>signing = seed, ident = AgentId (pub_of E seed)\<rparr>"

text \<open>\<open>Identity::generate\<close>: the operating system's random bytes are an argument.\<close>

definition generate :: "env \<Rightarrow> bytes \<Rightarrow> identity" where
  "generate E rnd = from_seed E rnd"

definition secret_seed :: "identity \<Rightarrow> bytes" where
  "secret_seed i = signing i"

definition sign :: "env \<Rightarrow> identity \<Rightarrow> bytes \<Rightarrow> signature" where
  "sign E i msg = SignatureBytes (sign_with E (signing i) msg)"

text \<open>The type's invariant: an identity is built from a seed, its id is the seed's public key.\<close>

definition identity_wf :: "env \<Rightarrow> identity \<Rightarrow> bool" where
  "identity_wf E i \<longleftrightarrow> length (signing i) = 32 \<and> ident i = AgentId (pub_of E (signing i))"

lemma identity_wf_from_seed: "length seed = 32 \<Longrightarrow> identity_wf E (from_seed E seed)"
  by (simp add: identity_wf_def from_seed_def)

section \<open>Lemmas\<close>

lemma hex_enc_inj: "hex_ok E \<Longrightarrow> hex_enc E a = hex_enc E b \<longleftrightarrow> a = b"
  by (metis hex_ok_def sum.inject(2))

lemma to_hex_inj: "hex_ok E \<Longrightarrow> to_hex E a = to_hex E b \<longleftrightarrow> a = b"
  by (cases a; cases b) (simp add: to_hex_def hex_enc_inj)

lemma rfc3339_inj: "time_ok E \<Longrightarrow> rfc3339 E s = rfc3339 E t \<longleftrightarrow> s = t"
  by (auto simp: time_ok_def inj_def)

lemma is_hex_digit_graphic: "is_hex_digit c \<Longrightarrow> graphic c"
  by (auto simp: is_hex_digit_def is_digit_def graphic_def ascii_ws_def Let_def)

lemma trim_hex: "hex_ok E \<Longrightarrow> trim (hex_enc E b) = hex_enc E b"
  by (rule trim_graphic) (auto simp: hex_ok_def list_all_iff intro: is_hex_digit_graphic)

lemma newline_not_hex: "hex_ok E \<Longrightarrow> newline \<notin> set (hex_enc E b)"
  by (fastforce simp: hex_ok_def list_all_iff is_hex_digit_def is_digit_def)

lemma newline_not_to_hex: "hex_ok E \<Longrightarrow> newline \<notin> set (to_hex E a)"
  by (simp add: to_hex_def newline_not_hex)

lemma to_hex_length: "hex_ok E \<Longrightarrow> length (to_hex E a) = 2 * length (as_bytes a)"
  by (simp add: to_hex_def hex_ok_def)

text \<open>What a successful verification means, and that one's own signatures verify.\<close>

lemma verify_sig_Inr_iff [result_simps]:
  "verify_sig E a msg sg = Inr u \<longleftrightarrow>
     key_err E (as_bytes a) = None \<and> vk_verify E (as_bytes a) msg (sig_bytes sg)"
  by (auto simp: verify_sig_def split: option.splits)

lemma verify_sign:
  assumes "sig_ok E" "identity_wf E i"
  shows "verify_sig E (ident i) msg (sign E i msg) = Inr ()"
  using assms by (simp add: result_simps sig_ok_def identity_wf_def sign_def)

lemma from_hex_to_hex:
  assumes "hex_ok E" "length (as_bytes a) = AGENT_ID_LEN" "key_err E (as_bytes a) = None"
  shows "from_hex E (to_hex E a) = Inr a"
  using assms trim_hex[OF assms(1), of "as_bytes a"]
  by (simp add: from_hex_def to_hex_def hex_ok_def from_bytes_def)

lemma from_hex_Inr:
  "from_hex E s = Inr a \<Longrightarrow> length (as_bytes a) = AGENT_ID_LEN \<and> key_err E (as_bytes a) = None"
  by (auto simp: from_hex_def from_bytes_def split: sum.splits if_splits option.splits)

lemma sig_from_hex_to_hex:
  assumes "hex_ok E" "length (sig_bytes sg) = 64"
  shows "sig_from_hex E (sig_to_hex E sg) = Inr sg"
  using assms trim_hex[OF assms(1), of "sig_bytes sg"]
  by (simp add: sig_from_hex_def sig_to_hex_def hex_ok_def)

section \<open>A concrete environment\<close>

definition nibble_char :: "nat \<Rightarrow> char" where
  "nibble_char n = (if n < 10 then char_of (48 + n) else char_of (87 + n))"

definition char_nibble :: "char \<Rightarrow> nat option" where
  "char_nibble c = (let n = (of_char c :: nat) in
     if 48 \<le> n \<and> n \<le> 57 then Some (n - 48)
     else if 97 \<le> n \<and> n \<le> 102 then Some (n - 87) else None)"

fun demo_hex_enc :: "bytes \<Rightarrow> string" where
  "demo_hex_enc [] = []"
| "demo_hex_enc (c # cs) = (let n = (of_char c :: nat) in
     nibble_char (n div 16) # nibble_char (n mod 16) # demo_hex_enc cs)"

fun demo_hex_dec :: "string \<Rightarrow> string + bytes" where
  "demo_hex_dec [] = Inr []"
| "demo_hex_dec [c] = Inl ''Odd number of digits''"
| "demo_hex_dec (a # b # cs) =
     (case (char_nibble a, char_nibble b) of
        (Some x, Some y) \<Rightarrow>
          (case demo_hex_dec cs of Inl e \<Rightarrow> Inl e | Inr bs \<Rightarrow> Inr (char_of (16 * x + y) # bs))
      | _ \<Rightarrow> Inl ''Invalid character'')"

definition demo_sig :: "bytes \<Rightarrow> bytes \<Rightarrow> bytes" where
  "demo_sig k m = take 64 (k @ rev m @ replicate 64 (CHR 0x00))"

definition demo_time :: "time \<Rightarrow> string" where
  "demo_time t = (if t < 0 then ''-'' else ''+'') @ dec (nat \<bar>t\<bar>)"

definition demo_env :: env where
  "demo_env = \<lparr>key_err = (\<lambda>_. None), pub_of = (\<lambda>s. s), sign_with = demo_sig,
     vk_verify = (\<lambda>k m s. s = demo_sig k m), blake3 = (\<lambda>m. m),
     hex_enc = demo_hex_enc, hex_dec = demo_hex_dec, rfc3339 = demo_time,
     to_lower = to_ascii_lowercase\<rparr>"

lemma of_char_less: "(of_char (c :: char) :: nat) < 256"
  using nat_of_char_less_256 by simp

lemma char_nibble_nibble_char: "n < 16 \<Longrightarrow> char_nibble (nibble_char n) = Some n"
  by (auto simp: nibble_char_def char_nibble_def Let_def of_char_of take_bit_eq_mod)

lemma nibble_char_hex: "n < 16 \<Longrightarrow> is_hex_digit (nibble_char n)"
  by (auto simp: nibble_char_def is_hex_digit_def is_digit_def of_char_of take_bit_eq_mod)

lemma nibble_bounds: "(of_char (c :: char) :: nat) div 16 < 16"
  using of_char_less[of c] by linarith

lemma demo_hex_roundtrip: "demo_hex_dec (demo_hex_enc b) = Inr b"
  by (induction b) (simp_all add: Let_def char_nibble_nibble_char nibble_bounds)

lemma demo_hex_length: "length (demo_hex_enc b) = 2 * length b"
  by (induction b) (simp_all add: Let_def)

lemma demo_hex_digits: "list_all is_hex_digit (demo_hex_enc b)"
  by (induction b) (simp_all add: Let_def nibble_char_hex nibble_bounds)

lemma demo_time_inj: "demo_time s = demo_time t \<longleftrightarrow> s = t"
  by (auto simp: demo_time_def split: if_splits)

lemma demo_time_no_newline: "newline \<notin> set (demo_time t)"
  by (simp add: demo_time_def)

lemma demo_sig_ok: "sig_ok demo_env"
  by (auto simp: sig_ok_def demo_env_def demo_sig_def)

lemma demo_hex_ok: "hex_ok demo_env"
  by (simp add: hex_ok_def demo_env_def demo_hex_roundtrip demo_hex_length demo_hex_digits)

lemma demo_time_ok: "time_ok demo_env"
  by (simp add: time_ok_def demo_env_def inj_def demo_time_inj demo_time_no_newline)

lemmas demo_laws = demo_sig_ok demo_hex_ok demo_time_ok

text \<open>Seeds and identities the witnesses use.\<close>

definition demo_seed :: "nat \<Rightarrow> bytes" where
  "demo_seed n = replicate 32 (char_of (65 + n))"

definition demo_id :: "nat \<Rightarrow> identity" where
  "demo_id n = from_seed demo_env (demo_seed n)"

lemma length_demo_seed [simp]: "length (demo_seed n) = 32"
  by (simp add: demo_seed_def)

lemma demo_id_wf: "identity_wf demo_env (demo_id n)"
  by (simp add: demo_id_def identity_wf_from_seed)

end
