(* ===== verification/Signed.thy ===== *)
theory Signed
  imports Identity
begin

text \<open>
  What the control-plane records have in common: each is signed over a versioned tag and
  length-prefixed fields. The interface \<open>signed_record\<close> states the contract of such a
  record type (its verification checks the signature over its bytes, and its bytes
  determine its content); approvals, moderation actions, credentials, decision records,
  rotation links and endorsements interpret it in their own theories.
\<close>

text \<open>A version tag, then every field as \<open>len:bytes\<close> and a newline.\<close>

definition framed :: "bytes \<Rightarrow> bytes list \<Rightarrow> bytes" where
  "framed tag ps = tag @ frames ps"

lemma framed_inj [simp]: "framed tag ps = framed tag qs \<longleftrightarrow> ps = qs"
  by (simp add: framed_def frames_inj)

text \<open>
  Unforgeability of a key's signatures, as a property of the environment: whatever verifies
  under key \<open>k\<close> is a message its owner signed. \<open>S k\<close> is the set of messages the owner of
  \<open>k\<close> has signed.
\<close>

definition unforgeable :: "env \<Rightarrow> (agent_id \<Rightarrow> bytes set) \<Rightarrow> bool" where
  "unforgeable E S \<longleftrightarrow> (\<forall>k m s. vk_verify E (as_bytes k) m s \<longrightarrow> m \<in> S k)"

locale signed_record =
  fixes bytes_of :: "env \<Rightarrow> 'a \<Rightarrow> bytes"
    and signer :: "'a \<Rightarrow> agent_id"
    and sig_of :: "'a \<Rightarrow> signature"
    and content :: "'a \<Rightarrow> 'c"
    and check :: "env \<Rightarrow> 'a \<Rightarrow> unit result"
  assumes check_sig: "check E a = Inr () \<Longrightarrow> verify_sig E (signer a) (bytes_of E a) (sig_of a) = Inr ()"
    and binding: "hex_ok E \<Longrightarrow> time_ok E \<Longrightarrow> bytes_of E a = bytes_of E b \<longleftrightarrow> content a = content b"
begin

text \<open>The bytes of an accepted record were signed by its signer, and they have one reading only.\<close>

lemma authentic:
  assumes "hex_ok E" "time_ok E" "unforgeable E S" and ok: "check E a = Inr ()"
  shows "bytes_of E a \<in> S (signer a) \<and> (\<forall>b. bytes_of E b = bytes_of E a \<longrightarrow> content b = content a)"
proof
  have "vk_verify E (as_bytes (signer a)) (bytes_of E a) (sig_bytes (sig_of a))"
    using check_sig[OF ok] by (simp add: result_simps)
  with assms(3) show "bytes_of E a \<in> S (signer a)"
    unfolding unforgeable_def by blast
  show "\<forall>b. bytes_of E b = bytes_of E a \<longrightarrow> content b = content a"
    using binding[OF assms(1,2)] by blast
qed

lemma tampered_bytes:
  "hex_ok E \<Longrightarrow> time_ok E \<Longrightarrow> content a \<noteq> content b \<Longrightarrow> bytes_of E a \<noteq> bytes_of E b"
  by (simp add: binding)

end

end
