(* ===== verification/Approval.thy ===== *)
theory Approval
  imports Signed
begin

text \<open>
  Human-in-the-loop approval gates (\<open>agentbbs-core/src/approval.rs\<close>): content-addressed
  proposals, signed decisions, and the gate that answers whether an action is authorized.
\<close>

section \<open>Model\<close>

datatype verdict = Approve | Reject

definition approval_compose :: "bytes list \<Rightarrow> bytes" where
  "approval_compose parts = framed (''agentbbs.approval.v1'' @ [newline]) parts"

record action_proposal =
  ap_action_id :: string
  ap_kind :: string
  ap_summary :: string
  ap_proposer :: agent_id
  ap_board :: string
  ap_created_at :: time

definition proposal_new ::
  "env \<Rightarrow> string \<Rightarrow> string \<Rightarrow> agent_id \<Rightarrow> string \<Rightarrow> time \<Rightarrow> action_proposal" where
  "proposal_new E kind summary proposer board created_at =
     (let bytes = approval_compose
            [kind, summary, to_hex E proposer, board, rfc3339 E created_at]
      in \<lparr>ap_action_id = blake3_hex E bytes, ap_kind = kind, ap_summary = summary,
          ap_proposer = proposer, ap_board = board, ap_created_at = created_at\<rparr>)"

record signed_decision =
  sd_action_id :: string
  sd_verdict :: verdict
  sd_reason :: string
  sd_decider :: agent_id
  sd_created_at :: time
  sd_signature :: signature

fun verdict_bytes :: "verdict \<Rightarrow> bytes" where
  "verdict_bytes Approve = ''approve''"
| "verdict_bytes Reject = ''reject''"

definition decision_signing_bytes ::
  "env \<Rightarrow> string \<Rightarrow> verdict \<Rightarrow> string \<Rightarrow> agent_id \<Rightarrow> time \<Rightarrow> bytes" where
  "decision_signing_bytes E action_id verdict reason decider created_at =
     approval_compose [action_id, verdict_bytes verdict, reason, to_hex E decider,
       rfc3339 E created_at]"

definition decision_sign ::
  "env \<Rightarrow> identity \<Rightarrow> string \<Rightarrow> verdict \<Rightarrow> string \<Rightarrow> time \<Rightarrow> signed_decision" where
  "decision_sign E i action_id verdict reason created_at =
     \<lparr>sd_action_id = action_id, sd_verdict = verdict, sd_reason = reason, sd_decider = ident i,
      sd_created_at = created_at,
      sd_signature =
        sign E i (decision_signing_bytes E action_id verdict reason (ident i) created_at)\<rparr>"

definition decision_bytes :: "env \<Rightarrow> signed_decision \<Rightarrow> bytes" where
  "decision_bytes E d = decision_signing_bytes E (sd_action_id d) (sd_verdict d) (sd_reason d)
     (sd_decider d) (sd_created_at d)"

definition decision_verify :: "env \<Rightarrow> signed_decision \<Rightarrow> unit result" where
  "decision_verify E d = verify_sig E (sd_decider d) (decision_bytes E d) (sd_signature d)"

text \<open>The gate keeps the decisions in the order they were recorded.\<close>

record approval_gate =
  decisions :: "signed_decision list"

definition gate_new :: approval_gate where
  "gate_new = \<lparr>decisions = []\<rparr>"

definition gate_record :: "env \<Rightarrow> approval_gate \<Rightarrow> signed_decision \<Rightarrow> approval_gate result" where
  "gate_record E g d =
     rbind (decision_verify E d) (\<lambda>_. Inr (g\<lparr>decisions := decisions g @ [d]\<rparr>))"

definition decisions_for :: "approval_gate \<Rightarrow> string \<Rightarrow> signed_decision list" where
  "decisions_for g action_id = filter (\<lambda>d. sd_action_id d = action_id) (decisions g)"

text \<open>The scan of the relevant decisions: a rejection returns at once.\<close>

fun authorize_scan :: "bool \<Rightarrow> signed_decision list \<Rightarrow> bool" where
  "authorize_scan approved [] = approved"
| "authorize_scan approved (d # ds) =
     (case sd_verdict d of Reject \<Rightarrow> False | Approve \<Rightarrow> authorize_scan True ds)"

definition is_authorized :: "env \<Rightarrow> approval_gate \<Rightarrow> string \<Rightarrow> agent_id list \<Rightarrow> bool" where
  "is_authorized E g action_id allowed =
     (let allowed_hex = to_hex E ` set allowed
      in authorize_scan False
           (filter (\<lambda>d. sd_action_id d = action_id \<and> to_hex E (sd_decider d) \<in> allowed_hex)
             (decisions g)))"

section \<open>Signed decisions\<close>

definition decision_content :: "signed_decision \<Rightarrow> string \<times> verdict \<times> string \<times> agent_id \<times> time" where
  "decision_content d =
     (sd_action_id d, sd_verdict d, sd_reason d, sd_decider d, sd_created_at d)"

lemma verdict_bytes_inj [simp]: "verdict_bytes v = verdict_bytes w \<longleftrightarrow> v = w"
  by (cases v; cases w) simp_all

interpretation decision_rec: signed_record decision_bytes sd_decider sd_signature
  decision_content decision_verify
proof unfold_locales
  fix E :: env and a b :: signed_decision
  show "decision_verify E a = Inr () \<Longrightarrow>
      verify_sig E (sd_decider a) (decision_bytes E a) (sd_signature a) = Inr ()"
    by (simp add: decision_verify_def)
  show "hex_ok E \<Longrightarrow> time_ok E \<Longrightarrow>
      decision_bytes E a = decision_bytes E b \<longleftrightarrow> decision_content a = decision_content b"
    by (simp add: decision_bytes_def decision_signing_bytes_def approval_compose_def
        decision_content_def to_hex_inj rfc3339_inj)
qed

interpretation gate_log: verified_log "decision_verify E" "gate_record E" decisions gate_new
  for E :: env
proof unfold_locales
  fix a e l l'
  show "decisions gate_new = []" by (simp add: gate_new_def)
  show "decision_verify E a = Inl e \<Longrightarrow> gate_record E l a = Inl e"
    by (simp add: gate_record_def)
  show "decision_verify E a = Inr () \<Longrightarrow> \<exists>l'. gate_record E l a = Inr l'"
    by (simp add: gate_record_def)
  show "gate_record E l a = Inr l' \<Longrightarrow> set (decisions l') \<subseteq> insert a (set (decisions l))"
    by (auto simp: gate_record_def result_simps)
qed

lemma decision_sign_verifies:
  "sig_ok E \<Longrightarrow> identity_wf E i \<Longrightarrow> decision_verify E (decision_sign E i aid v r t) = Inr ()"
  by (simp add: decision_verify_def decision_bytes_def decision_sign_def verify_sign)

section \<open>Authorization\<close>

lemma authorize_scan_iff:
  "authorize_scan b ds \<longleftrightarrow>
     (b \<or> (\<exists>d \<in> set ds. sd_verdict d = Approve)) \<and> (\<forall>d \<in> set ds. sd_verdict d \<noteq> Reject)"
proof (induction ds arbitrary: b)
  case Nil
  then show ?case by simp
next
  case (Cons d ds)
  then show ?case by (cases "sd_verdict d") auto
qed

definition votes :: "approval_gate \<Rightarrow> string \<Rightarrow> agent_id list \<Rightarrow> verdict \<Rightarrow> bool" where
  "votes g action_id allowed v \<longleftrightarrow>
     (\<exists>d \<in> set (decisions g). sd_action_id d = action_id \<and> sd_decider d \<in> set allowed \<and>
        sd_verdict d = v)"

lemma is_authorized_votes:
  assumes "hex_ok E"
  shows "is_authorized E g action_id allowed \<longleftrightarrow>
    votes g action_id allowed Approve \<and> \<not> votes g action_id allowed Reject"
  using assms by (auto simp: is_authorized_def authorize_scan_iff votes_def Let_def to_hex_inj)

text \<open>Offering decisions to the gate adds exactly the verified ones, in order.\<close>

lemma gate_attempts:
  "decisions (attempts (gate_record E) g ds) =
     decisions g @ filter (\<lambda>d. decision_verify E d = Inr ()) ds"
proof (induction ds arbitrary: g)
  case Nil
  then show ?case by simp
next
  case (Cons d ds)
  then show ?case
    by (cases "decision_verify E d") (auto simp: attempt_def gate_record_def)
qed

lemma votes_attempts_mono:
  "votes g aid allowed v \<Longrightarrow> votes (attempts (gate_record E) g ds) aid allowed v"
  by (auto simp: votes_def gate_attempts)

lemmas approval_simps = is_authorized_votes votes_def gate_attempts

section \<open>Properties\<close>

text \<open>
  Property C17. An action is authorized by a gate fed with any sequence of decisions exactly
  when some verified decision of an allowed decider approves it and none rejects it: forged
  decisions count for nothing, one veto outweighs any number of approvals, in any order.
\<close>

theorem approval_gate_decides:
  assumes "hex_ok E"
  shows "is_authorized E (attempts (gate_record E) gate_new ds) aid allowed \<longleftrightarrow>
    (\<exists>d \<in> set ds. decision_verify E d = Inr () \<and> sd_action_id d = aid \<and>
        sd_decider d \<in> set allowed \<and> sd_verdict d = Approve) \<and>
    \<not> (\<exists>d \<in> set ds. decision_verify E d = Inr () \<and> sd_action_id d = aid \<and>
        sd_decider d \<in> set allowed \<and> sd_verdict d = Reject)"
  using assms by (auto simp: approval_simps gate_new_def)

definition demo_approve :: signed_decision where
  "demo_approve = decision_sign demo_env (demo_id 1) ''deploy'' Approve ''ok'' 5"

definition demo_veto :: signed_decision where
  "demo_veto = decision_sign demo_env (demo_id 2) ''deploy'' Reject ''no'' 6"

lemmas demo_decisions = demo_approve_def demo_veto_def decision_sign_def

lemma demo_decisions_verify:
  "decision_verify demo_env demo_approve = Inr ()" "decision_verify demo_env demo_veto = Inr ()"
  by (simp_all add: demo_approve_def demo_veto_def decision_sign_verifies demo_laws demo_id_wf)

theorem approval_gate_decides_witness:
  "is_authorized demo_env (attempts (gate_record demo_env) gate_new [demo_approve])
     ''deploy'' [ident (demo_id 1), ident (demo_id 2)] \<and>
   \<not> is_authorized demo_env (attempts (gate_record demo_env) gate_new [demo_approve, demo_veto])
     ''deploy'' [ident (demo_id 1), ident (demo_id 2)]"
  unfolding approval_gate_decides[OF demo_hex_ok]
  by (simp add: demo_decisions_verify) (simp add: demo_decisions)

text \<open>
  A veto is final: once an allowed decider's rejection is on record, no
  sequence of later decisions, whoever signs them, makes the action authorized.
\<close>

theorem veto_is_final:
  assumes "hex_ok E" "votes g aid allowed Reject"
  shows "\<not> is_authorized E (attempts (gate_record E) g ds) aid allowed"
  using assms votes_attempts_mono by (simp add: is_authorized_votes)

theorem veto_is_final_witness:
  "votes \<lparr>decisions = [demo_veto]\<rparr> ''deploy'' [ident (demo_id 2)] Reject \<and>
   \<not> is_authorized demo_env
        (attempts (gate_record demo_env) \<lparr>decisions = [demo_veto]\<rparr> [demo_approve])
        ''deploy'' [ident (demo_id 2)]"
proof -
  have "votes \<lparr>decisions = [demo_veto]\<rparr> ''deploy'' [ident (demo_id 2)] Reject"
    by (simp add: votes_def demo_decisions)
  then show ?thesis
    using veto_is_final[OF demo_hex_ok] by blast
qed

text \<open>
  A decision binds to every field: if the deciders' keys cannot be forged (what
  verifies under a key is one of the messages its owner signed), the bytes of a decision the
  gate records were signed by its decider, and no decision differing in action, verdict,
  reason, decider or time has the same bytes.
\<close>

theorem recorded_decision_authentic:
  assumes "hex_ok E" "time_ok E" "unforgeable E S" and "gate_record E g d = Inr g'"
  shows "decision_bytes E d \<in> S (sd_decider d) \<and>
    (\<forall>d'. decision_bytes E d' = decision_bytes E d \<longrightarrow> decision_content d' = decision_content d)"
  using decision_rec.authentic[OF assms(1-3)] gate_log.admit_verified[OF assms(4)] by blast

text \<open>An environment in which decider 1 has signed one message and nothing else verifies.\<close>

definition one_signature_env :: env where
  "one_signature_env = demo_env\<lparr>vk_verify := (\<lambda>k m s. k = as_bytes (ident (demo_id 1)) \<and>
     m = decision_bytes demo_env demo_approve)\<rparr>"

lemma one_signature_laws: "hex_ok one_signature_env" "time_ok one_signature_env"
  using demo_laws by (simp_all add: one_signature_env_def hex_ok_def time_ok_def)

lemma one_signature_bytes: "decision_bytes one_signature_env d = decision_bytes demo_env d"
  by (simp add: one_signature_env_def decision_bytes_def decision_signing_bytes_def to_hex_def)

theorem recorded_decision_authentic_witness:
  "(\<exists>g'. gate_record one_signature_env gate_new demo_approve = Inr g') \<and>
   {d'. decision_bytes one_signature_env d' = decision_bytes one_signature_env demo_approve}
     \<subseteq> {d'. decision_content d' = decision_content demo_approve}"
proof -
  let ?S = "\<lambda>k. if k = ident (demo_id 1) then {decision_bytes demo_env demo_approve} else {}"
  have unf: "unforgeable one_signature_env ?S"
    unfolding unforgeable_def by (auto simp: one_signature_env_def agent_id.expand)
  have "decision_verify one_signature_env demo_approve = Inr ()"
    unfolding decision_verify_def one_signature_bytes
    by (simp add: result_simps one_signature_env_def)
       (simp add: demo_env_def demo_decisions)
  then have rec: "gate_record one_signature_env gate_new demo_approve =
      Inr (gate_new\<lparr>decisions := [demo_approve]\<rparr>)"
    by (simp add: gate_record_def gate_new_def)
  then show ?thesis
    using recorded_decision_authentic[OF one_signature_laws unf rec] by blast
qed

end
