(* ===== verification/Moderation.thy ===== *)
theory Moderation
  imports Signed
begin

text \<open>
  Moderation (\<open>agentbbs-core/src/moderation.rs\<close>): signed mute, ban, timeout and lift
  actions, the audited log, and the standing of an agent, decided by the latest action.
\<close>

section \<open>Model\<close>

datatype sanction = Mute | Ban | Timeout time | Lift

record mod_action =
  ma_target :: agent_id
  ma_sanction :: sanction
  ma_reason :: string
  ma_moderator :: agent_id
  ma_created_at :: time
  ma_signature :: signature

fun sanction_bytes :: "env \<Rightarrow> sanction \<Rightarrow> bytes" where
  "sanction_bytes E Mute = ''mute''"
| "sanction_bytes E Ban = ''ban''"
| "sanction_bytes E (Timeout until) = ''timeout:'' @ rfc3339 E until"
| "sanction_bytes E Lift = ''lift''"

definition mod_signing_bytes ::
  "env \<Rightarrow> agent_id \<Rightarrow> sanction \<Rightarrow> string \<Rightarrow> agent_id \<Rightarrow> time \<Rightarrow> bytes" where
  "mod_signing_bytes E target s reason moderator created_at =
     framed (''agentbbs.moderation.v1'' @ [newline])
       [to_hex E target, sanction_bytes E s, reason, to_hex E moderator, rfc3339 E created_at]"

definition mod_sign ::
  "env \<Rightarrow> identity \<Rightarrow> agent_id \<Rightarrow> sanction \<Rightarrow> string \<Rightarrow> time \<Rightarrow> mod_action" where
  "mod_sign E i target s reason created_at =
     \<lparr>ma_target = target, ma_sanction = s, ma_reason = reason, ma_moderator = ident i,
      ma_created_at = created_at,
      ma_signature = sign E i (mod_signing_bytes E target s reason (ident i) created_at)\<rparr>"

definition mod_bytes :: "env \<Rightarrow> mod_action \<Rightarrow> bytes" where
  "mod_bytes E a = mod_signing_bytes E (ma_target a) (ma_sanction a) (ma_reason a)
     (ma_moderator a) (ma_created_at a)"

definition mod_verify :: "env \<Rightarrow> mod_action \<Rightarrow> unit result" where
  "mod_verify E a = verify_sig E (ma_moderator a) (mod_bytes E a) (ma_signature a)"

record mod_status =
  banned :: bool
  muted :: bool
  timed_out_until :: "time option"

definition status_can_post :: "mod_status \<Rightarrow> time \<Rightarrow> bool" where
  "status_can_post st now \<longleftrightarrow> \<not> banned st \<and> \<not> muted st \<and>
     (case timed_out_until st of None \<Rightarrow> True | Some u \<Rightarrow> now \<ge> u)"

record moderation_log =
  actions :: "mod_action list"

definition mod_log_new :: moderation_log where
  "mod_log_new = \<lparr>actions = []\<rparr>"

definition mod_record :: "env \<Rightarrow> moderation_log \<Rightarrow> mod_action \<Rightarrow> moderation_log result" where
  "mod_record E l a = rbind (mod_verify E a) (\<lambda>_. Inr (l\<lparr>actions := actions l @ [a]\<rparr>))"

definition clear_status :: mod_status where
  "clear_status = \<lparr>banned = False, muted = False, timed_out_until = None\<rparr>"

definition mod_status_of :: "moderation_log \<Rightarrow> agent_id \<Rightarrow> mod_status" where
  "mod_status_of l target =
     (let latest = max_by_key ma_created_at (filter (\<lambda>a. ma_target a = target) (actions l))
      in case map_option ma_sanction latest of
           Some Ban \<Rightarrow> clear_status\<lparr>banned := True\<rparr>
         | Some Mute \<Rightarrow> clear_status\<lparr>muted := True\<rparr>
         | Some (Timeout until) \<Rightarrow> clear_status\<lparr>timed_out_until := Some until\<rparr>
         | _ \<Rightarrow> clear_status)"

definition can_post :: "moderation_log \<Rightarrow> agent_id \<Rightarrow> time \<Rightarrow> bool" where
  "can_post l target now = status_can_post (mod_status_of l target) now"

text \<open>Distinct targets in first-seen order: push the target unless the list contains it.\<close>

definition targets :: "moderation_log \<Rightarrow> agent_id list" where
  "targets l = foldl (\<lambda>out a. push_new out (ma_target a)) [] (actions l)"

section \<open>Signed actions\<close>

definition mod_content :: "mod_action \<Rightarrow> agent_id \<times> sanction \<times> string \<times> agent_id \<times> time" where
  "mod_content a = (ma_target a, ma_sanction a, ma_reason a, ma_moderator a, ma_created_at a)"

lemma sanction_bytes_inj: "time_ok E \<Longrightarrow> sanction_bytes E s = sanction_bytes E t \<longleftrightarrow> s = t"
  by (cases s; cases t) (auto simp: rfc3339_inj)

interpretation mod_rec: signed_record mod_bytes ma_moderator ma_signature mod_content mod_verify
proof unfold_locales
  fix E :: env and a b :: mod_action
  show "mod_verify E a = Inr () \<Longrightarrow>
      verify_sig E (ma_moderator a) (mod_bytes E a) (ma_signature a) = Inr ()"
    by (simp add: mod_verify_def)
  show "hex_ok E \<Longrightarrow> time_ok E \<Longrightarrow> mod_bytes E a = mod_bytes E b \<longleftrightarrow> mod_content a = mod_content b"
    by (auto simp: mod_bytes_def mod_signing_bytes_def mod_content_def to_hex_inj rfc3339_inj
        sanction_bytes_inj)
qed

interpretation mod_log: verified_log "mod_verify E" "mod_record E" actions mod_log_new for E :: env
proof unfold_locales
  fix a e l l'
  show "actions mod_log_new = []" by (simp add: mod_log_new_def)
  show "mod_verify E a = Inl e \<Longrightarrow> mod_record E l a = Inl e" by (simp add: mod_record_def)
  show "mod_verify E a = Inr () \<Longrightarrow> \<exists>l'. mod_record E l a = Inr l'" by (simp add: mod_record_def)
  show "mod_record E l a = Inr l' \<Longrightarrow> set (actions l') \<subseteq> insert a (set (actions l))"
    by (auto simp: mod_record_def result_simps)
qed

lemma mod_sign_verifies:
  "sig_ok E \<Longrightarrow> identity_wf E i \<Longrightarrow> mod_verify E (mod_sign E i target s r t) = Inr ()"
  by (simp add: mod_verify_def mod_bytes_def mod_sign_def verify_sign)

section \<open>Standing\<close>

definition history :: "moderation_log \<Rightarrow> agent_id \<Rightarrow> mod_action list" where
  "history l target = filter (\<lambda>a. ma_target a = target) (actions l)"

definition latest :: "moderation_log \<Rightarrow> agent_id \<Rightarrow> mod_action option" where
  "latest l target = max_by_key ma_created_at (history l target)"

definition silences :: "sanction \<Rightarrow> time \<Rightarrow> bool" where
  "silences s now = (case s of Mute \<Rightarrow> True | Ban \<Rightarrow> True | Timeout u \<Rightarrow> now < u | Lift \<Rightarrow> False)"

lemma can_post_latest:
  "can_post l target now \<longleftrightarrow>
     (case latest l target of None \<Rightarrow> True | Some a \<Rightarrow> \<not> silences (ma_sanction a) now)"
  by (auto simp: can_post_def status_can_post_def mod_status_of_def latest_def history_def
      clear_status_def silences_def Let_def split: option.splits sanction.splits)

lemma latest_record:
  assumes "mod_record E l a = Inr l'"
  shows "latest l' target =
    (if ma_target a \<noteq> target then latest l target
     else case latest l target of None \<Rightarrow> Some a
          | Some m \<Rightarrow> Some (if ma_created_at m \<le> ma_created_at a then a else m))"
  using assms by (auto simp: mod_record_def result_simps latest_def history_def max_by_key_snoc)

lemma latest_ge:
  "latest l target = Some m \<Longrightarrow> a \<in> set (history l target) \<Longrightarrow> ma_created_at a \<le> ma_created_at m"
  unfolding latest_def by (rule max_by_key_ge)

lemma targets_set: "set (targets l) = ma_target ` set (actions l)"
  by (simp add: targets_def foldl_push_new_map[of ma_target] foldl_push_new_set)

lemma targets_distinct: "distinct (targets l)"
  by (simp add: targets_def foldl_push_new_map[of ma_target] foldl_push_new_distinct)

section \<open>Properties\<close>

text \<open>
  Standing follows the newest action: after any accepted action, its target may
  post at an instant exactly when the action with the largest timestamp (the one just
  recorded when it is not older than the others) does not silence it then, and every other
  agent's standing is unchanged. So a ban or mute holds until a later lift, a timeout expires
  by itself, and a backdated action changes nothing.
\<close>

theorem moderation_latest_wins:
  assumes "mod_record E l a = Inr l'"
  shows "can_post l' target now \<longleftrightarrow>
    (if ma_target a = target \<and>
        (\<forall>b \<in> set (actions l). ma_target b = target \<longrightarrow> ma_created_at b \<le> ma_created_at a)
     then \<not> silences (ma_sanction a) now
     else can_post l target now)"
proof (cases "ma_target a = target")
  case False
  then show ?thesis by (simp add: can_post_latest latest_record[OF assms])
next
  case True
  show ?thesis
  proof (cases "latest l target")
    case None
    then have "history l target = []"
      by (simp add: latest_def max_by_key_Some_iff)
    then have "\<forall>b \<in> set (actions l). ma_target b \<noteq> target"
      by (auto simp: history_def filter_empty_conv)
    with True None show ?thesis
      by (simp add: can_post_latest latest_record[OF assms])
  next
    case (Some m)
    have m: "m \<in> set (actions l)" "ma_target m = target"
      using Some max_by_key_in[of ma_created_at "history l target" m]
      by (auto simp: latest_def history_def)
    have "(\<forall>b \<in> set (actions l). ma_target b = target \<longrightarrow> ma_created_at b \<le> ma_created_at a) \<longleftrightarrow>
        ma_created_at m \<le> ma_created_at a"
      using m latest_ge[OF Some] by (fastforce simp: history_def)
    with True Some show ?thesis
      by (simp add: can_post_latest latest_record[OF assms])
  qed
qed

definition demo_ban :: mod_action where
  "demo_ban = mod_sign demo_env (demo_id 0) (ident (demo_id 1)) Ban ''spam'' 10"

theorem moderation_latest_wins_witness:
  "mod_record demo_env mod_log_new demo_ban = Inr \<lparr>actions = [demo_ban]\<rparr> \<and>
   \<not> can_post \<lparr>actions = [demo_ban]\<rparr> (ident (demo_id 1)) 1000"
proof -
  have rec: "mod_record demo_env mod_log_new demo_ban = Inr \<lparr>actions = [demo_ban]\<rparr>"
    using mod_sign_verifies[OF demo_sig_ok demo_id_wf]
    by (simp add: mod_record_def mod_log_new_def demo_ban_def)
  show ?thesis
    using rec moderation_latest_wins[OF rec, of "ident (demo_id 1)" 1000]
    by (simp add: mod_log_new_def demo_ban_def mod_sign_def silences_def)
qed

end
