(* ===== verification/Rotation.thy ===== *)
theory Rotation
  imports Signed
begin

text \<open>
  Key-rotation continuity (\<open>agentbbs-core/src/rotation.rs\<close>): dual-signed links from a
  retired key to its successor, and the chain that resolves a key to the current one.
\<close>

section \<open>Model\<close>

record rotation_link =
  rl_old :: agent_id
  rl_new :: agent_id
  rl_created_at :: time
  rl_old_sig :: signature
  rl_new_sig :: signature

definition rotation_signing_bytes :: "env \<Rightarrow> agent_id \<Rightarrow> agent_id \<Rightarrow> time \<Rightarrow> bytes" where
  "rotation_signing_bytes E old new created_at =
     framed (''agentbbs.rotation.v1'' @ [newline])
       [to_hex E old, to_hex E new, rfc3339 E created_at]"

definition rotation_link_new :: "env \<Rightarrow> identity \<Rightarrow> identity \<Rightarrow> time \<Rightarrow> rotation_link" where
  "rotation_link_new E old new created_at =
     (let bytes = rotation_signing_bytes E (ident old) (ident new) created_at
      in \<lparr>rl_old = ident old, rl_new = ident new, rl_created_at = created_at,
          rl_old_sig = sign E old bytes, rl_new_sig = sign E new bytes\<rparr>)"

definition link_bytes :: "env \<Rightarrow> rotation_link \<Rightarrow> bytes" where
  "link_bytes E l = rotation_signing_bytes E (rl_old l) (rl_new l) (rl_created_at l)"

definition link_verify :: "env \<Rightarrow> rotation_link \<Rightarrow> unit result" where
  "link_verify E l =
     (if rl_old l = rl_new l then Inl (malformed ''rotation'' ''old and new are the same key'')
      else rbind (verify_sig E (rl_old l) (link_bytes E l) (rl_old_sig l))
             (\<lambda>_. verify_sig E (rl_new l) (link_bytes E l) (rl_new_sig l)))"

text \<open>The chain: the successor of each retired key, by the hex of the key.\<close>

record rotation_chain =
  next_key :: "string \<rightharpoonup> agent_id"

definition chain_new :: rotation_chain where
  "chain_new = \<lparr>next_key = Map.empty\<rparr>"

text \<open>\<open>entry(old).or_insert(new)\<close>: the first successor wins.\<close>

definition chain_add :: "env \<Rightarrow> rotation_chain \<Rightarrow> rotation_link \<Rightarrow> rotation_chain result" where
  "chain_add E c l = rbind (link_verify E l) (\<lambda>_.
     let k = to_hex E (rl_old l) in
     Inr (case next_key c k of
            Some _ \<Rightarrow> c
          | None \<Rightarrow> c\<lparr>next_key := (next_key c)(k \<mapsto> rl_new l)\<rparr>))"

text \<open>The \<open>for _ in 0..64\<close> loop: a visited key or a missing successor breaks out of it.\<close>

fun resolve_loop :: "env \<Rightarrow> (string \<rightharpoonup> agent_id) \<Rightarrow> nat \<Rightarrow> string set \<Rightarrow> agent_id \<Rightarrow> agent_id" where
  "resolve_loop E nx 0 seen cur = cur"
| "resolve_loop E nx (Suc n) seen cur =
     (let hex = to_hex E cur in
      if hex \<in> seen then cur
      else case nx hex of
             Some k \<Rightarrow> resolve_loop E nx n (insert hex seen) k
           | None \<Rightarrow> cur)"

definition resolve :: "env \<Rightarrow> rotation_chain \<Rightarrow> agent_id \<Rightarrow> agent_id" where
  "resolve E c i = resolve_loop E (next_key c) 64 {} i"

section \<open>Dual signatures\<close>

text \<open>A link that verifies was signed by both keys over the same bytes.\<close>

lemma link_verify_iff:
  "link_verify E l = Inr () \<longleftrightarrow> rl_old l \<noteq> rl_new l
     \<and> verify_sig E (rl_old l) (link_bytes E l) (rl_old_sig l) = Inr ()
     \<and> verify_sig E (rl_new l) (link_bytes E l) (rl_new_sig l) = Inr ()"
  by (auto simp: link_verify_def rbind_Inr_iff)

definition link_content :: "rotation_link \<Rightarrow> agent_id \<times> agent_id \<times> time" where
  "link_content l = (rl_old l, rl_new l, rl_created_at l)"

lemma link_bytes_inj:
  "hex_ok E \<Longrightarrow> time_ok E \<Longrightarrow> link_bytes E a = link_bytes E b \<longleftrightarrow> link_content a = link_content b"
  by (auto simp: link_bytes_def rotation_signing_bytes_def link_content_def to_hex_inj rfc3339_inj)

text \<open>The contract of a signed record holds for each of the two signatures.\<close>

interpretation link_old: signed_record link_bytes rl_old rl_old_sig link_content link_verify
  by unfold_locales (auto simp: link_verify_iff link_bytes_inj)

interpretation link_new: signed_record link_bytes rl_new rl_new_sig link_content link_verify
  by unfold_locales (auto simp: link_verify_iff link_bytes_inj)

lemma rotation_link_verifies:
  "sig_ok E \<Longrightarrow> identity_wf E a \<Longrightarrow> identity_wf E b \<Longrightarrow> ident a \<noteq> ident b \<Longrightarrow>
    link_verify E (rotation_link_new E a b t) = Inr ()"
  by (simp add: link_verify_iff rotation_link_new_def link_bytes_def Let_def verify_sign)

section \<open>Resolution\<close>

text \<open>\<open>links E nx n a b\<close>: following \<open>n\<close> successor links from \<open>a\<close> leads to \<open>b\<close>.\<close>

fun links :: "env \<Rightarrow> (string \<rightharpoonup> agent_id) \<Rightarrow> nat \<Rightarrow> agent_id \<Rightarrow> agent_id \<Rightarrow> bool" where
  "links E nx 0 a b = (a = b)"
| "links E nx (Suc n) a b = (\<exists>k. nx (to_hex E a) = Some k \<and> links E nx n k b)"

definition terminal_key :: "env \<Rightarrow> (string \<rightharpoonup> agent_id) \<Rightarrow> agent_id \<Rightarrow> bool" where
  "terminal_key E nx a \<longleftrightarrow> nx (to_hex E a) = None"

lemma links_append: "links E nx m a b \<Longrightarrow> links E nx n b c \<Longrightarrow> links E nx (m + n) a c"
  by (induction m arbitrary: a) auto

lemma links_deterministic: "links E nx n a b \<Longrightarrow> links E nx n a c \<Longrightarrow> b = c"
  by (induction n arbitrary: a) auto

lemma links_split: "links E nx (m + n) a c \<Longrightarrow> \<exists>b. links E nx m a b \<and> links E nx n b c"
  by (induction m arbitrary: a) auto

lemma terminal_no_links: "terminal_key E nx b \<Longrightarrow> links E nx n b c \<Longrightarrow> n = 0 \<and> c = b"
  by (cases n) (auto simp: terminal_key_def)

text \<open>The number of links to a terminal key is unique, so a path to one never revisits a key.\<close>

lemma terminal_depth_unique:
  assumes "links E nx m a b" "terminal_key E nx b" "links E nx n a c" "terminal_key E nx c"
  shows "m = n \<and> b = c"
proof -
  have aux: "p = q \<and> x = y" if "p \<le> q" "links E nx p a x" "terminal_key E nx x"
      "links E nx q a y" for p q x y
  proof -
    from that obtain z where z: "links E nx p a z" "links E nx (q - p) z y"
      using links_split[of E nx p "q - p" a y] by auto
    with that(2) have "z = x" by (metis links_deterministic)
    with z(2) that(3) have "q - p = 0 \<and> y = x" by (metis terminal_no_links)
    with that(1) show ?thesis by auto
  qed
  show ?thesis
    using assms aux[of m n b c] aux[of n m c b] by (metis nat_le_linear)
qed

lemma resolve_loop_terminal:
  assumes "hex_ok E" "links E nx n a b" "terminal_key E nx b" "n \<le> fuel"
    and "\<forall>x. to_hex E x \<in> seen \<longrightarrow> (\<exists>m > n. links E nx m x b)"
  shows "resolve_loop E nx fuel seen a = b"
  using assms(2-5)
proof (induction fuel arbitrary: n a seen)
  case 0
  then show ?case by simp
next
  case (Suc fuel)
  have fresh: "to_hex E a \<notin> seen"
    using Suc.prems terminal_depth_unique by blast
  show ?case
  proof (cases n)
    case 0
    with Suc.prems fresh show ?thesis by (simp add: terminal_key_def)
  next
    case (Suc m)
    then obtain k where k: "nx (to_hex E a) = Some k" "links E nx m k b"
      using Suc.prems(1) by auto
    have "\<exists>i > m. links E nx i x b" if "to_hex E x \<in> insert (to_hex E a) seen" for x
    proof (cases "to_hex E x = to_hex E a")
      case True
      then have "x = a" using assms(1) by (simp add: to_hex_inj)
      then show ?thesis using Suc.prems(1) Suc by auto
    next
      case False
      with that Suc.prems(4) Suc show ?thesis by (metis Suc_lessD insertE)
    qed
    with Suc.IH[of m k "insert (to_hex E a) seen"] k fresh Suc.prems(2,3) Suc
    show ?thesis by (simp add: Let_def)
  qed
qed

lemma resolve_terminal:
  assumes "hex_ok E" "links E (next_key c) n a b" "terminal_key E (next_key c) b" "n \<le> 64"
  shows "resolve E c a = b"
  unfolding resolve_def by (rule resolve_loop_terminal[OF assms]) simp

lemma chain_add_next:
  assumes "chain_add E c l = Inr c'"
  shows "next_key c' = (case next_key c (to_hex E (rl_old l)) of
      None \<Rightarrow> (next_key c)(to_hex E (rl_old l) \<mapsto> rl_new l) | Some _ \<Rightarrow> next_key c)"
  using assms by (auto simp: chain_add_def rbind_Inr_iff Let_def split: option.splits)

lemma chain_add_first_wins:
  "chain_add E c l = Inr c' \<Longrightarrow> next_key c \<subseteq>\<^sub>m next_key c'"
  by (auto simp: chain_add_next map_le_def split: option.splits)

section \<open>Properties\<close>

text \<open>
  Standing carries over: on a chain of at most 64 rotations that ends in a key
  never rotated, every key of the chain resolves to that last key, however the chain was
  built, and resolving the result again changes nothing.
\<close>

theorem resolve_follows_chain:
  assumes "hex_ok E" "links E (next_key c) n a b" "terminal_key E (next_key c) b" "n \<le> 64"
  shows "resolve E c a = b \<and> resolve E c (resolve E c a) = resolve E c a \<and>
    (\<forall>m k. links E (next_key c) m a k \<longrightarrow> m \<le> n \<longrightarrow> resolve E c k = b)"
proof (intro conjI allI impI)
  show ab: "resolve E c a = b"
    using assms by (rule resolve_terminal)
  have "resolve E c b = b"
    using resolve_terminal[OF assms(1), of c 0 b b] assms(3) by simp
  with ab show "resolve E c (resolve E c a) = resolve E c a" by simp
  fix m k assume mk: "links E (next_key c) m a k" "m \<le> n"
  then obtain k' where k': "links E (next_key c) m a k'" "links E (next_key c) (n - m) k' b"
    using links_split[of E "next_key c" m "n - m" a b] assms(2) by auto
  with mk(1) have "k' = k" by (metis links_deterministic)
  with k'(2) assms show "resolve E c k = b"
    by (intro resolve_terminal[of E c "n - m" k b]) auto
qed

text \<open>Two accepted rotations, key 0 to key 1 to key 2.\<close>

definition demo_link :: "nat \<Rightarrow> rotation_link" where
  "demo_link n = rotation_link_new demo_env (demo_id n) (demo_id (Suc n)) (int n)"

definition demo_chain :: rotation_chain where
  "demo_chain = attempts (chain_add demo_env) chain_new [demo_link 0, demo_link 1]"

lemma demo_id_inj: "m < 100 \<Longrightarrow> n < 100 \<Longrightarrow> ident (demo_id m) = ident (demo_id n) \<longleftrightarrow> m = n"
proof -
  assume "m < 100" "n < 100"
  have "of_char (char_of (65 + k) :: char) = 65 + k" if "k < 100" for k :: nat
    using that by (simp add: of_char_of take_bit_eq_mod)
  then have "char_of (65 + m) = (char_of (65 + n) :: char) \<longleftrightarrow> m = n"
    using \<open>m < 100\<close> \<open>n < 100\<close> by (metis add_left_cancel)
  then show ?thesis
    by (simp add: demo_id_def from_seed_def demo_env_def demo_seed_def)
qed

lemma demo_link_fields: "rl_old (demo_link n) = ident (demo_id n)"
    "rl_new (demo_link n) = ident (demo_id (Suc n))"
  by (simp_all add: demo_link_def rotation_link_new_def Let_def)

lemma demo_link_verifies: "n < 99 \<Longrightarrow> link_verify demo_env (demo_link n) = Inr ()"
  unfolding demo_link_def
  by (rule rotation_link_verifies) (simp_all add: demo_laws demo_id_wf demo_id_inj)

lemma demo_chain_next:
  "next_key demo_chain = [to_hex demo_env (ident (demo_id 0)) \<mapsto> ident (demo_id 1),
     to_hex demo_env (ident (demo_id 1)) \<mapsto> ident (demo_id 2)]"
  by (simp add: demo_chain_def attempt_def chain_add_def demo_link_verifies chain_new_def
      demo_link_fields Let_def to_hex_inj[OF demo_hex_ok] demo_id_inj numeral_2_eq_2)

theorem resolve_follows_chain_witness:
  "links demo_env (next_key demo_chain) 2 (ident (demo_id 0)) (ident (demo_id 2)) \<and>
   resolve demo_env demo_chain (ident (demo_id 0)) = ident (demo_id 2)"
proof -
  have l: "links demo_env (next_key demo_chain) 2 (ident (demo_id 0)) (ident (demo_id 2))"
    by (simp add: numeral_2_eq_2 demo_chain_next to_hex_inj[OF demo_hex_ok] demo_id_inj)
  have "terminal_key demo_env (next_key demo_chain) (ident (demo_id 2))"
    by (simp add: terminal_key_def demo_chain_next to_hex_inj[OF demo_hex_ok] demo_id_inj)
  with l show ?thesis
    using resolve_follows_chain[OF demo_hex_ok l] by simp
qed

text \<open>
  Only the owner of a key can retire it, and only once: every successor in a
  chain built from offered links comes from an offered link that carries valid signatures
  of both the old and the new key, and once a key has a successor no later link changes it.
\<close>

theorem chain_dual_signed_first_wins:
  assumes "hex_ok E"
  shows "(next_key (attempts (chain_add E) chain_new ls) (to_hex E a) = Some b \<longrightarrow>
      (\<exists>l \<in> set ls. rl_old l = a \<and> rl_new l = b \<and> a \<noteq> b \<and>
         verify_sig E a (link_bytes E l) (rl_old_sig l) = Inr () \<and>
         verify_sig E b (link_bytes E l) (rl_new_sig l) = Inr ())) \<and>
    next_key (attempts (chain_add E) chain_new ls) \<subseteq>\<^sub>m
      next_key (attempts (chain_add E) chain_new (ls @ later))"
proof
  have mono: "next_key c \<subseteq>\<^sub>m next_key (attempts (chain_add E) c ks)" for c ks
  proof (rule attempts_inv[where P = "\<lambda>d. next_key c \<subseteq>\<^sub>m next_key d"])
    show "next_key c \<subseteq>\<^sub>m next_key c" by simp
  qed (blast intro: map_le_trans chain_add_first_wins)
  show "next_key (attempts (chain_add E) chain_new ls) \<subseteq>\<^sub>m
      next_key (attempts (chain_add E) chain_new (ls @ later))"
    by (simp add: mono)
  have "\<forall>x y. next_key (attempts (chain_add E) chain_new ls) (to_hex E x) = Some y \<longrightarrow>
      (\<exists>l \<in> set ls. rl_old l = x \<and> rl_new l = y \<and> link_verify E l = Inr ())"
  proof (induction ls rule: rev_induct)
    case Nil
    then show ?case by (simp add: chain_new_def)
  next
    case (snoc l ls)
    show ?case
    proof (cases "chain_add E (attempts (chain_add E) chain_new ls) l")
      case (Inl e)
      with snoc show ?thesis by (auto simp: attempt_def)
    next
      case (Inr c')
      then have v: "link_verify E l = Inr ()" by (auto simp: chain_add_def rbind_Inr_iff)
      from Inr snoc v show ?thesis
        by (auto simp: attempt_def chain_add_next[OF Inr] to_hex_inj[OF assms] split: option.splits
            if_splits)
    qed
  qed
  then show "next_key (attempts (chain_add E) chain_new ls) (to_hex E a) = Some b \<longrightarrow>
      (\<exists>l \<in> set ls. rl_old l = a \<and> rl_new l = b \<and> a \<noteq> b \<and>
         verify_sig E a (link_bytes E l) (rl_old_sig l) = Inr () \<and>
         verify_sig E b (link_bytes E l) (rl_new_sig l) = Inr ())"
    by (metis link_verify_iff)
qed

theorem chain_dual_signed_first_wins_witness:
  "\<exists>l \<in> set [demo_link 0, demo_link 1]. rl_old l = ident (demo_id 0) \<and>
     verify_sig demo_env (ident (demo_id 0)) (link_bytes demo_env l) (rl_old_sig l) = Inr ()"
proof -
  have "next_key demo_chain (to_hex demo_env (ident (demo_id 0))) = Some (ident (demo_id 1))"
    by (simp add: demo_chain_next to_hex_inj[OF demo_hex_ok] demo_id_inj)
  then show ?thesis
    using chain_dual_signed_first_wins[OF demo_hex_ok, of "[demo_link 0, demo_link 1]"]
    unfolding demo_chain_def by blast
qed

end
