(* ===== verification/Credential.thy ===== *)
theory Credential
  imports Rotation
begin

text \<open>
  Verifiable credentials (\<open>agentbbs-core/src/credential.rs\<close>): signed claims with an
  optional expiry, and the registry that answers who holds which claim, also across key
  rotation.
\<close>

section \<open>Model\<close>

record credential =
  cr_subject :: agent_id
  cr_claim :: string
  cr_issuer :: agent_id
  cr_issued_at :: time
  cr_expires_at :: "time option"
  cr_signature :: signature

definition expiry_text :: "env \<Rightarrow> time option \<Rightarrow> string" where
  "expiry_text E e = (case map_option (rfc3339 E) e of None \<Rightarrow> ''never'' | Some s \<Rightarrow> s)"

definition cred_signing_bytes ::
  "env \<Rightarrow> agent_id \<Rightarrow> string \<Rightarrow> agent_id \<Rightarrow> time \<Rightarrow> time option \<Rightarrow> bytes" where
  "cred_signing_bytes E subject claim issuer issued_at expires_at =
     framed (''agentbbs.credential.v1'' @ [newline])
       [to_hex E subject, claim, to_hex E issuer, rfc3339 E issued_at, expiry_text E expires_at]"

definition cred_issue ::
  "env \<Rightarrow> identity \<Rightarrow> agent_id \<Rightarrow> string \<Rightarrow> time \<Rightarrow> time option \<Rightarrow> credential" where
  "cred_issue E issuer subject claim issued_at expires_at =
     \<lparr>cr_subject = subject, cr_claim = claim, cr_issuer = ident issuer, cr_issued_at = issued_at,
      cr_expires_at = expires_at,
      cr_signature =
        sign E issuer (cred_signing_bytes E subject claim (ident issuer) issued_at expires_at)\<rparr>"

definition cred_bytes :: "env \<Rightarrow> credential \<Rightarrow> bytes" where
  "cred_bytes E c = cred_signing_bytes E (cr_subject c) (cr_claim c) (cr_issuer c)
     (cr_issued_at c) (cr_expires_at c)"

definition cred_verify :: "env \<Rightarrow> credential \<Rightarrow> unit result" where
  "cred_verify E c = verify_sig E (cr_issuer c) (cred_bytes E c) (cr_signature c)"

definition cred_is_valid :: "env \<Rightarrow> credential \<Rightarrow> time \<Rightarrow> bool" where
  "cred_is_valid E c now \<longleftrightarrow> is_ok (cred_verify E c) \<and>
     (case cr_expires_at c of None \<Rightarrow> True | Some e \<Rightarrow> now < e)"

record credential_store =
  creds :: "credential list"

definition cred_store_new :: credential_store where
  "cred_store_new = \<lparr>creds = []\<rparr>"

definition cred_add :: "env \<Rightarrow> credential_store \<Rightarrow> credential \<Rightarrow> credential_store result" where
  "cred_add E s c = rbind (cred_verify E c) (\<lambda>_. Inr (s\<lparr>creds := creds s @ [c]\<rparr>))"

definition cred_all :: "credential_store \<Rightarrow> credential list" where
  "cred_all s = creds s"

definition valid_for :: "env \<Rightarrow> credential_store \<Rightarrow> agent_id \<Rightarrow> time \<Rightarrow> credential list" where
  "valid_for E s subject now =
     filter (\<lambda>c. cr_subject c = subject \<and> cred_is_valid E c now) (creds s)"

definition has_claim ::
  "env \<Rightarrow> credential_store \<Rightarrow> agent_id \<Rightarrow> string \<Rightarrow> time \<Rightarrow> agent_id list \<Rightarrow> bool" where
  "has_claim E s subject claim now trusted_issuers =
     list_ex (\<lambda>c. cr_subject c = subject \<and> cr_claim c = claim \<and> cred_is_valid E c now \<and>
        (trusted_issuers = [] \<or> cr_issuer c \<in> set trusted_issuers)) (creds s)"

definition has_claim_via ::
  "env \<Rightarrow> credential_store \<Rightarrow> agent_id \<Rightarrow> string \<Rightarrow> time \<Rightarrow> agent_id list \<Rightarrow> rotation_chain \<Rightarrow> bool" where
  "has_claim_via E s subject claim now trusted_issuers chain =
     (let resolved = resolve E chain subject in
      list_ex (\<lambda>c. resolve E chain (cr_subject c) = resolved \<and> cr_claim c = claim \<and>
        cred_is_valid E c now \<and>
        (trusted_issuers = [] \<or> cr_issuer c \<in> set trusted_issuers)) (creds s))"

section \<open>Signed claims\<close>

definition cred_content ::
  "credential \<Rightarrow> agent_id \<times> string \<times> agent_id \<times> time \<times> time option" where
  "cred_content c = (cr_subject c, cr_claim c, cr_issuer c, cr_issued_at c, cr_expires_at c)"

text \<open>The marker \<open>never\<close> is not a timestamp: RFC 3339 text starts with a digit or a sign.\<close>

definition never_fresh :: "env \<Rightarrow> bool" where
  "never_fresh E \<longleftrightarrow> (\<forall>t. rfc3339 E t \<noteq> ''never'')"

lemma expiry_text_inj:
  assumes "time_ok E" "never_fresh E"
  shows "expiry_text E a = expiry_text E b \<longleftrightarrow> a = b"
proof (cases a; cases b)
  fix x y assume "a = Some x" "b = Some y"
  then show ?thesis using assms(1) by (simp add: expiry_text_def rfc3339_inj)
next
  fix x assume "a = None" "b = Some x"
  then show ?thesis using assms(2) by (auto simp: expiry_text_def never_fresh_def dest: sym)
next
  fix x assume "a = Some x" "b = None"
  then show ?thesis using assms(2) by (auto simp: expiry_text_def never_fresh_def)
qed simp

lemma cred_bytes_inj:
  assumes "hex_ok E" "time_ok E" "never_fresh E"
  shows "cred_bytes E a = cred_bytes E b \<longleftrightarrow> cred_content a = cred_content b"
  using assms by (auto simp: cred_bytes_def cred_signing_bytes_def cred_content_def to_hex_inj
      rfc3339_inj expiry_text_inj)

interpretation cred_log: verified_log "cred_verify E" "cred_add E" creds cred_store_new for E :: env
proof unfold_locales
  fix a e l l'
  show "creds cred_store_new = []" by (simp add: cred_store_new_def)
  show "cred_verify E a = Inl e \<Longrightarrow> cred_add E l a = Inl e" by (simp add: cred_add_def)
  show "cred_verify E a = Inr () \<Longrightarrow> \<exists>l'. cred_add E l a = Inr l'" by (simp add: cred_add_def)
  show "cred_add E l a = Inr l' \<Longrightarrow> set (creds l') \<subseteq> insert a (set (creds l))"
    by (auto simp: cred_add_def result_simps)
qed

lemma cred_issue_verifies:
  "sig_ok E \<Longrightarrow> identity_wf E i \<Longrightarrow> cred_verify E (cred_issue E i s c t e) = Inr ()"
  by (simp add: cred_verify_def cred_bytes_def cred_issue_def verify_sign)

lemma is_valid_iff:
  "cred_is_valid E c now \<longleftrightarrow> cred_verify E c = Inr () \<and> (\<forall>e. cr_expires_at c = Some e \<longrightarrow> now < e)"
  by (auto simp: cred_is_valid_def is_ok_unit_iff split: option.splits)

lemma is_valid_antimono: "cred_is_valid E c later \<Longrightarrow> now \<le> later \<Longrightarrow> cred_is_valid E c now"
  by (auto simp: is_valid_iff)

text \<open>A link whose keys resolve alike makes the holders of a claim alike.\<close>

lemma has_claim_via_resolve:
  "resolve E chain a = resolve E chain b \<Longrightarrow>
    has_claim_via E s a claim now trusted chain = has_claim_via E s b claim now trusted chain"
  by (simp add: has_claim_via_def)

lemma has_claim_imp_via:
  "has_claim E s a claim now trusted \<Longrightarrow> has_claim_via E s a claim now trusted chain"
  by (auto simp: has_claim_def has_claim_via_def list_ex_iff Let_def)

section \<open>Properties\<close>

text \<open>
  A credential survives key rotation: after a verified link from an unrotated
  key is accepted, every claim the old key holds is held by the new key through the chain,
  provided the new key is at most 63 rotations away from the current one.
\<close>

theorem claim_survives_rotation:
  assumes "hex_ok E" "chain_add E c l = Inr c'" "next_key c (to_hex E (rl_old l)) = None"
    and "links E (next_key c') n (rl_new l) b" "terminal_key E (next_key c') b" "n < 64"
    and "has_claim E s (rl_old l) claim now trusted"
  shows "has_claim_via E s (rl_new l) claim now trusted c'"
proof -
  have "next_key c' (to_hex E (rl_old l)) = Some (rl_new l)"
    using chain_add_next[OF assms(2)] assms(3) by simp
  then have "links E (next_key c') (Suc n) (rl_old l) b"
    using assms(4) by simp
  then have "resolve E c' (rl_old l) = resolve E c' (rl_new l)"
    using resolve_terminal[OF assms(1)] assms(4-6) by (metis Suc_leI less_imp_le)
  then show ?thesis
    using has_claim_imp_via[OF assms(7)] has_claim_via_resolve by metis
qed

definition demo_cred :: credential where
  "demo_cred = cred_issue demo_env (demo_id 7) (ident (demo_id 0)) ''skill:rust'' 1 (Some 100)"

theorem claim_survives_rotation_witness:
  "has_claim_via demo_env \<lparr>creds = [demo_cred]\<rparr> (ident (demo_id 1)) ''skill:rust'' 50 []
     (attempt (chain_add demo_env) chain_new (demo_link 0))"
proof -
  let ?c' = "attempt (chain_add demo_env) chain_new (demo_link 0)"
  have nx: "next_key ?c' = [to_hex demo_env (ident (demo_id 0)) \<mapsto> ident (demo_id 1)]"
    and add: "chain_add demo_env chain_new (demo_link 0) = Inr ?c'"
    by (simp_all add: attempt_def chain_add_def demo_link_verifies chain_new_def
        demo_link_fields Let_def)
  have "cred_is_valid demo_env demo_cred 50"
    by (simp add: is_valid_iff demo_cred_def cred_issue_verifies demo_laws demo_id_wf)
       (simp add: cred_issue_def)
  then have hc: "has_claim demo_env \<lparr>creds = [demo_cred]\<rparr> (rl_old (demo_link 0)) ''skill:rust'' 50 []"
    by (simp add: has_claim_def demo_link_fields demo_cred_def cred_issue_def)
  have "terminal_key demo_env (next_key ?c') (ident (demo_id 1))"
    by (simp add: terminal_key_def nx to_hex_inj[OF demo_hex_ok] demo_id_inj)
  then show ?thesis
    using claim_survives_rotation[OF demo_hex_ok add _ _ _ _ hc, of 0 "ident (demo_id 1)"]
    by (simp add: demo_link_fields chain_new_def)
qed

text \<open>
  The registry never vouches for a forged or expired claim: an agent that holds
  a claim after any sequence of offered credentials does so by an offered credential about
  it with that claim, whose issuer's signature verifies, which has not expired, and whose
  issuer is trusted (any issuer when no trusted set is given).
\<close>

theorem claim_backed_by_valid_credential:
  "has_claim E (attempts (cred_add E) cred_store_new cs) subject claim now trusted \<longleftrightarrow>
     (\<exists>c \<in> set cs. cr_subject c = subject \<and> cr_claim c = claim \<and>
        verify_sig E (cr_issuer c) (cred_bytes E c) (cr_signature c) = Inr () \<and>
        (case cr_expires_at c of None \<Rightarrow> True | Some e \<Rightarrow> now < e) \<and>
        (trusted = [] \<or> cr_issuer c \<in> set trusted))"
proof -
  have "creds (attempts (cred_add E) st cs) = creds st @ filter (\<lambda>c. cred_verify E c = Inr ()) cs" for st
  proof (induction cs arbitrary: st)
    case Nil
    then show ?case by simp
  next
    case (Cons c cs)
    then show ?case by (cases "cred_verify E c") (auto simp: attempt_def cred_add_def)
  qed
  then show ?thesis
    by (auto simp: has_claim_def list_ex_iff cred_is_valid_def is_ok_unit_iff cred_store_new_def
        cred_verify_def)
qed

end
