(* ===== verification/Decision.thy ===== *)
theory Decision
  imports Signed
begin

text \<open>
  Decision records (\<open>agentbbs-core/src/decision.rs\<close>): signed records addressed by the
  BLAKE3 hash of their content, and the log that keeps one record per address.
\<close>

section \<open>Model\<close>

record decision_record =
  dr_id :: string
  dr_title :: string
  dr_decision :: string
  dr_rationale :: string
  dr_board :: string
  dr_decided_by :: agent_id
  dr_decided_at :: time
  dr_signature :: signature

definition record_content_bytes ::
  "env \<Rightarrow> string \<Rightarrow> string \<Rightarrow> string \<Rightarrow> string \<Rightarrow> agent_id \<Rightarrow> time \<Rightarrow> bytes" where
  "record_content_bytes E title decision rationale board decided_by decided_at =
     framed (''agentbbs.decision.v1'' @ [newline])
       [title, decision, rationale, board, to_hex E decided_by, rfc3339 E decided_at]"

definition record_new ::
  "env \<Rightarrow> identity \<Rightarrow> string \<Rightarrow> string \<Rightarrow> string \<Rightarrow> string \<Rightarrow> time \<Rightarrow> decision_record" where
  "record_new E decider title decision rationale board decided_at =
     (let decided_by = ident decider;
          bytes = record_content_bytes E title decision rationale board decided_by decided_at
      in \<lparr>dr_id = blake3_hex E bytes, dr_title = title, dr_decision = decision,
          dr_rationale = rationale, dr_board = board, dr_decided_by = decided_by,
          dr_decided_at = decided_at, dr_signature = sign E decider bytes\<rparr>)"

definition record_bytes :: "env \<Rightarrow> decision_record \<Rightarrow> bytes" where
  "record_bytes E r = record_content_bytes E (dr_title r) (dr_decision r) (dr_rationale r)
     (dr_board r) (dr_decided_by r) (dr_decided_at r)"

definition record_verify :: "env \<Rightarrow> decision_record \<Rightarrow> unit result" where
  "record_verify E r =
     (if blake3_hex E (record_bytes E r) \<noteq> dr_id r
      then Inl (malformed ''decision'' ''id does not match content'')
      else verify_sig E (dr_decided_by r) (record_bytes E r) (dr_signature r))"

record decision_log =
  records :: "decision_record list"

definition dlog_new :: decision_log where
  "dlog_new = \<lparr>records = []\<rparr>"

definition dlog_add :: "env \<Rightarrow> decision_log \<Rightarrow> decision_record \<Rightarrow> decision_log result" where
  "dlog_add E l r = rbind (record_verify E r) (\<lambda>_.
     Inr (if \<not> list_ex (\<lambda>x. dr_id x = dr_id r) (records l)
          then l\<lparr>records := records l @ [r]\<rparr> else l))"

definition dlog_all :: "decision_log \<Rightarrow> decision_record list" where
  "dlog_all l = sort_desc dr_decided_at (records l)"

definition for_board :: "decision_log \<Rightarrow> string \<Rightarrow> decision_record list" where
  "for_board l board = filter (\<lambda>r. dr_board r = board) (dlog_all l)"

section \<open>Signed records, and the log\<close>

definition record_content ::
  "decision_record \<Rightarrow> string \<times> string \<times> string \<times> string \<times> agent_id \<times> time" where
  "record_content r = (dr_title r, dr_decision r, dr_rationale r, dr_board r, dr_decided_by r,
     dr_decided_at r)"

lemma record_verify_Inr_iff: "record_verify E r = Inr u \<longleftrightarrow>
    dr_id r = blake3_hex E (record_bytes E r) \<and>
    verify_sig E (dr_decided_by r) (record_bytes E r) (dr_signature r) = Inr u"
  by (auto simp: record_verify_def)

interpretation decision_record_rec: signed_record record_bytes dr_decided_by dr_signature
  record_content record_verify
proof unfold_locales
  fix E :: env and a b :: decision_record
  show "record_verify E a = Inr () \<Longrightarrow>
      verify_sig E (dr_decided_by a) (record_bytes E a) (dr_signature a) = Inr ()"
    by (simp add: record_verify_Inr_iff)
  show "hex_ok E \<Longrightarrow> time_ok E \<Longrightarrow>
      record_bytes E a = record_bytes E b \<longleftrightarrow> record_content a = record_content b"
    by (simp add: record_bytes_def record_content_bytes_def record_content_def to_hex_inj
        rfc3339_inj)
qed

interpretation dlog: verified_log "record_verify E" "dlog_add E" records dlog_new for E :: env
proof unfold_locales
  fix a e l l'
  show "records dlog_new = []" by (simp add: dlog_new_def)
  show "record_verify E a = Inl e \<Longrightarrow> dlog_add E l a = Inl e" by (simp add: dlog_add_def)
  show "record_verify E a = Inr () \<Longrightarrow> \<exists>l'. dlog_add E l a = Inr l'" by (simp add: dlog_add_def)
  show "dlog_add E l a = Inr l' \<Longrightarrow> set (records l') \<subseteq> insert a (set (records l))"
    by (auto simp: dlog_add_def result_simps split: if_splits)
qed

interpretation dlog_ids: first_wins dr_id "\<lambda>r. record_verify E r = Inr ()"
  "attempt (dlog_add E)" records for E :: env
proof unfold_locales
  fix l a
  show "records (attempt (dlog_add E) l a) =
      (if record_verify E a = Inr () \<and> dr_id a \<notin> dr_id ` set (records l)
       then records l @ [a] else records l)"
    by (cases "record_verify E a") (simp_all add: attempt_def dlog_add_def list_ex_key)
qed

lemma record_new_verifies:
  "sig_ok E \<Longrightarrow> identity_wf E i \<Longrightarrow> record_verify E (record_new E i ti d r b t) = Inr ()"
  by (simp add: record_verify_Inr_iff record_new_def record_bytes_def verify_sign Let_def)

section \<open>Properties\<close>

text \<open>
  The decision log keeps one verified record per citation id, the first one
  offered: after any sequence of offered records the ids in the log are distinct, looking up
  an id gives the first offered record of that id that verifies, every listed record
  verifies, and the listing is newest first.
\<close>

theorem decision_log_first_verified:
  "let l = attempts (dlog_add E) dlog_new rs in
    distinct (map dr_id (records l)) \<and>
    find (\<lambda>r. dr_id r = i) (records l) =
      find (\<lambda>r. record_verify E r = Inr () \<and> dr_id r = i) rs \<and>
    set (dlog_all l) \<subseteq> {r. record_verify E r = Inr ()} \<and>
    sorted_wrt (\<lambda>x y. dr_decided_at y \<le> dr_decided_at x) (dlog_all l)"
proof -
  have run: "attempts (dlog_add E) dlog_new rs = foldl (attempt (dlog_add E)) dlog_new rs"
    by (simp add: attempts_def)
  have "set (dlog_all (attempts (dlog_add E) dlog_new rs)) \<subseteq> {r. record_verify E r = Inr ()}"
    using dlog.run_from_empty by (auto simp: dlog_all_def)
  then show ?thesis
    using dlog_ids.run_distinct[of dlog_new E rs] dlog_ids.run_find[of i E dlog_new rs]
      sort_desc_sorted
    by (simp add: Let_def run dlog.items_empty dlog_all_def)
qed

text \<open>
  A citation is tamper-evident: a record that verifies under the id of a record
  in the log has the same title, decision, rationale, board, decider and time, unless the
  two records' bytes are a collision of BLAKE3.
\<close>

theorem citation_binds_content:
  assumes "hex_ok E" "time_ok E" "r \<in> set (records (attempts (dlog_add E) dlog_new rs))"
    and "record_verify E r' = Inr ()" "dr_id r' = dr_id r"
  shows "record_content r' = record_content r \<or>
    (record_bytes E r' \<noteq> record_bytes E r \<and>
     blake3 E (record_bytes E r') = blake3 E (record_bytes E r))"
proof -
  have "record_verify E r = Inr ()"
    using assms(3) by (rule dlog.run_from_empty)
  then have "blake3 E (record_bytes E r') = blake3 E (record_bytes E r)"
    using assms(4,5) hex_enc_inj[OF assms(1)] by (simp add: record_verify_Inr_iff blake3_hex_def)
  then show ?thesis
    using decision_record_rec.binding[OF assms(1,2)] by blast
qed

definition demo_record :: decision_record where
  "demo_record = record_new demo_env (demo_id 3) ''adopt'' ''yes'' ''cost'' ''ops'' 9"

lemma demo_record_verifies: "record_verify demo_env demo_record = Inr ()"
  by (simp add: demo_record_def record_new_verifies demo_laws demo_id_wf)

theorem citation_binds_content_witness:
  "demo_record \<in> set (records (attempts (dlog_add demo_env) dlog_new [demo_record])) \<and>
   {r'. record_verify demo_env r' = Inr () \<and> dr_id r' = dr_id demo_record}
     \<subseteq> {r'. record_content r' = record_content demo_record}"
proof -
  have log: "demo_record \<in> set (records (attempts (dlog_add demo_env) dlog_new [demo_record]))"
    by (simp add: attempt_def dlog_add_def demo_record_verifies dlog_new_def)
  have "blake3 demo_env m = m" for m
    by (simp add: demo_env_def)
  then have "record_content r' = record_content demo_record"
    if "record_verify demo_env r' = Inr ()" "dr_id r' = dr_id demo_record" for r'
    using that citation_binds_content[OF demo_hex_ok demo_time_ok log] by metis
  with log show ?thesis by blast
qed

end
