(* ===== verification/Draft.thy ===== *)
theory Draft
  imports Identity
begin

text \<open>
  The agent inbox (\<open>agentbbs-core/src/draft.rs\<close>): unsigned reply candidates queued
  until a human edits, sends or discards them.
\<close>

section \<open>Model\<close>

datatype draft_status = DPending | DEdited | DSent | DDiscarded

record draft =
  df_id :: string
  df_target :: string
  df_in_reply_to :: "string option"
  df_agent :: string
  df_subject :: string
  df_body :: string
  df_created_at :: time
  df_status :: draft_status
  df_flagged :: bool

definition draft_content_bytes :: "env \<Rightarrow> string \<Rightarrow> string \<Rightarrow> string \<Rightarrow> time \<Rightarrow> bytes" where
  "draft_content_bytes E target agent body created_at =
     ''agentbbs.draft.v1'' @ [newline] @ frames [target, agent, body, rfc3339 E created_at]"

definition draft_new :: "env \<Rightarrow> string \<Rightarrow> string option \<Rightarrow> string \<Rightarrow> string \<Rightarrow> string \<Rightarrow> time \<Rightarrow> bool
    \<Rightarrow> draft" where
  "draft_new E target in_reply_to agent subject body created_at flagged =
     \<lparr>df_id = blake3_hex E (draft_content_bytes E target agent body created_at),
      df_target = target, df_in_reply_to = in_reply_to, df_agent = agent, df_subject = subject,
      df_body = body, df_created_at = created_at, df_status = DPending, df_flagged = flagged\<rparr>"

record draft_queue =
  drafts :: "draft list"

definition draft_queue_new :: draft_queue where
  "draft_queue_new = \<lparr>drafts = []\<rparr>"

definition draft_add :: "draft_queue \<Rightarrow> draft \<Rightarrow> draft_queue" where
  "draft_add q d =
     (if \<not> list_ex (\<lambda>x. df_id x = df_id d) (drafts q) then q\<lparr>drafts := drafts q @ [d]\<rparr> else q)"

fun draft_open :: "draft_status \<Rightarrow> bool" where
  "draft_open DPending = True"
| "draft_open DEdited = True"
| "draft_open DSent = False"
| "draft_open DDiscarded = False"

definition draft_pending :: "draft_queue \<Rightarrow> draft list" where
  "draft_pending q = sort_desc df_created_at (filter (\<lambda>d. draft_open (df_status d)) (drafts q))"

definition draft_get :: "draft_queue \<Rightarrow> string \<Rightarrow> draft option" where
  "draft_get q i = find (\<lambda>d. df_id d = i) (drafts q)"

definition draft_edit :: "draft_queue \<Rightarrow> string \<Rightarrow> string \<Rightarrow> draft_queue \<times> bool" where
  "draft_edit q i new_body =
     (let here = (\<lambda>d. df_id d = i \<and> draft_open (df_status d)) in
      if list_ex here (drafts q)
      then (q\<lparr>drafts := update_first here (\<lambda>d. d\<lparr>df_body := new_body, df_status := DEdited\<rparr>)
               (drafts q)\<rparr>, True)
      else (q, False))"

definition draft_transition :: "draft_queue \<Rightarrow> string \<Rightarrow> draft_status \<Rightarrow> draft_queue \<times> bool" where
  "draft_transition q i to =
     (let here = (\<lambda>d. df_id d = i \<and> draft_open (df_status d)) in
      if list_ex here (drafts q)
      then (q\<lparr>drafts := update_first here (\<lambda>d. d\<lparr>df_status := to\<rparr>) (drafts q)\<rparr>, True)
      else (q, False))"

definition draft_mark_sent :: "draft_queue \<Rightarrow> string \<Rightarrow> draft_queue \<times> bool" where
  "draft_mark_sent q i = draft_transition q i DSent"

definition draft_discard :: "draft_queue \<Rightarrow> string \<Rightarrow> draft_queue \<times> bool" where
  "draft_discard q i = draft_transition q i DDiscarded"

section \<open>The queue's operations\<close>

interpretation dqueue: first_wins df_id "\<lambda>_. True" draft_add drafts
  by unfold_locales (simp add: draft_add_def list_ex_key)

definition draft_ids :: "draft_queue \<Rightarrow> bool" where
  "draft_ids q \<longleftrightarrow> distinct (map df_id (drafts q))"

lemma draft_ids_new: "draft_ids draft_queue_new"
  by (simp add: draft_ids_def draft_queue_new_def)

lemma draft_ids_add [inv_intros]: "draft_ids q \<Longrightarrow> draft_ids (draft_add q d)"
  unfolding draft_ids_def by (rule dqueue.step_distinct)

text \<open>Rewriting the open draft of an id, and what it does to lookups.\<close>

definition draft_modify ::
  "draft_queue \<Rightarrow> string \<Rightarrow> (draft \<Rightarrow> draft) \<Rightarrow> draft_queue \<times> bool" where
  "draft_modify q i f =
     (let here = (\<lambda>d. df_id d = i \<and> draft_open (df_status d)) in
      if list_ex here (drafts q) then (q\<lparr>drafts := update_first here f (drafts q)\<rparr>, True)
      else (q, False))"

lemma draft_edit_modify:
  "draft_edit q i b = draft_modify q i (\<lambda>d. d\<lparr>df_body := b, df_status := DEdited\<rparr>)"
  by (simp add: draft_edit_def draft_modify_def)

lemma draft_transition_modify:
  "draft_transition q i to = draft_modify q i (\<lambda>d. d\<lparr>df_status := to\<rparr>)"
  by (simp add: draft_transition_def draft_modify_def)

lemmas draft_modifies =
  draft_mark_sent_def draft_discard_def draft_edit_modify draft_transition_modify

lemma draft_modify_ids [inv_intros]:
  "draft_ids q \<Longrightarrow> (\<And>d. df_id (f d) = df_id d) \<Longrightarrow> draft_ids (fst (draft_modify q i f))"
  by (auto simp: draft_ids_def draft_modify_def map_update_first Let_def)

lemma update_first_other:
  "(\<And>d. df_id (f d) = df_id d) \<Longrightarrow> j \<noteq> i \<Longrightarrow>
    find (\<lambda>d. df_id d = j) (update_first (\<lambda>d. df_id d = i \<and> p d) f ds) =
    find (\<lambda>d. df_id d = j) ds"
  by (induction ds) auto

lemma update_first_here:
  "distinct (map df_id ds) \<Longrightarrow> (\<And>d. df_id (f d) = df_id d) \<Longrightarrow>
    find (\<lambda>d. df_id d = i) (update_first (\<lambda>d. df_id d = i \<and> p d) f ds) =
    map_option (\<lambda>d. if p d then f d else d) (find (\<lambda>d. df_id d = i) ds)"
proof (induction ds)
  case Nil
  then show ?case by simp
next
  case (Cons d ds)
  show ?case
  proof (cases "df_id d = i")
    case True
    then have "\<not> list_ex (\<lambda>d. df_id d = i \<and> p d) ds"
      using Cons.prems(1) by (auto simp: list_ex_iff image_iff)
    with True Cons.prems show ?thesis by (simp add: update_first_none)
  next
    case False
    with Cons show ?thesis by simp
  qed
qed

lemma draft_modify_get:
  assumes "draft_ids q" "\<And>d. df_id (f d) = df_id d"
  shows "draft_get (fst (draft_modify q i f)) =
    (draft_get q)(i := map_option (\<lambda>d. if draft_open (df_status d) then f d else d) (draft_get q i))"
proof
  fix j
  let ?p = "\<lambda>d. draft_open (df_status d)"
  have none: "map_option (\<lambda>d. if ?p d then f d else d) (find (\<lambda>d. df_id d = i) (drafts q)) =
      find (\<lambda>d. df_id d = i) (drafts q)"
    if "\<not> list_ex (\<lambda>d. df_id d = i \<and> ?p d) (drafts q)"
    using that find_key_iff[of df_id "drafts q" i] assms(1)
    by (cases "find (\<lambda>d. df_id d = i) (drafts q)") (auto simp: list_ex_iff draft_ids_def)
  show "draft_get (fst (draft_modify q i f)) j = ((draft_get q)(i :=
      map_option (\<lambda>d. if ?p d then f d else d) (draft_get q i))) j"
    using assms none update_first_here[of "drafts q" f i ?p]
      update_first_other[of f j i ?p "drafts q"]
    by (auto simp: draft_get_def draft_modify_def draft_ids_def Let_def)
qed

lemma draft_modify_flag:
  assumes "draft_ids q"
  shows "snd (draft_modify q i f) \<longleftrightarrow> (\<exists>d. draft_get q i = Some d \<and> draft_open (df_status d))"
  using assms find_key_iff[of df_id "drafts q" i]
  by (auto simp: draft_get_def draft_modify_def draft_ids_def Let_def list_ex_iff)

lemma draft_add_get:
  "draft_get (draft_add q d) i =
     (case draft_get q i of None \<Rightarrow> if df_id d = i then Some d else None | Some x \<Rightarrow> Some x)"
  using dqueue.step_find[of i q d] by (simp add: draft_get_def split: option.split)

section \<open>Runs of operations\<close>

datatype draft_op =
    Add_draft draft
  | Edit_draft string string
  | Send_draft string
  | Discard_draft string

fun draft_step :: "draft_queue \<Rightarrow> draft_op \<Rightarrow> draft_queue" where
  "draft_step q (Add_draft d) = draft_add q d"
| "draft_step q (Edit_draft i b) = fst (draft_edit q i b)"
| "draft_step q (Send_draft i) = fst (draft_mark_sent q i)"
| "draft_step q (Discard_draft i) = fst (draft_discard q i)"

lemma draft_step_ids: "draft_ids q \<Longrightarrow> draft_ids (draft_step q op)"
  by (cases op) (auto simp: draft_modifies intro!: inv_intros)

lemma draft_run_ids: "draft_ids q \<Longrightarrow> draft_ids (foldl draft_step q ops)"
  by (induction ops arbitrary: q) (auto intro: draft_step_ids)

text \<open>What a step does to one draft: nothing once it is sent or discarded.\<close>

lemma draft_step_closed:
  assumes "draft_ids q" "draft_get q i = Some d" "\<not> draft_open (df_status d)"
  shows "draft_get (draft_step q op) i = Some d"
  using assms by (cases op) (auto simp: draft_modifies draft_add_get draft_modify_get)

lemma draft_run_closed:
  assumes "draft_ids q" "draft_get q i = Some d" "\<not> draft_open (df_status d)"
  shows "draft_get (foldl draft_step q ops) i = Some d"
  using assms
proof (induction ops arbitrary: q)
  case Nil
  then show ?case by simp
next
  case (Cons op ops)
  then show ?case using draft_step_closed draft_step_ids by simp
qed

section \<open>Properties\<close>

text \<open>
  A draft is decided once: in a queue reached by any operations from the empty
  one, when \<open>mark_sent\<close> succeeds on an id, the draft was open, it is now the same draft
  marked sent, and after any further operations it is still exactly that draft and every
  later edit, send or discard of it reports failure.
\<close>

theorem draft_sent_once:
  assumes "draft_mark_sent (foldl draft_step draft_queue_new ops) i = (q, True)"
  shows "\<exists>d. draft_get (foldl draft_step draft_queue_new ops) i = Some d \<and>
      draft_open (df_status d) \<and>
      draft_get (foldl draft_step q later) i = Some (d\<lparr>df_status := DSent\<rparr>) \<and>
      \<not> snd (draft_mark_sent (foldl draft_step q later) i) \<and>
      \<not> snd (draft_discard (foldl draft_step q later) i) \<and>
      \<not> snd (draft_edit (foldl draft_step q later) i b)"
proof -
  let ?q0 = "foldl draft_step draft_queue_new ops"
  have ids: "draft_ids ?q0"
    by (rule draft_run_ids[OF draft_ids_new])
  have q: "q = fst (draft_mark_sent ?q0 i)" and True: "snd (draft_mark_sent ?q0 i)"
    using assms by simp_all
  then obtain d where d: "draft_get ?q0 i = Some d" "draft_open (df_status d)"
    using ids by (auto simp: draft_modifies draft_modify_flag)
  have ids': "draft_ids q"
    unfolding q draft_modifies using ids by (rule inv_intros) simp
  have "draft_get q i = Some (d\<lparr>df_status := DSent\<rparr>)"
    unfolding q draft_modifies using ids d by (simp add: draft_modify_get)
  then have "draft_get (foldl draft_step q later) i = Some (d\<lparr>df_status := DSent\<rparr>)"
    using ids' draft_run_closed by simp
  then show ?thesis
    using d draft_run_ids[OF ids', of later] by (simp add: draft_modifies draft_modify_flag)
qed

definition demo_draft :: draft where
  "demo_draft = draft_new demo_env ''general'' None ''claude'' ''re: dinner'' ''ok'' 3 False"

theorem draft_sent_once_witness:
  "\<exists>q. draft_mark_sent (foldl draft_step draft_queue_new [Add_draft demo_draft]) (df_id demo_draft)
      = (q, True) \<and> \<not> snd (draft_discard q (df_id demo_draft))"
proof -
  let ?q0 = "foldl draft_step draft_queue_new [Add_draft demo_draft]"
  have "snd (draft_mark_sent ?q0 (df_id demo_draft))"
    by (simp add: draft_add_def draft_queue_new_def draft_modifies draft_modify_def)
       (simp add: demo_draft_def draft_new_def)
  then obtain q where q: "draft_mark_sent ?q0 (df_id demo_draft) = (q, True)"
    by (metis prod.collapse)
  then show ?thesis
    using draft_sent_once[OF q, of "[]"] by auto
qed

text \<open>
  The address of a draft leaves out its subject and the message it replies to:
  of two drafts of an agent to the same target with the same text and time, the queue keeps
  only the first, whatever the second's subject, parent or warning flag.
\<close>

theorem draft_address_drops_subject:
  "draft_add (draft_add q (draft_new E target p1 agent s1 body t f1))
     (draft_new E target p2 agent s2 body t f2) =
   draft_add q (draft_new E target p1 agent s1 body t f1)"
  by (auto simp: draft_add_def draft_new_def list_ex_iff)

end
