(* ===== verification/Market.thy ===== *)
theory Market
  imports Signed
begin

text \<open>
  The marketplace (\<open>agentbbs-core/src/market.rs\<close>): listings signed by their seller and the
  catalogue that keeps the latest verified listing of each seller's sku.
\<close>

section \<open>Model\<close>

datatype listing_kind = LkPlugin | LkAgent | LkBoard | LkTheme | LkBenchmark

text \<open>The derived \<open>Debug\<close> text of a kind, which is what is signed.\<close>

fun listing_kind_debug :: "listing_kind \<Rightarrow> string" where
  "listing_kind_debug LkPlugin = ''Plugin''"
| "listing_kind_debug LkAgent = ''Agent''"
| "listing_kind_debug LkBoard = ''Board''"
| "listing_kind_debug LkTheme = ''Theme''"
| "listing_kind_debug LkBenchmark = ''Benchmark''"

record listing_body =
  ls_sku :: string
  ls_kind :: listing_kind
  ls_title :: string
  ls_description :: string
  ls_price :: u64
  ls_seller :: agent_id
  ls_handle :: string
  ls_artifact_hash :: string
  ls_created_at :: time

definition listing_signing_bytes :: "env \<Rightarrow> listing_body \<Rightarrow> bytes" where
  "listing_signing_bytes E b =
     ''agentbbs.listing.v1'' @ [newline] @
     ls_sku b @ [newline] @
     listing_kind_debug (ls_kind b) @ [newline] @
     ls_title b @ [newline] @
     dec (length (ls_description b)) @ '':'' @ ls_description b @ [newline] @
     dec (unat (ls_price b)) @ [newline] @
     to_hex E (ls_seller b) @ [newline] @
     ls_handle b @ [newline] @
     ls_artifact_hash b @ [newline] @
     rfc3339 E (ls_created_at b)"

record listing =
  li_body :: listing_body
  li_signature :: signature

definition listing_sign :: "env \<Rightarrow> identity \<Rightarrow> listing_body \<Rightarrow> listing result" where
  "listing_sign E i b =
     (if ident i \<noteq> ls_seller b
      then Inl (malformed ''listing'' ''signing identity is not the seller'')
      else Inr \<lparr>li_body = b, li_signature = sign E i (listing_signing_bytes E b)\<rparr>)"

definition listing_verify :: "env \<Rightarrow> listing \<Rightarrow> unit result" where
  "listing_verify E l =
     verify_sig E (ls_seller (li_body l)) (listing_signing_bytes E (li_body l)) (li_signature l)"

definition artifact_hash :: "env \<Rightarrow> bytes \<Rightarrow> string" where
  "artifact_hash E b = blake3_hex E b"

definition verify_artifact :: "env \<Rightarrow> listing \<Rightarrow> bytes \<Rightarrow> unit result" where
  "verify_artifact E l artifact =
     (let got = blake3_hex E artifact in
      if got = ls_artifact_hash (li_body l) then Inr ()
      else Inl (malformed ''artifact'' ''hash does not match listing''))"

record market =
  listings :: "listing list"

definition market_new :: market where
  "market_new = \<lparr>listings = []\<rparr>"

definition listing_key :: "listing \<Rightarrow> agent_id \<times> string" where
  "listing_key l = (ls_seller (li_body l), ls_sku (li_body l))"

definition market_publish :: "env \<Rightarrow> market \<Rightarrow> listing \<Rightarrow> market result" where
  "market_publish E m l = rbind (listing_verify E l) (\<lambda>_.
     let same = (\<lambda>x. listing_key x = listing_key l) in
     Inr (if list_ex same (listings m)
          then m\<lparr>listings := update_first same (\<lambda>_. l) (listings m)\<rparr>
          else m\<lparr>listings := listings m @ [l]\<rparr>))"

definition market_by_kind :: "market \<Rightarrow> listing_kind \<Rightarrow> listing list" where
  "market_by_kind m k = filter (\<lambda>l. ls_kind (li_body l) = k) (listings m)"

definition market_len :: "market \<Rightarrow> nat" where
  "market_len m = length (listings m)"

definition market_is_empty :: "market \<Rightarrow> bool" where
  "market_is_empty m \<longleftrightarrow> listings m = []"

definition market_all :: "market \<Rightarrow> listing list" where
  "market_all m = listings m"

section \<open>The catalogue as a log and as a map\<close>

lemma set_update_first_const: "set (update_first p (\<lambda>_. y) xs) \<subseteq> insert y (set xs)"
  by (induction xs) auto

interpretation market_log: verified_log "listing_verify E" "market_publish E" listings market_new
  for E :: env
proof unfold_locales
  fix a e l l'
  show "listings market_new = []" by (simp add: market_new_def)
  show "listing_verify E a = Inl e \<Longrightarrow> market_publish E l a = Inl e"
    by (simp add: market_publish_def)
  show "listing_verify E a = Inr () \<Longrightarrow> \<exists>l'. market_publish E l a = Inr l'"
    by (simp add: market_publish_def Let_def)
  show "market_publish E l a = Inr l' \<Longrightarrow> set (listings l') \<subseteq> insert a (set (listings l))"
    by (auto simp: market_publish_def result_simps Let_def split: if_splits
        dest!: set_mp[OF set_update_first_const])
qed

text \<open>The abstract catalogue: the listing of each (seller, sku).\<close>

definition market_map :: "market \<Rightarrow> agent_id \<times> string \<Rightarrow> listing option" where
  "market_map m k = find (\<lambda>l. listing_key l = k) (listings m)"

lemma find_update_first_const:
  assumes "listing_key l = j" "list_ex (\<lambda>x. listing_key x = j) ls"
  shows "find (\<lambda>x. listing_key x = k) (update_first (\<lambda>x. listing_key x = j) (\<lambda>_. l) ls) =
    (if k = j then Some l else find (\<lambda>x. listing_key x = k) ls)"
  using assms by (induction ls) auto

lemma market_publish_map:
  "market_publish E m l = Inr m' \<Longrightarrow> market_map m' = (market_map m)(listing_key l \<mapsto> l)"
proof
  fix k
  let ?same = "\<lambda>x. listing_key x = listing_key l"
  assume "market_publish E m l = Inr m'"
  then have m': "listings m' = (if list_ex ?same (listings m)
      then update_first ?same (\<lambda>_. l) (listings m) else listings m @ [l])"
    by (auto simp: market_publish_def result_simps Let_def)
  have "find (\<lambda>x. listing_key x = listing_key l) (listings m) = None"
    if "\<not> list_ex ?same (listings m)"
    using that by (auto simp: list_ex_iff find_None_iff)
  then show "market_map m' k = ((market_map m)(listing_key l \<mapsto> l)) k"
    using find_update_first_const[of l "listing_key l" "listings m" k]
    by (auto simp: market_map_def m' find_append split: option.split)
qed

lemma market_publish_keys:
  "market_publish E m l = Inr m' \<Longrightarrow> distinct (map listing_key (listings m)) \<Longrightarrow>
    distinct (map listing_key (listings m'))"
  using map_update_first[of "\<lambda>x. listing_key x = listing_key l" listing_key "\<lambda>_. l" "listings m"]
  by (auto simp: market_publish_def result_simps Let_def list_ex_key split: if_splits)

text \<open>The listing a run leaves under a key is the last verified one offered.\<close>

definition last_verified :: "env \<Rightarrow> agent_id \<times> string \<Rightarrow> listing list \<Rightarrow> listing option" where
  "last_verified E k ls = find (\<lambda>l. listing_verify E l = Inr () \<and> listing_key l = k) (rev ls)"

lemma market_run_map:
  "market_map (attempts (market_publish E) m ls) k =
    (case last_verified E k ls of Some l \<Rightarrow> Some l | None \<Rightarrow> market_map m k)"
proof (induction ls arbitrary: m)
  case Nil
  then show ?case by (simp add: last_verified_def)
next
  case (Cons l ls)
  have "market_map (attempt (market_publish E) m l) k =
      (if listing_verify E l = Inr () \<and> listing_key l = k then Some l else market_map m k)"
  proof (cases "market_publish E m l")
    case (Inl e)
    then have "listing_verify E l = Inl e" by (simp add: market_log.admit_total)
    with Inl show ?thesis by (simp add: attempt_def)
  next
    case (Inr m')
    then show ?thesis
      by (simp add: attempt_def market_publish_map market_log.admit_verified[OF Inr])
  qed
  then show ?case
    by (simp add: Cons.IH last_verified_def find_append split: option.split)
qed

lemma listing_sign_verifies:
  "sig_ok E \<Longrightarrow> identity_wf E i \<Longrightarrow> listing_sign E i b = Inr l \<Longrightarrow> listing_verify E l = Inr ()"
  by (auto simp: listing_sign_def listing_verify_def verify_sign split: if_splits)
     (metis verify_sign)

section \<open>Properties\<close>

text \<open>
  The catalogue holds one listing per (seller, sku), the last verified one
  offered: after any sequence of publications, looking up a key gives exactly that listing,
  no key is listed twice, and everything listed verifies under its seller's key.
\<close>

theorem market_keeps_last_verified:
  "let m = attempts (market_publish E) market_new ls in
    market_map m k = last_verified E k ls \<and>
    distinct (map listing_key (market_all m)) \<and>
    set (market_all m) \<subseteq> {l \<in> set ls. listing_verify E l = Inr ()}"
proof -
  have "distinct (map listing_key (listings (attempts (market_publish E) market_new ls)))"
    by (rule attempts_inv[where P = "\<lambda>m. distinct (map listing_key (listings m))"])
       (auto simp: market_new_def intro: market_publish_keys)
  then show ?thesis
    using market_log.attempts_items[of E market_new ls] market_run_map[of E market_new ls k]
    by (auto simp: market_all_def market_map_def market_new_def split: option.splits)
qed

text \<open>
  A purchase's artifact is bound by the listing: when artifacts are checked
  against the hash a seller published, two artifacts pass the same listing only if they are
  the same bytes or a collision of BLAKE3, and the seller's own artifact passes.
\<close>

theorem artifact_bound_to_listing:
  assumes "hex_ok E" "ls_artifact_hash (li_body l) = artifact_hash E a"
  shows "verify_artifact E l a = Inr () \<and>
    (verify_artifact E l a' = Inr () \<longleftrightarrow> blake3 E a' = blake3 E a)"
  using assms
  by (auto simp: verify_artifact_def artifact_hash_def Let_def blake3_hex_def hex_enc_inj)

definition demo_listing_body :: listing_body where
  "demo_listing_body = \<lparr>ls_sku = ''bot'', ls_kind = LkAgent, ls_title = ''Bot'',
     ls_description = ''a bot'', ls_price = 5, ls_seller = ident (demo_id 4), ls_handle = ''s'',
     ls_artifact_hash = artifact_hash demo_env ''wasm'', ls_created_at = 7\<rparr>"

theorem artifact_bound_to_listing_witness:
  "verify_artifact demo_env \<lparr>li_body = demo_listing_body, li_signature = SignatureBytes []\<rparr> ''wasm'' = Inr () \<and>
   verify_artifact demo_env \<lparr>li_body = demo_listing_body, li_signature = SignatureBytes []\<rparr> ''evil'' \<noteq> Inr ()"
proof -
  let ?l = "\<lparr>li_body = demo_listing_body, li_signature = SignatureBytes []\<rparr>"
  have "ls_artifact_hash (li_body ?l) = artifact_hash demo_env ''wasm''"
    by (simp add: demo_listing_body_def)
  then show ?thesis
    using artifact_bound_to_listing[OF demo_hex_ok, of ?l "''wasm''" "''evil''"]
    by (simp add: demo_env_def)
qed

text \<open>
  The listing's bytes do not fix its fields: a title, sku or handle with a line
  break moves text between fields, so for every seller there are two listings of different
  kind and sku for which exactly the same signatures verify.
\<close>

theorem listing_kind_not_bound:
  "\<exists>a b. ls_seller a = k \<and> ls_seller b = k \<and> ls_kind a \<noteq> ls_kind b \<and> ls_sku a \<noteq> ls_sku b \<and>
    (\<forall>sg. listing_verify E \<lparr>li_body = a, li_signature = sg\<rparr> =
          listing_verify E \<lparr>li_body = b, li_signature = sg\<rparr>)"
proof -
  define a where "a = demo_listing_body\<lparr>ls_seller := k, ls_sku := ''x'', ls_kind := LkPlugin,
    ls_title := ''Agent'' @ newline # ''y''\<rparr>"
  define b where "b = demo_listing_body\<lparr>ls_seller := k, ls_sku := ''x'' @ newline # ''Plugin'',
    ls_kind := LkAgent, ls_title := ''y''\<rparr>"
  have "listing_signing_bytes E a = listing_signing_bytes E b"
    by (simp add: a_def b_def listing_signing_bytes_def)
  then have "ls_seller a = k \<and> ls_seller b = k \<and> ls_kind a \<noteq> ls_kind b \<and> ls_sku a \<noteq> ls_sku b \<and>
    (\<forall>sg. listing_verify E \<lparr>li_body = a, li_signature = sg\<rparr> =
          listing_verify E \<lparr>li_body = b, li_signature = sg\<rparr>)"
    by (simp add: listing_verify_def a_def b_def)
  then show ?thesis by blast
qed

end
