(* ===== verification/Board.thy ===== *)
theory Board
  imports Signed
begin

text \<open>
  Boards and content-addressed, signed messages (\<open>agentbbs-core/src/board.rs\<close>).
\<close>

section \<open>Model\<close>

datatype message_id = MessageId (mid: string)

definition mid_short :: "message_id \<Rightarrow> string" where
  "mid_short i = take (min (length (mid i)) 8) (mid i)"

record board =
  bd_slug :: string
  bd_title :: string
  bd_description :: string
  bd_locked :: bool
  bd_founder :: agent_id
  bd_created_at :: time
  bd_federated :: bool

definition board_new :: "string \<Rightarrow> string \<Rightarrow> agent_id \<Rightarrow> time \<Rightarrow> board" where
  "board_new slug title founder now =
     \<lparr>bd_slug = slug, bd_title = title, bd_description = [], bd_locked = False,
      bd_founder = founder, bd_created_at = now, bd_federated = True\<rparr>"

datatype message_kind = Post | Milestone | Step

fun kind_discriminant :: "message_kind \<Rightarrow> string" where
  "kind_discriminant Post = ''post''"
| "kind_discriminant Milestone = ''milestone''"
| "kind_discriminant Step = ''step''"

record message_body =
  mb_board :: string
  mb_parent :: "message_id option"
  mb_subject :: string
  mb_body :: string
  mb_author :: agent_id
  mb_handle :: string
  mb_created_at :: time
  mb_kind :: message_kind

definition parent_text :: "message_id option \<Rightarrow> string" where
  "parent_text p = (case p of None \<Rightarrow> ''-'' | Some i \<Rightarrow> mid i)"

definition body_signing_bytes :: "env \<Rightarrow> message_body \<Rightarrow> bytes" where
  "body_signing_bytes E b =
     (let is_v2 = mb_kind b \<noteq> Post in
      (if is_v2 then ''agentbbs.msg.v2'' @ [newline] else ''agentbbs.msg.v1'' @ [newline])
      @ mb_board b @ [newline]
      @ parent_text (mb_parent b) @ [newline]
      @ (if is_v2 then kind_discriminant (mb_kind b) @ [newline] else [])
      @ mb_subject b @ [newline]
      @ to_hex E (mb_author b) @ [newline]
      @ mb_handle b @ [newline]
      @ rfc3339 E (mb_created_at b) @ [newline]
      @ len_prefix (mb_body b))"

definition body_id :: "env \<Rightarrow> message_body \<Rightarrow> message_id" where
  "body_id E b = MessageId (blake3_hex E (body_signing_bytes E b))"

record message =
  msg_id :: message_id
  msg_body :: message_body
  msg_signature :: signature

definition message_sign :: "env \<Rightarrow> identity \<Rightarrow> message_body \<Rightarrow> message result" where
  "message_sign E i b =
     (if ident i \<noteq> mb_author b
      then Inl (malformed ''message'' ''signing identity does not match author'')
      else let bytes = body_signing_bytes E b; sg = sign E i bytes
           in Inr \<lparr>msg_id = body_id E b, msg_body = b, msg_signature = sg\<rparr>)"

definition message_verify :: "env \<Rightarrow> message \<Rightarrow> unit result" where
  "message_verify E m =
     (let bytes = body_signing_bytes E (msg_body m);
          recomputed = MessageId (blake3_hex E bytes)
      in if recomputed \<noteq> msg_id m then Inl (malformed ''message'' ''id does not match content'')
         else verify_sig E (mb_author (msg_body m)) bytes (msg_signature m))"

section \<open>Lemmas\<close>

lemma message_verify_Inr_iff [result_simps]:
  "message_verify E m = Inr u \<longleftrightarrow> msg_id m = body_id E (msg_body m) \<and>
     verify_sig E (mb_author (msg_body m)) (body_signing_bytes E (msg_body m)) (msg_signature m) = Inr ()"
  by (auto simp: message_verify_def body_id_def Let_def)

lemma message_sign_Inr:
  "message_sign E i b = Inr m \<Longrightarrow>
     ident i = mb_author b \<and> msg_body m = b \<and> msg_id m = body_id E b \<and>
     msg_signature m = sign E i (body_signing_bytes E b)"
  by (auto simp: message_sign_def Let_def split: if_splits)

lemma message_sign_verifies:
  assumes "sig_ok E" "identity_wf E i" "message_sign E i b = Inr m"
  shows "message_verify E m = Inr ()"
proof -
  from message_sign_Inr[OF assms(3)] have m: "ident i = mb_author b" "msg_body m = b"
      "msg_id m = body_id E b" "msg_signature m = sign E i (body_signing_bytes E b)"
    by simp_all
  have "verify_sig E (mb_author b) (body_signing_bytes E b) (msg_signature m) = Inr ()"
    using verify_sign[OF assms(1,2)] m by metis
  with m show ?thesis by (simp add: message_verify_Inr_iff)
qed

text \<open>The header fields the format does not length-prefix.\<close>

definition clean_header :: "message_body \<Rightarrow> bool" where
  "clean_header b \<longleftrightarrow> newline \<notin> set (mb_board b) \<and> newline \<notin> set (mb_subject b) \<and>
     newline \<notin> set (mb_handle b) \<and>
     (case mb_parent b of None \<Rightarrow> True | Some i \<Rightarrow> newline \<notin> set (mid i) \<and> mid i \<noteq> ''-'')"

lemma parent_text_inj:
  "clean_header a \<Longrightarrow> clean_header b \<Longrightarrow> parent_text (mb_parent a) = parent_text (mb_parent b) \<Longrightarrow>
     mb_parent a = mb_parent b"
  by (auto simp: clean_header_def parent_text_def message_id.expand split: option.splits)

lemma newline_parent_text: "clean_header b \<Longrightarrow> newline \<notin> set (parent_text (mb_parent b))"
  by (auto simp: clean_header_def parent_text_def split: option.splits)

lemma newline_discriminant: "newline \<notin> set (kind_discriminant k)"
  by (cases k) simp_all

lemma discriminant_inj: "kind_discriminant k = kind_discriminant l \<longleftrightarrow> k = l"
  by (cases k; cases l) simp_all

lemma len_prefix_inj [simp]: "len_prefix p = len_prefix q \<longleftrightarrow> p = q"
  using len_prefix_append_inj[of p "[]" q "[]"] by simp

lemma tags_differ:
  "''agentbbs.msg.v1'' @ newline # xs \<noteq> ''agentbbs.msg.v2'' @ newline # ys"
  by simp

section \<open>Properties\<close>

text \<open>
  Message ids and signatures bind to the whole message when the header fields
  (board, parent, subject, handle) hold no newline and the parent is not the marker "-":
  two such bodies have equal signing bytes, of whichever version, only if they are the same
  body, whatever bytes the message text itself contains.
\<close>

theorem signing_bytes_bind_clean_messages:
  assumes "hex_ok E" "time_ok E" "clean_header a" "clean_header b"
    and "body_signing_bytes E a = body_signing_bytes E b"
  shows "a = b"
proof -
  note sep = split_at_sep_iff
  note nl = newline_parent_text[OF assms(3)] newline_parent_text[OF assms(4)]
    newline_discriminant newline_not_to_hex[OF assms(1)]
  have c: "newline \<notin> set (mb_board a)" "newline \<notin> set (mb_board b)"
      "newline \<notin> set (mb_subject a)" "newline \<notin> set (mb_subject b)"
      "newline \<notin> set (mb_handle a)" "newline \<notin> set (mb_handle b)"
      "newline \<notin> set (rfc3339 E (mb_created_at a))" "newline \<notin> set (rfc3339 E (mb_created_at b))"
    using assms(2-4) by (auto simp: clean_header_def time_ok_def)
  have k: "(mb_kind a = Post) = (mb_kind b = Post)"
    using assms(5) by (auto simp: body_signing_bytes_def Let_def split: if_splits)
  have "mb_board a = mb_board b \<and> parent_text (mb_parent a) = parent_text (mb_parent b) \<and>
     mb_kind a = mb_kind b \<and> mb_subject a = mb_subject b \<and> mb_author a = mb_author b \<and>
     mb_handle a = mb_handle b \<and> mb_created_at a = mb_created_at b \<and> mb_body a = mb_body b"
    using assms(5) k
    by (cases "mb_kind a = Post"; cases "mb_kind b = Post")
       (simp_all add: body_signing_bytes_def Let_def sep[OF c(1,2)] sep[OF c(3,4)] sep[OF c(5,6)]
         sep[OF c(7,8)] sep[OF nl(1,2)] sep[OF nl(3) nl(3)] sep[OF nl(4) nl(4)]
         to_hex_inj[OF assms(1)] rfc3339_inj[OF assms(2)] discriminant_inj)
  then show ?thesis
    using parent_text_inj[OF assms(3,4)] by simp
qed

definition demo_body :: message_body where
  "demo_body = \<lparr>mb_board = ''general'', mb_parent = None, mb_subject = ''hi'',
     mb_body = ''a'' @ [newline] @ ''b'', mb_author = ident (demo_id 0), mb_handle = ''bob'',
     mb_created_at = 7, mb_kind = Post\<rparr>"

definition demo_message :: message where
  "demo_message = \<lparr>msg_id = body_id demo_env demo_body, msg_body = demo_body,
     msg_signature = sign demo_env (demo_id 0) (body_signing_bytes demo_env demo_body)\<rparr>"

lemma demo_message_verifies: "message_verify demo_env demo_message = Inr ()"
  using verify_sign[OF demo_sig_ok demo_id_wf]
  by (simp add: message_verify_Inr_iff demo_message_def demo_body_def)

theorem signing_bytes_bind_clean_messages_witness:
  "clean_header demo_body \<and>
   body_signing_bytes demo_env demo_body \<noteq>
     body_signing_bytes demo_env (demo_body\<lparr>mb_kind := Milestone\<rparr>)"
proof -
  have c: "clean_header demo_body" "clean_header (demo_body\<lparr>mb_kind := Milestone\<rparr>)"
    by (simp_all add: clean_header_def demo_body_def)
  moreover have "demo_body \<noteq> demo_body\<lparr>mb_kind := Milestone\<rparr>"
    by (simp add: demo_body_def)
  ultimately show ?thesis
    using signing_bytes_bind_clean_messages[OF demo_hex_ok demo_time_ok c] by blast
qed

text \<open>
  The format is ambiguous when a header field holds a newline: for every author
  there are two different messages with the same id for which exactly the same signatures
  verify, because neither subject nor handle is length-prefixed. Whoever relays the one can
  deliver the other.
\<close>

theorem signing_bytes_ambiguous:
  "\<exists>a b. a \<noteq> b \<and> mb_author a = k \<and> mb_author b = k \<and> mb_subject a \<noteq> mb_subject b \<and>
     body_id E a = body_id E b \<and>
     (\<forall>sg. message_verify E \<lparr>msg_id = body_id E a, msg_body = a, msg_signature = sg\<rparr> =
           message_verify E \<lparr>msg_id = body_id E a, msg_body = b, msg_signature = sg\<rparr>)"
proof -
  define a where "a = demo_body\<lparr>mb_author := k, mb_subject := ''x'',
    mb_handle := ''y'' @ newline # to_hex E k @ newline # ''z''\<rparr>"
  define b where "b = demo_body\<lparr>mb_author := k,
    mb_subject := ''x'' @ newline # to_hex E k @ newline # ''y'', mb_handle := ''z''\<rparr>"
  have same: "body_signing_bytes E a = body_signing_bytes E b"
    by (simp add: a_def b_def body_signing_bytes_def demo_body_def)
  moreover have "mb_subject a \<noteq> mb_subject b"
    by (simp add: a_def b_def)
  moreover have "mb_author a = k" "mb_author b = k"
    by (simp_all add: a_def b_def)
  ultimately show ?thesis
    by (intro exI[of _ a] exI[of _ b]) (auto simp: message_verify_def body_id_def Let_def)
qed

end
