(* ===== verification/BTree_Map.thy ===== *)
theory BTree_Map
  imports Prelude
begin

text \<open>
  \<open>std::collections::BTreeMap\<close> as the components use it: a finite map iterated in key
  order, here the list of its entries with strictly increasing keys. Byte strings are
  ordered lexicographically, as Rust's \<open>Ord for str\<close>. The interface \<open>keyed_map\<close> states
  what the components rely on; \<open>bt\<close> interprets it.
\<close>

section \<open>The interface\<close>

locale keyed_map =
  fixes empty_m :: "'m"
    and get :: "'m \<Rightarrow> 'k \<Rightarrow> 'v option"
    and put :: "'k \<Rightarrow> 'v \<Rightarrow> 'm \<Rightarrow> 'm"
    and del :: "'k \<Rightarrow> 'm \<Rightarrow> 'm"
    and entries :: "'m \<Rightarrow> ('k \<times> 'v) list"
    and wf :: "'m \<Rightarrow> bool"
  assumes get_empty: "get empty_m = Map.empty"
    and get_put: "wf m \<Longrightarrow> get (put k v m) = (get m)(k \<mapsto> v)"
    and get_del: "wf m \<Longrightarrow> get (del k m) = (get m)(k := None)"
    and entries_get: "wf m \<Longrightarrow> (k, v) \<in> set (entries m) \<longleftrightarrow> get m k = Some v"
    and entries_keys: "wf m \<Longrightarrow> distinct (map fst (entries m))"
    and wf_empty: "wf empty_m"
    and wf_put: "wf m \<Longrightarrow> wf (put k v m)"
    and wf_del: "wf m \<Longrightarrow> wf (del k m)"
begin

lemma get_put_same: "wf m \<Longrightarrow> get (put k v m) k = Some v"
  by (simp add: get_put)

lemma get_put_other: "wf m \<Longrightarrow> j \<noteq> k \<Longrightarrow> get (put k v m) j = get m j"
  by (simp add: get_put)

lemma set_values: "wf m \<Longrightarrow> set (map snd (entries m)) = ran (get m)"
  by (force simp: ran_def entries_get[symmetric])

lemma set_keys: "wf m \<Longrightarrow> set (map fst (entries m)) = dom (get m)"
  by (force simp: dom_def entries_get[symmetric])

lemma size_put: "wf m \<Longrightarrow> length (entries (put k v m)) =
    (if get m k = None then Suc (length (entries m)) else length (entries m))"
proof -
  assume wf: "wf m"
  have len: "length (entries n) = card (dom (get n))" if "wf n" for n
    using that by (metis distinct_card entries_keys length_map set_keys)
  have fin: "finite (dom (get m))"
    using wf by (metis List.finite_set set_keys)
  show ?thesis
  proof (cases "get m k")
    case None
    then have "k \<notin> dom (get m)" by auto
    with fin show ?thesis
      using None wf by (simp add: len wf_put get_put card_insert_disjoint)
  next
    case (Some w)
    then have "insert k (dom (get m)) = dom (get m)" by auto
    with Some wf show ?thesis
      by (simp add: len wf_put get_put del: insert_dom)
  qed
qed

end

section \<open>The ordered list of entries\<close>

type_synonym ('k, 'v) btree = "('k \<times> 'v) list"

definition bt_empty :: "('k, 'v) btree" where
  "bt_empty = []"

definition bt_get :: "('k, 'v) btree \<Rightarrow> 'k \<Rightarrow> 'v option" where
  "bt_get m k = map_of m k"

fun bt_insert :: "'k::linorder \<Rightarrow> 'v \<Rightarrow> ('k, 'v) btree \<Rightarrow> ('k, 'v) btree" where
  "bt_insert k v [] = [(k, v)]"
| "bt_insert k v ((a, b) # m) =
     (if k < a then (k, v) # (a, b) # m
      else if k = a then (k, v) # m
      else (a, b) # bt_insert k v m)"

fun bt_remove :: "'k \<Rightarrow> ('k, 'v) btree \<Rightarrow> ('k, 'v) btree" where
  "bt_remove k [] = []"
| "bt_remove k ((a, b) # m) = (if k = a then m else (a, b) # bt_remove k m)"

definition bt_values :: "('k, 'v) btree \<Rightarrow> 'v list" where
  "bt_values m = map snd m"

definition bt_keys :: "('k, 'v) btree \<Rightarrow> 'k list" where
  "bt_keys m = map fst m"

definition bt_entries :: "('k, 'v) btree \<Rightarrow> ('k \<times> 'v) list" where
  "bt_entries m = m"

definition bt_wf :: "('k::linorder, 'v) btree \<Rightarrow> bool" where
  "bt_wf m \<longleftrightarrow> sorted_wrt (<) (map fst m)"

lemma bt_wf_Cons: "bt_wf ((a, b) # m) \<longleftrightarrow> (\<forall>x \<in> fst ` set m. a < x) \<and> bt_wf m"
  by (simp add: bt_wf_def)

lemma fst_bt_insert: "fst ` set (bt_insert k v m) = insert k (fst ` set m)"
  by (induction m rule: bt_insert.induct) auto

lemma bt_wf_insert: "bt_wf m \<Longrightarrow> bt_wf (bt_insert k v m)"
proof (induction k v m rule: bt_insert.induct)
  case (1 k v)
  show ?case by (simp add: bt_wf_def)
next
  case (2 k v a b m)
  then show ?case
    by (auto simp: bt_wf_Cons fst_bt_insert)
qed

lemma fst_bt_remove: "fst ` set (bt_remove k m) \<subseteq> fst ` set m"
  by (induction m rule: bt_remove.induct) auto

lemma bt_wf_remove: "bt_wf m \<Longrightarrow> bt_wf (bt_remove k m)"
proof (induction k m rule: bt_remove.induct)
  case (1 k)
  then show ?case by simp
next
  case (2 k a b m)
  then show ?case
    using fst_bt_remove[of k m] by (auto simp: bt_wf_Cons dest!: subsetD)
qed

lemma bt_get_insert: "bt_wf m \<Longrightarrow> bt_get (bt_insert k v m) = (bt_get m)(k \<mapsto> v)"
proof (induction k v m rule: bt_insert.induct)
  case (1 k v)
  show ?case by (rule ext) (simp add: bt_get_def)
next
  case (2 k v a b m)
  then show ?case
    by (auto simp: bt_wf_Cons bt_get_def fun_eq_iff)
qed

lemma bt_get_above: "bt_wf ((a, b) # m) \<Longrightarrow> map_of m a = None"
  by (auto simp: bt_wf_Cons map_of_eq_None_iff)

lemma bt_get_remove: "bt_wf m \<Longrightarrow> bt_get (bt_remove k m) = (bt_get m)(k := None)"
proof (induction k m rule: bt_remove.induct)
  case (1 k)
  show ?case by (rule ext) (simp add: bt_get_def)
next
  case (2 k a b m)
  from "2.prems" have "map_of m a = None" by (rule bt_get_above)
  with 2 show ?case
    by (auto simp: bt_wf_Cons bt_get_def fun_eq_iff)
qed

lemma bt_distinct: "bt_wf m \<Longrightarrow> distinct (map fst m)"
  unfolding bt_wf_def by (simp add: strict_sorted_iff)

interpretation bt: keyed_map bt_empty bt_get bt_insert bt_remove bt_entries bt_wf
proof unfold_locales
  show "bt_get bt_empty = Map.empty"
    by (rule ext) (simp add: bt_get_def bt_empty_def)
  show "bt_wf bt_empty"
    by (simp add: bt_wf_def bt_empty_def)
next
  fix m :: "('k::linorder, 'v) btree" and k v
  assume wf: "bt_wf m"
  show "bt_get (bt_insert k v m) = (bt_get m)(k \<mapsto> v)" using wf by (rule bt_get_insert)
  show "bt_get (bt_remove k m) = (bt_get m)(k := None)" using wf by (rule bt_get_remove)
  show "(k, v) \<in> set (bt_entries m) \<longleftrightarrow> bt_get m k = Some v"
    using bt_distinct[OF wf] by (simp add: bt_entries_def bt_get_def)
  show "distinct (map fst (bt_entries m))"
    using bt_distinct[OF wf] by (simp add: bt_entries_def)
  show "bt_wf (bt_insert k v m)" using wf by (rule bt_wf_insert)
  show "bt_wf (bt_remove k m)" using wf by (rule bt_wf_remove)
qed

lemma set_bt_values: "bt_wf m \<Longrightarrow> set (bt_values m) = ran (bt_get m)"
  using bt.set_values by (simp add: bt_values_def bt_entries_def)

lemma set_bt_keys: "bt_wf m \<Longrightarrow> set (bt_keys m) = dom (bt_get m)"
  using bt.set_keys by (simp add: bt_keys_def bt_entries_def)

lemma length_bt_insert: "bt_wf m \<Longrightarrow> length (bt_insert k v m) =
    (if bt_get m k = None then Suc (length m) else length m)"
  using bt.size_put[of m k v] by (simp only: bt_entries_def)

text \<open>Two ordered maps with the same lookups are the same list of entries.\<close>

lemma bt_eqI:
  assumes "bt_wf m" "bt_wf n" "\<And>k. bt_get m k = bt_get n k"
  shows "m = n"
proof (rule map_sorted_distinct_set_unique[where f = fst])
  show "set m = set n"
    using bt.entries_get[OF assms(1)] bt.entries_get[OF assms(2)] assms(3)
    by (auto simp: bt_entries_def)
  then show "inj_on fst (set m \<union> set n)"
    using bt_distinct[OF assms(2)] by (simp add: distinct_map)
  show "sorted (map fst m)" "distinct (map fst m)" "sorted (map fst n)" "distinct (map fst n)"
    using assms by (simp_all add: bt_wf_def strict_sorted_iff)
qed

lemmas bt_simps = bt_get_insert bt_get_remove bt_wf_insert bt_wf_remove bt.get_empty bt.wf_empty

section \<open>Tables related entry by entry\<close>

text \<open>Two maps with the same keys and related values, such as a table of encoded values.\<close>

definition bt_rel :: "('v \<Rightarrow> 'w \<Rightarrow> bool) \<Rightarrow> ('k, 'v) btree \<Rightarrow> ('k, 'w) btree \<Rightarrow> bool" where
  "bt_rel R m n \<longleftrightarrow> list_all2 (\<lambda>x y. fst x = fst y \<and> R (snd x) (snd y)) m n"

lemma bt_rel_empty [simp]: "bt_rel R bt_empty bt_empty"
  by (simp add: bt_rel_def bt_empty_def)

lemma bt_rel_insert: "bt_rel R m n \<Longrightarrow> R v w \<Longrightarrow> bt_rel R (bt_insert k v m) (bt_insert k w n)"
proof (induction m arbitrary: n)
  case Nil
  then show ?case by (simp add: bt_rel_def)
next
  case (Cons x m)
  obtain a b where x: "x = (a, b)" by (cases x)
  from Cons.prems(1) obtain c n' where n: "n = (a, c) # n'" "R b c" "bt_rel R m n'"
    unfolding bt_rel_def x by (cases n) auto
  from Cons.IH[OF n(3) Cons.prems(2)] n Cons.prems(2) show ?case
    by (simp add: x bt_rel_def)
qed

lemma bt_rel_remove: "bt_rel R m n \<Longrightarrow> bt_rel R (bt_remove k m) (bt_remove k n)"
proof (induction m arbitrary: n)
  case Nil
  then show ?case by (simp add: bt_rel_def)
next
  case (Cons x m)
  obtain a b where x: "x = (a, b)" by (cases x)
  from Cons.prems obtain c n' where n: "n = (a, c) # n'" "R b c" "bt_rel R m n'"
    unfolding bt_rel_def x by (cases n) auto
  from Cons.IH[OF n(3)] n show ?case
    by (simp add: x bt_rel_def)
qed

lemma bt_rel_get: "bt_rel R m n \<Longrightarrow> rel_option R (bt_get m k) (bt_get n k)"
proof (induction m arbitrary: n)
  case Nil
  then show ?case by (simp add: bt_rel_def bt_get_def)
next
  case (Cons x m)
  obtain a b where x: "x = (a, b)" by (cases x)
  from Cons.prems obtain c n' where n: "n = (a, c) # n'" "R b c" "bt_rel R m n'"
    unfolding bt_rel_def x by (cases n) auto
  from Cons.IH[OF n(3)] n show ?case
    by (simp add: x bt_get_def)
qed

lemma bt_rel_values: "bt_rel R m n \<Longrightarrow> list_all2 R (bt_values m) (bt_values n)"
  by (auto simp: bt_rel_def bt_values_def list.rel_map elim: list.rel_mono_strong)

lemma bt_rel_length: "bt_rel R m n \<Longrightarrow> length m = length n"
  by (auto simp: bt_rel_def dest: list_all2_lengthD)

end
