(* ===== verification/Store.thy ===== *)
theory Store
  imports Board BTree_Map
begin

text \<open>
  Persistence (\<open>agentbbs-core/src/store.rs\<close>): the \<open>Store\<close> trait as a record of
  operations, the abstract store it promises (boards by slug, one log of messages in arrival
  order, personas by handle), the contract between the two as a locale, and the in-memory
  store. A store behind read-write locks is its content: each operation holds its locks for
  its whole duration.
\<close>

section \<open>The trait\<close>

text \<open>\<open>agentbbs-core/src/persona.rs\<close>.\<close>

record persona =
  pa_handle :: string
  pa_prompt :: string

record 's store_ops =
  op_put_board :: "'s \<Rightarrow> board \<Rightarrow> 's result"
  op_get_board :: "'s \<Rightarrow> string \<Rightarrow> board option result"
  op_list_boards :: "'s \<Rightarrow> board list result"
  op_put_message :: "'s \<Rightarrow> message \<Rightarrow> 's result"
  op_get_message :: "'s \<Rightarrow> message_id \<Rightarrow> message option result"
  op_list_messages :: "'s \<Rightarrow> string \<Rightarrow> nat \<Rightarrow> message list result"
  op_message_count :: "'s \<Rightarrow> nat result"
  op_put_persona :: "'s \<Rightarrow> persona \<Rightarrow> 's result"
  op_get_persona :: "'s \<Rightarrow> string \<Rightarrow> persona option result"
  op_list_personas :: "'s \<Rightarrow> persona list result"
  op_delete_persona :: "'s \<Rightarrow> string \<Rightarrow> 's result"

text \<open>A caller's request and the store's answer to it.\<close>

datatype store_op =
    PutBoard board
  | GetBoard string
  | ListBoards
  | PutMessage message
  | GetMessage message_id
  | ListMessages string nat
  | MessageCount
  | PutPersona persona
  | GetPersona string
  | ListPersonas
  | DeletePersona string

datatype store_answer =
    Done
  | ABoard "board option"
  | ABoards "board list"
  | AMessage "message option"
  | AMessages "message list"
  | ACount nat
  | APersona "persona option"
  | APersonas "persona list"
  | Failed error

fun wrote :: "'s \<Rightarrow> 's result \<Rightarrow> 's \<times> store_answer" where
  "wrote s (Inl e) = (s, Failed e)"
| "wrote s (Inr s') = (s', Done)"

fun answered :: "'s \<Rightarrow> ('a \<Rightarrow> store_answer) \<Rightarrow> 'a result \<Rightarrow> 's \<times> store_answer" where
  "answered s f (Inl e) = (s, Failed e)"
| "answered s f (Inr x) = (s, f x)"

fun store_exec :: "'s store_ops \<Rightarrow> 's \<Rightarrow> store_op \<Rightarrow> 's \<times> store_answer" where
  "store_exec R s (PutBoard b) = wrote s (op_put_board R s b)"
| "store_exec R s (GetBoard k) = answered s ABoard (op_get_board R s k)"
| "store_exec R s ListBoards = answered s ABoards (op_list_boards R s)"
| "store_exec R s (PutMessage m) = wrote s (op_put_message R s m)"
| "store_exec R s (GetMessage i) = answered s AMessage (op_get_message R s i)"
| "store_exec R s (ListMessages b n) = answered s AMessages (op_list_messages R s b n)"
| "store_exec R s MessageCount = answered s ACount (op_message_count R s)"
| "store_exec R s (PutPersona p) = wrote s (op_put_persona R s p)"
| "store_exec R s (GetPersona h) = answered s APersona (op_get_persona R s h)"
| "store_exec R s ListPersonas = answered s APersonas (op_list_personas R s)"
| "store_exec R s (DeletePersona h) = wrote s (op_delete_persona R s h)"

section \<open>The abstract store\<close>

record abs_store =
  as_boards :: "(string, board) btree"
  as_log :: "message list"
  as_personas :: "(string, persona) btree"

definition abs_empty :: abs_store where
  "abs_empty = \<lparr>as_boards = bt_empty, as_log = [], as_personas = bt_empty\<rparr>"

definition log_get :: "message list \<Rightarrow> string \<Rightarrow> message option" where
  "log_get l k = find (\<lambda>m. mid (msg_id m) = k) l"

definition log_put :: "message list \<Rightarrow> message \<Rightarrow> message list" where
  "log_put l m = (if log_get l (mid (msg_id m)) = None then l @ [m] else l)"

definition log_board :: "message list \<Rightarrow> string \<Rightarrow> message list" where
  "log_board l b = filter (\<lambda>m. mb_board (msg_body m) = b) l"

fun abs_exec :: "abs_store \<Rightarrow> store_op \<Rightarrow> abs_store \<times> store_answer" where
  "abs_exec a (PutBoard b) = (a\<lparr>as_boards := bt_insert (bd_slug b) b (as_boards a)\<rparr>, Done)"
| "abs_exec a (GetBoard k) = (a, ABoard (bt_get (as_boards a) k))"
| "abs_exec a ListBoards = (a, ABoards (bt_values (as_boards a)))"
| "abs_exec a (PutMessage m) = (a\<lparr>as_log := log_put (as_log a) m\<rparr>, Done)"
| "abs_exec a (GetMessage i) = (a, AMessage (log_get (as_log a) (mid i)))"
| "abs_exec a (ListMessages b n) = (a, AMessages (window n (log_board (as_log a) b)))"
| "abs_exec a MessageCount = (a, ACount (length (as_log a)))"
| "abs_exec a (PutPersona p) = (a\<lparr>as_personas := bt_insert (pa_handle p) p (as_personas a)\<rparr>, Done)"
| "abs_exec a (GetPersona h) = (a, APersona (bt_get (as_personas a) h))"
| "abs_exec a ListPersonas = (a, APersonas (bt_values (as_personas a)))"
| "abs_exec a (DeletePersona h) = (a\<lparr>as_personas := bt_remove h (as_personas a)\<rparr>, Done)"

text \<open>Executing a sequence of requests, collecting the answers.\<close>

fun exec_all :: "('s \<Rightarrow> 'q \<Rightarrow> 's \<times> 'a) \<Rightarrow> 's \<Rightarrow> 'q list \<Rightarrow> 's \<times> 'a list" where
  "exec_all f s [] = (s, [])"
| "exec_all f s (q # qs) =
     (let (s1, r) = f s q; (s2, rs) = exec_all f s1 qs in (s2, r # rs))"

fun is_failed :: "store_answer \<Rightarrow> bool" where
  "is_failed (Failed e) = True"
| "is_failed _ = False"

text \<open>An abstract run that repeats recorded failures and skips their requests.\<close>

fun abs_follow :: "abs_store \<Rightarrow> (store_op \<times> store_answer) list \<Rightarrow> abs_store \<times> store_answer list" where
  "abs_follow a [] = (a, [])"
| "abs_follow a ((q, r) # qs) =
     (if is_failed r then let (a', rs) = abs_follow a qs in (a', r # rs)
      else let (a1, r') = abs_exec a q; (a2, rs) = abs_follow a1 qs in (a2, r' # rs))"

section \<open>The contract of a store\<close>

text \<open>
  A store implements the abstract one: there is a relation between their states, the empty
  stores are related, a request that fails changes nothing, and one that succeeds changes
  and answers as the abstract store does.
\<close>

locale store_contract =
  fixes run :: "'s \<Rightarrow> 'q \<Rightarrow> 's \<times> store_answer"
    and request :: "'q \<Rightarrow> store_op"
    and refines :: "'s \<Rightarrow> abs_store \<Rightarrow> bool"
    and init :: "'s"
  assumes refines_init: "refines init abs_empty"
    and failed_same: "run s q = (s', Failed e) \<Longrightarrow> s' = s"
    and simulates: "refines s a \<Longrightarrow> run s q = (s', r) \<Longrightarrow> \<not> is_failed r \<Longrightarrow>
      refines s' (fst (abs_exec a (request q))) \<and> r = snd (abs_exec a (request q))"
begin

lemma run_refines:
  assumes "refines s a" "exec_all run s qs = (s', rs)"
  shows "refines s' (fst (abs_follow a (zip (map request qs) rs))) \<and> rs = snd (abs_follow a (zip (map request qs) rs))"
  using assms
proof (induction qs arbitrary: s a rs)
  case Nil
  then show ?case by simp
next
  case (Cons q qs)
  obtain s1 r where s1: "run s q = (s1, r)" by fastforce
  obtain rs' where rs': "exec_all run s1 qs = (s', rs')" and rs: "rs = r # rs'"
    using Cons.prems(2) s1 by (auto split: prod.splits)
  show ?case
  proof (cases "is_failed r")
    case True
    then obtain e where "r = Failed e" by (cases r) auto
    with s1 have "s1 = s" by (simp add: failed_same)
    with True Cons.IH[of s a rs'] Cons.prems(1) rs' show ?thesis
      by (auto simp: rs split: prod.splits)
  next
    case False
    note step = simulates[OF Cons.prems(1) s1 False]
    obtain a1 r1 where a1: "abs_exec a (request q) = (a1, r1)" by fastforce
    with step have "refines s1 a1" "r1 = r" by simp_all
    with False Cons.IH[of s1 a1 rs'] rs' a1 show ?thesis
      by (auto simp: rs split: prod.splits)
  qed
qed

lemma follow_all_ok: "list_all (\<lambda>r. \<not> is_failed r) rs \<Longrightarrow> length rs = length qs \<Longrightarrow>
    abs_follow a (zip (map request qs) rs) = exec_all abs_exec a (map request qs)"
proof (induction qs arbitrary: a rs)
  case Nil
  then show ?case by simp
next
  case (Cons q qs)
  then obtain r rs' where "rs = r # rs'" by (cases rs) auto
  with Cons show ?case by (simp split: prod.splits)
qed

end

text \<open>A store with no failures at all answers every sequence as the abstract one.\<close>

locale reliable_store = store_contract +
  assumes never_fails: "refines s a \<Longrightarrow> run s q = (s', r) \<Longrightarrow> \<not> is_failed r"
begin

lemma run_answers:
  assumes "refines s a" "exec_all run s qs = (s', rs)"
  shows "refines s' (fst (exec_all abs_exec a (map request qs)))
    \<and> rs = snd (exec_all abs_exec a (map request qs))"
proof -
  have "list_all (\<lambda>r. \<not> is_failed r) rs \<and> length rs = length qs"
    using assms
  proof (induction qs arbitrary: s a rs)
    case Nil
    then show ?case by simp
  next
    case (Cons q qs)
    obtain s1 r where s1: "run s q = (s1, r)" by fastforce
    obtain rs' where rs': "exec_all run s1 qs = (s', rs')" and rs: "rs = r # rs'"
      using Cons.prems(2) s1 by (auto split: prod.splits)
    have ok: "\<not> is_failed r"
      by (rule never_fails[OF Cons.prems(1) s1])
    with simulates[OF Cons.prems(1) s1] Cons.IH[OF _ rs'] show ?case
      by (auto simp: rs)
  qed
  then show ?thesis
    using run_refines[OF assms] follow_all_ok by metis
qed

end

end
