(* ===== verification/Memory_Store.thy ===== *)
theory Memory_Store
  imports Store
begin

text \<open>
  The in-memory store (\<open>MemoryStore\<close> in \<open>agentbbs-core/src/store.rs\<close>): messages by id
  and, for each board, the ordered list of its message ids; and its refinement of the
  abstract store.
\<close>

section \<open>Model\<close>

record memory_store =
  ms_boards :: "(string, board) btree"
  ms_by_board :: "(string, message_id list) btree"
  ms_messages :: "(string, message) btree"
  ms_personas :: "(string, persona) btree"

definition memory_store_new :: memory_store where
  "memory_store_new = \<lparr>ms_boards = bt_empty, ms_by_board = bt_empty, ms_messages = bt_empty,
     ms_personas = bt_empty\<rparr>"

definition mem_put_board :: "memory_store \<Rightarrow> board \<Rightarrow> memory_store result" where
  "mem_put_board s b = Inr (s\<lparr>ms_boards := bt_insert (bd_slug b) b (ms_boards s)\<rparr>)"

definition mem_get_board :: "memory_store \<Rightarrow> string \<Rightarrow> board option result" where
  "mem_get_board s slug = Inr (bt_get (ms_boards s) slug)"

definition mem_list_boards :: "memory_store \<Rightarrow> board list result" where
  "mem_list_boards s = Inr (bt_values (ms_boards s))"

fun or_default :: "'a list option \<Rightarrow> 'a list" where
  "or_default None = []"
| "or_default (Some xs) = xs"

definition mem_put_message :: "memory_store \<Rightarrow> message \<Rightarrow> memory_store result" where
  "mem_put_message s m =
     (let k = mid (msg_id m); b = mb_board (msg_body m) in
      if bt_get (ms_messages s) k \<noteq> None then Inr s
      else Inr (s\<lparr>ms_messages := bt_insert k m (ms_messages s),
         ms_by_board := bt_insert b (or_default (bt_get (ms_by_board s) b) @ [msg_id m])
                          (ms_by_board s)\<rparr>))"

definition mem_get_message :: "memory_store \<Rightarrow> message_id \<Rightarrow> message option result" where
  "mem_get_message s i = Inr (bt_get (ms_messages s) (mid i))"

definition mem_list_messages :: "memory_store \<Rightarrow> string \<Rightarrow> nat \<Rightarrow> message list result" where
  "mem_list_messages s b limit =
     (case bt_get (ms_by_board s) b of
        None \<Rightarrow> Inr []
      | Some ids \<Rightarrow> Inr (List.map_filter (\<lambda>i. bt_get (ms_messages s) (mid i)) (window limit ids)))"

definition mem_message_count :: "memory_store \<Rightarrow> nat result" where
  "mem_message_count s = Inr (length (ms_messages s))"

definition mem_put_persona :: "memory_store \<Rightarrow> persona \<Rightarrow> memory_store result" where
  "mem_put_persona s p = Inr (s\<lparr>ms_personas := bt_insert (pa_handle p) p (ms_personas s)\<rparr>)"

definition mem_get_persona :: "memory_store \<Rightarrow> string \<Rightarrow> persona option result" where
  "mem_get_persona s h = Inr (bt_get (ms_personas s) h)"

definition mem_list_personas :: "memory_store \<Rightarrow> persona list result" where
  "mem_list_personas s = Inr (bt_values (ms_personas s))"

definition mem_delete_persona :: "memory_store \<Rightarrow> string \<Rightarrow> memory_store result" where
  "mem_delete_persona s h = Inr (s\<lparr>ms_personas := bt_remove h (ms_personas s)\<rparr>)"

definition memory_ops :: "memory_store store_ops" where
  "memory_ops = \<lparr>op_put_board = mem_put_board, op_get_board = mem_get_board,
     op_list_boards = mem_list_boards, op_put_message = mem_put_message,
     op_get_message = mem_get_message, op_list_messages = mem_list_messages,
     op_message_count = mem_message_count, op_put_persona = mem_put_persona,
     op_get_persona = mem_get_persona, op_list_personas = mem_list_personas,
     op_delete_persona = mem_delete_persona\<rparr>"

lemmas mem_defs = memory_ops_def mem_put_board_def mem_get_board_def mem_list_boards_def
  mem_put_message_def mem_get_message_def mem_list_messages_def mem_message_count_def
  mem_put_persona_def mem_get_persona_def mem_list_personas_def mem_delete_persona_def

section \<open>Refinement of the abstract store\<close>

text \<open>
  The boards and personas are the abstract ones; the table of messages is the lookup in the
  log; a board's index lists the ids of its messages in log order; ids in the log differ.
\<close>

definition log_keys :: "message list \<Rightarrow> string list" where
  "log_keys l = map (\<lambda>m. mid (msg_id m)) l"

definition mem_refines :: "memory_store \<Rightarrow> abs_store \<Rightarrow> bool" where
  "mem_refines s a \<longleftrightarrow>
     ms_boards s = as_boards a \<and> ms_personas s = as_personas a \<and>
     bt_wf (ms_messages s) \<and> bt_wf (ms_by_board s) \<and>
     distinct (log_keys (as_log a)) \<and>
     (\<forall>k. bt_get (ms_messages s) k = log_get (as_log a) k) \<and>
     length (ms_messages s) = length (as_log a) \<and>
     (\<forall>b. or_default (bt_get (ms_by_board s) b) = map msg_id (log_board (as_log a) b))"

lemma log_get_iff:
  "distinct (log_keys l) \<Longrightarrow> log_get l k = Some m \<longleftrightarrow> m \<in> set l \<and> mid (msg_id m) = k"
  using find_key_iff[of "\<lambda>m. mid (msg_id m)" l k m] by (simp add: log_get_def log_keys_def)

lemma log_get_None_iff: "log_get l k = None \<longleftrightarrow> k \<notin> set (log_keys l)"
  by (auto simp: log_get_def log_keys_def find_None_iff)

interpretation slog: first_wins "\<lambda>m. mid (msg_id m)" "\<lambda>_. True" log_put "\<lambda>l. l"
proof unfold_locales
  fix l a
  show "log_put l a = (if True \<and> mid (msg_id a) \<notin> (\<lambda>m. mid (msg_id m)) ` set l then l @ [a] else l)"
    by (simp add: log_put_def log_get_None_iff log_keys_def)
qed

lemma log_keys_put: "distinct (log_keys l) \<Longrightarrow> distinct (log_keys (log_put l m))"
  using slog.step_distinct[of l m] by (simp add: log_keys_def)

lemma log_get_put: "log_get (log_put l m) k =
    (case log_get l k of None \<Rightarrow> if mid (msg_id m) = k then Some m else None | Some x \<Rightarrow> Some x)"
  using slog.step_find[of k l m] by (simp add: log_get_def)

lemma length_log_put: "length (log_put l m) =
    length l + (if log_get l (mid (msg_id m)) = None then 1 else 0)"
  by (simp add: log_put_def)

lemma log_board_put: "log_board (log_put l m) b =
    log_board l b @ (if log_get l (mid (msg_id m)) = None \<and> mb_board (msg_body m) = b then [m] else [])"
  by (simp add: log_put_def log_board_def)

lemma map_filter_lookup:
  "(\<And>x. x \<in> set xs \<Longrightarrow> f (g x) = Some x) \<Longrightarrow> List.map_filter f (map g xs) = xs"
  by (induction xs) (auto simp: List.map_filter_def)

lemma window_map: "window n (map f xs) = map f (window n xs)"
  by (simp add: window_def drop_map)

lemma mem_put_message_refines:
  assumes "mem_refines s a" "mem_put_message s m = Inr s'"
  shows "mem_refines s' (a\<lparr>as_log := log_put (as_log a) m\<rparr>)"
proof (cases "log_get (as_log a) (mid (msg_id m))")
  case None
  with assms show ?thesis
    by (auto simp: mem_refines_def mem_put_message_def Let_def bt_simps log_keys_put log_get_put
        log_board_put length_bt_insert length_log_put split: option.split)
next
  case (Some x)
  then have "log_put (as_log a) m = as_log a"
    by (simp add: log_put_def)
  with Some assms show ?thesis
    by (auto simp: mem_refines_def mem_put_message_def Let_def)
qed

lemma mem_list_messages_refines:
  assumes "mem_refines s a"
  shows "mem_list_messages s b n = Inr (window n (log_board (as_log a) b))"
proof -
  let ?w = "window n (log_board (as_log a) b)"
  have idx: "or_default (bt_get (ms_by_board s) b) = map msg_id (log_board (as_log a) b)"
    using assms by (simp add: mem_refines_def)
  have "bt_get (ms_messages s) (mid (msg_id m)) = Some m" if "m \<in> set ?w" for m
    using that assms set_mp[OF set_window] by (fastforce simp: mem_refines_def log_get_iff log_board_def)
  then have "List.map_filter (\<lambda>i. bt_get (ms_messages s) (mid i)) (map msg_id ?w) = ?w"
    by (intro map_filter_lookup) simp
  with idx show ?thesis
    by (cases "bt_get (ms_by_board s) b") (auto simp: mem_list_messages_def window_map)
qed

interpretation mem: reliable_store "store_exec memory_ops" "\<lambda>q. q" mem_refines memory_store_new
proof unfold_locales
  show "mem_refines memory_store_new abs_empty"
    by (simp add: mem_refines_def memory_store_new_def abs_empty_def log_keys_def log_get_def
        log_board_def bt_simps bt_empty_def bt_get_def bt_wf_def)
next
  fix s q s' e
  show "store_exec memory_ops s q = (s', Failed e) \<Longrightarrow> s' = s"
    by (cases q) (auto simp: mem_defs Let_def split: if_splits option.splits)
next
  fix s a q s' r
  assume ref: "mem_refines s a" and run: "store_exec memory_ops s q = (s', r)"
  show "mem_refines s' (fst (abs_exec a q)) \<and> r = snd (abs_exec a q)"
  proof (cases q)
    case (PutMessage m)
    obtain s1 where s1: "mem_put_message s m = Inr s1"
      by (cases "mem_put_message s m") (auto simp: mem_put_message_def Let_def split: if_splits)
    with run PutMessage have "s' = s1" "r = Done" by (auto simp: memory_ops_def)
    with PutMessage mem_put_message_refines[OF ref s1] show ?thesis by simp
  next
    case (ListMessages b n)
    with run ref show ?thesis by (auto simp: memory_ops_def mem_list_messages_refines)
  qed (use ref run in \<open>auto simp: mem_defs mem_refines_def\<close>)
next
  fix s a q s' r
  show "store_exec memory_ops s q = (s', r) \<Longrightarrow> \<not> is_failed r"
    by (cases q) (auto simp: mem_defs Let_def split: if_splits option.splits)
qed

section \<open>Properties\<close>

text \<open>The messages a sequence of requests puts.\<close>

fun put_of :: "store_op \<Rightarrow> message list" where
  "put_of (PutMessage m) = [m]"
| "put_of _ = []"

definition puts :: "store_op list \<Rightarrow> message list" where
  "puts qs = concat (map put_of qs)"

lemma abs_run_log: "as_log (fst (exec_all abs_exec a qs)) = foldl log_put (as_log a) (puts qs)"
proof (induction qs arbitrary: a)
  case Nil
  then show ?case by (simp add: puts_def)
next
  case (Cons q qs)
  have "as_log (fst (abs_exec a q)) = foldl log_put (as_log a) (put_of q)"
    by (cases q) simp_all
  moreover have "fst (exec_all abs_exec a (q # qs)) = fst (exec_all abs_exec (fst (abs_exec a q)) qs)"
    by (simp add: Let_def split_beta)
  ultimately show ?case
    using Cons.IH[of "fst (abs_exec a q)"] by (simp add: puts_def)
qed

lemma mem_run_refines:
  "mem_refines (fst (exec_all (store_exec memory_ops) memory_store_new qs))
     (fst (exec_all abs_exec abs_empty qs))"
  using mem.run_answers[OF mem.refines_init, of qs]
  by (cases "exec_all (store_exec memory_ops) memory_store_new qs") simp

lemma find_log_key: "find (\<lambda>m. mid (msg_id m) = mid i) l = find (\<lambda>m. msg_id m = i) l"
  by (rule arg_cong[where f = "\<lambda>p. find p l"]) (auto simp: message_id.expand)

text \<open>
  Replication is safe to replay: after any requests the store holds one message
  per id, the first put; looking up an id finds it, the count is the number of different ids
  put, and listing a board gives the newest \<open>n\<close> of its messages, oldest first, in the order
  in which they first arrived.
\<close>

theorem store_keeps_first_messages:
  "let s = fst (exec_all (store_exec memory_ops) memory_store_new qs);
       l = foldl log_put [] (puts qs) in
   distinct (map msg_id l) \<and>
   op_get_message memory_ops s i = Inr (find (\<lambda>m. msg_id m = i) (puts qs)) \<and>
   op_message_count memory_ops s = Inr (card (msg_id ` set (puts qs))) \<and>
   op_list_messages memory_ops s b n = Inr (window n (log_board l b))"
proof -
  let ?s = "fst (exec_all (store_exec memory_ops) memory_store_new qs)"
  let ?l = "foldl log_put [] (puts qs)"
  have log: "as_log (fst (exec_all abs_exec abs_empty qs)) = ?l"
    by (simp add: abs_run_log abs_empty_def)
  have keys: "distinct (map (\<lambda>m. mid (msg_id m)) ?l)"
    by (rule slog.run_distinct) simp
  then have dist: "distinct (map msg_id ?l)"
    by (auto simp: distinct_map inj_on_def)
  have "log_get ?l (mid i) = find (\<lambda>m. msg_id m = i) (puts qs)"
    using slog.run_find[of "mid i" "[]" "puts qs"] by (simp add: log_get_def find_log_key)
  moreover have "length ?l = card (msg_id ` set (puts qs))"
  proof -
    have "mid ` msg_id ` set ?l = mid ` msg_id ` set (puts qs)"
      using slog.run_keys[of "[]" "puts qs"] by (simp add: image_image)
    then have "msg_id ` set ?l = msg_id ` set (puts qs)"
      by (metis inj_image_eq_iff injI message_id.expand)
    with dist show ?thesis by (metis distinct_card length_map set_map)
  qed
  ultimately show ?thesis
    using mem_run_refines[of qs] dist mem_list_messages_refines[OF mem_run_refines, of qs b n]
    by (simp add: log mem_refines_def memory_ops_def mem_get_message_def mem_message_count_def Let_def)
qed

end
