(* ===== verification/Peer.thy ===== *)
theory Peer
  imports Identity BTree_Map
begin

text \<open>
  Peers and the trust they are held at (\<open>agentbbs-federation/src/peer.rs\<close>): the registry
  keyed by node id, discovery that never grants trust, and the egress set.
\<close>

section \<open>Model\<close>

datatype trust_level = TlUnknown | TlLinked | TlTrusted

record peer =
  pr_node :: agent_id
  pr_addr :: string
  pr_trust :: trust_level

definition peer_new :: "agent_id \<Rightarrow> string \<Rightarrow> trust_level \<Rightarrow> peer" where
  "peer_new node addr trust = \<lparr>pr_node = node, pr_addr = addr, pr_trust = trust\<rparr>"

record peer_info =
  pi_node :: agent_id
  pi_addr :: string

record peer_book =
  pb_peers :: "(string, peer) btree"

definition book_new :: peer_book where
  "book_new = \<lparr>pb_peers = bt_empty\<rparr>"

definition book_add :: "env \<Rightarrow> peer_book \<Rightarrow> peer \<Rightarrow> peer_book" where
  "book_add E b p = b\<lparr>pb_peers := bt_insert (to_hex E (pr_node p)) p (pb_peers b)\<rparr>"

definition book_remove :: "env \<Rightarrow> peer_book \<Rightarrow> agent_id \<Rightarrow> peer_book \<times> peer option" where
  "book_remove E b n =
     (b\<lparr>pb_peers := bt_remove (to_hex E n) (pb_peers b)\<rparr>, bt_get (pb_peers b) (to_hex E n))"

definition book_get :: "env \<Rightarrow> peer_book \<Rightarrow> agent_id \<Rightarrow> peer option" where
  "book_get E b n = bt_get (pb_peers b) (to_hex E n)"

definition book_all :: "peer_book \<Rightarrow> peer list" where
  "book_all b = bt_values (pb_peers b)"

definition book_infos :: "peer_book \<Rightarrow> peer_info list" where
  "book_infos b = map (\<lambda>p. \<lparr>pi_node = pr_node p, pi_addr = pr_addr p\<rparr>) (bt_values (pb_peers b))"

text \<open>\<open>entry(..).or_insert_with(..)\<close>, counting the insertions.\<close>

fun merge_discovered :: "env \<Rightarrow> peer_book \<Rightarrow> peer_info list \<Rightarrow> peer_book \<times> nat" where
  "merge_discovered E b [] = (b, 0)"
| "merge_discovered E b (i # is) =
     (case bt_get (pb_peers b) (to_hex E (pi_node i)) of
        Some _ \<Rightarrow> merge_discovered E b is
      | None \<Rightarrow>
          let (b', n) = merge_discovered E
                (b\<lparr>pb_peers := bt_insert (to_hex E (pi_node i))
                     (peer_new (pi_node i) (pi_addr i) TlUnknown) (pb_peers b)\<rparr>) is
          in (b', Suc n))"

definition book_trusted :: "peer_book \<Rightarrow> peer list" where
  "book_trusted b = filter (\<lambda>p. pr_trust p = TlTrusted) (bt_values (pb_peers b))"

definition book_len :: "peer_book \<Rightarrow> nat" where
  "book_len b = length (pb_peers b)"

definition book_is_empty :: "peer_book \<Rightarrow> bool" where
  "book_is_empty b \<longleftrightarrow> pb_peers b = []"

section \<open>The book's invariant\<close>

text \<open>Ordered, and each peer stored under its own id.\<close>

definition book_wf :: "env \<Rightarrow> peer_book \<Rightarrow> bool" where
  "book_wf E b \<longleftrightarrow> bt_wf (pb_peers b) \<and>
     (\<forall>k p. bt_get (pb_peers b) k = Some p \<longrightarrow> k = to_hex E (pr_node p))"

lemma book_wf_new [inv_intros]: "book_wf E book_new"
  by (simp add: book_wf_def book_new_def bt_simps)

lemma book_wf_add [inv_intros]: "book_wf E b \<Longrightarrow> book_wf E (book_add E b p)"
  by (simp add: book_wf_def book_add_def bt_simps)

lemma book_wf_remove [inv_intros]: "book_wf E b \<Longrightarrow> book_wf E (fst (book_remove E b n))"
  by (simp add: book_wf_def book_remove_def bt_simps)

lemma merge_discovered_Cons:
  "merge_discovered E b (i # is) =
     (if book_get E b (pi_node i) \<noteq> None then merge_discovered E b is
      else apsnd Suc (merge_discovered E
             (book_add E b (peer_new (pi_node i) (pi_addr i) TlUnknown)) is))"
  by (auto simp: book_get_def book_add_def peer_new_def split: option.split prod.split)

lemma book_wf_merge [inv_intros]: "book_wf E b \<Longrightarrow> book_wf E (fst (merge_discovered E b is))"
proof (induction "is" arbitrary: b)
  case Nil
  then show ?case by simp
next
  case (Cons i "is")
  then show ?case
    unfolding merge_discovered_Cons by (auto intro: book_wf_add)
qed

lemma book_get_add:
  "book_wf E b \<Longrightarrow> hex_ok E \<Longrightarrow> book_get E (book_add E b p) = (book_get E b)(pr_node p \<mapsto> p)"
  by (auto simp: book_wf_def book_get_def book_add_def bt_simps to_hex_inj fun_eq_iff)

lemma book_get_node:
  "book_wf E b \<Longrightarrow> hex_ok E \<Longrightarrow> book_get E b n = Some p \<Longrightarrow> pr_node p = n"
  unfolding book_wf_def book_get_def using to_hex_inj by metis

lemma book_all_iff:
  "book_wf E b \<Longrightarrow> p \<in> set (book_all b) \<longleftrightarrow> book_get E b (pr_node p) = Some p"
  by (auto simp: book_all_def set_bt_values book_wf_def book_get_def ran_def)

lemma book_trusted_iff:
  "book_wf E b \<Longrightarrow> p \<in> set (book_trusted b) \<longleftrightarrow>
    book_get E b (pr_node p) = Some p \<and> pr_trust p = TlTrusted"
  using book_all_iff by (auto simp: book_trusted_def book_all_def)

text \<open>Known peers stay as they are; the new ones are unknown, first gossip first.\<close>

lemma book_get_merge:
  assumes "hex_ok E" "book_wf E b"
  shows "book_get E (fst (merge_discovered E b is)) n =
    (case book_get E b n of Some p \<Rightarrow> Some p
     | None \<Rightarrow> map_option (\<lambda>i. peer_new (pi_node i) (pi_addr i) TlUnknown)
                 (find (\<lambda>i. pi_node i = n) is))"
  using assms(2)
proof (induction "is" arbitrary: b)
  case Nil
  then show ?case by (simp split: option.split)
next
  case (Cons i "is")
  show ?case
  proof (cases "book_get E b (pi_node i)")
    case None
    let ?b = "book_add E b (peer_new (pi_node i) (pi_addr i) TlUnknown)"
    have "book_get E ?b = (book_get E b)(pi_node i \<mapsto> peer_new (pi_node i) (pi_addr i) TlUnknown)"
      using book_get_add[OF Cons.prems assms(1)] by (simp add: peer_new_def)
    with None Cons.IH[OF book_wf_add[OF Cons.prems]] show ?thesis
      by (auto simp: merge_discovered_Cons simp del: merge_discovered.simps split: option.split)
  next
    case (Some p)
    with Cons show ?thesis
      by (auto simp: merge_discovered_Cons simp del: merge_discovered.simps split: option.split)
  qed
qed

lemma merge_trusted:
  assumes "hex_ok E" "book_wf E b"
  shows "set (book_trusted (fst (merge_discovered E b is))) = set (book_trusted b)"
proof -
  have "p \<in> set (book_trusted (fst (merge_discovered E b is))) \<longleftrightarrow> p \<in> set (book_trusted b)" for p
    unfolding book_trusted_iff[OF book_wf_merge[OF assms(2)]] book_trusted_iff[OF assms(2)]
      book_get_merge[OF assms]
    by (auto simp: peer_new_def split: option.split)
  then show ?thesis by blast
qed

end
