(* ===== verification/Envelope.thy ===== *)
theory Envelope
  imports Board Peer
begin

text \<open>
  Federation envelopes (\<open>agentbbs-federation/src/envelope.rs\<close>): a payload, the sealing
  node, a sequence number and the node's signature. The JSON encodings of payloads and
  envelopes are a parameter; \<open>wire_ok\<close> states what the code relies on.
\<close>

section \<open>Model\<close>

definition PROTOCOL_VERSION :: string where
  "PROTOCOL_VERSION = ''agentbbs/0.1''"

datatype federation_payload =
    AnnounceBoard board
  | ReplicateMessage message
  | BoardSnapshot board "message list"
  | BoardDigest string "message_id list"
  | PeerExchange "peer_info list"
  | PeerHello agent_id string
  | Ack string

record federation_envelope =
  fe_node :: agent_id
  fe_seq :: u64
  fe_payload :: federation_payload
  fe_signature :: signature

record wire =
  ser_payload :: "federation_payload \<Rightarrow> string + bytes"
  ser_envelope :: "federation_envelope \<Rightarrow> string + bytes"
  de_envelope :: "bytes \<Rightarrow> string + federation_envelope"

definition compose_signing_bytes :: "env \<Rightarrow> agent_id \<Rightarrow> u64 \<Rightarrow> bytes \<Rightarrow> bytes" where
  "compose_signing_bytes E node seq payload_json =
     ''agentbbs.fed.v1'' @ [newline] @
     PROTOCOL_VERSION @ [newline] @
     to_hex E node @ [newline] @
     dec (unat seq) @ [newline] @
     len_prefix payload_json"

definition envelope_signing_bytes :: "env \<Rightarrow> wire \<Rightarrow> federation_envelope \<Rightarrow> bytes result" where
  "envelope_signing_bytes E W e =
     rbind (serde_err (ser_payload W (fe_payload e))) (\<lambda>payload_json.
       Inr (compose_signing_bytes E (fe_node e) (fe_seq e) payload_json))"

definition envelope_seal ::
  "env \<Rightarrow> wire \<Rightarrow> identity \<Rightarrow> federation_payload \<Rightarrow> u64 \<Rightarrow> federation_envelope result" where
  "envelope_seal E W i payload seq =
     rbind (serde_err (ser_payload W payload)) (\<lambda>payload_json.
       let bytes = compose_signing_bytes E (ident i) seq payload_json in
       Inr \<lparr>fe_node = ident i, fe_seq = seq, fe_payload = payload, fe_signature = sign E i bytes\<rparr>)"

definition envelope_open :: "env \<Rightarrow> wire \<Rightarrow> federation_envelope \<Rightarrow> federation_payload result" where
  "envelope_open E W e =
     rbind (envelope_signing_bytes E W e) (\<lambda>bytes.
     rbind (verify_sig E (fe_node e) bytes (fe_signature e)) (\<lambda>_. Inr (fe_payload e)))"

definition envelope_to_bytes :: "wire \<Rightarrow> federation_envelope \<Rightarrow> bytes result" where
  "envelope_to_bytes W e = serde_err (ser_envelope W e)"

definition envelope_from_bytes :: "wire \<Rightarrow> bytes \<Rightarrow> federation_envelope result" where
  "envelope_from_bytes W b = serde_err (de_envelope W b)"

section \<open>Encodings\<close>

definition wire_ok :: "wire \<Rightarrow> bool" where
  "wire_ok W \<longleftrightarrow>
     (\<forall>p q b. ser_payload W p = Inr b \<longrightarrow> ser_payload W q = Inr b \<longrightarrow> p = q) \<and>
     (\<forall>e b. ser_envelope W e = Inr b \<longrightarrow> de_envelope W b = Inr e)"

lemma serde_err_Inr_iff [result_simps]: "serde_err r = Inr x \<longleftrightarrow> r = Inr x"
  by (cases r) (auto simp: serde_err_def)

lemma serde_err_Inr [simp]: "serde_err (Inr x) = Inr x"
  by (simp add: serde_err_def)

lemma envelope_roundtrip:
  "wire_ok W \<Longrightarrow> envelope_to_bytes W e = Inr b \<Longrightarrow> envelope_from_bytes W b = Inr e"
  by (simp add: wire_ok_def envelope_to_bytes_def envelope_from_bytes_def result_simps)

lemma newline_not_dec: "newline \<notin> set (dec n)"
  using list_all_iff by fastforce

lemma compose_inj:
  assumes "hex_ok E"
  shows "compose_signing_bytes E n s p = compose_signing_bytes E m t q \<longleftrightarrow> n = m \<and> s = t \<and> p = q"
proof -
  note nl = newline_not_to_hex[OF assms]
  show ?thesis
    by (simp add: compose_signing_bytes_def split_at_sep_iff[OF nl nl]
        split_at_sep_iff[OF newline_not_dec newline_not_dec] to_hex_inj[OF assms] word_unat_eq_iff)
qed

lemma seal_open:
  assumes "sig_ok E" "identity_wf E i" "envelope_seal E W i p s = Inr e"
  shows "envelope_open E W e = Inr p \<and> fe_node e = ident i \<and> fe_seq e = s \<and> fe_payload e = p"
proof -
  obtain x where x: "ser_payload W p = Inr x" and
      e: "e = \<lparr>fe_node = ident i, fe_seq = s, fe_payload = p,
            fe_signature = sign E i (compose_signing_bytes E (ident i) s x)\<rparr>"
    using assms(3) by (auto simp: envelope_seal_def result_simps Let_def)
  have "verify_sig E (ident i) (compose_signing_bytes E (ident i) s x)
      (sign E i (compose_signing_bytes E (ident i) s x)) = Inr ()"
    by (rule verify_sign[OF assms(1,2)])
  with x show ?thesis
    by (simp add: e envelope_open_def envelope_signing_bytes_def)
qed

text \<open>An opened envelope's bytes were verified under its node's key.\<close>

lemma envelope_open_Inr:
  "envelope_open E W e = Inr p \<Longrightarrow> p = fe_payload e \<and>
    (\<exists>b. envelope_signing_bytes E W e = Inr b \<and> verify_sig E (fe_node e) b (fe_signature e) = Inr ())"
  by (auto simp: envelope_open_def result_simps)

lemma envelope_bytes_inj:
  assumes "hex_ok E" "wire_ok W"
    and "envelope_signing_bytes E W a = Inr m" "envelope_signing_bytes E W b = Inr m"
  shows "fe_node a = fe_node b \<and> fe_seq a = fe_seq b \<and> fe_payload a = fe_payload b"
proof -
  obtain x y where xy: "ser_payload W (fe_payload a) = Inr x" "ser_payload W (fe_payload b) = Inr y"
      "compose_signing_bytes E (fe_node a) (fe_seq a) x = compose_signing_bytes E (fe_node b) (fe_seq b) y"
    using assms(3,4) by (auto simp: envelope_signing_bytes_def result_simps)
  then show ?thesis
    using assms(2) by (simp add: compose_inj[OF assms(1)] wire_ok_def)
qed

end
