(* ===== verification/Encoding.thy ===== *)
theory Encoding
  imports Envelope "HOL-Library.Countable"
begin

text \<open>
  Concrete encodings with the round-trip laws the JSON encodings are assumed to have, for the
  witnesses: a value is a tuple of countable types, the tuple is numbered and the number
  written in decimal.
\<close>

section \<open>Boards and messages\<close>

instance agent_id :: countable by countable_datatype
instance signature :: countable by countable_datatype
instance message_id :: countable by countable_datatype
instance message_kind :: countable by countable_datatype

definition demo_ser :: "'a::countable \<Rightarrow> string + bytes" where
  "demo_ser x = Inr (dec (to_nat x))"

definition demo_de :: "bytes \<Rightarrow> string + 'a::countable" where
  "demo_de v = Inr (from_nat (undec v))"

definition board_tuple where
  "board_tuple b = (bd_slug b, bd_title b, bd_description b, bd_locked b, bd_founder b,
     bd_created_at b, bd_federated b)"

definition tuple_board where
  "tuple_board t = (case t of (s, ti, d, l, f, c, fe) \<Rightarrow>
     \<lparr>bd_slug = s, bd_title = ti, bd_description = d, bd_locked = l, bd_founder = f,
      bd_created_at = c, bd_federated = fe\<rparr>)"

definition message_tuple where
  "message_tuple m = (msg_id m, msg_signature m, mb_board (msg_body m), mb_parent (msg_body m),
     mb_subject (msg_body m), mb_body (msg_body m), mb_author (msg_body m), mb_handle (msg_body m),
     mb_created_at (msg_body m), mb_kind (msg_body m))"

definition tuple_message where
  "tuple_message t = (case t of (i, sg, b, p, su, bo, au, h, c, k) \<Rightarrow>
     \<lparr>msg_id = i, msg_body = \<lparr>mb_board = b, mb_parent = p, mb_subject = su, mb_body = bo,
        mb_author = au, mb_handle = h, mb_created_at = c, mb_kind = k\<rparr>, msg_signature = sg\<rparr>)"

lemma demo_de_ser: "demo_ser x = Inr v \<Longrightarrow> demo_de v = Inr x"
  by (auto simp: demo_ser_def demo_de_def)

lemma tuple_board_inverse: "tuple_board (board_tuple b) = b"
  by (simp add: board_tuple_def tuple_board_def)

lemma tuple_message_inverse: "tuple_message (message_tuple m) = m"
  by (simp add: message_tuple_def tuple_message_def)

section \<open>Payloads and envelopes\<close>

text \<open>A payload is the number of its constructor and the number of its arguments.\<close>

fun payload_code :: "federation_payload \<Rightarrow> nat \<times> nat" where
  "payload_code (AnnounceBoard b) = (0, to_nat (board_tuple b))"
| "payload_code (ReplicateMessage m) = (1, to_nat (message_tuple m))"
| "payload_code (BoardSnapshot b ms) = (2, to_nat (board_tuple b, map message_tuple ms))"
| "payload_code (BoardDigest s ids) = (3, to_nat (s, ids))"
| "payload_code (PeerExchange ps) = (4, to_nat (map (\<lambda>i. (pi_node i, pi_addr i)) ps))"
| "payload_code (PeerHello n p) = (5, to_nat (n, p))"
| "payload_code (Ack i) = (6, to_nat i)"

definition payload_decode :: "nat \<times> nat \<Rightarrow> federation_payload" where
  "payload_decode c = (case c of (k, n) \<Rightarrow>
     if k = 0 then AnnounceBoard (tuple_board (from_nat n))
     else if k = 1 then ReplicateMessage (tuple_message (from_nat n))
     else if k = 2 then (case from_nat n of (b, ms) \<Rightarrow> BoardSnapshot (tuple_board b) (map tuple_message ms))
     else if k = 3 then (case from_nat n of (s, ids) \<Rightarrow> BoardDigest s ids)
     else if k = 4 then PeerExchange (map (\<lambda>(a, b). \<lparr>pi_node = a, pi_addr = b\<rparr>) (from_nat n))
     else if k = 5 then (case from_nat n of (a, p) \<Rightarrow> PeerHello a p)
     else Ack (from_nat n))"

lemma map_tuple_inverse: "map tuple_message (map message_tuple ms) = ms"
  "map (\<lambda>(a, b). \<lparr>pi_node = a, pi_addr = b\<rparr>) (map (\<lambda>i. (pi_node i, pi_addr i)) ps) = ps"
  by (simp_all add: tuple_message_inverse map_idI)

lemma payload_decode_code: "payload_decode (payload_code p) = p"
  by (cases p) (simp_all add: payload_decode_def tuple_board_inverse tuple_message_inverse
      map_tuple_inverse del: map_map)

definition demo_wire :: wire where
  "demo_wire = \<lparr>
     ser_payload = (\<lambda>p. demo_ser (payload_code p)),
     ser_envelope = (\<lambda>e. demo_ser (fe_node e, unat (fe_seq e), payload_code (fe_payload e), fe_signature e)),
     de_envelope = (\<lambda>v. map_sum id (\<lambda>(n, s, p, g).
        \<lparr>fe_node = n, fe_seq = of_nat s, fe_payload = payload_decode p, fe_signature = g\<rparr>) (demo_de v))\<rparr>"

lemma demo_ser_inj: "demo_ser x = Inr b \<Longrightarrow> demo_ser y = Inr b \<Longrightarrow> x = y"
  by (auto simp: demo_ser_def)

lemma demo_wire_ok: "wire_ok demo_wire"
  unfolding wire_ok_def
proof (intro conjI allI impI)
  fix p q b
  assume "ser_payload demo_wire p = Inr b" "ser_payload demo_wire q = Inr b"
  then have "payload_code p = payload_code q"
    by (auto simp: demo_wire_def intro: demo_ser_inj)
  then show "p = q" by (metis payload_decode_code)
next
  fix e b
  assume "ser_envelope demo_wire e = Inr b"
  then show "de_envelope demo_wire b = Inr e"
    by (auto simp: demo_wire_def demo_de_ser payload_decode_code)
qed

end
