(* ===== verification/Redb.thy ===== *)
theory Redb
  imports Memory_Store Encoding
begin

text \<open>
  The durable store (\<open>RedbStore\<close> in \<open>agentbbs-core/src/store.rs\<close>). The \<open>redb\<close>
  database is not under \<open>src/\<close>: what the code uses of it is four tables of byte strings
  and transactions that take effect at a successful commit and not at all otherwise. Every
  step that can fail asks the fault function of the request, which names the error of that
  step, if any. JSON encoding is a parameter, whose round trip is the hypothesis
  \<open>serde_ok\<close>.
\<close>

section \<open>Model\<close>

type_synonym faults = "string \<Rightarrow> string option"

definition no_faults :: faults where
  "no_faults = (\<lambda>_. None)"

text \<open>The listed steps in order, up to the first that fails.\<close>

fun ios :: "faults \<Rightarrow> string list \<Rightarrow> unit result" where
  "ios F [] = Inr ()"
| "ios F (s # ss) = (case F s of None \<Rightarrow> ios F ss | Some e \<Rightarrow> Inl (Storage e))"

record serde =
  ser_board :: "board \<Rightarrow> string + bytes"
  de_board :: "bytes \<Rightarrow> string + board"
  ser_message :: "message \<Rightarrow> string + bytes"
  de_message :: "bytes \<Rightarrow> string + message"
  ser_ids :: "message_id list \<Rightarrow> string + bytes"
  de_ids :: "bytes \<Rightarrow> string + message_id list"
  ser_persona :: "persona \<Rightarrow> string + bytes"
  de_persona :: "bytes \<Rightarrow> string + persona"

fun serde_res :: "string + 'a \<Rightarrow> 'a result" where
  "serde_res (Inl e) = Inl (Serde e)"
| "serde_res (Inr x) = Inr x"

record redb =
  rd_boards :: "(string, bytes) btree"
  rd_messages :: "(string, bytes) btree"
  rd_index :: "(string, bytes) btree"
  rd_personas :: "(string, bytes) btree"

definition redb_empty :: redb where
  "redb_empty = \<lparr>rd_boards = bt_empty, rd_messages = bt_empty, rd_index = bt_empty,
     rd_personas = bt_empty\<rparr>"

text \<open>\<open>open\<close> finds the tables of an existing file or creates them.\<close>

definition redb_open :: "faults \<Rightarrow> redb option \<Rightarrow> redb result" where
  "redb_open F file =
     rbind (ios F [''create'', ''begin_write'', ''open boards'', ''open messages'', ''open index'',
                   ''open personas'', ''commit'']) (\<lambda>_.
       Inr (case file of None \<Rightarrow> redb_empty | Some s \<Rightarrow> s))"

definition redb_read_index :: "serde \<Rightarrow> faults \<Rightarrow> redb \<Rightarrow> string \<Rightarrow> message_id list result" where
  "redb_read_index J F s b =
     rbind (ios F [''begin_read'', ''open index'', ''get index'']) (\<lambda>_.
       case bt_get (rd_index s) b of
         Some v \<Rightarrow> serde_res (de_ids J v) | None \<Rightarrow> Inr [])"

definition redb_put_board :: "serde \<Rightarrow> faults \<Rightarrow> redb \<Rightarrow> board \<Rightarrow> redb result" where
  "redb_put_board J F s b =
     rbind (serde_res (ser_board J b)) (\<lambda>bytes.
     rbind (ios F [''begin_write'', ''open boards'', ''insert boards'', ''commit'']) (\<lambda>_.
       Inr (s\<lparr>rd_boards := bt_insert (bd_slug b) bytes (rd_boards s)\<rparr>)))"

definition redb_get_board :: "serde \<Rightarrow> faults \<Rightarrow> redb \<Rightarrow> string \<Rightarrow> board option result" where
  "redb_get_board J F s slug =
     rbind (ios F [''begin_read'', ''open boards'', ''get boards'']) (\<lambda>_.
       case bt_get (rd_boards s) slug of
         Some v \<Rightarrow> rbind (serde_res (de_board J v)) (\<lambda>b. Inr (Some b)) | None \<Rightarrow> Inr None)"

text \<open>Reading the rows of a table, each of which may fail to be read or to be decoded.\<close>

fun redb_rows :: "(bytes \<Rightarrow> string + 'a) \<Rightarrow> faults \<Rightarrow> nat \<Rightarrow> bytes list \<Rightarrow> 'a list result" where
  "redb_rows de F i [] = Inr []"
| "redb_rows de F i (v # vs) =
     rbind (ios F [''row '' @ dec i]) (\<lambda>_.
     rbind (serde_res (de v)) (\<lambda>x.
     rbind (redb_rows de F (Suc i) vs) (\<lambda>xs. Inr (x # xs))))"

definition redb_list_boards :: "serde \<Rightarrow> faults \<Rightarrow> redb \<Rightarrow> board list result" where
  "redb_list_boards J F s =
     rbind (ios F [''begin_read'', ''open boards'', ''iter boards'']) (\<lambda>_.
       redb_rows (de_board J) F 0 (bt_values (rd_boards s)))"

definition redb_put_message :: "serde \<Rightarrow> faults \<Rightarrow> redb \<Rightarrow> message \<Rightarrow> redb result" where
  "redb_put_message J F s m =
     (let k = mid (msg_id m); b = mb_board (msg_body m) in
      rbind (ios F [''begin_write'', ''open messages'', ''get messages'']) (\<lambda>_.
      if bt_get (rd_messages s) k \<noteq> None then Inr s
      else
        rbind (serde_res (ser_message J m)) (\<lambda>bytes.
        rbind (ios F [''insert messages'', ''open index'', ''get index'']) (\<lambda>_.
        rbind (case bt_get (rd_index s) b of
                 Some v \<Rightarrow> serde_res (de_ids J v) | None \<Rightarrow> Inr []) (\<lambda>ids.
        rbind (serde_res (ser_ids J (ids @ [msg_id m]))) (\<lambda>idx.
        rbind (ios F [''insert index'', ''commit'']) (\<lambda>_.
          Inr (s\<lparr>rd_messages := bt_insert k bytes (rd_messages s),
                 rd_index := bt_insert b idx (rd_index s)\<rparr>))))))))"

definition redb_get_message :: "serde \<Rightarrow> faults \<Rightarrow> redb \<Rightarrow> message_id \<Rightarrow> message option result" where
  "redb_get_message J F s i =
     rbind (ios F [''begin_read'', ''open messages'', ''get messages'']) (\<lambda>_.
       case bt_get (rd_messages s) (mid i) of
         Some v \<Rightarrow> rbind (serde_res (de_message J v)) (\<lambda>m. Inr (Some m)) | None \<Rightarrow> Inr None)"

text \<open>The loop of \<open>list_messages\<close>: each lookup is a read transaction of its own.\<close>

fun redb_collect :: "serde \<Rightarrow> faults \<Rightarrow> redb \<Rightarrow> nat \<Rightarrow> message_id list \<Rightarrow> message list result" where
  "redb_collect J F s n [] = Inr []"
| "redb_collect J F s n (i # is) =
     rbind (redb_get_message J (\<lambda>step. F (''message '' @ dec n @ step)) s i) (\<lambda>found.
     rbind (redb_collect J F s (Suc n) is) (\<lambda>ms.
       Inr (case found of Some m \<Rightarrow> m # ms | None \<Rightarrow> ms)))"

definition redb_list_messages ::
  "serde \<Rightarrow> faults \<Rightarrow> redb \<Rightarrow> string \<Rightarrow> nat \<Rightarrow> message list result" where
  "redb_list_messages J F s b limit =
     rbind (redb_read_index J F s b) (\<lambda>ids. redb_collect J F s 0 (window limit ids))"

definition redb_message_count :: "faults \<Rightarrow> redb \<Rightarrow> nat result" where
  "redb_message_count F s =
     rbind (ios F [''begin_read'', ''open messages'', ''len messages'']) (\<lambda>_.
       Inr (length (rd_messages s)))"

definition redb_put_persona :: "serde \<Rightarrow> faults \<Rightarrow> redb \<Rightarrow> persona \<Rightarrow> redb result" where
  "redb_put_persona J F s p =
     rbind (serde_res (ser_persona J p)) (\<lambda>bytes.
     rbind (ios F [''begin_write'', ''open personas'', ''insert personas'', ''commit'']) (\<lambda>_.
       Inr (s\<lparr>rd_personas := bt_insert (pa_handle p) bytes (rd_personas s)\<rparr>)))"

definition redb_get_persona :: "serde \<Rightarrow> faults \<Rightarrow> redb \<Rightarrow> string \<Rightarrow> persona option result" where
  "redb_get_persona J F s h =
     rbind (ios F [''begin_read'', ''open personas'', ''get personas'']) (\<lambda>_.
       case bt_get (rd_personas s) h of
         Some v \<Rightarrow> rbind (serde_res (de_persona J v)) (\<lambda>p. Inr (Some p)) | None \<Rightarrow> Inr None)"

definition redb_list_personas :: "serde \<Rightarrow> faults \<Rightarrow> redb \<Rightarrow> persona list result" where
  "redb_list_personas J F s =
     rbind (ios F [''begin_read'', ''open personas'', ''iter personas'']) (\<lambda>_.
       redb_rows (de_persona J) F 0 (bt_values (rd_personas s)))"

definition redb_delete_persona :: "faults \<Rightarrow> redb \<Rightarrow> string \<Rightarrow> redb result" where
  "redb_delete_persona F s h =
     rbind (ios F [''begin_write'', ''open personas'', ''remove personas'', ''commit'']) (\<lambda>_.
       Inr (s\<lparr>rd_personas := bt_remove h (rd_personas s)\<rparr>))"

definition redb_ops :: "serde \<Rightarrow> faults \<Rightarrow> redb store_ops" where
  "redb_ops J F = \<lparr>op_put_board = redb_put_board J F, op_get_board = redb_get_board J F,
     op_list_boards = redb_list_boards J F, op_put_message = redb_put_message J F,
     op_get_message = redb_get_message J F, op_list_messages = redb_list_messages J F,
     op_message_count = redb_message_count F, op_put_persona = redb_put_persona J F,
     op_get_persona = redb_get_persona J F, op_list_personas = redb_list_personas J F,
     op_delete_persona = redb_delete_persona F\<rparr>"

text \<open>A request together with the faults that hit it.\<close>

definition redb_run :: "serde \<Rightarrow> redb \<Rightarrow> faults \<times> store_op \<Rightarrow> redb \<times> store_answer" where
  "redb_run J s q = store_exec (redb_ops J (fst q)) s (snd q)"

section \<open>Encodings\<close>

definition codec_ok :: "('a \<Rightarrow> string + bytes) \<Rightarrow> (bytes \<Rightarrow> string + 'a) \<Rightarrow> bool" where
  "codec_ok ser de \<longleftrightarrow> (\<forall>x v. ser x = Inr v \<longrightarrow> de v = Inr x)"

definition serde_ok :: "serde \<Rightarrow> bool" where
  "serde_ok J \<longleftrightarrow> codec_ok (ser_board J) (de_board J) \<and> codec_ok (ser_message J) (de_message J) \<and>
     codec_ok (ser_ids J) (de_ids J) \<and> codec_ok (ser_persona J) (de_persona J)"

definition serde_total :: "serde \<Rightarrow> bool" where
  "serde_total J \<longleftrightarrow> (\<forall>x. ser_board J x \<in> range Inr) \<and> (\<forall>x. ser_message J x \<in> range Inr) \<and>
     (\<forall>x. ser_ids J x \<in> range Inr) \<and> (\<forall>x. ser_persona J x \<in> range Inr)"

lemma serde_res_Inr_iff [result_simps]: "serde_res r = Inr x \<longleftrightarrow> r = Inr x"
  by (cases r) auto

lemma ios_no_faults [simp]: "ios no_faults ss = Inr ()"
  by (induction ss) (auto simp: no_faults_def)

declare ios.simps [simp del]

section \<open>Simulation of the in-memory store\<close>

text \<open>Table by table, the bytes stored decode to what the in-memory store holds.\<close>

definition coded :: "(bytes \<Rightarrow> string + 'a) \<Rightarrow> bytes \<Rightarrow> 'a \<Rightarrow> bool" where
  "coded de v x \<longleftrightarrow> de v = Inr x"

definition redb_rel :: "serde \<Rightarrow> redb \<Rightarrow> memory_store \<Rightarrow> bool" where
  "redb_rel J s m \<longleftrightarrow>
     bt_rel (coded (de_board J)) (rd_boards s) (ms_boards m) \<and>
     bt_rel (coded (de_message J)) (rd_messages s) (ms_messages m) \<and>
     bt_rel (coded (de_ids J)) (rd_index s) (ms_by_board m) \<and>
     bt_rel (coded (de_persona J)) (rd_personas s) (ms_personas m)"

lemma coded_ser: "codec_ok ser de \<Longrightarrow> ser x = Inr v \<Longrightarrow> coded de v x"
  by (simp add: codec_ok_def coded_def)

text \<open>A lookup that succeeds returns what the in-memory table holds.\<close>

lemma coded_get:
  assumes "bt_rel (coded de) m n"
  shows "bt_get m k = None \<and> bt_get n k = None \<or>
    (\<exists>v x. bt_get m k = Some v \<and> bt_get n k = Some x \<and> de v = Inr x)"
  using bt_rel_get[OF assms, of k]
  by (cases "bt_get m k"; cases "bt_get n k") (auto simp: coded_def)

lemma redb_rows_ok:
  "list_all2 (coded de) vs xs \<Longrightarrow> redb_rows de F i vs = Inr ys \<Longrightarrow> ys = xs"
  by (induction vs xs arbitrary: i ys rule: list_all2_induct)
     (auto simp: result_simps coded_def)

lemma redb_get_message_ok:
  assumes "redb_rel J s m" "redb_get_message J F s i = Inr r"
  shows "r = bt_get (ms_messages m) (mid i)"
  using assms coded_get[of "de_message J" "rd_messages s" "ms_messages m" "mid i"]
  by (auto simp: redb_get_message_def redb_rel_def result_simps)

lemma redb_collect_ok:
  "redb_rel J s m \<Longrightarrow> redb_collect J F s n is = Inr ms \<Longrightarrow>
    ms = List.map_filter (\<lambda>i. bt_get (ms_messages m) (mid i)) is"
proof (induction "is" arbitrary: n ms)
  case Nil
  then show ?case by simp
next
  case (Cons i "is")
  obtain found ms' where found: "redb_get_message J (\<lambda>step. F (''message '' @ dec n @ step)) s i = Inr found"
    and ms': "redb_collect J F s (Suc n) is = Inr ms'"
    and ms: "ms = (case found of Some x \<Rightarrow> x # ms' | None \<Rightarrow> ms')"
    using Cons.prems(2) by (auto simp: result_simps)
  show ?case
    unfolding ms Cons.IH[OF Cons.prems(1) ms'] redb_get_message_ok[OF Cons.prems(1) found]
    by (simp split: option.split)
qed

text \<open>A successful request to the database does what the in-memory store does.\<close>

definition sim_step :: "serde \<Rightarrow> faults \<Rightarrow> store_op \<Rightarrow> bool" where
  "sim_step J F q \<longleftrightarrow> (\<forall>s m s' r. redb_rel J s m \<longrightarrow> redb_run J s (F, q) = (s', r) \<longrightarrow>
     \<not> is_failed r \<longrightarrow> (\<exists>m'. store_exec memory_ops m q = (m', r) \<and> redb_rel J s' m'))"

lemma wrote_ok: "wrote s r = (s', a) \<Longrightarrow> \<not> is_failed a \<Longrightarrow> r = Inr s' \<and> a = Done"
  by (cases r) auto

lemma wrote_failed: "wrote s r = (s', Failed e) \<Longrightarrow> s' = s"
  by (cases r) auto

lemma answered_state: "answered s f r = (s', a) \<Longrightarrow> s' = s"
  by (cases r) auto

lemma answered_ok: "answered s f r = (s', a) \<Longrightarrow> \<not> is_failed a \<Longrightarrow> \<exists>x. r = Inr x \<and> s' = s \<and> a = f x"
  by (cases r) auto

lemmas redb_op_defs = redb_run_def redb_ops_def redb_put_board_def redb_get_board_def
  redb_list_boards_def redb_put_message_def redb_list_messages_def
  redb_message_count_def redb_put_persona_def redb_get_persona_def redb_list_personas_def
  redb_delete_persona_def

lemma sim_stepI:
  assumes "\<And>s m s' r. redb_rel J s m \<Longrightarrow> redb_run J s (F, q) = (s', r) \<Longrightarrow> \<not> is_failed r \<Longrightarrow>
     \<exists>m'. store_exec memory_ops m q = (m', r) \<and> redb_rel J s' m'"
  shows "sim_step J F q"
  using assms by (simp add: sim_step_def)

lemma sim_put_board: "serde_ok J \<Longrightarrow> sim_step J F (PutBoard b)"
  by (rule sim_stepI)
     (auto simp: redb_op_defs mem_defs serde_ok_def redb_rel_def result_simps codec_ok_def
       coded_def intro!: bt_rel_insert dest!: wrote_ok)

lemma sim_put_persona: "serde_ok J \<Longrightarrow> sim_step J F (PutPersona p)"
  by (rule sim_stepI)
     (auto simp: redb_op_defs mem_defs serde_ok_def redb_rel_def result_simps codec_ok_def
       coded_def intro!: bt_rel_insert dest!: wrote_ok)

lemma sim_delete_persona: "sim_step J F (DeletePersona h)"
  by (rule sim_stepI)
     (auto simp: redb_op_defs mem_defs redb_rel_def result_simps intro!: bt_rel_remove dest!: wrote_ok)

lemma sim_get_board: "sim_step J F (GetBoard k)"
proof (rule sim_stepI)
  fix s m s' r
  assume rel: "redb_rel J s m" and run: "redb_run J s (F, GetBoard k) = (s', r)"
    and ok: "\<not> is_failed r"
  obtain x where x: "redb_get_board J F s k = Inr x" "s' = s" "r = ABoard x"
    using run answered_ok[of s ABoard _ s' r] ok by (auto simp: redb_run_def redb_ops_def)
  have "x = bt_get (ms_boards m) k"
    using rel x(1) coded_get[of "de_board J" "rd_boards s" "ms_boards m" k]
    by (auto simp: redb_get_board_def redb_rel_def result_simps)
  with rel x show "\<exists>m'. store_exec memory_ops m (GetBoard k) = (m', r) \<and> redb_rel J s' m'"
    by (auto simp: mem_defs)
qed

lemma sim_get_persona: "sim_step J F (GetPersona k)"
proof (rule sim_stepI)
  fix s m s' r
  assume rel: "redb_rel J s m" and run: "redb_run J s (F, GetPersona k) = (s', r)"
    and ok: "\<not> is_failed r"
  obtain x where x: "redb_get_persona J F s k = Inr x" "s' = s" "r = APersona x"
    using run answered_ok[of s APersona _ s' r] ok by (auto simp: redb_run_def redb_ops_def)
  have "x = bt_get (ms_personas m) k"
    using rel x(1) coded_get[of "de_persona J" "rd_personas s" "ms_personas m" k]
    by (auto simp: redb_get_persona_def redb_rel_def result_simps)
  with rel x show "\<exists>m'. store_exec memory_ops m (GetPersona k) = (m', r) \<and> redb_rel J s' m'"
    by (auto simp: mem_defs)
qed

lemma sim_get_message: "sim_step J F (GetMessage i)"
proof (rule sim_stepI)
  fix s m s' r
  assume rel: "redb_rel J s m" and run: "redb_run J s (F, GetMessage i) = (s', r)"
    and ok: "\<not> is_failed r"
  obtain x where x: "redb_get_message J F s i = Inr x" "s' = s" "r = AMessage x"
    using run answered_ok[of s AMessage _ s' r] ok by (auto simp: redb_run_def redb_ops_def)
  with rel redb_get_message_ok[OF rel x(1)]
  show "\<exists>m'. store_exec memory_ops m (GetMessage i) = (m', r) \<and> redb_rel J s' m'"
    by (auto simp: mem_defs)
qed

lemma sim_list_boards: "sim_step J F ListBoards"
  by (rule sim_stepI)
     (auto simp: redb_op_defs mem_defs redb_rel_def result_simps
       dest!: answered_ok dest: redb_rows_ok[OF bt_rel_values])

lemma sim_list_personas: "sim_step J F ListPersonas"
  by (rule sim_stepI)
     (auto simp: redb_op_defs mem_defs redb_rel_def result_simps
       dest!: answered_ok dest: redb_rows_ok[OF bt_rel_values])

lemma sim_message_count: "sim_step J F MessageCount"
  by (rule sim_stepI)
     (auto simp: redb_op_defs mem_defs redb_rel_def result_simps
       dest!: answered_ok dest: bt_rel_length)

lemma sim_list_messages: "sim_step J F (ListMessages b n)"
proof (rule sim_stepI)
  fix s m s' r
  assume rel: "redb_rel J s m" and run: "redb_run J s (F, ListMessages b n) = (s', r)"
    and ok: "\<not> is_failed r"
  obtain x where x: "redb_list_messages J F s b n = Inr x" "s' = s" "r = AMessages x"
    using run answered_ok[of s AMessages _ s' r] ok by (auto simp: redb_run_def redb_ops_def)
  obtain ids where ids: "redb_read_index J F s b = Inr ids"
    and coll: "redb_collect J F s 0 (window n ids) = Inr x"
    using x(1) by (auto simp: redb_list_messages_def result_simps)
  have "ids = or_default (bt_get (ms_by_board m) b)"
    using rel ids coded_get[of "de_ids J" "rd_index s" "ms_by_board m" b]
    by (auto simp: redb_read_index_def redb_rel_def result_simps)
  moreover have "x = List.map_filter (\<lambda>i. bt_get (ms_messages m) (mid i)) (window n ids)"
    using rel coll by (rule redb_collect_ok)
  ultimately have "mem_list_messages m b n = Inr x"
    by (cases "bt_get (ms_by_board m) b") (auto simp: mem_list_messages_def window_def)
  with rel x show "\<exists>m'. store_exec memory_ops m (ListMessages b n) = (m', r) \<and> redb_rel J s' m'"
    by (auto simp: memory_ops_def)
qed

lemma sim_put_message:
  assumes J: "serde_ok J"
  shows "sim_step J F (PutMessage msg)"
proof (rule sim_stepI)
  fix s m s' r
  let ?k = "mid (msg_id msg)" and ?b = "mb_board (msg_body msg)"
  assume rel: "redb_rel J s m" and run: "redb_run J s (F, PutMessage msg) = (s', r)"
    and "\<not> is_failed r"
  then have put: "redb_put_message J F s msg = Inr s'" and r: "r = Done"
    using wrote_ok[of s _ s' r] by (auto simp: redb_run_def redb_ops_def)
  have msgs: "bt_get (rd_messages s) ?k = None \<longleftrightarrow> bt_get (ms_messages m) ?k = None"
    using rel coded_get[of "de_message J" "rd_messages s" "ms_messages m" ?k]
    by (auto simp: redb_rel_def)
  show "\<exists>m'. store_exec memory_ops m (PutMessage msg) = (m', r) \<and> redb_rel J s' m'"
  proof (cases "bt_get (rd_messages s) ?k")
    case (Some v)
    with put have "s' = s" by (auto simp: redb_put_message_def Let_def result_simps)
    with Some msgs rel show ?thesis
      by (auto simp: mem_defs Let_def r)
  next
    case None
    then obtain bytes ids idx where
        ser: "ser_message J msg = Inr bytes" "ser_ids J (ids @ [msg_id msg]) = Inr idx"
      and ids: "(case bt_get (rd_index s) ?b of Some v \<Rightarrow> serde_res (de_ids J v) | None \<Rightarrow> Inr []) = Inr ids"
      and s': "s' = s\<lparr>rd_messages := bt_insert ?k bytes (rd_messages s),
                     rd_index := bt_insert ?b idx (rd_index s)\<rparr>"
      using put by (auto simp: redb_put_message_def Let_def result_simps)
    have "ids = or_default (bt_get (ms_by_board m) ?b)"
      using rel ids coded_get[of "de_ids J" "rd_index s" "ms_by_board m" ?b]
      by (auto simp: redb_rel_def result_simps)
    with ser J have "coded (de_message J) bytes msg"
        "coded (de_ids J) idx (or_default (bt_get (ms_by_board m) ?b) @ [msg_id msg])"
      by (auto simp: serde_ok_def intro: coded_ser)
    with rel None msgs show ?thesis
      by (auto simp: mem_defs Let_def r s' redb_rel_def intro!: bt_rel_insert)
  qed
qed

lemmas sim_steps = sim_put_board sim_put_persona sim_delete_persona sim_get_board
  sim_get_persona sim_get_message sim_list_boards sim_list_personas sim_message_count
  sim_list_messages sim_put_message

lemma redb_sim: "serde_ok J \<Longrightarrow> sim_step J F q"
  by (cases q) (simp_all add: sim_steps)

text \<open>The database fulfils the contract of a store, whatever faults hit its requests.\<close>

definition redb_refines :: "serde \<Rightarrow> redb \<Rightarrow> abs_store \<Rightarrow> bool" where
  "redb_refines J s a \<longleftrightarrow> (\<exists>m. redb_rel J s m \<and> mem_refines m a)"

lemma redb_contract:
  assumes J: "serde_ok J"
  shows "store_contract (redb_run J) snd (redb_refines J) redb_empty"
proof unfold_locales
  have "redb_rel J redb_empty memory_store_new"
    by (simp add: redb_rel_def redb_empty_def memory_store_new_def)
  then show "redb_refines J redb_empty abs_empty"
    using mem.refines_init by (auto simp: redb_refines_def)
next
  fix s q s' e
  assume "redb_run J s q = (s', Failed e)"
  then show "s' = s"
    by (cases "snd q") (auto simp: redb_run_def redb_ops_def dest: wrote_failed answered_state)
next
  fix s a q s' r
  assume "redb_refines J s a" and run: "redb_run J s q = (s', r)" and ok: "\<not> is_failed r"
  then obtain m where m: "redb_rel J s m" "mem_refines m a" by (auto simp: redb_refines_def)
  obtain m' where m': "store_exec memory_ops m (snd q) = (m', r)" "redb_rel J s' m'"
    using redb_sim[OF J, of "fst q" "snd q"] m(1) run ok unfolding sim_step_def prod.collapse
    by blast
  from mem.simulates[OF m(2) m'(1) ok] m'(2)
  show "redb_refines J s' (fst (abs_exec a (snd q))) \<and> r = snd (abs_exec a (snd q))"
    by (auto simp: redb_refines_def)
qed

text \<open>The same for the durable store as its users see it, under any one pattern of faults.\<close>

lemma redb_store_contract:
  assumes "serde_ok J"
  shows "store_contract (store_exec (redb_ops J F)) (\<lambda>q. q) (redb_refines J) redb_empty"
proof unfold_locales
  show "redb_refines J redb_empty abs_empty"
    by (rule store_contract.refines_init[OF redb_contract[OF assms]])
next
  fix s q s' e
  assume "store_exec (redb_ops J F) s q = (s', Failed e)"
  then show "s' = s"
    using store_contract.failed_same[OF redb_contract[OF assms], of s "(F, q)" s' e]
    by (simp add: redb_run_def)
next
  fix s a q s' r
  assume "redb_refines J s a" "store_exec (redb_ops J F) s q = (s', r)" "\<not> is_failed r"
  then show "redb_refines J s' (fst (abs_exec a q)) \<and> r = snd (abs_exec a q)"
    using store_contract.simulates[OF redb_contract[OF assms], of s a "(F, q)" s' r]
    by (simp add: redb_run_def)
qed

section \<open>Runs without faults\<close>

text \<open>With no faults and an encoder that never fails, every request succeeds.\<close>

lemma redb_rows_total:
  "list_all2 (coded de) vs xs \<Longrightarrow> redb_rows de no_faults i vs = Inr xs"
  by (induction vs xs arbitrary: i rule: list_all2_induct) (auto simp: coded_def)

lemma redb_get_message_total:
  assumes "redb_rel J s m"
  shows "redb_get_message J no_faults s i = Inr (bt_get (ms_messages m) (mid i))"
  using assms coded_get[of "de_message J" "rd_messages s" "ms_messages m" "mid i"]
  by (auto simp: redb_get_message_def redb_rel_def)

lemma redb_collect_total:
  "redb_rel J s m \<Longrightarrow> redb_collect J no_faults s n is =
    Inr (List.map_filter (\<lambda>i. bt_get (ms_messages m) (mid i)) is)"
proof (induction "is" arbitrary: n)
  case Nil
  then show ?case by simp
next
  case (Cons i "is")
  have "(\<lambda>step. no_faults (''message '' @ dec n @ step)) = no_faults"
    by (simp add: no_faults_def)
  with Cons show ?case
    by (simp add: redb_get_message_total split: option.split)
qed

lemma serde_total_ex:
  "serde_total J \<Longrightarrow> \<exists>v. ser_board J b = Inr v" "serde_total J \<Longrightarrow> \<exists>v. ser_message J m = Inr v"
  "serde_total J \<Longrightarrow> \<exists>v. ser_ids J ids = Inr v" "serde_total J \<Longrightarrow> \<exists>v. ser_persona J p = Inr v"
  by (auto simp: serde_total_def image_iff)

lemma redb_put_message_total:
  assumes T: "serde_total J" and rel: "redb_rel J s m"
  shows "\<exists>s'. redb_put_message J no_faults s msg = Inr s'"
proof -
  obtain v where v: "ser_message J msg = Inr v" using serde_total_ex(2)[OF T] ..
  obtain ids where ids: "(case bt_get (rd_index s) (mb_board (msg_body msg)) of
      Some v \<Rightarrow> serde_res (de_ids J v) | None \<Rightarrow> Inr []) = Inr ids"
    using rel coded_get[of "de_ids J" "rd_index s" "ms_by_board m" "mb_board (msg_body msg)"]
    by (auto simp: redb_rel_def)
  obtain w where w: "ser_ids J (ids @ [msg_id msg]) = Inr w" using serde_total_ex(3)[OF T] ..
  show ?thesis
    by (simp add: redb_put_message_def Let_def v ids w)
qed

lemma redb_total:
  assumes T: "serde_total J" and rel: "redb_rel J s m"
  shows "\<not> is_failed (snd (redb_run J s (no_faults, q)))"
proof (cases q)
  case (PutBoard b)
  then show ?thesis
    using serde_total_ex(1)[OF T, of b] by (auto simp: redb_op_defs)
next
  case (PutPersona p)
  then show ?thesis
    using serde_total_ex(4)[OF T, of p] by (auto simp: redb_op_defs)
next
  case (PutMessage msg)
  then show ?thesis
    using redb_put_message_total[OF T rel, of msg] by (auto simp: redb_run_def redb_ops_def)
next
  case (GetMessage i)
  then show ?thesis
    by (simp add: redb_run_def redb_ops_def redb_get_message_total[OF rel])
next
  case (ListMessages b n)
  obtain ids where "redb_read_index J no_faults s b = Inr ids"
    using rel coded_get[of "de_ids J" "rd_index s" "ms_by_board m" b]
    by (auto simp: redb_read_index_def redb_rel_def)
  then show ?thesis
    by (simp add: ListMessages redb_run_def redb_ops_def redb_list_messages_def
        redb_collect_total[OF rel])
next
  case ListBoards
  have "list_all2 (coded (de_board J)) (bt_values (rd_boards s)) (bt_values (ms_boards m))"
    using rel by (auto simp: redb_rel_def intro: bt_rel_values)
  then show ?thesis
    by (simp add: ListBoards redb_op_defs redb_rows_total)
next
  case ListPersonas
  have "list_all2 (coded (de_persona J)) (bt_values (rd_personas s)) (bt_values (ms_personas m))"
    using rel by (auto simp: redb_rel_def intro: bt_rel_values)
  then show ?thesis
    by (simp add: ListPersonas redb_op_defs redb_rows_total)
next
  case (GetBoard k)
  then show ?thesis
    using rel coded_get[of "de_board J" "rd_boards s" "ms_boards m" k]
    by (auto simp: redb_op_defs redb_rel_def)
next
  case (GetPersona k)
  then show ?thesis
    using rel coded_get[of "de_persona J" "rd_personas s" "ms_personas m" k]
    by (auto simp: redb_op_defs redb_rel_def)
next
  case (DeletePersona h)
  then show ?thesis by (simp add: redb_op_defs)
next
  case MessageCount
  then show ?thesis by (simp add: redb_op_defs)
qed

lemma redb_reliable:
  assumes "serde_ok J" "serde_total J"
  shows "reliable_store (\<lambda>s q. redb_run J s (no_faults, q)) (\<lambda>q. q) (redb_refines J) redb_empty"
proof unfold_locales
  note contract = redb_contract[OF assms(1)]
  show "redb_refines J redb_empty abs_empty"
    by (rule store_contract.refines_init[OF contract])
  fix s a q s' r e
  show "redb_run J s (no_faults, q) = (s', Failed e) \<Longrightarrow> s' = s"
    by (rule store_contract.failed_same[OF contract])
  show "redb_refines J s a \<Longrightarrow> redb_run J s (no_faults, q) = (s', r) \<Longrightarrow> \<not> is_failed r \<Longrightarrow>
      redb_refines J s' (fst (abs_exec a q)) \<and> r = snd (abs_exec a q)"
    using store_contract.simulates[OF contract] by fastforce
  show "redb_refines J s a \<Longrightarrow> redb_run J s (no_faults, q) = (s', r) \<Longrightarrow> \<not> is_failed r"
    using redb_total[OF assms(2)] unfolding redb_refines_def by (metis snd_conv)
qed

section \<open>A concrete encoding\<close>

text \<open>The encodings of \<open>Encoding\<close>, table by table.\<close>

definition demo_serde :: serde where
  "demo_serde = \<lparr>
     ser_board = (\<lambda>b. demo_ser (board_tuple b)),
     de_board = (\<lambda>v. map_sum id tuple_board (demo_de v)),
     ser_message = (\<lambda>m. demo_ser (message_tuple m)),
     de_message = (\<lambda>v. map_sum id tuple_message (demo_de v)),
     ser_ids = demo_ser, de_ids = demo_de,
     ser_persona = (\<lambda>p. demo_ser (pa_handle p, pa_prompt p)),
     de_persona = (\<lambda>v. map_sum id (\<lambda>(h, s). \<lparr>pa_handle = h, pa_prompt = s\<rparr>) (demo_de v))\<rparr>"

lemma demo_serde_ok: "serde_ok demo_serde" "serde_total demo_serde"
  by (auto simp: serde_ok_def codec_ok_def demo_serde_def demo_de_ser tuple_board_inverse
      tuple_message_inverse)
     (simp add: serde_total_def demo_serde_def demo_ser_def)

interpretation demo_redb: store_contract "redb_run demo_serde" snd "redb_refines demo_serde" redb_empty
  by (rule redb_contract[OF demo_serde_ok(1)])

section \<open>Properties\<close>

text \<open>
  Property C3. The durable store is crash-consistent: whatever step of whatever request fails
  with an I/O error, the answers of any sequence of requests are those of the abstract store
  on the requests that did not fail. A failed request leaves no trace, and none that succeeded
  is lost.
\<close>

theorem redb_crash_consistent:
  assumes "serde_ok J" "exec_all (redb_run J) redb_empty qs = (s, rs)"
  shows "rs = snd (abs_follow abs_empty (zip (map snd qs) rs))"
  using store_contract.run_refines[OF redb_contract[OF assms(1)] _ assms(2)]
    store_contract.refines_init[OF redb_contract[OF assms(1)]] by blast

theorem redb_crash_consistent_witness:
  "snd (exec_all (redb_run demo_serde) redb_empty
     [(no_faults(''insert index'' \<mapsto> ''disk full''), PutMessage demo_message),
      (no_faults, MessageCount)]) =
   [Failed (Storage ''disk full''), ACount 0]"
proof -
  let ?qs = "[(no_faults(''insert index'' \<mapsto> ''disk full''), PutMessage demo_message),
      (no_faults, MessageCount)]"
  obtain s rs where run: "exec_all (redb_run demo_serde) redb_empty ?qs = (s, rs)"
    by fastforce
  have "redb_put_message demo_serde (no_faults(''insert index'' \<mapsto> ''disk full'')) redb_empty
      demo_message = Inl (Storage ''disk full'')"
    by (simp add: redb_put_message_def Let_def redb_empty_def bt.get_empty ios.simps no_faults_def
        demo_serde_def demo_ser_def)
  moreover have "redb_message_count no_faults redb_empty = Inr 0"
    by (simp add: redb_message_count_def redb_empty_def bt_empty_def)
  ultimately have "\<exists>n. rs = [Failed (Storage ''disk full''), ACount n]"
    using run by (auto simp: redb_run_def redb_ops_def)
  then show ?thesis
    using redb_crash_consistent[OF demo_serde_ok(1) run] run by (auto simp: abs_empty_def)
qed

text \<open>
  Property C34. The two stores are interchangeable: without faults, the durable store answers
  every sequence of requests exactly as the in-memory store.
\<close>

theorem stores_agree:
  assumes "serde_ok J" "serde_total J"
  shows "snd (exec_all (\<lambda>s q. redb_run J s (no_faults, q)) redb_empty qs) =
    snd (exec_all (store_exec memory_ops) memory_store_new qs)"
proof -
  note rel = redb_reliable[OF assms]
  have "redb_refines J redb_empty abs_empty"
    by (rule store_contract.refines_init[OF redb_contract[OF assms(1)]])
  from reliable_store.run_answers[OF rel this, of qs] mem.run_answers[OF mem.refines_init, of qs]
  show ?thesis
    by (cases "exec_all (\<lambda>s q. redb_run J s (no_faults, q)) redb_empty qs",
        cases "exec_all (store_exec memory_ops) memory_store_new qs") auto
qed

theorem stores_agree_witness:
  "snd (exec_all (\<lambda>s q. redb_run demo_serde s (no_faults, q)) redb_empty
     [PutMessage demo_message, PutMessage demo_message, MessageCount,
      ListMessages (mb_board demo_body) 5]) =
   [Done, Done, ACount 1, AMessages [demo_message]]"
  unfolding stores_agree[OF demo_serde_ok]
  by (simp add: mem_defs Let_def memory_store_new_def bt_simps or_default.simps)
     (simp add: demo_message_def window_def List.map_filter_def bt_simps bt_empty_def)

end
