(* ===== verification/Hash_Map.thy ===== *)
theory Hash_Map
  imports BTree_Map "HOL-Library.AList"
begin

text \<open>
  \<open>std::collections::HashMap\<close>: a finite map with no promised iteration order. It is the
  list of its entries, here in insertion order; a component whose result could depend on the
  order takes it as an argument instead. A second interpretation of \<open>keyed_map\<close>.
\<close>

type_synonym ('k, 'v) hmap = "('k \<times> 'v) list"

definition hm_empty :: "('k, 'v) hmap" where
  "hm_empty = []"

definition hm_get :: "('k, 'v) hmap \<Rightarrow> 'k \<Rightarrow> 'v option" where
  "hm_get m k = map_of m k"

definition hm_insert :: "'k \<Rightarrow> 'v \<Rightarrow> ('k, 'v) hmap \<Rightarrow> ('k, 'v) hmap" where
  "hm_insert k v m = AList.update k v m"

definition hm_remove :: "'k \<Rightarrow> ('k, 'v) hmap \<Rightarrow> ('k, 'v) hmap" where
  "hm_remove k m = AList.delete k m"

definition hm_keys :: "('k, 'v) hmap \<Rightarrow> 'k list" where
  "hm_keys m = map fst m"

definition hm_values :: "('k, 'v) hmap \<Rightarrow> 'v list" where
  "hm_values m = map snd m"

definition hm_entries :: "('k, 'v) hmap \<Rightarrow> ('k \<times> 'v) list" where
  "hm_entries m = m"

definition hm_wf :: "('k, 'v) hmap \<Rightarrow> bool" where
  "hm_wf m \<longleftrightarrow> distinct (map fst m)"

text \<open>Lookups after an insertion or removal need no invariant.\<close>

lemma hm_get_empty [simp]: "hm_get hm_empty k = None"
  by (simp add: hm_get_def hm_empty_def)

lemma hm_get_insert [simp]: "hm_get (hm_insert k v m) = (hm_get m)(k \<mapsto> v)"
  by (rule ext) (simp add: hm_get_def hm_insert_def update_conv')

lemma hm_get_remove [simp]: "hm_get (hm_remove k m) = (hm_get m)(k := None)"
  by (rule ext) (simp add: hm_get_def hm_remove_def delete_conv')

lemma hm_wf_empty: "hm_wf hm_empty"
  by (simp add: hm_wf_def hm_empty_def)

lemma hm_wf_insert: "hm_wf m \<Longrightarrow> hm_wf (hm_insert k v m)"
  by (simp add: hm_wf_def hm_insert_def distinct_update)

lemma hm_wf_remove: "hm_wf m \<Longrightarrow> hm_wf (hm_remove k m)"
  by (simp add: hm_wf_def hm_remove_def distinct_delete)

interpretation hm: keyed_map hm_empty hm_get hm_insert hm_remove hm_entries hm_wf
  by unfold_locales
     (auto simp: hm_wf_empty hm_wf_insert hm_wf_remove hm_entries_def hm_wf_def hm_get_def
       hm_empty_def fun_eq_iff hm_insert_def hm_remove_def update_conv' delete_conv'
       distinct_update distinct_delete)

lemma set_hm_keys: "set (hm_keys m) = dom (hm_get m)"
proof -
  have "hm_get m = map_of m" by (rule ext) (simp add: hm_get_def)
  then show ?thesis by (simp add: hm_keys_def dom_map_of_conv_image_fst)
qed

lemma finite_dom_hm [simp]: "finite (dom (hm_get m))"
  using set_hm_keys[of m] by (metis List.finite_set)

lemma finite_ran_hm [simp]: "finite (ran (hm_get m))"
  by (simp add: finite_ran)

text \<open>\<open>HashMap::retain\<close>.\<close>

definition hm_retain :: "('k \<Rightarrow> 'v \<Rightarrow> bool) \<Rightarrow> ('k, 'v) hmap \<Rightarrow> ('k, 'v) hmap" where
  "hm_retain P m = filter (\<lambda>e. P (fst e) (snd e)) m"

lemma hm_wf_retain: "hm_wf m \<Longrightarrow> hm_wf (hm_retain P m)"
  by (simp add: hm_wf_def hm_retain_def distinct_map_filter)

lemma hm_get_retain:
  "hm_wf m \<Longrightarrow> hm_get (hm_retain P m) k =
    (case hm_get m k of None \<Rightarrow> None | Some v \<Rightarrow> if P k v then Some v else None)"
proof (induction m)
  case Nil
  then show ?case by (simp add: hm_get_def hm_retain_def)
next
  case (Cons e m)
  have "k \<notin> fst ` set m \<Longrightarrow> map_of (filter (\<lambda>e. P (fst e) (snd e)) m) k = None"
    by (auto simp: map_of_eq_None_iff)
  with Cons show ?case
    by (cases e) (auto simp: hm_get_def hm_retain_def hm_wf_def map_of_eq_None_iff split: option.splits)
qed

lemma set_hm_values: "hm_wf m \<Longrightarrow> set (hm_values m) = ran (hm_get m)"
  using hm.set_values[of m] by (simp add: hm_values_def hm_entries_def)

end
