(* ===== verification/Ratelimit.thy ===== *)
theory Ratelimit
  imports Hash_Map
begin

text \<open>
  The fixed-window rate limiter (\<open>agentbbs-core/src/ratelimit.rs\<close>). Times are 64-bit
  milliseconds supplied by the caller, counts 32-bit; the mutex makes each call one step.
\<close>

section \<open>Model\<close>

record rl_window =
  rw_start_ms :: u64
  rw_count :: u32

record rate_limiter =
  rl_max :: u32
  rl_window_ms :: u64
  rl_windows :: "(string, rl_window) hmap"

definition rl_new :: "u32 \<Rightarrow> u64 \<Rightarrow> rate_limiter" where
  "rl_new mx window_ms = \<lparr>rl_max = mx, rl_window_ms = window_ms, rl_windows = hm_empty\<rparr>"

definition rl_allow :: "rate_limiter \<Rightarrow> string \<Rightarrow> u64 \<Rightarrow> rate_limiter \<times> bool" where
  "rl_allow l key now =
     (let w = (case hm_get (rl_windows l) key of
                 Some w \<Rightarrow> w | None \<Rightarrow> \<lparr>rw_start_ms = now, rw_count = 0\<rparr>);
          w = (if rl_window_ms l \<le> saturating_sub now (rw_start_ms w)
               then \<lparr>rw_start_ms = now, rw_count = 0\<rparr> else w)
      in if rl_max l \<le> rw_count w
         then (l\<lparr>rl_windows := hm_insert key w (rl_windows l)\<rparr>, False)
         else (l\<lparr>rl_windows := hm_insert key (w\<lparr>rw_count := rw_count w + 1\<rparr>) (rl_windows l)\<rparr>, True))"

definition rl_gc :: "rate_limiter \<Rightarrow> u64 \<Rightarrow> rate_limiter" where
  "rl_gc l now = l\<lparr>rl_windows :=
     hm_retain (\<lambda>_ w. saturating_sub now (rw_start_ms w) < rl_window_ms l) (rl_windows l)\<rparr>"

definition rl_tracked :: "rate_limiter \<Rightarrow> nat" where
  "rl_tracked l = length (rl_windows l)"

section \<open>Runs\<close>

text \<open>A call, or a collection of stale windows; the answers of the calls are collected.\<close>

datatype rl_event = Call string u64 | Collect u64

fun rl_time :: "rl_event \<Rightarrow> nat" where
  "rl_time (Call k n) = unat n"
| "rl_time (Collect n) = unat n"

text \<open>The number of calls for \<open>key\<close> admitted at times in \<open>[t, t + width)\<close>.\<close>

fun rl_admitted :: "string \<Rightarrow> nat \<Rightarrow> nat \<Rightarrow> rate_limiter \<Rightarrow> rl_event list \<Rightarrow> nat" where
  "rl_admitted key t width l [] = 0"
| "rl_admitted key t width l (Call k n # es) =
     (let (l', ok) = rl_allow l k n in
      (if ok \<and> k = key \<and> t \<le> unat n \<and> unat n < t + width then 1 else 0) +
      rl_admitted key t width l' es)"
| "rl_admitted key t width l (Collect n # es) = rl_admitted key t width (rl_gc l n) es"

fun clocked :: "nat \<Rightarrow> rl_event list \<Rightarrow> bool" where
  "clocked lo [] \<longleftrightarrow> True"
| "clocked lo (e # es) \<longleftrightarrow> lo \<le> rl_time e \<and> clocked (rl_time e) es"

section \<open>The bound\<close>

lemma expired_iff: "w \<le> saturating_sub n s \<longleftrightarrow> unat w \<le> unat n - unat s"
  by (simp add: word_le_nat_alt saturating_sub_unat)

text \<open>
  How many more calls of a key can be admitted in \<open>[t, t + width)\<close>, given its window and
  that no event is earlier than \<open>lo\<close>.
\<close>

fun rl_budget :: "nat \<Rightarrow> nat \<Rightarrow> nat \<Rightarrow> nat \<Rightarrow> rl_window option \<Rightarrow> nat" where
  "rl_budget mx t width lo None =
     (if t + width \<le> lo then 0 else if t \<le> lo then mx else 2 * mx)"
| "rl_budget mx t width lo (Some w) =
     (if t + width \<le> lo then 0
      else if t \<le> unat (rw_start_ms w) then mx - unat (rw_count w)
      else if t \<le> lo then 2 * mx - unat (rw_count w) else 2 * mx)"

lemma count_inc:
  assumes "(c :: u32) < m"
  shows "unat (c + 1) = Suc (unat c)"
proof -
  have "unat c < unat m" using assms by (simp add: word_less_nat_alt)
  moreover have "unat m < 2 ^ 32" using unsigned_less[of m] by simp
  ultimately show ?thesis by (simp add: unat_word_ariths)
qed

definition rl_wf :: "rate_limiter \<Rightarrow> bool" where
  "rl_wf l \<longleftrightarrow> hm_wf (rl_windows l) \<and>
     (\<forall>k w. hm_get (rl_windows l) k = Some w \<longrightarrow> unat (rw_count w) \<le> unat (rl_max l))"

lemma rl_allow_wf:
  assumes "rl_wf l"
  shows "rl_wf (fst (rl_allow l k n))"
proof -
  define w where "w = (case hm_get (rl_windows l) k of
      Some w \<Rightarrow> w | None \<Rightarrow> \<lparr>rw_start_ms = n, rw_count = 0\<rparr>)"
  define v where "v = (if rl_window_ms l \<le> saturating_sub n (rw_start_ms w)
      then \<lparr>rw_start_ms = n, rw_count = 0\<rparr> else w)"
  have "unat (rw_count w) \<le> unat (rl_max l)"
    using assms by (auto simp: w_def rl_wf_def split: option.split)
  then have v: "unat (rw_count v) \<le> unat (rl_max l)"
    by (simp add: v_def)
  define u where "u = (if rl_max l \<le> rw_count v then v else v\<lparr>rw_count := rw_count v + 1\<rparr>)"
  have "unat (rw_count u) \<le> unat (rl_max l)"
    using v count_inc[of "rw_count v" "rl_max l"] by (simp add: u_def word_le_nat_alt word_less_nat_alt)
  moreover have "fst (rl_allow l k n) = l\<lparr>rl_windows := hm_insert k u (rl_windows l)\<rparr>"
    by (simp add: rl_allow_def Let_def u_def v_def w_def)
  ultimately show ?thesis
    using assms by (simp add: rl_wf_def hm_wf_insert)
qed

lemma rl_gc_wf: "rl_wf l \<Longrightarrow> rl_wf (rl_gc l n)"
  by (auto simp: rl_wf_def rl_gc_def hm_wf_retain hm_get_retain split: option.splits if_splits)

lemma rl_params [simp]:
  "rl_max (fst (rl_allow l k n)) = rl_max l" "rl_window_ms (fst (rl_allow l k n)) = rl_window_ms l"
  "rl_max (rl_gc l n) = rl_max l" "rl_window_ms (rl_gc l n) = rl_window_ms l"
  by (simp_all add: rl_allow_def rl_gc_def Let_def)

lemma rl_allow_other: "k \<noteq> key \<Longrightarrow>
    hm_get (rl_windows (fst (rl_allow l k n))) key = hm_get (rl_windows l) key"
  by (simp add: rl_allow_def Let_def)

text \<open>The budget falls with time, and each admitted call in the interval costs one.\<close>

lemma rl_budget_mono: "lo \<le> lo' \<Longrightarrow> rl_budget mx t width lo' w \<le> rl_budget mx t width lo w"
  by (cases w) auto

lemma rl_allow_budget:
  assumes "lo \<le> unat n" "width = unat (rl_window_ms l)" "mx = unat (rl_max l)" "0 < width" "rl_wf l"
  shows "(if snd (rl_allow l key n) \<and> t \<le> unat n \<and> unat n < t + width then 1 else 0) +
      rl_budget mx t width (unat n) (hm_get (rl_windows (fst (rl_allow l key n))) key)
    \<le> rl_budget mx t width lo (hm_get (rl_windows l) key)"
proof -
  have fresh: "unat (1 :: u32) = 1" by simp
  have count: "unat (rw_count w) \<le> mx" if "hm_get (rl_windows l) key = Some w" for w
    using assms(3,5) that by (simp add: rl_wf_def)
  have expired: "rl_window_ms l \<le> saturating_sub n s \<longleftrightarrow> width \<le> unat n - unat s" for s
    by (simp add: assms(2) expired_iff)
  have full: "rl_max l \<le> c \<longleftrightarrow> mx \<le> unat c" for c
    by (simp add: assms(3) word_le_nat_alt)
  show ?thesis
  proof (cases "hm_get (rl_windows l) key")
    case None
    with assms(1) show ?thesis
      by (auto simp: rl_allow_def Let_def expired full fresh)
  next
    case (Some w)
    show ?thesis
    proof (cases "rl_window_ms l \<le> saturating_sub n (rw_start_ms w)")
      case True
      with Some assms(1,4) count[OF Some] show ?thesis
        by (auto simp: rl_allow_def Let_def expired full fresh)
    next
      case False
      show ?thesis
      proof (cases "rl_max l \<le> rw_count w")
        case True
        with Some False assms(1) show ?thesis
          by (auto simp: rl_allow_def Let_def)
      next
        case less: False
        then have "rw_count w < rl_max l" by simp
        then have "unat (rw_count w + 1) = Suc (unat (rw_count w))" by (rule count_inc)
        moreover have "unat (rw_count w) < mx" using less full[of "rw_count w"] by simp
        ultimately
        show ?thesis using Some False less assms(1) by (auto simp: rl_allow_def Let_def)
      qed
    qed
  qed
qed

lemma rl_gc_budget:
  assumes "lo \<le> unat n" "width = unat (rl_window_ms l)" "mx = unat (rl_max l)" "0 < width" "rl_wf l"
  shows "rl_budget mx t width (unat n) (hm_get (rl_windows (rl_gc l n)) key)
    \<le> rl_budget mx t width lo (hm_get (rl_windows l) key)"
proof (cases "hm_get (rl_windows l) key")
  case None
  with assms(1,5) show ?thesis by (auto simp: rl_gc_def hm_get_retain rl_wf_def)
next
  case (Some w)
  have "saturating_sub n (rw_start_ms w) < rl_window_ms l \<longleftrightarrow> unat n - unat (rw_start_ms w) < width"
    by (simp add: assms(2) word_less_nat_alt saturating_sub_unat)
  moreover have "unat (rw_count w) \<le> mx" using assms(3,5) Some by (simp add: rl_wf_def)
  ultimately show ?thesis
    using Some assms(1,4,5) by (auto simp: rl_gc_def hm_get_retain rl_wf_def)
qed

lemma rl_admitted_le:
  assumes "rl_wf l" "clocked lo es" "width = unat (rl_window_ms l)" "mx = unat (rl_max l)" "0 < width"
  shows "rl_admitted key t width l es \<le> rl_budget mx t width lo (hm_get (rl_windows l) key)"
  using assms(1-4)
proof (induction es arbitrary: l lo)
  case Nil
  then show ?case by simp
next
  case (Cons e es)
  show ?case
  proof (cases e)
    case (Call k n)
    let ?l = "fst (rl_allow l k n)"
    have IH: "rl_admitted key t width ?l es \<le> rl_budget mx t width (unat n) (hm_get (rl_windows ?l) key)"
      using Cons.prems Call by (intro Cons.IH) (simp_all add: rl_allow_wf)
    show ?thesis
    proof (cases "k = key")
      case True
      have "lo \<le> unat n" using Cons.prems(2) Call by simp
      from rl_allow_budget[OF this Cons.prems(3,4) assms(5) Cons.prems(1), of key t] IH show ?thesis
        by (simp add: Call True split_beta)
    next
      case False
      have "rl_budget mx t width (unat n) (hm_get (rl_windows l) key) \<le>
          rl_budget mx t width lo (hm_get (rl_windows l) key)"
        using Cons.prems(2) Call by (intro rl_budget_mono) simp
      with IH False show ?thesis
        by (simp add: Call rl_allow_other split_beta)
    qed
  next
    case (Collect n)
    have "rl_admitted key t width (rl_gc l n) es \<le>
        rl_budget mx t width (unat n) (hm_get (rl_windows (rl_gc l n)) key)"
      using Cons.prems Collect by (intro Cons.IH) (simp_all add: rl_gc_wf)
    also have "\<dots> \<le> rl_budget mx t width lo (hm_get (rl_windows l) key)"
      using Cons.prems Collect assms(5) by (intro rl_gc_budget) simp_all
    finally show ?thesis by (simp add: Collect)
  qed
qed

section \<open>Properties\<close>

text \<open>
  Property C37. The limiter bounds every key's rate whatever the interleaving: along any
  clocked sequence of calls for any keys and of collections of stale windows, the calls of a
  key admitted in any interval as long as the window are at most twice the quota, and at most
  the quota when the interval starts no later than the first event.
\<close>

theorem rate_is_bounded:
  assumes "clocked lo es"
  shows "rl_admitted key t (unat w) (rl_new mx w) es \<le>
    (if t \<le> lo then unat mx else 2 * unat mx)"
proof (cases "unat w = 0")
  case True
  have "rl_admitted key t 0 l es = 0" for l
    by (induction key t "0 :: nat" l es rule: rl_admitted.induct) (auto split: prod.split)
  with True show ?thesis by simp
next
  case False
  have "rl_admitted key t (unat w) (rl_new mx w) es \<le>
      rl_budget (unat mx) t (unat w) lo (hm_get (rl_windows (rl_new mx w)) key)"
    using assms False by (intro rl_admitted_le) (simp_all add: rl_new_def rl_wf_def hm_wf_empty)
  also have "\<dots> \<le> (if t \<le> lo then unat mx else 2 * unat mx)"
    by (simp add: rl_new_def)
  finally show ?thesis .
qed

theorem rate_is_bounded_witness:
  "rl_admitted ''a'' 500 1000 (rl_new 1 1000)
     [Call ''a'' 0, Call ''b'' 10, Call ''a'' 900, Call ''a'' 1000, Collect 1200, Call ''a'' 1400] = 1 \<and>
   rl_admitted ''a'' 500 (unat (1000 :: u64)) (rl_new 1 1000)
     [Call ''a'' 0, Call ''b'' 10, Call ''a'' 900, Call ''a'' 1000, Collect 1200, Call ''a'' 1400] \<le> 2"
proof
  show "rl_admitted ''a'' 500 1000 (rl_new 1 1000)
     [Call ''a'' 0, Call ''b'' 10, Call ''a'' 900, Call ''a'' 1000, Collect 1200, Call ''a'' 1400] = 1"
    by code_simp
  have "clocked 0 [Call ''a'' 0, Call ''b'' 10, Call ''a'' 900, Call ''a'' 1000, Collect 1200,
      Call ''a'' 1400]" by simp
  from rate_is_bounded[OF this, of "''a''" 500 1000 1]
  show "rl_admitted ''a'' 500 (unat (1000 :: u64)) (rl_new 1 1000)
     [Call ''a'' 0, Call ''b'' 10, Call ''a'' 900, Call ''a'' 1000, Collect 1200, Call ''a'' 1400] \<le> 2"
    by simp
qed

end
