(* ===== verification/Wallet.thy ===== *)
theory Wallet
  imports Identity BTree_Map
begin

text \<open>
  Marketplace credits and installs (\<open>agentbbs-core/src/wallet.rs\<close>). Balances are 64-bit;
  \<open>credit\<close> adds with wrap-around, as the release build does.
\<close>

section \<open>Model\<close>

record wallet =
  wa_credits :: "(string, u64) btree"
  wa_installed :: "(string, string list) btree"

definition wallet_new :: wallet where
  "wallet_new = \<lparr>wa_credits = bt_empty, wa_installed = bt_empty\<rparr>"

definition wallet_credit :: "env \<Rightarrow> wallet \<Rightarrow> agent_id \<Rightarrow> u64 \<Rightarrow> wallet" where
  "wallet_credit E w agent amount =
     (let hex = to_hex E agent
      in w\<lparr>wa_credits :=
           bt_insert hex (unwrap_or 0 (bt_get (wa_credits w) hex) + amount) (wa_credits w)\<rparr>)"

definition wallet_balance :: "env \<Rightarrow> wallet \<Rightarrow> agent_id \<Rightarrow> u64" where
  "wallet_balance E w agent = unwrap_or 0 (bt_get (wa_credits w) (to_hex E agent))"

definition wallet_has :: "env \<Rightarrow> wallet \<Rightarrow> agent_id \<Rightarrow> string \<Rightarrow> bool" where
  "wallet_has E w agent sku =
     (case bt_get (wa_installed w) (to_hex E agent) of
        None \<Rightarrow> False | Some v \<Rightarrow> list_ex (\<lambda>s. s = sku) v)"

definition wallet_purchase :: "env \<Rightarrow> wallet \<Rightarrow> agent_id \<Rightarrow> string \<Rightarrow> u64 \<Rightarrow> wallet result" where
  "wallet_purchase E w agent sku price =
     (if wallet_has E w agent sku then Inr w
      else
        (let hex = to_hex E agent;
             bal = unwrap_or 0 (bt_get (wa_credits w) hex)
         in if bal < price then Inl (malformed ''wallet'' ''insufficient credits'')
            else Inr \<lparr>wa_credits = bt_insert hex (bal - price) (wa_credits w),
                      wa_installed = bt_insert hex
                        (unwrap_or [] (bt_get (wa_installed w) hex) @ [sku]) (wa_installed w)\<rparr>))"

definition wallet_installed :: "env \<Rightarrow> wallet \<Rightarrow> agent_id \<Rightarrow> string list" where
  "wallet_installed E w agent = unwrap_or [] (bt_get (wa_installed w) (to_hex E agent))"

section \<open>One agent's account\<close>

definition wallet_wf :: "wallet \<Rightarrow> bool" where
  "wallet_wf w \<longleftrightarrow> bt_wf (wa_credits w) \<and> bt_wf (wa_installed w)"

lemma wallet_wf_new: "wallet_wf wallet_new"
  by (simp add: wallet_wf_def wallet_new_def bt_simps)

lemma wallet_wf_credit: "wallet_wf w \<Longrightarrow> wallet_wf (wallet_credit E w a n)"
  by (simp add: wallet_wf_def wallet_credit_def Let_def bt_simps)

lemma wallet_wf_purchase: "wallet_wf w \<Longrightarrow> wallet_purchase E w a s p = Inr w' \<Longrightarrow> wallet_wf w'"
  by (auto simp: wallet_wf_def wallet_purchase_def Let_def bt_simps split: if_splits)

lemma wallet_has_iff: "wallet_has E w a s \<longleftrightarrow> s \<in> set (wallet_installed E w a)"
  by (auto simp: wallet_has_def wallet_installed_def unwrap_or_def list_ex_iff split: option.splits)

lemma credit_account:
  assumes "hex_ok E" "wallet_wf w"
  shows "wallet_balance E (wallet_credit E w b n) a =
      (if a = b then wallet_balance E w a + n else wallet_balance E w a)"
    and "wallet_installed E (wallet_credit E w b n) a = wallet_installed E w a"
  using assms
  by (simp_all add: wallet_balance_def wallet_installed_def wallet_credit_def Let_def
      wallet_wf_def bt_simps to_hex_inj unwrap_or_def)

lemma purchase_account:
  assumes "hex_ok E" "wallet_wf w" "wallet_purchase E w b s p = Inr w'"
  shows "wallet_balance E w' a =
      (if a = b \<and> \<not> wallet_has E w b s then wallet_balance E w a - p else wallet_balance E w a)"
    and "wallet_installed E w' a =
      wallet_installed E w a @ (if a = b \<and> \<not> wallet_has E w b s then [s] else [])"
    and "wallet_has E w b s \<or> p \<le> wallet_balance E w b"
  using assms
  by (auto simp: wallet_balance_def wallet_installed_def wallet_purchase_def Let_def
      wallet_wf_def bt_simps to_hex_inj unwrap_or_def split: if_splits)

datatype wallet_op = Credit agent_id u64 | Purchase agent_id string u64

fun wallet_step :: "env \<Rightarrow> wallet \<Rightarrow> wallet_op \<Rightarrow> wallet" where
  "wallet_step E w (Credit a n) = wallet_credit E w a n"
| "wallet_step E w (Purchase a s p) = attempt (\<lambda>w _. wallet_purchase E w a s p) w ()"

fun credited :: "agent_id \<Rightarrow> wallet_op list \<Rightarrow> nat" where
  "credited a [] = 0"
| "credited a (Credit b n # ops) = (if a = b then unat n else 0) + credited a ops"
| "credited a (Purchase b s p # ops) = credited a ops"

text \<open>What an agent paid: one receipt per installed sku, together with the balance all credits.\<close>

definition account :: "env \<Rightarrow> wallet \<Rightarrow> agent_id \<Rightarrow> (string \<times> u64) list \<Rightarrow> nat \<Rightarrow> bool" where
  "account E w a receipts paid_in \<longleftrightarrow>
     wallet_installed E w a = map fst receipts \<and> distinct (map fst receipts) \<and>
     unat (wallet_balance E w a) + (\<Sum>r\<leftarrow>receipts. unat (snd r)) = paid_in"

lemma account_step:
  assumes "hex_ok E" "wallet_wf w" "account E w a rs paid_in" "paid_in + credited a [q] < 2 ^ 64"
  shows "\<exists>rs'. account E (wallet_step E w q) a (rs @ rs') (paid_in + credited a [q]) \<and>
    set rs' \<subseteq> {(s, p). Purchase a s p = q}"
proof (cases q)
  case (Credit b n)
  have "unat (wallet_balance E w a + n) = unat (wallet_balance E w a) + unat n" if "a = b"
    using assms(3,4) that by (intro unat_add_lem[THEN iffD1]) (simp add: account_def Credit)
  with assms(3) Credit show ?thesis
    by (intro exI[of _ "[]"], cases "a = b")
       (simp_all add: account_def credit_account[OF assms(1,2)])
next
  case (Purchase b s p)
  show ?thesis
  proof (cases "wallet_purchase E w b s p")
    case (Inl e)
    with assms(3) Purchase show ?thesis by (intro exI[of _ "[]"]) (simp add: attempt_def)
  next
    case (Inr w')
    note acc = purchase_account[OF assms(1,2) Inr]
    show ?thesis
    proof (cases "a = b \<and> \<not> wallet_has E w b s")
      case True
      then have "unat (wallet_balance E w a - p) = unat (wallet_balance E w a) - unat p"
        and "unat p \<le> unat (wallet_balance E w a)"
        using acc(3) by (simp_all add: unat_sub word_le_nat_alt)
      with True assms(3) Purchase Inr acc(1,2) show ?thesis
        by (intro exI[of _ "[(s, p)]"]) (auto simp: account_def attempt_def wallet_has_iff)
    next
      case False
      with assms(3) Purchase Inr acc(1,2) show ?thesis
        by (intro exI[of _ "[]"]) (auto simp: account_def attempt_def)
    qed
  qed
qed

lemma wallet_wf_step: "wallet_wf w \<Longrightarrow> wallet_wf (wallet_step E w q)"
  by (cases q) (auto simp: wallet_wf_credit attempt_def intro: wallet_wf_purchase split: sum.splits)

lemma credited_Cons: "credited a (q # ops) = credited a [q] + credited a ops"
  by (cases q) simp_all

lemma account_run:
  assumes "hex_ok E" "wallet_wf w" "account E w a rs paid_in" "paid_in + credited a ops < 2 ^ 64"
  shows "\<exists>rs'. account E (foldl (wallet_step E) w ops) a (rs @ rs') (paid_in + credited a ops) \<and>
    set rs' \<subseteq> {(s, p). Purchase a s p \<in> set ops}"
  using assms(2-)
proof (induction ops arbitrary: w rs paid_in)
  case Nil
  then show ?case by (intro exI[of _ "[]"]) simp
next
  case (Cons q ops)
  have "paid_in + credited a [q] < 2 ^ 64" using Cons.prems(3) credited_Cons[of a q ops] by simp
  from account_step[OF assms(1) Cons.prems(1,2) this]
  obtain r where r: "account E (wallet_step E w q) a (rs @ r) (paid_in + credited a [q])"
    "set r \<subseteq> {(s, p). Purchase a s p = q}" by (elim exE conjE)
  have "paid_in + credited a [q] + credited a ops < 2 ^ 64"
    using Cons.prems(3) credited_Cons[of a q ops] by simp
  from Cons.IH[OF wallet_wf_step[OF Cons.prems(1)] r(1) this]
  obtain r' where "account E (foldl (wallet_step E) (wallet_step E w q) ops) a ((rs @ r) @ r')
      (paid_in + credited a [q] + credited a ops)" "set r' \<subseteq> {(s, p). Purchase a s p \<in> set ops}"
    by (elim exE conjE)
  with r(2) show ?case
    by (intro exI[of _ "r @ r'"]) (auto simp: credited_Cons[of a q ops] add.assoc)
qed

section \<open>Properties\<close>

text \<open>
  Property C40. The ledger conserves credits and never charges twice: after any credits and
  purchases of any agents, as long as an agent's credits fit 64 bits, what it holds is one
  receipt per installed sku, each the price of one of its own purchases, and its balance with
  the receipts adds up to what it was credited.
\<close>

theorem wallet_conserves_credits:
  assumes "hex_ok E" "credited a ops < 2 ^ 64"
  shows "let w = foldl (wallet_step E) wallet_new ops in
    \<exists>receipts. distinct (map fst receipts) \<and> wallet_installed E w a = map fst receipts \<and>
      set receipts \<subseteq> {(s, p). Purchase a s p \<in> set ops} \<and>
      unat (wallet_balance E w a) + (\<Sum>r\<leftarrow>receipts. unat (snd r)) = credited a ops"
proof -
  have "account E wallet_new a [] 0"
    by (simp add: account_def wallet_installed_def wallet_balance_def wallet_new_def unwrap_or_def
        bt.get_empty)
  from account_run[OF assms(1) wallet_wf_new this] assms(2)
  obtain receipts where "account E (foldl (wallet_step E) wallet_new ops) a receipts (credited a ops)"
    "set receipts \<subseteq> {(s, p). Purchase a s p \<in> set ops}" by auto
  then show ?thesis
    unfolding Let_def account_def by (intro exI[of _ receipts]) simp
qed

definition demo_wallet_ops :: "wallet_op list" where
  "demo_wallet_ops = [Credit (ident (demo_id 1)) 50, Purchase (ident (demo_id 1)) ''nord'' 30,
     Purchase (ident (demo_id 1)) ''nord'' 30, Purchase (ident (demo_id 1)) ''echo'' 25]"

theorem wallet_conserves_credits_witness:
  "credited (ident (demo_id 1)) demo_wallet_ops = 50 \<and>
   (\<exists>receipts :: (string \<times> u64) list. unat (wallet_balance demo_env
        (foldl (wallet_step demo_env) wallet_new demo_wallet_ops) (ident (demo_id 1))) +
      (\<Sum>r\<leftarrow>receipts. unat (snd r)) = 50 \<and> distinct (map fst receipts))"
proof -
  have paid_in: "credited (ident (demo_id 1)) demo_wallet_ops = 50"
    by (simp add: demo_wallet_ops_def)
  then have "credited (ident (demo_id 1)) demo_wallet_ops < 2 ^ 64" by simp
  from wallet_conserves_credits[OF demo_hex_ok this] paid_in show ?thesis
    unfolding Let_def by auto
qed

end
