(* ===== verification/Playbook.thy ===== *)
theory Playbook
  imports Approval
begin

text \<open>
  Playbooks (\<open>agentbbs-core/src/playbook.rs\<close>): content-addressed workflow definitions, their
  validation, and the run that walks the steps and parks at approval gates.
\<close>

section \<open>Definitions of workflows\<close>

datatype step_kind =
    AgentTask string string  \<comment> \<open>agent, instruction\<close>
  | ApprovalGate string  \<comment> \<open>summary\<close>
  | Tool string

abbreviation unit_sep :: char where
  "unit_sep \<equiv> CHR 0x1F"

fun tag_bytes :: "step_kind \<Rightarrow> bytes" where
  "tag_bytes (AgentTask agent instruction) =
     ''agent_task'' @ unit_sep # agent @ unit_sep # instruction"
| "tag_bytes (ApprovalGate summary) = ''approval_gate'' @ unit_sep # summary"
| "tag_bytes (Tool tool) = ''tool'' @ unit_sep # tool"

fun kind_validate :: "step_kind \<Rightarrow> unit result" where
  "kind_validate k =
     (let ok = (case k of
           AgentTask agent instruction \<Rightarrow> \<not> blank agent \<and> \<not> blank instruction
         | ApprovalGate summary \<Rightarrow> \<not> blank summary
         | Tool tool \<Rightarrow> \<not> blank tool)
      in if ok then Inr ()
         else Inl (malformed ''playbook'' ''step has an empty required field''))"

record playbook_step =
  ps_id :: string
  ps_kind :: step_kind

text \<open>The em dash of the summaries is the three bytes E2 80 94.\<close>

definition em_dash :: bytes where
  "em_dash = [CHR 0x20, CHR 0xE2, CHR 0x80, CHR 0x94, CHR 0x20]"

definition progress_summary :: "playbook_step \<Rightarrow> string" where
  "progress_summary s = (case ps_kind s of
       AgentTask agent instruction \<Rightarrow> ''agent task'' @ em_dash @ ''@'' @ agent @ '': '' @ instruction
     | ApprovalGate summary \<Rightarrow> ''approval gate'' @ em_dash @ summary
     | Tool tool \<Rightarrow> ''tool'' @ em_dash @ tool)"

record playbook =
  pb_id :: string
  pb_name :: string
  pb_version :: string
  pb_trigger :: string
  pb_steps :: "playbook_step list"

definition step_frame :: "playbook_step \<Rightarrow> bytes" where
  "step_frame s = len_prefix (ps_id s) @ [unit_sep] @ frame (tag_bytes (ps_kind s))"

definition playbook_bytes :: "string \<Rightarrow> string \<Rightarrow> string \<Rightarrow> playbook_step list \<Rightarrow> bytes" where
  "playbook_bytes name version trigger steps =
     ''agentbbs.playbook.v1'' @ [newline] @ frames [name, version, trigger] @
       concat (map step_frame steps)"

definition playbook_new ::
  "env \<Rightarrow> string \<Rightarrow> string \<Rightarrow> string \<Rightarrow> playbook_step list \<Rightarrow> playbook" where
  "playbook_new E name version trigger steps =
     \<lparr>pb_id = blake3_hex E (playbook_bytes name version trigger steps), pb_name = name,
      pb_version = version, pb_trigger = trigger, pb_steps = steps\<rparr>"

fun validate_steps :: "string set \<Rightarrow> playbook_step list \<Rightarrow> unit result" where
  "validate_steps seen [] = Inr ()"
| "validate_steps seen (s # ss) =
     (if blank (ps_id s) \<or> ps_id s \<in> seen
      then Inl (malformed ''playbook'' ''step ids must be non-empty and unique'')
      else rbind (kind_validate (ps_kind s)) (\<lambda>_. validate_steps (insert (ps_id s) seen) ss))"

definition playbook_validate :: "playbook \<Rightarrow> unit result" where
  "playbook_validate p =
     (if blank (pb_name p) \<or> blank (pb_version p)
      then Inl (malformed ''playbook'' ''name and version are required'')
      else if pb_steps p = []
      then Inl (malformed ''playbook'' ''a playbook needs at least one step'')
      else validate_steps {} (pb_steps p))"

section \<open>Runs\<close>

datatype run_status = Running | AwaitingApproval | Completed | Failed

record playbook_run =
  run_playbook :: playbook
  run_cursor :: nat
  run_status :: run_status

definition run_start :: "playbook \<Rightarrow> playbook_run result" where
  "run_start p = rbind (playbook_validate p)
     (\<lambda>_. Inr \<lparr>run_playbook = p, run_cursor = 0, run_status = Running\<rparr>)"

definition run_current :: "playbook_run \<Rightarrow> playbook_step option" where
  "run_current r = (if run_cursor r < length (pb_steps (run_playbook r))
     then Some (pb_steps (run_playbook r) ! run_cursor r) else None)"

definition steps_completed :: "playbook_run \<Rightarrow> nat" where
  "steps_completed r = run_cursor r"

fun is_gate :: "step_kind \<Rightarrow> bool" where
  "is_gate (ApprovalGate _) = True"
| "is_gate _ = False"

definition action_id :: "playbook \<Rightarrow> playbook_step \<Rightarrow> string" where
  "action_id p s = ''playbook:'' @ pb_id p @ '':'' @ ps_id s"

definition gate_action_id :: "playbook_run \<Rightarrow> string option" where
  "gate_action_id r = (case run_current r of
       None \<Rightarrow> None
     | Some s \<Rightarrow> if is_gate (ps_kind s) then Some (action_id (run_playbook r) s) else None)"

text \<open>\<open>advance\<close>: the unwrap of the action id is reached at a gate only.\<close>

definition advance ::
  "env \<Rightarrow> playbook_run \<Rightarrow> approval_gate \<Rightarrow> agent_id list \<Rightarrow> playbook_run \<times> run_status" where
  "advance E r gate allowed =
     (if run_status r \<in> {Completed, Failed} then (r, run_status r)
      else if (case run_current r of None \<Rightarrow> False | Some s \<Rightarrow> is_gate (ps_kind s)) \<and>
              \<not> is_authorized E gate (the (gate_action_id r)) allowed
      then (r\<lparr>run_status := AwaitingApproval\<rparr>, AwaitingApproval)
      else
        (let cursor = run_cursor r + 1;
             status = (if length (pb_steps (run_playbook r)) \<le> cursor then Completed else Running)
         in (r\<lparr>run_cursor := cursor, run_status := status\<rparr>, status)))"

section \<open>Validation\<close>

lemma validate_steps_iff:
  "validate_steps seen ss = Inr () \<longleftrightarrow>
    distinct (map ps_id ss) \<and> ps_id ` set ss \<inter> seen = {} \<and>
    (\<forall>s \<in> set ss. \<not> blank (ps_id s) \<and> kind_validate (ps_kind s) = Inr ())"
proof (induction ss arbitrary: seen)
  case Nil
  then show ?case by simp
next
  case (Cons s ss)
  then show ?case by (auto simp: result_simps simp del: kind_validate.simps)
qed

lemma playbook_validate_iff:
  "playbook_validate p = Inr () \<longleftrightarrow>
    \<not> blank (pb_name p) \<and> \<not> blank (pb_version p) \<and> pb_steps p \<noteq> [] \<and>
    distinct (map ps_id (pb_steps p)) \<and>
    (\<forall>s \<in> set (pb_steps p). \<not> blank (ps_id s) \<and> kind_validate (ps_kind s) = Inr ())"
  by (auto simp: playbook_validate_def validate_steps_iff simp del: kind_validate.simps)

section \<open>The content address\<close>

lemma step_frame_append_inj:
  "step_frame s @ x = step_frame t @ y \<longleftrightarrow>
    ps_id s = ps_id t \<and> tag_bytes (ps_kind s) = tag_bytes (ps_kind t) \<and> x = y"
  by (auto simp: step_frame_def frame_append_inj len_prefix_append_inj)

lemma step_frames_inj:
  "concat (map step_frame ss) = concat (map step_frame ts) \<longleftrightarrow>
    map (\<lambda>s. (ps_id s, tag_bytes (ps_kind s))) ss = map (\<lambda>s. (ps_id s, tag_bytes (ps_kind s))) ts"
proof (induction ss arbitrary: ts)
  case Nil
  then show ?case by (cases ts) (auto simp: step_frame_def len_prefix_def)
next
  case (Cons s ss)
  show ?case
  proof (cases ts)
    case Nil
    then show ?thesis by (simp add: step_frame_def len_prefix_def)
  next
    case (Cons t us)
    then show ?thesis using Cons.IH[of us] by (simp add: step_frame_append_inj)
  qed
qed

lemma playbook_bytes_inj:
  "playbook_bytes n v t ss = playbook_bytes n' v' t' ss' \<longleftrightarrow> n = n' \<and> v = v' \<and> t = t' \<and>
    map (\<lambda>s. (ps_id s, tag_bytes (ps_kind s))) ss = map (\<lambda>s. (ps_id s, tag_bytes (ps_kind s))) ss'"
  by (simp add: playbook_bytes_def frame_append_inj step_frames_inj)

fun clean_agent :: "step_kind \<Rightarrow> bool" where
  "clean_agent (AgentTask agent instruction) \<longleftrightarrow> unit_sep \<notin> set agent"
| "clean_agent _ \<longleftrightarrow> True"

lemma tag_bytes_inj:
  "clean_agent k \<Longrightarrow> clean_agent l \<Longrightarrow> tag_bytes k = tag_bytes l \<longleftrightarrow> k = l"
  by (cases k; cases l) (auto simp: split_at_sep_iff)

lemma steps_content_inj:
  fixes ss ts :: "playbook_step list"
  assumes "list_all (\<lambda>s. clean_agent (ps_kind s)) ss" "list_all (\<lambda>s. clean_agent (ps_kind s)) ts"
    and "map (\<lambda>s. (ps_id s, tag_bytes (ps_kind s))) ss = map (\<lambda>s. (ps_id s, tag_bytes (ps_kind s))) ts"
  shows "ss = ts"
proof (rule nth_equalityI)
  show len: "length ss = length ts" using map_eq_imp_length_eq[OF assms(3)] .
  fix i assume i: "i < length ss"
  then have "ps_id (ss ! i) = ps_id (ts ! i)" "tag_bytes (ps_kind (ss ! i)) = tag_bytes (ps_kind (ts ! i))"
    using assms(3) len by (auto simp: list_eq_iff_nth_eq)
  moreover have "clean_agent (ps_kind (ss ! i))" "clean_agent (ps_kind (ts ! i))"
    using assms(1,2) i len by (simp_all add: list_all_length)
  ultimately show "ss ! i = ts ! i"
    by (intro playbook_step.equality) (simp_all add: tag_bytes_inj)
qed

section \<open>What a run guarantees\<close>

definition run_ok :: "playbook_run \<Rightarrow> bool" where
  "run_ok r \<longleftrightarrow> run_cursor r \<le> length (pb_steps (run_playbook r)) \<and>
     run_status r \<noteq> Failed \<and> pb_steps (run_playbook r) \<noteq> [] \<and>
     (run_status r = Completed \<longleftrightarrow> run_cursor r = length (pb_steps (run_playbook r)))"

lemma run_start_ok:
  assumes "run_start p = Inr r"
  shows "run_ok r \<and> run_playbook r = p \<and> run_cursor r = 0"
  using assms by (auto simp: run_start_def run_ok_def result_simps playbook_validate_iff)

lemma run_ok_current:
  assumes "run_ok r" "run_status r \<noteq> Completed"
  shows "run_current r = Some (pb_steps (run_playbook r) ! run_cursor r)"
  using assms by (auto simp: run_ok_def run_current_def)

text \<open>One call: the run is finished, it parks at an unauthorized gate, or it moves one step.\<close>

lemma advance_cases:
  assumes "run_ok r"
  obtains (finished) "run_status r = Completed" "advance E r gate allowed = (r, Completed)"
  | (parked) "run_status r \<noteq> Completed" "is_gate (ps_kind (pb_steps (run_playbook r) ! run_cursor r))"
      "\<not> is_authorized E gate
         (action_id (run_playbook r) (pb_steps (run_playbook r) ! run_cursor r)) allowed"
      "advance E r gate allowed = (r\<lparr>run_status := AwaitingApproval\<rparr>, AwaitingApproval)"
  | (moved) "run_status r \<noteq> Completed"
      "is_gate (ps_kind (pb_steps (run_playbook r) ! run_cursor r)) \<Longrightarrow> is_authorized E gate
         (action_id (run_playbook r) (pb_steps (run_playbook r) ! run_cursor r)) allowed"
      "run_ok (fst (advance E r gate allowed))"
      "run_playbook (fst (advance E r gate allowed)) = run_playbook r"
      "run_cursor (fst (advance E r gate allowed)) = Suc (run_cursor r)"
proof (cases "run_status r = Completed")
  case True
  then show ?thesis using finished by (simp add: advance_def)
next
  case False
  let ?s = "pb_steps (run_playbook r) ! run_cursor r"
  note cur = run_ok_current[OF assms False]
  have live: "run_status r \<notin> {Completed, Failed}" using assms False by (simp add: run_ok_def)
  have lt: "run_cursor r < length (pb_steps (run_playbook r))"
    using assms False by (auto simp: run_ok_def)
  show ?thesis
  proof (cases "is_gate (ps_kind ?s) \<and> \<not> is_authorized E gate (action_id (run_playbook r) ?s) allowed")
    case True
    with cur live show ?thesis
      by (intro parked) (auto simp: advance_def gate_action_id_def)
  next
    case blocked: False
    then have "advance E r gate allowed =
       (let cursor = run_cursor r + 1;
            status = (if length (pb_steps (run_playbook r)) \<le> cursor then Completed else Running)
        in (r\<lparr>run_cursor := cursor, run_status := status\<rparr>, status))"
      using cur live by (auto simp: advance_def gate_action_id_def)
    with blocked False lt assms show ?thesis
      by (intro moved) (auto simp: run_ok_def Let_def)
  qed
qed

definition drive :: "env \<Rightarrow> playbook_run \<Rightarrow> (approval_gate \<times> agent_id list) list \<Rightarrow> playbook_run" where
  "drive E = foldl (\<lambda>r c. fst (advance E r (fst c) (snd c)))"

lemma drive_simps [simp]:
  "drive E r [] = r" "drive E r (c # cs) = drive E (fst (advance E r (fst c) (snd c))) cs"
  by (simp_all add: drive_def)

lemma advance_ok:
  "run_ok r \<Longrightarrow> run_ok (fst (advance E r g al)) \<and> run_playbook (fst (advance E r g al)) = run_playbook r"
  by (frule advance_cases[of r E g al]) (auto simp: run_ok_def)

definition gate_at :: "playbook \<Rightarrow> nat \<Rightarrow> bool" where
  "gate_at p i \<longleftrightarrow> is_gate (ps_kind (pb_steps p ! i))"

text \<open>A decision among those offered to a gate that counts.\<close>

definition cast_vote ::
  "env \<Rightarrow> signed_decision list \<Rightarrow> string \<Rightarrow> agent_id list \<Rightarrow> verdict \<Rightarrow> bool" where
  "cast_vote E ds aid allowed v \<longleftrightarrow> (\<exists>d \<in> set ds. decision_verify E d = Inr () \<and>
     sd_action_id d = aid \<and> sd_decider d \<in> set allowed \<and> sd_verdict d = v)"

lemma authorized_cast:
  "hex_ok E \<Longrightarrow> is_authorized E (attempts (gate_record E) gate_new ds) aid allowed \<longleftrightarrow>
    cast_vote E ds aid allowed Approve \<and> \<not> cast_vote E ds aid allowed Reject"
  by (auto simp: approval_simps gate_new_def cast_vote_def)

definition approved_at ::
  "env \<Rightarrow> playbook \<Rightarrow> nat \<Rightarrow> approval_gate \<times> agent_id list \<Rightarrow> bool" where
  "approved_at E p i c \<longleftrightarrow> is_authorized E (fst c) (action_id p (pb_steps p ! i)) (snd c)"

lemma drive_ok:
  "run_ok r \<Longrightarrow> run_ok (drive E r cs) \<and> run_playbook (drive E r cs) = run_playbook r"
  by (induction cs arbitrary: r) (simp_all add: advance_ok)

lemma advance_gates:
  assumes "run_ok r" "run_playbook r = p" "gate_at p i" "i < run_cursor (fst (advance E r g al))"
  shows "i < run_cursor r \<or> approved_at E p i (g, al)"
  using assms(1)
proof (cases rule: advance_cases[of r E g al])
  case moved
  with assms show ?thesis
    by (cases "i = run_cursor r") (auto simp: gate_at_def approved_at_def)
qed (use assms in simp_all)

lemma drive_gates:
  assumes "run_ok r" "run_playbook r = p" "gate_at p i"
  shows "run_ok (drive E r cs) \<and> run_playbook (drive E r cs) = p \<and>
    (i < run_cursor (drive E r cs) \<longrightarrow> i < run_cursor r \<or> (\<exists>c \<in> set cs. approved_at E p i c))"
  using assms(1,2)
proof (induction cs arbitrary: r)
  case Nil
  then show ?case by simp
next
  case (Cons c cs)
  let ?r = "fst (advance E r (fst c) (snd c))"
  have "run_ok ?r" "run_playbook ?r = p" using Cons.prems advance_ok by simp_all
  from Cons.IH[OF this] show ?case
    using advance_gates[OF Cons.prems assms(3), of E "fst c" "snd c"] by auto
qed

text \<open>With every gate approved, each call moves the run one step until it is complete.\<close>

lemma drive_approved:
  assumes "run_ok r" "run_playbook r = p"
    and "\<forall>c \<in> set cs. \<forall>i < length (pb_steps p). gate_at p i \<longrightarrow> approved_at E p i c"
  shows "run_cursor (drive E r cs) = min (length (pb_steps p)) (run_cursor r + length cs)"
  using assms
proof (induction cs arbitrary: r)
  case Nil
  then show ?case by (simp add: run_ok_def)
next
  case (Cons c cs)
  let ?r = "fst (advance E r (fst c) (snd c))"
  have ok: "run_ok ?r" "run_playbook ?r = p" using Cons.prems(1,2) advance_ok by simp_all
  have "run_cursor ?r = min (length (pb_steps p)) (Suc (run_cursor r))"
    using Cons.prems(1)
  proof (cases rule: advance_cases[of r E "fst c" "snd c"])
    case finished
    with Cons.prems(1,2) show ?thesis by (simp add: run_ok_def)
  next
    case parked
    then have "run_cursor r < length (pb_steps p)" "gate_at p (run_cursor r)"
      "\<not> approved_at E p (run_cursor r) c"
      using Cons.prems(1,2) by (auto simp: run_ok_def gate_at_def approved_at_def)
    with Cons.prems(3) show ?thesis by simp
  next
    case moved
    with ok show ?thesis by (simp add: run_ok_def)
  qed
  with Cons.IH[OF ok] Cons.prems(3) show ?case by (simp add: min_def)
qed

section \<open>Properties\<close>

text \<open>
  Property C18. An approval gate cannot be bypassed: however a run over a validated playbook is
  advanced, with whatever gates fed by whatever decisions, it never moves past a gate step
  unless at some call a verified decision of a decider allowed at that call approved exactly
  this playbook and step, and the run is completed just when every step is behind it.
\<close>

theorem gates_never_bypassed:
  assumes "hex_ok E" "run_start p = Inr r0"
    and "r = drive E r0 (map (\<lambda>c. (attempts (gate_record E) gate_new (fst c), snd c)) calls)"
  shows "run_playbook r = p \<and> run_cursor r \<le> length (pb_steps p) \<and>
    (run_status r = Completed \<longleftrightarrow> run_cursor r = length (pb_steps p)) \<and>
    (\<forall>i < run_cursor r. is_gate (ps_kind (pb_steps p ! i)) \<longrightarrow>
      (\<exists>c \<in> set calls. cast_vote E (fst c) (action_id p (pb_steps p ! i)) (snd c) Approve \<and>
        \<not> cast_vote E (fst c) (action_id p (pb_steps p ! i)) (snd c) Reject))"
proof -
  have start: "run_ok r0" "run_playbook r0 = p" "run_cursor r0 = 0"
    using run_start_ok[OF assms(2)] by simp_all
  let ?gate = "\<lambda>c. (attempts (gate_record E) gate_new (fst c), snd c)"
  have "\<exists>c \<in> set calls. cast_vote E (fst c) (action_id p (pb_steps p ! i)) (snd c) Approve \<and>
      \<not> cast_vote E (fst c) (action_id p (pb_steps p ! i)) (snd c) Reject"
    if i: "i < run_cursor r" "is_gate (ps_kind (pb_steps p ! i))" for i
  proof -
    have "\<exists>c \<in> set (map ?gate calls). approved_at E p i c"
      using drive_gates[OF start(1,2), of i E "map ?gate calls"] i start(3)
      by (simp add: assms(3) gate_at_def)
    then obtain c where "c \<in> set calls" "approved_at E p i (?gate c)" by auto
    then show ?thesis
      by (intro bexI[of _ c]) (simp_all add: approved_at_def authorized_cast[OF assms(1)])
  qed
  moreover have "run_ok r \<and> run_playbook r = p"
    using drive_ok[OF start(1), of E "map ?gate calls"] start(2) by (simp add: assms(3))
  ultimately show ?thesis by (auto simp: run_ok_def)
qed

definition demo_steps :: "playbook_step list" where
  "demo_steps = [\<lparr>ps_id = ''research'', ps_kind = AgentTask ''claude'' ''enrich''\<rparr>,
     \<lparr>ps_id = ''spend'', ps_kind = ApprovalGate ''approve''\<rparr>]"

definition demo_playbook :: playbook where
  "demo_playbook = playbook_new demo_env ''triage'' ''1'' ''manual'' demo_steps"

definition demo_run :: playbook_run where
  "demo_run = \<lparr>run_playbook = demo_playbook, run_cursor = 0, run_status = Running\<rparr>"

lemma demo_steps_validate: "validate_steps {} demo_steps = Inr ()"
  by code_simp

lemma demo_names: "\<not> blank ''triage''" "\<not> blank ''1''"
  by code_simp+

lemma demo_run_start: "run_start demo_playbook = Inr demo_run"
  by (simp add: run_start_def playbook_validate_def demo_playbook_def playbook_new_def demo_names
      demo_steps_validate demo_run_def) (simp add: demo_steps_def)

theorem gates_never_bypassed_witness:
  "run_start demo_playbook = Inr demo_run \<and>
   run_status (drive demo_env demo_run [(gate_new, []), (gate_new, [ident (demo_id 1)])]) \<noteq> Completed"
proof
  let ?calls = "[([], []), ([], [ident (demo_id 1)])]"
  let ?r = "drive demo_env demo_run
    (map (\<lambda>c. (attempts (gate_record demo_env) gate_new (fst c), snd c)) ?calls)"
  have steps: "pb_steps demo_playbook = demo_steps" "length demo_steps = 2"
      "is_gate (ps_kind (demo_steps ! 1))"
    by (simp_all add: demo_playbook_def playbook_new_def demo_steps_def)
  have "\<not> cast_vote demo_env (fst c) aid allowed Approve" if "c \<in> set ?calls" for c aid allowed
    using that by (auto simp: cast_vote_def)
  then have no_votes: "\<not> (\<exists>c \<in> set ?calls. cast_vote demo_env (fst c) aid (snd c) Approve \<and>
      \<not> cast_vote demo_env (fst c) aid (snd c) Reject)" for aid
    by blast
  note bound = gates_never_bypassed[OF demo_hex_ok demo_run_start refl, of ?calls]
  have "\<not> 1 < run_cursor ?r"
  proof
    assume "1 < run_cursor ?r"
    from bound[THEN conjunct2, THEN conjunct2, THEN conjunct2, rule_format, OF this] steps(3)
    show False unfolding steps(1) using no_votes by blast
  qed
  moreover have "run_status ?r = Completed \<longleftrightarrow> run_cursor ?r = 2"
    using bound[THEN conjunct2, THEN conjunct2, THEN conjunct1] steps(1,2) by simp
  ultimately have "run_status ?r \<noteq> Completed" by simp
  then show "run_status (drive demo_env demo_run
      [(gate_new, []), (gate_new, [ident (demo_id 1)])]) \<noteq> Completed"
    by simp
qed (rule demo_run_start)

text \<open>
  A run with every gate approved finishes: when at each call the gates of the
  playbook are authorized, each call completes one step, and after as many calls as there are
  steps the run is completed and stays so.
\<close>

theorem approved_run_completes:
  assumes "run_start p = Inr r0" "length (pb_steps p) \<le> length calls"
    and "\<forall>c \<in> set calls. \<forall>s \<in> set (pb_steps p). is_gate (ps_kind s) \<longrightarrow>
      is_authorized E (fst c) (action_id p s) (snd c)"
  shows "run_status (drive E r0 calls) = Completed \<and>
    steps_completed (drive E r0 calls) = length (pb_steps p) \<and> run_current (drive E r0 calls) = None"
proof -
  have start: "run_ok r0" "run_playbook r0 = p" "run_cursor r0 = 0"
    using run_start_ok[OF assms(1)] by simp_all
  have "run_cursor (drive E r0 calls) = length (pb_steps p)"
    using drive_approved[OF start(1,2), of calls E] assms(2,3) start(3)
    by (auto simp: gate_at_def approved_at_def)
  then show ?thesis
    using drive_ok[OF start(1), of E calls] start(2)
    by (auto simp: run_ok_def steps_completed_def run_current_def)
qed

definition demo_spend_gate :: approval_gate where
  "demo_spend_gate = \<lparr>decisions = [decision_sign demo_env (demo_id 1)
     (action_id demo_playbook (demo_steps ! 1)) Approve ''ok'' 5]\<rparr>"

theorem approved_run_completes_witness:
  "is_authorized demo_env demo_spend_gate (action_id demo_playbook (demo_steps ! 1)) [ident (demo_id 1)] \<and>
   run_status (drive demo_env demo_run
     [(demo_spend_gate, [ident (demo_id 1)]), (demo_spend_gate, [ident (demo_id 1)])]) = Completed"
proof -
  have auth: "is_authorized demo_env demo_spend_gate (action_id demo_playbook (demo_steps ! 1))
      [ident (demo_id 1)]"
    by (simp add: is_authorized_def demo_spend_gate_def decision_sign_def)
  have steps: "pb_steps demo_playbook = demo_steps" "length demo_steps = 2"
      "\<And>s. s \<in> set demo_steps \<Longrightarrow> is_gate (ps_kind s) \<Longrightarrow> s = demo_steps ! 1"
    by (auto simp: demo_playbook_def playbook_new_def demo_steps_def)
  let ?calls = "[(demo_spend_gate, [ident (demo_id 1)]), (demo_spend_gate, [ident (demo_id 1)])]"
  have "\<forall>c \<in> set ?calls. \<forall>s \<in> set (pb_steps demo_playbook). is_gate (ps_kind s) \<longrightarrow>
      is_authorized demo_env (fst c) (action_id demo_playbook s) (snd c)"
    using auth steps(1,3) by auto
  from approved_run_completes[OF demo_run_start _ this] auth show ?thesis
    by (simp only: steps(1,2)) simp
qed

text \<open>
  A playbook's id binds its definition: two playbooks with the same id have the
  same name, version, trigger and steps, or their bytes are a collision of BLAKE3, as long as
  no agent name contains the unit separator. With it, two valid playbooks with different
  steps share one id.
\<close>

theorem playbook_id_binds_definition:
  assumes "hex_ok E" "pb_id (playbook_new E n v t ss) = pb_id (playbook_new E n' v' t' ts)"
    and "list_all (\<lambda>s. clean_agent (ps_kind s)) ss" "list_all (\<lambda>s. clean_agent (ps_kind s)) ts"
  shows "(playbook_new E n v t ss = playbook_new E n' v' t' ts \<or>
      (playbook_bytes n v t ss \<noteq> playbook_bytes n' v' t' ts \<and>
       blake3 E (playbook_bytes n v t ss) = blake3 E (playbook_bytes n' v' t' ts))) \<and>
    (\<exists>xs ys. xs \<noteq> ys \<and> pb_id (playbook_new E ''n'' ''1'' ''t'' xs) =
        pb_id (playbook_new E ''n'' ''1'' ''t'' ys) \<and>
      playbook_validate (playbook_new E ''n'' ''1'' ''t'' xs) = Inr () \<and>
      playbook_validate (playbook_new E ''n'' ''1'' ''t'' ys) = Inr ())"
proof
  have "blake3 E (playbook_bytes n v t ss) = blake3 E (playbook_bytes n' v' t' ts)"
    using assms(1,2) by (simp add: playbook_new_def blake3_hex_def hex_enc_inj)
  moreover have "playbook_new E n v t ss = playbook_new E n' v' t' ts"
    if "playbook_bytes n v t ss = playbook_bytes n' v' t' ts"
    using that steps_content_inj[OF assms(3,4)] by (simp add: playbook_bytes_inj)
  ultimately show "playbook_new E n v t ss = playbook_new E n' v' t' ts \<or>
      (playbook_bytes n v t ss \<noteq> playbook_bytes n' v' t' ts \<and>
       blake3 E (playbook_bytes n v t ss) = blake3 E (playbook_bytes n' v' t' ts))" by blast
next
  let ?xs = "[\<lparr>ps_id = ''a'', ps_kind = AgentTask [CHR ''b''] [CHR ''c'', unit_sep, CHR ''d'']\<rparr>]"
  let ?ys = "[\<lparr>ps_id = ''a'', ps_kind = AgentTask [CHR ''b'', unit_sep, CHR ''c''] [CHR ''d'']\<rparr>]"
  have "validate_steps {} ?xs = Inr ()" "validate_steps {} ?ys = Inr ()"
    "\<not> blank ''n''" "\<not> blank ''1''"
    by code_simp+
  then show "\<exists>xs ys. xs \<noteq> ys \<and> pb_id (playbook_new E ''n'' ''1'' ''t'' xs) =
        pb_id (playbook_new E ''n'' ''1'' ''t'' ys) \<and>
      playbook_validate (playbook_new E ''n'' ''1'' ''t'' xs) = Inr () \<and>
      playbook_validate (playbook_new E ''n'' ''1'' ''t'' ys) = Inr ()"
    by (intro exI[of _ ?xs] exI[of _ ?ys])
       (simp add: playbook_new_def playbook_validate_def playbook_bytes_def step_frame_def
         del: validate_steps.simps blank_Nil)
qed

theorem playbook_id_binds_definition_witness:
  "pb_id demo_playbook = pb_id (playbook_new demo_env ''triage'' ''1'' ''manual'' demo_steps) \<and>
   pb_id demo_playbook \<noteq> pb_id (playbook_new demo_env ''triage'' ''2'' ''manual'' demo_steps)"
proof -
  have clean: "list_all (\<lambda>s. clean_agent (ps_kind s)) demo_steps"
    by (simp add: demo_steps_def)
  have "blake3 demo_env m = m" for m by (simp add: demo_env_def)
  then show ?thesis
    using playbook_id_binds_definition[OF demo_hex_ok _ clean clean,
        of "''triage''" "''1''" "''manual''" "''triage''" "''2''" "''manual''"]
    by (auto simp: demo_playbook_def playbook_new_def)
qed

end
