(* ===== verification/Presence.thy ===== *)
theory Presence
  imports Identity Hash_Map
begin

text \<open>
  Who is online (\<open>agentbbs-core/src/presence.rs\<close>): members that heartbeat, leave, or expire
  after a time to live. Listing iterates a hash map, whose order nothing promises: it is the
  parameter \<open>order\<close>, of which only that it permutes is assumed.
\<close>

section \<open>Model\<close>

record member =
  me_id :: agent_id
  me_handle :: string
  me_agent :: bool
  me_joined_ms :: u64
  me_last_seen_ms :: u64

record presence =
  pr_ttl_ms :: u64
  pr_members :: "(agent_id, member) hmap"

definition presence_new :: "u64 \<Rightarrow> presence" where
  "presence_new ttl_ms = \<lparr>pr_ttl_ms = ttl_ms, pr_members = hm_empty\<rparr>"

definition presence_default :: presence where
  "presence_default = presence_new 60000"

definition heartbeat :: "presence \<Rightarrow> agent_id \<Rightarrow> string \<Rightarrow> bool \<Rightarrow> u64 \<Rightarrow> presence" where
  "heartbeat p i handle is_agent now =
     p\<lparr>pr_members := hm_insert i
       (case hm_get (pr_members p) i of
          Some m \<Rightarrow> m\<lparr>me_last_seen_ms := now,
            me_handle := (if handle = [] then me_handle m else handle), me_agent := is_agent\<rparr>
        | None \<Rightarrow> \<lparr>me_id = i, me_handle = handle, me_agent = is_agent,
            me_joined_ms = now, me_last_seen_ms = now\<rparr>) (pr_members p)\<rparr>"

definition leave :: "presence \<Rightarrow> agent_id \<Rightarrow> presence" where
  "leave p i = p\<lparr>pr_members := hm_remove i (pr_members p)\<rparr>"

definition online :: "(member list \<Rightarrow> member list) \<Rightarrow> presence \<Rightarrow> u64 \<Rightarrow> member list" where
  "online order p now =
     (let live = filter (\<lambda>m. saturating_sub now (me_last_seen_ms m) < pr_ttl_ms p)
            (order (hm_values (pr_members p)))
      in sort_desc (\<lambda>m. uint (me_last_seen_ms m)) live)"

definition presence_count :: "presence \<Rightarrow> u64 \<Rightarrow> nat" where
  "presence_count p now =
     length (filter (\<lambda>m. saturating_sub now (me_last_seen_ms m) < pr_ttl_ms p)
       (hm_values (pr_members p)))"

definition presence_gc :: "presence \<Rightarrow> u64 \<Rightarrow> presence" where
  "presence_gc p now = p\<lparr>pr_members :=
     hm_retain (\<lambda>_ m. saturating_sub now (me_last_seen_ms m) < pr_ttl_ms p) (pr_members p)\<rparr>"

section \<open>The last heartbeats\<close>

datatype presence_op = Beat agent_id string bool u64 | Leave agent_id | Collect u64

fun presence_step :: "presence \<Rightarrow> presence_op \<Rightarrow> presence" where
  "presence_step p (Beat i h a n) = heartbeat p i h a n"
| "presence_step p (Leave i) = leave p i"
| "presence_step p (Collect n) = presence_gc p n"

text \<open>What the registry stands for: when each agent that has not left was last heard.\<close>

fun beat_step :: "(agent_id \<rightharpoonup> u64) \<Rightarrow> presence_op \<Rightarrow> (agent_id \<rightharpoonup> u64)" where
  "beat_step acc (Beat i h a n) = acc(i \<mapsto> n)"
| "beat_step acc (Leave i) = acc(i := None)"
| "beat_step acc (Collect n) = acc"

definition last_beats :: "presence_op list \<Rightarrow> (agent_id \<rightharpoonup> u64)" where
  "last_beats = foldl beat_step (\<lambda>_. None)"

text \<open>The clock never runs backwards, and \<open>now\<close> is not before the last event.\<close>

fun clock_ok :: "nat \<Rightarrow> presence_op list \<Rightarrow> nat \<Rightarrow> bool" where
  "clock_ok lo [] now \<longleftrightarrow> lo \<le> now"
| "clock_ok lo (Beat i h a n # ops) now \<longleftrightarrow> lo \<le> unat n \<and> clock_ok (unat n) ops now"
| "clock_ok lo (Leave i # ops) now \<longleftrightarrow> clock_ok lo ops now"
| "clock_ok lo (Collect n # ops) now \<longleftrightarrow> lo \<le> unat n \<and> clock_ok (unat n) ops now"

text \<open>A registry and the last heartbeats agree, but for members that have expired by \<open>lo\<close>.\<close>

fun agree :: "nat \<Rightarrow> nat \<Rightarrow> agent_id \<Rightarrow> member option \<Rightarrow> u64 option \<Rightarrow> bool" where
  "agree ttl lo i (Some m) beat \<longleftrightarrow> me_id m = i \<and> beat = Some (me_last_seen_ms m)"
| "agree ttl lo i None (Some t) \<longleftrightarrow> ttl \<le> lo - unat t"
| "agree ttl lo i None None \<longleftrightarrow> True"

definition tracks :: "nat \<Rightarrow> presence \<Rightarrow> (agent_id \<rightharpoonup> u64) \<Rightarrow> bool" where
  "tracks lo p beats \<longleftrightarrow> hm_wf (pr_members p) \<and>
     (\<forall>i. agree (unat (pr_ttl_ms p)) lo i (hm_get (pr_members p) i) (beats i))"

lemma tracksE:
  assumes "tracks lo p beats"
  shows "hm_wf (pr_members p)"
    and "hm_get (pr_members p) i = Some m \<Longrightarrow> me_id m = i \<and> beats i = Some (me_last_seen_ms m)"
    and "hm_get (pr_members p) i = None \<Longrightarrow> beats i = Some t \<Longrightarrow> unat (pr_ttl_ms p) \<le> lo - unat t"
  using assms by (auto simp: tracks_def dest!: spec[of _ i])

lemma tracks_new: "tracks lo (presence_new ttl) (\<lambda>_. None)"
  by (simp add: tracks_def presence_new_def hm_wf_empty)

lemma presence_ttl [simp]: "pr_ttl_ms (presence_step p q) = pr_ttl_ms p"
  by (cases q) (simp_all add: heartbeat_def leave_def presence_gc_def)

lemma agree_later: "agree ttl lo i x b \<Longrightarrow> lo \<le> hi \<Longrightarrow> agree ttl hi i x b"
  by (cases x; cases b) auto

lemma tracks_later: "tracks lo p beats \<Longrightarrow> lo \<le> hi \<Longrightarrow> tracks hi p beats"
  by (auto simp: tracks_def intro: agree_later)

lemma tracks_beat:
  assumes "tracks lo p beats"
  shows "tracks lo (heartbeat p i h a n) (beats(i \<mapsto> n))"
proof -
  have "me_id m = i" if "hm_get (pr_members p) i = Some m" for m
    using tracksE(2)[OF assms that] ..
  with assms show ?thesis
    by (simp add: tracks_def heartbeat_def hm_wf_insert split: option.split)
qed

lemma tracks_leave: "tracks lo p beats \<Longrightarrow> tracks lo (leave p i) (beats(i := None))"
  by (simp add: tracks_def leave_def hm_wf_remove)

lemma agree_gc:
  "agree (unat ttl) (unat n) i x b \<Longrightarrow> agree (unat ttl) (unat n) i (case x of None \<Rightarrow> None
     | Some m \<Rightarrow> if saturating_sub n (me_last_seen_ms m) < ttl then Some m else None) b"
  by (cases x) (simp_all add: saturating_sub_less)

lemma tracks_gc: "tracks (unat n) p beats \<Longrightarrow> tracks (unat n) (presence_gc p n) beats"
  by (simp add: tracks_def presence_gc_def hm_wf_retain hm_get_retain agree_gc)

lemma tracks_run:
  assumes "tracks lo p beats" "clock_ok lo ops now"
  shows "tracks now (foldl presence_step p ops) (foldl beat_step beats ops)"
  using assms
proof (induction ops arbitrary: lo p beats)
  case Nil
  then show ?case by (simp add: tracks_later)
next
  case (Cons q ops)
  show ?case
  proof (cases q)
    case (Beat i h a n)
    with Cons.prems have "tracks (unat n) (heartbeat p i h a n) (beats(i \<mapsto> n))"
      by (intro tracks_beat tracks_later[OF Cons.prems(1)]) simp
    from Cons.IH[OF this] Cons.prems Beat show ?thesis by (simp del: fun_upd_apply)
  next
    case (Leave i)
    from Cons.IH[OF tracks_leave[OF Cons.prems(1)]] Cons.prems Leave show ?thesis
      by (simp del: fun_upd_apply)
  next
    case (Collect n)
    with Cons.prems have "tracks (unat n) (presence_gc p n) beats"
      by (intro tracks_gc tracks_later[OF Cons.prems(1)]) simp
    from Cons.IH[OF this] Cons.prems Collect show ?thesis by simp
  qed
qed

lemma foldl_ttl [simp]: "pr_ttl_ms (foldl presence_step p ops) = pr_ttl_ms p"
  by (induction ops arbitrary: p) simp_all

text \<open>The members a registry holds, seen through the last heartbeats.\<close>

lemma tracks_live:
  assumes "tracks (unat now) p beats"
  shows "(\<lambda>m. (me_id m, me_last_seen_ms m)) ` {m \<in> set (hm_values (pr_members p)).
      saturating_sub now (me_last_seen_ms m) < pr_ttl_ms p} =
    {(i, t). beats i = Some t \<and> unat now - unat t < unat (pr_ttl_ms p)}" (is "?L = ?R")
proof
  note tr = tracksE[OF assms]
  show "?L \<subseteq> ?R"
    using tr(2) by (auto simp: set_hm_values[OF tr(1)] ran_def saturating_sub_less)
  show "?R \<subseteq> ?L"
  proof clarify
    fix i t assume t: "beats i = Some t" "unat now - unat t < unat (pr_ttl_ms p)"
    then obtain m where m: "hm_get (pr_members p) i = Some m"
      using tr(3)[of i t] by (cases "hm_get (pr_members p) i") auto
    with t tr(2)[OF m] show "(i, t) \<in> ?L"
      by (intro image_eqI[of _ _ m]) (auto simp: set_hm_values[OF tr(1)] ran_def saturating_sub_less)
  qed
qed

lemma tracks_distinct: "tracks lo p beats \<Longrightarrow> distinct (map me_id (hm_values (pr_members p)))"
proof -
  assume tr: "tracks lo p beats"
  note wf = tracksE(1)[OF tr]
  have "me_id m = k" if "(k, m) \<in> set (pr_members p)" for k m
    using tracksE(2)[OF tr, of k m] wf that by (simp add: hm_get_def hm_wf_def)
  then have "map me_id (hm_values (pr_members p)) = map fst (pr_members p)"
    by (auto simp: hm_values_def)
  with wf show ?thesis by (simp add: hm_wf_def)
qed

section \<open>Properties\<close>

text \<open>
  The online list is exact: after any heartbeats, departures and collections under
  a clock that never runs backwards, and whatever order the hash map iterates in, it holds
  each agent at most once, most recently seen first, and holds an agent with its last
  heartbeat just when that heartbeat was followed by no departure and is younger than the
  time to live. The count is its length: collecting garbage is never visible.
\<close>

theorem online_is_exact:
  assumes "\<forall>ms. mset (order ms) = mset ms" "clock_ok lo ops (unat now)"
  shows "let p = foldl presence_step (presence_new ttl) ops; ms = online order p now in
    distinct (map me_id ms) \<and>
    set (map (\<lambda>m. (me_id m, me_last_seen_ms m)) ms) =
      {(i, t). last_beats ops i = Some t \<and> unat now - unat t < unat ttl} \<and>
    sorted_wrt (\<lambda>x y. me_last_seen_ms y \<le> me_last_seen_ms x) ms \<and>
    presence_count p now = length ms"
proof -
  let ?p = "foldl presence_step (presence_new ttl) ops"
  let ?live = "\<lambda>m. saturating_sub now (me_last_seen_ms m) < pr_ttl_ms ?p"
  have tr: "tracks (unat now) ?p (last_beats ops)"
    using tracks_run[OF tracks_new assms(2)] by (simp add: last_beats_def)
  have ms: "mset (online order ?p now) = mset (filter ?live (hm_values (pr_members ?p)))"
    using assms(1) by (simp add: online_def Let_def)
  have "distinct (map me_id (online order ?p now))"
    using distinct_map_filter[OF tracks_distinct[OF tr], of ?live] ms
    by (metis mset_map mset_eq_imp_distinct_iff)
  moreover have "set (map (\<lambda>m. (me_id m, me_last_seen_ms m)) (online order ?p now)) =
      {(i, t). last_beats ops i = Some t \<and> unat now - unat t < unat ttl}"
    using tracks_live[OF tr] mset_eq_setD[OF ms] by (simp add: presence_new_def)
  moreover have "sorted_wrt (\<lambda>x y. me_last_seen_ms y \<le> me_last_seen_ms x) (online order ?p now)"
    using sort_desc_sorted[of "\<lambda>m. uint (me_last_seen_ms m)"]
    by (simp add: online_def Let_def word_le_def)
  moreover have "presence_count ?p now = length (online order ?p now)"
    using mset_eq_length[OF ms] by (simp add: presence_count_def)
  ultimately show ?thesis by (simp add: Let_def)
qed

theorem online_is_exact_witness:
  "set (map (\<lambda>m. (me_id m, me_last_seen_ms m)) (online rev (foldl presence_step (presence_new 1000)
      [Beat (AgentId ''a'') ''alice'' False 0, Beat (AgentId ''b'') ''bot'' True 100,
       Collect 500, Leave (AgentId ''b'')]) 900)) = {(AgentId ''a'', 0)}"
proof -
  let ?ops = "[Beat (AgentId ''a'') ''alice'' False 0, Beat (AgentId ''b'') ''bot'' True 100,
       Collect 500, Leave (AgentId ''b'')]"
  have "clock_ok 0 ?ops (unat (900 :: u64))" by simp
  moreover have "\<forall>ms. mset (rev ms) = mset ms" by simp
  ultimately show ?thesis
    using online_is_exact[of rev 0 ?ops 900 1000]
    by (auto simp: Let_def last_beats_def split: if_splits)
qed

end
