(* ===== verification/Float64.thy ===== *)
theory Float64
  imports Prelude
begin

text \<open>
  IEEE 754 double precision, the \<open>f64\<close> of the sources: a float is its 64 bits, an operation
  is the exact result rounded to nearest, ties to even. A finite float is an integer number of
  units of \<open>2 ^ -1074\<close>, so sums are rounded naturals and products and quotients rounded
  ratios of naturals. Every NaN the operations make is one quiet NaN.
\<close>

section \<open>Bits\<close>

type_synonym f64 = u64

text \<open>The weight of the hidden bit of a significand; the exponent and sign bits are above it.\<close>

definition hidden :: nat where
  "hidden = 2 ^ 52"

definition inf_mag :: nat where
  "inf_mag = 2047 * hidden"

definition sign_bit :: nat where
  "sign_bit = 2048 * hidden"

lemma hidden_pos [simp]: "0 < hidden" "hidden \<noteq> 0" "Suc 0 \<le> hidden"
  by (simp_all add: hidden_def)

lemma inf_mag_less [simp]: "inf_mag < sign_bit" "inf_mag \<noteq> 0"
  by (simp_all add: inf_mag_def sign_bit_def)

lemma mag_less_sign [simp]: "m \<le> inf_mag \<Longrightarrow> m < sign_bit"
  using inf_mag_less(1) by linarith

definition f64_mag :: "f64 \<Rightarrow> nat" where
  "f64_mag x = unat x mod sign_bit"

definition f64_neg :: "f64 \<Rightarrow> bool" where
  "f64_neg x \<longleftrightarrow> sign_bit \<le> unat x"

definition f64_of :: "bool \<Rightarrow> nat \<Rightarrow> f64" where
  "f64_of s m = word_of_nat (if s then sign_bit + m else m)"

definition f64_is_finite :: "f64 \<Rightarrow> bool" where
  "f64_is_finite x \<longleftrightarrow> f64_mag x < inf_mag"

definition f64_is_nan :: "f64 \<Rightarrow> bool" where
  "f64_is_nan x \<longleftrightarrow> inf_mag < f64_mag x"

definition f64_is_inf :: "f64 \<Rightarrow> bool" where
  "f64_is_inf x \<longleftrightarrow> f64_mag x = inf_mag"

definition f64_nan :: f64 where
  "f64_nan = f64_of False (inf_mag + 2 ^ 51)"

lemma sign_bit_word: "2 * sign_bit = 2 ^ 64"
  by (simp add: sign_bit_def hidden_def)

lemma f64_mag_less [simp]: "f64_mag x < sign_bit"
  by (simp add: f64_mag_def sign_bit_def)

lemma unat_f64_of: "m < sign_bit \<Longrightarrow> unat (f64_of s m) = (if s then sign_bit + m else m)"
  using sign_bit_word by (simp add: f64_of_def unat_of_nat)

lemma f64_of_simps [simp]:
  "m < sign_bit \<Longrightarrow> f64_mag (f64_of s m) = m" "m < sign_bit \<Longrightarrow> f64_neg (f64_of s m) = s"
  by (auto simp: f64_mag_def f64_neg_def unat_f64_of)

lemma mod_half: "x < 2 * k \<Longrightarrow> x mod k = (if k \<le> x then x - k else (x :: nat))"
  by (simp add: mod_if)

lemma f64_eqI: "f64_neg x = f64_neg y \<Longrightarrow> f64_mag x = f64_mag y \<Longrightarrow> x = y"
proof -
  assume a: "f64_neg x = f64_neg y" "f64_mag x = f64_mag y"
  have "unat x < 2 * sign_bit" "unat y < 2 * sign_bit"
    using unsigned_less[of x] unsigned_less[of y] by (simp_all add: sign_bit_word)
  with a have "unat x = unat y"
    by (simp add: f64_neg_def f64_mag_def mod_half split: if_splits)
  then show "x = y" by (simp add: word_unat_eq_iff)
qed

lemma f64_of_self [simp]: "f64_of (f64_neg x) (f64_mag x) = x"
  by (rule f64_eqI) simp_all

section \<open>Order\<close>

definition f64_key :: "f64 \<Rightarrow> int" where
  "f64_key x = (if f64_neg x then - int (f64_mag x) else int (f64_mag x))"

definition f64_le :: "f64 \<Rightarrow> f64 \<Rightarrow> bool" where
  "f64_le x y \<longleftrightarrow> \<not> f64_is_nan x \<and> \<not> f64_is_nan y \<and> f64_key x \<le> f64_key y"

definition f64_lt :: "f64 \<Rightarrow> f64 \<Rightarrow> bool" where
  "f64_lt x y \<longleftrightarrow> \<not> f64_is_nan x \<and> \<not> f64_is_nan y \<and> f64_key x < f64_key y"

definition f64_eq :: "f64 \<Rightarrow> f64 \<Rightarrow> bool" where
  "f64_eq x y \<longleftrightarrow> \<not> f64_is_nan x \<and> \<not> f64_is_nan y \<and> f64_key x = f64_key y"

lemma f64_le_trans: "f64_le x y \<Longrightarrow> f64_le y z \<Longrightarrow> f64_le x z"
  by (auto simp: f64_le_def)

lemma f64_le_refl: "\<not> f64_is_nan x \<Longrightarrow> f64_le x x"
  by (simp add: f64_le_def)

text \<open>
  Comparisons for sorts: \<open>b.partial_cmp(a).unwrap_or(Equal)\<close>, largest first, and
  \<open>a.partial_cmp(b).unwrap_or(Equal)\<close>, smallest first, each then the next criterion.
\<close>

definition desc_then :: "f64 \<Rightarrow> f64 \<Rightarrow> bool \<Rightarrow> bool" where
  "desc_then a b otherwise \<longleftrightarrow> (if f64_lt b a then True else if f64_lt a b then False else otherwise)"

definition asc_then :: "f64 \<Rightarrow> f64 \<Rightarrow> bool \<Rightarrow> bool" where
  "asc_then a b otherwise \<longleftrightarrow> desc_then b a otherwise"

lemma desc_then_key: "\<not> f64_is_nan a \<Longrightarrow> \<not> f64_is_nan b \<Longrightarrow>
    desc_then a b c \<longleftrightarrow> f64_key b < f64_key a \<or> f64_key b = f64_key a \<and> c"
  by (auto simp: desc_then_def f64_lt_def)

lemma asc_then_key: "\<not> f64_is_nan a \<Longrightarrow> \<not> f64_is_nan b \<Longrightarrow>
    asc_then a b c \<longleftrightarrow> f64_key a < f64_key b \<or> f64_key a = f64_key b \<and> c"
  by (auto simp: asc_then_def desc_then_key)

section \<open>Rounding\<close>

text \<open>The binary places above 53 bits.\<close>

function excess :: "nat \<Rightarrow> nat" where
  "excess q = (if q < 2 * hidden then 0 else Suc (excess (q div 2)))"
  by pat_completeness auto
termination
proof (relation "measure id")
  fix q assume "\<not> q < 2 * hidden"
  then have "0 < q" using hidden_pos(1) by linarith
  then show "(q div 2, q) \<in> measure id" by simp
qed simp

declare excess.simps [simp del]

definition half_even :: "nat \<Rightarrow> nat \<Rightarrow> nat" where
  "half_even n d =
     (let q = n div d; r = n mod d
      in if 2 * r < d then q else if d < 2 * r then Suc q else if even q then q else Suc q)"

text \<open>The magnitude nearest to \<open>n / d\<close> units, infinite when it is beyond the largest.\<close>

definition round_mag :: "nat \<Rightarrow> nat \<Rightarrow> nat" where
  "round_mag n d = (let s = excess (n div d) in min inf_mag (s * hidden + half_even n (d * 2 ^ s)))"

text \<open>The units of a finite magnitude.\<close>

definition units :: "nat \<Rightarrow> nat" where
  "units m = (let e = m div hidden; f = m mod hidden in if e = 0 then f else (hidden + f) * 2 ^ (e - 1))"

lemma excess_range: "q div 2 ^ excess q < 2 * hidden \<and> (0 < excess q \<longrightarrow> hidden \<le> q div 2 ^ excess q)"
proof (induction q rule: excess.induct)
  case (1 q)
  show ?case
  proof (cases "q < 2 * hidden")
    case True
    then show ?thesis by (simp add: excess.simps[of q])
  next
    case False
    then have ex: "excess q = Suc (excess (q div 2))" by (simp add: excess.simps[of q])
    have dv: "q div 2 ^ excess q = (q div 2) div 2 ^ excess (q div 2)"
      by (simp add: ex div_mult2_eq)
    show ?thesis
    proof (cases "excess (q div 2) = 0")
      case True
      moreover have "hidden \<le> q div 2" using False by linarith
      ultimately show ?thesis using 1[OF False] dv by simp
    next
      case nz: False
      with 1[OF False] dv show ?thesis by simp
    qed
  qed
qed

lemma excess_mono: "q \<le> q' \<Longrightarrow> excess q \<le> excess q'"
proof (induction q arbitrary: q' rule: excess.induct)
  case (1 q)
  show ?case
  proof (cases "q < 2 * hidden")
    case True
    then show ?thesis by (simp add: excess.simps[of q])
  next
    case False
    with 1 have "excess (q div 2) \<le> excess (q' div 2)" by (simp add: div_le_mono)
    with False 1(2) show ?thesis by (simp add: excess.simps[of q] excess.simps[of q'])
  qed
qed

text \<open>Half-even rounding stays next to the quotient and is monotone.\<close>

lemma half_even_bounds: "n div d \<le> half_even n d" "half_even n d \<le> Suc (n div d)"
  by (auto simp: half_even_def Let_def)

lemma half_even_exact: "0 < d \<Longrightarrow> half_even (k * d) d = k"
  by (simp add: half_even_def Let_def)

lemma half_even_mono_num:
  assumes "n \<le> n'" shows "half_even n d \<le> half_even n' d"
proof (cases "n div d = n' div d")
  case True
  then have "n mod d \<le> n' mod d"
    using assms by (metis add_le_cancel_left div_mult_mod_eq)
  with True show ?thesis by (auto simp: half_even_def Let_def)
next
  case False
  with assms have "n div d < n' div d" by (simp add: div_le_mono le_neq_implies_less)
  with half_even_bounds[of n d] half_even_bounds[of n' d] show ?thesis by linarith
qed

lemma half_even_scale: "0 < k \<Longrightarrow> half_even (n * k) (d * k) = half_even n d"
  by (simp add: half_even_def Let_def flip: mult_mod_left mult.assoc)

lemma half_even_mono:
  assumes "n * d' \<le> n' * d" "0 < d" "0 < d'"
  shows "half_even n d \<le> half_even n' d'"
proof -
  have "half_even n d = half_even (n * d') (d * d')" using assms by (simp add: half_even_scale)
  also have "\<dots> \<le> half_even (n' * d) (d * d')" by (rule half_even_mono_num[OF assms(1)])
  also have "\<dots> = half_even n' d'" using assms half_even_scale[of d n' d'] by (simp add: mult.commute)
  finally show ?thesis .
qed

lemma div_cross:
  assumes "n * d' \<le> n' * d" "0 < d" "0 < (d' :: nat)"
  shows "n div d \<le> n' div d'"
proof -
  have "n div d = (n * d') div (d * d')" using assms(3) by simp
  also have "\<dots> \<le> (n' * d) div (d * d')" by (rule div_le_mono[OF assms(1)])
  also have "\<dots> = n' div d'" using assms(2) by (simp add: mult.commute[of n'] )
  finally show ?thesis .
qed

text \<open>Rounding is monotone.\<close>

lemma round_mag_mono:
  assumes "n * d' \<le> n' * d" "0 < d" "0 < d'"
  shows "round_mag n d \<le> round_mag n' d'"
proof -
  let ?s = "excess (n div d)" and ?s' = "excess (n' div d')"
  let ?h = "half_even n (d * 2 ^ ?s)" and ?h' = "half_even n' (d' * 2 ^ ?s')"
  have le: "?s \<le> ?s'" by (rule excess_mono[OF div_cross[OF assms]])
  have "?s * hidden + ?h \<le> ?s' * hidden + ?h'"
  proof (cases "?s = ?s'")
    case True
    have "n * (d' * 2 ^ ?s') \<le> n' * (d * 2 ^ ?s')"
      using assms(1) by (simp flip: mult.assoc)
    then have "?h \<le> ?h'" using half_even_mono[of n "d' * 2 ^ ?s'" n' "d * 2 ^ ?s"] assms True by simp
    with True show ?thesis by simp
  next
    case False
    with le have lt: "?s < ?s'" by simp
    have "?h \<le> Suc ((n div d) div 2 ^ ?s)"
      using half_even_bounds(2)[of n "d * 2 ^ ?s"] by (simp add: div_mult2_eq)
    then have "?h \<le> 2 * hidden" using excess_range[of "n div d"] by linarith
    moreover have "hidden \<le> ?h'"
      using half_even_bounds(1)[of n' "d' * 2 ^ ?s'"] excess_range[of "n' div d'"] lt
      by (simp add: div_mult2_eq)
    moreover have "Suc ?s * hidden \<le> ?s' * hidden" using lt by (intro mult_le_mono) simp_all
    ultimately show ?thesis by simp
  qed
  then show ?thesis by (simp add: round_mag_def Let_def)
qed

text \<open>The units of a magnitude increase with it, and rounding leaves them as they are.\<close>

lemma units_decompose: "\<exists>s k. m = s * hidden + k \<and> units m = k * 2 ^ s \<and> k < 2 * hidden \<and> (0 < s \<longrightarrow> hidden \<le> k)"
proof (cases "m div hidden")
  case 0
  then have "m < hidden" by (simp add: div_eq_0_iff)
  then show ?thesis by (intro exI[of _ 0] exI[of _ m]) (simp add: units_def Let_def)
next
  case (Suc e)
  have "m = e * hidden + (hidden + m mod hidden)"
    using div_mult_mod_eq[of m hidden] by (simp add: Suc)
  moreover have "units m = (hidden + m mod hidden) * 2 ^ e"
    by (simp add: units_def Let_def Suc)
  ultimately show ?thesis
    by (intro exI[of _ e] exI[of _ "hidden + m mod hidden"]) simp
qed

lemma excess_scaled: "k < 2 * hidden \<Longrightarrow> (0 < s \<Longrightarrow> hidden \<le> k) \<Longrightarrow> excess (k * 2 ^ s) = s"
proof (induction s)
  case 0
  then show ?case by (simp add: excess.simps)
next
  case (Suc s)
  have "k * 2 ^ Suc s \<ge> 2 * hidden"
    using Suc.prems(2) by (simp add: mult_le_mono mult.commute[of k] flip: mult.assoc)
      (metis Suc.prems(2) Suc_leI mult_le_mono nat_mult_1 one_le_numeral one_le_power zero_less_Suc)
  then have "\<not> k * 2 ^ Suc s < 2 * hidden" by simp
  then have "excess (k * 2 ^ Suc s) = Suc (excess (k * 2 ^ Suc s div 2))"
    by (subst excess.simps) (simp only: if_False)
  moreover have "k * 2 ^ Suc s div 2 = k * 2 ^ s" by simp
  ultimately show ?case using Suc.IH[OF Suc.prems(1)] Suc.prems(2) by simp
qed

lemma round_mag_units:
  assumes "m \<le> inf_mag" "0 < d"
  shows "round_mag (units m * d) d = m"
proof -
  obtain s k where m: "m = s * hidden + k" "units m = k * 2 ^ s" "k < 2 * hidden" "0 < s \<Longrightarrow> hidden \<le> k"
    using units_decompose by blast
  have "excess (units m * d div d) = s"
    using assms(2) excess_scaled[OF m(3,4)] by (simp add: m(2))
  moreover have "half_even (units m * d) (d * 2 ^ s) = k"
    using half_even_exact[of "d * 2 ^ s" k] assms(2) by (simp add: m(2) mult_ac)
  ultimately show ?thesis using assms(1) m(1) by (simp add: round_mag_def Let_def)
qed

lemma round_mag_le_inf: "round_mag n d \<le> inf_mag"
  by (simp add: round_mag_def Let_def)

lemma round_mag_1 [simp]: "m \<le> inf_mag \<Longrightarrow> round_mag (units m) (Suc 0) = m"
  using round_mag_units[of m 1] by simp

lemma units_mono:
  assumes "m \<le> m'" "m' \<le> inf_mag" shows "units m \<le> units m'"
proof (rule ccontr)
  assume "\<not> units m \<le> units m'"
  then have "round_mag (units m') 1 \<le> round_mag (units m) 1" by (intro round_mag_mono) simp_all
  with assms have "m = m'" by (simp add: round_mag_1)
  with \<open>\<not> units m \<le> units m'\<close> show False by simp
qed

lemma units_0 [simp]: "units 0 = 0"
  by (simp add: units_def Let_def)

lemma units_pos: "0 < m \<Longrightarrow> 0 < units m"
  using units_decompose[of m] by (auto intro!: Nat.gr0I)

section \<open>Operations\<close>

text \<open>The units of \<open>1.0\<close>.\<close>

definition unit_scale :: nat where
  "unit_scale = 2 ^ 1074"

definition f64_units :: "f64 \<Rightarrow> int" where
  "f64_units x = (if f64_neg x then - int (units (f64_mag x)) else int (units (f64_mag x)))"

definition f64_flip :: "f64 \<Rightarrow> f64" where
  "f64_flip x = f64_of (\<not> f64_neg x) (f64_mag x)"

definition f64_add :: "f64 \<Rightarrow> f64 \<Rightarrow> f64" where
  "f64_add x y =
     (if f64_is_nan x \<or> f64_is_nan y then f64_nan
      else if f64_is_inf x then (if f64_is_inf y \<and> f64_neg x \<noteq> f64_neg y then f64_nan else x)
      else if f64_is_inf y then y
      else let v = f64_units x + f64_units y
           in if v = 0 then f64_of (f64_neg x \<and> f64_neg y) 0
              else f64_of (v < 0) (round_mag (nat \<bar>v\<bar>) 1))"

definition f64_sub :: "f64 \<Rightarrow> f64 \<Rightarrow> f64" where
  "f64_sub x y = f64_add x (f64_flip y)"

definition f64_mul :: "f64 \<Rightarrow> f64 \<Rightarrow> f64" where
  "f64_mul x y =
     (let s = (f64_neg x \<noteq> f64_neg y)
      in if f64_is_nan x \<or> f64_is_nan y then f64_nan
         else if f64_is_inf x \<or> f64_is_inf y
         then (if f64_mag x = 0 \<or> f64_mag y = 0 then f64_nan else f64_of s inf_mag)
         else f64_of s (round_mag (units (f64_mag x) * units (f64_mag y)) unit_scale))"

definition f64_div :: "f64 \<Rightarrow> f64 \<Rightarrow> f64" where
  "f64_div x y =
     (let s = (f64_neg x \<noteq> f64_neg y)
      in if f64_is_nan x \<or> f64_is_nan y then f64_nan
         else if f64_is_inf x then (if f64_is_inf y then f64_nan else f64_of s inf_mag)
         else if f64_is_inf y then f64_of s 0
         else if f64_mag y = 0 then (if f64_mag x = 0 then f64_nan else f64_of s inf_mag)
         else f64_of s (round_mag (units (f64_mag x) * unit_scale) (units (f64_mag y))))"

text \<open>\<open>f64::max\<close> ignores a NaN; \<open>f64::clamp\<close> keeps one.\<close>

definition f64_max :: "f64 \<Rightarrow> f64 \<Rightarrow> f64" where
  "f64_max x y = (if f64_is_nan x then y else if f64_is_nan y then x
     else if f64_key x < f64_key y then y else x)"

definition f64_clamp :: "f64 \<Rightarrow> f64 \<Rightarrow> f64 \<Rightarrow> f64" where
  "f64_clamp x lo hi = (if f64_lt x lo then lo else if f64_lt hi x then hi else x)"

text \<open>Decimal literals and integers.\<close>

definition f64_lit :: "nat \<Rightarrow> nat \<Rightarrow> f64" where
  "f64_lit n d = f64_of False (round_mag (n * unit_scale) d)"

definition f64_of_nat :: "nat \<Rightarrow> f64" where
  "f64_of_nat n = f64_lit n 1"

lemma round_mag_0 [simp]: "round_mag 0 d = 0"
  by (simp add: round_mag_def half_even_def excess.simps[of 0])

lemma f64_of_nat_0: "f64_mag (f64_of_nat 0) = 0" "\<not> f64_neg (f64_of_nat 0)" "\<not> f64_is_nan (f64_of_nat 0)"
  "f64_key (f64_of_nat 0) = 0"
  by (simp_all add: f64_of_nat_def f64_lit_def f64_is_nan_def f64_key_def)

section \<open>Numbers that are not negative\<close>

definition f64_nonneg :: "f64 \<Rightarrow> bool" where
  "f64_nonneg x \<longleftrightarrow> \<not> f64_neg x \<and> \<not> f64_is_nan x"

lemma nonneg_mag_le [simp]: "f64_nonneg x \<Longrightarrow> f64_mag x \<le> inf_mag"
  by (simp add: f64_nonneg_def f64_is_nan_def)

lemma f64_nonneg_of [simp]: "m \<le> inf_mag \<Longrightarrow> f64_nonneg (f64_of False m)"
  by (simp add: f64_nonneg_def f64_is_nan_def)

lemma nonneg_le_iff: "f64_nonneg x \<Longrightarrow> f64_nonneg y \<Longrightarrow> f64_le x y \<longleftrightarrow> f64_mag x \<le> f64_mag y"
  by (simp add: f64_nonneg_def f64_le_def f64_key_def)

lemma units_inf_plus: "round_mag (units inf_mag + n) 1 = inf_mag"
proof -
  have "round_mag (units inf_mag) 1 \<le> round_mag (units inf_mag + n) 1"
    by (intro round_mag_mono) simp_all
  then show ?thesis using round_mag_1[of inf_mag] round_mag_le_inf[of "units inf_mag + n" 1] by simp
qed

lemma add_nonneg:
  assumes "f64_nonneg x" "f64_nonneg y"
  shows "f64_nonneg (f64_add x y) \<and> f64_mag (f64_add x y) = round_mag (units (f64_mag x) + units (f64_mag y)) 1"
proof -
  have x: "\<not> f64_neg x" "\<not> f64_is_nan x" and y: "\<not> f64_neg y" "\<not> f64_is_nan y"
    using assms by (simp_all add: f64_nonneg_def)
  consider "f64_is_inf x" | "\<not> f64_is_inf x" "f64_is_inf y" | "\<not> f64_is_inf x" "\<not> f64_is_inf y" by blast
  then show ?thesis
  proof cases
    case 1
    with x y assms show ?thesis using units_inf_plus[of "units (f64_mag y)"]
      by (simp add: f64_add_def f64_is_inf_def)
  next
    case 2
    with x y assms show ?thesis using units_inf_plus[of "units (f64_mag x)"]
      by (simp add: f64_add_def f64_is_inf_def add.commute)
  next
    case 3
    have "f64_add x y = f64_of False (round_mag (units (f64_mag x) + units (f64_mag y)) 1)"
      using 3 x y round_mag_1[of 0]
      by (simp add: f64_add_def f64_units_def Let_def flip: of_nat_add)
    then show ?thesis by (simp add: round_mag_le_inf)
  qed
qed

lemma add_mono:
  assumes "f64_nonneg x" "f64_nonneg y" "f64_nonneg x'" "f64_nonneg y'" "f64_le x x'" "f64_le y y'"
  shows "f64_le (f64_add x y) (f64_add x' y')"
proof -
  have "units (f64_mag x) + units (f64_mag y) \<le> units (f64_mag x') + units (f64_mag y')"
    using assms by (intro add_mono units_mono) (simp_all add: nonneg_le_iff)
  then have "round_mag (units (f64_mag x) + units (f64_mag y)) 1 \<le>
      round_mag (units (f64_mag x') + units (f64_mag y')) 1"
    by (intro round_mag_mono) simp_all
  then show ?thesis using add_nonneg assms by (simp add: nonneg_le_iff)
qed

lemma add_ge:
  assumes "f64_nonneg x" "f64_nonneg y" shows "f64_le x (f64_add x y)"
proof -
  have "round_mag (units (f64_mag x)) 1 \<le> round_mag (units (f64_mag x) + units (f64_mag y)) 1"
    by (intro round_mag_mono) simp_all
  then show ?thesis using add_nonneg[OF assms] assms by (simp add: nonneg_le_iff round_mag_1)
qed

text \<open>The word 0 is \<open>0.0\<close>.\<close>

lemma f64_zero [simp]: "f64_mag 0 = 0" "\<not> f64_neg 0" "\<not> f64_is_nan 0" "f64_nonneg 0" "f64_key 0 = 0" "\<not> f64_is_inf 0"
  by (simp_all add: f64_mag_def f64_neg_def f64_is_nan_def f64_nonneg_def f64_key_def f64_is_inf_def sign_bit_def)

lemma zero_less_nonneg: "f64_lt 0 x \<Longrightarrow> f64_nonneg x \<and> 0 < f64_mag x"
  by (auto simp: f64_lt_def f64_nonneg_def f64_key_def split: if_splits)

lemma zero_le_nonneg: "f64_nonneg x \<Longrightarrow> f64_le 0 x"
  by (simp add: nonneg_le_iff)

lemma f64_max_zero: "f64_nonneg (f64_max x 0) \<or> f64_mag (f64_max x 0) = 0"
  by (auto simp: f64_max_def f64_nonneg_def f64_key_def split: if_splits)

lemma f64_le_nan: "f64_le x y \<Longrightarrow> \<not> f64_is_nan x \<and> \<not> f64_is_nan y"
  by (simp add: f64_le_def)

lemma add_ge2:
  assumes "f64_nonneg x" "f64_nonneg y" shows "f64_le y (f64_add x y)"
  using add_ge[OF assms(2,1)] add_nonneg[OF assms] add_nonneg[OF assms(2,1)] assms
  by (simp add: nonneg_le_iff add.commute)

lemma add_zero: "f64_nonneg x \<Longrightarrow> f64_add 0 x = x"
  using add_nonneg[of 0 x] by (intro f64_eqI) (simp_all add: f64_nonneg_def)

lemmas f64_bits = f64_nonneg_def f64_is_nan_def f64_is_finite_def f64_is_inf_def f64_le_def f64_lt_def
  f64_key_def f64_mag_def f64_neg_def sign_bit_def hidden_def inf_mag_def

section \<open>Products and quotients\<close>

text \<open>The integer square root, and the correctly rounded root: an inexact root lies strictly between two integers.\<close>

fun isqrt :: "nat \<Rightarrow> nat" where
  "isqrt n = (if n = 0 then 0 else
     let r = 2 * isqrt (n div 4) in if (r + 1) * (r + 1) \<le> n then r + 1 else r)"

declare isqrt.simps [simp del]

lemma isqrt_correct: "isqrt n * isqrt n \<le> n \<and> n < (isqrt n + 1) * (isqrt n + 1)"
proof (induction n rule: isqrt.induct)
  case (1 n)
  show ?case
  proof (cases "n = 0")
    case True
    then show ?thesis by (simp add: isqrt.simps)
  next
    case False
    let ?s = "isqrt (n div 4)"
    have ih: "?s * ?s \<le> n div 4" "n div 4 < (?s + 1) * (?s + 1)" using 1[OF False] by auto
    have lo: "(2 * ?s) * (2 * ?s) \<le> n" using ih(1) by simp
    have "n < 4 * (n div 4 + 1)" by simp
    also have "\<dots> \<le> 4 * ((?s + 1) * (?s + 1))" using ih(2) by (intro mult_le_mono) simp_all
    also have "\<dots> = (2 * ?s + 1 + 1) * (2 * ?s + 1 + 1)" by (simp add: algebra_simps)
    finally have hi: "n < (2 * ?s + 1 + 1) * (2 * ?s + 1 + 1)" .
    show ?thesis using False lo hi by (simp add: isqrt.simps[of n] Let_def)
  qed
qed

definition f64_sqrt :: "f64 \<Rightarrow> f64" where
  "f64_sqrt x =
     (if f64_is_nan x then f64_nan
      else if f64_mag x = 0 then x
      else if f64_neg x then f64_nan
      else if f64_is_inf x then x
      else let n = units (f64_mag x) * unit_scale; r = isqrt n
           in f64_of False (if r * r = n then round_mag r 1 else round_mag (2 * r + 1) 2))"

definition one_mag :: nat where
  "one_mag = 1023 * hidden"

lemma units_power: "units (one_mag + k * hidden) = 2 ^ k * unit_scale"
proof -
  have m: "one_mag + k * hidden = (1022 + k + 1) * hidden" by (simp add: one_mag_def algebra_simps)
  have "units (one_mag + k * hidden) = hidden * 2 ^ (1022 + k)"
    unfolding m units_def Let_def by simp
  also have "\<dots> = 2 ^ (52 + 1022) * 2 ^ k" unfolding hidden_def power_add by (simp only: mult.assoc)
  finally show ?thesis unfolding unit_scale_def by (simp only: mult.commute arith_simps)
qed

lemma units_one: "units one_mag = unit_scale"
  using units_power[of 0] by simp

lemma one_mag_le: "one_mag \<le> inf_mag" "one_mag < inf_mag" "0 < one_mag"
  by (simp_all add: one_mag_def inf_mag_def)

lemma unit_scale_pos [simp]: "0 < unit_scale"
  unfolding unit_scale_def by (rule zero_less_power) simp

definition f64_one :: f64 where
  "f64_one = 0x3FF0000000000000"

lemma f64_one [simp]: "f64_mag f64_one = one_mag" "\<not> f64_neg f64_one" "f64_nonneg f64_one"
  "f64_is_finite f64_one" "\<not> f64_is_nan f64_one"
  by (simp_all add: f64_one_def f64_bits one_mag_def)

lemma round_one: "0 < d \<Longrightarrow> round_mag (unit_scale * d) d = one_mag"
  using round_mag_units[OF one_mag_le(1), of d] by (simp add: units_one)

text \<open>
  What the later proofs use of a result: it is a NaN or at most a bound. A number with
  \<open>f64_safe\<close> is not negative, or a zero of either sign, or a NaN.
\<close>

definition nan_or_le :: "f64 \<Rightarrow> f64 \<Rightarrow> bool" where
  "nan_or_le x y \<longleftrightarrow> f64_is_nan x \<or> f64_le x y"

definition f64_safe :: "f64 \<Rightarrow> bool" where
  "f64_safe x \<longleftrightarrow> f64_is_nan x \<or> f64_nonneg x \<or> f64_mag x = 0"

lemma f64_nan_nan [simp]: "f64_is_nan f64_nan"
proof -
  have "inf_mag + 2 ^ 51 < sign_bit" by (simp add: inf_mag_def sign_bit_def hidden_def)
  then show ?thesis by (simp add: f64_nan_def f64_is_nan_def)
qed

lemma nan_safe [simp]: "f64_safe f64_nan" "f64_nonneg x \<Longrightarrow> f64_safe x"
  by (simp_all add: f64_safe_def)

lemma safe_of: "m \<le> inf_mag \<Longrightarrow> (s \<Longrightarrow> m = 0) \<Longrightarrow> f64_safe (f64_of s m)"
  by (cases s) (simp_all add: f64_safe_def)

lemma safe_neg: "f64_safe x \<Longrightarrow> \<not> f64_is_nan x \<Longrightarrow> f64_neg x \<Longrightarrow> f64_mag x = 0"
  by (auto simp: f64_safe_def f64_nonneg_def)

lemma mul_safe:
  assumes "f64_safe x" "f64_safe y" shows "f64_safe (f64_mul x y)"
proof (cases "f64_is_nan x \<or> f64_is_nan y")
  case True
  then show ?thesis by (simp add: f64_mul_def)
next
  case False
  then have zero: "f64_mag x = 0 \<or> f64_mag y = 0" if "f64_neg x \<noteq> f64_neg y"
    using that safe_neg[OF assms(1)] safe_neg[OF assms(2)] by (cases "f64_neg x") auto
  then have prod: "units (f64_mag x) * units (f64_mag y) = 0" if "f64_neg x \<noteq> f64_neg y"
    using that by auto
  let ?s = "f64_neg x \<noteq> f64_neg y"
  have "f64_safe (f64_of ?s (round_mag (units (f64_mag x) * units (f64_mag y)) unit_scale))"
    by (rule safe_of[OF round_mag_le_inf]) (drule prod, simp only: round_mag_0)
  moreover have "f64_safe (f64_of ?s inf_mag)" if "\<not> (f64_mag x = 0 \<or> f64_mag y = 0)"
    by (rule safe_of[OF order_refl]) (drule zero, use that in simp)
  ultimately show ?thesis using False unfolding f64_mul_def Let_def by (simp only: if_False nan_safe split: if_split) iprover
qed

lemma div_safe:
  assumes "f64_safe x" "f64_nonneg y" shows "f64_safe (f64_div x y)"
proof (cases "f64_is_nan x \<or> f64_is_nan y")
  case True
  then show ?thesis by (simp add: f64_div_def)
next
  case False
  then have "f64_neg x \<noteq> f64_neg y \<Longrightarrow> f64_mag x = 0"
    using safe_neg[OF assms(1)] assms(2) by (auto simp: f64_nonneg_def)
  with False show ?thesis
    unfolding f64_div_def Let_def
    by (auto intro!: safe_of simp: round_mag_le_inf f64_is_inf_def)
qed

lemma sqrt_safe: "f64_safe (f64_sqrt x)"
proof -
  have "f64_safe x" if "\<not> f64_is_nan x" "\<not> f64_neg x" using that by (simp add: f64_nonneg_def)
  moreover have "f64_safe x" if "f64_mag x = 0" using that by (simp add: f64_safe_def)
  ultimately show ?thesis
    unfolding f64_sqrt_def Let_def by (auto intro!: safe_of simp: round_mag_le_inf)
qed

lemma add_nan: "f64_is_nan x \<or> f64_is_nan y \<Longrightarrow> f64_is_nan (f64_add x y)"
  by (auto simp: f64_add_def)

lemma key_nonneg: "f64_nonneg x \<Longrightarrow> f64_key x = int (f64_mag x)"
  by (simp add: f64_nonneg_def f64_key_def)

lemma f64_key_of: "m \<le> inf_mag \<Longrightarrow> f64_key (f64_of s m) = (if s then - int m else int m)"
  by (simp add: f64_key_def)

lemma f64_nan_of: "m \<le> inf_mag \<Longrightarrow> \<not> f64_is_nan (f64_of s m)"
  by (simp add: f64_is_nan_def)

text \<open>A sum of finite numbers of either sign is the rounding of the exact sum.\<close>

definition signed_round :: "int \<Rightarrow> int" where
  "signed_round v = (if v < 0 then - int (round_mag (nat (- v)) 1) else int (round_mag (nat v) 1))"

lemma signed_round_mono: "v \<le> w \<Longrightarrow> signed_round v \<le> signed_round w"
  by (auto simp: signed_round_def intro!: round_mag_mono)

lemma signed_round_units:
  "\<not> f64_is_nan x \<Longrightarrow> \<not> f64_is_inf x \<Longrightarrow> signed_round (f64_units x) = f64_key x"
  using units_pos[of "f64_mag x"] round_mag_1[of "f64_mag x"]
  by (cases "f64_mag x = 0") (auto simp: signed_round_def f64_units_def f64_key_def f64_is_nan_def)

lemma key_add:
  assumes "\<not> f64_is_nan x" "\<not> f64_is_inf x" "\<not> f64_is_nan y" "\<not> f64_is_inf y"
  shows "f64_key (f64_add x y) = signed_round (f64_units x + f64_units y)"
proof -
  let ?v = "f64_units x + f64_units y"
  have "f64_add x y = (if ?v = 0 then f64_of (f64_neg x \<and> f64_neg y) 0 else f64_of (?v < 0) (round_mag (nat \<bar>?v\<bar>) 1))"
    using assms by (simp add: f64_add_def Let_def)
  moreover have "f64_key (f64_of s (round_mag n 1)) = (if s then - int (round_mag n 1) else int (round_mag n 1))" for s n
    by (rule f64_key_of[OF round_mag_le_inf])
  moreover have "f64_key (f64_of s 0) = 0" for s by (simp add: f64_key_of)
  ultimately show ?thesis by (simp add: signed_round_def)
qed

lemma flip_simps [simp]:
  "f64_mag (f64_flip x) = f64_mag x" "f64_neg (f64_flip x) = (\<not> f64_neg x)"
  "f64_is_nan (f64_flip x) = f64_is_nan x" "f64_is_inf (f64_flip x) = f64_is_inf x"
  by (simp_all add: f64_flip_def f64_is_nan_def f64_is_inf_def)

lemma sub_le:
  assumes "f64_nonneg x" "f64_safe y"
  shows "nan_or_le (f64_sub x y) x"
proof (cases "f64_is_nan y")
  case True
  then show ?thesis by (simp add: nan_or_le_def f64_sub_def add_nan)
next
  case False
  have x: "\<not> f64_neg x" "\<not> f64_is_nan x" using assms(1) by (simp_all add: f64_nonneg_def)
  have y: "f64_mag y = 0 \<or> \<not> f64_neg y" using assms(2) False by (auto simp: f64_safe_def f64_nonneg_def)
  have ymag: "f64_mag y \<le> inf_mag" using False by (simp add: f64_is_nan_def)
  consider "f64_is_inf x" | "\<not> f64_is_inf x" "f64_is_inf y" | "\<not> f64_is_inf x" "\<not> f64_is_inf y" by blast
  then show ?thesis
  proof cases
    case 1
    with x show ?thesis by (auto simp: nan_or_le_def f64_sub_def f64_add_def f64_le_def)
  next
    case 2
    with x y False have "f64_sub x y = f64_flip y" by (auto simp: f64_sub_def f64_add_def)
    moreover from 2 y have "f64_key (f64_flip y) \<le> 0" by (auto simp: f64_key_def f64_is_inf_def)
    ultimately show ?thesis using x False key_nonneg[OF assms(1)] by (simp add: nan_or_le_def f64_le_def)
  next
    case 3
    let ?v = "f64_units x + f64_units (f64_flip y)"
    have v: "?v \<le> int (units (f64_mag x))" using x y by (auto simp: f64_units_def)
    have sub: "f64_sub x y = (if ?v = 0 then f64_of (f64_neg x \<and> f64_neg (f64_flip y)) 0
        else f64_of (?v < 0) (round_mag (nat \<bar>?v\<bar>) 1))"
      using 3 x False by (simp add: f64_sub_def f64_add_def Let_def)
    have "f64_key (f64_sub x y) \<le> int (f64_mag x)"
    proof (cases "0 < ?v")
      case True
      have "round_mag (nat \<bar>?v\<bar>) 1 \<le> round_mag (units (f64_mag x)) 1"
        using v True by (intro round_mag_mono) auto
      then have "round_mag (nat \<bar>?v\<bar>) (Suc 0) \<le> f64_mag x" using assms(1) by simp
      then show ?thesis using True round_mag_le_inf[of "nat \<bar>?v\<bar>" "Suc 0"] unfolding sub
        by (simp add: f64_key_of)
    next
      case False
      then show ?thesis unfolding sub using round_mag_le_inf[of "nat \<bar>?v\<bar>" "Suc 0"]
        by (simp add: f64_key_of)
    qed
    moreover have "\<not> f64_is_nan (f64_sub x y)" unfolding sub by (simp add: f64_nan_of round_mag_le_inf)
    ultimately show ?thesis using x key_nonneg[OF assms(1)] by (simp add: nan_or_le_def f64_le_def)
  qed
qed

text \<open>A quotient of numbers in order is at most 1, and a larger divisor gives less.\<close>

lemma div_le_one:
  assumes "nan_or_le x y" "f64_nonneg y" "0 < f64_mag y"
  shows "nan_or_le (f64_div x y) f64_one"
proof (cases "f64_is_nan x")
  case True
  then show ?thesis by (simp add: nan_or_le_def f64_div_def)
next
  case xnan: False
  have y: "\<not> f64_neg y" "\<not> f64_is_nan y" using assms(2) by (simp_all add: f64_nonneg_def)
  have le: "f64_le x y" using assms(1) xnan by (simp add: nan_or_le_def)
  have one: "f64_key f64_one = int one_mag" by (simp add: f64_key_def)
  have small: "nan_or_le (f64_of s m) f64_one" if "m \<le> inf_mag" "s \<or> m \<le> one_mag" for s m
    using that one by (auto simp: nan_or_le_def f64_le_def f64_nan_of f64_key_of)
  show ?thesis
  proof (cases "f64_neg x")
    case True
    then show ?thesis using y xnan assms(3) round_mag_le_inf
      by (auto simp: f64_div_def Let_def intro!: small) (simp add: nan_or_le_def)
  next
    case False
    with xnan have x: "f64_nonneg x" by (simp add: f64_nonneg_def)
    then have mag: "f64_mag x \<le> f64_mag y" using le assms(2) by (simp add: nonneg_le_iff)
    then have "units (f64_mag x) * unit_scale \<le> unit_scale * units (f64_mag y)"
      using units_mono[OF mag] assms(2) by simp
    then have "round_mag (units (f64_mag x) * unit_scale) (units (f64_mag y)) \<le>
        round_mag (unit_scale * units (f64_mag y)) (units (f64_mag y))"
      using units_pos[OF assms(3)] by (intro round_mag_mono) (simp_all add: mult_le_mono)
    then have "round_mag (units (f64_mag x) * unit_scale) (units (f64_mag y)) \<le> one_mag"
      using round_one units_pos[OF assms(3)] by simp
    moreover have "f64_is_inf x \<Longrightarrow> f64_is_inf y" using mag assms(2) nonneg_mag_le[OF assms(2)] by (simp add: f64_is_inf_def)
    ultimately show ?thesis using y xnan assms(3) False round_mag_le_inf
      by (auto simp: f64_div_def Let_def intro!: small) (simp_all add: nan_or_le_def)
  qed
qed

lemma mul_ge:
  assumes "f64_nonneg c" "f64_is_finite c" "one_mag \<le> f64_mag c" "f64_nonneg n"
  shows "f64_nonneg (f64_mul c n) \<and> f64_mag n \<le> f64_mag (f64_mul c n) \<or> f64_mag n = 0"
proof (cases "f64_mag n = 0")
  case False
  have c: "\<not> f64_is_nan c" "\<not> f64_neg c" "\<not> f64_is_inf c" "f64_mag c \<noteq> 0"
    using assms(1,2,3) one_mag_le by (auto simp: f64_nonneg_def f64_is_finite_def f64_is_inf_def)
  have n: "\<not> f64_is_nan n" "\<not> f64_neg n" using assms(4) by (simp_all add: f64_nonneg_def)
  show ?thesis
  proof (cases "f64_is_inf n")
    case True
    then show ?thesis using c n False by (simp add: f64_mul_def f64_is_inf_def)
  next
    case fin: False
    have "units one_mag \<le> units (f64_mag c)"
      using assms(1,3) by (intro units_mono) simp_all
    then have "unit_scale \<le> units (f64_mag c)" by (simp add: units_one)
    then have "round_mag (units (f64_mag n) * unit_scale) unit_scale \<le>
        round_mag (units (f64_mag c) * units (f64_mag n)) unit_scale"
      by (intro round_mag_mono) (simp_all add: mult_le_mono)
    then have "f64_mag n \<le> round_mag (units (f64_mag c) * units (f64_mag n)) unit_scale"
      using round_mag_units[of "f64_mag n" unit_scale] assms(4) by simp
    then show ?thesis using c n fin False round_mag_le_inf by (simp add: f64_mul_def)
  qed
qed simp

lemma div_nonneg:
  assumes "f64_nonneg x" "f64_is_finite x" "f64_nonneg y" "0 < f64_mag y"
  shows "f64_nonneg (f64_div x y)"
    "f64_mag (f64_div x y) = (if f64_is_inf y then 0
       else round_mag (units (f64_mag x) * unit_scale) (units (f64_mag y)))"
proof -
  have x: "\<not> f64_is_nan x" "\<not> f64_neg x" "\<not> f64_is_inf x"
    using assms(1,2) by (auto simp: f64_nonneg_def f64_is_finite_def f64_is_inf_def)
  have y: "\<not> f64_is_nan y" "\<not> f64_neg y" using assms(3) by (simp_all add: f64_nonneg_def)
  show "f64_nonneg (f64_div x y)"
    "f64_mag (f64_div x y) = (if f64_is_inf y then 0
       else round_mag (units (f64_mag x) * unit_scale) (units (f64_mag y)))"
    using x y assms(4) round_mag_le_inf by (simp_all add: f64_div_def)
qed

lemma div_antimono:
  assumes "f64_nonneg x" "f64_is_finite x" "f64_nonneg y" "0 < f64_mag y" "f64_nonneg y'" "f64_mag y \<le> f64_mag y'"
  shows "f64_mag (f64_div x y') \<le> f64_mag (f64_div x y)"
proof (cases "f64_is_inf y'")
  case True
  then show ?thesis using assms div_nonneg(2)[of x y'] by simp
next
  case False
  have "f64_mag y' \<le> inf_mag" using assms(5) by simp
  with False assms(6) have "\<not> f64_is_inf y" unfolding f64_is_inf_def by linarith
  moreover have "units (f64_mag y) \<le> units (f64_mag y')" using assms(5,6) by (intro units_mono) simp_all
  then have "round_mag (units (f64_mag x) * unit_scale) (units (f64_mag y')) \<le>
      round_mag (units (f64_mag x) * unit_scale) (units (f64_mag y))"
    using assms(4,6) units_pos by (intro round_mag_mono) simp_all
  ultimately show ?thesis using False assms div_nonneg(2)[of x y'] div_nonneg(2)[of x y] by simp
qed

end
