(* ===== verification/Float_Text.thy ===== *)
theory Float_Text
  imports Float64 Rust_Str
begin

text \<open>
  How Rust writes a double with a fixed number of decimals (\<open>{:.6}\<close>): the exact value of
  the number rounded to the nearest decimal, ties to even; and \<open>round() as i64\<close>.
\<close>

definition fixed :: "nat \<Rightarrow> f64 \<Rightarrow> string" where
  "fixed k x =
     (if f64_is_nan x then ''NaN''
      else (if f64_neg x then ''-'' else []) @
        (if f64_is_inf x then ''inf''
         else let n = half_even (units (f64_mag x) * 10 ^ k) unit_scale
           in dec (n div 10 ^ k) @ (if k = 0 then [] else ''.'' @ zero_pad k (n mod 10 ^ k))))"

text \<open>Half away from zero; the cast maps a NaN to 0 and saturates.\<close>

definition round_i64 :: "f64 \<Rightarrow> int" where
  "round_i64 x =
     (if f64_is_nan x then 0
      else let m = (if f64_is_inf x then 2 ^ 63 else (2 * units (f64_mag x) + unit_scale) div (2 * unit_scale))
        in if f64_neg x then max (- (2 ^ 63)) (- int m) else min (2 ^ 63 - 1) (int m))"

lemma fixed_clean: "c \<in> set (fixed k x) \<Longrightarrow> c \<noteq> newline"
proof -
  assume "c \<in> set (fixed k x)"
  moreover have "newline \<notin> set (dec n)" "newline \<notin> set (zero_pad k n)" for n by (simp_all add: zero_pad_def)
  ultimately show ?thesis
    by (auto simp: fixed_def Let_def split: if_splits)
qed

lemma newline_not_fixed [simp]: "newline \<notin> set (fixed k x)"
  using fixed_clean by blast

end
