(* ===== verification/Float32.thy ===== *)
theory Float32
  imports Float_Text
begin

text \<open>
  IEEE 754 single precision, the \<open>f32\<close> of the vector store (\<open>agentbbs-core/src/rvf.rs\<close>), in the
  manner of \<open>Float64\<close>: a float is its 32 bits, an operation is the exact result rounded to nearest,
  ties to even, and a finite float is an integer number of units of \<open>2 ^ -149\<close>.
\<close>

section \<open>Bits\<close>

type_synonym f32 = u32

definition hidden32 :: nat where
  "hidden32 = 2 ^ 23"

definition inf_mag32 :: nat where
  "inf_mag32 = 255 * hidden32"

definition sign_bit32 :: nat where
  "sign_bit32 = 256 * hidden32"

definition f32_mag :: "f32 \<Rightarrow> nat" where
  "f32_mag x = unat x mod sign_bit32"

definition f32_neg :: "f32 \<Rightarrow> bool" where
  "f32_neg x \<longleftrightarrow> sign_bit32 \<le> unat x"

definition f32_of :: "bool \<Rightarrow> nat \<Rightarrow> f32" where
  "f32_of s m = word_of_nat (if s then sign_bit32 + m else m)"

definition f32_is_finite :: "f32 \<Rightarrow> bool" where
  "f32_is_finite x \<longleftrightarrow> f32_mag x < inf_mag32"

definition f32_is_nan :: "f32 \<Rightarrow> bool" where
  "f32_is_nan x \<longleftrightarrow> inf_mag32 < f32_mag x"

definition f32_is_inf :: "f32 \<Rightarrow> bool" where
  "f32_is_inf x \<longleftrightarrow> f32_mag x = inf_mag32"

definition f32_nan :: f32 where
  "f32_nan = f32_of False (inf_mag32 + 2 ^ 22)"

definition f32_key :: "f32 \<Rightarrow> int" where
  "f32_key x = (if f32_neg x then - int (f32_mag x) else int (f32_mag x))"

definition f32_le :: "f32 \<Rightarrow> f32 \<Rightarrow> bool" where
  "f32_le x y \<longleftrightarrow> \<not> f32_is_nan x \<and> \<not> f32_is_nan y \<and> f32_key x \<le> f32_key y"

definition f32_lt :: "f32 \<Rightarrow> f32 \<Rightarrow> bool" where
  "f32_lt x y \<longleftrightarrow> \<not> f32_is_nan x \<and> \<not> f32_is_nan y \<and> f32_key x < f32_key y"

definition f32_eq :: "f32 \<Rightarrow> f32 \<Rightarrow> bool" where
  "f32_eq x y \<longleftrightarrow> \<not> f32_is_nan x \<and> \<not> f32_is_nan y \<and> f32_key x = f32_key y"

section \<open>Rounding\<close>

function excess32 :: "nat \<Rightarrow> nat" where
  "excess32 q = (if q < 2 * hidden32 then 0 else Suc (excess32 (q div 2)))"
  by pat_completeness auto
termination
  by (relation "measure id") (auto simp: hidden32_def)

declare excess32.simps [simp del]

definition round_mag32 :: "nat \<Rightarrow> nat \<Rightarrow> nat" where
  "round_mag32 n d = (let s = excess32 (n div d) in min inf_mag32 (s * hidden32 + half_even n (d * 2 ^ s)))"

definition units32 :: "nat \<Rightarrow> nat" where
  "units32 m = (let e = m div hidden32; f = m mod hidden32 in if e = 0 then f else (hidden32 + f) * 2 ^ (e - 1))"

definition unit_scale32 :: nat where
  "unit_scale32 = 2 ^ 149"

definition f32_units :: "f32 \<Rightarrow> int" where
  "f32_units x = (if f32_neg x then - int (units32 (f32_mag x)) else int (units32 (f32_mag x)))"

section \<open>Operations\<close>

definition f32_flip :: "f32 \<Rightarrow> f32" where
  "f32_flip x = f32_of (\<not> f32_neg x) (f32_mag x)"

definition f32_add :: "f32 \<Rightarrow> f32 \<Rightarrow> f32" where
  "f32_add x y =
     (if f32_is_nan x \<or> f32_is_nan y then f32_nan
      else if f32_is_inf x then (if f32_is_inf y \<and> f32_neg x \<noteq> f32_neg y then f32_nan else x)
      else if f32_is_inf y then y
      else let v = f32_units x + f32_units y
           in if v = 0 then f32_of (f32_neg x \<and> f32_neg y) 0
              else f32_of (v < 0) (round_mag32 (nat \<bar>v\<bar>) 1))"

definition f32_sub :: "f32 \<Rightarrow> f32 \<Rightarrow> f32" where
  "f32_sub x y = f32_add x (f32_flip y)"

definition f32_mul :: "f32 \<Rightarrow> f32 \<Rightarrow> f32" where
  "f32_mul x y =
     (let s = (f32_neg x \<noteq> f32_neg y)
      in if f32_is_nan x \<or> f32_is_nan y then f32_nan
         else if f32_is_inf x \<or> f32_is_inf y
         then (if f32_mag x = 0 \<or> f32_mag y = 0 then f32_nan else f32_of s inf_mag32)
         else f32_of s (round_mag32 (units32 (f32_mag x) * units32 (f32_mag y)) unit_scale32))"

definition f32_div :: "f32 \<Rightarrow> f32 \<Rightarrow> f32" where
  "f32_div x y =
     (let s = (f32_neg x \<noteq> f32_neg y)
      in if f32_is_nan x \<or> f32_is_nan y then f32_nan
         else if f32_is_inf x then (if f32_is_inf y then f32_nan else f32_of s inf_mag32)
         else if f32_is_inf y then f32_of s 0
         else if f32_mag y = 0 then (if f32_mag x = 0 then f32_nan else f32_of s inf_mag32)
         else f32_of s (round_mag32 (units32 (f32_mag x) * unit_scale32) (units32 (f32_mag y))))"

definition f32_sqrt :: "f32 \<Rightarrow> f32" where
  "f32_sqrt x =
     (if f32_is_nan x then f32_nan
      else if f32_mag x = 0 then x
      else if f32_neg x then f32_nan
      else if f32_is_inf x then x
      else let n = units32 (f32_mag x) * unit_scale32; r = isqrt n
           in f32_of False (if r * r = n then round_mag32 r 1 else round_mag32 (2 * r + 1) 2))"

text \<open>\<open>Iterator::sum\<close> over \<open>f32\<close> starts at \<open>-0.0\<close>, the neutral element.\<close>

definition f32_sum :: "f32 list \<Rightarrow> f32" where
  "f32_sum xs = foldl f32_add (f32_of True 0) xs"

text \<open>The casts \<open>u64 as f32\<close> and \<open>f64 as f32\<close>.\<close>

definition f32_of_nat :: "nat \<Rightarrow> f32" where
  "f32_of_nat n = f32_of False (round_mag32 (n * unit_scale32) 1)"

definition f32_of_f64 :: "f64 \<Rightarrow> f32" where
  "f32_of_f64 x =
     (if f64_is_nan x then f32_nan
      else if f64_is_inf x then f32_of (f64_neg x) inf_mag32
      else f32_of (f64_neg x) (round_mag32 (units (f64_mag x) * unit_scale32) unit_scale))"

text \<open>How a single is written with a fixed number of decimals.\<close>

definition fixed32 :: "nat \<Rightarrow> f32 \<Rightarrow> string" where
  "fixed32 k x =
     (if f32_is_nan x then ''NaN''
      else (if f32_neg x then ''-'' else []) @
        (if f32_is_inf x then ''inf''
         else let n = half_even (units32 (f32_mag x) * 10 ^ k) unit_scale32
           in dec (n div 10 ^ k) @ (if k = 0 then [] else ''.'' @ zero_pad k (n mod 10 ^ k))))"

section \<open>Lemmas\<close>

lemma hidden32_pos [simp]: "0 < hidden32"
  by (simp add: hidden32_def)

lemma mag32_less_sign [simp]: "m \<le> inf_mag32 \<Longrightarrow> m < sign_bit32"
  by (simp add: inf_mag32_def sign_bit32_def hidden32_def)

lemma unat_f32_of: "m < sign_bit32 \<Longrightarrow> unat (f32_of s m) = (if s then sign_bit32 + m else m)"
  by (simp add: f32_of_def unat_of_nat sign_bit32_def hidden32_def)

lemma f32_of_simps [simp]:
  "m < sign_bit32 \<Longrightarrow> f32_mag (f32_of s m) = m" "m < sign_bit32 \<Longrightarrow> f32_neg (f32_of s m) = s"
  by (auto simp: f32_mag_def f32_neg_def unat_f32_of)

lemma round_mag32_le_inf [simp]: "round_mag32 n d \<le> inf_mag32"
  by (simp add: round_mag32_def Let_def)

lemma f32_le_trans: "f32_le x y \<Longrightarrow> f32_le y z \<Longrightarrow> f32_le x z"
  by (auto simp: f32_le_def)

lemma f32_key_0 [simp]: "f32_key 0 = 0" "\<not> f32_is_nan 0" "f32_mag 0 = 0" "\<not> f32_neg 0"
  by (simp_all add: f32_key_def f32_mag_def f32_neg_def f32_is_nan_def sign_bit32_def hidden32_def)

lemma f32_is_nan_of [simp]: "m \<le> inf_mag32 \<Longrightarrow> \<not> f32_is_nan (f32_of s m)"
  by (simp add: f32_is_nan_def)

end
