(* ===== verification/Rvf.thy ===== *)
theory Rvf
  imports Float32
begin

text \<open>
  The vector memory and its file format (\<open>agentbbs-core/src/rvf.rs\<close>): insertion, the byte
  layout and its bounds-checked reader. A vector component is the 32-bit pattern of its
  \<open>f32\<close>; metadata is any type with a codec, as \<open>serde_json\<close> gives one. The searches are in
  \<open>Rvf_Search\<close>.
\<close>

section \<open>Bytes\<close>

text \<open>\<open>to_le_bytes\<close> and \<open>from_le_bytes\<close> of an unsigned number in \<open>k\<close> bytes.\<close>

fun le_bytes :: "nat \<Rightarrow> nat \<Rightarrow> bytes" where
  "le_bytes 0 n = []"
| "le_bytes (Suc k) n = char_of (n mod 256) # le_bytes k (n div 256)"

fun le_nat :: "bytes \<Rightarrow> nat" where
  "le_nat [] = 0"
| "le_nat (b # bs) = of_char b + 256 * le_nat bs"

lemma length_le_bytes [simp]: "length (le_bytes k n) = k"
  by (induction k arbitrary: n) simp_all

lemma le_nat_le_bytes: "n < 256 ^ k \<Longrightarrow> le_nat (le_bytes k n) = n"
proof (induction k arbitrary: n)
  case (Suc k)
  then have "n div 256 < 256 ^ k"
    by (simp add: less_mult_imp_div_less mult.commute)
  with Suc.IH show ?case by simp
qed simp

text \<open>Well-formed UTF-8, as \<open>String::from_utf8\<close> decides it.\<close>

definition byte_in :: "nat \<Rightarrow> nat \<Rightarrow> char \<Rightarrow> bool" where
  "byte_in lo hi c \<longleftrightarrow> lo \<le> (of_char c :: nat) \<and> (of_char c :: nat) \<le> hi"

fun utf8_len :: "bytes \<Rightarrow> nat" where
  "utf8_len (a # s) =
     (if byte_in 0 0x7F a then 1
      else (case s of
        b # s' \<Rightarrow>
          if byte_in 0xC2 0xDF a \<and> byte_in 0x80 0xBF b then 2
          else (case s' of
            c # s'' \<Rightarrow>
              if byte_in 0x80 0xBF c \<and>
                 (byte_in 0xE0 0xE0 a \<and> byte_in 0xA0 0xBF b \<or>
                  (byte_in 0xE1 0xEC a \<or> byte_in 0xEE 0xEF a) \<and> byte_in 0x80 0xBF b \<or>
                  byte_in 0xED 0xED a \<and> byte_in 0x80 0x9F b) then 3
              else (case s'' of
                d # _ \<Rightarrow>
                  if byte_in 0x80 0xBF c \<and> byte_in 0x80 0xBF d \<and>
                     (byte_in 0xF0 0xF0 a \<and> byte_in 0x90 0xBF b \<or>
                      byte_in 0xF1 0xF3 a \<and> byte_in 0x80 0xBF b \<or>
                      byte_in 0xF4 0xF4 a \<and> byte_in 0x80 0x8F b) then 4 else 0
              | [] \<Rightarrow> 0)
          | [] \<Rightarrow> 0)
      | [] \<Rightarrow> 0))"
| "utf8_len [] = 0"

function utf8_ok :: "bytes \<Rightarrow> bool" where
  "utf8_ok s = (if s = [] then True else if utf8_len s = 0 then False
     else utf8_ok (drop (utf8_len s) s))"
  by pat_completeness auto
termination
  by (relation "measure length") simp_all

declare utf8_ok.simps [simp del]

section \<open>The store\<close>

record 'm rvf_record =
  rr_id :: string
  rr_vector :: "f32 list"
  rr_meta :: 'm

record 'm rvf_store =
  rs_dim :: nat
  rs_records :: "'m rvf_record list"

definition rvf_new :: "nat \<Rightarrow> 'm rvf_store" where
  "rvf_new dim = \<lparr>rs_dim = dim, rs_records = []\<rparr>"

definition rvf_dim :: "'m rvf_store \<Rightarrow> nat" where
  "rvf_dim s = rs_dim s"

definition rvf_len :: "'m rvf_store \<Rightarrow> nat" where
  "rvf_len s = length (rs_records s)"

definition rvf_is_empty :: "'m rvf_store \<Rightarrow> bool" where
  "rvf_is_empty s \<longleftrightarrow> rs_records s = []"

definition rvf_upsert :: "'m rvf_store \<Rightarrow> 'm rvf_record \<Rightarrow> 'm rvf_store result" where
  "rvf_upsert s rec =
     (if length (rr_vector rec) \<noteq> rs_dim s
      then Inl (malformed ''vector''
        (''expected dim '' @ dec (rs_dim s) @ '', got '' @ dec (length (rr_vector rec))))
      else if list_ex (\<lambda>r. rr_id r = rr_id rec) (rs_records s)
      then Inr (s\<lparr>rs_records :=
        update_first (\<lambda>r. rr_id r = rr_id rec) (\<lambda>_. rec) (rs_records s)\<rparr>)
      else Inr (s\<lparr>rs_records := rs_records s @ [rec]\<rparr>))"

section \<open>The byte layout\<close>

text \<open>\<open>serde_json\<close> on the metadata, and the message of a UTF-8 error.\<close>

record 'm meta_codec =
  mc_ser :: "'m \<Rightarrow> string + bytes"
  mc_de :: "bytes \<Rightarrow> string + 'm"
  mc_utf8_msg :: "bytes \<Rightarrow> string"

definition MAGIC :: bytes where
  "MAGIC = ''AGBBSRVF''"

definition VERSION :: u16 where
  "VERSION = 1"

definition record_to_bytes :: "'m meta_codec \<Rightarrow> 'm rvf_record \<Rightarrow> bytes" where
  "record_to_bytes C r =
     (let m = (case mc_ser C (rr_meta r) of Inr b \<Rightarrow> b | Inl _ \<Rightarrow> ''null'')
      in le_bytes 2 (unat (of_nat (length (rr_id r)) :: u16)) @ rr_id r @
         le_bytes 4 (unat (of_nat (length m) :: u32)) @ m @
         concat (map (\<lambda>f. le_bytes 4 (unat f)) (rr_vector r)))"

definition rvf_to_bytes :: "'m meta_codec \<Rightarrow> 'm rvf_store \<Rightarrow> bytes" where
  "rvf_to_bytes C s =
     MAGIC @ le_bytes 2 (unat VERSION) @ le_bytes 4 (unat (of_nat (rs_dim s) :: u32)) @
     le_bytes 4 (unat (of_nat (length (rs_records s)) :: u32)) @
     concat (map (record_to_bytes C) (rs_records s))"

record cursor =
  cu_buf :: bytes
  cu_pos :: nat

definition cursor_new :: "bytes \<Rightarrow> cursor" where
  "cursor_new buf = \<lparr>cu_buf = buf, cu_pos = 0\<rparr>"

definition cursor_take :: "cursor \<Rightarrow> nat \<Rightarrow> (bytes \<times> cursor) result" where
  "cursor_take c n =
     (let e = cu_pos c + n
      in if 2 ^ 64 \<le> e then Inl (malformed ''rvf'' ''length overflow'')
         else if length (cu_buf c) < e then Inl (malformed ''rvf'' ''unexpected end of buffer'')
         else Inr (take n (drop (cu_pos c) (cu_buf c)), c\<lparr>cu_pos := e\<rparr>))"

definition take_num :: "cursor \<Rightarrow> nat \<Rightarrow> (nat \<times> cursor) result" where
  "take_num c k = rbind (cursor_take c k) (\<lambda>(b, c). Inr (le_nat b, c))"

fun read_vector :: "nat \<Rightarrow> cursor \<Rightarrow> (f32 list \<times> cursor) result" where
  "read_vector 0 c = Inr ([], c)"
| "read_vector (Suc n) c =
     rbind (take_num c 4) (\<lambda>(f, c).
     rbind (read_vector n c) (\<lambda>(v, c). Inr (of_nat f # v, c)))"

definition read_id :: "'m meta_codec \<Rightarrow> cursor \<Rightarrow> (string \<times> cursor) result" where
  "read_id C c =
     rbind (take_num c 2) (\<lambda>(id_len, c).
     rbind (cursor_take c id_len) (\<lambda>(i, c).
       if utf8_ok i then Inr (i, c) else Inl (malformed ''rvf id'' (mc_utf8_msg C i))))"

definition read_meta :: "'m meta_codec \<Rightarrow> cursor \<Rightarrow> ('m \<times> cursor) result" where
  "read_meta C c =
     rbind (take_num c 4) (\<lambda>(meta_len, c).
     rbind (cursor_take c meta_len) (\<lambda>(b, c).
     rbind (serde_err (mc_de C b)) (\<lambda>m. Inr (m, c))))"

definition read_record :: "'m meta_codec \<Rightarrow> nat \<Rightarrow> cursor \<Rightarrow> ('m rvf_record \<times> cursor) result" where
  "read_record C dim c =
     rbind (read_id C c) (\<lambda>(i, c).
     rbind (read_meta C c) (\<lambda>(m, c).
     rbind (read_vector dim c) (\<lambda>(v, c). Inr (\<lparr>rr_id = i, rr_vector = v, rr_meta = m\<rparr>, c))))"

fun read_records ::
  "'m meta_codec \<Rightarrow> nat \<Rightarrow> nat \<Rightarrow> cursor \<Rightarrow> ('m rvf_record list \<times> cursor) result" where
  "read_records C dim 0 c = Inr ([], c)"
| "read_records C dim (Suc n) c =
     rbind (read_record C dim c) (\<lambda>(r, c).
     rbind (read_records C dim n c) (\<lambda>(rs, c). Inr (r # rs, c)))"

definition read_store :: "'m meta_codec \<Rightarrow> cursor \<Rightarrow> ('m rvf_store \<times> cursor) result" where
  "read_store C c =
     rbind (cursor_take c 8) (\<lambda>(magic, c).
     if magic \<noteq> MAGIC then Inl (malformed ''rvf'' ''bad magic'')
     else rbind (take_num c 2) (\<lambda>(version, c).
     if version \<noteq> unat VERSION
     then Inl (malformed ''rvf'' (''unsupported version '' @ dec version))
     else rbind (take_num c 4) (\<lambda>(dim, c).
     rbind (take_num c 4) (\<lambda>(n, c).
     rbind (read_records C dim n c) (\<lambda>(rs, c). Inr (\<lparr>rs_dim = dim, rs_records = rs\<rparr>, c))))))"

definition rvf_from_bytes :: "'m meta_codec \<Rightarrow> bytes \<Rightarrow> 'm rvf_store result" where
  "rvf_from_bytes C buf = rbind (read_store C (cursor_new buf)) (\<lambda>(s, c). Inr s)"

section \<open>Reading back what was written\<close>

text \<open>
  A reader consumes \<open>bs\<close> and returns \<open>x\<close>: from any cursor whose unread bytes start with
  \<open>bs\<close>, in a buffer below 2^64 bytes, it returns \<open>x\<close> and a cursor just behind them.
\<close>

definition cu_rest :: "cursor \<Rightarrow> bytes" where
  "cu_rest c = drop (cu_pos c) (cu_buf c)"

definition reads :: "(cursor \<Rightarrow> ('a \<times> cursor) result) \<Rightarrow> bytes \<Rightarrow> 'a \<Rightarrow> bool" where
  "reads p bs x \<longleftrightarrow> (\<forall>c rem. cu_pos c \<le> length (cu_buf c) \<longrightarrow> length (cu_buf c) < 2 ^ 64 \<longrightarrow>
     cu_rest c = bs @ rem \<longrightarrow> p c = Inr (x, c\<lparr>cu_pos := cu_pos c + length bs\<rparr>))"

lemma readsD:
  "reads p bs x \<Longrightarrow> cu_pos c \<le> length (cu_buf c) \<Longrightarrow> length (cu_buf c) < 2 ^ 64 \<Longrightarrow>
    cu_rest c = bs @ rem \<Longrightarrow> p c = Inr (x, c\<lparr>cu_pos := cu_pos c + length bs\<rparr>)"
  unfolding reads_def by blast

lemma reads_take: "reads (\<lambda>c. cursor_take c (length bs)) bs bs"
  unfolding reads_def
proof (intro allI impI)
  fix c rem assume c: "cu_pos c \<le> length (cu_buf c)" "length (cu_buf c) < 2 ^ 64" "cu_rest c = bs @ rem"
  have "length (cu_rest c) = length bs + length rem" by (simp add: c(3))
  then have "cu_pos c + length bs \<le> length (cu_buf c)" using c(1) by (simp add: cu_rest_def)
  with c show "cursor_take c (length bs) = Inr (bs, c\<lparr>cu_pos := cu_pos c + length bs\<rparr>)"
    by (simp add: cursor_take_def Let_def cu_rest_def)
qed

text \<open>Readers compose as the bytes they read.\<close>

lemma reads_bind:
  assumes "reads p bs x" "reads (q x) cs y"
  shows "reads (\<lambda>c. rbind (p c) (\<lambda>(x, c). q x c)) (bs @ cs) y"
  unfolding reads_def
proof (intro allI impI)
  fix c rem assume c: "cu_pos c \<le> length (cu_buf c)" "length (cu_buf c) < 2 ^ 64"
    "cu_rest c = (bs @ cs) @ rem"
  let ?c = "c\<lparr>cu_pos := cu_pos c + length bs\<rparr>"
  have p: "p c = Inr (x, ?c)" using readsD[OF assms(1) c(1,2), of "cs @ rem"] c(3) by simp
  have len: "length (cu_rest c) = length bs + length cs + length rem" by (simp add: c(3))
  have "cu_rest ?c = drop (length bs) (cu_rest c)" by (simp add: cu_rest_def add.commute)
  then have "cu_rest ?c = cs @ rem" by (simp add: c(3))
  moreover have "cu_pos ?c \<le> length (cu_buf ?c)" using len c(1) by (simp add: cu_rest_def)
  ultimately have "q x ?c = Inr (y, ?c\<lparr>cu_pos := cu_pos ?c + length cs\<rparr>)"
    using readsD[OF assms(2)] c(2) by simp
  with p show "rbind (p c) (\<lambda>(x, c). q x c) = Inr (y, c\<lparr>cu_pos := cu_pos c + length (bs @ cs)\<rparr>)"
    by (simp add: add.assoc)
qed

lemma reads_return: "reads (\<lambda>c. Inr (x, c)) [] x"
  by (simp add: reads_def)

lemma reads_map:
  assumes "reads p bs x"
  shows "reads (\<lambda>c. rbind (p c) (\<lambda>(x, c). Inr (f x, c))) bs (f x)"
  using reads_bind[OF assms, of "\<lambda>x c. Inr (f x, c)" "[]" "f x"] reads_return[of "f x"] by simp

lemma reads_num: "n < 256 ^ k \<Longrightarrow> reads (\<lambda>c. take_num c k) (le_bytes k n) n"
  using reads_map[OF reads_take, of "le_bytes k n" le_nat]
  by (simp add: take_num_def le_nat_le_bytes)

lemma take_num_word:
  assumes "n < 2 ^ LENGTH('w::len)" "LENGTH('w) = 8 * k"
  shows "reads (\<lambda>c. take_num c k) (le_bytes k (unat (of_nat n :: 'w word))) n"
proof -
  have "(256 :: nat) ^ k = 2 ^ (8 * k)" by (simp add: power_mult)
  with assms show ?thesis using reads_num[of n k] by (simp add: unat_of_nat)
qed

text \<open>What a record must satisfy to be written without loss.\<close>

definition record_ok :: "'m meta_codec \<Rightarrow> 'm rvf_record \<Rightarrow> bool" where
  "record_ok C r \<longleftrightarrow> length (rr_id r) < 2 ^ 16 \<and> utf8_ok (rr_id r) \<and>
     (case mc_ser C (rr_meta r) of
        Inl _ \<Rightarrow> False | Inr b \<Rightarrow> length b < 2 ^ 32 \<and> mc_de C b = Inr (rr_meta r))"

lemma reads_vector:
  "reads (read_vector (length v)) (concat (map (\<lambda>f. le_bytes 4 (unat f)) v)) v"
proof (induction v)
  case Nil
  then show ?case by (simp add: reads_def)
next
  case (Cons f v)
  have eq: "read_vector (length (f # v)) = (\<lambda>c. rbind (take_num c 4) (\<lambda>(n, c).
      rbind (read_vector (length v) c) (\<lambda>(v, c). Inr (of_nat n # v, c))))"
    by (rule ext) simp
  have "unat f < 256 ^ 4" using unsigned_less[of f] by simp
  then have num: "reads (\<lambda>c. take_num c 4) (le_bytes 4 (unat f)) (unat f)" by (rule reads_num)
  have "reads (\<lambda>c. rbind (read_vector (length v) c) (\<lambda>(v, c). Inr (of_nat (unat f) # v, c)))
      (concat (map (\<lambda>f. le_bytes 4 (unat f)) v)) (of_nat (unat f) # v)"
    by (rule reads_map[OF Cons.IH])
  from reads_bind[where q = "\<lambda>n c. rbind (read_vector (length v) c) (\<lambda>(v, c). Inr (of_nat n # v, c))",
      OF num this]
  show ?case unfolding eq by simp
qed

lemma reads_id:
  assumes "record_ok C r"
  shows "reads (read_id C) (le_bytes 2 (unat (of_nat (length (rr_id r)) :: u16)) @ rr_id r) (rr_id r)"
proof -
  have num: "reads (\<lambda>c. take_num c 2) (le_bytes 2 (unat (of_nat (length (rr_id r)) :: u16)))
      (length (rr_id r))"
    using assms by (intro take_num_word) (simp_all add: record_ok_def)
  have check: "reads (\<lambda>c. if utf8_ok (rr_id r) then Inr (rr_id r, c)
      else Inl (malformed ''rvf id'' (mc_utf8_msg C (rr_id r)))) [] (rr_id r)"
    using assms reads_return[of "rr_id r"] by (simp add: record_ok_def)
  note body = reads_bind[where q = "\<lambda>i c. if utf8_ok i then Inr (i, c)
      else Inl (malformed ''rvf id'' (mc_utf8_msg C i))", OF reads_take check]
  show ?thesis
    using reads_bind[where q = "\<lambda>n c. rbind (cursor_take c n) (\<lambda>(i, c). if utf8_ok i then Inr (i, c)
      else Inl (malformed ''rvf id'' (mc_utf8_msg C i)))", OF num body]
    by (simp add: read_id_def[abs_def])
qed

lemma reads_meta:
  assumes "record_ok C r" "mc_ser C (rr_meta r) = Inr b"
  shows "reads (read_meta C) (le_bytes 4 (unat (of_nat (length b) :: u32)) @ b) (rr_meta r)"
proof -
  have num: "reads (\<lambda>c. take_num c 4) (le_bytes 4 (unat (of_nat (length b) :: u32))) (length b)"
    using assms by (intro take_num_word) (simp_all add: record_ok_def)
  have check: "reads (\<lambda>c. rbind (serde_err (mc_de C b)) (\<lambda>m. Inr (m, c))) [] (rr_meta r)"
    using assms reads_return[of "rr_meta r"] by (simp add: record_ok_def serde_err_def)
  note body = reads_bind[where q = "\<lambda>b c. rbind (serde_err (mc_de C b)) (\<lambda>m. Inr (m, c))",
      OF reads_take check]
  show ?thesis
    using reads_bind[where q = "\<lambda>n c. rbind (cursor_take c n) (\<lambda>(b, c).
      rbind (serde_err (mc_de C b)) (\<lambda>m. Inr (m, c)))", OF num body]
    by (simp add: read_meta_def[abs_def])
qed

lemma record_eta: "\<lparr>rr_id = rr_id r, rr_vector = rr_vector r, rr_meta = rr_meta r\<rparr> = (r :: 'm rvf_record)"
  by simp

lemma store_eta: "\<lparr>rs_dim = rs_dim s, rs_records = rs_records s\<rparr> = (s :: 'm rvf_store)"
  by simp

lemma reads_record:
  assumes "record_ok C r"
  shows "reads (read_record C (length (rr_vector r))) (record_to_bytes C r) r"
proof -
  let ?fin = "\<lambda>i m v. \<lparr>rr_id = i, rr_vector = v, rr_meta = m\<rparr>"
  let ?q = "\<lambda>i m c. rbind (read_vector (length (rr_vector r)) c) (\<lambda>(v, c). Inr (?fin i m v, c))"
  obtain b where b: "mc_ser C (rr_meta r) = Inr b"
    using assms by (cases "mc_ser C (rr_meta r)") (auto simp: record_ok_def)
  have v: "reads (?q (rr_id r) (rr_meta r)) (concat (map (\<lambda>f. le_bytes 4 (unat f)) (rr_vector r))) r"
    using reads_map[OF reads_vector[of "rr_vector r"], of "?fin (rr_id r) (rr_meta r)"]
    unfolding record_eta .
  note m = reads_bind[where q = "?q (rr_id r)", OF reads_meta[OF assms b] v]
  show ?thesis
    using reads_bind[where q = "\<lambda>i c. rbind (read_meta C c) (\<lambda>(m, c). ?q i m c)",
      OF reads_id[OF assms] m]
    by (simp add: read_record_def[abs_def] record_to_bytes_def b)
qed

lemma reads_records:
  assumes "list_all (record_ok C) rs" "list_all (\<lambda>r. length (rr_vector r) = dim) rs"
  shows "reads (read_records C dim (length rs)) (concat (map (record_to_bytes C) rs)) rs"
  using assms
proof (induction rs)
  case Nil
  then show ?case by (simp add: reads_def)
next
  case (Cons r rs)
  let ?q = "\<lambda>r c. rbind (read_records C dim (length rs) c) (\<lambda>(rs, c). Inr (r # rs, c))"
  have "reads (?q r) (concat (map (record_to_bytes C) rs)) (r # rs)"
    using Cons by (intro reads_map) simp
  moreover have "reads (read_record C dim) (record_to_bytes C r) r"
    using reads_record[of C r] Cons.prems by simp
  moreover have "read_records C dim (length (r # rs)) =
      (\<lambda>c. rbind (read_record C dim c) (\<lambda>(r, c). ?q r c))"
    by (rule ext) simp
  ultimately show ?case
    using reads_bind[where q = ?q, of "read_record C dim" "record_to_bytes C r" r] by simp
qed

definition store_ok :: "'m meta_codec \<Rightarrow> 'm rvf_store \<Rightarrow> bool" where
  "store_ok C s \<longleftrightarrow> rs_dim s < 2 ^ 32 \<and> length (rs_records s) < 2 ^ 32 \<and>
     list_all (record_ok C) (rs_records s) \<and>
     list_all (\<lambda>r. length (rr_vector r) = rs_dim s) (rs_records s)"

lemma reads_store:
  assumes "store_ok C s"
  shows "reads (read_store C) (rvf_to_bytes C s) s"
proof -
  let ?n = "length (rs_records s)"
  let ?q4 = "\<lambda>dim n c. rbind (read_records C dim n c)
    (\<lambda>(rs, c). Inr (\<lparr>rs_dim = dim, rs_records = rs\<rparr>, c))"
  let ?q3 = "\<lambda>dim c. rbind (take_num c 4) (\<lambda>(n, c). ?q4 dim n c)"
  let ?q2 = "\<lambda>version c. if version \<noteq> unat VERSION
     then Inl (malformed ''rvf'' (''unsupported version '' @ dec version))
     else rbind (take_num c 4) (\<lambda>(dim, c). ?q3 dim c)"
  let ?q1 = "\<lambda>magic c. if magic \<noteq> MAGIC then Inl (malformed ''rvf'' ''bad magic'')
     else rbind (take_num c 2) (\<lambda>(version, c). ?q2 version c)"
  have nums: "reads (\<lambda>c. take_num c 4) (le_bytes 4 (unat (of_nat ?n :: u32))) ?n"
    "reads (\<lambda>c. take_num c 4) (le_bytes 4 (unat (of_nat (rs_dim s) :: u32))) (rs_dim s)"
    using assms by (auto intro!: take_num_word simp: store_ok_def)
  have version: "reads (\<lambda>c. take_num c 2) (le_bytes 2 (unat VERSION)) (unat VERSION)"
    by (rule reads_num) (simp add: VERSION_def)
  have "reads (?q4 (rs_dim s) ?n) (concat (map (record_to_bytes C) (rs_records s))) s"
    using reads_map[OF reads_records[of C "rs_records s" "rs_dim s"],
      of "\<lambda>rs. \<lparr>rs_dim = rs_dim s, rs_records = rs\<rparr>", unfolded store_eta] assms
    by (simp add: store_ok_def)
  note 3 = reads_bind[where q = "?q4 (rs_dim s)", OF nums(1) this]
  note 2 = reads_bind[where q = ?q3, OF nums(2) 3]
  from reads_bind[where q = ?q2, OF version] 2
  have 1: "reads (\<lambda>c. rbind (take_num c 2) (\<lambda>(version, c). ?q2 version c))
      (le_bytes 2 (unat VERSION) @ le_bytes 4 (unat (of_nat (rs_dim s) :: u32)) @
       le_bytes 4 (unat (of_nat ?n :: u32)) @ concat (map (record_to_bytes C) (rs_records s))) s"
    by simp
  have magic: "reads (\<lambda>c. cursor_take c 8) MAGIC MAGIC"
    using reads_take[of MAGIC] by (simp add: MAGIC_def eval_nat_numeral)
  from reads_bind[where q = ?q1, OF magic] 1 show ?thesis
    by (simp add: read_store_def[abs_def] rvf_to_bytes_def)
qed

section \<open>Truncated files\<close>

text \<open>What a reader made of a buffer, it makes of every longer one, without looking further.\<close>

definition grow :: "bytes \<Rightarrow> cursor \<Rightarrow> cursor" where
  "grow ext c = c\<lparr>cu_buf := cu_buf c @ ext\<rparr>"

definition stable :: "(cursor \<Rightarrow> ('a \<times> cursor) result) \<Rightarrow> bool" where
  "stable p \<longleftrightarrow> (\<forall>c x c' ext. p c = Inr (x, c') \<longrightarrow> cu_pos c \<le> length (cu_buf c) \<longrightarrow>
     cu_buf c' = cu_buf c \<and> cu_pos c' \<le> length (cu_buf c) \<and> p (grow ext c) = Inr (x, grow ext c'))"

lemma stableD:
  assumes "stable p" "p c = Inr (x, c')" "cu_pos c \<le> length (cu_buf c)"
  shows "cu_buf c' = cu_buf c" "cu_pos c' \<le> length (cu_buf c)" "p (grow ext c) = Inr (x, grow ext c')"
  using assms unfolding stable_def by blast+

lemma stable_take: "stable (\<lambda>c. cursor_take c n)"
  by (auto simp: stable_def cursor_take_def grow_def Let_def split: if_splits)

lemma stable_bind:
  assumes "stable p" "\<And>x. stable (q x)"
  shows "stable (\<lambda>c. rbind (p c) (\<lambda>(x, c). q x c))"
  unfolding stable_def
proof (intro allI impI)
  fix c y c' ext
  assume "rbind (p c) (\<lambda>(x, c). q x c) = Inr (y, c')" and pos: "cu_pos c \<le> length (cu_buf c)"
  then obtain x c1 where p: "p c = Inr (x, c1)" and q: "q x c1 = Inr (y, c')"
    by (auto simp: rbind_Inr_iff)
  note 1 = stableD[OF assms(1) p pos]
  have "cu_pos c1 \<le> length (cu_buf c1)" using 1 by simp
  from stableD[OF assms(2) q this] 1
  show "cu_buf c' = cu_buf c \<and> cu_pos c' \<le> length (cu_buf c) \<and>
      rbind (p (grow ext c)) (\<lambda>(x, c). q x c) = Inr (y, grow ext c')" by simp
qed

lemma stable_return: "stable (\<lambda>c. Inr (x, c))"
  by (simp add: stable_def)

lemma stable_lift: "stable (\<lambda>c. rbind r (\<lambda>x. Inr (x, c)))"
  by (cases r) (simp_all add: stable_def)

lemma stable_if: "stable p \<Longrightarrow> stable q \<Longrightarrow> stable (\<lambda>c. if b then p c else q c)"
  by (cases b) simp_all

lemma stable_fail: "stable (\<lambda>c. Inl e)"
  by (simp add: stable_def)

lemmas stable_intros = stable_bind stable_if stable_take stable_return stable_lift stable_fail

lemma stable_num: "stable (\<lambda>c. take_num c k)"
  unfolding take_num_def by (intro stable_intros)

lemma stable_vector: "stable (read_vector n)"
proof (induction n)
  case (Suc n)
  have "read_vector (Suc n) = (\<lambda>c. rbind (take_num c 4) (\<lambda>(f, c).
      rbind (read_vector n c) (\<lambda>(v, c). Inr (of_nat f # v, c))))"
    by (rule ext) simp
  then show ?case using Suc by (simp only:) (intro stable_intros stable_num)
qed (simp add: stable_def)

lemma stable_record: "stable (read_record C dim)"
  unfolding read_record_def[abs_def] read_id_def[abs_def] read_meta_def[abs_def]
  by (intro stable_intros stable_num stable_vector)

lemma stable_records: "stable (read_records C dim n)"
proof (induction n)
  case (Suc n)
  have "read_records C dim (Suc n) = (\<lambda>c. rbind (read_record C dim c) (\<lambda>(r, c).
      rbind (read_records C dim n c) (\<lambda>(rs, c). Inr (r # rs, c))))"
    by (rule ext) simp
  then show ?case using Suc by (simp only:) (intro stable_intros stable_record)
qed (simp add: stable_def)

lemma stable_store: "stable (read_store C)"
  unfolding read_store_def[abs_def] by (intro stable_intros stable_num stable_records)

lemma from_bytes_extended:
  assumes "reads (read_store C) bs s" "length (bs @ junk) < 2 ^ 64"
  shows "rvf_from_bytes C (bs @ junk) = Inr s"
  using readsD[OF assms(1), of "cursor_new (bs @ junk)" junk] assms(2)
  by (simp add: rvf_from_bytes_def cursor_new_def cu_rest_def)

lemma from_bytes_truncated:
  assumes "reads (read_store C) bs s" "length bs < 2 ^ 64" "k < length bs"
  shows "\<not> is_ok (rvf_from_bytes C (take k bs))"
proof
  assume "is_ok (rvf_from_bytes C (take k bs))"
  then obtain s' c' where p: "read_store C (cursor_new (take k bs)) = Inr (s', c')"
    by (auto simp: rvf_from_bytes_def is_ok_iff rbind_Inr_iff)
  have "cu_pos (cursor_new (take k bs)) \<le> length (cu_buf (cursor_new (take k bs)))"
    by (simp add: cursor_new_def)
  note st = stableD(2)[OF stable_store p this] stableD(3)[OF stable_store p this, of "drop k bs"]
  have "read_store C (cursor_new bs) = Inr (s', grow (drop k bs) c')"
    using st(2) by (simp add: cursor_new_def grow_def)
  moreover have "read_store C (cursor_new bs) = Inr (s, \<lparr>cu_buf = bs, cu_pos = length bs\<rparr>)"
    using readsD[OF assms(1), of "cursor_new bs" "[]"] assms(2) by (simp add: cursor_new_def cu_rest_def)
  ultimately have "cu_pos c' = length bs" by (cases c') (simp add: grow_def)
  with st(1) assms(3) show False by (simp add: cursor_new_def)
qed

section \<open>Insertion\<close>

definition rvf_wf :: "'m rvf_store \<Rightarrow> bool" where
  "rvf_wf s \<longleftrightarrow> distinct (map rr_id (rs_records s)) \<and>
     list_all (\<lambda>r. length (rr_vector r) = rs_dim s) (rs_records s)"

lemma upsert_wf:
  assumes "rvf_wf s" "rvf_upsert s r = Inr s'"
  shows "rvf_wf s' \<and> rs_dim s' = rs_dim s \<and>
    set (rs_records s') \<subseteq> insert r (set (rs_records s)) \<and>
    length (rs_records s') \<le> Suc (length (rs_records s))"
proof -
  have keys: "map rr_id (update_first (\<lambda>x. rr_id x = rr_id r) (\<lambda>_. r) rs) = map rr_id rs" for rs
    by (rule map_update_first) simp
  have sub: "set (update_first (\<lambda>x. rr_id x = rr_id r) (\<lambda>_. r) rs) \<subseteq> insert r (set rs)" for rs
    using set_update_first[of "\<lambda>x. rr_id x = rr_id r" "\<lambda>_. r" rs] by auto
  have fresh: "rr_id r \<notin> rr_id ` set rs" if "\<not> list_ex (\<lambda>x. rr_id x = rr_id r) rs" for rs
    using that by (auto simp: list_ex_iff)
  show ?thesis
    using assms sub[of "rs_records s"] fresh[of "rs_records s"]
    by (auto simp: rvf_upsert_def rvf_wf_def keys list_all_iff simp del: list_ex_iff split: if_splits)
qed

lemma upserts_ok:
  assumes "rvf_wf s" "list_all (record_ok C) (rs_records s)" "list_all (record_ok C) rs"
  shows "let s' = attempts rvf_upsert s rs in rvf_wf s' \<and> rs_dim s' = rs_dim s \<and>
    list_all (record_ok C) (rs_records s') \<and>
    length (rs_records s') \<le> length (rs_records s) + length rs"
  using assms
proof (induction rs arbitrary: s)
  case Nil
  then show ?case by simp
next
  case (Cons r rs)
  show ?case
  proof (cases "rvf_upsert s r")
    case (Inl e)
    with Cons show ?thesis by (force simp: Let_def attempt_def)
  next
    case (Inr s')
    note wf = upsert_wf[OF Cons.prems(1) Inr]
    have "list_all (record_ok C) (rs_records s')"
      using wf Cons.prems(2,3) by (auto simp: list_all_iff)
    from Cons.IH[of s', OF _ this] wf Cons.prems(3) Inr show ?thesis
      by (force simp: Let_def attempt_def)
  qed
qed

section \<open>Properties\<close>

text \<open>
  Property C35. The file format is lossless and detects truncation: any store built by
  insertions of records whose ids have less than 2^16 bytes and whose metadata survives its
  codec is read back exactly from its bytes, with whatever may follow them, and no proper
  prefix of them is read as a store.
\<close>

theorem rvf_roundtrip:
  assumes "s = attempts rvf_upsert (rvf_new dim) rs" "dim < 2 ^ 32" "length rs < 2 ^ 32"
    and "list_all (record_ok C) rs" "length (rvf_to_bytes C s @ junk) < 2 ^ 64"
  shows "rvf_from_bytes C (rvf_to_bytes C s @ junk) = Inr s \<and>
    (\<forall>k < length (rvf_to_bytes C s). \<not> is_ok (rvf_from_bytes C (take k (rvf_to_bytes C s))))"
proof -
  have "rvf_wf (rvf_new dim)" "list_all (record_ok C) (rs_records (rvf_new dim))"
    by (simp_all add: rvf_wf_def rvf_new_def)
  from upserts_ok[OF this assms(4)] have "rvf_wf s" "rs_dim s = dim"
      "list_all (record_ok C) (rs_records s)" "length (rs_records s) \<le> length rs"
    unfolding assms(1) Let_def by (simp_all add: rvf_new_def)
  with assms(2,3) have "store_ok C s"
    by (simp add: store_ok_def rvf_wf_def)
  from reads_store[OF this] have reads: "reads (read_store C) (rvf_to_bytes C s) s" .
  have "length (rvf_to_bytes C s) < 2 ^ 64" using assms(5) by simp
  from from_bytes_truncated[OF reads this] from_bytes_extended[OF reads assms(5)] show ?thesis
    by blast
qed

definition demo_codec :: "string meta_codec" where
  "demo_codec = \<lparr>mc_ser = Inr, mc_de = Inr, mc_utf8_msg = \<lambda>_. ''invalid''\<rparr>"

definition demo_records :: "string rvf_record list" where
  "demo_records = [\<lparr>rr_id = ''a'', rr_vector = [0x3F800000, 0], rr_meta = ''null''\<rparr>,
     \<lparr>rr_id = [CHR 0xC3, CHR 0xA9], rr_vector = [0, 0x3F800000], rr_meta = ''[]''\<rparr>]"

lemma demo_records_ok: "list_all (record_ok demo_codec) demo_records"
proof -
  have "utf8_ok ''a''" "utf8_ok [CHR 0xC3, CHR 0xA9]" by code_simp+
  then show ?thesis by (simp add: demo_records_def record_ok_def demo_codec_def)
qed

theorem rvf_roundtrip_witness:
  "rs_records (attempts rvf_upsert (rvf_new 2) demo_records) = demo_records \<and>
   rvf_from_bytes demo_codec
     (rvf_to_bytes demo_codec (attempts rvf_upsert (rvf_new 2) demo_records) @ ''junk'') =
   Inr (attempts rvf_upsert (rvf_new 2) demo_records)"
proof -
  have recs: "attempts rvf_upsert (rvf_new 2) demo_records = \<lparr>rs_dim = 2, rs_records = demo_records\<rparr>"
    by (simp add: attempt_def rvf_upsert_def rvf_new_def demo_records_def)
  have "length (rvf_to_bytes demo_codec (attempts rvf_upsert (rvf_new 2) demo_records) @ ''junk'') < 2 ^ 64"
    unfolding recs
    by (simp add: rvf_to_bytes_def record_to_bytes_def demo_records_def demo_codec_def MAGIC_def)
  from rvf_roundtrip[OF refl _ _ demo_records_ok this] show ?thesis
    by (simp add: recs) (simp add: demo_records_def)
qed

end
