(* ===== verification/Caps.thy ===== *)
theory Caps
  imports Prelude
begin

unbundle bit_operations_syntax

text \<open>
  Capability bits and roles (\<open>agentbbs-core/src/caps.rs\<close>). A capability set is the
  32-bit pattern the \<open>bitflags\<close> type wraps; \<open>contains\<close> is inclusion of bits.
\<close>

section \<open>Model\<close>

type_synonym caps = u32

definition READ :: caps where "READ = push_bit 0 1"
definition POST :: caps where "POST = push_bit 1 1"
definition CREATE_BOARD :: caps where "CREATE_BOARD = push_bit 2 1"
definition EDIT_OWN :: caps where "EDIT_OWN = push_bit 3 1"
definition MODERATE :: caps where "MODERATE = push_bit 4 1"
definition FEDERATE :: caps where "FEDERATE = push_bit 5 1"
definition PLUGINS :: caps where "PLUGINS = push_bit 6 1"
definition MARKETPLACE :: caps where "MARKETPLACE = push_bit 7 1"
definition SYSOP :: caps where "SYSOP = push_bit 8 1"
definition MCP_EGRESS :: caps where "MCP_EGRESS = push_bit 9 1"

definition caps_all :: caps where
  "caps_all = READ OR POST OR CREATE_BOARD OR EDIT_OWN OR MODERATE OR FEDERATE OR PLUGINS OR
     MARKETPLACE OR SYSOP OR MCP_EGRESS"

definition caps_contains :: "caps \<Rightarrow> caps \<Rightarrow> bool" where
  "caps_contains held needed \<longleftrightarrow> held AND needed = needed"

definition caps_default :: caps where
  "caps_default = READ OR POST OR EDIT_OWN"

text \<open>The wire form is the raw bits; reading truncates unknown bits.\<close>

definition caps_serialize :: "caps \<Rightarrow> u32" where
  "caps_serialize c = c"

definition caps_deserialize :: "u32 \<Rightarrow> caps" where
  "caps_deserialize bits = bits AND caps_all"

datatype role = Guest | Agent | Moderator | Federator | Sysop

fun role_caps :: "role \<Rightarrow> caps" where
  "role_caps Guest = READ"
| "role_caps Agent = caps_default OR PLUGINS OR MARKETPLACE OR MCP_EGRESS"
| "role_caps Moderator = (caps_default OR PLUGINS OR MARKETPLACE OR MCP_EGRESS) OR MODERATE OR CREATE_BOARD"
| "role_caps Federator =
     ((caps_default OR PLUGINS OR MARKETPLACE OR MCP_EGRESS) OR MODERATE OR CREATE_BOARD) OR FEDERATE"
| "role_caps Sysop = caps_all"

definition require_cap :: "caps \<Rightarrow> caps \<Rightarrow> string \<Rightarrow> unit result" where
  "require_cap held needed name =
     (if caps_contains held needed then Inr () else Inl (PermissionDenied name))"

section \<open>Lemmas\<close>

lemmas cap_bits = READ_def POST_def CREATE_BOARD_def EDIT_OWN_def MODERATE_def FEDERATE_def
  PLUGINS_def MARKETPLACE_def SYSOP_def MCP_EGRESS_def

lemma caps_contains_bits: "caps_contains held needed \<longleftrightarrow> (\<forall>i. bit needed i \<longrightarrow> bit held i)"
proof
  assume "caps_contains held needed"
  then have "bit (held AND needed) i \<longleftrightarrow> bit needed i" for i
    by (simp add: caps_contains_def)
  then show "\<forall>i. bit needed i \<longrightarrow> bit held i"
    by (simp add: bit_and_iff) blast
next
  assume "\<forall>i. bit needed i \<longrightarrow> bit held i"
  then show "caps_contains held needed"
    unfolding caps_contains_def by (intro bit_eqI) (auto simp: bit_and_iff)
qed

lemma caps_contains_refl [simp]: "caps_contains c c"
  by (simp add: caps_contains_def)

lemma caps_contains_trans: "caps_contains a b \<Longrightarrow> caps_contains b c \<Longrightarrow> caps_contains a c"
  by (auto simp: caps_contains_bits)

lemma caps_contains_or: "caps_contains a c \<Longrightarrow> caps_contains (a OR b) c"
  by (auto simp: caps_contains_bits bit_simps)

lemma require_cap_Inr_iff [result_simps]: "require_cap held needed name = Inr u \<longleftrightarrow> caps_contains held needed"
  by (simp add: require_cap_def)

lemma require_cap_Inl_iff [result_simps]:
  "require_cap held needed name = Inl e \<longleftrightarrow> \<not> caps_contains held needed \<and> e = PermissionDenied name"
  by (auto simp: require_cap_def)

lemma caps_all_value: "caps_all = 1023"
  by (simp add: caps_all_def cap_bits)

text \<open>Roles in increasing order of power.\<close>

fun role_rank :: "role \<Rightarrow> nat" where
  "role_rank Guest = 0"
| "role_rank Agent = 1"
| "role_rank Moderator = 2"
| "role_rank Federator = 3"
| "role_rank Sysop = 4"

section \<open>Properties\<close>

text \<open>
  Authorization is monotone in the role and never exceeds the defined bits: a
  check that a role passes is passed by every higher role, a set read from the wire passes
  no check for a bit the type does not define, writing and reading a set that has only
  defined bits is the identity, and only the two top roles may federate while only the
  system operator passes a SYSOP check.
\<close>

theorem role_checks_monotone:
  "(role_rank r \<le> role_rank s \<longrightarrow> require_cap (role_caps r) needed name = Inr () \<longrightarrow>
      require_cap (role_caps s) needed name = Inr ()) \<and>
   (require_cap (caps_deserialize bits) needed name = Inr () \<longrightarrow> caps_contains caps_all needed) \<and>
   (caps_contains caps_all c \<longrightarrow> caps_deserialize (caps_serialize c) = c) \<and>
   (require_cap (role_caps r) FEDERATE name = Inr () \<longleftrightarrow> 3 \<le> role_rank r) \<and>
   (require_cap (role_caps r) SYSOP name = Inr () \<longleftrightarrow> r = Sysop)"
proof (intro conjI impI)
  assume le: "role_rank r \<le> role_rank s" and ok: "require_cap (role_caps r) needed name = Inr ()"
  have "caps_contains (role_caps s) (role_caps r)"
    using le by (cases r; cases s)
      (simp_all add: caps_contains_def caps_default_def caps_all_def cap_bits)
  with ok show "require_cap (role_caps s) needed name = Inr ()"
    by (auto simp: require_cap_Inr_iff intro: caps_contains_trans)
next
  assume "require_cap (caps_deserialize bits) needed name = Inr ()"
  then show "caps_contains caps_all needed"
    by (auto simp: require_cap_Inr_iff caps_contains_bits caps_deserialize_def bit_simps)
next
  assume "caps_contains caps_all c"
  then show "caps_deserialize (caps_serialize c) = c"
    by (simp add: caps_deserialize_def caps_serialize_def caps_contains_def ac_simps)
next
  show "require_cap (role_caps r) FEDERATE name = Inr () \<longleftrightarrow> 3 \<le> role_rank r"
    by (cases r) (simp_all add: require_cap_Inr_iff caps_contains_def caps_default_def caps_all_def cap_bits)
  show "require_cap (role_caps r) SYSOP name = Inr () \<longleftrightarrow> r = Sysop"
    by (cases r) (simp_all add: require_cap_Inr_iff caps_contains_def caps_default_def caps_all_def cap_bits)
qed

theorem role_checks_monotone_witness:
  "role_rank Agent \<le> role_rank Moderator \<and>
   require_cap (role_caps Moderator) POST ''POST'' = Inr () \<and>
   caps_deserialize (caps_serialize MODERATE) = MODERATE"
proof -
  have "require_cap (role_caps Agent) POST ''POST'' = Inr ()" "caps_contains caps_all MODERATE"
    by (simp_all add: require_cap_Inr_iff caps_contains_def caps_default_def caps_all_def cap_bits)
  then show ?thesis
    using role_checks_monotone[of Agent Moderator POST "''POST''" 0 MODERATE] by simp
qed

end
