(* ===== verification/Report.thy ===== *)
theory Report
  imports Identity
begin

text \<open>
  Operational events and the bounded in-memory reporter
  (\<open>agentbbs-core/src/report.rs\<close>). The detail of an event is a JSON value, of which the
  components build strings, numbers, booleans and objects. A mutex-guarded queue is its
  content: every operation holds the lock from start to end.
\<close>

section \<open>Model\<close>

text \<open>\<open>serde_json::Value\<close>: a number is an integer or the bits of a double; an object's keys are ordered.\<close>

datatype json =
    JNull
  | JBool bool
  | JNum int
  | JFloat u64
  | JStr string
  | JArr "json list"
  | JObj "(string \<times> json) list"

text \<open>\<open>serde_json\<close> lookups: \<open>Value::get\<close> on an object, and \<open>as_str\<close>.\<close>

definition json_get :: "json \<Rightarrow> string \<Rightarrow> json option" where
  "json_get v k = (case v of JObj m \<Rightarrow> map_of m k | _ \<Rightarrow> None)"

definition as_str :: "json \<Rightarrow> string option" where
  "as_str v = (case v of JStr s \<Rightarrow> Some s | _ \<Rightarrow> None)"

datatype event_kind =
    EvSessionOpen
  | EvSessionClose
  | EvPost
  | EvBoardCreate
  | EvModeration
  | EvFederationLink
  | EvFederationReceive
  | EvPluginInvoke
  | EvMarketplace
  | EvMcpCall
  | EvSecurity
  | EvAgentConfig

datatype severity = Info | Warn | Critical

fun kind_severity :: "event_kind \<Rightarrow> severity" where
  "kind_severity EvSecurity = Warn"
| "kind_severity EvModeration = Warn"
| "kind_severity EvAgentConfig = Warn"
| "kind_severity _ = Info"

record event =
  ev_at :: time
  ev_kind :: event_kind
  ev_agent :: "agent_id option"
  ev_subject :: string
  ev_detail :: json

text \<open>The clock reading of \<open>Event::now\<close> is an argument.\<close>

definition event_now :: "time \<Rightarrow> event_kind \<Rightarrow> string \<Rightarrow> event" where
  "event_now now k subject =
     \<lparr>ev_at = now, ev_kind = k, ev_agent = None, ev_subject = subject, ev_detail = JNull\<rparr>"

definition event_by :: "agent_id \<Rightarrow> event \<Rightarrow> event" where
  "event_by a e = e\<lparr>ev_agent := Some a\<rparr>"

definition event_with :: "json \<Rightarrow> event \<Rightarrow> event" where
  "event_with d e = e\<lparr>ev_detail := d\<rparr>"

definition event_severity :: "event \<Rightarrow> severity" where
  "event_severity e = kind_severity (ev_kind e)"

record memory_reporter =
  mr_cap :: nat
  mr_events :: "event list"

definition memory_reporter_new :: "nat \<Rightarrow> memory_reporter" where
  "memory_reporter_new cap = \<lparr>mr_cap = cap, mr_events = []\<rparr>"

definition memory_reporter_default :: memory_reporter where
  "memory_reporter_default = memory_reporter_new 1024"

definition mr_snapshot :: "memory_reporter \<Rightarrow> event list" where
  "mr_snapshot r = mr_events r"

definition mr_len :: "memory_reporter \<Rightarrow> nat" where
  "mr_len r = length (mr_events r)"

definition mr_is_empty :: "memory_reporter \<Rightarrow> bool" where
  "mr_is_empty r \<longleftrightarrow> mr_events r = []"

definition mr_report :: "memory_reporter \<Rightarrow> event \<Rightarrow> memory_reporter result" where
  "mr_report r e =
     (let q = (if length (mr_events r) = mr_cap r then drop 1 (mr_events r) else mr_events r)
      in Inr (r\<lparr>mr_events := q @ [e]\<rparr>))"

definition null_report :: "event \<Rightarrow> unit result" where
  "null_report e = Inr ()"

section \<open>The ring\<close>

text \<open>Reporting a sequence of events; the reporter never fails.\<close>

definition mr_run :: "memory_reporter \<Rightarrow> event list \<Rightarrow> memory_reporter" where
  "mr_run r es = attempts mr_report r es"

lemma window_snoc:
  assumes "0 < cap"
  shows "window cap (xs @ [x]) =
    (if length (window cap xs) = cap then drop 1 (window cap xs) @ [x] else window cap xs @ [x])"
proof (cases "cap \<le> length xs")
  case True
  with assms have "Suc (length xs) - cap = Suc (length xs - cap)" by simp
  with True assms show ?thesis by (simp add: window_def drop_Suc drop_tl)
next
  case False
  then show ?thesis by (simp add: window_def)
qed

lemma mr_run_window:
  assumes "0 < cap"
  shows "mr_run (memory_reporter_new cap) es = \<lparr>mr_cap = cap, mr_events = window cap es\<rparr>"
proof (induction es rule: rev_induct)
  case Nil
  then show ?case by (simp add: mr_run_def memory_reporter_new_def window_def)
next
  case (snoc e es)
  then show ?case
    using window_snoc[OF assms, of es e]
    by (auto simp: mr_run_def attempt_def mr_report_def)
qed

lemma mr_run_no_cap: "mr_run (memory_reporter_new 0) es = \<lparr>mr_cap = 0, mr_events = window (length es) es\<rparr>"
proof (induction es rule: rev_induct)
  case Nil
  then show ?case by (simp add: mr_run_def memory_reporter_new_def window_def)
next
  case (snoc e es)
  then show ?case by (cases es) (auto simp: mr_run_def attempt_def mr_report_def window_def)
qed

section \<open>Properties\<close>

text \<open>
  The reporter's snapshot after any events is exactly the last \<open>cap\<close> of them,
  oldest first, for every capacity but zero; with capacity zero nothing is ever dropped and
  all events are kept.
\<close>

theorem reporter_keeps_newest:
  "mr_snapshot (mr_run (memory_reporter_new cap) es) = (if cap = 0 then es else window cap es) \<and>
   mr_len (mr_run (memory_reporter_new cap) es) =
     (if cap = 0 then length es else min cap (length es))"
  by (cases "cap = 0")
     (simp_all add: mr_snapshot_def mr_len_def mr_run_window mr_run_no_cap length_window)

end
