(* ===== verification/Service.thy ===== *)
theory Service
  imports Memory_Store Caps Report
begin

text \<open>
  The service every front end drives (\<open>agentbbs-core/src/service.rs\<close>): operations over any
  store and any reporter, guarded by the caller's capabilities. The store's operations \<open>T\<close>,
  the reporter's \<open>R\<close>, and the clock are arguments. An operation returns the new state and
  its result, since a refused post still reports an event.
\<close>

section \<open>Model\<close>

record ('s, 'r) bbs =
  bbs_store :: 's
  bbs_reporter :: 'r

definition bbs_new :: "'s \<Rightarrow> 'r \<Rightarrow> ('s, 'r) bbs" where
  "bbs_new s r = \<lparr>bbs_store = s, bbs_reporter = r\<rparr>"

definition with_memory_reporter :: "'s \<Rightarrow> ('s, memory_reporter) bbs" where
  "with_memory_reporter s = bbs_new s memory_reporter_default"

text \<open>Reporting never breaks an operation: an error of the reporter is dropped.\<close>

definition emit :: "('r \<Rightarrow> event \<Rightarrow> 'r result) \<Rightarrow> ('s, 'r) bbs \<Rightarrow> event \<Rightarrow> ('s, 'r) bbs" where
  "emit R b e = b\<lparr>bbs_reporter := attempt R (bbs_reporter b) e\<rparr>"

text \<open>The question mark in an operation on the service: an error keeps the state.\<close>

fun orelse_keep :: "'b \<Rightarrow> 'a result \<Rightarrow> ('a \<Rightarrow> 'b \<times> 'c result) \<Rightarrow> 'b \<times> 'c result" where
  "orelse_keep b (Inl e) f = (b, Inl e)"
| "orelse_keep b (Inr x) f = f x"

definition svc_create_board ::
  "'s store_ops \<Rightarrow> ('r \<Rightarrow> event \<Rightarrow> 'r result) \<Rightarrow> time \<Rightarrow> ('s, 'r) bbs \<Rightarrow> caps \<Rightarrow> board
    \<Rightarrow> ('s, 'r) bbs \<times> unit result" where
  "svc_create_board T R now b cs bd =
     orelse_keep b (require_cap cs CREATE_BOARD ''CREATE_BOARD'') (\<lambda>_.
     orelse_keep b (op_get_board T (bbs_store b) (bd_slug bd)) (\<lambda>found.
     if found \<noteq> None then (b, Inl (AlreadyExists (''board '' @ bd_slug bd)))
     else orelse_keep b (op_put_board T (bbs_store b) bd) (\<lambda>s.
       (emit R (b\<lparr>bbs_store := s\<rparr>)
          (event_with (JObj [(''title'', JStr (bd_title bd))])
            (event_by (bd_founder bd) (event_now now EvBoardCreate (bd_slug bd)))),
        Inr ()))))"

definition svc_list_boards :: "'s store_ops \<Rightarrow> ('s, 'r) bbs \<Rightarrow> caps \<Rightarrow> board list result" where
  "svc_list_boards T b cs =
     rbind (require_cap cs READ ''READ'') (\<lambda>_. op_list_boards T (bbs_store b))"

definition svc_read_board ::
  "'s store_ops \<Rightarrow> ('s, 'r) bbs \<Rightarrow> caps \<Rightarrow> string \<Rightarrow> nat \<Rightarrow> message list result" where
  "svc_read_board T b cs slug limit =
     rbind (require_cap cs READ ''READ'') (\<lambda>_. op_list_messages T (bbs_store b) slug limit)"

definition svc_post ::
  "'s store_ops \<Rightarrow> ('r \<Rightarrow> event \<Rightarrow> 'r result) \<Rightarrow> env \<Rightarrow> time \<Rightarrow> ('s, 'r) bbs \<Rightarrow> caps \<Rightarrow> message
    \<Rightarrow> ('s, 'r) bbs \<times> message_id result" where
  "svc_post T R E now b cs m =
     orelse_keep b (require_cap cs POST ''POST'') (\<lambda>_.
     case message_verify E m of
       Inl _ \<Rightarrow> (emit R b (event_by (mb_author (msg_body m))
                   (event_now now EvSecurity ''post.bad_signature'')), Inl BadSignature)
     | Inr _ \<Rightarrow>
         orelse_keep b (op_get_board T (bbs_store b) (mb_board (msg_body m))) (\<lambda>found.
         orelse_keep b (ok_or (NotFound (''board '' @ mb_board (msg_body m))) found) (\<lambda>bd.
         if bd_locked bd then (b, Inl (PermissionDenied ''board locked''))
         else orelse_keep b (op_put_message T (bbs_store b) m) (\<lambda>s.
           (emit R (b\<lparr>bbs_store := s\<rparr>)
              (event_with (JObj [(''id'', JStr (mid (msg_id m))),
                                 (''subject'', JStr (mb_subject (msg_body m)))])
                (event_by (mb_author (msg_body m)) (event_now now EvPost (mb_board (msg_body m))))),
            Inr (msg_id m))))))"

text \<open>\<open>post_text\<close> reads the clock for the message and again for the event.\<close>

definition svc_post_text ::
  "'s store_ops \<Rightarrow> ('r \<Rightarrow> event \<Rightarrow> 'r result) \<Rightarrow> env \<Rightarrow> time \<Rightarrow> time \<Rightarrow> ('s, 'r) bbs \<Rightarrow> caps \<Rightarrow> identity
    \<Rightarrow> string \<Rightarrow> string \<Rightarrow> string \<Rightarrow> ('s, 'r) bbs \<times> message_id result" where
  "svc_post_text T R E created now b cs i slug subject txt =
     orelse_keep b
       (message_sign E i \<lparr>mb_board = slug, mb_parent = None, mb_subject = subject, mb_body = txt,
          mb_author = ident i, mb_handle = [], mb_created_at = created, mb_kind = Post\<rparr>)
       (svc_post T R E now b cs)"

definition svc_set_locked ::
  "'s store_ops \<Rightarrow> ('r \<Rightarrow> event \<Rightarrow> 'r result) \<Rightarrow> time \<Rightarrow> ('s, 'r) bbs \<Rightarrow> caps \<Rightarrow> string \<Rightarrow> bool
    \<Rightarrow> agent_id \<Rightarrow> ('s, 'r) bbs \<times> unit result" where
  "svc_set_locked T R now b cs slug locked by_agent =
     orelse_keep b (require_cap cs MODERATE ''MODERATE'') (\<lambda>_.
     orelse_keep b (op_get_board T (bbs_store b) slug) (\<lambda>found.
     orelse_keep b (ok_or (NotFound (''board '' @ slug)) found) (\<lambda>bd.
     orelse_keep b (op_put_board T (bbs_store b) (bd\<lparr>bd_locked := locked\<rparr>)) (\<lambda>s.
       (emit R (b\<lparr>bbs_store := s\<rparr>)
          (event_with (JObj [(''action'', JStr ''set_locked''), (''locked'', JBool locked)])
            (event_by by_agent (event_now now EvModeration slug))),
        Inr ())))))"

definition svc_list_personas :: "'s store_ops \<Rightarrow> ('s, 'r) bbs \<Rightarrow> caps \<Rightarrow> persona list result" where
  "svc_list_personas T b cs =
     rbind (require_cap cs READ ''READ'') (\<lambda>_. op_list_personas T (bbs_store b))"

definition svc_set_persona ::
  "'s store_ops \<Rightarrow> ('r \<Rightarrow> event \<Rightarrow> 'r result) \<Rightarrow> time \<Rightarrow> ('s, 'r) bbs \<Rightarrow> caps \<Rightarrow> persona
    \<Rightarrow> agent_id \<Rightarrow> ('s, 'r) bbs \<times> unit result" where
  "svc_set_persona T R now b cs p by_agent =
     orelse_keep b (require_cap cs SYSOP ''SYSOP'') (\<lambda>_.
     orelse_keep b (op_put_persona T (bbs_store b) p) (\<lambda>s.
       (emit R (b\<lparr>bbs_store := s\<rparr>)
          (event_with (JObj [(''action'', JStr ''set_persona'')])
            (event_by by_agent (event_now now EvAgentConfig (pa_handle p)))),
        Inr ())))"

definition svc_delete_persona ::
  "'s store_ops \<Rightarrow> ('r \<Rightarrow> event \<Rightarrow> 'r result) \<Rightarrow> time \<Rightarrow> ('s, 'r) bbs \<Rightarrow> caps \<Rightarrow> string
    \<Rightarrow> agent_id \<Rightarrow> ('s, 'r) bbs \<times> unit result" where
  "svc_delete_persona T R now b cs h by_agent =
     orelse_keep b (require_cap cs SYSOP ''SYSOP'') (\<lambda>_.
     orelse_keep b (op_delete_persona T (bbs_store b) h) (\<lambda>s.
       (emit R (b\<lparr>bbs_store := s\<rparr>)
          (event_with (JObj [(''action'', JStr ''delete_persona'')])
            (event_by by_agent (event_now now EvAgentConfig h))),
        Inr ())))"

section \<open>What a request does to the store\<close>

text \<open>The state-changing requests of the service.\<close>

datatype svc_req =
    SCreate caps board
  | SPost caps message
  | SPostText caps identity string string string time
  | SLock caps string bool agent_id
  | SSetPersona caps persona agent_id
  | SDeletePersona caps string agent_id

fun svc_step :: "'s store_ops \<Rightarrow> ('r \<Rightarrow> event \<Rightarrow> 'r result) \<Rightarrow> env \<Rightarrow> ('s, 'r) bbs \<Rightarrow> time \<times> svc_req
    \<Rightarrow> ('s, 'r) bbs" where
  "svc_step T R E b (now, SCreate cs bd) = fst (svc_create_board T R now b cs bd)"
| "svc_step T R E b (now, SPost cs m) = fst (svc_post T R E now b cs m)"
| "svc_step T R E b (now, SPostText cs i sl su tx t) =
     fst (svc_post_text T R E t now b cs i sl su tx)"
| "svc_step T R E b (now, SLock cs sl l a) = fst (svc_set_locked T R now b cs sl l a)"
| "svc_step T R E b (now, SSetPersona cs p a) = fst (svc_set_persona T R now b cs p a)"
| "svc_step T R E b (now, SDeletePersona cs h a) = fst (svc_delete_persona T R now b cs h a)"

fun req_caps :: "svc_req \<Rightarrow> caps" where
  "req_caps (SCreate cs bd) = cs"
| "req_caps (SPost cs m) = cs"
| "req_caps (SPostText cs i sl su tx t) = cs"
| "req_caps (SLock cs sl l a) = cs"
| "req_caps (SSetPersona cs p a) = cs"
| "req_caps (SDeletePersona cs h a) = cs"

lemma emit_store [simp]: "bbs_store (emit R b e) = bbs_store b"
  by (simp add: emit_def)

lemma orelse_keep_Inr_iff [result_simps]: "orelse_keep b r f = (b', Inr y) \<longleftrightarrow>
    (\<exists>x. r = Inr x \<and> f x = (b', Inr y))"
  by (cases r) auto

text \<open>The writes a request may make, and what justified each.\<close>

inductive justified :: "'s store_ops \<Rightarrow> env \<Rightarrow> 's \<Rightarrow> caps \<Rightarrow> store_op \<Rightarrow> bool"
  for T E s cs where
  create: "caps_contains cs CREATE_BOARD \<Longrightarrow> op_get_board T s (bd_slug bd) = Inr None \<Longrightarrow>
    justified T E s cs (PutBoard bd)"
| lock: "caps_contains cs MODERATE \<Longrightarrow> op_get_board T s slug = Inr (Some bd) \<Longrightarrow>
    justified T E s cs (PutBoard (bd\<lparr>bd_locked := l\<rparr>))"
| post: "caps_contains cs POST \<Longrightarrow> message_verify E m = Inr () \<Longrightarrow>
    op_get_board T s (mb_board (msg_body m)) = Inr (Some bd) \<Longrightarrow> \<not> bd_locked bd \<Longrightarrow>
    justified T E s cs (PutMessage m)"
| set_persona: "caps_contains cs SYSOP \<Longrightarrow> justified T E s cs (PutPersona p)"
| delete_persona: "caps_contains cs SYSOP \<Longrightarrow> justified T E s cs (DeletePersona h)"

inductive_cases justified_PutBoard: "justified T E s cs (PutBoard bd)"
inductive_cases justified_PutMessage: "justified T E s cs (PutMessage m)"

text \<open>Accepted writes to a store, one after another.\<close>

fun writes :: "'s store_ops \<Rightarrow> 's \<Rightarrow> store_op list \<Rightarrow> 's \<Rightarrow> bool" where
  "writes T s [] s' \<longleftrightarrow> s' = s"
| "writes T s (q # qs) s' \<longleftrightarrow> (\<exists>s1. store_exec T s q = (s1, Done) \<and> writes T s1 qs s')"

lemma writes_append: "writes T s (ps @ qs) s' \<longleftrightarrow> (\<exists>s1. writes T s ps s1 \<and> writes T s1 qs s')"
  by (induction ps arbitrary: s) auto

lemma svc_post_effect:
  "bbs_store (fst (svc_post T R E now b cs m)) = bbs_store b \<or>
   op_put_message T (bbs_store b) m = Inr (bbs_store (fst (svc_post T R E now b cs m))) \<and>
   justified T E (bbs_store b) cs (PutMessage m)"
proof (cases "caps_contains cs POST")
  case False
  then show ?thesis by (simp add: svc_post_def require_cap_def)
next
  case True
  show ?thesis
  proof (cases "message_verify E m")
    case (Inl e)
    with True show ?thesis by (simp add: svc_post_def require_cap_def)
  next
    case (Inr u)
    with True show ?thesis
      by (cases "op_get_board T (bbs_store b) (mb_board (msg_body m))";
          cases "op_put_message T (bbs_store b) m")
         (auto simp: svc_post_def require_cap_def ok_or_def justified.simps split: option.split)
  qed
qed

text \<open>A request leaves the store as it was or makes one justified write.\<close>

lemma svc_step_effect:
  "bbs_store (svc_step T R E b (now, req)) = bbs_store b \<or>
   (\<exists>q. store_exec T (bbs_store b) q = (bbs_store (svc_step T R E b (now, req)), Done) \<and>
        justified T E (bbs_store b) (req_caps req) q)"
proof (cases req)
  case (SCreate cs bd)
  show ?thesis
    by (cases "op_get_board T (bbs_store b) (bd_slug bd)"; cases "op_put_board T (bbs_store b) bd")
       (auto simp: SCreate svc_create_board_def require_cap_def
         intro!: exI[of _ "PutBoard bd"] justified.create)
next
  case (SPost cs m)
  show ?thesis
    using svc_post_effect[of T R E now b cs m]
    by (auto simp: SPost intro!: exI[of _ "PutMessage m"])
next
  case (SPostText cs i sl su tx t)
  show ?thesis
  proof (cases "message_sign E i \<lparr>mb_board = sl, mb_parent = None, mb_subject = su, mb_body = tx,
          mb_author = ident i, mb_handle = [], mb_created_at = t, mb_kind = Post\<rparr>")
    case (Inl e)
    then show ?thesis by (simp add: SPostText svc_post_text_def)
  next
    case (Inr m)
    then show ?thesis
      using svc_post_effect[of T R E now b cs m]
      by (auto simp: SPostText svc_post_text_def intro!: exI[of _ "PutMessage m"])
  qed
next
  case (SLock cs sl l a)
  show ?thesis
  proof (cases "op_get_board T (bbs_store b) sl")
    case (Inl e)
    then show ?thesis by (simp add: SLock svc_set_locked_def require_cap_def)
  next
    case (Inr found)
    show ?thesis
    proof (cases found)
      case None
      with Inr show ?thesis by (simp add: SLock svc_set_locked_def require_cap_def ok_or_def)
    next
      case (Some bd)
      with Inr show ?thesis
        by (cases "op_put_board T (bbs_store b) (bd\<lparr>bd_locked := l\<rparr>)")
           (auto simp: SLock svc_set_locked_def require_cap_def ok_or_def
             intro!: exI[of _ "PutBoard (bd\<lparr>bd_locked := l\<rparr>)"] justified.lock)
    qed
  qed
next
  case (SSetPersona cs p a)
  show ?thesis
    by (cases "op_put_persona T (bbs_store b) p")
       (auto simp: SSetPersona svc_set_persona_def require_cap_def
         intro!: exI[of _ "PutPersona p"] justified.set_persona)
next
  case (SDeletePersona cs h a)
  show ?thesis
    by (cases "op_delete_persona T (bbs_store b) h")
       (auto simp: SDeletePersona svc_delete_persona_def require_cap_def
         intro!: exI[of _ "DeletePersona h"] justified.delete_persona)
qed

section \<open>The service over any store that fulfils the contract\<close>

definition abs_good :: "env \<Rightarrow> abs_store \<Rightarrow> bool" where
  "abs_good E a \<longleftrightarrow> bt_wf (as_boards a) \<and>
     (\<forall>k bd. bt_get (as_boards a) k = Some bd \<longrightarrow> bd_slug bd = k) \<and>
     (\<forall>m \<in> set (as_log a). message_verify E m = Inr () \<and>
        bt_get (as_boards a) (mb_board (msg_body m)) \<noteq> None)"

definition abs_locked :: "string \<Rightarrow> abs_store \<Rightarrow> bool" where
  "abs_locked k a \<longleftrightarrow> (\<exists>bd. bt_get (as_boards a) k = Some bd \<and> bd_locked bd)"

locale bbs_over_store = store_contract "store_exec T" "\<lambda>q. q" refines init
  for T :: "'s store_ops" and refines init
begin

lemma read_back:
  "refines s a \<Longrightarrow> op_get_board T s k = Inr r \<Longrightarrow> r = bt_get (as_boards a) k"
  "refines s a \<Longrightarrow> op_list_boards T s = Inr bs \<Longrightarrow> bs = bt_values (as_boards a)"
  "refines s a \<Longrightarrow> op_list_personas T s = Inr ps \<Longrightarrow> ps = bt_values (as_personas a)"
  "refines s a \<Longrightarrow> op_list_messages T s k n = Inr ms \<Longrightarrow> ms = window n (log_board (as_log a) k)"
  using simulates[of s a "GetBoard k" s "ABoard r"] simulates[of s a ListBoards s "ABoards bs"]
    simulates[of s a ListPersonas s "APersonas ps"]
    simulates[of s a "ListMessages k n" s "AMessages ms"] by simp_all

lemma written: "refines s a \<Longrightarrow> store_exec T s q = (s', Done) \<Longrightarrow> refines s' (fst (abs_exec a q))"
  using simulates[of s a q s' Done] by simp

lemma justified_good:
  assumes "refines s a" "abs_good E a" "justified T E s cs q"
  shows "abs_good E (fst (abs_exec a q))"
  using assms(3)
proof cases
  case (create bd)
  with assms(1,2) read_back(1)[OF assms(1), of "bd_slug bd"] show ?thesis
    by (auto simp: abs_good_def bt_simps)
next
  case (lock slug bd l)
  with assms(2) read_back(1)[OF assms(1), of slug] have "bd_slug bd = slug"
      "bt_get (as_boards a) slug = Some bd"
    by (auto simp: abs_good_def)
  with lock(1) assms(2) show ?thesis
    by (auto simp: abs_good_def bt_simps)
next
  case (post m bd)
  then have "bt_get (as_boards a) (mb_board (msg_body m)) = Some bd"
    using read_back(1)[OF assms(1)] by metis
  with post assms(2) show ?thesis
    by (auto simp: abs_good_def log_put_def)
next
  case (set_persona p)
  with assms(2) show ?thesis by (simp add: abs_good_def)
next
  case (delete_persona h)
  with assms(2) show ?thesis by (simp add: abs_good_def)
qed

text \<open>A locked board changes only by a request that may moderate.\<close>

lemma justified_locked:
  assumes "refines s a" "abs_good E a" "justified T E s cs q" "\<not> caps_contains cs MODERATE"
    and "abs_locked k a"
  shows "abs_locked k (fst (abs_exec a q)) \<and>
    log_board (as_log (fst (abs_exec a q))) k = log_board (as_log a) k"
  using assms(3)
proof cases
  case (create bd)
  with read_back(1)[OF assms(1), of "bd_slug bd"] assms(2,5) show ?thesis
    by (auto simp: abs_locked_def abs_good_def bt_simps)
next
  case (lock slug bd l)
  with assms(4) show ?thesis by simp
next
  case (post m bd)
  with read_back(1)[OF assms(1), of "mb_board (msg_body m)"] assms(5) show ?thesis
    by (auto simp: abs_locked_def log_board_put)
next
  case (set_persona p)
  with assms(5) show ?thesis by (simp add: abs_locked_def)
next
  case (delete_persona h)
  with assms(5) show ?thesis by (simp add: abs_locked_def)
qed

lemma justified_admin:
  assumes "justified T E s cs q" "\<not> caps_contains cs CREATE_BOARD" "\<not> caps_contains cs MODERATE"
    "\<not> caps_contains cs SYSOP"
  shows "as_boards (fst (abs_exec a q)) = as_boards a \<and> as_personas (fst (abs_exec a q)) = as_personas a"
  using assms by cases auto

text \<open>What holds of the abstract store along a run of requests.\<close>

lemma run_inv:
  assumes "refines (bbs_store b) a" "P a" "\<forall>x \<in> set reqs. ok (req_caps (snd x))"
    and step: "\<And>s a cs q. refines s a \<Longrightarrow> P a \<Longrightarrow> ok cs \<Longrightarrow> justified T E s cs q \<Longrightarrow>
      P (fst (abs_exec a q))"
  shows "\<exists>a'. refines (bbs_store (foldl (svc_step T R E) b reqs)) a' \<and> P a'"
  using assms(1-3)
proof (induction reqs arbitrary: b a)
  case Nil
  then show ?case by auto
next
  case (Cons x reqs)
  obtain now req where x: "x = (now, req)" by (cases x)
  have "\<exists>a'. refines (bbs_store (svc_step T R E b x)) a' \<and> P a'"
    using svc_step_effect[of T R E b now req]
  proof
    assume "bbs_store (svc_step T R E b (now, req)) = bbs_store b"
    with Cons.prems show ?thesis by (auto simp: x)
  next
    assume "\<exists>q. store_exec T (bbs_store b) q = (bbs_store (svc_step T R E b (now, req)), Done) \<and>
        justified T E (bbs_store b) (req_caps req) q"
    then obtain q where q: "store_exec T (bbs_store b) q = (bbs_store (svc_step T R E b x), Done)"
        "justified T E (bbs_store b) (req_caps req) q"
      by (auto simp: x)
    moreover have "P (fst (abs_exec a q))"
      using step[OF Cons.prems(1,2) _ q(2)] Cons.prems(3) by (simp add: x)
    ultimately show ?thesis using written[OF Cons.prems(1)] by blast
  qed
  then show ?case using Cons.IH Cons.prems(3) by auto
qed

lemma run_locked:
  assumes "refines (bbs_store b) a" "abs_good E a" "abs_locked k a"
    and "\<forall>x \<in> set reqs. \<not> caps_contains (req_caps (snd x)) MODERATE"
  shows "\<exists>a'. refines (bbs_store (foldl (svc_step T R E) b reqs)) a' \<and>
    abs_good E a' \<and> abs_locked k a' \<and> log_board (as_log a') k = log_board (as_log a) k"
proof (rule run_inv[where ok = "\<lambda>cs. \<not> caps_contains cs MODERATE"])
  fix s x cs q
  assume "refines s x" "justified T E s cs q" "\<not> caps_contains cs MODERATE"
    "abs_good E x \<and> abs_locked k x \<and> log_board (as_log x) k = log_board (as_log a) k"
  then show "abs_good E (fst (abs_exec x q)) \<and> abs_locked k (fst (abs_exec x q)) \<and>
      log_board (as_log (fst (abs_exec x q))) k = log_board (as_log a) k"
    using justified_good[of s x E cs q] justified_locked[of s x E cs q k] by auto
qed (use assms in auto)

lemma abs_good_empty: "abs_good E abs_empty"
  by (simp add: abs_good_def abs_empty_def bt_simps)

lemma run_good:
  assumes "bbs_store b = init"
  shows "\<exists>a. refines (bbs_store (foldl (svc_step T R E) b reqs)) a \<and> abs_good E a"
  using run_inv[of b abs_empty "abs_good E" reqs "\<lambda>_. True" E R] justified_good abs_good_empty
    refines_init assms by auto

end

interpretation mem_bbs: bbs_over_store memory_ops mem_refines memory_store_new ..

lemma bbs_over_storeI:
  "store_contract (store_exec T) (\<lambda>q. q) refines init \<Longrightarrow> bbs_over_store T refines init"
  by (simp add: bbs_over_store_def)

section \<open>Properties\<close>

definition demo_board :: board where
  "demo_board = board_new ''general'' ''General'' (ident (demo_id 9)) 0"

definition demo_reqs :: "(time \<times> svc_req) list" where
  "demo_reqs = [(1, SCreate (role_caps Sysop) demo_board), (2, SPost caps_default demo_message)]"

definition demo_bbs :: "(memory_store, memory_reporter) bbs" where
  "demo_bbs = foldl (svc_step memory_ops mr_report demo_env) (with_memory_reporter memory_store_new)
     demo_reqs"

lemma demo_caps: "caps_contains (role_caps Sysop) CREATE_BOARD"
  "caps_contains (role_caps Sysop) MODERATE" "caps_contains caps_default POST"
  "\<not> caps_contains caps_default MODERATE" "\<not> caps_contains caps_default CREATE_BOARD"
  "\<not> caps_contains caps_default SYSOP"
  by (simp_all add: caps_contains_def caps_all_def caps_default_def cap_bits)

lemma demo_bbs_store: "bbs_store demo_bbs = \<lparr>ms_boards = [(''general'', demo_board)],
    ms_by_board = [(''general'', [msg_id demo_message])],
    ms_messages = [(mid (msg_id demo_message), demo_message)], ms_personas = []\<rparr>"
proof -
  have "mb_board (msg_body demo_message) = ''general''"
    by (simp add: demo_message_def demo_body_def)
  moreover have "bd_slug demo_board = ''general''" "\<not> bd_locked demo_board"
    by (simp_all add: demo_board_def board_new_def)
  ultimately show ?thesis
    by (simp add: demo_bbs_def demo_reqs_def with_memory_reporter_def bbs_new_def memory_store_new_def
        svc_create_board_def svc_post_def require_cap_def demo_caps mem_defs bt_get_def bt_empty_def
        demo_message_verifies ok_or_def Let_def del: role_caps.simps)
qed

text \<open>
  No unauthenticated message is ever served: over any store that fulfils the
  contract and any reporter, after any sequence of requests with any capabilities, every
  message a board lists verifies under its author's key and belongs to that board.
\<close>

theorem served_messages_authentic:
  assumes "store_contract (store_exec T) (\<lambda>q. q) refines init" "bbs_store b = init"
    and "svc_read_board T (foldl (svc_step T R E) b reqs) cs slug n = Inr ms"
  shows "length ms \<le> n \<and>
    set ms \<subseteq> {m. message_verify E m = Inr () \<and> mb_board (msg_body m) = slug}"
proof -
  note svc = bbs_over_storeI[OF assms(1)]
  obtain a where a: "refines (bbs_store (foldl (svc_step T R E) b reqs)) a" "abs_good E a"
    using bbs_over_store.run_good[OF svc assms(2)] by blast
  have "op_list_messages T (bbs_store (foldl (svc_step T R E) b reqs)) slug n = Inr ms"
    using assms(3) by (simp add: svc_read_board_def result_simps)
  then have ms: "ms = window n (log_board (as_log a) slug)"
    by (rule bbs_over_store.read_back(4)[OF svc a(1)])
  then have "set ms \<subseteq> set (log_board (as_log a) slug)" "length ms \<le> n"
    by (simp_all add: set_window length_window)
  with a(2) show ?thesis
    by (auto simp: abs_good_def log_board_def)
qed

theorem served_messages_authentic_witness:
  "svc_read_board memory_ops demo_bbs READ ''general'' 10 = Inr [demo_message] \<and>
   message_verify demo_env demo_message = Inr ()"
proof -
  have read: "svc_read_board memory_ops demo_bbs READ ''general'' 10 = Inr [demo_message]"
    by (simp add: svc_read_board_def require_cap_def demo_bbs_store mem_defs bt_get_def window_def
        List.map_filter_def)
  then have "svc_read_board memory_ops (foldl (svc_step memory_ops mr_report demo_env)
      (with_memory_reporter memory_store_new) demo_reqs) READ ''general'' 10 = Inr [demo_message]"
    by (simp add: demo_bbs_def)
  from served_messages_authentic[OF mem.store_contract_axioms _ this] read show ?thesis
    by (simp add: with_memory_reporter_def bbs_new_def)
qed

text \<open>
  Property C5. A locked board is read-only: once a board is locked, no sequence of requests
  whose capabilities lack MODERATE changes what it lists, over any store and reporter,
  whoever signs the posts and whatever else they may do.
\<close>

theorem locked_board_read_only:
  assumes "store_contract (store_exec T) (\<lambda>q. q) refines init" "bbs_store b0 = init"
    and b: "b = foldl (svc_step T R E) b0 reqs0"
    and "op_get_board T (bbs_store b) slug = Inr (Some bd)" "bd_locked bd"
    and "\<forall>r \<in> set reqs. \<not> caps_contains (req_caps (snd r)) MODERATE"
    and before: "op_list_messages T (bbs_store b) slug n = Inr ms"
    and after: "op_list_messages T (bbs_store (foldl (svc_step T R E) b reqs)) slug n = Inr ms'"
  shows "ms' = ms"
proof -
  note svc = bbs_over_storeI[OF assms(1)]
  obtain a where a: "refines (bbs_store b) a" "abs_good E a"
    unfolding b using bbs_over_store.run_good[OF svc assms(2)] by blast
  have "abs_locked slug a"
    using assms(5) bbs_over_store.read_back(1)[OF svc a(1) assms(4), symmetric]
    by (auto simp: abs_locked_def)
  from bbs_over_store.run_locked[OF svc a this assms(6)]
  obtain a' where "refines (bbs_store (foldl (svc_step T R E) b reqs)) a'"
      "log_board (as_log a') slug = log_board (as_log a) slug"
    by blast
  then show ?thesis
    using bbs_over_store.read_back(4)[OF svc] a(1) before after by metis
qed

definition demo_locked :: "(memory_store, memory_reporter) bbs" where
  "demo_locked = svc_step memory_ops mr_report demo_env demo_bbs
     (3, SLock (role_caps Sysop) ''general'' True (ident (demo_id 9)))"

lemma demo_locked_store: "bbs_store demo_locked = (bbs_store demo_bbs)\<lparr>ms_boards :=
    [(''general'', demo_board\<lparr>bd_locked := True\<rparr>)]\<rparr>"
proof -
  have "bd_slug demo_board = ''general''"
    by (simp add: demo_board_def board_new_def)
  then show ?thesis
    by (simp add: demo_locked_def svc_set_locked_def require_cap_def demo_caps demo_bbs_store
        mem_defs bt_get_def ok_or_def del: role_caps.simps)
qed

theorem locked_board_read_only_witness:
  "op_list_messages memory_ops
     (bbs_store (svc_step memory_ops mr_report demo_env demo_locked
        (4, SPost caps_default demo_message))) ''general'' 9 = Inr [demo_message]"
proof -
  have reach: "demo_locked = foldl (svc_step memory_ops mr_report demo_env)
      (with_memory_reporter memory_store_new)
      (demo_reqs @ [(3, SLock (role_caps Sysop) ''general'' True (ident (demo_id 9)))])"
    by (simp add: demo_bbs_def demo_locked_def)
  have before: "op_list_messages memory_ops (bbs_store demo_locked) ''general'' 9 = Inr [demo_message]"
    by (simp add: demo_locked_store demo_bbs_store mem_defs bt_get_def window_def List.map_filter_def)
  have locked: "op_get_board memory_ops (bbs_store demo_locked) ''general'' =
      Inr (Some (demo_board\<lparr>bd_locked := True\<rparr>))"
    by (simp add: demo_locked_store mem_defs bt_get_def)
  obtain ms where ms: "op_list_messages memory_ops (bbs_store (foldl
      (svc_step memory_ops mr_report demo_env) demo_locked [(4, SPost caps_default demo_message)]))
      ''general'' 9 = Inr ms"
    by (cases "op_list_messages memory_ops (bbs_store (foldl (svc_step memory_ops mr_report demo_env)
        demo_locked [(4, SPost caps_default demo_message)])) ''general'' 9")
       (auto simp: memory_ops_def mem_list_messages_def split: option.splits)
  have "ms = [demo_message]"
    by (rule locked_board_read_only[OF mem.store_contract_axioms _ reach locked _ _ before ms])
       (simp_all add: with_memory_reporter_def bbs_new_def demo_caps)
  with ms show ?thesis by simp
qed

lemma window_Suc_snoc: "window (Suc n) (xs @ [x]) = window n xs @ [x]"
  by (simp add: window_def)

lemma svc_post_Inr:
  assumes "svc_post memory_ops R E now b cs m = (b', Inr i)"
  shows "i = msg_id m \<and> mem_put_message (bbs_store b) m = Inr (bbs_store b')"
  using assms
  by (auto simp: svc_post_def result_simps memory_ops_def split: if_splits sum.splits)

text \<open>
  An accepted post is the newest message of its board: on a service over the
  in-memory store reached by any requests, when a message whose id is new is accepted, the
  board's newest \<open>n + 1\<close> messages are its former newest \<open>n\<close> followed by the message, and
  posting it again changes nothing in the store.
\<close>

theorem accepted_post_is_newest:
  assumes "bbs_store b0 = memory_store_new" "b = foldl (svc_step memory_ops R E) b0 reqs"
    and "svc_post memory_ops R E now b cs m = (b', Inr i)"
    and "mem_get_message (bbs_store b) (msg_id m) = Inr None"
  shows "\<exists>ms. mem_list_messages (bbs_store b) (mb_board (msg_body m)) n = Inr ms \<and>
      mem_list_messages (bbs_store b') (mb_board (msg_body m)) (Suc n) = Inr (ms @ [m]) \<and>
      mem_get_message (bbs_store b') i = Inr (Some m) \<and>
      bbs_store (fst (svc_post memory_ops R E later b' cs' m)) = bbs_store b'"
proof -
  let ?k = "mb_board (msg_body m)"
  obtain a where a: "mem_refines (bbs_store b) a"
    using mem_bbs.run_good[OF assms(1)] assms(2) by blast
  have put: "mem_put_message (bbs_store b) m = Inr (bbs_store b')" and i: "i = msg_id m"
    using svc_post_Inr[OF assms(3)] by simp_all
  have fresh: "log_get (as_log a) (mid (msg_id m)) = None"
    using assms(4) a by (simp add: mem_get_message_def mem_refines_def)
  have a': "mem_refines (bbs_store b') (a\<lparr>as_log := as_log a @ [m]\<rparr>)"
    using mem_put_message_refines[OF a put] fresh by (simp add: log_put_def)
  have found: "bt_get (ms_messages (bbs_store b')) (mid (msg_id m)) = Some m"
    using a' fresh log_get_put[of "as_log a" m] by (simp add: mem_refines_def log_put_def)
  then have "mem_put_message (bbs_store b') m = Inr (bbs_store b')"
    by (simp add: mem_put_message_def Let_def)
  then have "bbs_store (fst (svc_post memory_ops R E later b' cs' m)) = bbs_store b'"
    using svc_post_effect[of memory_ops R E later b' cs' m] by (auto simp: memory_ops_def)
  then show ?thesis
    using found mem_list_messages_refines[OF a, of ?k n] mem_list_messages_refines[OF a', of ?k "Suc n"]
    by (simp add: i mem_get_message_def log_board_def window_Suc_snoc)
qed

definition demo_open :: "(memory_store, memory_reporter) bbs" where
  "demo_open = foldl (svc_step memory_ops mr_report demo_env)
     (with_memory_reporter memory_store_new) [(1, SCreate (role_caps Sysop) demo_board)]"

lemma demo_open_store: "bbs_store demo_open =
    \<lparr>ms_boards = [(''general'', demo_board)], ms_by_board = [], ms_messages = [], ms_personas = []\<rparr>"
proof -
  have "bd_slug demo_board = ''general''"
    by (simp add: demo_board_def board_new_def)
  then show ?thesis
    by (simp add: demo_open_def with_memory_reporter_def bbs_new_def memory_store_new_def
        svc_create_board_def require_cap_def demo_caps mem_defs bt_get_def bt_empty_def
        del: role_caps.simps)
qed

theorem accepted_post_is_newest_witness:
  "\<exists>b'. svc_post memory_ops mr_report demo_env 2 demo_open caps_default demo_message
      = (b', Inr (msg_id demo_message)) \<and>
    mem_list_messages (bbs_store b') ''general'' (Suc 0) = Inr [demo_message]"
proof -
  have brd: "mb_board (msg_body demo_message) = ''general''"
    by (simp add: demo_message_def demo_body_def)
  have "\<not> bd_locked demo_board"
    by (simp add: demo_board_def board_new_def)
  then have "snd (svc_post memory_ops mr_report demo_env 2 demo_open caps_default demo_message) =
      Inr (msg_id demo_message)"
    by (simp add: svc_post_def demo_open_store require_cap_def demo_caps demo_message_verifies
        mem_defs bt_get_def brd ok_or_def Let_def)
  then obtain b' where post: "svc_post memory_ops mr_report demo_env 2 demo_open caps_default demo_message
      = (b', Inr (msg_id demo_message))"
    by (metis prod.collapse)
  have "mem_get_message (bbs_store demo_open) (msg_id demo_message) = Inr None"
    by (simp add: demo_open_store mem_get_message_def bt_get_def)
  from accepted_post_is_newest[OF _ demo_open_def post this, of 0]
  obtain ms where ms: "mem_list_messages (bbs_store demo_open) ''general'' 0 = Inr ms"
      "mem_list_messages (bbs_store b') ''general'' (Suc 0) = Inr (ms @ [demo_message])"
    by (auto simp: with_memory_reporter_def bbs_new_def brd)
  from ms(1) have "ms = []"
    by (simp add: demo_open_store mem_list_messages_def bt_get_def)
  with post ms(2) show ?thesis by auto
qed

end
