(* ===== verification/Webtrust.thy ===== *)
theory Webtrust
  imports Rotation Hash_Map
begin

text \<open>
  The web of trust (\<open>agentbbs-federation/src/webtrust.rs\<close>): signed endorsements and the
  breadth-first walk that finds how far each node is from a set of roots. The hash maps are
  keyed by the hex of an id and are only looked up or searched, so their order is immaterial.
  Depths stay below the \<open>u32\<close> bound \<open>max_depth\<close>, so they are natural numbers.
\<close>

section \<open>Model\<close>

record endorsement =
  en_endorser :: agent_id
  en_subject :: agent_id
  en_created_at :: time
  en_signature :: signature

definition endorsement_signing_bytes :: "env \<Rightarrow> agent_id \<Rightarrow> agent_id \<Rightarrow> time \<Rightarrow> bytes" where
  "endorsement_signing_bytes E endorser subject created_at =
     framed (''agentbbs.endorsement.v1'' @ [newline])
       [to_hex E endorser, to_hex E subject, rfc3339 E created_at]"

definition endorsement_sign :: "env \<Rightarrow> identity \<Rightarrow> agent_id \<Rightarrow> time \<Rightarrow> endorsement" where
  "endorsement_sign E endorser subject created_at =
     \<lparr>en_endorser = ident endorser, en_subject = subject, en_created_at = created_at,
      en_signature =
        sign E endorser (endorsement_signing_bytes E (ident endorser) subject created_at)\<rparr>"

definition endorsement_bytes :: "env \<Rightarrow> endorsement \<Rightarrow> bytes" where
  "endorsement_bytes E e =
     endorsement_signing_bytes E (en_endorser e) (en_subject e) (en_created_at e)"

definition endorsement_verify :: "env \<Rightarrow> endorsement \<Rightarrow> unit result" where
  "endorsement_verify E e = verify_sig E (en_endorser e) (endorsement_bytes E e) (en_signature e)"

record web_of_trust =
  wt_edges :: "(string, agent_id list) hmap"

definition web_new :: web_of_trust where
  "web_new = \<lparr>wt_edges = hm_empty\<rparr>"

definition web_subjects :: "env \<Rightarrow> web_of_trust \<Rightarrow> agent_id \<Rightarrow> agent_id list" where
  "web_subjects E w a = (case hm_get (wt_edges w) (to_hex E a) of None \<Rightarrow> [] | Some l \<Rightarrow> l)"

definition web_add :: "env \<Rightarrow> web_of_trust \<Rightarrow> endorsement \<Rightarrow> web_of_trust result" where
  "web_add E w e = rbind (endorsement_verify E e) (\<lambda>_.
     Inr (w\<lparr>wt_edges := hm_insert (to_hex E (en_endorser e))
       (push_new (web_subjects E w (en_endorser e)) (en_subject e)) (wt_edges w)\<rparr>))"

text \<open>One subject of the node under visit: recorded and queued if new or nearer.\<close>

definition bfs_visit :: "env \<Rightarrow> string set \<Rightarrow> nat
    \<Rightarrow> (string, nat) hmap \<times> (agent_id \<times> nat) list \<Rightarrow> agent_id
    \<Rightarrow> (string, nat) hmap \<times> (agent_id \<times> nat) list" where
  "bfs_visit E root_set nd dq s =
     (let hex = to_hex E s in
      if hex \<in> root_set then dq
      else if (case hm_get (fst dq) hex of None \<Rightarrow> True | Some old \<Rightarrow> nd < old)
           then (hm_insert hex nd (fst dq), snd dq @ [(s, nd)])
           else dq)"

text \<open>How far the depths recorded are from the least possible, over a finite set of keys.\<close>

definition bfs_slack :: "string set \<Rightarrow> nat \<Rightarrow> (string, nat) hmap \<Rightarrow> nat" where
  "bfs_slack H M depth =
     (\<Sum>h \<in> H. case hm_get depth h of None \<Rightarrow> Suc M | Some d \<Rightarrow> min d (Suc M))"

definition web_keys :: "env \<Rightarrow> web_of_trust \<Rightarrow> string set" where
  "web_keys E w = to_hex E ` \<Union> (set ` ran (hm_get (wt_edges w)))"

lemma finite_web_keys: "finite (web_keys E w)"
  by (simp add: web_keys_def)

lemma web_subjects_keys: "s \<in> set (web_subjects E w a) \<Longrightarrow> to_hex E s \<in> web_keys E w"
  by (cases "hm_get (wt_edges w) (to_hex E a)") (auto simp: web_subjects_def web_keys_def ran_def)

lemma bfs_slack_insert:
  assumes "finite H" "h \<in> H" "case hm_get depth h of None \<Rightarrow> True | Some old \<Rightarrow> nd < old" "nd \<le> M"
  shows "bfs_slack H M (hm_insert h nd depth) < bfs_slack H M depth"
  unfolding bfs_slack_def
proof (rule sum_strict_mono_ex1[OF assms(1)])
  let ?f = "\<lambda>g h. case g h of None \<Rightarrow> Suc M | Some d \<Rightarrow> min d (Suc M)"
  have lt: "nd < ?f (hm_get depth) h"
    using assms(3,4) by (auto split: option.splits)
  with assms(4) show "\<forall>x\<in>H. ?f (hm_get (hm_insert h nd depth)) x \<le> ?f (hm_get depth) x"
    by auto
  from lt assms(2,4) show "\<exists>x\<in>H. ?f (hm_get (hm_insert h nd depth)) x < ?f (hm_get depth) x"
    by (auto intro!: bexI[of _ h])
qed

lemma bfs_visit_measure:
  assumes "finite H" "to_hex E s \<in> H" "nd \<le> M"
  shows "2 * bfs_slack H M (fst (bfs_visit E R nd dq s)) + length (snd (bfs_visit E R nd dq s))
    \<le> 2 * bfs_slack H M (fst dq) + length (snd dq)"
  using bfs_slack_insert[where depth = "fst dq" and nd = nd and M = M, OF assms(1,2)] assms(3)
  by (auto simp: bfs_visit_def Let_def)

lemma bfs_visits_measure:
  assumes "finite H" "\<forall>s \<in> set ss. to_hex E s \<in> H" "nd \<le> M"
  shows "2 * bfs_slack H M (fst (foldl (bfs_visit E R nd) dq ss)) +
      length (snd (foldl (bfs_visit E R nd) dq ss))
    \<le> 2 * bfs_slack H M (fst dq) + length (snd dq)"
  using assms(2)
proof (induction ss arbitrary: dq)
  case Nil
  then show ?case by simp
next
  case (Cons s ss)
  have "2 * bfs_slack H M (fst (bfs_visit E R nd dq s)) + length (snd (bfs_visit E R nd dq s))
      \<le> 2 * bfs_slack H M (fst dq) + length (snd dq)"
    using Cons.prems by (intro bfs_visit_measure[OF assms(1) _ assms(3)]) simp
  moreover have "\<forall>s \<in> set ss. to_hex E s \<in> H" using Cons.prems by simp
  ultimately show ?case
    using Cons.IH[of "bfs_visit E R nd dq s"] by (auto elim: order_trans)
qed

text \<open>The \<open>while let Some((node, d)) = queue.pop_front()\<close> loop.\<close>

function bfs :: "env \<Rightarrow> web_of_trust \<Rightarrow> string set \<Rightarrow> nat \<Rightarrow> (string, nat) hmap
    \<Rightarrow> (agent_id \<times> nat) list \<Rightarrow> (string, nat) hmap" where
  "bfs E w R M depth [] = depth"
| "bfs E w R M depth ((node, d) # queue) =
     (if M \<le> d then bfs E w R M depth queue
      else let dq = foldl (bfs_visit E R (d + 1)) (depth, queue) (web_subjects E w node)
           in bfs E w R M (fst dq) (snd dq))"
  by pat_completeness auto

termination
proof (relation "measure (\<lambda>(E, w, R, M, depth, queue).
    2 * bfs_slack (web_keys E w) M depth + length queue)")
  show "wf (measure (\<lambda>(E, w, R, M, depth, queue).
    2 * bfs_slack (web_keys E w) M depth + length queue))"
    by simp
next
  fix E w R M depth node d and queue :: "(agent_id \<times> nat) list"
  show "((E, w, R, M, depth, queue), (E, w, R, M, depth, (node, d) # queue)) \<in>
    measure (\<lambda>(E, w, R, M, depth, queue). 2 * bfs_slack (web_keys E w) M depth + length queue)"
    by simp
next
  fix E w R M depth node d and queue :: "(agent_id \<times> nat) list"
    and dq :: "(string, nat) hmap \<times> (agent_id \<times> nat) list"
  assume "\<not> M \<le> d" "dq = foldl (bfs_visit E R (d + 1)) (depth, queue) (web_subjects E w node)"
  then show "((E, w, R, M, fst dq, snd dq), (E, w, R, M, depth, (node, d) # queue)) \<in>
    measure (\<lambda>(E, w, R, M, depth, queue). 2 * bfs_slack (web_keys E w) M depth + length queue)"
    using bfs_visits_measure[OF finite_web_keys[of E w], of "web_subjects E w node" E "d + 1" M R "(depth, queue)"]
      web_subjects_keys
    by (auto simp: case_prod_beta less_Suc_eq_le)
qed

definition trusted_from :: "env \<Rightarrow> web_of_trust \<Rightarrow> agent_id list \<Rightarrow> nat \<Rightarrow> (string, nat) hmap" where
  "trusted_from E w roots max_depth =
     bfs E w (to_hex E ` set roots) max_depth hm_empty (map (\<lambda>r. (r, 0)) roots)"

definition is_trusted :: "env \<Rightarrow> web_of_trust \<Rightarrow> agent_id \<Rightarrow> agent_id list \<Rightarrow> nat \<Rightarrow> bool" where
  "is_trusted E w node roots max_depth \<longleftrightarrow>
     hm_get (trusted_from E w roots max_depth) (to_hex E node) \<noteq> None"

definition is_trusted_via ::
  "env \<Rightarrow> web_of_trust \<Rightarrow> agent_id \<Rightarrow> agent_id list \<Rightarrow> nat \<Rightarrow> rotation_chain \<Rightarrow> bool" where
  "is_trusted_via E w node roots max_depth chain =
     (if is_trusted E w node roots max_depth then True
      else let target = resolve E chain node in
        list_ex (\<lambda>hex. case from_hex E hex of
                    Inl _ \<Rightarrow> False | Inr a \<Rightarrow> resolve E chain a = target)
          (hm_keys (trusted_from E w roots max_depth)))"

section \<open>Endorsements\<close>

lemma endorsement_bytes_inj:
  "hex_ok E \<Longrightarrow> time_ok E \<Longrightarrow> endorsement_bytes E a = endorsement_bytes E b \<longleftrightarrow>
    (en_endorser a, en_subject a, en_created_at a) = (en_endorser b, en_subject b, en_created_at b)"
  by (simp add: endorsement_bytes_def endorsement_signing_bytes_def to_hex_inj rfc3339_inj)

interpretation endorsement_rec: signed_record endorsement_bytes en_endorser en_signature
  "\<lambda>e. (en_endorser e, en_subject e, en_created_at e)" endorsement_verify
  by unfold_locales (simp_all add: endorsement_verify_def endorsement_bytes_inj)

text \<open>The edges of a web fed with endorsements are the verified ones.\<close>

lemma web_add_subjects:
  assumes "hex_ok E" "web_add E w e = Inr w'"
  shows "set (web_subjects E w' a) =
    set (web_subjects E w a) \<union> (if a = en_endorser e then {en_subject e} else {})"
  using assms by (auto simp: web_add_def result_simps web_subjects_def to_hex_inj)

lemma web_run_subjects:
  assumes "hex_ok E"
  shows "set (web_subjects E (attempts (web_add E) w es) a) = set (web_subjects E w a) \<union>
    {en_subject e | e. e \<in> set es \<and> endorsement_verify E e = Inr () \<and> en_endorser e = a}"
proof (induction es arbitrary: w)
  case Nil
  then show ?case by simp
next
  case (Cons e es)
  show ?case
  proof (cases "web_add E w e")
    case (Inl x)
    then have "endorsement_verify E e \<noteq> Inr ()" by (auto simp: web_add_def)
    with Inl Cons.IH[of w] show ?thesis by (auto simp: attempt_def)
  next
    case (Inr w')
    then have "endorsement_verify E e = Inr ()" by (auto simp: web_add_def result_simps)
    with Inr Cons.IH[of w'] show ?thesis
      by (auto simp: attempt_def web_add_subjects[OF assms Inr])
  qed
qed

section \<open>The walk finds shortest endorsement paths\<close>

text \<open>A path of \<open>n\<close> endorsements from a root.\<close>

fun endorsed :: "env \<Rightarrow> web_of_trust \<Rightarrow> agent_id set \<Rightarrow> nat \<Rightarrow> agent_id \<Rightarrow> bool" where
  "endorsed E w roots 0 a \<longleftrightarrow> a \<in> roots"
| "endorsed E w roots (Suc n) a \<longleftrightarrow>
     (\<exists>b. endorsed E w roots n b \<and> a \<in> set (web_subjects E w b))"

text \<open>The distance known for a key: zero for a root, else what is recorded.\<close>

definition known :: "string set \<Rightarrow> (string, nat) hmap \<Rightarrow> string \<Rightarrow> nat option" where
  "known R depth h = (if h \<in> R then Some 0 else hm_get depth h)"

text \<open>
  The loop's invariant: recorded depths are lengths of paths, at least one and at most \<open>M\<close>;
  queued nodes carry lengths of paths; and a node with a known distance below \<open>M\<close> is queued
  with it or has all its subjects within one more step.
\<close>

definition settled :: "env \<Rightarrow> web_of_trust \<Rightarrow> string set \<Rightarrow> (string, nat) hmap \<Rightarrow> agent_id \<Rightarrow> nat \<Rightarrow> bool" where
  "settled E w R depth a d \<longleftrightarrow>
     (\<forall>s \<in> set (web_subjects E w a). \<exists>k \<le> Suc d. known R depth (to_hex E s) = Some k)"

definition bfs_inv :: "env \<Rightarrow> web_of_trust \<Rightarrow> agent_id set \<Rightarrow> nat \<Rightarrow> (string, nat) hmap
    \<Rightarrow> (agent_id \<times> nat) list \<Rightarrow> bool" where
  "bfs_inv E w roots M depth queue \<longleftrightarrow>
     (\<forall>h d. hm_get depth h = Some d \<longrightarrow> d \<le> M \<and> h \<notin> to_hex E ` roots \<and>
        (\<exists>a. h = to_hex E a \<and> endorsed E w roots d a)) \<and>
     (\<forall>x \<in> set queue. endorsed E w roots (snd x) (fst x)) \<and>
     (\<forall>a d. known (to_hex E ` roots) depth (to_hex E a) = Some d \<longrightarrow> d < M \<longrightarrow>
        (a, d) \<in> set queue \<or> settled E w (to_hex E ` roots) depth a d)"

lemma bfs_inv_init: "hex_ok E \<Longrightarrow> bfs_inv E w (set roots) M hm_empty (map (\<lambda>r. (r, 0)) roots)"
  by (auto simp: bfs_inv_def known_def to_hex_inj)

text \<open>Visiting only lowers known distances, and leaves the subject known.\<close>

lemma bfs_visit_known:
  assumes "known R (fst dq) h = Some k"
  shows "\<exists>k' \<le> k. known R (fst (bfs_visit E R nd dq s)) h = Some k'"
  using assms by (auto simp: bfs_visit_def known_def Let_def split: option.splits)

lemma bfs_visits_known:
  "known R (fst dq) h = Some k \<Longrightarrow>
    \<exists>k' \<le> k. known R (fst (foldl (bfs_visit E R nd) dq ss)) h = Some k'"
proof (induction ss arbitrary: dq k)
  case Nil
  then show ?case by auto
next
  case (Cons s ss)
  obtain k1 where k1: "k1 \<le> k" "known R (fst (bfs_visit E R nd dq s)) h = Some k1"
    using bfs_visit_known[OF Cons.prems] by blast
  from Cons.IH[OF k1(2)] k1(1) show ?case by (auto intro: order_trans)
qed

lemma bfs_visit_subject:
  "\<exists>k \<le> nd. known R (fst (bfs_visit E R nd dq s)) (to_hex E s) = Some k"
  by (auto simp: bfs_visit_def known_def Let_def not_less split: option.splits)

lemma bfs_visits_subject:
  "s \<in> set ss \<Longrightarrow> \<exists>k \<le> nd. known R (fst (foldl (bfs_visit E R nd) dq ss)) (to_hex E s) = Some k"
proof (induction ss arbitrary: dq)
  case Nil
  then show ?case by simp
next
  case (Cons x ss)
  show ?case
  proof (cases "s = x")
    case True
    obtain k where k: "k \<le> nd" "known R (fst (bfs_visit E R nd dq x)) (to_hex E s) = Some k"
      using bfs_visit_subject True by blast
    from bfs_visits_known[OF k(2), of E nd ss] k(1) show ?thesis
      unfolding foldl_Cons by (meson order_trans)
  next
    case False
    with Cons show ?thesis by simp
  qed
qed

lemma settled_visit:
  "settled E w R (fst dq) a d \<Longrightarrow> settled E w R (fst (bfs_visit E R nd dq s)) a d"
  unfolding settled_def using bfs_visit_known by (metis order_trans)

text \<open>What a visit adds to the queue is the subject with its new distance.\<close>

lemma bfs_visit_queue:
  "set (snd dq) \<subseteq> set (snd (bfs_visit E R nd dq s))"
  "set (snd (bfs_visit E R nd dq s)) \<subseteq> insert (s, nd) (set (snd dq))"
  by (auto simp: bfs_visit_def Let_def)

text \<open>The invariant with the node under visit taken off the queue.\<close>

definition bfs_busy :: "env \<Rightarrow> web_of_trust \<Rightarrow> agent_id set \<Rightarrow> nat \<Rightarrow> agent_id \<times> nat
    \<Rightarrow> (string, nat) hmap \<times> (agent_id \<times> nat) list \<Rightarrow> bool" where
  "bfs_busy E w roots M x dq \<longleftrightarrow> bfs_inv E w roots M (fst dq) (x # snd dq)"

lemma bfs_busy_visit:
  assumes hex: "hex_ok E" and inv: "bfs_busy E w roots M (node, d) dq"
    and s: "s \<in> set (web_subjects E w node)" and d: "d < M"
  shows "bfs_busy E w roots M (node, d) (bfs_visit E (to_hex E ` roots) (Suc d) dq s)"
proof (cases "bfs_visit E (to_hex E ` roots) (Suc d) dq s = dq")
  case True
  with inv show ?thesis by simp
next
  case False
  let ?R = "to_hex E ` roots"
  let ?dq = "bfs_visit E ?R (Suc d) dq s"
  have dq: "?dq = (hm_insert (to_hex E s) (Suc d) (fst dq), snd dq @ [(s, Suc d)])"
      "to_hex E s \<notin> ?R"
    using False by (auto simp: bfs_visit_def Let_def split: if_splits)
  have path: "endorsed E w roots (Suc d) s"
    using inv s by (auto simp: bfs_busy_def bfs_inv_def)
  have "(a, e) \<in> set ((node, d) # snd ?dq) \<or> settled E w ?R (fst ?dq) a e"
    if known: "known ?R (fst ?dq) (to_hex E a) = Some e" and "e < M" for a e
  proof (cases "a = s")
    case True
    with known dq have "e = Suc d" by (simp add: known_def)
    with True dq show ?thesis by simp
  next
    case False
    with known dq hex have "known ?R (fst dq) (to_hex E a) = Some e"
      by (auto simp: known_def to_hex_inj split: if_splits)
    with inv \<open>e < M\<close> have "(a, e) \<in> set ((node, d) # snd dq) \<or> settled E w ?R (fst dq) a e"
      by (auto simp: bfs_busy_def bfs_inv_def)
    then show ?thesis
      using bfs_visit_queue(1)[of dq E ?R "Suc d" s] settled_visit by fastforce
  qed
  then show ?thesis
    using inv dq path d unfolding bfs_busy_def bfs_inv_def
    by (auto split: if_splits)
qed

lemma bfs_busy_visits:
  assumes "hex_ok E" "d < M" "set ss \<subseteq> set (web_subjects E w node)"
    and "bfs_busy E w roots M (node, d) dq"
  shows "bfs_busy E w roots M (node, d) (foldl (bfs_visit E (to_hex E ` roots) (Suc d)) dq ss)"
  using assms(3,4)
proof (induction ss arbitrary: dq)
  case Nil
  then show ?case by simp
next
  case (Cons s ss)
  then show ?case using bfs_busy_visit[OF assms(1)] assms(2) by simp
qed

text \<open>When all subjects are visited the node is settled and leaves the queue.\<close>

lemma bfs_inv_pop:
  assumes "bfs_inv E w roots M depth ((node, d) # queue)"
    and "M \<le> d \<or> settled E w (to_hex E ` roots) depth node d"
  shows "bfs_inv E w roots M depth queue"
  using assms unfolding bfs_inv_def by fastforce

lemma bfs_keeps_inv:
  assumes "hex_ok E" "bfs_inv E w roots M depth queue"
  shows "bfs_inv E w roots M (bfs E w (to_hex E ` roots) M depth queue) []"
  using assms
proof (induction E w "to_hex E ` roots" M depth queue rule: bfs.induct)
  case (1 E w M depth)
  then show ?case by simp
next
  case (2 E w M depth node d queue)
  show ?case
  proof (cases "M \<le> d")
    case True
    with 2 bfs_inv_pop[OF "2.prems"(2)] show ?thesis by simp
  next
    case False
    let ?dq = "foldl (bfs_visit E (to_hex E ` roots) (Suc d)) (depth, queue) (web_subjects E w node)"
    have "bfs_busy E w roots M (node, d) ?dq"
      using "2.prems" False by (intro bfs_busy_visits[OF "2.prems"(1)]) (auto simp: bfs_busy_def)
    moreover have "settled E w (to_hex E ` roots) (fst ?dq) node d"
      unfolding settled_def using bfs_visits_subject by blast
    ultimately have "bfs_inv E w roots M (fst ?dq) (snd ?dq)"
      unfolding bfs_busy_def by (blast intro: bfs_inv_pop)
    with 2 False show ?thesis by simp
  qed
qed

lemma bfs_inv_final:
  assumes "hex_ok E" "bfs_inv E w roots M depth []" "endorsed E w roots n a" "n \<le> M"
  shows "\<exists>k \<le> n. known (to_hex E ` roots) depth (to_hex E a) = Some k"
  using assms(3,4)
proof (induction n arbitrary: a)
  case 0
  then show ?case by (simp add: known_def)
next
  case (Suc n)
  then obtain b where b: "endorsed E w roots n b" "a \<in> set (web_subjects E w b)" by auto
  with Suc obtain k where k: "k \<le> n" "known (to_hex E ` roots) depth (to_hex E b) = Some k" by auto
  with Suc.prems(2) assms(2) have "settled E w (to_hex E ` roots) depth b k"
    by (auto simp: bfs_inv_def)
  with b(2) k(1) show ?case unfolding settled_def by (meson Suc_le_mono order_trans)
qed

lemma trusted_from_inv:
  "hex_ok E \<Longrightarrow> bfs_inv E w (set roots) M (trusted_from E w roots M) []"
  unfolding trusted_from_def by (intro bfs_keeps_inv bfs_inv_init)

lemma trusted_from_iff:
  assumes hex: "hex_ok E" and a: "a \<notin> set roots"
  shows "hm_get (trusted_from E w roots M) (to_hex E a) = Some n \<longleftrightarrow>
    n \<le> M \<and> endorsed E w (set roots) n a \<and> (\<forall>j < n. \<not> endorsed E w (set roots) j a)"
proof -
  let ?D = "trusted_from E w roots M"
  note inv = trusted_from_inv[OF hex, of w roots M]
  have known: "known (to_hex E ` set roots) ?D (to_hex E a) = hm_get ?D (to_hex E a)"
    using a hex by (auto simp: known_def to_hex_inj)
  have sound: "d \<le> M \<and> endorsed E w (set roots) d a" if "hm_get ?D (to_hex E a) = Some d" for d
    using inv that to_hex_inj[OF hex] unfolding bfs_inv_def by metis
  have complete: "\<exists>k \<le> d. hm_get ?D (to_hex E a) = Some k"
    if "endorsed E w (set roots) d a" "d \<le> M" for d
    using bfs_inv_final[OF hex inv that] by (simp add: known)
  show ?thesis
  proof
    assume n: "hm_get ?D (to_hex E a) = Some n"
    have "\<not> endorsed E w (set roots) j a" if "j < n" for j
      using complete[of j] sound[OF n] n that by fastforce
    with sound[OF n] show "n \<le> M \<and> endorsed E w (set roots) n a \<and>
        (\<forall>j < n. \<not> endorsed E w (set roots) j a)" by blast
  next
    assume n: "n \<le> M \<and> endorsed E w (set roots) n a \<and> (\<forall>j < n. \<not> endorsed E w (set roots) j a)"
    then obtain k where k: "k \<le> n" "hm_get ?D (to_hex E a) = Some k" using complete by blast
    with sound[OF k(2)] n have "k = n" by (metis le_neq_implies_less)
    with k show "hm_get ?D (to_hex E a) = Some n" by simp
  qed
qed

lemma is_trusted_iff:
  assumes "hex_ok E" "a \<notin> set roots"
  shows "is_trusted E w a roots M \<longleftrightarrow> (\<exists>n \<le> M. endorsed E w (set roots) n a)"
proof
  assume "is_trusted E w a roots M"
  then show "\<exists>n \<le> M. endorsed E w (set roots) n a"
    using trusted_from_iff[OF assms] by (auto simp: is_trusted_def)
next
  assume "\<exists>n \<le> M. endorsed E w (set roots) n a"
  then obtain n where n: "n \<le> M" "endorsed E w (set roots) n a" by blast
  let ?m = "LEAST n. endorsed E w (set roots) n a"
  have "endorsed E w (set roots) ?m a" using n(2) by (rule LeastI)
  moreover have "?m \<le> M" using n Least_le[of "\<lambda>n. endorsed E w (set roots) n a" n] by linarith
  moreover have "\<forall>j < ?m. \<not> endorsed E w (set roots) j a" using not_less_Least by blast
  ultimately show "is_trusted E w a roots M"
    using trusted_from_iff[OF assms, of w M ?m] by (simp add: is_trusted_def)
qed

section \<open>Properties\<close>

text \<open>
  Property C32. Trust is exactly the shortest path of verified endorsements: in a web fed with
  any endorsements, a node that is no root is recorded with depth \<open>n\<close> just when \<open>n\<close> is at
  most the bound, some path of \<open>n\<close> endorsements leads from a root to it, and none shorter; and
  each step of a path is an offered endorsement whose signature verifies.
\<close>

theorem trust_depth_is_shortest_path:
  assumes "hex_ok E" "w = attempts (web_add E) web_new es" "a \<notin> set roots"
  shows "(hm_get (trusted_from E w roots M) (to_hex E a) = Some n \<longleftrightarrow>
      n \<le> M \<and> endorsed E w (set roots) n a \<and> \<not> (\<exists>j < n. endorsed E w (set roots) j a)) \<and>
    set (web_subjects E w b) =
      {en_subject e | e. e \<in> set es \<and> endorsement_verify E e = Inr () \<and> en_endorser e = b}"
  using trusted_from_iff[OF assms(1,3)] web_run_subjects[OF assms(1), of web_new es b]
  by (auto simp: assms(2) web_subjects_def web_new_def)

definition demo_endorse :: "nat \<Rightarrow> endorsement" where
  "demo_endorse n = endorsement_sign demo_env (demo_id n) (ident (demo_id (Suc n))) 0"

lemma demo_endorse_verifies: "endorsement_verify demo_env (demo_endorse n) = Inr ()"
  by (simp add: endorsement_verify_def endorsement_bytes_def demo_endorse_def endorsement_sign_def
      verify_sign demo_laws demo_id_wf)

definition demo_web :: web_of_trust where
  "demo_web = attempts (web_add demo_env) web_new [demo_endorse 0, demo_endorse 1]"

lemma demo_web_subjects: "set (web_subjects demo_env demo_web b) =
    {en_subject e | e. e \<in> {demo_endorse 0, demo_endorse 1} \<and> en_endorser e = b}"
  using web_run_subjects[OF demo_hex_ok, of web_new "[demo_endorse 0, demo_endorse 1]" b]
  by (auto simp: demo_web_def web_subjects_def web_new_def demo_endorse_verifies)

lemma demo_endorse_ids: "en_endorser (demo_endorse n) = ident (demo_id n)"
  "en_subject (demo_endorse n) = ident (demo_id (Suc n))"
  by (simp_all add: demo_endorse_def endorsement_sign_def)

lemma demo_web_edge:
  "n < 2 \<Longrightarrow> ident (demo_id (Suc n)) \<in> set (web_subjects demo_env demo_web (ident (demo_id n)))"
  using demo_endorse_ids[of n] unfolding demo_web_subjects
  by (auto simp: less_2_cases_iff intro!: exI[of _ "demo_endorse n"])

theorem trust_depth_is_shortest_path_witness:
  "hm_get (trusted_from demo_env demo_web [ident (demo_id 0)] 2)
     (to_hex demo_env (ident (demo_id 2))) = Some 2"
proof -
  let ?r = "ident (demo_id 0)"
  note sub = demo_web_subjects and ids = demo_endorse_ids
  from demo_web_edge[of 0] demo_web_edge[of 1] have "endorsed demo_env demo_web {?r} 2 (ident (demo_id 2))"
    by (auto simp: numeral_2_eq_2 intro!: exI[of _ "ident (demo_id (Suc 0))"])
  moreover have "\<not> endorsed demo_env demo_web {?r} j (ident (demo_id 2))" if "j < 2" for j
    using that by (auto simp: less_2_cases_iff sub ids demo_id_inj)
  moreover have "ident (demo_id 2) \<notin> set [?r]" by (simp add: demo_id_inj)
  ultimately show ?thesis
    using trust_depth_is_shortest_path[OF demo_hex_ok demo_web_def, of "ident (demo_id 2)" "[?r]" 2 2]
    by auto
qed

end
