(* ===== verification/Pii.thy ===== *)
theory Pii
  imports Report
begin

text \<open>
  Scrubbing of outgoing metadata (\<open>agentbbs-federation/src/pii.rs\<close>): the values of keys
  that look sensitive are replaced, at every depth.
\<close>

section \<open>Model\<close>

definition REDACTED :: string where
  "REDACTED = ''[redacted]''"

definition SENSITIVE :: "string list" where
  "SENSITIVE = [''email'', ''ip'', ''host'', ''token'', ''secret'', ''key'', ''phone'']"

definition is_sensitive :: "string \<Rightarrow> bool" where
  "is_sensitive key = (let lower = to_ascii_lowercase key in
     list_ex (\<lambda>needle. contains lower needle) SENSITIVE)"

fun strip_pii :: "json \<Rightarrow> json" where
  "strip_pii (JObj m) =
     JObj (map (\<lambda>p. (fst p, if is_sensitive (fst p) then JStr REDACTED else strip_pii (snd p))) m)"
| "strip_pii (JArr items) = JArr (map strip_pii items)"
| "strip_pii v = v"

definition scrubbed :: "json \<Rightarrow> json" where
  "scrubbed v = strip_pii v"

section \<open>What scrubbing guarantees\<close>

text \<open>No sensitive key, at any depth, holds anything but the marker.\<close>

fun pii_free :: "json \<Rightarrow> bool" where
  "pii_free (JObj m) \<longleftrightarrow>
     (\<forall>p \<in> set m. if is_sensitive (fst p) then snd p = JStr REDACTED else pii_free (snd p))"
| "pii_free (JArr items) \<longleftrightarrow> (\<forall>v \<in> set items. pii_free v)"
| "pii_free v \<longleftrightarrow> True"

text \<open>The two values have the same shape, and agree outside sensitive keys.\<close>

fun same_but_pii :: "json \<Rightarrow> json \<Rightarrow> bool" where
  "same_but_pii (JObj m) (JObj n) \<longleftrightarrow>
     list_all2 (\<lambda>p q. fst p = fst q \<and> (is_sensitive (fst p) \<or> same_but_pii (snd p) (snd q))) m n"
| "same_but_pii (JArr xs) (JArr ys) \<longleftrightarrow> list_all2 same_but_pii xs ys"
| "same_but_pii v w \<longleftrightarrow> v = w"

lemma pii_free_strip: "pii_free (strip_pii v)"
  by (induction v rule: strip_pii.induct) auto

lemma same_but_pii_strip: "same_but_pii v (strip_pii v)"
proof (induction v rule: strip_pii.induct)
  case (1 m)
  then show ?case by (auto simp: list_all2_conv_all_nth)
next
  case (2 items)
  then show ?case by (auto simp: list_all2_conv_all_nth)
qed auto

lemma strip_pii_fix: "pii_free v \<Longrightarrow> strip_pii v = v"
proof (induction v rule: strip_pii.induct)
  case (1 m)
  then have "(fst p, if is_sensitive (fst p) then JStr REDACTED else strip_pii (snd p)) = p"
    if "p \<in> set m" for p
    using that by (cases p) fastforce
  then show ?case by (simp add: map_idI)
next
  case (2 items)
  then show ?case by (simp add: map_idI)
qed auto

section \<open>Properties\<close>

text \<open>
  Scrubbing removes every value under a sensitive key, wherever it is nested,
  changes nothing else (same keys, same array lengths, same values outside those keys), and
  scrubbing twice is scrubbing once.
\<close>

theorem scrub_removes_only_pii:
  "pii_free (scrubbed v) \<and> same_but_pii v (scrubbed v) \<and> scrubbed (scrubbed v) = scrubbed v"
  by (simp add: scrubbed_def pii_free_strip same_but_pii_strip strip_pii_fix)

text \<open>The key a board's description travels under is itself sensitive: it contains "ip".\<close>

lemma description_is_sensitive: "is_sensitive ''description''"
  by code_simp

end
