(* ===== verification/Federation.thy ===== *)
theory Federation
  imports Service Envelope Webtrust Pii
begin

text \<open>
  The replication engine (\<open>agentbbs-federation/src/federator.rs\<close>) over any store \<open>T\<close>,
  reporter \<open>R\<close>, wire encoding \<open>W\<close> and transport \<open>X\<close>. Each operation runs under its locks
  and returns the new state of the node with its result; egress also returns what was handed
  to the transport.
\<close>

section \<open>Model\<close>

record ('s, 'r) federator =
  fd_identity :: identity
  fd_store :: 's
  fd_reporter :: 'r
  fd_peers :: peer_book
  fd_web :: web_of_trust
  fd_seq :: u64

definition federator_new :: "identity \<Rightarrow> 's \<Rightarrow> 'r \<Rightarrow> peer_book \<Rightarrow> ('s, 'r) federator" where
  "federator_new i s r peers = \<lparr>fd_identity = i, fd_store = s, fd_reporter = r, fd_peers = peers,
     fd_web = web_new, fd_seq = 0\<rparr>"

definition fed_endorse ::
  "env \<Rightarrow> ('s, 'r) federator \<Rightarrow> endorsement \<Rightarrow> ('s, 'r) federator \<times> unit result" where
  "fed_endorse E f e = (case web_add E (fd_web f) e of
     Inl x \<Rightarrow> (f, Inl x) | Inr w \<Rightarrow> (f\<lparr>fd_web := w\<rparr>, Inr ()))"

text \<open>The promotion loop over the unknown peers of the snapshot.\<close>

fun promote_all :: "env \<Rightarrow> web_of_trust \<Rightarrow> agent_id list \<Rightarrow> nat \<Rightarrow> peer_book \<Rightarrow> peer list
    \<Rightarrow> peer_book \<times> nat" where
  "promote_all E w roots M b [] = (b, 0)"
| "promote_all E w roots M b (p # ps) =
     (if is_trusted E w (pr_node p) roots M
      then let (b', n) = promote_all E w roots M
                 (book_add E b (peer_new (pr_node p) (pr_addr p) TlLinked)) ps
           in (b', Suc n)
      else promote_all E w roots M b ps)"

definition promote_via_trust ::
  "env \<Rightarrow> ('s, 'r) federator \<Rightarrow> nat \<Rightarrow> ('s, 'r) federator \<times> nat" where
  "promote_via_trust E f max_depth =
     (let roots = map pr_node (book_trusted (fd_peers f));
          unknowns = filter (\<lambda>p. pr_trust p = TlUnknown) (book_all (fd_peers f)) in
      if roots = [] then (f, 0)
      else let (b, n) = promote_all E (fd_web f) roots max_depth (fd_peers f) unknowns
           in (f\<lparr>fd_peers := b\<rparr>, n))"

definition node_id :: "('s, 'r) federator \<Rightarrow> agent_id" where
  "node_id f = ident (fd_identity f)"

definition fed_add_peer :: "env \<Rightarrow> ('s, 'r) federator \<Rightarrow> peer \<Rightarrow> ('s, 'r) federator" where
  "fed_add_peer E f p = f\<lparr>fd_peers := book_add E (fd_peers f) p\<rparr>"

definition fed_peers :: "('s, 'r) federator \<Rightarrow> peer list" where
  "fed_peers f = book_all (fd_peers f)"

definition trusted_peers :: "('s, 'r) federator \<Rightarrow> peer list" where
  "trusted_peers f = book_trusted (fd_peers f)"

text \<open>\<open>fetch_add\<close> wraps around.\<close>

definition next_seq :: "('s, 'r) federator \<Rightarrow> ('s, 'r) federator \<times> u64" where
  "next_seq f = (f\<lparr>fd_seq := fd_seq f + 1\<rparr>, fd_seq f)"

definition fed_emit :: "('r \<Rightarrow> event \<Rightarrow> 'r result) \<Rightarrow> ('s, 'r) federator \<Rightarrow> event
    \<Rightarrow> ('s, 'r) federator" where
  "fed_emit R f e = f\<lparr>fd_reporter := attempt R (fd_reporter f) e\<rparr>"

text \<open>Sending to one target after another; an error of the transport ends the loop. The list is
  what the transport took, peer by peer.\<close>

fun send_all :: "(peer \<Rightarrow> bytes \<Rightarrow> unit result) \<Rightarrow> bytes \<Rightarrow> peer list
    \<Rightarrow> (peer \<times> bytes) list \<times> unit result" where
  "send_all X b [] = ([], Inr ())"
| "send_all X b (p # ps) = (case X p b of
     Inl e \<Rightarrow> ([], Inl e)
   | Inr _ \<Rightarrow> let (sent, r) = send_all X b ps in ((p, b) # sent, r))"

definition fed_broadcast ::
  "env \<Rightarrow> wire \<Rightarrow> (peer \<Rightarrow> bytes \<Rightarrow> unit result) \<Rightarrow> ('s, 'r) federator \<Rightarrow> federation_payload
    \<Rightarrow> ('s, 'r) federator \<times> ((peer \<times> bytes) list \<times> unit result)" where
  "fed_broadcast E W X f payload =
     (let (f', seq) = next_seq f in
      (f', case rbind (envelope_seal E W (fd_identity f) payload seq) (envelope_to_bytes W) of
             Inl e \<Rightarrow> ([], Inl e)
           | Inr b \<Rightarrow> send_all X b (book_trusted (fd_peers f))))"

text \<open>Sealing a payload under the next sequence number, which is consumed either way.\<close>

definition seal_next :: "env \<Rightarrow> wire \<Rightarrow> ('s, 'r) federator \<Rightarrow> federation_payload
    \<Rightarrow> ('s, 'r) federator \<times> federation_envelope result" where
  "seal_next E W f payload =
     (let (f', seq) = next_seq f in (f', envelope_seal E W (fd_identity f) payload seq))"

definition make_digest :: "'s store_ops \<Rightarrow> env \<Rightarrow> wire \<Rightarrow> ('s, 'r) federator \<Rightarrow> string \<Rightarrow> nat
    \<Rightarrow> ('s, 'r) federator \<times> federation_envelope result" where
  "make_digest T E W f slug limit =
     orelse_keep f (op_list_messages T (fd_store f) slug limit) (\<lambda>ms.
       seal_next E W f (BoardDigest slug (map msg_id ms)))"

definition reconcile :: "'s store_ops \<Rightarrow> env \<Rightarrow> wire \<Rightarrow> ('s, 'r) federator \<Rightarrow> bytes \<Rightarrow> nat
    \<Rightarrow> message list result" where
  "reconcile T E W f digest limit =
     rbind (envelope_from_bytes W digest) (\<lambda>e.
     rbind (envelope_open E W e) (\<lambda>p. case p of
       BoardDigest b have_ids \<Rightarrow>
         (let theirs = mid ` set have_ids in
          rbind (op_list_messages T (fd_store f) b limit) (\<lambda>ms.
            Inr (filter (\<lambda>m. mid (msg_id m) \<notin> theirs) ms)))
     | _ \<Rightarrow> Inl (malformed ''digest'' ''envelope is not a BoardDigest'')))"

definition make_peer_exchange :: "env \<Rightarrow> wire \<Rightarrow> ('s, 'r) federator
    \<Rightarrow> ('s, 'r) federator \<times> federation_envelope result" where
  "make_peer_exchange E W f = seal_next E W f (PeerExchange (book_infos (fd_peers f)))"

definition scrub_board :: "board \<Rightarrow> board" where
  "scrub_board bd =
     (let desc = strip_pii (JObj [(''description'', JStr (bd_description bd))]) in
      case Option.bind (json_get desc ''description'') as_str of
        Some d \<Rightarrow> bd\<lparr>bd_description := d\<rparr> | None \<Rightarrow> bd)"

definition announce_board ::
  "env \<Rightarrow> wire \<Rightarrow> (peer \<Rightarrow> bytes \<Rightarrow> unit result) \<Rightarrow> ('s, 'r) federator \<Rightarrow> board
    \<Rightarrow> ('s, 'r) federator \<times> ((peer \<times> bytes) list \<times> unit result)" where
  "announce_board E W X f bd = fed_broadcast E W X f (AnnounceBoard (scrub_board bd))"

definition replicate_message ::
  "env \<Rightarrow> wire \<Rightarrow> (peer \<Rightarrow> bytes \<Rightarrow> unit result) \<Rightarrow> ('s, 'r) federator \<Rightarrow> message
    \<Rightarrow> ('s, 'r) federator \<times> ((peer \<times> bytes) list \<times> unit result)" where
  "replicate_message E W X f m = fed_broadcast E W X f (ReplicateMessage m)"

definition make_snapshot :: "'s store_ops \<Rightarrow> env \<Rightarrow> wire \<Rightarrow> ('s, 'r) federator \<Rightarrow> string \<Rightarrow> nat
    \<Rightarrow> ('s, 'r) federator \<times> federation_envelope result" where
  "make_snapshot T E W f slug limit =
     orelse_keep f (op_get_board T (fd_store f) slug) (\<lambda>found.
     orelse_keep f (ok_or (malformed ''board'' (''unknown board: '' @ slug)) found) (\<lambda>bd.
     orelse_keep f (op_list_messages T (fd_store f) slug limit) (\<lambda>ms.
       seal_next E W f (BoardSnapshot (scrub_board bd) ms))))"

fun verify_all :: "env \<Rightarrow> message list \<Rightarrow> unit result" where
  "verify_all E [] = Inr ()"
| "verify_all E (m # ms) = rbind (message_verify E m) (\<lambda>_. verify_all E ms)"

text \<open>Storing a batch: an error ends the loop and keeps what was stored before it.\<close>

fun put_all :: "'s store_ops \<Rightarrow> 's \<Rightarrow> message list \<Rightarrow> 's \<times> unit result" where
  "put_all T s [] = (s, Inr ())"
| "put_all T s (m # ms) = (case op_put_message T s m of
     Inl e \<Rightarrow> (s, Inl e) | Inr s' \<Rightarrow> put_all T s' ms)"

definition received :: "time \<Rightarrow> federation_envelope \<Rightarrow> string \<Rightarrow> (string \<times> json) list \<Rightarrow> event" where
  "received now e subject detail =
     event_with (JObj detail) (event_by (fe_node e) (event_now now EvFederationReceive subject))"

definition apply_payload :: "'s store_ops \<Rightarrow> ('r \<Rightarrow> event \<Rightarrow> 'r result) \<Rightarrow> env \<Rightarrow> time
    \<Rightarrow> ('s, 'r) federator \<Rightarrow> federation_envelope \<Rightarrow> federation_payload
    \<Rightarrow> ('s, 'r) federator \<times> unit result" where
  "apply_payload T R E now f e p = (case p of
     ReplicateMessage m \<Rightarrow>
       orelse_keep f (message_verify E m) (\<lambda>_.
       orelse_keep f (op_put_message T (fd_store f) m) (\<lambda>s.
         (fed_emit R (f\<lparr>fd_store := s\<rparr>) (received now e (mb_board (msg_body m))
            [(''author'', JStr (to_hex E (mb_author (msg_body m)))), (''id'', JStr (mid (msg_id m))),
             (''kind'', JStr ''message'')]), Inr ())))
   | AnnounceBoard bd \<Rightarrow>
       orelse_keep f (op_put_board T (fd_store f) bd) (\<lambda>s.
         (fed_emit R (f\<lparr>fd_store := s\<rparr>) (received now e (bd_slug bd) [(''kind'', JStr ''board'')]),
          Inr ()))
   | BoardSnapshot bd ms \<Rightarrow>
       orelse_keep f (verify_all E ms) (\<lambda>_.
       orelse_keep f (op_put_board T (fd_store f) bd) (\<lambda>s.
         case put_all T s ms of
           (s', Inl x) \<Rightarrow> (f\<lparr>fd_store := s'\<rparr>, Inl x)
         | (s', Inr _) \<Rightarrow>
             (fed_emit R (f\<lparr>fd_store := s'\<rparr>) (received now e (bd_slug bd)
                [(''kind'', JStr ''snapshot''), (''messages'', JNum (int (length ms)))]), Inr ())))
   | BoardDigest b ids \<Rightarrow>
       (fed_emit R f (received now e b
          [(''have'', JNum (int (length ids))), (''kind'', JStr ''digest'')]), Inr ())
   | PeerExchange ps \<Rightarrow>
       (let (b, added) = merge_discovered E (fd_peers f) ps in
        (fed_emit R (f\<lparr>fd_peers := b\<rparr>) (received now e ''peers''
           [(''discovered'', JNum (int added)), (''kind'', JStr ''peer_exchange'')]), Inr ()))
   | PeerHello node protocol \<Rightarrow>
       (fed_emit R f (event_with (JObj [(''protocol'', JStr protocol)])
          (event_by (fe_node e) (event_now now EvFederationLink (to_hex E node)))), Inr ())
   | Ack i \<Rightarrow>
       (fed_emit R f (received now e ''ack'' [(''id'', JStr i), (''kind'', JStr ''ack'')]), Inr ()))"

definition ingest :: "'s store_ops \<Rightarrow> ('r \<Rightarrow> event \<Rightarrow> 'r result) \<Rightarrow> env \<Rightarrow> wire \<Rightarrow> time
    \<Rightarrow> ('s, 'r) federator \<Rightarrow> bytes \<Rightarrow> ('s, 'r) federator \<times> unit result" where
  "ingest T R E W now f b =
     orelse_keep f (envelope_from_bytes W b) (\<lambda>e.
     case envelope_open E W e of
       Inl x \<Rightarrow> (fed_emit R f (event_with (JObj [(''seq'', JNum (int (unat (fe_seq e))))])
                   (event_by (fe_node e) (event_now now EvSecurity ''federation.bad_envelope''))), Inl x)
     | Inr p \<Rightarrow> apply_payload T R E now f e p)"

section \<open>Egress\<close>

lemma send_all_takeWhile:
  "send_all X b ps = (map (\<lambda>p. (p, b)) (takeWhile (\<lambda>p. is_ok (X p b)) ps),
     case find (\<lambda>p. \<not> is_ok (X p b)) ps of None \<Rightarrow> Inr () | Some p \<Rightarrow> X p b)"
proof (induction ps)
  case Nil
  then show ?case by simp
next
  case (Cons p ps)
  then show ?case by (cases "X p b") auto
qed

lemma scrub_board_redacts: "scrub_board bd = bd\<lparr>bd_description := REDACTED\<rparr>"
  by (simp add: scrub_board_def json_get_def as_str_def description_is_sensitive)

section \<open>Ingress\<close>

text \<open>The writes federation may make: any board, and messages that verify.\<close>

definition fed_writes :: "env \<Rightarrow> store_op set" where
  "fed_writes E = range PutBoard \<union> {PutMessage m | m. message_verify E m = Inr ()}"

lemma verify_all_Inr_iff [result_simps]:
  "verify_all E ms = Inr u \<longleftrightarrow> (\<forall>m \<in> set ms. message_verify E m = Inr ())"
  by (induction ms) (auto simp: result_simps simp del: message_verify_Inr_iff)

lemma put_all_writes:
  "\<exists>n. writes T s (map PutMessage (take n ms)) (fst (put_all T s ms))"
proof (induction ms arbitrary: s)
  case Nil
  then show ?case by (auto intro!: exI[of _ 0])
next
  case (Cons m ms)
  show ?case
  proof (cases "op_put_message T s m")
    case (Inl e)
    then show ?thesis by (auto intro!: exI[of _ 0])
  next
    case (Inr s')
    obtain n where "writes T s' (map PutMessage (take n ms)) (fst (put_all T s' ms))"
      using Cons by blast
    with Inr show ?thesis by (auto intro!: exI[of _ "Suc n"])
  qed
qed

lemma fed_emit_store [simp]: "fd_store (fed_emit R f e) = fd_store f"
  by (simp add: fed_emit_def)

lemma fed_emit_peers [simp]: "fd_peers (fed_emit R f e) = fd_peers f"
  by (simp add: fed_emit_def)

lemma fed_emit_web [simp]: "fd_web (fed_emit R f e) = fd_web f"
  by (simp add: fed_emit_def)

lemma writes_none: "s' = s \<Longrightarrow> \<exists>qs. writes T s qs s' \<and> set qs \<subseteq> S"
  by (rule exI[of _ "[]"]) simp

lemma writes_one: "store_exec T s q = (s', Done) \<Longrightarrow> q \<in> S \<Longrightarrow> \<exists>qs. writes T s qs s' \<and> set qs \<subseteq> S"
  by (rule exI[of _ "[q]"]) simp

lemma put_message_fed: "message_verify E m = Inr () \<Longrightarrow> PutMessage m \<in> fed_writes E"
  by (simp add: fed_writes_def)

lemma put_board_fed: "PutBoard bd \<in> fed_writes E"
  by (simp add: fed_writes_def)

lemma apply_payload_writes:
  "\<exists>qs. writes T (fd_store f) qs (fd_store (fst (apply_payload T R E now f e p))) \<and>
    set qs \<subseteq> fed_writes E"
proof (cases p)
  case (ReplicateMessage m)
  show ?thesis
    by (cases "message_verify E m"; cases "op_put_message T (fd_store f) m")
       (auto simp: ReplicateMessage apply_payload_def simp del: message_verify_Inr_iff
         intro: writes_none writes_one[of _ _ "PutMessage m"] put_message_fed)
next
  case (AnnounceBoard bd)
  show ?thesis
    by (cases "op_put_board T (fd_store f) bd")
       (auto simp: AnnounceBoard apply_payload_def
         intro: writes_none writes_one[of _ _ "PutBoard bd"] put_board_fed)
next
  case (BoardSnapshot bd ms)
  show ?thesis
  proof (cases "verify_all E ms")
    case (Inl x)
    then show ?thesis by (auto simp: BoardSnapshot apply_payload_def intro!: exI[of _ "[]"])
  next
    case (Inr u)
    then have ok: "\<forall>m \<in> set ms. message_verify E m = Inr ()"
      by (simp add: result_simps del: message_verify_Inr_iff)
    show ?thesis
    proof (cases "op_put_board T (fd_store f) bd")
      case (Inl x)
      with Inr show ?thesis by (auto simp: BoardSnapshot apply_payload_def intro!: exI[of _ "[]"])
    next
      case (Inr s)
      obtain n where n: "writes T s (map PutMessage (take n ms)) (fst (put_all T s ms))"
        using put_all_writes[of T s ms] by (rule exE)
      have "fd_store (fst (apply_payload T R E now f e p)) = fst (put_all T s ms)"
        using \<open>verify_all E ms = Inr u\<close> Inr
        by (auto simp: BoardSnapshot apply_payload_def split: prod.split sum.split)
      moreover have "set (map PutMessage (take n ms)) \<subseteq> fed_writes E"
        using ok set_take_subset[of n ms] by (fastforce simp: fed_writes_def)
      ultimately show ?thesis
        using n Inr
        by (intro exI[of _ "PutBoard bd # map PutMessage (take n ms)"]) (simp add: put_board_fed)
    qed
  qed
qed (auto simp: apply_payload_def Let_def split: prod.split intro!: exI[of _ "[]"])

text \<open>Whatever bytes arrive, the store changes by accepted federation writes only.\<close>

lemma ingest_writes:
  "\<exists>qs. writes T (fd_store f) qs (fd_store (fst (ingest T R E W now f b))) \<and> set qs \<subseteq> fed_writes E"
proof (cases "envelope_from_bytes W b")
  case (Inl x)
  then show ?thesis by (auto simp: ingest_def intro!: exI[of _ "[]"])
next
  case (Inr e)
  show ?thesis
  proof (cases "envelope_open E W e")
    case (Inl x)
    with Inr show ?thesis by (auto simp: ingest_def intro!: exI[of _ "[]"])
  next
    case (Inr p)
    with \<open>envelope_from_bytes W b = Inr e\<close> show ?thesis
      using apply_payload_writes[of T f R E now e p] by (simp add: ingest_def)
  qed
qed

text \<open>Ingest changes the peers by discovery only, and never the web, identity or sequence.\<close>

lemma ingest_peers:
  "\<exists>ps. fd_peers (fst (ingest T R E W now f b)) = fst (merge_discovered E (fd_peers f) ps)"
proof -
  have nil: "fst (merge_discovered E (fd_peers f) []) = fd_peers f" by simp
  have "\<exists>ps. fd_peers (fst (apply_payload T R E now f e p)) = fst (merge_discovered E (fd_peers f) ps)"
    for e p
  proof (cases p)
    case (ReplicateMessage m)
    then show ?thesis
      by (cases "message_verify E m"; cases "op_put_message T (fd_store f) m")
         (auto simp: apply_payload_def intro!: exI[of _ "[]"] simp del: message_verify_Inr_iff)
  next
    case (AnnounceBoard bd)
    then show ?thesis
      by (cases "op_put_board T (fd_store f) bd")
         (auto simp: apply_payload_def intro!: exI[of _ "[]"])
  next
    case (BoardSnapshot bd ms)
    then show ?thesis
      by (cases "verify_all E ms"; cases "op_put_board T (fd_store f) bd")
         (auto simp: apply_payload_def intro!: exI[of _ "[]"] split: prod.split sum.split)
  next
    case (PeerExchange ps)
    then show ?thesis
      by (auto simp: apply_payload_def Let_def split_beta intro!: exI[of _ ps])
  qed (auto simp: apply_payload_def intro!: exI[of _ "[]"])
  then show ?thesis
    using nil
    by (cases "envelope_from_bytes W b"; cases "envelope_open E W (projr (envelope_from_bytes W b))")
       (auto simp: ingest_def intro: exI[of _ "[]"])
qed

end
