(* ===== verification/Federation_Props.thy ===== *)
theory Federation_Props
  imports Federation Encoding
begin

text \<open>
  What the replication engine guarantees: who egress reaches, what a failed ingest leaves
  behind, that discovery and promotion never grant full trust, and that a round of
  anti-entropy converges; and two ways in which it does less than it says.
\<close>

section \<open>Trust\<close>

lemma ingest_trusted:
  assumes "hex_ok E" "book_wf E (fd_peers f)"
  shows "book_wf E (fd_peers (fst (ingest T R E W now f b))) \<and>
    set (trusted_peers (fst (ingest T R E W now f b))) = set (trusted_peers f)"
  using ingest_peers[of T R E W now f b] merge_trusted[OF assms] book_wf_merge[OF assms(2)]
  by (auto simp: trusted_peers_def)

definition ingest_run where
  "ingest_run T R E W f bs = foldl (\<lambda>f x. fst (ingest T R E W (fst x) f (snd x))) f bs"

lemma ingest_run_Cons: "ingest_run T R E W f (x # xs) =
    ingest_run T R E W (fst (ingest T R E W (fst x) f (snd x))) xs"
  by (simp add: ingest_run_def)

lemma ingest_run_trusted:
  assumes "hex_ok E" "book_wf E (fd_peers f)"
  shows "set (trusted_peers (ingest_run T R E W f bs)) = set (trusted_peers f)"
  using assms(2)
proof (induction bs arbitrary: f)
  case Nil
  then show ?case by (simp add: ingest_run_def)
next
  case (Cons x bs)
  then show ?case
    using ingest_trusted[OF assms(1) Cons.prems, of T R W "fst x" "snd x"]
    by (simp add: ingest_run_Cons)
qed

text \<open>What the promotion loop does to the entry of a node.\<close>

lemma promote_all_get:
  assumes "hex_ok E" "book_wf E b"
  shows "book_get E (fst (promote_all E w roots M b ps)) n =
    (case find (\<lambda>p. pr_node p = n \<and> is_trusted E w n roots M) (rev ps) of
       Some p \<Rightarrow> Some (peer_new n (pr_addr p) TlLinked) | None \<Rightarrow> book_get E b n)"
  using assms(2)
proof (induction ps arbitrary: b)
  case Nil
  then show ?case by simp
next
  case (Cons p ps)
  let ?q = "peer_new (pr_node p) (pr_addr p) TlLinked"
  have get: "book_get E (book_add E b ?q) = (book_get E b)(pr_node p \<mapsto> ?q)"
    using book_get_add[OF Cons.prems assms(1), of ?q] by (simp add: peer_new_def)
  show ?case
    using Cons.IH[OF Cons.prems] Cons.IH[OF book_wf_add[OF Cons.prems], of ?q] get
    by (auto simp: split_beta find_append split: option.splits)
qed

lemma find_rev_distinct:
  assumes "distinct (map g xs)"
  shows "find (\<lambda>x. g x = k \<and> p) (rev xs) = (if p then find (\<lambda>x. g x = k) xs else None)"
proof -
  have "find (\<lambda>x. g x = k) (rev xs) = find (\<lambda>x. g x = k) xs"
  proof (cases "find (\<lambda>x. g x = k) xs")
    case None
    then show ?thesis by (metis find_None_iff set_rev)
  next
    case (Some x)
    then have "x \<in> set xs \<and> g x = k"
      using assms by (simp add: find_key_iff)
    moreover have "distinct (map g (rev xs))"
      using assms by (simp add: rev_map[symmetric])
    ultimately have "find (\<lambda>x. g x = k) (rev xs) = Some x"
      by (simp add: find_key_iff)
    with Some show ?thesis by simp
  qed
  then show ?thesis by (cases p) (auto simp: find_None_iff)
qed

lemma book_all_distinct:
  assumes "book_wf E b"
  shows "distinct (map pr_node (book_all b))"
proof -
  have "map fst (pb_peers b) = map (to_hex E) (map pr_node (book_all b))"
  proof -
    have "\<forall>x \<in> set (pb_peers b). fst x = to_hex E (pr_node (snd x))"
      using assms bt.entries_get[of "pb_peers b"] by (auto simp: book_wf_def bt_entries_def)
    then show ?thesis by (simp add: book_all_def bt_values_def)
  qed
  with assms show ?thesis
    using bt_distinct[of "pb_peers b"] by (auto simp: book_wf_def distinct_map intro: inj_on_imageI2)
qed

lemma distinct_map_filter: "distinct (map g xs) \<Longrightarrow> distinct (map g (filter p xs))"
  by (induction xs) auto

lemma promote_get:
  assumes hex: "hex_ok E" and wf: "book_wf E (fd_peers f)"
  shows "book_get E (fd_peers (fst (promote_via_trust E f M))) n =
    (case book_get E (fd_peers f) n of
       None \<Rightarrow> None
     | Some p \<Rightarrow>
         Some (if pr_trust p = TlUnknown \<and> (\<exists>k \<le> M. endorsed E (fd_web f) (pr_node ` set (trusted_peers f)) k n)
               then p\<lparr>pr_trust := TlLinked\<rparr> else p))"
proof -
  let ?roots = "map pr_node (book_trusted (fd_peers f))"
  let ?un = "filter (\<lambda>p. pr_trust p = TlUnknown) (book_all (fd_peers f))"
  have roots: "set ?roots = pr_node ` set (trusted_peers f)"
    by (simp add: trusted_peers_def)
  have none: "\<not> endorsed E w {} k a" for w k a
    by (induction k arbitrary: a) auto
  have dist: "distinct (map pr_node ?un)"
    by (intro distinct_map_filter book_all_distinct[OF wf])
  have found: "find (\<lambda>p. pr_node p = n) ?un = (case book_get E (fd_peers f) n of
      None \<Rightarrow> None | Some p \<Rightarrow> if pr_trust p = TlUnknown then Some p else None)"
  proof (rule option_eqI)
    fix p
    have "find (\<lambda>p. pr_node p = n) ?un = Some p \<longleftrightarrow>
        book_get E (fd_peers f) n = Some p \<and> pr_trust p = TlUnknown"
      unfolding find_key_iff[OF dist]
      using book_all_iff[OF wf, of p] book_get_node[OF wf hex, of n p] by auto
    then show "find (\<lambda>p. pr_node p = n) ?un = Some p \<longleftrightarrow> (case book_get E (fd_peers f) n of
        None \<Rightarrow> None | Some p \<Rightarrow> if pr_trust p = TlUnknown then Some p else None) = Some p"
      by (auto split: option.split)
  qed
  have not_root: "n \<notin> set ?roots" if "book_get E (fd_peers f) n = Some p" "pr_trust p = TlUnknown" for p
    using that book_trusted_iff[OF wf] by auto
  have node: "pr_node p = n" if "book_get E (fd_peers f) n = Some p" for p
    using that by (rule book_get_node[OF wf hex])
  show ?thesis
  proof (cases "?roots = []")
    case True
    then show ?thesis
      using none by (auto simp: promote_via_trust_def trusted_peers_def split: option.split)
  next
    case False
    then have "book_get E (fd_peers (fst (promote_via_trust E f M))) n =
        book_get E (fst (promote_all E (fd_web f) ?roots M (fd_peers f) ?un)) n"
      by (simp add: promote_via_trust_def Let_def split_beta)
    then show ?thesis
      unfolding promote_all_get[OF hex wf] find_rev_distinct[OF dist] found
      using is_trusted_iff[OF hex not_root] node roots
      by (auto simp: peer_new_def split: option.split)
  qed
qed

lemma promote_wf: "book_wf E (fd_peers f) \<Longrightarrow> book_wf E (fd_peers (fst (promote_via_trust E f M)))"
proof -
  have "book_wf E b \<Longrightarrow> book_wf E (fst (promote_all E w roots M b ps))" for b w roots ps
    by (induction ps arbitrary: b) (auto simp: split_beta intro: book_wf_add)
  then show "book_wf E (fd_peers f) \<Longrightarrow> ?thesis"
    by (auto simp: promote_via_trust_def Let_def split_beta)
qed

lemma promote_trusted:
  assumes "hex_ok E" "book_wf E (fd_peers f)"
  shows "set (trusted_peers (fst (promote_via_trust E f M))) = set (trusted_peers f)"
proof -
  have "p \<in> set (trusted_peers (fst (promote_via_trust E f M))) \<longleftrightarrow> p \<in> set (trusted_peers f)" for p
    unfolding trusted_peers_def book_trusted_iff[OF promote_wf[OF assms(2)]]
      book_trusted_iff[OF assms(2)] promote_get[OF assms]
    by (auto split: option.splits if_splits)
  then show ?thesis by blast
qed

section \<open>Sealed bytes\<close>

definition sealed_bytes :: "env \<Rightarrow> wire \<Rightarrow> identity \<Rightarrow> federation_payload \<Rightarrow> u64 \<Rightarrow> bytes result" where
  "sealed_bytes E W i p seq = rbind (envelope_seal E W i p seq) (envelope_to_bytes W)"

lemma ingest_sealed:
  assumes "sig_ok E" "identity_wf E i" "wire_ok W" "sealed_bytes E W i p seq = Inr b"
  shows "\<exists>e. fe_node e = ident i \<and> ingest T R E W now f b = apply_payload T R E now f e p"
proof -
  obtain e where e: "envelope_seal E W i p seq = Inr e" "envelope_to_bytes W e = Inr b"
    using assms(4) by (auto simp: sealed_bytes_def result_simps)
  have "envelope_from_bytes W b = Inr e"
    by (rule envelope_roundtrip[OF assms(3) e(2)])
  then show ?thesis
    using seal_open[OF assms(1,2) e(1)] by (auto simp: ingest_def)
qed

section \<open>Anti-entropy\<close>

text \<open>
  The caller's side of a round: the node that answers a digest replicates the messages one
  after another, up to the first that fails; the other node ingests what the transport took
  for it, and collects the results.
\<close>

fun replicate_all ::
  "env \<Rightarrow> wire \<Rightarrow> (peer \<Rightarrow> bytes \<Rightarrow> unit result) \<Rightarrow> ('s, 'r) federator \<Rightarrow> message list
    \<Rightarrow> ('s, 'r) federator \<times> ((peer \<times> bytes) list \<times> unit result)" where
  "replicate_all E W X f [] = (f, [], Inr ())"
| "replicate_all E W X f (m # ms) = (case replicate_message E W X f m of
     (f', sent, Inl e) \<Rightarrow> (f', sent, Inl e)
   | (f', sent, Inr _) \<Rightarrow>
       (let (f2, sent2, r) = replicate_all E W X f' ms in (f2, sent @ sent2, r)))"

definition addressed_to :: "agent_id \<Rightarrow> (peer \<times> bytes) list \<Rightarrow> bytes list" where
  "addressed_to n sent = map snd (filter (\<lambda>x. pr_node (fst x) = n) sent)"

fun ingest_results where
  "ingest_results T R E W f [] = []"
| "ingest_results T R E W f ((now, b) # xs) =
     (let (f', r) = ingest T R E W now f b in r # ingest_results T R E W f' xs)"

text \<open>
  When all of them were replicated, every bytes handed over for a trusted peer are the sealed
  replica of one of the messages, and no message is missing.
\<close>

lemma replicate_message_ok:
  assumes "replicate_message E W X f m = (f', sent, Inr ())" "p \<in> set (trusted_peers f)"
  shows "fd_identity f' = fd_identity f \<and> fd_peers f' = fd_peers f \<and>
    (\<exists>b. sealed_bytes E W (fd_identity f) (ReplicateMessage m) (fd_seq f) = Inr b \<and>
      set (addressed_to (pr_node p) sent) = {b})"
proof -
  obtain b where b: "sealed_bytes E W (fd_identity f) (ReplicateMessage m) (fd_seq f) = Inr b"
      "send_all X b (book_trusted (fd_peers f)) = (sent, Inr ())" "f' = f\<lparr>fd_seq := fd_seq f + 1\<rparr>"
    using assms(1)
    by (auto simp: replicate_message_def fed_broadcast_def next_seq_def sealed_bytes_def split: sum.splits)
  have "snd (send_all X b ps) = Inr () \<Longrightarrow> fst (send_all X b ps) = map (\<lambda>p. (p, b)) ps" for ps
    by (induction ps) (auto split: sum.splits prod.splits)
  with b(2) have "sent = map (\<lambda>p. (p, b)) (trusted_peers f)"
    unfolding trusted_peers_def by (metis fst_conv snd_conv)
  then have "set (addressed_to (pr_node p) sent) = {b}"
    using assms(2) by (auto simp: addressed_to_def image_iff)
  with b(1,3) show ?thesis by simp
qed

definition replica_of :: "env \<Rightarrow> wire \<Rightarrow> identity \<Rightarrow> message \<Rightarrow> bytes \<Rightarrow> bool" where
  "replica_of E W i m b \<longleftrightarrow> (\<exists>seq. sealed_bytes E W i (ReplicateMessage m) seq = Inr b)"

lemma replicate_all_ok:
  assumes "replicate_all E W X f ms = (f', sent, Inr ())" "p \<in> set (trusted_peers f)"
  shows "(\<forall>m \<in> set ms. \<exists>b \<in> set (addressed_to (pr_node p) sent). replica_of E W (fd_identity f) m b) \<and>
    (\<forall>b \<in> set (addressed_to (pr_node p) sent). \<exists>m \<in> set ms. replica_of E W (fd_identity f) m b)"
  using assms
proof (induction ms arbitrary: f sent)
  case Nil
  then show ?case by (simp add: addressed_to_def)
next
  case (Cons m ms)
  obtain f1 s1 r1 where one': "replicate_message E W X f m = (f1, s1, r1)"
    by (cases "replicate_message E W X f m") auto
  with Cons.prems(1) have one: "replicate_message E W X f m = (f1, s1, Inr ())"
    by (cases r1) auto
  obtain s2 where rest: "replicate_all E W X f1 ms = (f', s2, Inr ())" "sent = s1 @ s2"
    using Cons.prems(1) by (auto simp: one split: prod.splits)
  note ok = replicate_message_ok[OF one Cons.prems(2)]
  have "p \<in> set (trusted_peers f1)"
    using ok Cons.prems(2) by (simp add: trusted_peers_def)
  from Cons.IH[OF rest(1) this] ok show ?case
    by (fastforce simp: rest(2) addressed_to_def replica_of_def)
qed

lemma replica_opens:
  assumes "sig_ok E" "identity_wf E i" "wire_ok W" "replica_of E W i m b"
  shows "\<exists>e. envelope_from_bytes W b = Inr e \<and> envelope_open E W e = Inr (ReplicateMessage m)"
proof -
  obtain e seq where e: "envelope_seal E W i (ReplicateMessage m) seq = Inr e" "envelope_to_bytes W e = Inr b"
    using assms(4) by (auto simp: replica_of_def sealed_bytes_def result_simps)
  then show ?thesis
    using envelope_roundtrip[OF assms(3) e(2)] seal_open[OF assms(1,2) e(1)] by auto
qed

lemma ingest_run_step: "ingest T R E W (fst x) f (snd x) = (f', r) \<Longrightarrow>
    ingest_run T R E W f (x # xs) = ingest_run T R E W f' xs \<and>
    ingest_results T R E W f (x # xs) = r # ingest_results T R E W f' xs"
  by (cases x) (simp add: ingest_run_Cons)

text \<open>An ingested replica adds its message to the log, unless the store refuses it.\<close>

context bbs_over_store
begin

lemma ingest_replica_effect:
  assumes "sig_ok E" "identity_wf E i" "wire_ok W" "refines (fd_store f) a"
    and "replica_of E W i m b" "message_verify E m = Inr ()" "ingest T R E W now f b = (f', r)"
  shows "is_ok r \<and> refines (fd_store f') (a\<lparr>as_log := log_put (as_log a) m\<rparr>) \<or>
    \<not> is_ok r \<and> fd_store f' = fd_store f \<and> (\<exists>x. op_put_message T (fd_store f) m = Inl x)"
proof -
  obtain e where "envelope_from_bytes W b = Inr e" "envelope_open E W e = Inr (ReplicateMessage m)"
    using replica_opens[OF assms(1-3,5)] by blast
  with assms(6,7) have run: "apply_payload T R E now f e (ReplicateMessage m) = (f', r)"
    by (simp add: ingest_def)
  show ?thesis
  proof (cases "op_put_message T (fd_store f) m")
    case (Inl x)
    with run assms(6) show ?thesis by (auto simp: apply_payload_def)
  next
    case (Inr s)
    then have "refines s (a\<lparr>as_log := log_put (as_log a) m\<rparr>)"
      using written[OF assms(4), of "PutMessage m" s] by simp
    moreover have "r = Inr ()" "fd_store f' = s"
      using run Inr assms(6) by (auto simp: apply_payload_def simp del: message_verify_Inr_iff)
    ultimately show ?thesis by simp
  qed
qed

lemma ingest_replicas:
  assumes "sig_ok E" "identity_wf E i" "wire_ok W" "refines (fd_store f) a"
    and "\<forall>x \<in> set xs. \<exists>m. replica_of E W i m (snd x) \<and> message_verify E m = Inr ()"
  shows "\<exists>a'. refines (fd_store (ingest_run T R E W f xs)) a' \<and> set (as_log a) \<subseteq> set (as_log a') \<and>
    (list_all is_ok (ingest_results T R E W f xs) \<longrightarrow>
      (\<forall>x \<in> set xs. \<forall>m. replica_of E W i m (snd x) \<longrightarrow> msg_id m \<in> msg_id ` set (as_log a')))"
  using assms(4,5)
proof (induction xs arbitrary: f a)
  case Nil
  then show ?case by (auto simp: ingest_run_def)
next
  case (Cons x xs)
  obtain f1 r where step: "ingest T R E W (fst x) f (snd x) = (f1, r)" by fastforce
  obtain m where m: "replica_of E W i m (snd x)" "message_verify E m = Inr ()"
    using Cons.prems(2) by auto
  have only: "m' = m" if "replica_of E W i m' (snd x)" for m'
    using replica_opens[OF assms(1-3) m(1)] replica_opens[OF assms(1-3) that] by auto
  note run = ingest_run_step[OF step, of xs]
  have put: "set (as_log a) \<subseteq> set (log_put (as_log a) m)"
    "msg_id m \<in> msg_id ` set (log_put (as_log a) m)"
    by (auto simp: log_put_def log_get_def find_None_iff find_Some_iff image_iff)
       (metis message_id.expand)
  obtain a1 where a1: "refines (fd_store f1) a1" "set (as_log a) \<subseteq> set (as_log a1)"
      "is_ok r \<longrightarrow> msg_id m \<in> msg_id ` set (as_log a1)"
    using ingest_replica_effect[OF assms(1-3) Cons.prems(1) m step] put Cons.prems(1) by fastforce
  obtain a' where a': "refines (fd_store (ingest_run T R E W f1 xs)) a'" "set (as_log a1) \<subseteq> set (as_log a')"
      "list_all is_ok (ingest_results T R E W f1 xs) \<longrightarrow>
        (\<forall>x \<in> set xs. \<forall>m. replica_of E W i m (snd x) \<longrightarrow> msg_id m \<in> msg_id ` set (as_log a'))"
    using Cons.IH[OF a1(1)] Cons.prems(2) by auto
  have "list_all is_ok (ingest_results T R E W f (x # xs)) \<longrightarrow>
      (\<forall>y \<in> set (x # xs). \<forall>m. replica_of E W i m (snd y) \<longrightarrow> msg_id m \<in> msg_id ` set (as_log a'))"
    using a1(3) a'(2,3) only by (auto simp: run)
  moreover have "set (as_log a) \<subseteq> set (as_log a')"
    using a1(2) a'(2) by blast
  ultimately show ?case using a'(1) by (simp only: run) blast
qed

text \<open>A store that never fails refuses no replica.\<close>

lemma ingest_replicas_accepted:
  assumes "sig_ok E" "identity_wf E i" "wire_ok W" "refines (fd_store f) a"
    and "\<forall>x \<in> set xs. \<exists>m. replica_of E W i m (snd x) \<and> message_verify E m = Inr ()"
    and ok: "\<And>s a m. refines s a \<Longrightarrow> is_ok (op_put_message T s m)"
  shows "list_all is_ok (ingest_results T R E W f xs)"
  using assms(4,5)
proof (induction xs arbitrary: f a)
  case Nil
  then show ?case by simp
next
  case (Cons x xs)
  obtain f1 r where step: "ingest T R E W (fst x) f (snd x) = (f1, r)" by fastforce
  obtain m where m: "replica_of E W i m (snd x)" "message_verify E m = Inr ()"
    using Cons.prems(2) by auto
  have "is_ok r \<and> refines (fd_store f1) (a\<lparr>as_log := log_put (as_log a) m\<rparr>)"
    using ingest_replica_effect[OF assms(1-3) Cons.prems(1) m step] ok[OF Cons.prems(1), of m] by auto
  with Cons.IH Cons.prems(2) show ?case by (auto simp: ingest_run_step[OF step])
qed

end

lemma reliable_put:
  assumes "reliable_store (store_exec T) (\<lambda>q. q) refines init" "refines s a"
  shows "is_ok (op_put_message T s m)"
  using reliable_store.never_fails[OF assms, of "PutMessage m"]
  by (cases "op_put_message T s m") auto

text \<open>The in-memory store accepts every replica.\<close>

lemma ingest_replica:
  assumes "sig_ok E" "identity_wf E i" "wire_ok W" "mem_refines (fd_store f) a"
    and "sealed_bytes E W i (ReplicateMessage m) seq = Inr b" "message_verify E m = Inr ()"
  shows "mem_refines (fd_store (fst (ingest memory_ops R E W now f b)))
    (a\<lparr>as_log := log_put (as_log a) m\<rparr>)"
proof -
  obtain f' r where step: "ingest memory_ops R E W now f b = (f', r)" by fastforce
  have "replica_of E W i m b" using assms(5) by (auto simp: replica_of_def)
  from mem_bbs.ingest_replica_effect[OF assms(1-4) this assms(6) step]
    reliable_put[OF mem.reliable_store_axioms assms(4), of m]
  show ?thesis by (auto simp: step)
qed

text \<open>
  Property C2. A round of anti-entropy converges, over any two stores that fulfil the contract
  (the in-memory one and the durable one do). Node A sends its digest of a board; node B
  reconciles it and replicates the messages of the answer to its trusted peers, A among
  them, all without error; A ingests, at any times, exactly the bytes that B's transport took
  for A. Afterwards A still holds every message it held, however stale the digest's window
  was, and unless its store refused a write it holds a message under every id among B's
  newest \<open>nb\<close>. A store that never fails refuses none.
\<close>

theorem anti_entropy_converges:
  assumes "sig_ok E" "wire_ok W" "identity_wf E (fd_identity fa)" "identity_wf E (fd_identity fb)"
    and "store_contract (store_exec TA) (\<lambda>q. q) RA initA" "store_contract (store_exec TB) (\<lambda>q. q) RB initB"
    and "RA (fd_store fa) a" "RB (fd_store fb) b"
    and authentic: "\<forall>m \<in> set (as_log b). message_verify E m = Inr ()"
    and digest: "make_digest TA E W fa slug na = (fa', Inr d)" "envelope_to_bytes W d = Inr bytes"
    and delta: "op_list_messages TB (fd_store fb) slug nb = Inr theirs" "reconcile TB E W fb bytes nb = Inr delta"
    and sent: "node_id fa \<in> pr_node ` set (trusted_peers fb)"
      "replicate_all E W X fb delta = (fb', sent, Inr ())"
    and inbox: "map snd xs = addressed_to (node_id fa) sent"
  shows "\<exists>a'. RA (fd_store (ingest_run TA R E W fa' xs)) a' \<and> set (as_log a) \<subseteq> set (as_log a') \<and>
    (list_all is_ok (ingest_results TA R E W fa' xs) \<longrightarrow> msg_id ` set theirs \<subseteq> msg_id ` set (as_log a')) \<and>
    (reliable_store (store_exec TA) (\<lambda>q. q) RA initA \<longrightarrow> list_all is_ok (ingest_results TA R E W fa' xs))"
proof -
  note A = bbs_over_storeI[OF assms(5)] and B = bbs_over_storeI[OF assms(6)]
  obtain mine where mine: "op_list_messages TA (fd_store fa) slug na = Inr mine"
    using digest(1) by (cases "op_list_messages TA (fd_store fa) slug na") (auto simp: make_digest_def)
  obtain seq where fa': "fd_store fa' = fd_store fa"
    and seal: "envelope_seal E W (fd_identity fa) (BoardDigest slug (map msg_id mine)) seq = Inr d"
    using digest(1) mine by (auto simp: make_digest_def seal_next_def next_seq_def)
  have delta': "delta = filter (\<lambda>m. mid (msg_id m) \<notin> mid ` set (map msg_id mine)) theirs"
    using delta envelope_roundtrip[OF assms(2) digest(2)] seal_open[OF assms(1,3) seal]
    by (simp add: reconcile_def Let_def)
  have sub: "set mine \<subseteq> set (as_log a)" "set theirs \<subseteq> set (as_log b)"
    using bbs_over_store.read_back(4)[OF A assms(7) mine] bbs_over_store.read_back(4)[OF B assms(8) delta(1)]
      set_window by (fastforce simp: log_board_def)+
  obtain p where p: "p \<in> set (trusted_peers fb)" "pr_node p = node_id fa"
    using sent(1) by auto
  note rep = replicate_all_ok[OF sent(2) p(1), unfolded p(2), folded inbox]
  have auth: "\<forall>x \<in> set xs. \<exists>m. replica_of E W (fd_identity fb) m (snd x) \<and> message_verify E m = Inr ()"
    using rep sub(2) authentic by (fastforce simp: delta' simp del: message_verify_Inr_iff)
  have ref: "RA (fd_store fa') a" by (simp add: fa' assms(7))
  obtain a' where a': "RA (fd_store (ingest_run TA R E W fa' xs)) a'" "set (as_log a) \<subseteq> set (as_log a')"
      "list_all is_ok (ingest_results TA R E W fa' xs) \<longrightarrow>
        (\<forall>x \<in> set xs. \<forall>m. replica_of E W (fd_identity fb) m (snd x) \<longrightarrow> msg_id m \<in> msg_id ` set (as_log a'))"
    using bbs_over_store.ingest_replicas[OF A assms(1,4,2) ref auth] by blast
  have "msg_id m \<in> msg_id ` set (as_log a')"
    if "m \<in> set theirs" "list_all is_ok (ingest_results TA R E W fa' xs)" for m
  proof (cases "m \<in> set delta")
    case True
    then show ?thesis using rep a'(3) that(2) by fastforce
  next
    case False
    then have "mid (msg_id m) \<in> mid ` msg_id ` set mine" using that(1) by (auto simp: delta')
    then have "msg_id m \<in> msg_id ` set mine" by (auto intro: message_id.expand)
    with sub(1) a'(2) show ?thesis by blast
  qed
  moreover have "list_all is_ok (ingest_results TA R E W fa' xs)"
    if "reliable_store (store_exec TA) (\<lambda>q. q) RA initA"
    by (rule bbs_over_store.ingest_replicas_accepted[OF A assms(1,4,2) ref auth])
       (rule reliable_put[OF that])
  ultimately show ?thesis using a'(1,2) by blast
qed

lemma demo_wire_total:
  "\<exists>b. ser_payload demo_wire p = Inr b" "\<exists>b. ser_envelope demo_wire e = Inr b"
  by (simp_all add: demo_wire_def demo_ser_def)

lemma demo_seal_total: "\<exists>e. envelope_seal E demo_wire i p seq = Inr e"
  using demo_wire_total(1)[of p] by (auto simp: envelope_seal_def Let_def)

lemma demo_to_bytes_total: "\<exists>b. envelope_to_bytes demo_wire e = Inr b"
  using demo_wire_total(2)[of e] by (auto simp: envelope_to_bytes_def)

definition demo_fed :: "nat \<Rightarrow> memory_store \<Rightarrow> (memory_store, memory_reporter) federator" where
  "demo_fed n s = federator_new (demo_id n) s memory_reporter_default book_new"

lemma demo_bbs_refines: "mem_refines (bbs_store demo_bbs)
    \<lparr>as_boards = [(''general'', demo_board)], as_log = [demo_message], as_personas = []\<rparr>"
  by (auto simp: mem_refines_def demo_bbs_store bt_wf_def log_keys_def bt_get_def log_get_def
      log_board_def demo_message_def demo_body_def)

text \<open>A node that trusts node 5, and the bytes its transport takes always arrive.\<close>

definition demo_answering :: "(memory_store, memory_reporter) federator" where
  "demo_answering = fed_add_peer demo_env (demo_fed 6 (bbs_store demo_bbs))
     (peer_new (ident (demo_id 5)) ''a:1'' TlTrusted)"

theorem anti_entropy_converges_witness:
  "\<exists>xs a sent. snd (replicate_all demo_env demo_wire (\<lambda>_ _. Inr ()) demo_answering [demo_message]) = (sent, Inr ()) \<and>
    map snd xs = addressed_to (ident (demo_id 5)) sent \<and>
    mem_refines (fd_store (ingest_run memory_ops mr_report demo_env demo_wire
      (fst (make_digest memory_ops demo_env demo_wire (demo_fed 5 memory_store_new) ''general'' 9)) xs)) a \<and>
    msg_id demo_message \<in> msg_id ` set (as_log a)"
proof -
  let ?fa = "demo_fed 5 memory_store_new" and ?fb = demo_answering
  have fb: "fd_store ?fb = bbs_store demo_bbs" "fd_identity ?fb = demo_id 6"
    by (simp_all add: demo_answering_def fed_add_peer_def demo_fed_def federator_new_def)
  have wf: "identity_wf demo_env (fd_identity ?fa)" "identity_wf demo_env (fd_identity ?fb)"
    by (simp_all add: fb demo_fed_def federator_new_def demo_id_wf)
  have ref: "mem_refines (fd_store ?fa) abs_empty"
    using mem.refines_init by (simp add: demo_fed_def federator_new_def)
  have lists: "mem_list_messages (fd_store ?fa) ''general'' 9 = Inr []"
      "mem_list_messages (fd_store ?fb) ''general'' 9 = Inr [demo_message]"
    using mem_list_messages_refines[OF ref] mem_list_messages_refines[OF demo_bbs_refines]
    by (simp_all add: fb abs_empty_def log_board_def window_def demo_message_def demo_body_def)
  then have held: "op_list_messages memory_ops (fd_store ?fb) ''general'' 9 = Inr [demo_message]"
    by (simp add: memory_ops_def)
  obtain fa' d where d: "make_digest memory_ops demo_env demo_wire ?fa ''general'' 9 = (fa', Inr d)"
    and seal: "envelope_seal demo_env demo_wire (demo_id 5) (BoardDigest ''general'' []) 0 = Inr d"
    using demo_seal_total[of demo_env "demo_id 5" "BoardDigest ''general'' []" 0] lists(1)
    by (auto simp: make_digest_def memory_ops_def seal_next_def next_seq_def demo_fed_def federator_new_def)
  obtain bytes where bytes: "envelope_to_bytes demo_wire d = Inr bytes"
    using demo_to_bytes_total by blast
  have delta: "reconcile memory_ops demo_env demo_wire ?fb bytes 9 = Inr [demo_message]"
    using envelope_roundtrip[OF demo_wire_ok bytes] seal_open[OF demo_sig_ok demo_id_wf seal] lists(2)
    by (simp add: reconcile_def memory_ops_def Let_def)
  have trusted: "node_id ?fa \<in> pr_node ` set (trusted_peers ?fb)"
    by (simp add: demo_answering_def fed_add_peer_def demo_fed_def federator_new_def trusted_peers_def
        book_trusted_def book_all_def book_add_def book_new_def peer_new_def node_id_def bt_simps bt_values_def
        bt_empty_def)
  obtain fb' sent where sent: "replicate_all demo_env demo_wire (\<lambda>_ _. Inr ()) ?fb [demo_message] = (fb', sent, Inr ())"
  proof -
    obtain e where e: "envelope_seal demo_env demo_wire (demo_id 6) (ReplicateMessage demo_message)
        (fd_seq ?fb) = Inr e"
      using demo_seal_total by blast
    obtain rb where rb: "envelope_to_bytes demo_wire e = Inr rb"
      using demo_to_bytes_total by blast
    have ok: "snd (send_all (\<lambda>_ _. Inr ()) rb ps) = Inr ()" for ps
      by (induction ps) (auto split: prod.splits)
    show ?thesis
      using that e rb ok[of "book_trusted (fd_peers ?fb)"]
      by (cases "send_all (\<lambda>_ _. Inr ()) rb (book_trusted (fd_peers ?fb))")
         (auto simp: replicate_message_def fed_broadcast_def next_seq_def fb split: prod.splits)
  qed
  define xs where "xs = map (\<lambda>b. (0::time, b)) (addressed_to (node_id ?fa) sent)"
  have xs: "map snd xs = addressed_to (node_id ?fa) sent"
    by (simp add: xs_def comp_def)
  have auth: "\<forall>m \<in> set (as_log \<lparr>as_boards = [(''general'', demo_board)], as_log = [demo_message],
      as_personas = []\<rparr>). message_verify demo_env m = Inr ()"
    by (simp add: demo_message_verifies)
  from anti_entropy_converges[OF demo_sig_ok demo_wire_ok wf mem.store_contract_axioms
      mem.store_contract_axioms ref _ auth d bytes held delta trusted sent xs, of mr_report]
  obtain a where "mem_refines (fd_store (ingest_run memory_ops mr_report demo_env demo_wire fa' xs)) a"
      "msg_id demo_message \<in> msg_id ` set (as_log a)"
    using mem.reliable_store_axioms demo_bbs_refines by (auto simp: fb)
  with sent xs d show ?thesis
    by (intro exI[of _ xs] exI[of _ a] exI[of _ sent]) (simp add: node_id_def demo_fed_def federator_new_def)
qed

section \<open>Failed ingests\<close>

lemma put_all_split:
  assumes "put_all T s ms = (s', Inl x)"
  shows "\<exists>n < length ms. writes T s (map PutMessage (take n ms)) s' \<and> op_put_message T s' (ms ! n) = Inl x"
  using assms
proof (induction ms arbitrary: s)
  case Nil
  then show ?case by simp
next
  case (Cons m ms)
  show ?case
  proof (cases "op_put_message T s m")
    case (Inl e)
    with Cons.prems show ?thesis by (auto intro!: exI[of _ 0])
  next
    case (Inr s1)
    with Cons obtain n where "n < length ms" "writes T s1 (map PutMessage (take n ms)) s'"
        "op_put_message T s' (ms ! n) = Inl x" by auto
    with Inr show ?thesis by (auto intro!: exI[of _ "Suc n"])
  qed
qed

text \<open>The one way in which a failed payload leaves writes behind.\<close>

definition refused_midway where
  "refused_midway T E f p f' x \<longleftrightarrow> (\<exists>bd ms n. p = BoardSnapshot bd ms \<and> n < length ms \<and>
     (\<forall>m \<in> set ms. message_verify E m = Inr ()) \<and>
     writes T (fd_store f) (PutBoard bd # map PutMessage (take n ms)) (fd_store f') \<and>
     op_put_message T (fd_store f') (ms ! n) = Inl x \<and> f' = f\<lparr>fd_store := fd_store f'\<rparr>)"

lemma apply_payload_failed:
  assumes "apply_payload T R E now f e p = (f', Inl x)"
  shows "f' = f \<or> refused_midway T E f p f' x"
proof (cases p)
  case (ReplicateMessage m)
  with assms show ?thesis
    by (cases "message_verify E m"; cases "op_put_message T (fd_store f) m")
       (auto simp: apply_payload_def simp del: message_verify_Inr_iff)
next
  case (AnnounceBoard bd)
  with assms show ?thesis
    by (cases "op_put_board T (fd_store f) bd") (auto simp: apply_payload_def)
next
  case (BoardSnapshot bd ms)
  show ?thesis
  proof (cases "f' = f")
    case False
    obtain s s' u where s: "op_put_board T (fd_store f) bd = Inr s" "verify_all E ms = Inr u"
        "put_all T s ms = (s', Inl x)" and f': "f' = f\<lparr>fd_store := s'\<rparr>"
      using assms False
      by (cases "verify_all E ms"; cases "op_put_board T (fd_store f) bd")
         (auto simp: BoardSnapshot apply_payload_def simp del: verify_all_Inr_iff split: prod.splits sum.splits)
    have ok: "\<forall>m \<in> set ms. message_verify E m = Inr ()"
      using s(2) by (simp add: result_simps del: message_verify_Inr_iff)
    obtain n where "n < length ms" "writes T s (map PutMessage (take n ms)) s'"
        "op_put_message T s' (ms ! n) = Inl x"
      using put_all_split[OF s(3)] by blast
    then show ?thesis
      using ok s(1) BoardSnapshot by (auto simp: refused_midway_def f' simp del: message_verify_Inr_iff)
  qed simp
qed (use assms in \<open>auto simp: apply_payload_def split: prod.splits\<close>)

section \<open>Properties\<close>

text \<open>
  Property C33. What a failed ingest leaves behind, over any store. An ingest that returns an
  error has touched nothing but the audit log (not the store, the peers, the web or the
  sequence number), with one exception: when the bytes open to a snapshot all of whose
  messages verify and the store itself refuses one of them, the board and the messages before
  that one stay written, and nothing else. In particular a snapshot with a message that does
  not verify leaves nothing, and over a store that accepts every message no failed ingest
  leaves anything.
\<close>

theorem failed_ingest_no_trace:
  assumes "ingest T R E W now f b = (f', Inl x)"
  shows "f' = f\<lparr>fd_reporter := fd_reporter f'\<rparr> \<or>
    (\<exists>e bd ms n. envelope_from_bytes W b = Inr e \<and> envelope_open E W e = Inr (BoardSnapshot bd ms) \<and>
       n < length ms \<and> (\<forall>m \<in> set ms. message_verify E m = Inr ()) \<and>
       writes T (fd_store f) (PutBoard bd # map PutMessage (take n ms)) (fd_store f') \<and>
       op_put_message T (fd_store f') (ms ! n) = Inl x \<and> f' = f\<lparr>fd_store := fd_store f'\<rparr>)"
proof (cases "envelope_from_bytes W b")
  case (Inl y)
  with assms show ?thesis by (auto simp: ingest_def)
next
  case (Inr e)
  show ?thesis
  proof (cases "envelope_open E W e")
    case (Inl y)
    with Inr assms show ?thesis by (auto simp: ingest_def fed_emit_def)
  next
    case (Inr p)
    with \<open>envelope_from_bytes W b = Inr e\<close> assms
    have "apply_payload T R E now f e p = (f', Inl x)" by (simp add: ingest_def)
    from apply_payload_failed[OF this] show ?thesis
    proof
      assume "refused_midway T E f p f' x"
      with Inr \<open>envelope_from_bytes W b = Inr e\<close> show ?thesis
        unfolding refused_midway_def by blast
    qed simp
  qed
qed

theorem failed_ingest_no_trace_witness:
  "\<exists>b x. snd (ingest memory_ops mr_report demo_env demo_wire 0 (demo_fed 5 memory_store_new) b) = Inl x \<and>
    fd_store (fst (ingest memory_ops mr_report demo_env demo_wire 0 (demo_fed 5 memory_store_new) b)) =
      memory_store_new"
proof -
  let ?f = "demo_fed 5 memory_store_new"
  let ?forged = "demo_message\<lparr>msg_id := MessageId ''0''\<rparr>"
  have bad: "message_verify demo_env ?forged \<noteq> Inr ()"
    by (simp add: message_verify_Inr_iff demo_message_def body_id_def blake3_hex_def demo_env_def
        body_signing_bytes_def Let_def demo_body_def)
  obtain e where e: "envelope_seal demo_env demo_wire (demo_id 6) (ReplicateMessage ?forged) 0 = Inr e"
    using demo_seal_total by blast
  obtain b where b: "sealed_bytes demo_env demo_wire (demo_id 6) (ReplicateMessage ?forged) 0 = Inr b"
    using demo_to_bytes_total[of e] by (auto simp: sealed_bytes_def e)
  obtain e' where e': "ingest memory_ops mr_report demo_env demo_wire 0 ?f b =
      apply_payload memory_ops mr_report demo_env 0 ?f e' (ReplicateMessage ?forged)"
    using ingest_sealed[OF demo_sig_ok demo_id_wf demo_wire_ok b] by blast
  obtain x where "message_verify demo_env ?forged = Inl x"
    using bad by (cases "message_verify demo_env ?forged") auto
  then have "ingest memory_ops mr_report demo_env demo_wire 0 ?f b = (?f, Inl x)"
    unfolding e' by (simp add: apply_payload_def)
  with failed_ingest_no_trace[OF this] show ?thesis
    by (auto simp: demo_fed_def federator_new_def intro!: exI[of _ b])
qed

text \<open>
  Property C31. Discovery and promotion never make an egress target: no sequence of inbound
  bytes changes the set of trusted peers, and neither does promotion. Promotion turns exactly
  the unknown peers to whom a path of at most \<open>M\<close> verified endorsements leads from a trusted
  peer into linked ones, and changes no other entry.
\<close>

theorem trust_granted_only_locally:
  assumes "hex_ok E" "book_wf E (fd_peers f)"
  shows "set (trusted_peers (ingest_run T R E W f bs)) = set (trusted_peers f) \<and>
    set (trusted_peers (fst (promote_via_trust E f M))) = set (trusted_peers f) \<and>
    book_get E (fd_peers (fst (promote_via_trust E f M))) n =
      (case book_get E (fd_peers f) n of
         None \<Rightarrow> None
       | Some p \<Rightarrow>
           Some (if pr_trust p = TlUnknown \<and>
                   (\<exists>k \<le> M. endorsed E (fd_web f) (pr_node ` set (trusted_peers f)) k n)
                 then p\<lparr>pr_trust := TlLinked\<rparr> else p))"
  using ingest_run_trusted[OF assms] promote_trusted[OF assms] promote_get[OF assms] by blast

text \<open>A node that trusts node 0, has heard of node 1, and has node 0's endorsement of it.\<close>

definition demo_peer :: "nat \<Rightarrow> trust_level \<Rightarrow> peer" where
  "demo_peer n l = peer_new (ident (demo_id n)) ''addr'' l"

definition demo_book :: peer_book where
  "demo_book = book_add demo_env (book_add demo_env book_new (demo_peer 0 TlTrusted))
     (demo_peer 1 TlUnknown)"

definition demo_trusting :: "(memory_store, memory_reporter) federator" where
  "demo_trusting = (demo_fed 5 memory_store_new)\<lparr>fd_web := demo_web, fd_peers := demo_book\<rparr>"

lemma demo_trusting_parts: "fd_web demo_trusting = demo_web" "fd_peers demo_trusting = demo_book"
  by (simp_all add: demo_trusting_def)

lemma demo_book_wf: "book_wf demo_env demo_book"
  by (simp add: demo_book_def inv_intros)

lemma demo_book_get: "book_get demo_env demo_book = [ident (demo_id 0) \<mapsto> demo_peer 0 TlTrusted,
    ident (demo_id 1) \<mapsto> demo_peer 1 TlUnknown]"
proof -
  have empty: "book_get demo_env book_new = Map.empty"
    by (rule ext) (simp add: book_get_def book_new_def bt_simps)
  show ?thesis
    unfolding demo_book_def book_get_add[OF book_wf_add[OF book_wf_new] demo_hex_ok]
      book_get_add[OF book_wf_new demo_hex_ok] empty by (simp add: demo_peer_def peer_new_def)
qed

lemma demo_trusting_root: "ident (demo_id 0) \<in> pr_node ` set (trusted_peers demo_trusting)"
proof -
  have "demo_peer 0 TlTrusted \<in> set (book_trusted demo_book)"
    unfolding book_trusted_iff[OF demo_book_wf] demo_book_get
    by (simp add: demo_peer_def peer_new_def demo_id_inj)
  then show ?thesis
    by (force simp: trusted_peers_def demo_trusting_parts demo_peer_def peer_new_def)
qed

theorem trust_granted_only_locally_witness:
  "book_get demo_env (fd_peers (fst (promote_via_trust demo_env demo_trusting 1))) (ident (demo_id 1)) =
     Some (demo_peer 1 TlLinked)"
proof -
  have wf: "book_wf demo_env (fd_peers demo_trusting)"
    by (simp add: demo_trusting_parts demo_book_wf)
  have "endorsed demo_env demo_web (pr_node ` set (trusted_peers demo_trusting)) 1 (ident (demo_id 1))"
    using demo_trusting_root demo_web_edge[of 0] by auto
  then have "\<exists>k \<le> 1. endorsed demo_env demo_web (pr_node ` set (trusted_peers demo_trusting)) k
      (ident (demo_id 1))" by blast
  then show ?thesis
    using conjunct2[OF conjunct2[OF trust_granted_only_locally[OF demo_hex_ok wf,
        where n = "ident (demo_id 1)" and M = 1]]]
    unfolding demo_trusting_parts demo_book_get by (simp add: demo_peer_def peer_new_def)
qed

text \<open>
  Broadcasting reaches the trusted peers in node-id order only up to the first
  one the transport fails on: every peer after it gets nothing, although delivery is meant to
  be best effort to every trusted peer. The sequence number is consumed in any case.
\<close>

theorem broadcast_stops_at_failure:
  "let (f', sent, r) = fed_broadcast E W X f p in
   fd_seq f' = fd_seq f + 1 \<and>
   (case sealed_bytes E W (fd_identity f) p (fd_seq f) of
      Inl e \<Rightarrow> sent = [] \<and> r = Inl e
    | Inr b \<Rightarrow> sent = map (\<lambda>q. (q, b)) (takeWhile (\<lambda>q. is_ok (X q b)) (trusted_peers f)) \<and>
        r = (case find (\<lambda>q. \<not> is_ok (X q b)) (trusted_peers f) of None \<Rightarrow> Inr () | Some q \<Rightarrow> X q b))"
  by (auto simp: fed_broadcast_def next_seq_def sealed_bytes_def send_all_takeWhile trusted_peers_def
      split: sum.split)

text \<open>
  Announcing a board always destroys its description: whatever the description
  says, what is broadcast is the board with the description replaced by the redaction marker,
  because the scrubber finds "ip" inside the word "description". Snapshots do the same.
\<close>

theorem announce_always_redacts:
  "announce_board E W X f bd =
     fed_broadcast E W X f (AnnounceBoard (bd\<lparr>bd_description := REDACTED\<rparr>)) \<and>
   (op_get_board T (fd_store f) slug = Inr (Some bd) \<and> op_list_messages T (fd_store f) slug n = Inr ms \<longrightarrow>
     make_snapshot T E W f slug n =
       seal_next E W f (BoardSnapshot (bd\<lparr>bd_description := REDACTED\<rparr>) ms))"
  by (simp add: announce_board_def make_snapshot_def scrub_board_redacts ok_or_def)

theorem announce_always_redacts_witness:
  "make_snapshot memory_ops demo_env demo_wire (demo_fed 5 (bbs_store demo_bbs)) ''general'' 0 =
     seal_next demo_env demo_wire (demo_fed 5 (bbs_store demo_bbs))
       (BoardSnapshot (demo_board\<lparr>bd_description := REDACTED\<rparr>) [])"
proof -
  let ?f = "demo_fed 5 (bbs_store demo_bbs)"
  have "op_get_board memory_ops (fd_store ?f) ''general'' = Inr (Some demo_board)"
    "op_list_messages memory_ops (fd_store ?f) ''general'' 0 = Inr []"
    by (simp_all add: demo_fed_def federator_new_def demo_bbs_store mem_defs bt_get_def window_def)
  then show ?thesis
    using announce_always_redacts[where T = memory_ops and f = ?f and bd = demo_board] by blast
qed

text \<open>
  Board metadata is not authenticated: an announcement sealed by any node at all,
  trusted or unheard of, replaces the board of that slug, its founder and its lock included.
\<close>

theorem announce_replaces_any_board:
  assumes "sig_ok E" "identity_wf E stranger" "wire_ok W"
    and "sealed_bytes E W stranger (AnnounceBoard bd) seq = Inr b" "bt_wf (ms_boards (fd_store f))"
  shows "snd (ingest memory_ops R E W now f b) = Inr () \<and>
    mem_get_board (fd_store (fst (ingest memory_ops R E W now f b))) (bd_slug bd) = Inr (Some bd)"
proof -
  obtain e where "ingest memory_ops R E W now f b = apply_payload memory_ops R E now f e (AnnounceBoard bd)"
    using ingest_sealed[OF assms(1-4)] by blast
  with assms(5) show ?thesis
    by (simp add: apply_payload_def mem_defs bt_simps)
qed

theorem announce_replaces_any_board_witness:
  "\<exists>b. mem_get_board (fd_store (fst (ingest memory_ops mr_report demo_env demo_wire 9
      (demo_fed 5 (bbs_store demo_locked)) b))) ''general'' = Inr (Some demo_board) \<and>
    mem_get_board (bbs_store demo_locked) ''general'' = Inr (Some (demo_board\<lparr>bd_locked := True\<rparr>))"
proof -
  obtain e where e: "envelope_seal demo_env demo_wire (demo_id 8) (AnnounceBoard demo_board) 0 = Inr e"
    using demo_seal_total by blast
  obtain b where b: "sealed_bytes demo_env demo_wire (demo_id 8) (AnnounceBoard demo_board) 0 = Inr b"
    using demo_to_bytes_total[of e] by (auto simp: sealed_bytes_def e)
  have "bt_wf (ms_boards (fd_store (demo_fed 5 (bbs_store demo_locked))))"
    by (simp add: demo_fed_def federator_new_def demo_locked_store bt_wf_def)
  from announce_replaces_any_board[OF demo_sig_ok demo_id_wf demo_wire_ok b this, of mr_report 9]
  show ?thesis
    by (auto simp: demo_board_def board_new_def demo_locked_store mem_get_board_def bt_get_def)
qed

end
