(* ===== verification/Pod.thy ===== *)
theory Pod
  imports Rust_Str Float64
begin

text \<open>
  Agent pods (\<open>agentbbs-core/src/pod.rs\<close>): the template and its validation, the tier
  ceiling, the spawn request, and the life cycle of a spawned pod. A spend cap is the 64-bit
  pattern of the \<open>f64\<close>.
\<close>

section \<open>Tiers\<close>

datatype max_tier = Low | Mid | High

fun tier_rank :: "max_tier \<Rightarrow> nat" where
  "tier_rank Low = 0"
| "tier_rank Mid = 1"
| "tier_rank High = 2"

lemma tier_rank_inj: "tier_rank s = tier_rank t \<longleftrightarrow> s = t"
  by (cases s; cases t) simp_all

text \<open>The derived order.\<close>

instantiation max_tier :: linorder
begin

definition less_eq_max_tier :: "max_tier \<Rightarrow> max_tier \<Rightarrow> bool" where
  "s \<le> t \<longleftrightarrow> tier_rank s \<le> tier_rank t"

definition less_max_tier :: "max_tier \<Rightarrow> max_tier \<Rightarrow> bool" where
  "s < t \<longleftrightarrow> tier_rank s < tier_rank t"

instance
  by standard (auto simp: less_eq_max_tier_def less_max_tier_def tier_rank_inj[symmetric])

end

text \<open>\<open>x <= 0.0\<close>: a zero of either sign, or a negative number; never a NaN.\<close>

definition f64_le_zero :: "f64 \<Rightarrow> bool" where
  "f64_le_zero x \<longleftrightarrow> f64_le x (f64_of_nat 0)"

section \<open>Model\<close>

datatype pod_status = Spawned | Executing | Evaluating | Escalating | Idle | AwaitingApproval |
  Completed | Failed | Paused | Cancelled

fun is_terminal :: "pod_status \<Rightarrow> bool" where
  "is_terminal Completed = True"
| "is_terminal Failed = True"
| "is_terminal Cancelled = True"
| "is_terminal _ = False"

fun can_transition_to :: "pod_status \<Rightarrow> pod_status \<Rightarrow> bool" where
  "can_transition_to Spawned next = (next \<in> {Executing, Idle, AwaitingApproval, Cancelled, Paused})"
| "can_transition_to Executing next = (next \<in> {Evaluating, Failed})"
| "can_transition_to Evaluating next = (next \<in> {Escalating, Completed, Failed})"
| "can_transition_to Escalating next = (next \<in> {Executing, Idle, AwaitingApproval, Paused})"
| "can_transition_to Idle next =
     (next \<in> {Idle, Escalating, AwaitingApproval, Failed, Cancelled, Paused})"
| "can_transition_to AwaitingApproval next = (next \<in> {Idle, Failed, Cancelled, Paused})"
| "can_transition_to Paused next = (next \<in> {Paused, Idle, AwaitingApproval, Failed, Cancelled})"
| "can_transition_to _ next = False"

record pod_template =
  pt_template_ref :: string
  pt_domain :: string
  pt_system_prompt :: string
  pt_tools :: "string list"
  pt_bench_assertions :: string
  pt_per_agent_cap_usd :: f64
  pt_cron_schedule :: "string option"
  pt_max_tier :: max_tier
  pt_registered_room :: string

definition is_slug :: "string \<Rightarrow> bool" where
  "is_slug s \<longleftrightarrow> s \<noteq> [] \<and> list_all (\<lambda>c. is_ascii_lowercase c \<or> is_digit c \<or> c = CHR ''-'') s"

fun first_empty :: "(string \<times> string) list \<Rightarrow> unit result" where
  "first_empty [] = Inr ()"
| "first_empty ((field, v) # rest) =
     (if blank v then Inl (malformed ''pod'' (field @ '' must not be empty'')) else first_empty rest)"

definition template_validate :: "pod_template \<Rightarrow> unit result" where
  "template_validate t =
     (if blank (pt_template_ref t) \<or> CHR ''@'' \<notin> set (pt_template_ref t)
      then Inl (malformed ''pod''
        ''template_ref must be non-empty and shaped domain/name@version'')
      else rbind (first_empty [(''domain'', pt_domain t), (''system_prompt'', pt_system_prompt t),
             (''bench_assertions'', pt_bench_assertions t)]) (\<lambda>_.
        if \<not> f64_is_finite (pt_per_agent_cap_usd t) \<or> f64_le_zero (pt_per_agent_cap_usd t)
        then Inl (malformed ''pod''
          ''per_agent_cap_usd must be finite and > 0 (a pod must be bounded)'')
        else if \<not> is_slug (pt_registered_room t)
        then Inl (malformed ''pod'' ''registered_room must be a board slug ([a-z0-9-]+)'')
        else (case pt_cron_schedule t of
            None \<Rightarrow> Inr ()
          | Some cron \<Rightarrow> if length (split_whitespace cron) \<noteq> 5
              then Inl (malformed ''pod'' ''cron_schedule must have 5 fields'') else Inr ())))"

record pod_spec =
  sp_template :: pod_template
  sp_tier :: "max_tier option"
  sp_idempotency_key :: "string option"

definition spec_validate :: "pod_spec \<Rightarrow> unit result" where
  "spec_validate s = rbind (template_validate (sp_template s)) (\<lambda>_.
     case sp_tier s of
       None \<Rightarrow> Inr ()
     | Some tier \<Rightarrow> if tier > pt_max_tier (sp_template s)
         then Inl (malformed ''pod'' ''requested tier exceeds the template max_tier'') else Inr ())"

definition effective_tier :: "pod_spec \<Rightarrow> max_tier" where
  "effective_tier s = (case sp_tier s of Some t \<Rightarrow> t | None \<Rightarrow> pt_max_tier (sp_template s))"

record spawn_bench_config =
  bc_tier :: max_tier
  bc_pass_tier :: "max_tier option"
  bc_max_output_tokens :: "u32 option"
  bc_max_steps :: "u32 option"

record spawn_request =
  sr_pod_name :: string
  sr_domain :: string
  sr_template_ref :: string
  sr_cron_schedule :: "string option"
  sr_per_agent_cap_usd :: f64
  sr_shard_count :: u32
  sr_bench_config :: spawn_bench_config
  sr_registered_room :: "string option"

definition to_spawn_request :: "pod_spec \<Rightarrow> spawn_request" where
  "to_spawn_request s =
     (let t = sp_template s
      in \<lparr>sr_pod_name = pt_template_ref t, sr_domain = pt_domain t,
          sr_template_ref = pt_template_ref t, sr_cron_schedule = pt_cron_schedule t,
          sr_per_agent_cap_usd = pt_per_agent_cap_usd t, sr_shard_count = 1,
          sr_bench_config = \<lparr>bc_tier = effective_tier s, bc_pass_tier = None,
            bc_max_output_tokens = None, bc_max_steps = None\<rparr>,
          sr_registered_room = Some (pt_registered_room t)\<rparr>)"

section \<open>Validated templates\<close>

lemma first_empty_iff: "first_empty fs = Inr () \<longleftrightarrow> (\<forall>f \<in> set fs. \<not> blank (snd f))"
  by (induction fs rule: first_empty.induct) auto

lemma template_validate_iff:
  "template_validate t = Inr () \<longleftrightarrow>
    \<not> blank (pt_template_ref t) \<and> CHR ''@'' \<in> set (pt_template_ref t) \<and>
    \<not> blank (pt_domain t) \<and> \<not> blank (pt_system_prompt t) \<and> \<not> blank (pt_bench_assertions t) \<and>
    f64_is_finite (pt_per_agent_cap_usd t) \<and> \<not> f64_le_zero (pt_per_agent_cap_usd t) \<and>
    is_slug (pt_registered_room t) \<and>
    (case pt_cron_schedule t of None \<Rightarrow> True | Some c \<Rightarrow> length (split_whitespace c) = 5)"
  by (auto simp: template_validate_def result_simps first_empty_iff split: option.splits)

lemma spec_validate_iff:
  "spec_validate s = Inr () \<longleftrightarrow> template_validate (sp_template s) = Inr () \<and>
    effective_tier s \<le> pt_max_tier (sp_template s)"
  by (auto simp: spec_validate_def effective_tier_def result_simps split: option.splits)

text \<open>A finite positive cap lies strictly between the bits of zero and of infinity.\<close>

lemma positive_cap_bits:
  fixes x :: f64
  assumes "f64_is_finite x" "\<not> f64_le_zero x"
  shows "0 < x \<and> x < 0x7FF0000000000000"
proof -
  have "\<not> f64_is_nan (f64_of_nat 0)" "f64_key (f64_of_nat 0) = 0" by (simp_all add: f64_of_nat_0)
  with assms have "\<not> f64_neg x" "f64_mag x \<noteq> 0" "f64_mag x < inf_mag"
    by (auto simp: f64_le_zero_def f64_le_def f64_is_finite_def f64_is_nan_def f64_key_def split: if_splits)
  then have "unat x = f64_mag x"
    by (simp add: f64_neg_def f64_mag_def)
  with \<open>f64_mag x \<noteq> 0\<close> \<open>f64_mag x < inf_mag\<close> have "0 < unat x" "unat x < 0x7FF0000000000000"
    by (simp_all add: inf_mag_def hidden_def)
  then show ?thesis by (simp add: word_less_nat_alt)
qed

section \<open>Histories of a pod\<close>

text \<open>The states a pod went through, in order, every change a legal transition.\<close>

inductive pod_history :: "pod_status list \<Rightarrow> bool" where
  spawned: "pod_history [Spawned]"
| change: "pod_history (h @ [s]) \<Longrightarrow> can_transition_to s t \<Longrightarrow> pod_history (h @ [s, t])"

lemma only_from:
  "can_transition_to s Completed \<longleftrightarrow> s = Evaluating" "can_transition_to s Evaluating \<longleftrightarrow> s = Executing"
  "\<not> can_transition_to s Spawned"
  by (cases s; simp)+

lemma terminal_no_change: "is_terminal s \<Longrightarrow> \<not> can_transition_to s t"
  by (cases s) simp_all

lemma history_evaluating: "pod_history h \<Longrightarrow> h = pre @ [Evaluating] \<Longrightarrow> \<exists>p. pre = p @ [Executing]"
  by (induction arbitrary: pre rule: pod_history.induct) (auto simp: only_from)

lemma history_terminal_last: "pod_history h \<Longrightarrow> list_all (\<lambda>s. \<not> is_terminal s) (butlast h)"
  by (induction rule: pod_history.induct) (auto simp: butlast_append terminal_no_change)

lemma history_completed:
  "pod_history h \<Longrightarrow> Completed \<in> set h \<Longrightarrow> \<exists>pre. h = pre @ [Executing, Evaluating, Completed]"
proof (induction rule: pod_history.induct)
  case (change h s t)
  have live: "Completed \<notin> set (h @ [s])"
    using history_terminal_last[OF pod_history.change[OF change.hyps]]
    by (auto simp: list_all_iff butlast_append)
  then have "t = Completed" using change.prems by auto
  then have "s = Evaluating" using change.hyps(2) by (simp add: only_from)
  then obtain p where "h = p @ [Executing]" using history_evaluating[OF change.hyps(1)] by blast
  with \<open>t = Completed\<close> \<open>s = Evaluating\<close> show ?case by simp
qed simp

lemma history_extend:
  "pod_history (h @ [s]) \<Longrightarrow> successively can_transition_to (s # ts) \<Longrightarrow> pod_history (h @ s # ts)"
proof (induction ts arbitrary: h s)
  case (Cons t ts)
  then have "pod_history ((h @ [s]) @ [t])"
    using pod_history.change[of h s t] by simp
  from Cons.IH[OF this] Cons.prems show ?case by simp
qed simp

lemma some_way_out:
  "\<not> is_terminal s \<Longrightarrow> \<exists>ts. successively can_transition_to (s # ts) \<and> is_terminal (last (s # ts))"
  by (cases s) (rule exI[of _ "[Cancelled]"] exI[of _ "[Failed]"] exI[of _ "[Idle, Failed]"]; simp)+

section \<open>Properties\<close>

text \<open>
  A pod's life cycle: along any legal history a pod that completes has just been
  executed and then evaluated (no state completes without the behavioral gate), a terminal
  state is the last of its history, and from every other state some legal changes lead to a
  terminal one.
\<close>

theorem pod_completes_through_gate:
  assumes "pod_history h"
  shows "(Completed \<in> set h \<longrightarrow> (\<exists>pre. h = pre @ [Executing, Evaluating, Completed])) \<and>
    list_all (\<lambda>s. \<not> is_terminal s) (butlast h) \<and>
    (\<exists>ts. pod_history (h @ ts) \<and> is_terminal (last (h @ ts)))"
proof (intro conjI impI)
  show "list_all (\<lambda>s. \<not> is_terminal s) (butlast h)"
    by (rule history_terminal_last[OF assms])
  show "\<exists>pre. h = pre @ [Executing, Evaluating, Completed]" if "Completed \<in> set h"
    by (rule history_completed[OF assms that])
  obtain g s where h: "h = g @ [s]" using assms by cases auto
  show "\<exists>ts. pod_history (h @ ts) \<and> is_terminal (last (h @ ts))"
  proof (cases "is_terminal s")
    case True
    with assms h show ?thesis by (intro exI[of _ "[]"]) simp
  next
    case False
    then obtain ts where "successively can_transition_to (s # ts)" "is_terminal (last (s # ts))"
      using some_way_out by blast
    with history_extend[of g s ts] assms h show ?thesis
      by (intro exI[of _ ts]) auto
  qed
qed

theorem pod_completes_through_gate_witness:
  "pod_history [Spawned, Executing, Evaluating, Completed] \<and>
   list_all (\<lambda>s. \<not> is_terminal s) [Spawned, Executing, Evaluating]"
proof -
  have run: "pod_history ([] @ [Spawned, Executing, Evaluating, Completed])"
    by (rule history_extend) (simp_all add: pod_history.spawned)
  show ?thesis
    using pod_completes_through_gate[OF run] run by simp
qed

text \<open>
  A spawn request of a valid spec is bounded: its spend cap lies strictly between
  zero and infinity, its tier is at most the template's ceiling, a schedule it carries has
  five fields, and it posts to a room whose name is a slug.
\<close>

theorem valid_spawn_is_bounded:
  assumes "spec_validate s = Inr ()"
  shows "let r = to_spawn_request s in
    0 < sr_per_agent_cap_usd r \<and> sr_per_agent_cap_usd r < 0x7FF0000000000000 \<and>
    bc_tier (sr_bench_config r) \<le> pt_max_tier (sp_template s) \<and>
    (case sr_cron_schedule r of None \<Rightarrow> True | Some c \<Rightarrow> length (split_whitespace c) = 5) \<and>
    (case sr_registered_room r of None \<Rightarrow> False | Some room \<Rightarrow> is_slug room)"
proof -
  have valid: "template_validate (sp_template s) = Inr ()" "effective_tier s \<le> pt_max_tier (sp_template s)"
    using assms by (simp_all add: spec_validate_iff)
  then show ?thesis
    using positive_cap_bits[of "pt_per_agent_cap_usd (sp_template s)"]
    by (simp add: to_spawn_request_def Let_def template_validate_iff)
qed

text \<open>The cap of the example is 0.10, as its 64 bits.\<close>

definition demo_template :: pod_template where
  "demo_template = \<lparr>pt_template_ref = ''research/intel@1'', pt_domain = ''research'',
     pt_system_prompt = ''analyse'', pt_tools = [''web''], pt_bench_assertions = ''two sources'',
     pt_per_agent_cap_usd = 0x3FB999999999999A, pt_cron_schedule = Some ''0 * * * *'',
     pt_max_tier = Mid, pt_registered_room = ''research-intel''\<rparr>"

definition demo_spec :: "max_tier \<Rightarrow> pod_spec" where
  "demo_spec tier = \<lparr>sp_template = demo_template, sp_tier = Some tier, sp_idempotency_key = None\<rparr>"

lemma demo_template_validates: "template_validate demo_template = Inr ()"
proof -
  have "f64_is_finite 0x3FB999999999999A" "\<not> f64_le_zero 0x3FB999999999999A"
    using f64_of_nat_0(4)
    by (simp_all add: f64_is_finite_def f64_le_zero_def f64_le_def f64_key_def f64_mag_def f64_neg_def
        sign_bit_def hidden_def inf_mag_def f64_is_nan_def)
  moreover have "\<not> blank ''research/intel@1'' \<and> CHR ''@'' \<in> set ''research/intel@1'' \<and> \<not> blank ''research'' \<and>
      \<not> blank ''analyse'' \<and> \<not> blank ''two sources'' \<and> is_slug ''research-intel'' \<and>
      length (split_whitespace ''0 * * * *'') = 5"
    by code_simp
  ultimately show ?thesis by (simp add: template_validate_iff demo_template_def)
qed

theorem valid_spawn_is_bounded_witness:
  "spec_validate (demo_spec Low) = Inr () \<and> \<not> is_ok (spec_validate (demo_spec High)) \<and>
   sr_per_agent_cap_usd (to_spawn_request (demo_spec Low)) < 0x7FF0000000000000"
proof -
  have low: "spec_validate (demo_spec Low) = Inr ()"
    by (simp add: spec_validate_iff demo_spec_def demo_template_validates effective_tier_def)
       (simp add: demo_template_def less_eq_max_tier_def)
  have "\<not> is_ok (spec_validate (demo_spec High))"
    by (simp add: is_ok_unit_iff spec_validate_iff demo_spec_def effective_tier_def)
       (simp add: demo_template_def less_eq_max_tier_def)
  with low valid_spawn_is_bounded[OF low] show ?thesis
    by (simp add: Let_def)
qed

end
