(* ===== verification/Web_Auth.thy ===== *)
theory Web_Auth
  imports Caps Moderation Hash_Map
begin

text \<open>
  Who may do what over HTTP: signed role claims (\<open>agentbbs-web/src/role_claim.rs\<close>), single-use
  administration proofs (\<open>admin_action.rs\<close>), the approver list and signed agent-reply
  requests (\<open>route_auth.rs\<close>), and the functions of \<open>agentbbs-web/src/lib.rs\<close> that apply
  them (\<open>resolve_caps\<close>, \<open>require_admin_action\<close>, the checks of \<open>api_agent_reply\<close>). Settings
  the code reads from the process environment are arguments; HMAC, SHA-256 and the RFC 3339
  parser are parameters.
\<close>

section \<open>Parameters and text\<close>

record mac_env =
  hmac_sha256 :: "bytes \<Rightarrow> bytes \<Rightarrow> bytes"  \<comment> \<open>key, message\<close>
  sha256 :: "bytes \<Rightarrow> bytes"
  parse_rfc3339 :: "string \<Rightarrow> time option"

text \<open>\<open>HeaderMap::get\<close>, and \<open>HeaderValue::to_str\<close>: visible ASCII and tabs only.\<close>

type_synonym headers = "string \<Rightarrow> bytes option"

definition to_str_ok :: "bytes \<Rightarrow> bool" where
  "to_str_ok v \<longleftrightarrow> list_all (\<lambda>c. (let n = (of_char c :: nat) in 32 \<le> n \<and> n < 127 \<or> n = 9)) v"

definition header_str :: "headers \<Rightarrow> string \<Rightarrow> string option" where
  "header_str h name = (case h name of None \<Rightarrow> None | Some v \<Rightarrow> if to_str_ok v then Some v else None)"

text \<open>\<open>str::parse::<i64>\<close>.\<close>

definition parse_i64 :: "string \<Rightarrow> int option" where
  "parse_i64 s =
     (let neg = (s \<noteq> [] \<and> hd s = CHR ''-'');
          ds = (if s \<noteq> [] \<and> (hd s = CHR ''-'' \<or> hd s = CHR ''+'') then tl s else s);
          n = (if neg then - int (undec ds) else int (undec ds))
      in if ds = [] \<or> \<not> list_all is_digit ds \<or> n < - (2 ^ 63) \<or> 2 ^ 63 \<le> n then None else Some n)"

section \<open>Role claims\<close>

definition role_from_str :: "string \<Rightarrow> role option" where
  "role_from_str s =
     (if s = ''guest'' then Some Guest
      else if s = ''agent'' then Some Agent
      else if s = ''moderator'' then Some Moderator
      else if s = ''federator'' then Some Federator
      else if s = ''sysop'' then Some Sysop
      else None)"

definition role_claim_bytes :: "string \<Rightarrow> int \<Rightarrow> bytes" where
  "role_claim_bytes role exp = role @ '':'' @ dec_int exp"

definition verify_role_claim ::
  "env \<Rightarrow> mac_env \<Rightarrow> string \<Rightarrow> string \<Rightarrow> int \<Rightarrow> string \<Rightarrow> int \<Rightarrow> role option" where
  "verify_role_claim E M secret role exp sig_hex now =
     (if secret = [] \<or> now > exp then None
      else (case hex_dec E sig_hex of
          Inl _ \<Rightarrow> None
        | Inr expected \<Rightarrow>
            if hmac_sha256 M secret (role_claim_bytes role exp) = expected then role_from_str role
            else None))"

definition resolve_caps :: "env \<Rightarrow> mac_env \<Rightarrow> string \<Rightarrow> headers \<Rightarrow> int \<Rightarrow> caps" where
  "resolve_caps E M secret headers now =
     (if secret = [] then role_caps Agent
      else (case (header_str headers ''x-agentbbs-role'', header_str headers ''x-agentbbs-role-exp'',
                  header_str headers ''x-agentbbs-role-sig'') of
          (Some role, Some exp, Some sg) \<Rightarrow>
            (case parse_i64 exp of
               None \<Rightarrow> role_caps Agent
             | Some exp \<Rightarrow> (case verify_role_claim E M secret role exp sg now of
                   Some r \<Rightarrow> role_caps r
                 | None \<Rightarrow> role_caps Agent))
        | _ \<Rightarrow> role_caps Agent))"

section \<open>Administration proofs\<close>

definition SPAWN :: string where "SPAWN = ''pods.spawn''"
definition TOPUP :: string where "TOPUP = ''budget.topup''"
definition PLAYBOOK_RUN :: string where "PLAYBOOK_RUN = ''playbooks.run''"
definition RUN_ADVANCE :: string where "RUN_ADVANCE = ''runs.advance''"

definition MAX_FUTURE_SECONDS :: int where
  "MAX_FUTURE_SECONDS = 300"

record replay_guard =
  rg_used :: "(string, int) hmap"

definition replay_guard_default :: replay_guard where
  "replay_guard_default = \<lparr>rg_used = hm_empty\<rparr>"

definition consume :: "replay_guard \<Rightarrow> string \<Rightarrow> int \<Rightarrow> int \<Rightarrow> replay_guard \<times> (string + unit)" where
  "consume g jti exp now =
     (let used = hm_retain (\<lambda>_ expiry. expiry > now) (rg_used g)
      in if hm_get used jti \<noteq> None then (g\<lparr>rg_used := used\<rparr>, Inl ''admin proof replayed'')
         else (g\<lparr>rg_used := hm_insert jti exp used\<rparr>, Inr ()))"

record verified_proof =
  vp_jti :: string
  vp_exp :: int

record bound_request =
  br_method :: string
  br_path :: string
  br_body :: bytes

definition admin_header :: "headers \<Rightarrow> string \<Rightarrow> string + string" where
  "admin_header h name = (case header_str h name of
     Some v \<Rightarrow> if v \<noteq> [] then Inr v else Inl (''missing or invalid '' @ name)
   | None \<Rightarrow> Inl (''missing or invalid '' @ name))"

definition body_sha256 :: "env \<Rightarrow> mac_env \<Rightarrow> bytes \<Rightarrow> string" where
  "body_sha256 E M body = hex_enc E (sha256 M body)"

definition admin_canonical ::
  "env \<Rightarrow> mac_env \<Rightarrow> int \<Rightarrow> string \<Rightarrow> string \<Rightarrow> string \<Rightarrow> bound_request \<Rightarrow> string" where
  "admin_canonical E M exp audience action jti req =
     ''agentbbs.admin-action.v3'' @ [newline] @ ''ver=3'' @ [newline] @ ''role=sysop'' @ [newline] @
     ''exp='' @ dec_int exp @ [newline] @ ''aud='' @ audience @ [newline] @
     ''action='' @ action @ [newline] @ ''jti='' @ jti @ [newline] @
     ''method='' @ br_method req @ [newline] @ ''path='' @ br_path req @ [newline] @
     ''body_sha256='' @ body_sha256 E M (br_body req)"

definition jti_char :: "char \<Rightarrow> bool" where
  "jti_char c \<longleftrightarrow> (let n = (of_char c :: nat) in is_digit c \<or> 97 \<le> n \<and> n \<le> 122 \<or> 65 \<le> n \<and> n \<le> 90
     \<or> c \<in> set ''-_.:'')"

text \<open>The question-mark operator on errors that are plain strings.\<close>

fun obind :: "'e + 'a \<Rightarrow> ('a \<Rightarrow> 'e + 'b) \<Rightarrow> 'e + 'b" where
  "obind (Inl e) f = Inl e"
| "obind (Inr x) f = f x"

definition admin_verify :: "env \<Rightarrow> mac_env \<Rightarrow> headers \<Rightarrow> string \<Rightarrow> bound_request \<Rightarrow> string \<Rightarrow> string \<Rightarrow> int
    \<Rightarrow> string + verified_proof" where
  "admin_verify E M headers expected_action req secret audience now =
     (if secret = [] \<or> audience = [] then Inl ''admin action verifier is not configured''
      else
        obind (admin_header headers ''x-agentbbs-admin-ver'') (\<lambda>version.
        obind (admin_header headers ''x-agentbbs-admin-role'') (\<lambda>role.
        obind (admin_header headers ''x-agentbbs-admin-exp'') (\<lambda>exp_text.
        obind (admin_header headers ''x-agentbbs-admin-aud'') (\<lambda>supplied_audience.
        obind (admin_header headers ''x-agentbbs-admin-action'') (\<lambda>action.
        obind (admin_header headers ''x-agentbbs-admin-jti'') (\<lambda>jti.
        obind (admin_header headers ''x-agentbbs-admin-sig'') (\<lambda>sg.
        if version \<noteq> ''3'' \<or> role \<noteq> ''sysop'' \<or> supplied_audience \<noteq> audience \<or> action \<noteq> expected_action
        then Inl ''admin proof claims do not match this action''
        else if length jti > 128 \<or> \<not> list_all jti_char jti then Inl ''invalid admin proof jti''
        else (case parse_i64 exp_text of
            None \<Rightarrow> Inl ''invalid admin proof exp''
          | Some exp \<Rightarrow>
              if exp \<le> now \<or> exp > now + MAX_FUTURE_SECONDS
              then Inl ''admin proof expired or exceeds maximum lifetime''
              else (case hex_dec E sg of
                  Inl _ \<Rightarrow> Inl ''invalid admin proof signature''
                | Inr supplied \<Rightarrow>
                    if hmac_sha256 M secret (admin_canonical E M exp audience action jti req) \<noteq> supplied
                    then Inl ''invalid admin proof signature''
                    else Inr \<lparr>vp_jti = jti, vp_exp = exp\<rparr>))))))))))"

datatype status_code = BAD_REQUEST | UNAUTHORIZED | FORBIDDEN | NOT_FOUND | CONFLICT | UNPROCESSABLE_ENTITY |
  TOO_MANY_REQUESTS | BAD_GATEWAY

text \<open>
  \<open>require_admin_action\<close> on one request: the time, the headers, the route's action and path,
  and the body. The replay guard is the state.
\<close>

record admin_request =
  ar_now :: int
  ar_headers :: headers
  ar_action :: string
  ar_path :: string
  ar_body :: bytes

definition ar_bound :: "admin_request \<Rightarrow> bound_request" where
  "ar_bound r = \<lparr>br_method = ''POST'', br_path = ar_path r, br_body = ar_body r\<rparr>"

definition require_admin_action :: "env \<Rightarrow> mac_env \<Rightarrow> string \<Rightarrow> string \<Rightarrow> replay_guard \<Rightarrow> admin_request
    \<Rightarrow> replay_guard \<times> (status_code \<times> string + verified_proof)" where
  "require_admin_action E M secret audience g r =
     (case admin_verify E M (ar_headers r) (ar_action r) (ar_bound r) secret audience (ar_now r) of
        Inl reason \<Rightarrow> (g, Inl (FORBIDDEN, reason))
      | Inr proof \<Rightarrow>
          (case consume g (vp_jti proof) (vp_exp proof) (ar_now r) of
             (g', Inl reason) \<Rightarrow> (g', Inl (CONFLICT, reason))
           | (g', Inr _) \<Rightarrow> (g', Inr proof)))"

section \<open>Approvers and agent replies\<close>

definition AGENT_REPLY_MAX_AGE_SECONDS :: int where
  "AGENT_REPLY_MAX_AGE_SECONDS = 300"

definition AGENT_REPLY_MAX_SKEW_SECONDS :: int where
  "AGENT_REPLY_MAX_SKEW_SECONDS = 60"

text \<open>Split at commas and white space; empty pieces are dropped.\<close>

definition sep_len :: "string \<Rightarrow> nat" where
  "sep_len s = (if s \<noteq> [] \<and> hd s = CHR '','' then 1 else ws_len s)"

function split_ids_from :: "string \<Rightarrow> string \<Rightarrow> string list" where
  "split_ids_from acc [] = (if acc = [] then [] else [rev acc])"
| "split_ids_from acc (c # cs) =
     (if sep_len (c # cs) = 0 then split_ids_from (c # acc) cs
      else (if acc = [] then [] else [rev acc]) @ split_ids_from [] (drop (sep_len (c # cs)) (c # cs)))"
  by pat_completeness auto
termination
  by (relation "measure (\<lambda>(a, s). length s)") (auto simp: less_Suc_eq_le Suc_diff_le)

definition parse_approver_ids :: "env \<Rightarrow> string \<Rightarrow> agent_id list" where
  "parse_approver_ids E raw =
     List.map_filter (\<lambda>s. case from_hex E s of Inr a \<Rightarrow> Some a | Inl _ \<Rightarrow> None) (split_ids_from [] raw)"

definition check_approver :: "agent_id \<Rightarrow> agent_id list \<Rightarrow> string + unit" where
  "check_approver decider approvers =
     (if approvers = [] then Inl ''approvals are not configured on this node''
      else if list_ex (\<lambda>a. a = decider) approvers then Inr ()
      else Inl ''decider is not an approver on this node'')"

record signed_agent_reply =
  rq_agent :: string
  rq_text :: string
  rq_requester :: string
  rq_created_at :: string
  rq_signature :: string

definition agent_reply_bytes :: "string \<Rightarrow> string \<Rightarrow> string \<Rightarrow> string \<Rightarrow> bytes" where
  "agent_reply_bytes agent text requester created_at =
     ''agentbbs.agent-reply.v1'' @ [newline] @ frames [agent, text, requester, created_at]"

record verified_agent_reply =
  va_requester :: agent_id
  va_nonce :: string
  va_expires :: int

text \<open>Whole seconds of a duration (towards zero), and the seconds of an instant (downwards).\<close>

definition num_seconds :: "int \<Rightarrow> int" where
  "num_seconds ns = (if ns < 0 then - ((- ns) div 1000000000) else ns div 1000000000)"

definition timestamp :: "time \<Rightarrow> int" where
  "timestamp t = t div 1000000000"

definition verify_agent_reply ::
  "env \<Rightarrow> mac_env \<Rightarrow> signed_agent_reply \<Rightarrow> time \<Rightarrow> string + verified_agent_reply" where
  "verify_agent_reply E M req now =
     (case from_hex E (rq_requester req) of
        Inl _ \<Rightarrow> Inl ''invalid requester''
      | Inr requester \<Rightarrow>
     (case sig_from_hex E (rq_signature req) of
        Inl _ \<Rightarrow> Inl ''invalid signature''
      | Inr sg \<Rightarrow>
     (case parse_rfc3339 M (rq_created_at req) of
        None \<Rightarrow> Inl ''invalid created_at''
      | Some created \<Rightarrow>
          let age = num_seconds (now - created) in
          if \<not> (- AGENT_REPLY_MAX_SKEW_SECONDS \<le> age \<and> age \<le> AGENT_REPLY_MAX_AGE_SECONDS)
          then Inl ''request is stale or dated in the future''
          else (case verify_sig E requester (agent_reply_bytes (rq_agent req) (rq_text req)
                        (rq_requester req) (rq_created_at req)) sg of
              Inl _ \<Rightarrow> Inl ''signature verification failed''
            | Inr _ \<Rightarrow> Inr \<lparr>va_requester = requester, va_nonce = to_ascii_lowercase (rq_signature req),
                va_expires = timestamp created + AGENT_REPLY_MAX_AGE_SECONDS
                  + AGENT_REPLY_MAX_SKEW_SECONDS\<rparr>))))"

text \<open>The admission of \<open>api_agent_reply\<close>, up to the rate limit.\<close>

definition admit_agent_reply :: "env \<Rightarrow> mac_env \<Rightarrow> moderation_log \<Rightarrow> replay_guard \<Rightarrow> signed_agent_reply \<Rightarrow> time
    \<Rightarrow> replay_guard \<times> (status_code \<times> string + verified_agent_reply)" where
  "admit_agent_reply E M log g req now =
     (case verify_agent_reply E M req now of
        Inl reason \<Rightarrow> (g, Inl (UNAUTHORIZED, reason))
      | Inr v \<Rightarrow>
          if \<not> can_post log (va_requester v) now
          then (g, Inl (FORBIDDEN, ''requester is blocked by moderation''))
          else (case consume g (va_nonce v) (va_expires v) (timestamp now) of
              (g', Inl _) \<Rightarrow> (g', Inl (CONFLICT, ''agent-reply request replayed''))
            | (g', Inr _) \<Rightarrow> (g', Inr v)))"

section \<open>The replay guard\<close>

text \<open>
  Both users of the guard consume keys with an expiry at the current time, or do not touch it.
  A run of such steps, each with its time and the key and expiry it tries to consume.
\<close>

type_synonym guard_attempt = "int \<times> (string \<times> int) option"

fun guard_step :: "replay_guard \<Rightarrow> guard_attempt \<Rightarrow> replay_guard \<times> bool" where
  "guard_step g (now, None) = (g, False)"
| "guard_step g (now, Some (k, e)) = (fst (consume g k e now), snd (consume g k e now) = Inr ())"

fun guard_run :: "replay_guard \<Rightarrow> guard_attempt list \<Rightarrow> bool list" where
  "guard_run g [] = []"
| "guard_run g (s # ss) = snd (guard_step g s) # guard_run (fst (guard_step g s)) ss"

definition guard_wf :: "replay_guard \<Rightarrow> bool" where
  "guard_wf g \<longleftrightarrow> hm_wf (rg_used g)"

definition holds :: "replay_guard \<Rightarrow> string \<Rightarrow> int \<Rightarrow> bool" where
  "holds g k e \<longleftrightarrow> hm_get (rg_used g) k = Some e"

lemma consume_wf: "guard_wf g \<Longrightarrow> guard_wf (fst (consume g k e now))"
  by (simp add: consume_def guard_wf_def Let_def hm_wf_retain hm_wf_insert)

lemma consume_accepts: "snd (consume g k e now) = Inr () \<Longrightarrow> holds (fst (consume g k e now)) k e"
  by (auto simp: consume_def holds_def Let_def split: if_splits)

lemma consume_keeps:
  assumes "guard_wf g" "holds g k e" "now < e"
  shows "holds (fst (consume g k' e' now)) k e" "k' = k \<Longrightarrow> snd (consume g k' e' now) \<noteq> Inr ()"
  using assms by (auto simp: consume_def holds_def guard_wf_def Let_def hm_get_retain)

lemma guard_step_keeps:
  assumes "guard_wf g" "holds g k e" "fst s < e"
  shows "guard_wf (fst (guard_step g s)) \<and> holds (fst (guard_step g s)) k e"
  using assms by (cases "(g, s)" rule: guard_step.cases) (auto simp: consume_wf consume_keeps)

lemma guard_step_wf: "guard_wf g \<Longrightarrow> guard_wf (fst (guard_step g s))"
  by (cases "(g, s)" rule: guard_step.cases) (auto simp: consume_wf)

lemma length_guard_run [simp]: "length (guard_run g ss) = length ss"
  by (induction ss arbitrary: g) auto

lemma guard_held:
  assumes "guard_wf g" "holds g k e" "sorted (map fst ss)" "j < length ss"
    and "guard_run g ss ! j" "snd (ss ! j) = Some (k, e')"
  shows "e \<le> fst (ss ! j)"
  using assms
proof (induction ss arbitrary: g j)
  case Nil
  then show ?case by simp
next
  case (Cons s ss)
  show ?case
  proof (rule ccontr)
    assume late: "\<not> e \<le> fst ((s # ss) ! j)"
    show False
    proof (cases j)
      case 0
      with Cons.prems late consume_keeps(2)[OF Cons.prems(1,2), of "fst s" k e'] show False
        by (cases s) auto
    next
      case (Suc i)
      then have "fst s \<le> fst (ss ! i)" using Cons.prems(3,4) by auto
      with late Suc have "fst s < e" by simp
      from guard_step_keeps[OF Cons.prems(1,2) this] have "e \<le> fst (ss ! i)"
        using Cons.prems(3-6) Suc by (intro Cons.IH[of "fst (guard_step g s)"]) auto
      with late Suc show False by simp
    qed
  qed
qed

text \<open>A key accepted twice had expired in between.\<close>

lemma guard_single_use:
  assumes "guard_wf g" "sorted (map fst ss)" "i < j" "j < length ss"
    and "guard_run g ss ! i" "guard_run g ss ! j"
    and "snd (ss ! i) = Some (k, e)" "snd (ss ! j) = Some (k, e')"
  shows "e \<le> fst (ss ! j)"
  using assms
proof (induction ss arbitrary: g i j)
  case Nil
  then show ?case by simp
next
  case (Cons s ss)
  obtain j' where j: "j = Suc j'" using Cons.prems(3) by (cases j) auto
  note wf = guard_step_wf[OF Cons.prems(1), of s]
  show ?case
  proof (cases i)
    case 0
    with Cons.prems(5,7) have "holds (fst (guard_step g s)) k e"
      by (cases s) (auto intro: consume_accepts)
    from guard_held[OF wf this] Cons.prems j show ?thesis by simp
  next
    case (Suc i')
    with Cons.prems j show ?thesis by (simp add: Cons.IH[OF wf, of i' j'])
  qed
qed

lemma guard_default_wf: "guard_wf replay_guard_default"
  by (simp add: guard_wf_def replay_guard_default_def hm_wf_empty)

section \<open>Runs of administration requests\<close>

fun admin_run :: "env \<Rightarrow> mac_env \<Rightarrow> string \<Rightarrow> string \<Rightarrow> replay_guard \<Rightarrow> admin_request list
    \<Rightarrow> (status_code \<times> string + verified_proof) list" where
  "admin_run E M secret audience g [] = []"
| "admin_run E M secret audience g (r # rs) =
     snd (require_admin_action E M secret audience g r) #
     admin_run E M secret audience (fst (require_admin_action E M secret audience g r)) rs"

definition admin_attempt :: "env \<Rightarrow> mac_env \<Rightarrow> string \<Rightarrow> string \<Rightarrow> admin_request \<Rightarrow> guard_attempt" where
  "admin_attempt E M secret audience r = (ar_now r,
     case admin_verify E M (ar_headers r) (ar_action r) (ar_bound r) secret audience (ar_now r) of
       Inl _ \<Rightarrow> None | Inr p \<Rightarrow> Some (vp_jti p, vp_exp p))"

lemma require_admin_step:
  "fst (require_admin_action E M secret audience g r) =
     fst (guard_step g (admin_attempt E M secret audience r))"
  "snd (require_admin_action E M secret audience g r) = Inr p \<Longrightarrow>
     snd (guard_step g (admin_attempt E M secret audience r)) \<and>
     snd (admin_attempt E M secret audience r) = Some (vp_jti p, vp_exp p) \<and>
     admin_verify E M (ar_headers r) (ar_action r) (ar_bound r) secret audience (ar_now r) = Inr p"
  by (auto simp: require_admin_action_def admin_attempt_def split: sum.splits prod.splits)

lemma length_admin_run [simp]: "length (admin_run E M secret audience g rs) = length rs"
  by (induction rs arbitrary: g) auto

lemma admin_run_nth:
  assumes "i < length rs" "admin_run E M secret audience g rs ! i = Inr p"
  shows "guard_run g (map (admin_attempt E M secret audience) rs) ! i \<and>
    snd (admin_attempt E M secret audience (rs ! i)) = Some (vp_jti p, vp_exp p) \<and>
    admin_verify E M (ar_headers (rs ! i)) (ar_action (rs ! i)) (ar_bound (rs ! i)) secret audience
      (ar_now (rs ! i)) = Inr p"
  using assms
proof (induction rs arbitrary: g i)
  case (Cons r rs)
  then show ?case
    using require_admin_step(2)[of E M secret audience g r p]
    by (cases i) (auto simp: require_admin_step(1))
qed simp

lemma obind_Inr_iff: "obind r f = Inr y \<longleftrightarrow> (\<exists>x. r = Inr x \<and> f x = Inr y)"
  by (cases r) auto

lemma admin_header_Inr_iff: "admin_header h n = Inr v \<longleftrightarrow> header_str h n = Some v \<and> v \<noteq> []"
  by (auto simp: admin_header_def split: option.splits if_splits)

lemma admin_verify_Inr:
  assumes "admin_verify E M h action req secret audience now = Inr p"
  shows "list_all jti_char (vp_jti p)" "now < vp_exp p" "vp_exp p \<le> now + MAX_FUTURE_SECONDS"
    and "\<exists>sg. header_str h ''x-agentbbs-admin-sig'' = Some sg \<and>
      hex_dec E sg = Inr (hmac_sha256 M secret (admin_canonical E M (vp_exp p) audience action (vp_jti p) req))"
  using assms
  by (auto simp: admin_verify_def obind_Inr_iff admin_header_Inr_iff split: if_splits option.splits sum.splits)

section \<open>What a signed text says\<close>

lemma role_claim_bytes_inj: "role_claim_bytes r e = role_claim_bytes r' e' \<longleftrightarrow> r = r' \<and> e = e'"
  by (simp add: role_claim_bytes_def split_at_last_sep_iff)

lemma jti_clean: "list_all jti_char jti \<Longrightarrow> newline \<notin> set jti"
  by (auto simp: list_all_iff jti_char_def is_digit_def Let_def)

lemma admin_canonical_inj:
  assumes "hex_ok E" "newline \<notin> set action" "newline \<notin> set action'" "newline \<notin> set jti" "newline \<notin> set jti'"
    and "br_method req = ''POST''" "br_method req' = ''POST''"
    and eq: "admin_canonical E M e audience action jti req = admin_canonical E M e' audience action' jti' req'"
  shows "e = e' \<and> action = action' \<and> jti = jti' \<and> br_path req = br_path req' \<and>
    body_sha256 E M (br_body req) = body_sha256 E M (br_body req')"
proof -
  let ?tail = "\<lambda>r. ''method=POST'' @ newline # ''path='' @ br_path r @ newline # ''body_sha256='' @
    body_sha256 E M (br_body r)"
  let ?mid = "\<lambda>a j r. ''action='' @ a @ newline # ''jti='' @ j @ newline # ?tail r"
  have "dec_int e @ newline # ''aud='' @ audience @ newline # ?mid action jti req =
      dec_int e' @ newline # ''aud='' @ audience @ newline # ?mid action' jti' req'"
    using eq assms(6,7) by (simp add: admin_canonical_def)
  then have e: "e = e'" and mid: "?mid action jti req = ?mid action' jti' req'"
    by (simp_all only: split_at_sep_iff[OF dec_int_clean(1) dec_int_clean(1)] dec_int_inj
        same_append_eq list.inject)
  from mid have "action @ newline # ''jti='' @ jti @ newline # ?tail req =
      action' @ newline # ''jti='' @ jti' @ newline # ?tail req'"
    by (simp only: same_append_eq)
  then have a: "action = action'" and j: "jti @ newline # ?tail req = jti' @ newline # ?tail req'"
    by (simp_all only: split_at_sep_iff[OF assms(2,3)] same_append_eq)
  from j have jti: "jti = jti'" and t: "?tail req = ?tail req'"
    by (simp_all only: split_at_sep_iff[OF assms(4,5)])
  have hex: "newline \<notin> set (''body_sha256='' @ body_sha256 E M b)" for b
    using newline_not_hex[OF assms(1)] by (simp add: body_sha256_def)
  from t have "br_path req @ newline # (''body_sha256='' @ body_sha256 E M (br_body req)) =
      br_path req' @ newline # (''body_sha256='' @ body_sha256 E M (br_body req'))"
    by (simp only: same_append_eq list.inject)
  then show ?thesis
    using e a jti by (simp only: split_at_last_sep_iff[OF hex hex] same_append_eq)
qed

section \<open>Properties\<close>

text \<open>
  What the holder of the secret has signed: the texts of which a tag was presented. Nothing
  else is known about the tags a caller can compute.
\<close>

definition signed_only :: "mac_env \<Rightarrow> string \<Rightarrow> bytes set \<Rightarrow> bytes set \<Rightarrow> bool" where
  "signed_only M secret tags texts \<longleftrightarrow> (\<forall>msg. hmac_sha256 M secret msg \<in> tags \<longrightarrow> msg \<in> texts)"

definition presented_tags :: "env \<Rightarrow> string \<Rightarrow> headers set \<Rightarrow> bytes set" where
  "presented_tags E name hs = {t. \<exists>h \<in> hs. \<exists>s. header_str h name = Some s \<and> hex_dec E s = Inr t}"

text \<open>
  Property C26. Every request the administration gate lets through, the first included, carries
  a proof the operator signed for exactly its action, path and body (up to SHA-256), unexpired
  and with an expiry at most 300 seconds away. And under a clock that never runs backwards a
  proof authorizes one request: when an earlier request was let through under the same proof
  id, its proof had expired by the time of the later one, whose own proof expires later still.
\<close>

theorem admin_proof_single_use:
  assumes "hex_ok E" "j < length rs"
    and "\<forall>(e, a, k, r) \<in> mints. newline \<notin> set a \<and> newline \<notin> set k \<and> br_method r = ''POST''"
    and "list_all (\<lambda>r. newline \<notin> set (ar_action r)) rs"
    and "signed_only M secret (presented_tags E ''x-agentbbs-admin-sig'' (ar_headers ` set rs))
      ((\<lambda>(e, a, k, r). admin_canonical E M e audience a k r) ` mints)"
    and "admin_run E M secret audience replay_guard_default rs ! j = Inr q"
  shows "(\<exists>r. (vp_exp q, ar_action (rs ! j), vp_jti q, r) \<in> mints \<and> br_path r = ar_path (rs ! j) \<and>
      body_sha256 E M (br_body r) = body_sha256 E M (ar_body (rs ! j))) \<and>
    ar_now (rs ! j) < vp_exp q \<and> vp_exp q \<le> ar_now (rs ! j) + 300 \<and>
    (\<forall>i p. sorted (map ar_now rs) \<and> i < j \<and>
        admin_run E M secret audience replay_guard_default rs ! i = Inr p \<and> vp_jti p = vp_jti q \<longrightarrow>
      vp_exp p \<le> ar_now (rs ! j) \<and> vp_exp p < vp_exp q)"
proof -
  let ?r = "rs ! j"
  note qj = admin_run_nth[OF assms(2,6)]
  note ver = admin_verify_Inr[OF qj[THEN conjunct2, THEN conjunct2]]
  obtain sg where "header_str (ar_headers ?r) ''x-agentbbs-admin-sig'' = Some sg"
    "hex_dec E sg = Inr (hmac_sha256 M secret
      (admin_canonical E M (vp_exp q) audience (ar_action ?r) (vp_jti q) (ar_bound ?r)))"
    using ver(4) by blast
  then have "hmac_sha256 M secret
      (admin_canonical E M (vp_exp q) audience (ar_action ?r) (vp_jti q) (ar_bound ?r))
      \<in> presented_tags E ''x-agentbbs-admin-sig'' (ar_headers ` set rs)"
    using assms(2) by (auto simp: presented_tags_def)
  then obtain e a k r where mint: "(e, a, k, r) \<in> mints" and canon:
      "admin_canonical E M (vp_exp q) audience (ar_action ?r) (vp_jti q) (ar_bound ?r) =
       admin_canonical E M e audience a k r"
    using assms(5) unfolding signed_only_def by (auto split: prod.splits)
  have clean: "newline \<notin> set a" "newline \<notin> set k" "br_method r = ''POST''"
    using assms(3) mint by auto
  have "newline \<notin> set (ar_action ?r)" using assms(2,4) by (simp add: list_all_length)
  from admin_canonical_inj[OF assms(1) this clean(1) jti_clean[OF ver(1)] clean(2) _ clean(3) canon]
  have "(vp_exp q, ar_action ?r, vp_jti q, r) \<in> mints \<and> br_path r = ar_path ?r \<and>
      body_sha256 E M (br_body r) = body_sha256 E M (ar_body ?r)"
    using mint by (auto simp: ar_bound_def)
  moreover have "vp_exp p \<le> ar_now ?r"
    if "sorted (map ar_now rs)" "i < j" "admin_run E M secret audience replay_guard_default rs ! i = Inr p" "vp_jti p = vp_jti q" for i p
  proof -
    let ?ss = "map (admin_attempt E M secret audience) rs"
    have i: "i < length rs" using that(2) assms(2) by simp
    have times: "sorted (map fst ?ss)" using that(1) by (simp add: admin_attempt_def comp_def)
    from guard_single_use[OF guard_default_wf this that(2), of "vp_jti q" "vp_exp p" "vp_exp q"]
    show ?thesis using admin_run_nth[OF i that(3)] qj i assms(2) that(4) by (simp add: admin_attempt_def)
  qed
  ultimately show ?thesis
    using ver(2,3) by (fastforce simp: MAX_FUTURE_SECONDS_def)
qed

definition demo_mac :: mac_env where
  "demo_mac = \<lparr>hmac_sha256 = (\<lambda>k m. m), sha256 = (\<lambda>m. m), parse_rfc3339 = (\<lambda>s. Some 0)\<rparr>"

definition demo_spawn :: "int \<Rightarrow> string \<Rightarrow> admin_request" where
  "demo_spawn now jti =
     (let bound = \<lparr>br_method = ''POST'', br_path = ''/api/pods'', br_body = ''{}''\<rparr>
      in \<lparr>ar_now = now, ar_headers = map_of [(''x-agentbbs-admin-ver'', ''3''),
            (''x-agentbbs-admin-role'', ''sysop''), (''x-agentbbs-admin-exp'', ''100''),
            (''x-agentbbs-admin-aud'', ''node''), (''x-agentbbs-admin-action'', SPAWN),
            (''x-agentbbs-admin-jti'', jti),
            (''x-agentbbs-admin-sig'', hex_enc demo_env (admin_canonical demo_env demo_mac 100 ''node'' SPAWN jti bound))],
          ar_action = SPAWN, ar_path = ''/api/pods'', ar_body = ''{}''\<rparr>)"

lemma to_str_ok_hex: "hex_ok E \<Longrightarrow> to_str_ok (hex_enc E b)"
proof -
  assume "hex_ok E"
  then have "\<forall>c \<in> set (hex_enc E b). is_hex_digit c" by (simp add: hex_ok_def list_all_iff)
  then show ?thesis
    by (auto simp: to_str_ok_def list_all_iff is_hex_digit_def is_digit_def Let_def dest!: bspec)
qed

lemma demo_spawn_verifies:
  assumes "now \<in> {1..90}" "jti \<in> {''k1'', ''k2''}"
  shows "admin_verify demo_env demo_mac (ar_headers (demo_spawn now jti)) SPAWN
      (ar_bound (demo_spawn now jti)) ''s'' ''node'' now = Inr \<lparr>vp_jti = jti, vp_exp = 100\<rparr>"
proof -
  have texts: "parse_i64 ''100'' = Some 100" "jti_char CHR ''k''" "jti_char CHR ''1''" "jti_char CHR ''2''"
    "to_str_ok ''3''" "to_str_ok ''sysop''" "to_str_ok ''100''" "to_str_ok ''node''"
    "to_str_ok SPAWN" "to_str_ok ''k1''" "to_str_ok ''k2''" "SPAWN \<noteq> []"
    by code_simp+
  have hex: "hex_dec demo_env (hex_enc demo_env b) = Inr b" "to_str_ok (hex_enc demo_env b)"
      "hex_enc demo_env b \<noteq> [] \<longleftrightarrow> b \<noteq> []" for b
    using demo_hex_ok to_str_ok_hex[OF demo_hex_ok, of b]
    by (auto simp: hex_ok_def simp flip: length_greater_0_conv)
  have "admin_canonical demo_env demo_mac 100 ''node'' SPAWN jti r \<noteq> []" for r
    by (simp add: admin_canonical_def)
  then show ?thesis
    using assms
    by (auto simp: admin_verify_def demo_spawn_def Let_def admin_header_def header_str_def texts hex
        ar_bound_def MAX_FUTURE_SECONDS_def demo_mac_def)
qed

definition demo_bound :: bound_request where
  "demo_bound = \<lparr>br_method = ''POST'', br_path = ''/api/pods'', br_body = ''{}''\<rparr>"

definition demo_mints :: "(int \<times> string \<times> string \<times> bound_request) set" where
  "demo_mints = {(100, SPAWN, ''k1'', demo_bound), (100, SPAWN, ''k2'', demo_bound)}"

lemma demo_spawn_simps [simp]:
  "ar_now (demo_spawn n k) = n" "ar_action (demo_spawn n k) = SPAWN" "ar_path (demo_spawn n k) = ''/api/pods''"
  by (simp_all add: demo_spawn_def Let_def)

lemma demo_spawn_run:
  "admin_run demo_env demo_mac ''s'' ''node'' replay_guard_default
     [demo_spawn 10 ''k1'', demo_spawn 20 ''k2''] =
   [Inr \<lparr>vp_jti = ''k1'', vp_exp = 100\<rparr>, Inr \<lparr>vp_jti = ''k2'', vp_exp = 100\<rparr>]"
  using demo_spawn_verifies[of 10 "''k1''"] demo_spawn_verifies[of 20 "''k2''"]
  by (simp add: require_admin_action_def consume_def replay_guard_default_def Let_def hm_retain_def
      hm_empty_def hm_insert_def hm_get_def)

lemma demo_spawn_tags:
  "presented_tags demo_env ''x-agentbbs-admin-sig'' (ar_headers ` {demo_spawn n k, demo_spawn m l}) =
   {admin_canonical demo_env demo_mac 100 ''node'' SPAWN k demo_bound,
    admin_canonical demo_env demo_mac 100 ''node'' SPAWN l demo_bound}"
proof -
  have "header_str (ar_headers (demo_spawn n k)) ''x-agentbbs-admin-sig'' =
      Some (hex_enc demo_env (admin_canonical demo_env demo_mac 100 ''node'' SPAWN k demo_bound))" for n k
    by (simp add: demo_spawn_def Let_def header_str_def to_str_ok_hex[OF demo_hex_ok] demo_bound_def)
  moreover have "hex_dec demo_env (hex_enc demo_env b) = Inr b" for b
    using demo_hex_ok by (simp add: hex_ok_def)
  ultimately show ?thesis by (auto simp: presented_tags_def)
qed

lemma demo_hmac: "hmac_sha256 demo_mac k m = m"
  by (simp add: demo_mac_def)

theorem admin_proof_single_use_witness:
  "admin_run demo_env demo_mac ''s'' ''node'' replay_guard_default
     [demo_spawn 10 ''k1'', demo_spawn 20 ''k2''] =
     [Inr \<lparr>vp_jti = ''k1'', vp_exp = 100\<rparr>, Inr \<lparr>vp_jti = ''k2'', vp_exp = 100\<rparr>] \<and>
   (\<exists>r. (100, SPAWN, ''k1'', r) \<in> demo_mints \<and> br_path r = ''/api/pods'') \<and>
   (\<exists>r. (100, SPAWN, ''k2'', r) \<in> demo_mints \<and> br_path r = ''/api/pods'')"
proof -
  let ?rs = "[demo_spawn 10 ''k1'', demo_spawn 20 ''k2'']"
  have clean: "newline \<notin> set SPAWN" by code_simp
  have mints: "\<forall>(e, a, k, r) \<in> demo_mints. newline \<notin> set a \<and> newline \<notin> set k \<and> br_method r = ''POST''"
    using clean by (simp add: demo_mints_def demo_bound_def)
  have signed: "signed_only demo_mac ''s''
      (presented_tags demo_env ''x-agentbbs-admin-sig'' (ar_headers ` set ?rs))
      ((\<lambda>(e, a, k, r). admin_canonical demo_env demo_mac e ''node'' a k r) ` demo_mints)"
    unfolding list.set demo_spawn_tags signed_only_def demo_mints_def
    by (simp add: demo_hmac)
  have "list_all (\<lambda>r. newline \<notin> set (ar_action r)) ?rs"
    using clean by simp_all
  note use = admin_proof_single_use[OF demo_hex_ok _ mints this signed, unfolded demo_spawn_run]
  show ?thesis
    using use[of 0 "\<lparr>vp_jti = ''k1'', vp_exp = 100\<rparr>"] use[of 1 "\<lparr>vp_jti = ''k2'', vp_exp = 100\<rparr>"] demo_spawn_run
    by auto
qed

text \<open>
  Property C28. A role claim never elevates a caller: the capabilities a request gets are those
  of an ordinary agent, or those of exactly the role that the holder of the secret signed,
  under the expiry that was signed with it and that has not passed.
\<close>

theorem role_claims_never_elevate:
  assumes "signed_only M secret (presented_tags E ''x-agentbbs-role-sig'' {h})
      ((\<lambda>(role, e). role_claim_bytes role e) ` claims)"
  shows "resolve_caps E M secret h now = role_caps Agent \<or>
    (\<exists>name r e. (name, e) \<in> claims \<and> role_from_str name = Some r \<and> now \<le> e \<and> secret \<noteq> [] \<and>
      resolve_caps E M secret h now = role_caps r)"
proof -
  have known: "(role, exp) \<in> claims \<and> role_from_str role = Some r \<and> now \<le> exp \<and> secret \<noteq> []"
    if hdr: "header_str h ''x-agentbbs-role-sig'' = Some sg"
      and ver: "verify_role_claim E M secret role exp sg now = Some r" for role exp sg r
  proof -
    obtain t where t: "hex_dec E sg = Inr t" "hmac_sha256 M secret (role_claim_bytes role exp) = t"
        "role_from_str role = Some r" "secret \<noteq> []" "now \<le> exp"
      using ver by (auto simp: verify_role_claim_def split: if_splits sum.splits)
    then have "hmac_sha256 M secret (role_claim_bytes role exp) \<in> presented_tags E ''x-agentbbs-role-sig'' {h}"
      using hdr by (auto simp: presented_tags_def)
    then have "role_claim_bytes role exp \<in> (\<lambda>(role, e). role_claim_bytes role e) ` claims"
      using assms unfolding signed_only_def by blast
    with t show ?thesis by (auto simp: role_claim_bytes_inj)
  qed
  have "resolve_caps E M secret h now = role_caps Agent \<or>
    (\<exists>role exp sg r. header_str h ''x-agentbbs-role-sig'' = Some sg \<and>
      verify_role_claim E M secret role exp sg now = Some r \<and> resolve_caps E M secret h now = role_caps r)"
    unfolding resolve_caps_def by (simp del: role_caps.simps split: option.split if_split) blast
  then show ?thesis using known by blast
qed

text \<open>A caller that presents a claim to the role of sysop, signed with an expiry of 100.\<close>

definition demo_claim :: headers where
  "demo_claim = [''x-agentbbs-role'' \<mapsto> ''sysop'', ''x-agentbbs-role-exp'' \<mapsto> ''100'',
     ''x-agentbbs-role-sig'' \<mapsto> hex_enc demo_env (hmac_sha256 demo_mac ''s'' (role_claim_bytes ''sysop'' 100))]"

theorem role_claims_never_elevate_witness:
  "signed_only demo_mac ''s'' (presented_tags demo_env ''x-agentbbs-role-sig'' {demo_claim})
     ((\<lambda>(role, e). role_claim_bytes role e) ` {(''sysop'', 100)}) \<and>
   resolve_caps demo_env demo_mac ''s'' demo_claim 5 = role_caps Sysop \<and>
   (\<exists>name r e. (name, e) \<in> {(''sysop'', 100 :: int)} \<and> role_from_str name = Some r \<and> 5 \<le> e \<and>
     resolve_caps demo_env demo_mac ''s'' demo_claim 5 = role_caps r)"
proof -
  have texts: "to_str_ok ''sysop''" "to_str_ok ''100''" "parse_i64 ''100'' = Some 100" "role_from_str ''sysop'' = Some Sysop"
    by code_simp+
  have hex: "hex_dec demo_env (hex_enc demo_env b) = Inr b" "to_str_ok (hex_enc demo_env b)" for b
    using demo_hex_ok to_str_ok_hex[OF demo_hex_ok, of b] by (auto simp: hex_ok_def)
  have hdr: "header_str demo_claim ''x-agentbbs-role'' = Some ''sysop''"
      "header_str demo_claim ''x-agentbbs-role-exp'' = Some ''100''"
      "header_str demo_claim ''x-agentbbs-role-sig'' = Some (hex_enc demo_env (role_claim_bytes ''sysop'' 100))"
    by (simp_all add: demo_claim_def header_str_def texts hex demo_hmac)
  then have signed: "signed_only demo_mac ''s'' (presented_tags demo_env ''x-agentbbs-role-sig'' {demo_claim})
      ((\<lambda>(role, e). role_claim_bytes role e) ` {(''sysop'', 100)})"
    by (simp add: signed_only_def presented_tags_def hex demo_hmac)
  have granted: "resolve_caps demo_env demo_mac ''s'' demo_claim 5 = role_caps Sysop"
    by (simp add: resolve_caps_def hdr texts verify_role_claim_def hex demo_hmac del: role_caps.simps)
  have "role_caps Sysop \<noteq> role_caps Agent" by code_simp
  with role_claims_never_elevate[OF signed, of 5] granted signed show ?thesis by auto
qed

section \<open>Runs of agent-reply requests\<close>

type_synonym reply_request = "moderation_log \<times> signed_agent_reply \<times> time"

fun reply_run :: "env \<Rightarrow> mac_env \<Rightarrow> replay_guard \<Rightarrow> reply_request list
    \<Rightarrow> (status_code \<times> string + verified_agent_reply) list" where
  "reply_run E M g [] = []"
| "reply_run E M g ((log, req, now) # rs) =
     snd (admit_agent_reply E M log g req now) #
     reply_run E M (fst (admit_agent_reply E M log g req now)) rs"

fun reply_attempt :: "env \<Rightarrow> mac_env \<Rightarrow> reply_request \<Rightarrow> guard_attempt" where
  "reply_attempt E M (log, req, now) = (timestamp now,
     case verify_agent_reply E M req now of
       Inl _ \<Rightarrow> None
     | Inr v \<Rightarrow> if can_post log (va_requester v) now then Some (va_nonce v, va_expires v) else None)"

lemma admit_step:
  "fst (admit_agent_reply E M log g req now) = fst (guard_step g (reply_attempt E M (log, req, now)))"
  "snd (admit_agent_reply E M log g req now) = Inr v \<Longrightarrow>
     snd (guard_step g (reply_attempt E M (log, req, now))) \<and>
     snd (reply_attempt E M (log, req, now)) = Some (va_nonce v, va_expires v) \<and>
     verify_agent_reply E M req now = Inr v \<and> can_post log (va_requester v) now"
  by (auto simp: admit_agent_reply_def split: sum.splits prod.splits if_splits)

lemma reply_run_nth:
  assumes "i < length rs" "reply_run E M g rs ! i = Inr v" "rs ! i = (log, req, now)"
  shows "guard_run g (map (reply_attempt E M) rs) ! i \<and>
    snd (reply_attempt E M (rs ! i)) = Some (va_nonce v, va_expires v) \<and>
    verify_agent_reply E M req now = Inr v \<and> can_post log (va_requester v) now"
  using assms
proof (induction rs arbitrary: g i)
  case (Cons r rs)
  obtain l q n where r: "r = (l, q, n)" by (cases r)
  show ?case
  proof (cases i)
    case 0
    with Cons.prems r have h: "l = log" "q = req" "n = now" "snd (admit_agent_reply E M log g req now) = Inr v"
      by auto
    note admit_step(2)[OF h(4)]
    moreover have "guard_run g (map (reply_attempt E M) (r # rs)) ! i =
        snd (guard_step g (reply_attempt E M (log, req, now)))"
      using 0 r h by (cases "reply_attempt E M (log, req, now)") (simp del: reply_attempt.simps)
    ultimately show ?thesis using 0 r h by (simp del: reply_attempt.simps guard_step.simps)
  next
    case (Suc k)
    with Cons.prems r show ?thesis
      using Cons.IH[of k "fst (admit_agent_reply E M l g q n)"] by (simp add: admit_step(1))
  qed
qed simp

lemma verify_agent_reply_Inr:
  assumes "verify_agent_reply E M req now = Inr v"
  obtains created sg where "from_hex E (rq_requester req) = Inr (va_requester v)"
    "sig_from_hex E (rq_signature req) = Inr sg" "parse_rfc3339 M (rq_created_at req) = Some created"
    "- 60 \<le> num_seconds (now - created)" "num_seconds (now - created) \<le> 300"
    "verify_sig E (va_requester v) (agent_reply_bytes (rq_agent req) (rq_text req)
       (rq_requester req) (rq_created_at req)) sg = Inr ()"
    "va_nonce v = to_ascii_lowercase (rq_signature req)" "va_expires v = timestamp created + 360"
  using assms
  by (auto simp: verify_agent_reply_def Let_def AGENT_REPLY_MAX_AGE_SECONDS_def
      AGENT_REPLY_MAX_SKEW_SECONDS_def split: sum.splits option.splits if_splits)

text \<open>A request that is still fresh has not outlived its nonce.\<close>

lemma fresh_nonce: "num_seconds (now - created) \<le> 300 \<Longrightarrow> timestamp now < timestamp created + 360"
  by (auto simp: num_seconds_def timestamp_def split: if_splits)

text \<open>
  Property C27. Every admitted agent-reply request, the first included, is authentic and fresh:
  its signature verifies under the requester's key over exactly its agent, text, requester and
  time, it is at most 300 seconds old and 60 ahead, and its requester may post. And under a
  clock that never runs backwards, an earlier admitted request with the same nonce (the text of
  the signature up to the case of its letters) had outlived its nonce by then, so that no two
  admitted requests share both their nonce and their time of signing.
\<close>

theorem agent_reply_admission:
  assumes "j < length rs" "rs ! j = (log, req, now)"
    and "reply_run E M replay_guard_default rs ! j = Inr v"
  shows "(\<exists>sg created. sig_from_hex E (rq_signature req) = Inr sg \<and>
      from_hex E (rq_requester req) = Inr (va_requester v) \<and>
      verify_sig E (va_requester v) (agent_reply_bytes (rq_agent req) (rq_text req)
        (rq_requester req) (rq_created_at req)) sg = Inr () \<and>
      parse_rfc3339 M (rq_created_at req) = Some created \<and>
      num_seconds (now - created) \<in> {-60..300}) \<and>
    can_post log (va_requester v) now \<and>
    (\<forall>i log0 req0 now0 v0. sorted (map (\<lambda>(log, req, now). timestamp now) rs) \<and> i < j \<and> rs ! i = (log0, req0, now0) \<and>
        reply_run E M replay_guard_default rs ! i = Inr v0 \<and> va_nonce v0 = va_nonce v \<longrightarrow>
      va_expires v0 \<le> timestamp now \<and> rq_created_at req0 \<noteq> rq_created_at req)"
proof -
  note qj = reply_run_nth[OF assms(1,3,2)]
  then have "verify_agent_reply E M req now = Inr v" by blast
  then obtain c s where 2: "parse_rfc3339 M (rq_created_at req) = Some c"
    "from_hex E (rq_requester req) = Inr (va_requester v)" "sig_from_hex E (rq_signature req) = Inr s"
    "verify_sig E (va_requester v) (agent_reply_bytes (rq_agent req) (rq_text req)
       (rq_requester req) (rq_created_at req)) s = Inr ()"
    "- 60 \<le> num_seconds (now - c)" "num_seconds (now - c) \<le> 300" "va_expires v = timestamp c + 360"
    by (rule verify_agent_reply_Inr)
  have clock: "fst (reply_attempt E M r) = (\<lambda>(log, req, now). timestamp now) r" for r
    by (cases r) simp
  have "va_expires v0 \<le> timestamp now \<and> rq_created_at req0 \<noteq> rq_created_at req"
    if "sorted (map (\<lambda>(log, req, now). timestamp now) rs)" "i < j" "rs ! i = (log0, req0, now0)" "reply_run E M replay_guard_default rs ! i = Inr v0"
      "va_nonce v0 = va_nonce v" for i log0 req0 now0 v0
  proof -
    have times: "sorted (map fst (map (reply_attempt E M) rs))"
      using that(1) by (simp add: comp_def clock)
    have i: "i < length rs" using that(2) assms(1) by simp
    note pi = reply_run_nth[OF i that(4,3)]
    then have "verify_agent_reply E M req0 now0 = Inr v0" by blast
    then obtain c0 where 1: "parse_rfc3339 M (rq_created_at req0) = Some c0" "va_expires v0 = timestamp c0 + 360"
      by (rule verify_agent_reply_Inr)
    have "va_expires v0 \<le> fst (map (reply_attempt E M) rs ! j)"
      using guard_single_use[OF guard_default_wf times that(2), of "va_nonce v" "va_expires v0" "va_expires v"]
        pi qj i assms(1) that(5) by simp
    then have late: "va_expires v0 \<le> timestamp now" using assms(1,2) by simp
    moreover have "rq_created_at req0 \<noteq> rq_created_at req"
      using late 1 2(1) fresh_nonce[OF 2(6)] by auto
    ultimately show ?thesis by blast
  qed
  with 2 qj show ?thesis by auto
qed


text \<open>Two signed requests of two identities to one fresh guard.\<close>

definition demo_reply :: "nat \<Rightarrow> signed_agent_reply" where
  "demo_reply n = (let requester = to_hex demo_env (ident (demo_id n)) in
     \<lparr>rq_agent = ''helper'', rq_text = ''hi'', rq_requester = requester, rq_created_at = ''t'',
      rq_signature = sig_to_hex demo_env (sign demo_env (demo_id n)
        (agent_reply_bytes ''helper'' ''hi'' requester ''t''))\<rparr>)"

definition demo_verified :: "nat \<Rightarrow> verified_agent_reply" where
  "demo_verified n = \<lparr>va_requester = ident (demo_id n),
     va_nonce = to_ascii_lowercase (rq_signature (demo_reply n)), va_expires = 360\<rparr>"

lemma demo_reply_verifies: "verify_agent_reply demo_env demo_mac (demo_reply n) 0 = Inr (demo_verified n)"
proof -
  let ?i = "demo_id n"
  have "length (as_bytes (ident ?i)) = AGENT_ID_LEN" "key_err demo_env (as_bytes (ident ?i)) = None"
      "length (sig_bytes (sign demo_env ?i m)) = 64" for m
    using demo_sig_ok demo_id_wf[of n] by (auto simp: sig_ok_def identity_wf_def sign_def AGENT_ID_LEN_def)
  then show ?thesis
    by (simp add: verify_agent_reply_def demo_reply_def demo_verified_def Let_def demo_mac_def
        from_hex_to_hex[OF demo_hex_ok] sig_from_hex_to_hex[OF demo_hex_ok]
        verify_sign[OF demo_sig_ok demo_id_wf] num_seconds_def timestamp_def
        AGENT_REPLY_MAX_AGE_SECONDS_def AGENT_REPLY_MAX_SKEW_SECONDS_def)
qed

lemma demo_nonces: "va_nonce (demo_verified 1) \<noteq> va_nonce (demo_verified 2)"
proof -
  have enc: "map ascii_lower_char (demo_hex_enc (c # cs)) ! 1 =
      ascii_lower_char (nibble_char ((of_char c :: nat) mod 16))" for c cs
    by (simp add: Let_def)
  have sg: "sig_bytes (sign demo_env (demo_id n) m) =
      char_of (65 + n) # take 63 (replicate 31 (char_of (65 + n)) @ rev m @ replicate 64 (CHR 0x00))" for n m
  proof -
    have "replicate 32 c = c # replicate 31 c" for c :: char
      by (simp add: numeral_eq_Suc)
    then show ?thesis
      by (simp add: sign_def demo_env_def demo_sig_def demo_id_def from_seed_def demo_seed_def)
  qed
  have hex: "hex_enc demo_env = demo_hex_enc"
    by (simp add: demo_env_def)
  have nonce: "va_nonce (demo_verified n) ! 1 =
      ascii_lower_char (nibble_char ((of_char (char_of (65 + n :: nat) :: char) :: nat) mod 16))" for n
    unfolding demo_verified_def demo_reply_def Let_def sig_to_hex_def sg to_ascii_lowercase_def hex
    by (simp only: enc signed_agent_reply.select_convs verified_agent_reply.select_convs)
  have "va_nonce (demo_verified 1) ! 1 = CHR ''2''" "va_nonce (demo_verified 2) ! 1 = CHR ''3''"
    unfolding nonce by code_simp+
  then show ?thesis by auto
qed

lemma demo_consume:
  "consume replay_guard_default k 360 0 = (\<lparr>rg_used = [(k, 360)]\<rparr>, Inr ())"
  by (simp add: consume_def replay_guard_default_def Let_def hm_retain_def hm_empty_def hm_insert_def hm_get_def)

lemma demo_consume_again:
  "k \<noteq> l \<Longrightarrow> snd (consume \<lparr>rg_used = [(k, 360)]\<rparr> l 360 0) = Inr ()"
  by (simp add: consume_def Let_def hm_retain_def hm_insert_def hm_get_def)

lemma demo_reply_run:
  "reply_run demo_env demo_mac replay_guard_default
     [(mod_log_new, demo_reply 1, 0), (mod_log_new, demo_reply 2, 0)] =
   [Inr (demo_verified 1), Inr (demo_verified 2)]"
proof -
  have "can_post mod_log_new a 0" for a
    by (simp add: can_post_def status_can_post_def mod_status_of_def mod_log_new_def clear_status_def)
  moreover have "va_expires (demo_verified n) = 360" for n by (simp add: demo_verified_def)
  moreover have "timestamp 0 = 0" by (simp add: timestamp_def)
  ultimately show ?thesis
    using demo_consume_again[OF demo_nonces]
    by (auto simp: admit_agent_reply_def demo_reply_verifies demo_consume split: prod.splits sum.splits)
qed

theorem agent_reply_admission_witness:
  "can_post mod_log_new (ident (demo_id 1)) 0 \<and> can_post mod_log_new (ident (demo_id 2)) 0 \<and>
   va_nonce (demo_verified 1) \<noteq> va_nonce (demo_verified 2)"
proof -
  let ?rs = "[(mod_log_new, demo_reply 1, 0), (mod_log_new, demo_reply 2, 0)]"
  have created: "rq_created_at (demo_reply 1) = rq_created_at (demo_reply 2)" by (simp add: demo_reply_def Let_def)
  note first = agent_reply_admission[of 0 ?rs mod_log_new "demo_reply 1" 0 demo_env demo_mac "demo_verified 1",
      unfolded demo_reply_run]
  note second = agent_reply_admission[of 1 ?rs mod_log_new "demo_reply 2" 0 demo_env demo_mac "demo_verified 2",
      unfolded demo_reply_run]
  have "can_post mod_log_new (ident (demo_id 1)) 0" using first by (simp add: demo_verified_def)
  moreover have "can_post mod_log_new (ident (demo_id 2)) 0" using second by (simp add: demo_verified_def)
  moreover have "va_nonce (demo_verified 1) \<noteq> va_nonce (demo_verified 2)"
    using second created by fastforce
  ultimately show ?thesis by blast
qed

text \<open>
  Single use is of the signature's text, not of the request: the signature is
  trimmed before it is decoded but not before it becomes the nonce, so whoever holds an
  admitted request is admitted again at once, as the same requester with the same signed
  content, by padding the signature with spaces.
\<close>

theorem agent_reply_replayable:
  assumes "snd (admit_agent_reply E M log g req now) = Inr v"
  shows "\<exists>n v'. snd (admit_agent_reply E M log (fst (admit_agent_reply E M log g req now))
      (req\<lparr>rq_signature := replicate n (CHR '' '') @ rq_signature req\<rparr>) now) = Inr v' \<and>
    va_requester v' = va_requester v"
proof -
  let ?g = "fst (admit_agent_reply E M log g req now)"
  let ?pad = "\<lambda>n. replicate n (CHR '' '') @ rq_signature req"
  let ?v = "\<lambda>n. v\<lparr>va_nonce := to_ascii_lowercase (?pad n)\<rparr>"
  have ok: "verify_agent_reply E M req now = Inr v" "can_post log (va_requester v) now"
    using admit_step(2)[OF assms] by blast+
  have pad: "verify_agent_reply E M (req\<lparr>rq_signature := ?pad n\<rparr>) now = Inr (?v n)" for n
    using ok(1) unfolding verify_agent_reply_def
    by (auto simp: sig_from_hex_def trim_spaces Let_def split: sum.splits option.splits if_splits)
  have "finite (dom (hm_get (hm_retain (\<lambda>_ expiry. expiry > timestamp now) (rg_used ?g))))" by simp
  moreover have "inj (\<lambda>n. to_ascii_lowercase (?pad n))"
    by (rule inj_onI) (metis add_right_cancel length_append length_map length_replicate to_ascii_lowercase_def)
  ultimately have "\<not> range (\<lambda>n. to_ascii_lowercase (?pad n)) \<subseteq>
      dom (hm_get (hm_retain (\<lambda>_ expiry. expiry > timestamp now) (rg_used ?g)))"
    by (meson finite_subset finite_imageD infinite_UNIV_nat)
  then obtain n where
    "to_ascii_lowercase (?pad n) \<notin> dom (hm_get (hm_retain (\<lambda>_ expiry. expiry > timestamp now) (rg_used ?g)))"
    by blast
  then have "snd (consume ?g (va_nonce (?v n)) (va_expires (?v n)) (timestamp now)) = Inr ()"
    by (simp add: consume_def Let_def domIff)
  then have "snd (admit_agent_reply E M log ?g (req\<lparr>rq_signature := ?pad n\<rparr>) now) = Inr (?v n)"
    using ok(2) unfolding admit_agent_reply_def pad by (auto split: sum.splits prod.splits)
  then show ?thesis by (intro exI[of _ n] exI[of _ "?v n"]) simp
qed

theorem agent_reply_replayable_witness:
  "\<exists>n v'. snd (admit_agent_reply demo_env demo_mac mod_log_new
      (fst (admit_agent_reply demo_env demo_mac mod_log_new replay_guard_default (demo_reply 1) 0))
      ((demo_reply 1)\<lparr>rq_signature := replicate n (CHR '' '') @ rq_signature (demo_reply 1)\<rparr>) 0) = Inr v' \<and>
    va_requester v' = ident (demo_id 1)"
proof -
  have "snd (admit_agent_reply demo_env demo_mac mod_log_new replay_guard_default (demo_reply 1) 0) =
      Inr (demo_verified 1)"
    using demo_reply_run by simp
  from agent_reply_replayable[OF this] show ?thesis by (simp add: demo_verified_def)
qed

end
