(* ===== verification/Pod_Events.thy ===== *)
theory Pod_Events
  imports Pod Web_Auth
begin

text \<open>
  Signed runtime callbacks (\<open>agentbbs-web/src/signed_pod_event.rs\<close>): the event, its canonical
  JSON and its verification. JSON string escaping and the ECMAScript rendering of doubles are
  parameters (\<open>serde_json\<close>, \<open>ryu_js\<close>).
\<close>

section \<open>Model\<close>

record json_env =
  json_str :: "string \<Rightarrow> string"  \<comment> \<open>a quoted JSON string\<close>
  json_num :: "f64 \<Rightarrow> string"  \<comment> \<open>a finite number\<close>

definition MAX_CLOCK_SKEW_MS :: int where
  "MAX_CLOCK_SKEW_MS = 300000"

record event_step =
  es_summary :: string
  es_tokens :: u64
  es_cost_usd :: f64

record event_conformance =
  ec_score :: "f64 option"
  ec_status :: "string option"

record signed_pod_event =
  pe_pod_id :: string
  pe_account_id :: string
  pe_event :: string
  pe_status :: string
  pe_tier :: "string option"
  pe_step :: "event_step option"
  pe_conformance :: "event_conformance option"
  pe_committed_usd :: f64
  pe_pause_reason :: "string option"
  pe_proposal_id :: "string option"
  pe_verdict :: "string option"
  pe_mock :: "bool option"
  pe_event_id :: string
  pe_ts :: int
  pe_signature :: string
  pe_signing_key_id :: string

text \<open>The JSON scalars of the canonical form.\<close>

datatype json_scalar = SNull | SBool bool | SInt int | SNum f64 | SStr string

fun scalar_string :: "json_env \<Rightarrow> json_scalar \<Rightarrow> string" where
  "scalar_string J SNull = ''null''"
| "scalar_string J (SBool b) = (if b then ''true'' else ''false'')"
| "scalar_string J (SInt i) = dec_int i"
| "scalar_string J (SNum x) = json_num J x"
| "scalar_string J (SStr s) = json_str J s"

definition opt_scalar :: "('a \<Rightarrow> json_scalar) \<Rightarrow> 'a option \<Rightarrow> json_scalar" where
  "opt_scalar f v = (case v of None \<Rightarrow> SNull | Some x \<Rightarrow> f x)"

text \<open>The fields, under their keys in sorted order.\<close>

definition canonical_fields :: "signed_pod_event \<Rightarrow> (string \<times> json_scalar) list" where
  "canonical_fields e =
     [(''account_id'', SStr (pe_account_id e)),
      (''committed_usd'', SNum (pe_committed_usd e)),
      (''conformance_score'', opt_scalar SNum (Option.bind (pe_conformance e) ec_score)),
      (''conformance_status'', opt_scalar SStr (Option.bind (pe_conformance e) ec_status)),
      (''event'', SStr (pe_event e)),
      (''event_id'', SStr (pe_event_id e)),
      (''mock'', opt_scalar SBool (pe_mock e)),
      (''pause_reason'', opt_scalar SStr (pe_pause_reason e)),
      (''pod_id'', SStr (pe_pod_id e)),
      (''proposal_id'', opt_scalar SStr (pe_proposal_id e)),
      (''status'', SStr (pe_status e)),
      (''step_cost_usd'', opt_scalar (\<lambda>s. SNum (es_cost_usd s)) (pe_step e)),
      (''step_summary'', opt_scalar (\<lambda>s. SStr (es_summary s)) (pe_step e)),
      (''step_tokens'', opt_scalar (\<lambda>s. SInt (uint (es_tokens s))) (pe_step e)),
      (''tier'', opt_scalar SStr (pe_tier e)),
      (''ts'', SInt (pe_ts e)),
      (''verdict'', opt_scalar SStr (pe_verdict e))]"

definition event_canonical :: "json_env \<Rightarrow> signed_pod_event \<Rightarrow> string" where
  "event_canonical J e =
     ''{'' @ join '','' (map (\<lambda>(k, v). scalar_string J (SStr k) @ '':'' @ scalar_string J v) (canonical_fields e)) @ ''}''"

definition event_verify :: "env \<Rightarrow> mac_env \<Rightarrow> json_env \<Rightarrow> signed_pod_event \<Rightarrow> string \<Rightarrow> string \<Rightarrow> string
    \<Rightarrow> string \<Rightarrow> int \<Rightarrow> string + unit" where
  "event_verify E M J e secret expected_kid expected_account route_pod now_ms =
     (if secret = [] \<or> expected_kid = [] \<or> expected_account = []
      then Inl ''pod result verifier is not configured''
      else if pe_signing_key_id e \<noteq> expected_kid \<or> pe_account_id e \<noteq> expected_account \<or> pe_pod_id e \<noteq> route_pod
      then Inl ''pod result binding mismatch''
      else if pe_event_id e = [] \<or> length (pe_event_id e) > 160 \<or> \<bar>pe_ts e - now_ms\<bar> > MAX_CLOCK_SKEW_MS
      then Inl ''pod result event id or timestamp invalid''
      else if \<not> f64_is_finite (pe_committed_usd e) \<or> f64_lt (pe_committed_usd e) 0
      then Inl ''invalid committed_usd''
      else if (case pe_step e of None \<Rightarrow> False
               | Some s \<Rightarrow> \<not> f64_is_finite (es_cost_usd s) \<or> f64_lt (es_cost_usd s) 0)
      then Inl ''invalid step cost''
      else if (case Option.bind (pe_conformance e) ec_score of None \<Rightarrow> False
               | Some x \<Rightarrow> \<not> f64_is_finite x \<or> \<not> (f64_le 0 x \<and> f64_le x f64_one))
      then Inl ''invalid conformance score''
      else (case hex_dec E (pe_signature e) of
          Inl _ \<Rightarrow> Inl ''invalid pod result signature''
        | Inr supplied \<Rightarrow>
            if hmac_sha256 M secret (event_canonical J e) = supplied then Inr ()
            else Inl ''invalid pod result signature''))"

section \<open>The canonical form is unambiguous\<close>

text \<open>
  What is documented of the two encoders: a quoted string is self-delimiting and starts with a
  quote; a number consists of digits, signs, a point and an exponent, starts with a digit or
  minus, and two finite numbers with one text are equal (the zeros have one text).
\<close>

definition num_char :: "char \<Rightarrow> bool" where
  "num_char c \<longleftrightarrow> is_digit c \<or> c \<in> set ''-+.e''"

definition json_ok :: "json_env \<Rightarrow> bool" where
  "json_ok J \<longleftrightarrow>
     (\<forall>s. \<exists>t. json_str J s = CHR 0x22 # t) \<and>
     (\<forall>s t x y. json_str J s @ x = json_str J t @ y \<longrightarrow> s = t \<and> x = y) \<and>
     (\<forall>x. f64_is_finite x \<longrightarrow> json_num J x \<noteq> [] \<and> list_all num_char (json_num J x)) \<and>
     (\<forall>x y. f64_is_finite x \<longrightarrow> f64_is_finite y \<longrightarrow> json_num J x = json_num J y \<longrightarrow> f64_key x = f64_key y)"

lemma json_okD:
  assumes "json_ok J"
  shows "\<exists>t. json_str J s = CHR 0x22 # t" "json_str J s @ x = json_str J t @ y \<Longrightarrow> s = t \<and> x = y"
    "f64_is_finite a \<Longrightarrow> json_num J a \<noteq> [] \<and> list_all num_char (json_num J a)"
    "f64_is_finite a \<Longrightarrow> f64_is_finite b \<Longrightarrow> json_num J a = json_num J b \<Longrightarrow> f64_key a = f64_key b"
  using assms unfolding json_ok_def by blast+

text \<open>Two scalars of one place agree, up to the sign of a zero.\<close>

fun scalar_same :: "json_scalar \<Rightarrow> json_scalar \<Rightarrow> bool" where
  "scalar_same (SNum x) (SNum y) = (f64_key x = f64_key y)"
| "scalar_same a b = (a = b)"

fun scalar_finite :: "json_scalar \<Rightarrow> bool" where
  "scalar_finite (SNum x) = f64_is_finite x"
| "scalar_finite _ = True"

fun scalar_compat :: "json_scalar \<Rightarrow> json_scalar \<Rightarrow> bool" where
  "scalar_compat SNull b = True"
| "scalar_compat a SNull = True"
| "scalar_compat (SBool _) (SBool _) = True"
| "scalar_compat (SInt _) (SInt _) = True"
| "scalar_compat (SNum _) (SNum _) = True"
| "scalar_compat (SStr _) (SStr _) = True"
| "scalar_compat _ _ = False"

definition delim :: "char \<Rightarrow> bool" where
  "delim c \<longleftrightarrow> c = CHR '','' \<or> c = CHR ''}''"

definition plain :: "char \<Rightarrow> bool" where
  "plain c \<longleftrightarrow> num_char c \<or> c \<in> set ''nultrefas''"

lemma not_plain: "\<not> plain (CHR '','')" "\<not> plain (CHR ''}'')" "\<not> plain (CHR 0x22)"
  by code_simp+

lemma plain_not_delim: "plain c \<Longrightarrow> \<not> delim c" and plain_not_quote: "plain c \<Longrightarrow> c \<noteq> CHR 0x22"
  using not_plain by (auto simp: delim_def)

lemma dec_plain: "c \<in> set (dec_int i) \<Longrightarrow> num_char c"
  by (auto simp: dec_int_def num_char_def dest: dec_digits split: if_splits)

lemma dec_int_not_nil: "dec_int i \<noteq> []"
  by (simp add: dec_int_def)

text \<open>A scalar that is not a string has plain characters only, and at least one.\<close>

lemma scalar_plain:
  assumes "json_ok J" "scalar_finite a" "\<forall>s. a \<noteq> SStr s"
  shows "list_all plain (scalar_string J a) \<and> scalar_string J a \<noteq> []"
proof (cases a)
  case (SNum x)
  then have "json_num J x \<noteq> [] \<and> list_all num_char (json_num J x)"
    using json_okD(3)[OF assms(1)] assms(2) by simp
  with SNum show ?thesis by (simp add: plain_def list_all_iff)
next
  case (SInt i)
  then show ?thesis using dec_plain[of _ i] dec_int_not_nil by (auto simp: list_all_iff plain_def)
qed (use assms(3) in \<open>simp_all add: plain_def\<close>)

lemma takeWhile_delim:
  "list_all plain s \<Longrightarrow> delim c \<Longrightarrow> takeWhile (\<lambda>c. \<not> delim c) (s @ c # x) = s"
  using plain_not_delim by (auto simp: list_all_iff takeWhile_append)

lemma not_num_null: "\<not> list_all num_char ''null''"
  by code_simp

lemma null_only:
  assumes "json_ok J" "scalar_finite a" "\<forall>s. a \<noteq> SStr s" "scalar_string J a = ''null''"
  shows "a = SNull"
proof (cases a)
  case (SInt i)
  then have "list_all num_char (scalar_string J a)" using dec_plain by (simp add: list_all_iff)
  with assms(4) not_num_null show ?thesis by simp
next
  case (SNum x)
  then have "list_all num_char (scalar_string J a)" using json_okD(3)[OF assms(1)] assms(2) by simp
  with assms(4) not_num_null show ?thesis by simp
qed (use assms in \<open>simp_all split: if_splits\<close>)

lemma scalar_compat_cases:
  "scalar_compat a b \<Longrightarrow> a = SNull \<or> b = SNull \<or> (\<exists>p q. a = SBool p \<and> b = SBool q) \<or>
    (\<exists>i j. a = SInt i \<and> b = SInt j) \<or> (\<exists>x y. a = SNum x \<and> b = SNum y) \<or> (\<exists>s t. a = SStr s \<and> b = SStr t)"
  by (cases a; cases b) simp_all

lemma same_text_same:
  assumes "json_ok J" "scalar_finite a" "scalar_finite b" "scalar_compat a b"
    and "\<forall>s. a \<noteq> SStr s" "\<forall>s. b \<noteq> SStr s" and same: "scalar_string J a = scalar_string J b"
  shows "scalar_same a b"
  using scalar_compat_cases[OF assms(4)]
proof (elim disjE exE conjE)
  assume "a = SNull"
  then have "b = SNull" using same null_only[OF assms(1,3,6)] by simp
  with \<open>a = SNull\<close> show ?thesis by simp
next
  assume "b = SNull"
  then have "a = SNull" using same null_only[OF assms(1,2,5)] by simp
  with \<open>b = SNull\<close> show ?thesis by simp
next
  fix x y assume "a = SNum x" "b = SNum y"
  then show ?thesis using same json_okD(4)[OF assms(1), of x y] assms(2,3) by simp
qed (use same assms(5) in \<open>simp_all split: if_splits\<close>)

lemma scalar_head:
  assumes "json_ok J" "scalar_finite t"
  shows "hd (scalar_string J t @ r) = CHR 0x22 \<longleftrightarrow> (\<exists>s. t = SStr s)"
proof (cases "\<exists>s. t = SStr s")
  case True
  then obtain s u where "t = SStr s" "json_str J s = CHR 0x22 # u"
    using json_okD(1)[OF assms(1)] by blast
  then show ?thesis by simp
next
  case False
  then have "list_all plain (scalar_string J t)" "scalar_string J t \<noteq> []"
    using scalar_plain[OF assms] by simp_all
  then show ?thesis using False plain_not_quote by (cases "scalar_string J t") auto
qed

lemma scalar_string_delim_inj:
  assumes "json_ok J" "scalar_finite a" "scalar_finite b" "scalar_compat a b" "delim c" "delim d"
    and eq: "scalar_string J a @ c # x = scalar_string J b @ d # y"
  shows "scalar_same a b \<and> c # x = d # y"
proof -
  from scalar_head[OF assms(1,2), of "c # x"] scalar_head[OF assms(1,3), of "d # y"] eq
  have same_kind: "(\<exists>s. a = SStr s) \<longleftrightarrow> (\<exists>s. b = SStr s)" by simp
  show ?thesis
  proof (cases "\<exists>s. a = SStr s")
    case True
    then obtain s t where st: "a = SStr s" "b = SStr t" using same_kind by blast
    have "s = t \<and> c # x = d # y"
      using eq json_okD(2)[OF assms(1)] unfolding st scalar_string.simps by blast
    with st show ?thesis by simp
  next
    case False
    with same_kind have nostr: "\<forall>s. a \<noteq> SStr s" "\<forall>s. b \<noteq> SStr s" by blast+
    then have plain: "list_all plain (scalar_string J a)" "list_all plain (scalar_string J b)"
      using scalar_plain[OF assms(1)] assms(2,3) by simp_all
    then have same: "scalar_string J a = scalar_string J b"
      using takeWhile_delim[OF plain(1) assms(5), of x] takeWhile_delim[OF plain(2) assms(6), of y] eq by simp
    with same_text_same[OF assms(1-4) nostr] eq show ?thesis by simp
  qed
qed

text \<open>The same keys and matching kinds: the text determines the fields.\<close>

definition field_text :: "json_env \<Rightarrow> string \<times> json_scalar \<Rightarrow> string" where
  "field_text J = (\<lambda>(k, v). scalar_string J (SStr k) @ '':'' @ scalar_string J v)"

lemma fields_text_inj:
  assumes "json_ok J" "list_all2 (\<lambda>(k, v) (l, w). k = l \<and> scalar_compat v w) fs gs"
    and "\<forall>(k, v) \<in> set fs \<union> set gs. scalar_finite v"
    and "join '','' (map (field_text J) fs) @ ''}'' = join '','' (map (field_text J) gs) @ ''}''"
  shows "list_all2 (\<lambda>(k, v) (l, w). k = l \<and> scalar_same v w) fs gs"
  using assms(2-4)
proof (induction fs gs rule: list_all2_induct)
  case Nil
  then show ?case by simp
next
  case (Cons f fs g gs)
  obtain k v w where f: "f = (k, v)" "g = (k, w)" "scalar_compat v w"
    using Cons.hyps(1) by (cases f; cases g) auto
  have fin: "scalar_finite v" "scalar_finite w" using Cons.prems(1) f by auto
  have len: "fs = [] \<longleftrightarrow> gs = []" using Cons.hyps(2) by auto
  let ?rest = "\<lambda>hs. if hs = [] then ''}'' else CHR '','' # join '','' (map (field_text J) hs) @ ''}''"
  have split: "join '','' (map (field_text J) ((k, u) # hs)) @ ''}'' =
      (json_str J k @ '':'' @ scalar_string J u) @ ?rest hs" for u hs
    by (cases hs) (simp_all add: field_text_def)
  have "scalar_string J v @ ?rest fs = scalar_string J w @ ?rest gs"
    using Cons.prems(2) unfolding f split by simp
  moreover have "\<exists>c x. ?rest hs = c # x \<and> delim c" for hs
    by (cases hs) (simp_all add: delim_def)
  then obtain c x d y where cd: "?rest fs = c # x" "delim c" "?rest gs = d # y" "delim d"
    by meson
  ultimately have "scalar_same v w \<and> ?rest fs = ?rest gs"
    using scalar_string_delim_inj[OF assms(1) fin f(3) cd(2,4)] by (simp only: cd)
  moreover have "join '','' (map (field_text J) fs) @ ''}'' = join '','' (map (field_text J) gs) @ ''}''"
    using calculation len by (cases "gs = []") simp_all
  ultimately show ?case using Cons.IH Cons.prems(1) f by auto
qed

section \<open>What a signature binds\<close>

definition event_finite :: "signed_pod_event \<Rightarrow> bool" where
  "event_finite e \<longleftrightarrow> list_all (\<lambda>(k, v). scalar_finite v) (canonical_fields e)"

text \<open>Two events with the same meaning: they may differ in the signature, the key id, and the sign of a zero.\<close>

definition event_same :: "signed_pod_event \<Rightarrow> signed_pod_event \<Rightarrow> bool" where
  "event_same e f \<longleftrightarrow>
     pe_pod_id e = pe_pod_id f \<and> pe_account_id e = pe_account_id f \<and> pe_event e = pe_event f \<and>
     pe_status e = pe_status f \<and> pe_tier e = pe_tier f \<and> pe_pause_reason e = pe_pause_reason f \<and>
     pe_proposal_id e = pe_proposal_id f \<and> pe_verdict e = pe_verdict f \<and> pe_mock e = pe_mock f \<and>
     pe_event_id e = pe_event_id f \<and> pe_ts e = pe_ts f \<and>
     f64_key (pe_committed_usd e) = f64_key (pe_committed_usd f) \<and>
     map_option es_summary (pe_step e) = map_option es_summary (pe_step f) \<and>
     map_option es_tokens (pe_step e) = map_option es_tokens (pe_step f) \<and>
     map_option (\<lambda>s. f64_key (es_cost_usd s)) (pe_step e) = map_option (\<lambda>s. f64_key (es_cost_usd s)) (pe_step f) \<and>
     Option.bind (pe_conformance e) ec_status = Option.bind (pe_conformance f) ec_status \<and>
     map_option f64_key (Option.bind (pe_conformance e) ec_score) =
       map_option f64_key (Option.bind (pe_conformance f) ec_score)"

lemma opt_scalar_compat:
  assumes "\<And>x y. scalar_compat (f x) (f y)"
  shows "scalar_compat (opt_scalar f a) (opt_scalar f b)"
proof -
  have "scalar_compat x SNull" for x by (cases x) simp_all
  with assms show ?thesis by (simp add: opt_scalar_def split: option.split)
qed

lemma fields_compat:
  "list_all2 (\<lambda>(k, v) (l, w). k = l \<and> scalar_compat v w) (canonical_fields e) (canonical_fields f)"
  by (simp add: canonical_fields_def opt_scalar_compat)

lemma uint_eq: "uint a = uint b \<longleftrightarrow> a = b"
  by (simp add: word_uint_eq_iff)

lemma opt_finite:
  "scalar_finite (opt_scalar SStr a)" "scalar_finite (opt_scalar SBool b)"
  "scalar_finite (opt_scalar (\<lambda>s. SStr (f s)) t)" "scalar_finite (opt_scalar (\<lambda>s. SInt (g s)) t)"
  "scalar_finite (opt_scalar SNum x) \<longleftrightarrow> (case x of None \<Rightarrow> True | Some y \<Rightarrow> f64_is_finite y)"
  "scalar_finite (opt_scalar (\<lambda>s. SNum (h s)) t) \<longleftrightarrow> (case t of None \<Rightarrow> True | Some s \<Rightarrow> f64_is_finite (h s))"
  by (simp_all add: opt_scalar_def split: option.split)

lemma opt_same:
  "scalar_same (opt_scalar SStr a) (opt_scalar SStr b) \<longleftrightarrow> a = b"
  "scalar_same (opt_scalar SBool p) (opt_scalar SBool q) \<longleftrightarrow> p = q"
  "scalar_same (opt_scalar SNum x) (opt_scalar SNum y) \<longleftrightarrow> map_option f64_key x = map_option f64_key y"
  "scalar_same (opt_scalar (\<lambda>s. SNum (cost s)) t) (opt_scalar (\<lambda>s. SNum (cost s)) u) \<longleftrightarrow>
     map_option (\<lambda>s. f64_key (cost s)) t = map_option (\<lambda>s. f64_key (cost s)) u"
  "scalar_same (opt_scalar (\<lambda>s. SStr (summ s)) t) (opt_scalar (\<lambda>s. SStr (summ s)) u) \<longleftrightarrow>
     map_option summ t = map_option summ u"
  "scalar_same (opt_scalar (\<lambda>s. SInt (uint (tok s))) t) (opt_scalar (\<lambda>s. SInt (uint (tok s))) u) \<longleftrightarrow>
     map_option tok t = map_option tok u"
  by (auto simp: opt_scalar_def uint_eq split: option.split)

lemma fields_same:
  "list_all2 (\<lambda>(k, v) (l, w). k = l \<and> scalar_same v w) (canonical_fields e) (canonical_fields f) \<longleftrightarrow> event_same e f"
  by (auto simp: canonical_fields_def opt_same event_same_def option.map_ident)

lemma canonical_inj:
  assumes "json_ok J" "event_finite e" "event_finite f" "event_canonical J e = event_canonical J f"
  shows "event_same e f"
proof -
  have "\<forall>(k, v) \<in> set (canonical_fields e) \<union> set (canonical_fields f). scalar_finite v"
    using assms(2,3) by (auto simp: event_finite_def list_all_iff)
  moreover have "join '','' (map (field_text J) (canonical_fields e)) @ ''}'' =
      join '','' (map (field_text J) (canonical_fields f)) @ ''}''"
    using assms(4) by (simp add: event_canonical_def field_text_def)
  ultimately show ?thesis
    using fields_text_inj[OF assms(1) fields_compat] fields_same by blast
qed

lemma event_verify_Inr:
  assumes "event_verify E M J e secret kid account pod now = Inr u"
  shows "secret \<noteq> [] \<and> kid \<noteq> [] \<and> account \<noteq> [] \<and> pe_signing_key_id e = kid \<and> pe_account_id e = account \<and> pe_pod_id e = pod \<and>
    pe_event_id e \<noteq> [] \<and> \<bar>pe_ts e - now\<bar> \<le> MAX_CLOCK_SKEW_MS \<and> event_finite e \<and>
    (\<exists>t. hex_dec E (pe_signature e) = Inr t \<and> hmac_sha256 M secret (event_canonical J e) = t)"
proof -
  have fin: "event_finite e \<longleftrightarrow> f64_is_finite (pe_committed_usd e) \<and>
      (case pe_step e of None \<Rightarrow> True | Some s \<Rightarrow> f64_is_finite (es_cost_usd s)) \<and>
      (case Option.bind (pe_conformance e) ec_score of None \<Rightarrow> True | Some x \<Rightarrow> f64_is_finite x)"
    by (auto simp: event_finite_def canonical_fields_def opt_finite)
  show ?thesis
    using assms unfolding event_verify_def fin
    by (simp split: if_splits sum.splits option.splits)
qed

text \<open>
  A callback the verifier accepts says what the runtime signed: if tags under the
  secret come only from the runtime's own events, the accepted event has the pod, account,
  status, tier, step, cost (up to the sign of a zero), verdict, id and time of one of them; it
  names the key and the pod it was checked against, has an id, is at most five minutes off the
  clock, and all its numbers are finite.
\<close>

theorem pod_event_binds:
  assumes "json_ok J" "event_verify E M J e secret kid account pod now = Inr u"
    and "signed_only M secret {t. hex_dec E (pe_signature e) = Inr t} (event_canonical J ` emitted)"
    and "\<forall>f \<in> emitted. event_finite f"
  shows "(\<exists>f \<in> emitted. event_same e f) \<and> pe_signing_key_id e = kid \<and> pe_pod_id e = pod \<and>
    pe_account_id e = account \<and> pe_event_id e \<noteq> [] \<and> \<bar>pe_ts e - now\<bar> \<le> 300000 \<and>
    event_finite e \<and> secret \<noteq> []"
proof -
  from event_verify_Inr[OF assms(2)] have fin: "event_finite e"
    and "hmac_sha256 M secret (event_canonical J e) \<in> {t. hex_dec E (pe_signature e) = Inr t}"
    by blast+
  then have "event_canonical J e \<in> event_canonical J ` emitted"
    using assms(3) unfolding signed_only_def by blast
  then obtain f where "f \<in> emitted" "event_canonical J e = event_canonical J f" by blast
  then have "\<exists>f \<in> emitted. event_same e f"
    using canonical_inj[OF assms(1) fin] assms(4) by blast
  with event_verify_Inr[OF assms(2)] show ?thesis by (simp add: MAX_CLOCK_SKEW_MS_def)
qed

section \<open>Concrete encoders\<close>

fun demo_escape :: "string \<Rightarrow> string" where
  "demo_escape [] = []"
| "demo_escape (c # s) =
     (if c = CHR 0x22 \<or> c = CHR 0x5C then CHR 0x5C # c # demo_escape s else c # demo_escape s)"

definition demo_json :: json_env where
  "demo_json = \<lparr>json_str = (\<lambda>s. CHR 0x22 # demo_escape s @ [CHR 0x22]), json_num = (\<lambda>x. dec_int (f64_key x))\<rparr>"

lemma demo_escape_inj:
  "demo_escape s @ CHR 0x22 # x = demo_escape t @ CHR 0x22 # y \<Longrightarrow> s = t \<and> x = y"
proof (induction s arbitrary: t)
  case Nil
  then show ?case by (cases t) (auto split: if_splits)
next
  case (Cons c s)
  then show ?case by (cases t) (auto split: if_splits)
qed

lemma demo_json_ok: "json_ok demo_json"
proof -
  have self: "s = t \<and> x = y" if "json_str demo_json s @ x = json_str demo_json t @ y" for s t x y
  proof -
    from that have "demo_escape s @ CHR 0x22 # x = demo_escape t @ CHR 0x22 # y"
      by (simp add: demo_json_def)
    then show ?thesis by (rule demo_escape_inj)
  qed
  have "list_all num_char (dec_int i)" for i using dec_plain by (simp add: list_all_iff)
  then have num: "json_num demo_json x \<noteq> [] \<and> list_all num_char (json_num demo_json x)" for x
    by (simp add: demo_json_def dec_int_not_nil)
  have inj: "f64_key x = f64_key y" if "json_num demo_json x = json_num demo_json y" for x y
    using that by (simp add: demo_json_def)
  have "\<exists>t. json_str demo_json s = CHR 0x22 # t" for s by (simp add: demo_json_def)
  with self num inj show ?thesis unfolding json_ok_def by blast
qed

definition demo_unsigned :: "string \<Rightarrow> int \<Rightarrow> string \<Rightarrow> signed_pod_event" where
  "demo_unsigned eid ts status =
     \<lparr>pe_pod_id = ''pod-0000'', pe_account_id = ''acct'', pe_event = ''step'', pe_status = status,
      pe_tier = Some ''low'', pe_step = Some \<lparr>es_summary = ''did it'', es_tokens = 7, es_cost_usd = f64_one\<rparr>,
      pe_conformance = None, pe_committed_usd = 0, pe_pause_reason = None, pe_proposal_id = None,
      pe_verdict = None, pe_mock = None, pe_event_id = eid, pe_ts = ts, pe_signature = [],
      pe_signing_key_id = ''k''\<rparr>"

definition demo_event :: "string \<Rightarrow> int \<Rightarrow> string \<Rightarrow> signed_pod_event" where
  "demo_event eid ts status = (demo_unsigned eid ts status)
     \<lparr>pe_signature := hex_enc demo_env (event_canonical demo_json (demo_unsigned eid ts status))\<rparr>"

lemma canonical_signature [simp]: "event_canonical J (e\<lparr>pe_signature := sg\<rparr>) = event_canonical J e"
  by (simp add: event_canonical_def canonical_fields_def)

lemma demo_event_simps [simp]:
  "pe_pod_id (demo_event i t s) = ''pod-0000''" "pe_account_id (demo_event i t s) = ''acct''"
  "pe_event (demo_event i t s) = ''step''" "pe_status (demo_event i t s) = s"
  "pe_tier (demo_event i t s) = Some ''low''" "pe_event_id (demo_event i t s) = i" "pe_ts (demo_event i t s) = t"
  "pe_step (demo_event i t s) = Some \<lparr>es_summary = ''did it'', es_tokens = 7, es_cost_usd = f64_one\<rparr>"
  "pe_signing_key_id (demo_event i t s) = ''k''" "pe_conformance (demo_event i t s) = None"
  "pe_committed_usd (demo_event i t s) = 0" "pe_pause_reason (demo_event i t s) = None"
  by (simp_all add: demo_event_def demo_unsigned_def)

lemma demo_event_signature:
  "hex_dec demo_env (pe_signature (demo_event i t s)) = Inr (event_canonical demo_json (demo_event i t s))"
  using demo_hex_ok by (simp add: demo_event_def hex_ok_def)

lemma zero_finite: "f64_is_finite 0"
  by (simp add: f64_is_finite_def inf_mag_def)

lemma zero_not_less: "\<not> f64_lt 0 0" "\<not> f64_lt f64_one 0"
  by (simp_all add: f64_lt_def f64_key_def)

lemma demo_event_verifies:
  assumes "i \<noteq> []" "length i \<le> 160" "\<bar>t - now\<bar> \<le> 300000"
  shows "event_verify demo_env demo_mac demo_json (demo_event i t s) ''sec'' ''k'' ''acct'' ''pod-0000'' now = Inr ()"
  using assms
  by (simp add: event_verify_def demo_event_signature MAX_CLOCK_SKEW_MS_def demo_mac_def zero_finite zero_not_less)

theorem pod_event_binds_witness:
  "event_verify demo_env demo_mac demo_json (demo_event ''e1'' 5 ''IDLE'') ''sec'' ''k'' ''acct'' ''pod-0000'' 9 = Inr () \<and>
   event_finite (demo_event ''e1'' 5 ''IDLE'') \<and>
   event_same (demo_event ''e1'' 5 ''IDLE'') (demo_event ''e1'' 5 ''IDLE'')"
proof -
  let ?e = "demo_event ''e1'' 5 ''IDLE''"
  have ver: "event_verify demo_env demo_mac demo_json ?e ''sec'' ''k'' ''acct'' ''pod-0000'' 9 = Inr ()"
    by (rule demo_event_verifies) simp_all
  have "signed_only demo_mac ''sec'' {t. hex_dec demo_env (pe_signature ?e) = Inr t} (event_canonical demo_json ` {?e})"
    by (simp add: signed_only_def demo_event_signature demo_mac_def)
  moreover have "\<forall>f \<in> {?e}. event_finite f" using event_verify_Inr[OF ver] by simp
  ultimately show ?thesis using pod_event_binds[OF demo_json_ok ver] ver by blast
qed

end
