(* ===== verification/Rvf_Search.thy ===== *)
theory Rvf_Search
  imports Rvf
begin

text \<open>
  The searches of the vector memory (\<open>agentbbs-core/src/rvf.rs\<close>): the exact cosine scan, and the
  hashing index (64 random hyperplanes, one signature per record) that prunes the records before
  it ranks them exactly. The arithmetic is that of \<open>Float32\<close>.
\<close>

unbundle bit_operations_syntax

section \<open>Cosine search\<close>

record 'm hit =
  hi_id :: string
  hi_score :: f32
  hi_meta :: 'm

definition vec_norm :: "f32 list \<Rightarrow> f32" where
  "vec_norm v = f32_sqrt (f32_sum (map (\<lambda>x. f32_mul x x) v))"

definition vec_dot :: "f32 list \<Rightarrow> f32 list \<Rightarrow> f32" where
  "vec_dot a b = f32_sum (map2 f32_mul a b)"

definition cosine :: "f32 list \<Rightarrow> f32 \<Rightarrow> f32 list \<Rightarrow> f32" where
  "cosine a a_norm b =
     (let bn = vec_norm b
      in if f32_eq a_norm 0 \<or> f32_eq bn 0 then 0 else f32_div (vec_dot a b) (f32_mul a_norm bn))"

definition hit_of :: "f32 list \<Rightarrow> f32 \<Rightarrow> 'm rvf_record \<Rightarrow> 'm hit" where
  "hit_of query qn r = \<lparr>hi_id = rr_id r, hi_score = cosine query qn (rr_vector r), hi_meta = rr_meta r\<rparr>"

text \<open>
  \<open>b.score.partial_cmp(&a.score).unwrap_or(Equal)\<close>: a hit stays in front unless its score is
  smaller.
\<close>

definition hit_before :: "'m hit \<Rightarrow> 'm hit \<Rightarrow> bool" where
  "hit_before a b \<longleftrightarrow> \<not> f32_lt (hi_score a) (hi_score b)"

definition rank_hits :: "nat \<Rightarrow> 'm hit list \<Rightarrow> 'm hit list" where
  "rank_hits top_k hits = take top_k (sort_by hit_before hits)"

definition query_dim_error :: "nat \<Rightarrow> f32 list \<Rightarrow> error" where
  "query_dim_error dim query =
     malformed ''query'' (''expected dim '' @ dec dim @ '', got '' @ dec (length query))"

definition rvf_search :: "'m rvf_store \<Rightarrow> f32 list \<Rightarrow> nat \<Rightarrow> 'm hit list result" where
  "rvf_search s query top_k =
     (if length query \<noteq> rs_dim s then Inl (query_dim_error (rs_dim s) query)
      else (let qn = vec_norm query in Inr (rank_hits top_k (map (hit_of query qn) (rs_records s)))))"

section \<open>The hashing index\<close>

definition splitmix64 :: "u64 \<Rightarrow> u64 \<times> u64" where
  "splitmix64 state =
     (let state = state + 0x9E3779B97F4A7C15;
          z = (state XOR drop_bit 30 state) * 0xBF58476D1CE4E5B9;
          z = (z XOR drop_bit 27 z) * 0x94D049BB133111EB
      in (z XOR drop_bit 31 z, state))"

definition lsh_component :: "u64 \<Rightarrow> f32" where
  "lsh_component z =
     (let u = f32_div (f32_of_nat (unat (drop_bit 11 z))) (f32_of_nat (2 ^ 53))
      in f32_sub (f32_mul u (f32_of_nat 2)) (f32_of_nat 1))"

text \<open>The generator is threaded through the components of a plane and through the planes.\<close>

fun lsh_plane :: "nat \<Rightarrow> u64 \<Rightarrow> f32 list \<times> u64" where
  "lsh_plane 0 s = ([], s)"
| "lsh_plane (Suc dim) s =
     (let (z, s) = splitmix64 s; (p, s) = lsh_plane dim s in (lsh_component z # p, s))"

fun lsh_planes :: "nat \<Rightarrow> nat \<Rightarrow> u64 \<Rightarrow> f32 list list" where
  "lsh_planes dim 0 s = []"
| "lsh_planes dim (Suc bits) s = (let (p, s) = lsh_plane dim s in p # lsh_planes dim bits s)"

text \<open>Bit \<open>i\<close> says that the vector is on the side of the plane \<open>i\<close> that it points to.\<close>

definition lsh_sig :: "f32 list list \<Rightarrow> f32 list \<Rightarrow> u64" where
  "lsh_sig planes v =
     foldl (\<lambda>sig (i, p). if f32_le 0 (vec_dot p v) then sig OR push_bit i 1 else sig) 0
       (zip [0..<length planes] planes)"

definition LSH_BITS :: nat where
  "LSH_BITS = 64"

record lsh_index =
  li_planes :: "f32 list list"
  li_sigs :: "u64 list"
  li_dim :: nat

definition lsh_build :: "'m rvf_store \<Rightarrow> lsh_index" where
  "lsh_build s =
     (let planes = lsh_planes (rs_dim s) LSH_BITS 0xA9E52026C0FFEE01
      in \<lparr>li_planes = planes, li_sigs = map (\<lambda>r. lsh_sig planes (rr_vector r)) (rs_records s),
          li_dim = rs_dim s\<rparr>)"

definition count_ones :: "u64 \<Rightarrow> nat" where
  "count_ones w = length (filter (bit w) [0..<64])"

text \<open>The positions of the records, nearest signature first.\<close>

definition lsh_candidates :: "lsh_index \<Rightarrow> u64 \<Rightarrow> nat \<Rightarrow> nat \<Rightarrow> nat list" where
  "lsh_candidates ix qsig n budget =
     take budget (sort_by (\<lambda>i j. count_ones (li_sigs ix ! i XOR qsig) \<le> count_ones (li_sigs ix ! j XOR qsig)) [0..<n])"

definition lsh_search :: "lsh_index \<Rightarrow> 'm rvf_store \<Rightarrow> f32 list \<Rightarrow> nat \<Rightarrow> nat \<Rightarrow> 'm hit list result" where
  "lsh_search ix s query top_k max_candidates =
     (if length query \<noteq> li_dim ix then Inl (query_dim_error (li_dim ix) query)
      else if length (li_sigs ix) \<noteq> length (rs_records s) then rvf_search s query top_k
      else (let idx = lsh_candidates ix (lsh_sig (li_planes ix) query) (length (rs_records s)) (max max_candidates top_k);
                qn = vec_norm query
            in Inr (rank_hits top_k (map (\<lambda>i. hit_of query qn (rs_records s ! i)) idx))))"

section \<open>Lemmas\<close>

text \<open>The scores of a store for a query are numbers.\<close>

definition scores_real :: "f32 list \<Rightarrow> 'm rvf_store \<Rightarrow> bool" where
  "scores_real query s \<longleftrightarrow> list_all (\<lambda>r. \<not> f32_is_nan (cosine query (vec_norm query) (rr_vector r))) (rs_records s)"

definition all_hits :: "f32 list \<Rightarrow> 'm rvf_store \<Rightarrow> 'm hit list" where
  "all_hits query s = map (hit_of query (vec_norm query)) (rs_records s)"

definition real_hit :: "'m hit \<Rightarrow> bool" where
  "real_hit h \<longleftrightarrow> \<not> f32_is_nan (hi_score h)"

lemma all_hits_real: "scores_real query s \<longleftrightarrow> (\<forall>h \<in> set (all_hits query s). real_hit h)"
  by (auto simp: scores_real_def all_hits_def list_all_iff hit_of_def real_hit_def)

lemma hit_before_key:
  "real_hit a \<Longrightarrow> real_hit b \<Longrightarrow> hit_before a b \<longleftrightarrow> f32_key (hi_score b) \<le> f32_key (hi_score a)"
  by (auto simp: hit_before_def f32_lt_def real_hit_def)

lemma hit_before_le: "real_hit a \<Longrightarrow> real_hit b \<Longrightarrow> hit_before a b \<longleftrightarrow> f32_le (hi_score b) (hi_score a)"
  by (auto simp: hit_before_key f32_le_def real_hit_def)

lemma hit_before_total: "\<forall>h \<in> A. real_hit h \<Longrightarrow> total_on_set A hit_before"
  by (auto simp: total_on_set_def hit_before_key)

lemma sorted_hits:
  "\<forall>h \<in> set hs. real_hit h \<Longrightarrow> sorted_wrt hit_before (sort_by hit_before hs)"
  by (intro sorted_sort_by hit_before_total)

text \<open>Ranking keeps the best: what it leaves out scores no more than what it returns.\<close>

lemma rank_hits_best:
  assumes "\<forall>h \<in> set hs. real_hit h"
  shows "\<exists>rest. mset (rank_hits k hs @ rest) = mset hs \<and>
    (\<forall>h \<in> set (rank_hits k hs). \<forall>r \<in> set rest. f32_le (hi_score r) (hi_score h))"
proof (intro exI[of _ "drop k (sort_by hit_before hs)"] conjI ballI)
  show "mset (rank_hits k hs @ drop k (sort_by hit_before hs)) = mset hs"
    by (simp only: rank_hits_def append_take_drop_id mset_sort_by)
  fix h r assume h: "h \<in> set (rank_hits k hs)" and r: "r \<in> set (drop k (sort_by hit_before hs))"
  have "sorted_wrt hit_before (take k (sort_by hit_before hs) @ drop k (sort_by hit_before hs))"
    using sorted_hits[OF assms] by simp
  with h r have "hit_before h r" unfolding sorted_wrt_append rank_hits_def by blast
  moreover have "real_hit h" "real_hit r"
    using assms h r by (auto simp: rank_hits_def dest: in_set_takeD in_set_dropD)
  ultimately show "f32_le (hi_score r) (hi_score h)" by (simp add: hit_before_le)
qed

lemma rank_hits_sorted:
  assumes "\<forall>h \<in> set hs. real_hit h"
  shows "sorted_wrt (\<lambda>a b. f32_le (hi_score b) (hi_score a)) (rank_hits k hs)"
proof (rule sorted_wrt_mono_rel)
  show "sorted_wrt hit_before (rank_hits k hs)"
    unfolding rank_hits_def by (rule sorted_wrt_take[OF sorted_hits[OF assms]])
  fix x y assume "x \<in> set (rank_hits k hs)" "y \<in> set (rank_hits k hs)" "hit_before x y"
  moreover from this have "real_hit x" "real_hit y" using assms by (auto simp: rank_hits_def dest: in_set_takeD)
  ultimately show "f32_le (hi_score y) (hi_score x)" by (simp add: hit_before_le)
qed

text \<open>The scores of a ranking depend only on which hits are ranked, not on their order.\<close>

lemma rank_hits_scores:
  assumes "mset hs = mset hs'" "\<forall>h \<in> set hs. real_hit h"
  shows "map (\<lambda>h. f32_key (hi_score h)) (rank_hits k hs) = map (\<lambda>h. f32_key (hi_score h)) (rank_hits k hs')"
proof -
  let ?key = "\<lambda>h. f32_key (hi_score h)"
  have descending: "sorted_wrt (\<ge>) (map ?key (sort_by hit_before xs))" if "\<forall>h \<in> set xs. real_hit h" for xs :: "'a hit list"
    unfolding sorted_wrt_map
    by (rule sorted_wrt_mono_rel[OF _ sorted_hits[OF that]]) (use that in \<open>auto simp: hit_before_key\<close>)
  have "set hs' = set hs" using assms(1) by (metis set_mset_mset)
  with assms(2) have "\<forall>h \<in> set hs'. real_hit h" by simp
  then have "map ?key (sort_by hit_before hs) = map ?key (sort_by hit_before hs')"
    using assms descending by (intro sorted_mset_unique[of "(\<ge>)"]) auto
  then show ?thesis by (simp add: rank_hits_def flip: take_map)
qed

lemma lsh_candidates_simps:
  "length (lsh_candidates ix q n budget) = min budget n" "set (lsh_candidates ix q n budget) \<subseteq> {..<n}"
  "distinct (lsh_candidates ix q n budget)"
  by (auto simp: lsh_candidates_def min.commute dest: in_set_takeD)

lemma mset_take_subset: "mset (take k xs) \<subseteq># mset xs"
  by (metis append_take_drop_id mset_append mset_subset_eq_add_left)

lemma lsh_candidates_subset: "mset (lsh_candidates ix q n budget) \<subseteq># mset [0..<n]"
  unfolding lsh_candidates_def by (metis mset_sort_by mset_take_subset)

lemma lsh_candidates_all: "n \<le> budget \<Longrightarrow> mset (lsh_candidates ix q n budget) = mset [0..<n]"
  by (simp add: lsh_candidates_def)

text \<open>Whatever its budget, the index ranks hits of the exact scan.\<close>

lemma lsh_search_ranks:
  assumes "length query = rs_dim s"
  shows "\<exists>hs. lsh_search (lsh_build s) s query top_k budget = Inr (rank_hits top_k hs) \<and>
    mset hs \<subseteq># mset (all_hits query s) \<and> length hs = min (max budget top_k) (length (rs_records s)) \<and>
    (length (rs_records s) \<le> max budget top_k \<longrightarrow> mset hs = mset (all_hits query s))"
proof -
  let ?n = "length (rs_records s)" and ?b = "max budget top_k"
  let ?idx = "lsh_candidates (lsh_build s) (lsh_sig (li_planes (lsh_build s)) query) ?n ?b"
  let ?f = "\<lambda>i. hit_of query (vec_norm query) (rs_records s ! i)"
  have "map ?f [0..<?n] = all_hits query s" by (simp add: all_hits_def map_nth_upt)
  then have all: "image_mset ?f (mset [0..<?n]) = mset (all_hits query s)" by (metis mset_map)
  have "mset ?idx \<subseteq># mset [0..<?n]" by (rule lsh_candidates_subset)
  then have "mset (map ?f ?idx) \<subseteq># mset (all_hits query s)"
    using image_mset_subseteq_mono[of "mset ?idx" "mset [0..<?n]" ?f] by (simp only: mset_map all)
  moreover have "mset (map ?f ?idx) = mset (all_hits query s)" if "?n \<le> ?b"
    using lsh_candidates_all[OF that] by (simp only: mset_map all)
  moreover have "lsh_search (lsh_build s) s query top_k budget = Inr (rank_hits top_k (map ?f ?idx))"
    using assms by (simp add: lsh_search_def lsh_build_def Let_def)
  ultimately show ?thesis by (intro exI[of _ "map ?f ?idx"]) (simp add: lsh_candidates_simps)
qed

section \<open>Properties\<close>

lemma rvf_search_ranks: "length query = rs_dim s \<Longrightarrow> rvf_search s query k = Inr (rank_hits k (all_hits query s))"
  by (simp add: rvf_search_def all_hits_def Let_def)

text \<open>
  Property C36. The hashing index answers as the exact scan does, up to the records it does not look at. Over
  a store of which no score is a NaN, both return as many hits as there are, at most \<open>top_k\<close>; the
  hits of the index are records of the store under their exact scores, best first; nothing the
  exact scan leaves out scores above a hit it returns; and when the budget or \<open>top_k\<close> covers the
  store the two give the same scores at the same ranks. (Records of one score may change places:
  the index meets them in the order of their signatures.)
\<close>

theorem index_search_agrees:
  assumes "length query = rs_dim s" "scores_real query s"
  shows "\<exists>hs es rest. lsh_search (lsh_build s) s query top_k budget = Inr hs \<and> rvf_search s query top_k = Inr es \<and>
    length hs = min top_k (length (rs_records s)) \<and> length es = length hs \<and>
    mset hs \<subseteq># mset (all_hits query s) \<and> sorted_wrt (\<lambda>a b. f32_le (hi_score b) (hi_score a)) hs \<and>
    mset (es @ rest) = mset (all_hits query s) \<and>
    (\<forall>h \<in> set es. \<forall>r \<in> set rest. f32_le (hi_score r) (hi_score h)) \<and>
    (length (rs_records s) \<le> max budget top_k \<longrightarrow>
      map (\<lambda>h. f32_key (hi_score h)) hs = map (\<lambda>h. f32_key (hi_score h)) es)"
proof -
  let ?all = "all_hits query s" and ?n = "length (rs_records s)"
  obtain hs where hs: "lsh_search (lsh_build s) s query top_k budget = Inr (rank_hits top_k hs)"
    "mset hs \<subseteq># mset ?all" "length hs = min (max budget top_k) ?n"
    "?n \<le> max budget top_k \<Longrightarrow> mset hs = mset ?all"
    using lsh_search_ranks[OF assms(1)] by blast
  have real: "\<forall>h \<in> set ?all. real_hit h" using assms(2) by (simp add: all_hits_real)
  then have real': "\<forall>h \<in> set hs. real_hit h" using hs(2) by (meson mset_subset_eqD set_mset_mset in_multiset_in_set)
  obtain rest where rest: "mset (rank_hits top_k ?all @ rest) = mset ?all"
    "\<forall>h \<in> set (rank_hits top_k ?all). \<forall>r \<in> set rest. f32_le (hi_score r) (hi_score h)"
    using rank_hits_best[OF real] by blast
  have "mset (rank_hits top_k hs) \<subseteq># mset ?all"
    using hs(2) mset_take_subset[of top_k "sort_by hit_before hs"] unfolding rank_hits_def mset_sort_by
    by (rule subset_mset.order_trans[rotated])
  moreover have "length (rank_hits top_k hs) = min top_k ?n" "length (rank_hits top_k ?all) = min top_k ?n"
    using hs(3) by (auto simp: rank_hits_def all_hits_def)
  moreover have "map (\<lambda>h. f32_key (hi_score h)) (rank_hits top_k hs) = map (\<lambda>h. f32_key (hi_score h)) (rank_hits top_k ?all)"
    if "?n \<le> max budget top_k"
    using rank_hits_scores[OF hs(4)[OF that] real'] .
  ultimately show ?thesis
    using hs(1) rvf_search_ranks[OF assms(1)] rank_hits_sorted[OF real'] rest by fastforce
qed

definition demo_memory :: "string rvf_store" where
  "demo_memory = \<lparr>rs_dim = 1, rs_records =
     [\<lparr>rr_id = ''a'', rr_vector = [0x3F800000], rr_meta = ''''\<rparr>, \<lparr>rr_id = ''b'', rr_vector = [0], rr_meta = ''''\<rparr>]\<rparr>"

lemmas f32_ops = f32_add_def f32_mul_def f32_div_def f32_sqrt_def f32_of_def f32_mag_def f32_neg_def f32_units_def
  units32_def round_mag32_def f32_is_nan_def f32_is_inf_def f32_eq_def f32_key_def half_even_def
  hidden32_def inf_mag32_def sign_bit32_def unit_scale32_def Let_def

lemma isqrt_square: "isqrt (k * k) = k"
proof -
  have "isqrt (k * k) * isqrt (k * k) \<le> k * k" "k * k < (isqrt (k * k) + 1) * (isqrt (k * k) + 1)"
    using isqrt_correct[of "k * k"] by auto
  moreover have "(k + 1) * (k + 1) \<le> isqrt (k * k) * isqrt (k * k)" if "k + 1 \<le> isqrt (k * k)"
    by (rule mult_le_mono[OF that that])
  moreover have "(isqrt (k * k) + 1) * (isqrt (k * k) + 1) \<le> k * k" if "isqrt (k * k) + 1 \<le> k"
    by (rule mult_le_mono[OF that that])
  ultimately show ?thesis by (cases "isqrt (k * k)" k rule: linorder_cases) auto
qed

lemma f32_one: "f32_mul 0x3F800000 0x3F800000 = 0x3F800000" "f32_add (f32_of True 0) 0x3F800000 = 0x3F800000"
  "f32_div 0x3F800000 0x3F800000 = 0x3F800000"
  by (simp_all add: f32_ops excess32.simps)

lemma f32_sqrt_one: "f32_sqrt 0x3F800000 = 0x3F800000"
proof -
  have mag: "f32_mag 0x3F800000 = 127 * hidden32" "\<not> f32_neg 0x3F800000"
    by (simp_all add: f32_mag_def f32_neg_def sign_bit32_def hidden32_def)
  have "units32 (127 * hidden32) * unit_scale32 = 2 ^ 149 * 2 ^ 149"
    by (simp add: units32_def Let_def unit_scale32_def hidden32_def)
  then have "isqrt (units32 (127 * hidden32) * unit_scale32) = 2 ^ 149"
    "units32 (127 * hidden32) * unit_scale32 = 2 ^ 149 * 2 ^ 149" by (simp_all only: isqrt_square)
  then have "f32_sqrt 0x3F800000 = f32_of False (round_mag32 (2 ^ 149) 1)"
    unfolding f32_sqrt_def Let_def by (simp add: mag f32_is_nan_def f32_is_inf_def inf_mag32_def hidden32_def)
  also have "\<dots> = 0x3F800000"
    by (simp add: round_mag32_def Let_def excess32.simps half_even_def hidden32_def inf_mag32_def f32_of_def)
  finally show ?thesis .
qed

lemma f32_zero: "f32_mul 0x3F800000 0 = 0" "f32_mul 0 0 = 0" "f32_add (f32_of True 0) 0 = 0" "f32_sqrt 0 = 0"
  by (simp_all add: f32_ops excess32.simps)

lemma f32_consts: "f32_eq 0 0" "\<not> f32_eq 0x3F800000 0" "\<not> f32_is_nan 0x3F800000"
  by (simp_all add: f32_ops)

lemma demo_scores_real: "scores_real [0x3F800000] demo_memory"
  by (simp add: scores_real_def demo_memory_def cosine_def vec_norm_def vec_dot_def f32_sum_def f32_one f32_zero
      f32_sqrt_one f32_consts Let_def)

theorem index_search_agrees_witness:
  "\<exists>hs es rest. lsh_search (lsh_build demo_memory) demo_memory [0x3F800000] 1 1 = Inr hs \<and>
    rvf_search demo_memory [0x3F800000] 1 = Inr es \<and> length hs = 1 \<and> length es = 1 \<and>
    mset (es @ rest) = mset (all_hits [0x3F800000] demo_memory)"
  using index_search_agrees[OF _ demo_scores_real, of 1 1] by (fastforce simp: demo_memory_def)

text \<open>
  The documentation of a hit puts its score in \<open>[-1, 1]\<close>. A vector of large finite numbers has a
  NaN for a score, against itself: its norm and its product overflow.
\<close>

lemma large_vector_scores_nan:
  "f32_is_finite 0x7149F2CA \<and> f32_is_nan (cosine [0x7149F2CA] (vec_norm [0x7149F2CA]) [0x7149F2CA])"
proof -
  have sq: "f32_mul 0x7149F2CA 0x7149F2CA = 0x7F800000"
    by (simp add: f32_ops excess32.simps)
  have inf: "f32_add (f32_of True 0) 0x7F800000 = 0x7F800000" "f32_sqrt 0x7F800000 = 0x7F800000"
      "f32_mul 0x7F800000 0x7F800000 = 0x7F800000" "f32_is_nan (f32_div 0x7F800000 0x7F800000)"
      "\<not> f32_eq 0x7F800000 0"
    by (simp_all add: f32_ops f32_nan_def)
  show ?thesis
    by (simp add: cosine_def vec_norm_def vec_dot_def f32_sum_def sq inf Let_def)
      (simp add: f32_is_finite_def f32_mag_def sign_bit32_def inf_mag32_def hidden32_def)
qed

end
