(* ===== verification/Tools.thy ===== *)
theory Tools
  imports Service Draft Postguard Rvf_Search
begin

text \<open>
  The tool layer shared by every way an agent is driven (\<open>agentbbs-core/src/tools.rs\<close>):
  listing, reading and posting as text, and the two steps of a draft, each behind the
  prompt-injection guard, and the search of a vector memory as text.
\<close>

section \<open>Model\<close>

text \<open>An em dash between blanks, in UTF-8.\<close>

definition dash :: string where
  "dash = '' '' @ [CHR 0xE2, CHR 0x80, CHR 0x94] @ '' ''"

definition tool_list_boards :: "'s store_ops \<Rightarrow> ('s, 'r) bbs \<Rightarrow> caps \<Rightarrow> string result" where
  "tool_list_boards T b cs =
     rbind (svc_list_boards T b cs) (\<lambda>boards.
       let lines = map (\<lambda>bd. bd_slug bd @ dash @ bd_title bd) boards
       in Inr (if lines = [] then ''(no boards)'' else join [newline] lines))"

definition render_message :: "env \<Rightarrow> message \<Rightarrow> string" where
  "render_message E m =
     [newline] @ ''['' @ mid_short (msg_id m) @ ''] '' @
     (if mb_subject (msg_body m) = [] then ''(no subject)'' else mb_subject (msg_body m)) @
     '' by '' @ short_id E (mb_author (msg_body m)) @ [newline] @ mb_body (msg_body m) @ [newline]"

definition render_messages :: "env \<Rightarrow> string \<Rightarrow> message list \<Rightarrow> string" where
  "render_messages E slug msgs =
     (if msgs = [] then ''Board '' @ [CHR 0x27] @ slug @ [CHR 0x27] @ '': (no messages)''
      else foldl (\<lambda>out m. out @ render_message E m)
        (''Board '' @ [CHR 0x27] @ slug @ [CHR 0x27] @ dash @ dec (length msgs) @ '' message(s):'' @ [newline])
        msgs)"

definition tool_read_board :: "'s store_ops \<Rightarrow> env \<Rightarrow> ('s, 'r) bbs \<Rightarrow> caps \<Rightarrow> string \<Rightarrow> nat \<Rightarrow> string result" where
  "tool_read_board T E b cs slug limit =
     rbind (svc_read_board T b cs slug limit) (\<lambda>msgs. Inr (render_messages E slug msgs))"

definition tool_post_message ::
  "'s store_ops \<Rightarrow> ('r \<Rightarrow> event \<Rightarrow> 'r result) \<Rightarrow> env \<Rightarrow> time \<Rightarrow> time \<Rightarrow> ('s, 'r) bbs \<Rightarrow> caps \<Rightarrow> identity
    \<Rightarrow> string \<Rightarrow> string \<Rightarrow> string \<Rightarrow> string \<Rightarrow> ('s, 'r) bbs \<times> string result" where
  "tool_post_message T R E created now b cs i slug subject txt handle =
     orelse_keep b (require_cap cs POST ''POST'') (\<lambda>_.
     orelse_keep b
       (message_sign E i \<lparr>mb_board = slug, mb_parent = None, mb_subject = subject, mb_body = txt,
          mb_author = ident i, mb_handle = handle, mb_created_at = created, mb_kind = Post\<rparr>) (\<lambda>m.
     case svc_post T R E now b cs m of
       (b', Inl e) \<Rightarrow> (b', Inl e)
     | (b', Inr k) \<Rightarrow> (b', Inr (''posted to '' @ slug @ '' as '' @ mid k))))"

text \<open>The display of a hit's metadata is an argument.\<close>

definition tool_search_memory :: "('m \<Rightarrow> string) \<Rightarrow> 'm rvf_store \<Rightarrow> f32 list \<Rightarrow> nat \<Rightarrow> string result" where
  "tool_search_memory display_meta s query top_k =
     rbind (rvf_search s query top_k) (\<lambda>hits.
       Inr (if hits = [] then ''(no memory hits)''
         else join [newline] (map (\<lambda>h. hi_id h @ '' (score '' @ fixed32 4 (hi_score h) @ '') '' @ display_meta (hi_meta h)) hits)))"

definition draft_reply :: "env \<Rightarrow> string \<Rightarrow> string option \<Rightarrow> string \<Rightarrow> string \<Rightarrow> string \<Rightarrow> string \<Rightarrow> time
    \<Rightarrow> draft result" where
  "draft_reply E target in_reply_to agent subject body context created_at =
     (let sc = scan E context in
      if sc_level sc = Malicious
      then Inl (malformed ''draft''
        (''refused: inbound content flagged malicious ('' @ join ''; '' (sc_reasons sc) @ '')''))
      else Inr (draft_new E target in_reply_to agent subject body created_at (sc_level sc = Suspicious)))"

text \<open>The text before and after the first occurrence of a character: \<open>str::find\<close> and slices.\<close>

definition split_first :: "char \<Rightarrow> string \<Rightarrow> (string \<times> string) option" where
  "split_first c s = (if c \<in> set s
     then Some (takeWhile (\<lambda>x. x \<noteq> c) s, drop (Suc (length (takeWhile (\<lambda>x. x \<noteq> c) s))) s) else None)"

definition strip_agent_preamble :: "env \<Rightarrow> string \<Rightarrow> string" where
  "strip_agent_preamble E body =
     (case trim_start body of
        [] \<Rightarrow> body
      | c # rest \<Rightarrow>
          if c = CHR ''['' then
            (case split_first (CHR '']'') rest of
               Some (tag, after) \<Rightarrow>
                 let tag = to_lower E tag in
                 if contains tag ''auto'' \<or> contains tag ''draft'' \<or> contains tag ''ai-generated''
                 then trim_start after else body
             | None \<Rightarrow> body)
          else body)"

definition send_draft ::
  "'s store_ops \<Rightarrow> ('r \<Rightarrow> event \<Rightarrow> 'r result) \<Rightarrow> env \<Rightarrow> time \<Rightarrow> time \<Rightarrow> ('s, 'r) bbs \<Rightarrow> caps \<Rightarrow> identity
    \<Rightarrow> draft \<Rightarrow> ('s, 'r) bbs \<times> string result" where
  "send_draft T R E created now b cs i d =
     (let sc = scan E (df_body d) in
      if sc_level sc = Malicious
      then (b, Inl (malformed ''draft'' (''refused at send: '' @ join ''; '' (sc_reasons sc))))
      else tool_post_message T R E created now b cs i (df_target d) (df_subject d)
        (strip_agent_preamble E (df_body d)) (df_agent d))"

section \<open>Lemmas\<close>

lemma split_first_suffix: "split_first c s = Some (t, r) \<Longrightarrow> suffix r s"
  by (auto simp: split_first_def suffix_drop split: if_splits)

text \<open>The preamble is the only thing stripped: what is left is the end of the body.\<close>

lemma strip_suffix: "suffix (strip_agent_preamble E body) body"
proof -
  have "suffix (trim_start after) body"
    if "trim_start body = c # rest" "split_first d rest = Some (tag, after)" for c rest d tag after
  proof -
    have "suffix after rest" by (rule split_first_suffix[OF that(2)])
    moreover have "suffix rest body"
      using suffix_trim_start[of body] that(1) by (metis suffix_ConsD)
    ultimately show ?thesis using suffix_trim_start[of after] by (meson suffix_order.trans)
  qed
  then show ?thesis
    by (auto simp: strip_agent_preamble_def Let_def split: list.split option.split)
qed

lemma strip_untagged: "ws_len body = 0 \<Longrightarrow> hd body \<noteq> CHR ''['' \<Longrightarrow> strip_agent_preamble E body = body"
  by (auto simp: strip_agent_preamble_def trim_start_id split: list.split)

text \<open>An accepted post over any store.\<close>

lemma svc_post_accepted:
  assumes "svc_post T R E now b cs m = (b', Inr k)"
  shows "k = msg_id m \<and> message_verify E m = Inr () \<and> caps_contains cs POST \<and>
    op_put_message T (bbs_store b) m = Inr (bbs_store b') \<and>
    (\<exists>bd. op_get_board T (bbs_store b) (mb_board (msg_body m)) = Inr (Some bd) \<and> \<not> bd_locked bd)"
  using assms
  by (auto simp: svc_post_def result_simps ok_or_def require_cap_def split: if_splits sum.splits option.splits)

lemma tool_post_Inr:
  assumes "tool_post_message T R E created now b cs i slug subject txt handle = (b', Inr s)"
  obtains m where "msg_body m = \<lparr>mb_board = slug, mb_parent = None, mb_subject = subject, mb_body = txt,
      mb_author = ident i, mb_handle = handle, mb_created_at = created, mb_kind = Post\<rparr>"
    "message_verify E m = Inr ()" "caps_contains cs POST" "s = ''posted to '' @ slug @ '' as '' @ mid (msg_id m)"
    "op_put_message T (bbs_store b) m = Inr (bbs_store b')"
    "\<exists>bd. op_get_board T (bbs_store b) slug = Inr (Some bd) \<and> \<not> bd_locked bd"
proof -
  from assms obtain m where sg: "message_sign E i \<lparr>mb_board = slug, mb_parent = None, mb_subject = subject,
        mb_body = txt, mb_author = ident i, mb_handle = handle, mb_created_at = created, mb_kind = Post\<rparr> = Inr m"
      and post: "(case svc_post T R E now b cs m of (b', Inl e) \<Rightarrow> (b', Inl e)
        | (b', Inr k) \<Rightarrow> (b', Inr (''posted to '' @ slug @ '' as '' @ mid k))) = (b', Inr s)"
    by (auto simp only: tool_post_message_def orelse_keep_Inr_iff)
  obtain c r where r: "svc_post T R E now b cs m = (c, r)" by (rule prod.exhaust)
  from post obtain k where "r = Inr k" by (cases r) (simp_all add: r)
  with post r have m: "svc_post T R E now b cs m = (b', Inr k)" "s = ''posted to '' @ slug @ '' as '' @ mid k"
    by simp_all
  from svc_post_accepted[OF m(1)] message_sign_Inr[OF sg] m(2) show thesis
    by (intro that[of m]) auto
qed


section \<open>Properties\<close>

text \<open>
  Lower casing may depend on the context only outside ASCII: an ASCII phrase of the lower case
  of the end of a text is in the lower case of the text.
\<close>

definition lower_local :: "env \<Rightarrow> bool" where
  "lower_local E \<longleftrightarrow> (\<forall>pre s phrase. is_ascii phrase \<longrightarrow> contains (to_lower E s) phrase \<longrightarrow>
     contains (to_lower E (pre @ s)) phrase)"

lemma malicious_suffix:
  assumes "lower_local E" "suffix s t" "sc_level (scan E s) = Malicious"
  shows "sc_level (scan E t) = Malicious"
proof -
  obtain pre where t: "t = pre @ s" using assms(2) by (auto simp: suffix_def)
  have "is_ascii p" if "p \<in> set INJECTION_MARKERS" for p
    using markers_ascii that by (simp add: list_all_iff)
  with assms(1,3) show ?thesis
    unfolding t scan_malicious_iff list_ex_iff lower_local_def by blast
qed

lemma demo_lower_local: "lower_local demo_env"
  using contains_append[of _ _ _ "[]"]
  by (simp add: lower_local_def demo_env_def to_ascii_lowercase_def)

lemma orelse_keep_Inl_iff: "orelse_keep b r f = (b', Inl e) \<longleftrightarrow>
    r = Inl e \<and> b' = b \<or> (\<exists>x. r = Inr x \<and> f x = (b', Inl e))"
  by (cases r) auto

lemma svc_post_Inl_store:
  "svc_post T R E now b cs m = (b', Inl e) \<Longrightarrow> bbs_store b' = bbs_store b"
  by (auto simp: svc_post_def orelse_keep_Inl_iff split: sum.splits if_splits)

lemma tool_post_Inl_store:
  assumes "tool_post_message T R E created now b cs i slug subject txt handle = (b', Inl e)"
  shows "bbs_store b' = bbs_store b"
proof -
  have "bbs_store b' = bbs_store b"
    if "(case svc_post T R E now b cs m of (b', Inl e) \<Rightarrow> (b', Inl e)
        | (b', Inr k) \<Rightarrow> (b', Inr (''posted to '' @ slug @ '' as '' @ mid k))) = (b', Inl e)" for m
  proof (cases "svc_post T R E now b cs m")
    case (Pair c r)
    with that show ?thesis by (cases r) (auto dest: svc_post_Inl_store)
  qed
  with assms show ?thesis by (auto simp only: tool_post_message_def orelse_keep_Inl_iff)
qed

text \<open>
  What a draft's tag is, said by concatenation: after leading blanks a bracketed text without a
  closing bracket inside, one of the marker words in its lower case, and the rest behind it.
\<close>

definition agent_tag :: "env \<Rightarrow> string \<Rightarrow> string \<Rightarrow> string \<Rightarrow> bool" where
  "agent_tag E body tag rest \<longleftrightarrow> trim_start body = ''['' @ tag @ '']'' @ rest \<and> CHR '']'' \<notin> set tag \<and>
     (\<exists>w \<in> {''auto'', ''draft'', ''ai-generated''}. contains (to_lower E tag) w)"

lemma split_first_iff: "split_first c s = Some (t, r) \<longleftrightarrow> s = t @ c # r \<and> c \<notin> set t"
proof (induction s arbitrary: t)
  case Nil
  then show ?case by (simp add: split_first_def)
next
  case (Cons x s)
  show ?case
  proof (cases "x = c")
    case True
    then show ?thesis by (cases t) (auto simp: split_first_def)
  next
    case False
    then have "split_first c (x # s) = Some (t, r) \<longleftrightarrow> (\<exists>t'. t = x # t' \<and> split_first c s = Some (t', r))"
      by (auto simp: split_first_def)
    with False Cons show ?thesis by (cases t) auto
  qed
qed

lemma strip_tagged:
  assumes "agent_tag E body tag rest"
  shows "strip_agent_preamble E body = trim_start rest"
proof -
  have "split_first (CHR '']'') (tag @ CHR '']'' # rest) = Some (tag, rest)"
    using assms by (simp add: split_first_iff agent_tag_def)
  with assms show ?thesis by (auto simp: strip_agent_preamble_def agent_tag_def Let_def)
qed

lemma strip_not_tagged:
  assumes "\<nexists>tag rest. agent_tag E body tag rest"
  shows "strip_agent_preamble E body = body"
  using assms
  by (auto simp: strip_agent_preamble_def agent_tag_def Let_def split_first_iff split: list.split option.split)

text \<open>A draft of the queue is one that was added, but for its text and status.\<close>

definition drafted :: "env \<Rightarrow> string \<Rightarrow> draft \<Rightarrow> bool" where
  "drafted E context d \<longleftrightarrow> (\<exists>target irt agent subject body t.
     draft_reply E target irt agent subject body context t = Inr d)"

lemma draft_run_origin:
  "d \<in> set (drafts (foldl draft_step draft_queue_new ops)) \<Longrightarrow>
    \<exists>d0. Add_draft d0 \<in> set ops \<and> d = d0\<lparr>df_body := df_body d, df_status := df_status d\<rparr>"
proof (induction ops arbitrary: d rule: rev_induct)
  case Nil
  then show ?case by (simp add: draft_queue_new_def)
next
  case (snoc op ops)
  let ?q = "foldl draft_step draft_queue_new ops"
  have upd: "x \<in> set (update_first p f ds) \<Longrightarrow> x \<in> set ds \<or> (\<exists>y \<in> set ds. x = f y)" for x p f and ds :: "draft list"
    by (induction ds) (auto split: if_splits)
  have "d \<in> set (drafts (draft_step ?q op))" using snoc.prems by simp
  then have "op = Add_draft d \<or> (\<exists>y \<in> set (drafts ?q). d = y\<lparr>df_body := df_body d, df_status := df_status d\<rparr>)"
  proof (cases "d \<in> set (drafts ?q)")
    case True
    then show ?thesis by (intro disjI2 bexI[of _ d]) simp_all
  next
    case False
    with \<open>d \<in> set (drafts (draft_step ?q op))\<close> show ?thesis
      by (cases op) (auto simp: draft_add_def draft_modifies draft_modify_def Let_def split: if_splits dest!: upd, (rule bexI[rotated], assumption, simp)+)
  qed
  then show ?case
  proof
    assume "\<exists>y \<in> set (drafts ?q). d = y\<lparr>df_body := df_body d, df_status := df_status d\<rparr>"
    then obtain y where y: "y \<in> set (drafts ?q)" "d = y\<lparr>df_body := df_body d, df_status := df_status d\<rparr>" by blast
    obtain d0 where "Add_draft d0 \<in> set ops" "y = d0\<lparr>df_body := df_body y, df_status := df_status y\<rparr>"
      using snoc.IH[OF y(1)] by blast
    with y(2) show ?case by (intro exI[of _ d0]) (cases d; cases y; cases d0; auto)
  qed auto
qed

text \<open>
  Property C6. A draft reaches a board only past both guards, and as the sender's own message.
  Take any queue of drafts in which each was made by \<open>draft_reply\<close> from some inbound text
  (and then edited, discarded or sent in any way), and send one of them. The draft comes from a
  text that is not malicious and is flagged exactly when that text is suspicious; board,
  subject and agent are as drafted. A send that fails, as one of a malicious text does, leaves
  the store as it was. One that succeeds puts exactly one message in the store, signed by the
  sender's key, on the draft's board, with the agent's name as its handle. Its text is the
  draft's text without its tag when it has one, and the draft's text unchanged when it has
  none; neither is malicious.
\<close>

theorem draft_sent_through_guards:
  assumes "lower_local E" "send_draft T R E created now b cs i d = (b', r)"
    and "d \<in> set (drafts (foldl draft_step draft_queue_new ops))"
    and "\<forall>x. Add_draft x \<in> set ops \<longrightarrow> (\<exists>context. drafted E context x)"
  shows "(\<exists>context d0. Add_draft d0 \<in> set ops \<and> drafted E context d0 \<and>
      d = d0\<lparr>df_body := df_body d, df_status := df_status d\<rparr> \<and>
      sc_level (scan E context) \<noteq> Malicious \<and>
      (df_flagged d \<longleftrightarrow> sc_level (scan E context) = Suspicious)) \<and>
    (case r of
      Inl e \<Rightarrow> bbs_store b' = bbs_store b
    | Inr s \<Rightarrow> caps_contains cs POST \<and>
        (\<exists>m. message_verify E m = Inr () \<and> mb_author (msg_body m) = ident i \<and>
          mb_board (msg_body m) = df_target d \<and> mb_subject (msg_body m) = df_subject d \<and>
          mb_handle (msg_body m) = df_agent d \<and>
          (\<forall>tag rest. agent_tag E (df_body d) tag rest \<longrightarrow> mb_body (msg_body m) = trim_start rest) \<and>
          ((\<nexists>tag rest. agent_tag E (df_body d) tag rest) \<longrightarrow> mb_body (msg_body m) = df_body d) \<and>
          sc_level (scan E (df_body d)) \<noteq> Malicious \<and>
          sc_level (scan E (mb_body (msg_body m))) \<noteq> Malicious \<and>
          op_put_message T (bbs_store b) m = Inr (bbs_store b')))"
proof (rule conjI)
  obtain d0 where d0: "Add_draft d0 \<in> set ops" "d = d0\<lparr>df_body := df_body d, df_status := df_status d\<rparr>"
    using draft_run_origin[OF assms(3)] by blast
  obtain inbound target irt agent subject body t where
    reply: "draft_reply E target irt agent subject body inbound t = Inr d0"
    using assms(4) d0(1) by (auto simp: drafted_def)
  have "sc_level (scan E inbound) \<noteq> Malicious" "df_flagged d0 \<longleftrightarrow> sc_level (scan E inbound) = Suspicious"
    using reply by (auto simp: draft_reply_def Let_def draft_new_def split: if_splits)
  moreover have "df_flagged d = df_flagged d0" by (subst d0(2)) simp
  moreover have "drafted E inbound d0" using reply unfolding drafted_def by blast
  ultimately show "\<exists>context d0. Add_draft d0 \<in> set ops \<and> drafted E context d0 \<and>
      d = d0\<lparr>df_body := df_body d, df_status := df_status d\<rparr> \<and>
      sc_level (scan E context) \<noteq> Malicious \<and>
      (df_flagged d \<longleftrightarrow> sc_level (scan E context) = Suspicious)"
    using d0 by blast
next
  let ?text = "strip_agent_preamble E (df_body d)"
  let ?text_ok = "\<lambda>x. (\<forall>tag rest. agent_tag E (df_body d) tag rest \<longrightarrow> x = trim_start rest) \<and>
      ((\<nexists>tag rest. agent_tag E (df_body d) tag rest) \<longrightarrow> x = df_body d)"
  have stripped: "?text_ok ?text" using strip_tagged strip_not_tagged by blast
  show "case r of
      Inl e \<Rightarrow> bbs_store b' = bbs_store b
    | Inr s \<Rightarrow> caps_contains cs POST \<and>
        (\<exists>m. message_verify E m = Inr () \<and> mb_author (msg_body m) = ident i \<and>
          mb_board (msg_body m) = df_target d \<and> mb_subject (msg_body m) = df_subject d \<and>
          mb_handle (msg_body m) = df_agent d \<and>
          (\<forall>tag rest. agent_tag E (df_body d) tag rest \<longrightarrow> mb_body (msg_body m) = trim_start rest) \<and>
          ((\<nexists>tag rest. agent_tag E (df_body d) tag rest) \<longrightarrow> mb_body (msg_body m) = df_body d) \<and>
          sc_level (scan E (df_body d)) \<noteq> Malicious \<and>
          sc_level (scan E (mb_body (msg_body m))) \<noteq> Malicious \<and>
          op_put_message T (bbs_store b) m = Inr (bbs_store b'))"
  proof (cases "sc_level (scan E (df_body d)) = Malicious")
    case True
    with assms(2) show ?thesis by (auto simp: send_draft_def Let_def)
  next
    case False
    with assms(2) have post: "tool_post_message T R E created now b cs i (df_target d) (df_subject d)
        ?text (df_agent d) = (b', r)"
      by (simp add: send_draft_def Let_def)
    have clean: "sc_level (scan E ?text) \<noteq> Malicious"
      using malicious_suffix[OF assms(1) strip_suffix] False by blast
    show ?thesis
    proof (cases r)
      case (Inl e)
      with post show ?thesis by (auto dest: tool_post_Inl_store)
    next
      case (Inr s)
      with post obtain m where m: "msg_body m = \<lparr>mb_board = df_target d, mb_parent = None,
          mb_subject = df_subject d, mb_body = ?text, mb_author = ident i, mb_handle = df_agent d,
          mb_created_at = created, mb_kind = Post\<rparr>" "message_verify E m = Inr ()" "caps_contains cs POST"
          "op_put_message T (bbs_store b) m = Inr (bbs_store b')"
        using tool_post_Inr[of T R E created now b cs i] by metis
      have body: "mb_body (msg_body m) = ?text" and head: "mb_author (msg_body m) = ident i"
          "mb_board (msg_body m) = df_target d" "mb_subject (msg_body m) = df_subject d"
          "mb_handle (msg_body m) = df_agent d"
        by (simp_all add: m(1))
      show ?thesis
        unfolding Inr sum.case
        using head m(2-4) False clean[folded body] stripped[folded body] by blast
    qed
  qed
qed

text \<open>A tagged draft, sent to the open board of the service's witnesses.\<close>

definition demo_tagged :: draft where
  "demo_tagged = draft_new demo_env ''general'' None ''bot'' ''re'' ''[Auto-drafted] hello'' 3 False"

lemma demo_tagged_simps [simp]:
  "df_target demo_tagged = ''general''" "df_body demo_tagged = ''[Auto-drafted] hello''"
  "df_agent demo_tagged = ''bot''" "df_subject demo_tagged = ''re''"
  by (simp_all add: demo_tagged_def draft_new_def)

lemma demo_tagged_strips: "strip_agent_preamble demo_env ''[Auto-drafted] hello'' = ''hello''"
proof -
  have "to_lower demo_env = to_ascii_lowercase" by (simp add: demo_env_def)
  moreover have "(case trim_start ''[Auto-drafted] hello'' of [] \<Rightarrow> False | c # rest \<Rightarrow> c = CHR ''['' \<and>
      split_first (CHR '']'') rest = Some (''Auto-drafted'', '' hello''))"
    "contains (to_ascii_lowercase ''Auto-drafted'') ''auto''" "trim_start '' hello'' = ''hello''"
    by code_simp+
  ultimately show ?thesis
    by (auto simp: strip_agent_preamble_def Let_def split: list.splits)
qed

lemma demo_tagged_clean: "sc_level (scan demo_env ''[Auto-drafted] hello'') = Clean"
  unfolding scan_clean_iff demo_env_def env.select_convs by code_simp

lemma demo_posts:
  assumes "identity_wf demo_env i" "caps_contains cs POST"
  shows "\<exists>b' s. tool_post_message memory_ops mr_report demo_env 3 4 demo_open cs i
      ''general'' subject txt handle = (b', Inr s)"
proof -
  let ?body = "\<lparr>mb_board = ''general'', mb_parent = None, mb_subject = subject, mb_body = txt,
          mb_author = ident i, mb_handle = handle, mb_created_at = 3, mb_kind = Post\<rparr>"
  let ?m = "\<lparr>msg_id = body_id demo_env ?body, msg_body = ?body,
     msg_signature = sign demo_env i (body_signing_bytes demo_env ?body)\<rparr>"
  have sg: "message_sign demo_env i ?body = Inr ?m"
    by (simp add: message_sign_def Let_def)
  have "message_verify demo_env ?m = Inr ()"
    by (rule message_sign_verifies[OF demo_sig_ok assms(1) sg])
  moreover have "\<not> bd_locked demo_board"
    by (simp add: demo_board_def board_new_def)
  ultimately have "snd (svc_post memory_ops mr_report demo_env 4 demo_open cs ?m) = Inr (msg_id ?m)"
    by (simp add: svc_post_def demo_open_store require_cap_def assms(2) mem_defs bt_get_def ok_or_def Let_def)
  then obtain b' where "svc_post memory_ops mr_report demo_env 4 demo_open cs ?m = (b', Inr (msg_id ?m))"
    by (metis prod.collapse)
  then show ?thesis
    unfolding tool_post_message_def sg by (simp add: require_cap_def assms(2))
qed

lemma demo_tag: "agent_tag demo_env ''[Auto-drafted] hello'' ''Auto-drafted'' '' hello''"
proof -
  have "to_lower demo_env = to_ascii_lowercase" by (simp add: demo_env_def)
  moreover have "trim_start ''[Auto-drafted] hello'' = ''['' @ ''Auto-drafted'' @ '']'' @ '' hello''"
    "contains (to_ascii_lowercase ''Auto-drafted'') ''auto''"
    by code_simp+
  ultimately show ?thesis by (simp add: agent_tag_def)
qed

theorem draft_sent_through_guards_witness:
  "\<exists>b' s m. send_draft memory_ops mr_report demo_env 3 4 demo_open caps_default (demo_id 2) demo_tagged =
      (b', Inr s) \<and> message_verify demo_env m = Inr () \<and>
    mb_author (msg_body m) = ident (demo_id 2) \<and> mb_handle (msg_body m) = ''bot'' \<and>
    mb_body (msg_body m) = ''hello'' \<and>
    mem_put_message (bbs_store demo_open) m = Inr (bbs_store b')"
proof -
  have ok: "sc_level (scan demo_env ''[Auto-drafted] hello'') \<noteq> Malicious"
      "sc_level (scan demo_env ''[Auto-drafted] hello'') \<noteq> Suspicious"
    by (simp_all add: demo_tagged_clean)
  then have reply: "draft_reply demo_env ''general'' None ''bot'' ''re'' ''[Auto-drafted] hello'' ''[Auto-drafted] hello'' 3 =
      Inr demo_tagged"
    by (simp add: draft_reply_def Let_def demo_tagged_def)
  have "drafted demo_env ''[Auto-drafted] hello'' demo_tagged"
    unfolding drafted_def by (intro exI) (rule reply)
  then have made: "\<forall>x. Add_draft x \<in> set [Add_draft demo_tagged] \<longrightarrow> (\<exists>context. drafted demo_env context x)"
    by auto
  have queued: "demo_tagged \<in> set (drafts (foldl draft_step draft_queue_new [Add_draft demo_tagged]))"
    by (simp add: draft_add_def draft_queue_new_def)
  obtain b' s where sent: "send_draft memory_ops mr_report demo_env 3 4 demo_open caps_default (demo_id 2)
      demo_tagged = (b', Inr s)"
    using demo_posts[OF demo_id_wf[of 2] demo_caps(3), of "''re''" "strip_agent_preamble demo_env ''[Auto-drafted] hello''"
      "''bot''"] ok by (auto simp: send_draft_def Let_def)
  note sends = draft_sent_through_guards[OF demo_lower_local sent queued made, THEN conjunct2, unfolded sum.case,
      THEN conjunct2]
  have hello: "trim_start '' hello'' = ''hello''" by code_simp
  from sends obtain m where "message_verify demo_env m = Inr () \<and> mb_author (msg_body m) = ident (demo_id 2) \<and>
      mb_handle (msg_body m) = df_agent demo_tagged \<and>
      (\<forall>tag rest. agent_tag demo_env (df_body demo_tagged) tag rest \<longrightarrow> mb_body (msg_body m) = trim_start rest) \<and>
      op_put_message memory_ops (bbs_store demo_open) m = Inr (bbs_store b')"
    by blast
  then have "message_verify demo_env m = Inr ()" "mb_author (msg_body m) = ident (demo_id 2)"
      "mb_handle (msg_body m) = ''bot''" "mb_body (msg_body m) = ''hello''"
      "mem_put_message (bbs_store demo_open) m = Inr (bbs_store b')"
    using demo_tag hello by (auto simp: memory_ops_def)
  with sent show ?thesis by blast
qed

text \<open>
  A tag need not be one of the recognised ones: any leading bracket whose lower case has one of
  the words in it is removed.
\<close>

lemma strip_removes_any_tag: "strip_agent_preamble demo_env ''[Automatic backups failed] see log'' = ''see log''"
proof -
  have "to_lower demo_env = to_ascii_lowercase" by (simp add: demo_env_def)
  moreover have "(case trim_start ''[Automatic backups failed] see log'' of [] \<Rightarrow> False
      | c # rest \<Rightarrow> c = CHR ''['' \<and>
          split_first (CHR '']'') rest = Some (''Automatic backups failed'', '' see log''))"
    "contains (to_ascii_lowercase ''Automatic backups failed'') ''auto''" "trim_start '' see log'' = ''see log''"
    by code_simp+
  ultimately show ?thesis
    by (auto simp: strip_agent_preamble_def Let_def split: list.splits)
qed

end
