(* ===== verification/Budget.thy ===== *)
theory Budget
  imports Float64 BTree_Map
begin

text \<open>
  Budget guardrails (\<open>agentbbs-core/src/budget.rs\<close>): spend per key in double precision,
  operator top-ups of a cap, the reserve check before a costly step, and the status shown.
\<close>

section \<open>Model\<close>

record budget_ledger =
  bl_spent :: "(string, f64) btree"
  bl_bumps :: "(string, f64) btree"

record budget_status =
  bs_key :: string
  bs_spent :: f64
  bs_cap :: f64
  bs_remaining :: f64
  bs_over_budget :: bool
  bs_pct :: f64

definition budget_new :: budget_ledger where
  "budget_new = \<lparr>bl_spent = bt_empty, bl_bumps = bt_empty\<rparr>"

definition budget_spent :: "budget_ledger \<Rightarrow> string \<Rightarrow> f64" where
  "budget_spent l key = unwrap_or 0 (bt_get (bl_spent l) key)"

definition budget_record :: "budget_ledger \<Rightarrow> string \<Rightarrow> f64 \<Rightarrow> budget_ledger" where
  "budget_record l key amount =
     (if f64_is_finite amount \<and> f64_lt 0 amount
      then l\<lparr>bl_spent := bt_insert key (f64_add (unwrap_or 0 (bt_get (bl_spent l) key)) amount) (bl_spent l)\<rparr>
      else l)"

definition bump_cap :: "budget_ledger \<Rightarrow> string \<Rightarrow> f64 \<Rightarrow> budget_ledger" where
  "bump_cap l key amount =
     (if f64_is_finite amount \<and> f64_lt 0 amount
      then l\<lparr>bl_bumps := bt_insert key (f64_add (unwrap_or 0 (bt_get (bl_bumps l) key)) amount) (bl_bumps l)\<rparr>
      else l)"

definition budget_bump :: "budget_ledger \<Rightarrow> string \<Rightarrow> f64" where
  "budget_bump l key = unwrap_or 0 (bt_get (bl_bumps l) key)"

definition reserve :: "budget_ledger \<Rightarrow> string \<Rightarrow> f64 \<Rightarrow> f64 \<Rightarrow> bool" where
  "reserve l key amount cap \<longleftrightarrow> f64_le (f64_add (budget_spent l key) amount) cap"

definition budget_status_of :: "budget_ledger \<Rightarrow> string \<Rightarrow> f64 \<Rightarrow> budget_status" where
  "budget_status_of l key cap =
     (let spent = budget_spent l key;
          cap = f64_add cap (budget_bump l key)
      in \<lparr>bs_key = key, bs_spent = spent, bs_cap = cap, bs_remaining = f64_max (f64_sub cap spent) 0,
          bs_over_budget = (f64_le cap spent \<and> f64_lt 0 cap),
          bs_pct = (if f64_lt 0 cap then f64_div spent cap else 0)\<rparr>)"

section \<open>Runs\<close>

text \<open>
  What callers do to the ledger: report spend, raise a cap, and reserve before they report
  (\<open>BCommit\<close> reports only an amount the check accepts).
\<close>

datatype budget_op =
    BRecord string f64
  | BBump string f64
  | BCommit string f64 f64

fun budget_step :: "budget_ledger \<Rightarrow> budget_op \<Rightarrow> budget_ledger" where
  "budget_step l (BRecord k a) = budget_record l k a"
| "budget_step l (BBump k a) = bump_cap l k a"
| "budget_step l (BCommit k a cap) = (if reserve l k a cap then budget_record l k a else l)"

definition budget_wf :: "budget_ledger \<Rightarrow> bool" where
  "budget_wf l \<longleftrightarrow> bt_wf (bl_spent l) \<and> bt_wf (bl_bumps l) \<and>
     (\<forall>k. f64_nonneg (budget_spent l k) \<and> f64_nonneg (budget_bump l k))"

lemma budget_wf_new: "budget_wf budget_new"
  by (simp add: budget_wf_def budget_new_def budget_spent_def budget_bump_def bt_simps)

lemma budget_record_spent:
  assumes "budget_wf l"
  shows "budget_spent (budget_record l k a) j =
      (if j = k \<and> f64_is_finite a \<and> f64_lt 0 a then f64_add (budget_spent l k) a else budget_spent l j)"
    "budget_bump (budget_record l k a) j = budget_bump l j"
  using assms by (auto simp: budget_record_def budget_spent_def budget_bump_def budget_wf_def bt_simps)

lemma bump_cap_bump:
  assumes "budget_wf l"
  shows "budget_bump (bump_cap l k a) j =
      (if j = k \<and> f64_is_finite a \<and> f64_lt 0 a then f64_add (budget_bump l k) a else budget_bump l j)"
    "budget_spent (bump_cap l k a) j = budget_spent l j"
  using assms by (auto simp: bump_cap_def budget_spent_def budget_bump_def budget_wf_def bt_simps)

lemma budget_record_wf [inv_intros]: "budget_wf l \<Longrightarrow> budget_wf (budget_record l k a)"
  using budget_record_spent[of l k a] zero_less_nonneg[of a] add_nonneg
  by (auto simp: budget_wf_def) (auto simp: budget_record_def bt_simps)

lemma bump_cap_wf [inv_intros]: "budget_wf l \<Longrightarrow> budget_wf (bump_cap l k a)"
  using bump_cap_bump[of l k a] zero_less_nonneg[of a] add_nonneg
  by (auto simp: budget_wf_def) (auto simp: bump_cap_def bt_simps)

lemma budget_step_wf: "budget_wf l \<Longrightarrow> budget_wf (budget_step l op)"
  by (cases op) (simp_all add: inv_intros)

lemma budget_run_wf: "budget_wf l \<Longrightarrow> budget_wf (foldl budget_step l ops)"
  by (induction ops arbitrary: l) (simp_all add: budget_step_wf)

text \<open>Spend and top-ups only go up.\<close>

lemma budget_step_up:
  assumes "budget_wf l"
  shows "f64_le (budget_spent l j) (budget_spent (budget_step l op) j) \<and>
    f64_le (budget_bump l j) (budget_bump (budget_step l op) j)"
proof -
  have nonneg: "f64_nonneg (budget_spent l j)" "f64_nonneg (budget_bump l j)"
    using assms by (simp_all add: budget_wf_def)
  have same: "f64_le (budget_spent l j) (budget_spent l j)" "f64_le (budget_bump l j) (budget_bump l j)"
    using nonneg by (simp_all add: nonneg_le_iff)
  have rec: "f64_le (budget_spent l j) (budget_spent (budget_record l k a) j)" for k a
    using same(1) add_ge[OF nonneg(1)] zero_less_nonneg[of a]
    by (auto simp add: budget_record_spent(1)[OF assms])
  have bmp: "f64_le (budget_bump l j) (budget_bump (bump_cap l k a) j)" for k a
    using same(2) add_ge[OF nonneg(2)] zero_less_nonneg[of a]
    by (auto simp add: bump_cap_bump(1)[OF assms])
  show ?thesis
    using same rec bmp
    by (cases op) (simp_all add: budget_record_spent(2)[OF assms] bump_cap_bump(2)[OF assms])
qed

lemma budget_run_up:
  assumes "budget_wf l"
  shows "f64_le (budget_spent l j) (budget_spent (foldl budget_step l ops) j) \<and>
    f64_le (budget_bump l j) (budget_bump (foldl budget_step l ops) j)"
  using assms
proof (induction ops arbitrary: l)
  case Nil
  then show ?case by (simp add: budget_wf_def nonneg_le_iff)
next
  case (Cons op ops)
  from Cons.IH[OF budget_step_wf[OF Cons.prems]] budget_step_up[OF Cons.prems] show ?case
    by (auto intro: f64_le_trans)
qed

text \<open>Every report of spend on a key goes through a reserve against a cap of at most \<open>cap\<close>.\<close>

fun reserved_under :: "f64 \<Rightarrow> string \<Rightarrow> budget_op \<Rightarrow> bool" where
  "reserved_under cap k (BRecord k' a) = (k' \<noteq> k)"
| "reserved_under cap k (BBump k' a) = True"
| "reserved_under cap k (BCommit k' a c) = (k' = k \<longrightarrow> f64_le c cap)"

lemma reserved_step:
  assumes "budget_wf l" "reserved_under cap k op" "f64_le (budget_spent l k) cap"
  shows "f64_le (budget_spent (budget_step l op) k) cap"
  using assms
  by (cases op) (auto simp: budget_record_spent bump_cap_bump reserve_def intro: f64_le_trans)

lemma reserved_run:
  assumes "budget_wf l" "list_all (reserved_under cap k) ops" "f64_le (budget_spent l k) cap"
  shows "f64_le (budget_spent (foldl budget_step l ops) k) cap"
  using assms
  by (induction ops arbitrary: l) (simp_all add: budget_step_wf reserved_step)

section \<open>Properties\<close>

text \<open>
  Property C38. The guardrail holds in floating point, roundings included: whatever else happens
  to a ledger, spend on a key and the top-up of its cap never go down; and if every report of
  spend on a key is an amount that a reserve against a cap of at most \<open>cap\<close> accepted, its
  spend is at most \<open>cap\<close>, hence within the cap the status shows, whose remainder is never
  negative.
\<close>

theorem budget_guardrail:
  assumes "f64_nonneg cap" "list_all (reserved_under cap k) ops"
  shows "let l = foldl budget_step budget_new ops; later = foldl budget_step l ops';
      st = budget_status_of l k cap in
    f64_le (budget_spent l k) cap \<and> f64_le (bs_spent st) (bs_cap st) \<and> f64_le 0 (bs_remaining st) \<and>
    f64_le (budget_spent l k) (budget_spent later k) \<and> f64_le (budget_bump l k) (budget_bump later k)"
proof -
  let ?l = "foldl budget_step budget_new ops"
  have wf: "budget_wf ?l" by (rule budget_run_wf[OF budget_wf_new])
  then have bump: "f64_nonneg (budget_bump ?l k)" by (simp add: budget_wf_def)
  have "f64_le (budget_spent budget_new k) cap"
    using assms(1) by (simp add: budget_spent_def budget_new_def bt_simps zero_le_nonneg)
  then have under: "f64_le (budget_spent ?l k) cap"
    using reserved_run[OF budget_wf_new assms(2)] by blast
  moreover have "f64_le (budget_spent ?l k) (f64_add cap (budget_bump ?l k))"
    using under add_ge[OF assms(1) bump] by (rule f64_le_trans)
  moreover have "f64_le 0 (f64_max x 0)" for x
    by (auto simp: f64_max_def f64_le_def)
  ultimately show ?thesis
    using budget_run_up[OF wf, of k ops'] by (simp add: Let_def budget_status_of_def)
qed

text \<open>An eighth of a dollar under a cap of a quarter.\<close>

theorem budget_guardrail_witness:
  "let l = foldl budget_step budget_new [BCommit ''p'' 0x3FC0000000000000 0x3FD0000000000000] in
    budget_spent l ''p'' = 0x3FC0000000000000 \<and> f64_le (budget_spent l ''p'') 0x3FD0000000000000 \<and>
    \<not> reserve l ''p'' 0x3FD0000000000000 0x3FC0000000000000"
proof -
  have eighth: "f64_nonneg 0x3FC0000000000000" "f64_is_finite 0x3FC0000000000000" "f64_lt 0 0x3FC0000000000000"
    and quarter: "f64_nonneg 0x3FD0000000000000" "f64_le 0x3FC0000000000000 0x3FD0000000000000"
    and above: "\<not> f64_le 0x3FD0000000000000 0x3FC0000000000000"
    by (simp_all add: f64_bits)
  let ?ops = "[BCommit ''p'' 0x3FC0000000000000 0x3FD0000000000000]"
  have reserved: "list_all (reserved_under 0x3FD0000000000000 ''p'') ?ops"
    using f64_le_refl quarter(1) by (simp add: f64_nonneg_def)
  have spent: "budget_spent (foldl budget_step budget_new ?ops) ''p'' = 0x3FC0000000000000"
    using eighth quarter add_zero[OF eighth(1)]
    by (simp add: reserve_def budget_new_def budget_spent_def budget_record_def bt_simps bt_get_def)
  have "\<not> reserve (foldl budget_step budget_new ?ops) ''p'' 0x3FD0000000000000 0x3FC0000000000000"
    using add_ge2[OF eighth(1) quarter(1)] above unfolding reserve_def spent by (blast intro: f64_le_trans)
  moreover have "f64_le (budget_spent (foldl budget_step budget_new ?ops) ''p'') 0x3FD0000000000000"
    using budget_guardrail[OF quarter(1) reserved, of "[]"] unfolding Let_def by (rule conjunct1)
  ultimately show ?thesis using spent unfolding Let_def by blast
qed

end
