(* ===== verification/Reputation.thy ===== *)
theory Reputation
  imports Float64 Rotation
begin

text \<open>
  Track records (\<open>agentbbs-core/src/reputation.rs\<close>): weighted outcomes per agent, the Wilson
  lower bound of the success rate in double precision, standing through key rotation, and the
  ranking.
\<close>

section \<open>Model\<close>

record outcome =
  oc_agent :: agent_id
  oc_success :: bool
  oc_weight :: f64
  oc_source :: string

record reputation_score =
  rs_agent :: string
  rs_successes :: f64
  rs_total :: f64
  rs_rate :: f64
  rs_score :: f64

text \<open>The literals \<open>1.96\<close>, \<open>2.0\<close> and \<open>4.0\<close>.\<close>

definition z95 :: f64 where
  "z95 = 0x3FFF5C28F5C28F5C"

definition f64_two :: f64 where
  "f64_two = 0x4000000000000000"

definition f64_four :: f64 where
  "f64_four = 0x4010000000000000"

definition wilson_lower_bound :: "f64 \<Rightarrow> f64 \<Rightarrow> f64" where
  "wilson_lower_bound successes n =
     (if f64_le n 0 then 0
      else
        let z = z95;
            z2 = f64_mul z z;
            p = f64_clamp (f64_div successes n) 0 f64_one;
            denom = f64_add f64_one (f64_div z2 n);
            centre = f64_add p (f64_div z2 (f64_mul f64_two n));
            margin = f64_mul z (f64_sqrt (f64_div
              (f64_add (f64_mul p (f64_sub f64_one p)) (f64_div z2 (f64_mul f64_four n))) n))
        in f64_max (f64_div (f64_sub centre margin) denom) 0)"

record reputation_ledger =
  rl_records :: "outcome list"

definition reputation_new :: reputation_ledger where
  "reputation_new = \<lparr>rl_records = []\<rparr>"

definition reputation_record :: "reputation_ledger \<Rightarrow> outcome \<Rightarrow> reputation_ledger" where
  "reputation_record l oc =
     (if f64_lt 0 (oc_weight oc) \<and> f64_is_finite (oc_weight oc)
      then l\<lparr>rl_records := rl_records l @ [oc]\<rparr> else l)"

text \<open>The loop of \<open>score\<close>: the pair \<open>(successes, total)\<close> over the agent's outcomes.\<close>

definition tally :: "outcome list \<Rightarrow> f64 \<times> f64" where
  "tally rs = foldl (\<lambda>(successes, sum) r.
     (if oc_success r then f64_add successes (oc_weight r) else successes, f64_add sum (oc_weight r)))
     (0, 0) rs"

definition score_of :: "string \<Rightarrow> f64 \<times> f64 \<Rightarrow> reputation_score" where
  "score_of hex t =
     (let (successes, sum) = t;
          rate = (if f64_lt 0 sum then f64_div successes sum else 0)
      in \<lparr>rs_agent = hex, rs_successes = successes, rs_total = sum, rs_rate = rate,
          rs_score = wilson_lower_bound successes sum\<rparr>)"

definition rep_score :: "env \<Rightarrow> reputation_ledger \<Rightarrow> agent_id \<Rightarrow> reputation_score" where
  "rep_score E l agent =
     score_of (to_hex E agent) (tally (filter (\<lambda>r. oc_agent r = agent) (rl_records l)))"

definition rep_score_via :: "env \<Rightarrow> reputation_ledger \<Rightarrow> agent_id \<Rightarrow> rotation_chain \<Rightarrow> reputation_score" where
  "rep_score_via E l agent chain =
     (let current = resolve E chain agent
      in score_of (to_hex E current)
        (tally (filter (\<lambda>r. resolve E chain (oc_agent r) = current) (rl_records l))))"

fun observed_agents :: "outcome list \<Rightarrow> agent_id list \<Rightarrow> agent_id list" where
  "observed_agents [] agents = agents"
| "observed_agents (r # rs) agents =
     observed_agents rs (if oc_agent r \<in> set agents then agents else agents @ [oc_agent r])"

definition rank_before :: "reputation_score \<Rightarrow> reputation_score \<Rightarrow> bool" where
  "rank_before a b \<longleftrightarrow> desc_then (rs_score a) (rs_score b)
     (desc_then (rs_total a) (rs_total b) (rs_agent a \<le> rs_agent b))"

definition rep_ranking :: "env \<Rightarrow> reputation_ledger \<Rightarrow> reputation_score list" where
  "rep_ranking E l =
     sort_by rank_before (map (rep_score E l) (observed_agents (rl_records l) []))"

section \<open>The Wilson bound stays between 0 and 1\<close>

lemma literals: "f64_nonneg z95" "f64_nonneg f64_two" "f64_nonneg f64_four" "f64_is_finite z95"
    "f64_is_finite f64_two" "f64_is_finite f64_four" "0 < f64_mag z95"
  by (simp_all add: z95_def f64_two_def f64_four_def f64_bits)

lemma two_four: "one_mag \<le> f64_mag f64_two" "one_mag \<le> f64_mag f64_four" "f64_mag z95 \<le> f64_mag f64_two"
  by (simp_all add: one_mag_def f64_two_def f64_four_def z95_def f64_bits)

lemma z2: "f64_nonneg (f64_mul z95 z95)" "f64_is_finite (f64_mul z95 z95)"
proof -
  have two: "f64_mag f64_two = one_mag + 1 * hidden" by (simp add: f64_two_def f64_bits one_mag_def)
  have fin: "\<not> f64_is_nan z95" "\<not> f64_is_inf z95" "\<not> f64_neg z95"
    using literals by (simp_all add: f64_nonneg_def f64_is_finite_def f64_is_inf_def f64_is_nan_def)
  have "units (f64_mag z95) \<le> units (f64_mag f64_two)"
    using literals(2) two_four(3) by (intro units_mono) simp_all
  then have le: "units (f64_mag z95) \<le> 2 * unit_scale" unfolding two units_power by simp
  have "round_mag (units (f64_mag z95) * units (f64_mag z95)) unit_scale \<le>
      round_mag (units (one_mag + 2 * hidden) * unit_scale) unit_scale"
    unfolding units_power using mult_le_mono[OF le le] by (intro round_mag_mono) simp_all
  also have "\<dots> = one_mag + 2 * hidden"
    by (rule round_mag_units) (simp_all add: one_mag_def inf_mag_def)
  also have "\<dots> < inf_mag" by (simp add: one_mag_def inf_mag_def)
  finally show "f64_nonneg (f64_mul z95 z95)" "f64_is_finite (f64_mul z95 z95)"
    using fin round_mag_le_inf by (simp_all add: f64_mul_def f64_is_finite_def)
qed

text \<open>The rate is a NaN (of two infinities) or clamped to the unit interval.\<close>

lemma clamp_unit:
  assumes "f64_is_nan x \<or> f64_nonneg x"
  shows "f64_is_nan (f64_clamp x 0 f64_one) \<or>
    f64_nonneg (f64_clamp x 0 f64_one) \<and> f64_le (f64_clamp x 0 f64_one) f64_one"
proof -
  have one: "f64_key f64_one = int one_mag" by (simp add: f64_key_def)
  show ?thesis using one assms
    by (auto simp: f64_clamp_def f64_lt_def f64_le_def f64_nonneg_def f64_key_def not_less split: if_splits)
qed

lemma div_nan_or_nonneg:
  assumes "f64_nonneg x" "f64_nonneg y" "0 < f64_mag y"
  shows "f64_is_nan (f64_div x y) \<or> f64_nonneg (f64_div x y)"
proof (cases "f64_is_inf x")
  case True
  with assms show ?thesis by (auto simp: f64_div_def f64_nonneg_def f64_nan_of)
next
  case False
  have "f64_mag x \<le> inf_mag" using assms(1) by simp
  with False have "f64_is_finite x" unfolding f64_is_inf_def f64_is_finite_def by linarith
  with assms show ?thesis using div_nonneg(1) by blast
qed

lemma wilson_unit:
  assumes "f64_nonneg s" "f64_nonneg n"
  shows "f64_le 0 (wilson_lower_bound s n) \<and> f64_le (wilson_lower_bound s n) f64_one"
proof (cases "f64_mag n = 0")
  case True
  then have "f64_le n 0" using assms(2) by (simp add: nonneg_le_iff)
  then show ?thesis using nonneg_le_iff[of 0 f64_one] by (simp add: wilson_lower_bound_def nonneg_le_iff)
next
  case False
  then have pos: "0 < f64_mag n" by simp
  let ?z2 = "f64_mul z95 z95"
  let ?p = "f64_clamp (f64_div s n) 0 f64_one"
  let ?denom = "f64_add f64_one (f64_div ?z2 n)"
  let ?centre = "f64_add ?p (f64_div ?z2 (f64_mul f64_two n))"
  let ?margin = "f64_mul z95 (f64_sqrt (f64_div
      (f64_add (f64_mul ?p (f64_sub f64_one ?p)) (f64_div ?z2 (f64_mul f64_four n))) n))"
  let ?q = "f64_div (f64_sub ?centre ?margin) ?denom"
  have val: "wilson_lower_bound s n = f64_max ?q 0"
    using pos assms(2) by (simp add: wilson_lower_bound_def Let_def nonneg_le_iff)
  have twice: "f64_nonneg (f64_mul f64_two n)" "f64_mag n \<le> f64_mag (f64_mul f64_two n)"
    using mul_ge[OF literals(2,5) two_four(1) assms(2)] False by auto
  have b: "f64_nonneg (f64_div ?z2 n)" by (rule div_nonneg(1)[OF z2 assms(2) pos])
  have c: "f64_nonneg (f64_div ?z2 (f64_mul f64_two n))"
    using twice pos by (intro div_nonneg(1)[OF z2]) simp_all
  have "f64_mag (f64_div ?z2 (f64_mul f64_two n)) \<le> f64_mag (f64_div ?z2 n)"
    by (rule div_antimono[OF z2 assms(2) pos twice])
  then have cb: "f64_le (f64_div ?z2 (f64_mul f64_two n)) (f64_div ?z2 n)"
    using b c by (simp add: nonneg_le_iff)
  have denom: "f64_nonneg ?denom" using add_nonneg[OF f64_one(3) b] by simp
  have "f64_mag f64_one \<le> f64_mag ?denom"
    using add_ge[OF f64_one(3) b] denom by (simp add: nonneg_le_iff)
  then have dpos: "0 < f64_mag ?denom" using one_mag_le(3) by simp
  have "nan_or_le ?q f64_one"
  proof (cases "f64_is_nan ?p")
    case True
    then have "f64_is_nan ?q" by (simp add: add_nan f64_sub_def f64_div_def)
    then show ?thesis by (simp add: nan_or_le_def)
  next
    case False
    then have p: "f64_nonneg ?p" "f64_le ?p f64_one"
      using clamp_unit[OF div_nan_or_nonneg[OF assms pos]] by simp_all
    have centre: "f64_nonneg ?centre" using add_nonneg[OF p(1) c] by simp
    have "f64_le ?centre ?denom" by (rule add_mono[OF p(1) c f64_one(3) b p(2) cb])
    moreover have "f64_safe ?margin" using literals(1) by (intro mul_safe sqrt_safe) simp
    ultimately have "nan_or_le (f64_sub ?centre ?margin) ?denom"
      using sub_le[OF centre] unfolding nan_or_le_def by (blast intro: f64_le_trans)
    then show ?thesis by (rule div_le_one[OF _ denom dpos])
  qed
  then have "f64_is_nan ?q \<or> f64_le ?q f64_one" unfolding nan_or_le_def .
  moreover have "f64_key f64_one = int one_mag" by (simp add: f64_key_def)
  ultimately show ?thesis unfolding val by (auto simp: f64_max_def f64_le_def)
qed

section \<open>The ledger\<close>

text \<open>A ledger the program built holds positive finite weights only.\<close>

definition weights_ok :: "outcome list \<Rightarrow> bool" where
  "weights_ok rs \<longleftrightarrow> list_all (\<lambda>r. f64_lt 0 (oc_weight r) \<and> f64_is_finite (oc_weight r)) rs"

definition ledger_of :: "outcome list \<Rightarrow> reputation_ledger" where
  "ledger_of ocs = foldl reputation_record reputation_new ocs"

lemma ledger_records:
  "rl_records (ledger_of ocs) = filter (\<lambda>r. f64_lt 0 (oc_weight r) \<and> f64_is_finite (oc_weight r)) ocs"
  by (induction ocs rule: rev_induct) (simp_all add: ledger_of_def reputation_new_def reputation_record_def)

lemma ledger_weights_ok: "weights_ok (rl_records (ledger_of ocs))"
  by (simp add: ledger_records weights_ok_def list_all_iff)

lemma weights_ok_filter: "weights_ok rs \<Longrightarrow> weights_ok (filter P rs)"
  by (simp add: weights_ok_def list_all_iff)

lemma tally_bounds:
  assumes "weights_ok rs"
  shows "f64_nonneg (fst (tally rs)) \<and> f64_nonneg (snd (tally rs)) \<and> f64_le (fst (tally rs)) (snd (tally rs))"
  using assms
proof (induction rs rule: rev_induct)
  case Nil
  then show ?case by (simp add: tally_def nonneg_le_iff)
next
  case (snoc r rs)
  then have ih: "f64_nonneg (fst (tally rs))" "f64_nonneg (snd (tally rs))" "f64_le (fst (tally rs)) (snd (tally rs))"
    and w: "f64_nonneg (oc_weight r)"
    using zero_less_nonneg by (auto simp: weights_ok_def)
  have step: "tally (rs @ [r]) = (if oc_success r then f64_add (fst (tally rs)) (oc_weight r) else fst (tally rs),
      f64_add (snd (tally rs)) (oc_weight r))"
    by (simp add: tally_def split: prod.split)
  have "f64_le (f64_add (fst (tally rs)) (oc_weight r)) (f64_add (snd (tally rs)) (oc_weight r))"
    using ih w by (intro add_mono) (simp_all add: nonneg_le_iff)
  moreover have "f64_le (fst (tally rs)) (f64_add (snd (tally rs)) (oc_weight r))"
    using ih(3) add_ge[OF ih(2) w] by (rule f64_le_trans)
  ultimately show ?case using add_nonneg[OF ih(1) w] add_nonneg[OF ih(2) w] ih by (simp add: step)
qed

text \<open>What holds of every score of such a tally.\<close>

definition score_sound :: "reputation_score \<Rightarrow> bool" where
  "score_sound s \<longleftrightarrow> f64_le 0 (rs_score s) \<and> f64_le (rs_score s) f64_one \<and>
     f64_le 0 (rs_successes s) \<and> f64_le (rs_successes s) (rs_total s)"

lemma score_of_sound: "weights_ok rs \<Longrightarrow> score_sound (score_of hex (tally rs))"
  using tally_bounds[of rs] wilson_unit[of "fst (tally rs)" "snd (tally rs)"]
  by (cases "tally rs") (simp add: score_of_def score_sound_def zero_le_nonneg)

lemma score_of_rate:
  assumes "weights_ok rs" "f64_is_finite (snd (tally rs))"
  shows "f64_le 0 (rs_rate (score_of hex (tally rs))) \<and> f64_le (rs_rate (score_of hex (tally rs))) f64_one"
proof -
  obtain a b where t: "tally rs = (a, b)" by (rule prod.exhaust)
  with tally_bounds[OF assms(1)] have ab: "f64_nonneg a" "f64_nonneg b" "f64_le a b" by simp_all
  show ?thesis
  proof (cases "f64_lt 0 b")
    case False
    then show ?thesis by (simp add: score_of_def t zero_le_nonneg)
  next
    case True
    then have pos: "0 < f64_mag b" using zero_less_nonneg by blast
    have "f64_mag a \<le> f64_mag b" using ab by (simp add: nonneg_le_iff)
    with assms(2) t have fin: "f64_is_finite a" by (simp add: f64_is_finite_def)
    have q: "f64_nonneg (f64_div a b)" by (rule div_nonneg(1)[OF ab(1) fin ab(2) pos])
    have "nan_or_le (f64_div a b) f64_one"
      using ab(3) by (intro div_le_one[OF _ ab(2) pos]) (simp add: nan_or_le_def)
    with q True show ?thesis by (simp add: score_of_def t nan_or_le_def f64_nonneg_def zero_le_nonneg)
  qed
qed

section \<open>The ranking\<close>

lemma observed_set: "set (observed_agents rs as) = oc_agent ` set rs \<union> set as"
  by (induction rs as rule: observed_agents.induct) auto

lemma observed_distinct: "distinct as \<Longrightarrow> distinct (observed_agents rs as)"
  by (induction rs as rule: observed_agents.induct) auto

lemma rank_before_key:
  assumes "score_sound a" "score_sound b"
  shows "rank_before a b \<longleftrightarrow>
    (let p = f64_key (rs_score a); q = f64_key (rs_score b); s = f64_key (rs_total a); t = f64_key (rs_total b)
     in q < p \<or> q = p \<and> (t < s \<or> t = s \<and> rs_agent a \<le> rs_agent b))"
  using assms
  by (auto simp: rank_before_def desc_then_def score_sound_def f64_le_def f64_lt_def Let_def)

lemma rank_before_total: "(\<And>a. a \<in> A \<Longrightarrow> score_sound a) \<Longrightarrow> total_on_set A rank_before"
proof -
  assume sound: "\<And>a. a \<in> A \<Longrightarrow> score_sound a"
  show ?thesis
    unfolding total_on_set_def
    by (auto simp: rank_before_key sound Let_def)
qed

lemma rank_before_hex: "rank_before a b \<Longrightarrow> rank_before b a \<Longrightarrow> score_sound a \<Longrightarrow> score_sound b \<Longrightarrow>
    rs_agent a = rs_agent b"
  by (auto simp: rank_before_key Let_def)

lemma rep_score_sound: "score_sound (rep_score E (ledger_of ocs) a)"
  unfolding rep_score_def by (intro score_of_sound weights_ok_filter ledger_weights_ok)

section \<open>Properties\<close>

text \<open>
  A score is a probability and no part of it is worth more than the whole, in
  floating point: for every ledger the program can build, the ranking score lies between 0 and
  1, and the weighted successes between 0 and the weighted sum of all outcomes; while that sum
  is finite the raw rate lies between 0 and 1; and an agent nothing was recorded of scores 0.
\<close>

theorem reputation_scores_are_rates:
  fixes E agent
  defines "s \<equiv> \<lambda>l. rep_score E l agent"
  assumes "l = ledger_of ocs" "f64_is_finite (rs_total (s l))"
  shows "f64_le 0 (rs_score (s l)) \<and> f64_le (rs_score (s l)) f64_one \<and>
    f64_le 0 (rs_successes (s l)) \<and> f64_le (rs_successes (s l)) (rs_total (s l)) \<and>
    f64_le 0 (rs_rate (s l)) \<and> f64_le (rs_rate (s l)) f64_one \<and>
    rs_total (s (ledger_of (filter (\<lambda>r. oc_agent r \<noteq> agent) ocs))) = 0 \<and>
    rs_score (s (ledger_of (filter (\<lambda>r. oc_agent r \<noteq> agent) ocs))) = 0"
proof -
  let ?rs = "filter (\<lambda>r. oc_agent r = agent) (rl_records l)"
  have w: "weights_ok ?rs" unfolding assms(2) by (intro weights_ok_filter ledger_weights_ok)
  have sl: "s l = score_of (to_hex E agent) (tally ?rs)" by (simp add: s_def rep_score_def)
  have "snd (tally ?rs) = rs_total (s l)" by (cases "tally ?rs") (simp add: sl score_of_def)
  then have rate: "f64_le 0 (rs_rate (s l)) \<and> f64_le (rs_rate (s l)) f64_one"
    using assms(3) unfolding sl by (intro score_of_rate[OF w]) simp
  have "filter (\<lambda>r. oc_agent r = agent) (rl_records (ledger_of (filter (\<lambda>r. oc_agent r \<noteq> agent) ocs))) = []"
    by (simp add: ledger_records filter_empty_conv)
  then have "s (ledger_of (filter (\<lambda>r. oc_agent r \<noteq> agent) ocs)) = score_of (to_hex E agent) (0, 0)"
    by (simp add: s_def rep_score_def tally_def)
  moreover have "f64_le 0 0" by (simp add: nonneg_le_iff)
  ultimately show ?thesis
    using rate score_of_sound[OF w, of "to_hex E agent"]
    by (simp add: sl score_sound_def score_of_def wilson_lower_bound_def)
qed

text \<open>One failure of weight 1.\<close>

definition demo_failure :: outcome where
  "demo_failure = \<lparr>oc_agent = ident (demo_id 1), oc_success = False, oc_weight = f64_one, oc_source = ''pod''\<rparr>"

lemma one_positive: "f64_lt 0 f64_one"
  using one_mag_le(3) by (simp add: f64_lt_def f64_key_def)

theorem reputation_scores_are_rates_witness:
  "rs_total (rep_score demo_env (ledger_of [demo_failure]) (ident (demo_id 1))) = f64_one \<and>
   f64_le (rs_score (rep_score demo_env (ledger_of [demo_failure]) (ident (demo_id 1)))) f64_one"
proof -
  have "tally [demo_failure] = (0, f64_one)"
    by (simp add: tally_def demo_failure_def add_zero)
  then have tot: "rs_total (rep_score demo_env (ledger_of [demo_failure]) (ident (demo_id 1))) = f64_one"
    using one_positive by (simp add: rep_score_def ledger_records score_of_def demo_failure_def)
  with reputation_scores_are_rates[where E = demo_env and agent = "ident (demo_id 1)", OF refl, of "[demo_failure]"]
  show ?thesis by simp
qed

text \<open>
  The ranking lists every agent with a recorded outcome, and each once, and it is
  ordered by score, then by recorded weight, then by identifier: of two places, the earlier has
  the higher score, or the same score and the larger total, or both the same and the smaller
  identifier.
\<close>

theorem ranking_is_total_order:
  assumes "hex_ok E" "l = ledger_of ocs"
  shows "distinct (map rs_agent (rep_ranking E l)) \<and>
    set (rep_ranking E l) = rep_score E l ` oc_agent ` set (rl_records l) \<and>
    sorted_wrt (\<lambda>a b. f64_lt (rs_score b) (rs_score a) \<or> f64_eq (rs_score b) (rs_score a) \<and>
        (f64_lt (rs_total b) (rs_total a) \<or> f64_eq (rs_total b) (rs_total a) \<and> rs_agent a < rs_agent b))
      (rep_ranking E l)"
proof -
  let ?scores = "map (rep_score E l) (observed_agents (rl_records l) [])"
  have sound: "score_sound a" if "a \<in> set ?scores" for a
    using that rep_score_sound assms(2) by auto
  have "rs_agent \<circ> rep_score E l = to_hex E"
    by (rule ext) (simp add: rep_score_def score_of_def split: prod.splits)
  moreover have "inj (to_hex E)" using assms(1) by (simp add: inj_def to_hex_inj)
  ultimately have "distinct (map rs_agent ?scores)"
    by (simp add: distinct_map observed_distinct inj_on_def inj_def)
  then have dist: "distinct (map rs_agent (rep_ranking E l))"
    unfolding rep_ranking_def by (metis mset_eq_imp_distinct_iff mset_map mset_sort_by)
  have sorted: "sorted_wrt rank_before (rep_ranking E l)"
    unfolding rep_ranking_def by (intro sorted_sort_by rank_before_total sound)
  have "f64_lt (rs_score b) (rs_score a) \<or> f64_eq (rs_score b) (rs_score a) \<and>
        (f64_lt (rs_total b) (rs_total a) \<or> f64_eq (rs_total b) (rs_total a) \<and> rs_agent a < rs_agent b)"
    if "i < j" "j < length (rep_ranking E l)" "a = rep_ranking E l ! i" "b = rep_ranking E l ! j" for i j a b
  proof -
    have "a \<in> set ?scores" "b \<in> set ?scores"
      using that nth_mem[of i "rep_ranking E l"] nth_mem[of j "rep_ranking E l"]
      unfolding rep_ranking_def set_sort_by by simp_all
    then have ab: "score_sound a" "score_sound b" using sound by blast+
    have "rs_agent a \<noteq> rs_agent b"
      using dist that by (simp add: distinct_conv_nth)
    moreover have "rank_before a b" using sorted that by (simp add: sorted_wrt_iff_nth_less)
    ultimately show ?thesis using ab
      by (auto simp: rank_before_key Let_def score_sound_def f64_le_def f64_lt_def f64_eq_def)
  qed
  then have "sorted_wrt (\<lambda>a b. f64_lt (rs_score b) (rs_score a) \<or> f64_eq (rs_score b) (rs_score a) \<and>
        (f64_lt (rs_total b) (rs_total a) \<or> f64_eq (rs_total b) (rs_total a) \<and> rs_agent a < rs_agent b))
      (rep_ranking E l)"
    unfolding sorted_wrt_iff_nth_less by blast
  with dist show ?thesis by (simp add: rep_ranking_def observed_set)
qed

theorem ranking_is_total_order_witness:
  "set (rep_ranking demo_env (ledger_of [demo_failure])) =
    {rep_score demo_env (ledger_of [demo_failure]) (ident (demo_id 1))}"
  using ranking_is_total_order[OF demo_hex_ok refl, of "[demo_failure]"] one_positive
  by (simp add: ledger_records demo_failure_def)

text \<open>
  Standing survives rotation: the score through a chain is the score in the ledger whose
  outcomes have been moved to the keys their agents rotated to.
\<close>

lemma score_via_is_score_of_current:
  "rep_score_via E l agent chain =
    rep_score E (l\<lparr>rl_records := map (\<lambda>r. r\<lparr>oc_agent := resolve E chain (oc_agent r)\<rparr>) (rl_records l)\<rparr>)
      (resolve E chain agent)"
proof -
  have "tally (map (\<lambda>r. r\<lparr>oc_agent := f r\<rparr>) rs) = tally rs" for f rs
    by (induction rs rule: rev_induct) (simp_all add: tally_def split: prod.splits)
  then show ?thesis
    by (simp add: rep_score_via_def rep_score_def Let_def filter_map comp_def)
qed

end
