(* ===== verification/Web_Agents.thy ===== *)
theory Web_Agents
  imports Hash_Map Identity
begin

text \<open>
  The signing identities the web server keeps for its own agents, by handle
  (\<open>AppState::agent_identity\<close> in \<open>agentbbs-web/src/lib.rs\<close>): minted on first use, from the
  random bytes given, and kept from then on.
\<close>

definition agent_identity :: "env \<Rightarrow> (string, identity) hmap \<Rightarrow> string \<Rightarrow> bytes
    \<Rightarrow> (string, identity) hmap \<times> identity" where
  "agent_identity E agents handle rnd =
     (case hm_get agents handle of
        Some i \<Rightarrow> (agents, from_seed E (secret_seed i))
      | None \<Rightarrow> let i = generate E rnd in (hm_insert handle i agents, from_seed E (secret_seed i)))"

definition agents_wf :: "env \<Rightarrow> (string, identity) hmap \<Rightarrow> bool" where
  "agents_wf E agents \<longleftrightarrow> (\<forall>h i. hm_get agents h = Some i \<longrightarrow> identity_wf E i)"

lemma agents_wf_empty [simp]: "agents_wf E hm_empty"
  by (simp add: agents_wf_def)

lemma secret_seed_from_seed [simp]: "secret_seed (from_seed E s) = s"
  by (simp add: secret_seed_def from_seed_def)

lemma agent_identity_wf:
  assumes "agents_wf E agents" "length rnd = 32" "agent_identity E agents handle rnd = (agents', i)"
  shows "agents_wf E agents' \<and> identity_wf E i"
  using assms
  by (auto simp: agent_identity_def agents_wf_def generate_def identity_wf_from_seed Let_def
      secret_seed_def identity_wf_def from_seed_def split: option.splits if_splits)

text \<open>A handle keeps its identity.\<close>

lemma agent_identity_stable:
  assumes "agent_identity E agents handle rnd = (agents', i)"
  shows "agent_identity E agents' handle rnd' = (agents', i)"
  using assms by (auto simp: agent_identity_def generate_def Let_def split: option.splits)

lemma agent_identity_other:
  assumes "agent_identity E agents handle rnd = (agents', i)" "h \<noteq> handle"
  shows "hm_get agents' h = hm_get agents h"
  using assms by (auto simp: agent_identity_def Let_def split: option.splits)

end
