(* ===== verification/Web_Pods.thy ===== *)
theory Web_Pods
  imports Pod_Events Tools Budget Reputation Web_Agents Float_Text
begin

text \<open>
  The pods of the web server (\<open>agentbbs-web/src/lib.rs\<close>): spawning, the runtime's callbacks
  with their guard against repetition and reordering, and the status poll. A callback posts to
  the pod's room and feeds the budget and the reputation ledger. Handlers run one at a time;
  what they read from the process environment, the clock and the random source are arguments.
\<close>

section \<open>Text\<close>

fun status_debug :: "pod_status \<Rightarrow> string" where
  "status_debug Spawned = ''Spawned''"
| "status_debug Executing = ''Executing''"
| "status_debug Evaluating = ''Evaluating''"
| "status_debug Escalating = ''Escalating''"
| "status_debug Idle = ''Idle''"
| "status_debug AwaitingApproval = ''AwaitingApproval''"
| "status_debug Completed = ''Completed''"
| "status_debug pod_status.Failed = ''Failed''"
| "status_debug Paused = ''Paused''"
| "status_debug Cancelled = ''Cancelled''"

fun tier_debug :: "max_tier \<Rightarrow> string" where
  "tier_debug Low = ''Low''"
| "tier_debug Mid = ''Mid''"
| "tier_debug High = ''High''"

text \<open>A middle dot in UTF-8.\<close>

definition dot :: string where
  "dot = [CHR 0xC2, CHR 0xB7]"

section \<open>State\<close>

record pod_record =
  pd_id :: string
  pd_status :: pod_status
  pd_created_at :: string
  pd_spec :: pod_spec
  pd_revision :: u64

text \<open>The part of \<open>AppState\<close> the pod handlers use; \<open>pw_seen\<close> and \<open>pw_last\<close> are the \<open>PodEventGuard\<close>.\<close>

record ('s, 'r) pod_web =
  pw_bbs :: "('s, 'r) bbs"
  pw_agents :: "(string, identity) hmap"
  pw_pods :: "pod_record list"
  pw_seen :: "string set"
  pw_last :: "(string, int \<times> string) hmap"
  pw_budget :: budget_ledger
  pw_reputation :: reputation_ledger

section \<open>Spawning\<close>

text \<open>
  \<open>api_pods_spawn\<close> after the administration gate and the JSON parser: validation, the
  idempotency key, then the gateway's answer (\<open>None\<close> when no gateway is configured).
\<close>

definition pods_spawn :: "env \<Rightarrow> ('s, 'r) pod_web \<Rightarrow> time \<Rightarrow> (string + string \<times> pod_status) option \<Rightarrow> pod_spec
    \<Rightarrow> ('s, 'r) pod_web \<times> (status_code \<times> string + pod_record)" where
  "pods_spawn E st now gateway spec =
     (case spec_validate spec of
        Inl e \<Rightarrow> (st, Inl (BAD_REQUEST, ''invalid pod spec: '' @ error_display e))
      | Inr _ \<Rightarrow>
     (case (case sp_idempotency_key spec of None \<Rightarrow> None
            | Some key \<Rightarrow> find (\<lambda>p. sp_idempotency_key (pd_spec p) = Some key) (pw_pods st)) of
        Some existing \<Rightarrow> (st, Inr existing)
      | None \<Rightarrow>
     (case (case gateway of None \<Rightarrow> Inr (''pod-'' @ zero_pad 4 (length (pw_pods st)), Spawned) | Some r \<Rightarrow> r) of
        Inl e \<Rightarrow> (st, Inl (BAD_GATEWAY, ''pod gateway spawn failed: '' @ e))
      | Inr (i, status) \<Rightarrow>
          let r = \<lparr>pd_id = i, pd_status = status, pd_created_at = rfc3339 E now, pd_spec = spec, pd_revision = 0\<rparr>
          in (st\<lparr>pw_pods := pw_pods st @ [r]\<rparr>, Inr r))))"

text \<open>The gateway's name of a state, and the status poll's commit.\<close>

definition map_gateway_status :: "string \<Rightarrow> string + pod_status" where
  "map_gateway_status s =
     (if s = ''SPAWNED'' then Inr Spawned
      else if s = ''EXECUTING'' then Inr Executing
      else if s = ''EVALUATING'' then Inr Evaluating
      else if s = ''ESCALATING'' then Inr Escalating
      else if s = ''IDLE'' then Inr Idle
      else if s = ''PAUSED'' then Inr Paused
      else if s = ''AWAITING_APPROVAL'' then Inr AwaitingApproval
      else if s = ''CANCELLED'' then Inr Cancelled
      else Inl (''unknown gateway pod status: '' @ s))"

definition saturating_inc :: "u64 \<Rightarrow> u64" where
  "saturating_inc n = (if n = - 1 then n else n + 1)"

definition commit_polled_status :: "pod_record list \<Rightarrow> string \<Rightarrow> u64 \<Rightarrow> pod_status
    \<Rightarrow> pod_record list \<times> pod_record option" where
  "commit_polled_status pods i observed polled =
     (let pods' = update_first (\<lambda>p. pd_id p = i) (\<lambda>p.
        if pd_revision p = observed \<and> \<not> is_terminal (pd_status p)
        then p\<lparr>pd_status := polled, pd_revision := saturating_inc (pd_revision p)\<rparr> else p) pods
      in (pods', find (\<lambda>p. pd_id p = i) pods'))"

text \<open>\<open>api_pods_get\<close>: the poll happens between the read and the commit; \<open>poll\<close> is its answer, if one was made.\<close>

definition pods_get_start :: "('s, 'r) pod_web \<Rightarrow> string \<Rightarrow> (status_code \<times> string) + pod_record" where
  "pods_get_start st i = (case find (\<lambda>p. pd_id p = i) (pw_pods st) of
     None \<Rightarrow> Inl (NOT_FOUND, ''pod not found'') | Some p \<Rightarrow> Inr p)"

definition pods_get_finish :: "('s, 'r) pod_web \<Rightarrow> pod_record \<Rightarrow> string \<Rightarrow> (string + pod_status) option
    \<Rightarrow> ('s, 'r) pod_web \<times> pod_record" where
  "pods_get_finish st observed i poll =
     (if is_terminal (pd_status observed) then (st, observed)
      else (case poll of
          Some (Inr status) \<Rightarrow>
            (case commit_polled_status (pw_pods st) i (pd_revision observed) status of
               (pods, Some current) \<Rightarrow> (st\<lparr>pw_pods := pods\<rparr>, current)
             | (pods, None) \<Rightarrow> (st\<lparr>pw_pods := pods\<rparr>, observed))
        | _ \<Rightarrow> (st, observed)))"

section \<open>Callbacks\<close>

record pod_result =
  pr_status :: pod_status
  pr_summary :: string
  pr_tier_used :: "max_tier option"
  pr_cost_usd :: "f64 option"

text \<open>
  The result of an event. Its bench outcome is always absent, so the branch of the handler that
  submits one to the arena never runs and has no counterpart here.
\<close>

definition event_result_status :: "string \<Rightarrow> string + pod_status" where
  "event_result_status s =
     (if s = ''EXECUTING'' then Inr Executing
      else if s = ''EVALUATING'' then Inr Evaluating
      else if s = ''ESCALATING'' then Inr Escalating
      else if s = ''IDLE'' then Inr Idle
      else if s = ''PAUSED'' then Inr Paused
      else if s = ''CANCELLED'' then Inr Cancelled
      else if s = ''AWAITING_APPROVAL'' then Inr AwaitingApproval
      else Inl ''unknown pod lifecycle status'')"

definition event_tier :: "string option \<Rightarrow> string + max_tier option" where
  "event_tier t = (case t of
     None \<Rightarrow> Inr None
   | Some s \<Rightarrow>
       if s = ''low'' then Inr (Some Low) else if s = ''mid'' then Inr (Some Mid)
       else if s = ''high'' then Inr (Some High) else Inl ''unknown pod result tier'')"

definition pod_result_from_event :: "signed_pod_event \<Rightarrow> string + pod_result" where
  "pod_result_from_event e =
     (if pe_event e \<notin> {''step'', ''conformance'', ''awaiting_approval'', ''approval_verdict'', ''paused''}
      then Inl ''unknown pod result event''
      else obind (event_result_status (pe_status e)) (\<lambda>status.
        let summary = (case pe_step e of Some s \<Rightarrow> es_summary s
          | None \<Rightarrow> (case pe_pause_reason e of Some r \<Rightarrow> r | None \<Rightarrow> pe_event e @ '': '' @ pe_status e))
        in obind (event_tier (pe_tier e)) (\<lambda>tier.
          Inr \<lparr>pr_status = status, pr_summary = summary, pr_tier_used = tier,
               pr_cost_usd = (if pe_status e = ''AWAITING_APPROVAL'' then None
                 else map_option es_cost_usd (pe_step e))\<rparr>)))"

definition authoritative_pod_transition_allowed :: "pod_status \<Rightarrow> pod_status \<Rightarrow> bool" where
  "authoritative_pod_transition_allowed current nxt \<longleftrightarrow> \<not> is_terminal current"

definition result_text :: "pod_result \<Rightarrow> string" where
  "result_text r = pr_summary r @ [newline, newline] @ dot @ '' status='' @ status_debug (pr_status r) @
     (case pr_tier_used r of None \<Rightarrow> [] | Some t \<Rightarrow> '' '' @ dot @ '' tier='' @ tier_debug t) @
     (case pr_cost_usd r of None \<Rightarrow> [] | Some c \<Rightarrow> '' '' @ dot @ '' $'' @ fixed 6 c)"

text \<open>The settings of the results route, and what one call reads from outside.\<close>

record results_config =
  rc_key_id :: string
  rc_secret :: string
  rc_previous_id :: string
  rc_previous :: string
  rc_account :: string

record pod_call =
  pc_id :: string
  pc_event :: signed_pod_event
  pc_now_ms :: int
  pc_rnd :: bytes
  pc_board_at :: time
  pc_board_event_at :: time
  pc_post_at :: time
  pc_post_event_at :: time

definition results_secret :: "results_config \<Rightarrow> signed_pod_event \<Rightarrow> string" where
  "results_secret c e =
     (if pe_signing_key_id e = rc_key_id c then rc_secret c
      else if rc_previous_id c \<noteq> [] \<and> pe_signing_key_id e = rc_previous_id c then rc_previous c
      else [])"

text \<open>The room is created on first use; an error is dropped, as the handler drops it.\<close>

definition ensure_room :: "'s store_ops \<Rightarrow> ('r \<Rightarrow> event \<Rightarrow> 'r result) \<Rightarrow> time \<Rightarrow> time \<Rightarrow> ('s, 'r) bbs \<Rightarrow> string
    \<Rightarrow> string \<Rightarrow> agent_id \<Rightarrow> ('s, 'r) bbs" where
  "ensure_room T R created now b room domain founder =
     (case op_get_board T (bbs_store b) room of
        Inr (Some _) \<Rightarrow> b
      | _ \<Rightarrow> fst (svc_create_board T R now b (role_caps Moderator)
               (board_new room (''Pod room '' @ dot @ '' '' @ domain) founder created)))"

text \<open>Everything after the reservation of the event id.\<close>

definition apply_event ::
  "'s store_ops \<Rightarrow> ('r \<Rightarrow> event \<Rightarrow> 'r result) \<Rightarrow> env \<Rightarrow> ('s, 'r) pod_web \<Rightarrow> pod_call \<Rightarrow> pod_result \<Rightarrow> pod_record
    \<Rightarrow> (int \<times> string) option \<Rightarrow> ('s, 'r) pod_web \<times> (status_code \<times> string + pod_record)" where
  "apply_event T R E st c result existing previous =
     (let i = pc_id c; e = pc_event c;
          room = pt_registered_room (sp_template (pd_spec existing));
          domain = pt_domain (sp_template (pd_spec existing));
          (agents, identity) = agent_identity E (pw_agents st) (''pod:'' @ i) (pc_rnd c);
          b = ensure_room T R (pc_board_at c) (pc_board_event_at c) (pw_bbs st) room domain (ident identity);
          (b, posted) = tool_post_message T R E (pc_post_at c) (pc_post_event_at c) b (role_caps Agent) identity
            room (''pod '' @ i @ '' step'') (result_text result) (''pod:'' @ domain);
          st = st\<lparr>pw_agents := agents, pw_bbs := b\<rparr>
      in case posted of
           Inl err \<Rightarrow>
             (st\<lparr>pw_seen := pw_seen st - {pe_event_id e},
                 pw_last := (case previous of Some prev \<Rightarrow> hm_insert i prev (pw_last st) | None \<Rightarrow> hm_remove i (pw_last st))\<rparr>,
              Inl (BAD_REQUEST, ''post failed: '' @ error_display err))
         | Inr _ \<Rightarrow>
             let budget = (case pr_cost_usd result of None \<Rightarrow> pw_budget st
                   | Some cost \<Rightarrow> budget_record (pw_budget st) i cost);
                 reputation = (if is_terminal (pr_status result)
                   then reputation_record (pw_reputation st)
                     \<lparr>oc_agent = ident identity, oc_success = (pr_status result = Completed),
                      oc_weight = f64_one, oc_source = ''pod''\<rparr>
                   else pw_reputation st);
                 pods = update_first (\<lambda>p. pd_id p = i)
                   (\<lambda>p. p\<lparr>pd_status := pr_status result, pd_revision := saturating_inc (pd_revision p)\<rparr>) (pw_pods st);
                 st = st\<lparr>pw_budget := budget, pw_reputation := reputation, pw_pods := pods\<rparr>
             in (case find (\<lambda>p. pd_id p = i) pods of
                   None \<Rightarrow> (st, Inl (NOT_FOUND, ''pod not found''))
                 | Some p \<Rightarrow> (st, Inr p)))"

definition pods_result ::
  "'s store_ops \<Rightarrow> ('r \<Rightarrow> event \<Rightarrow> 'r result) \<Rightarrow> env \<Rightarrow> mac_env \<Rightarrow> json_env \<Rightarrow> results_config \<Rightarrow> ('s, 'r) pod_web
    \<Rightarrow> pod_call \<Rightarrow> ('s, 'r) pod_web \<times> (status_code \<times> string + pod_record)" where
  "pods_result T R E M J cfg st c =
     (let i = pc_id c; e = pc_event c in
      case event_verify E M J e (results_secret cfg e) (pe_signing_key_id e) (rc_account cfg) i (pc_now_ms c) of
        Inl reason \<Rightarrow> (st, Inl (UNAUTHORIZED, reason))
      | Inr _ \<Rightarrow>
     (case pod_result_from_event e of
        Inl reason \<Rightarrow> (st, Inl (BAD_REQUEST, reason))
      | Inr result \<Rightarrow>
     (case find (\<lambda>p. pd_id p = i) (pw_pods st) of
        None \<Rightarrow> (st, Inl (NOT_FOUND, ''pod not found''))
      | Some existing \<Rightarrow>
          if pe_event_id e \<in> pw_seen st then (st, Inr existing)
          else if \<not> authoritative_pod_transition_allowed (pd_status existing) (pr_status result)
          then (st, Inl (CONFLICT, ''terminal pod cannot transition '' @ status_debug (pd_status existing) @
                 '' -> '' @ status_debug (pr_status result)))
          else if (case hm_get (pw_last st) i of None \<Rightarrow> False
                   | Some (ts, eid) \<Rightarrow> pe_ts e < ts \<or> pe_ts e = ts \<and> pe_event_id e \<noteq> eid)
          then (st, Inl (CONFLICT,
                 ''pod result event is older than or ambiguously tied with the last accepted event''))
          else apply_event T R E
                 (st\<lparr>pw_last := hm_insert i (pe_ts e, pe_event_id e) (pw_last st),
                     pw_seen := insert (pe_event_id e) (pw_seen st)\<rparr>)
                 c result existing (hm_get (pw_last st) i))))"

section \<open>What a callback does\<close>

lemmas find_pod = find_update_first[where p = "\<lambda>p. pd_id p = i" for i]

definition commit_status :: "pod_result \<Rightarrow> pod_record \<Rightarrow> pod_record" where
  "commit_status r p = p\<lparr>pd_status := pr_status r, pd_revision := saturating_inc (pd_revision p)\<rparr>"

text \<open>The message an applied event posts, and the state it leaves.\<close>

definition event_message :: "env \<Rightarrow> ('s, 'r) pod_web \<Rightarrow> pod_call \<Rightarrow> pod_result \<Rightarrow> pod_record \<Rightarrow> message_body" where
  "event_message E st c result existing =
     \<lparr>mb_board = pt_registered_room (sp_template (pd_spec existing)), mb_parent = None,
      mb_subject = ''pod '' @ pc_id c @ '' step'', mb_body = result_text result,
      mb_author = ident (snd (agent_identity E (pw_agents st) (''pod:'' @ pc_id c) (pc_rnd c))),
      mb_handle = ''pod:'' @ pt_domain (sp_template (pd_spec existing)), mb_created_at = pc_post_at c,
      mb_kind = Post\<rparr>"

definition applied_effects ::
  "'s store_ops \<Rightarrow> ('r \<Rightarrow> event \<Rightarrow> 'r result) \<Rightarrow> env \<Rightarrow> ('s, 'r) pod_web \<Rightarrow> pod_call \<Rightarrow> pod_result \<Rightarrow> pod_record
    \<Rightarrow> ('s, 'r) pod_web \<Rightarrow> bool" where
  "applied_effects T R E st c result existing st' \<longleftrightarrow>
     (let identity = snd (agent_identity E (pw_agents st) (''pod:'' @ pc_id c) (pc_rnd c));
          tmpl = sp_template (pd_spec existing);
          b = ensure_room T R (pc_board_at c) (pc_board_event_at c) (pw_bbs st) (pt_registered_room tmpl)
                (pt_domain tmpl) (ident identity)
      in (\<exists>m. msg_body m = event_message E st c result existing \<and> message_verify E m = Inr () \<and>
            op_put_message T (bbs_store b) m = Inr (bbs_store (pw_bbs st'))) \<and>
         pw_pods st' = update_first (\<lambda>p. pd_id p = pc_id c) (commit_status result) (pw_pods st) \<and>
         pw_budget st' = (case pr_cost_usd result of None \<Rightarrow> pw_budget st
           | Some cost \<Rightarrow> budget_record (pw_budget st) (pc_id c) cost) \<and>
         pw_reputation st' = (if is_terminal (pr_status result)
           then reputation_record (pw_reputation st)
             \<lparr>oc_agent = ident identity, oc_success = (pr_status result = Completed),
              oc_weight = f64_one, oc_source = ''pod''\<rparr>
           else pw_reputation st))"

lemma apply_event_cases:
  assumes "apply_event T R E st c result existing previous = (st', r)"
    and found: "find (\<lambda>p. pd_id p = pc_id c) (pw_pods st) = Some existing"
  shows "case r of
      Inl err \<Rightarrow> pw_seen st' = pw_seen st - {pe_event_id (pc_event c)} \<and>
        pw_last st' = (case previous of Some prev \<Rightarrow> hm_insert (pc_id c) prev (pw_last st)
          | None \<Rightarrow> hm_remove (pc_id c) (pw_last st)) \<and>
        pw_pods st' = pw_pods st \<and> pw_budget st' = pw_budget st \<and> pw_reputation st' = pw_reputation st
    | Inr p \<Rightarrow> pw_seen st' = pw_seen st \<and> pw_last st' = pw_last st \<and> p = commit_status result existing \<and>
        applied_effects T R E st c result existing st'"
proof -
  obtain agents identity where ag: "agent_identity E (pw_agents st) (''pod:'' @ pc_id c) (pc_rnd c) = (agents, identity)"
    by (rule prod.exhaust)
  let ?tmpl = "sp_template (pd_spec existing)"
  let ?b = "ensure_room T R (pc_board_at c) (pc_board_event_at c) (pw_bbs st) (pt_registered_room ?tmpl)
    (pt_domain ?tmpl) (ident identity)"
  obtain b posted where post: "tool_post_message T R E (pc_post_at c) (pc_post_event_at c) ?b (role_caps Agent)
      identity (pt_registered_room ?tmpl) (''pod '' @ pc_id c @ '' step'') (result_text result)
      (''pod:'' @ pt_domain ?tmpl) = (b, posted)"
    by (rule prod.exhaust)
  let ?pods = "update_first (\<lambda>p. pd_id p = pc_id c) (commit_status result) (pw_pods st)"
  have upd: "update_first (\<lambda>p. pd_id p = pc_id c)
      (\<lambda>p. p\<lparr>pd_status := pr_status result, pd_revision := saturating_inc (pd_revision p)\<rparr>) (pw_pods st) = ?pods"
    by (simp add: commit_status_def[abs_def])
  have here: "find (\<lambda>p. pd_id p = pc_id c) ?pods = Some (commit_status result existing)"
    using found by (subst find_update_first) (simp_all add: commit_status_def)
  show ?thesis
  proof (cases posted)
    case (Inl err)
    with assms(1) show ?thesis
      unfolding apply_event_def Let_def ag prod.case post by (auto split: option.split)
  next
    case (Inr s)
    have fields: "r = Inr (commit_status result existing)" "pw_bbs st' = b" "pw_seen st' = pw_seen st"
        "pw_last st' = pw_last st" "pw_pods st' = ?pods"
        "pw_budget st' = (case pr_cost_usd result of None \<Rightarrow> pw_budget st
          | Some cost \<Rightarrow> budget_record (pw_budget st) (pc_id c) cost)"
        "pw_reputation st' = (if is_terminal (pr_status result)
           then reputation_record (pw_reputation st)
             \<lparr>oc_agent = ident identity, oc_success = (pr_status result = Completed),
              oc_weight = f64_one, oc_source = ''pod''\<rparr>
           else pw_reputation st)"
      using assms(1) unfolding apply_event_def Let_def ag prod.case post Inr sum.case
      by (auto simp: upd here split: option.split)
    from post Inr obtain m where "msg_body m = event_message E st c result existing"
        "message_verify E m = Inr ()" "op_put_message T (bbs_store ?b) m = Inr (bbs_store b)"
      using tool_post_Inr unfolding event_message_def by (metis ag snd_conv)
    then show ?thesis unfolding fields sum.case applied_effects_def Let_def ag snd_conv by blast
  qed
qed


text \<open>The three ways a call ends: it changes nothing, it fails to post, or it is applied.\<close>

definition admitted :: "env \<Rightarrow> mac_env \<Rightarrow> json_env \<Rightarrow> results_config \<Rightarrow> ('s, 'r) pod_web \<Rightarrow> pod_call \<Rightarrow> pod_result
    \<Rightarrow> pod_record \<Rightarrow> bool" where
  "admitted E M J cfg st c result existing \<longleftrightarrow>
     event_verify E M J (pc_event c) (results_secret cfg (pc_event c)) (pe_signing_key_id (pc_event c))
       (rc_account cfg) (pc_id c) (pc_now_ms c) = Inr () \<and>
     pod_result_from_event (pc_event c) = Inr result \<and>
     find (\<lambda>p. pd_id p = pc_id c) (pw_pods st) = Some existing \<and>
     pe_event_id (pc_event c) \<notin> pw_seen st \<and> \<not> is_terminal (pd_status existing) \<and>
     (case hm_get (pw_last st) (pc_id c) of None \<Rightarrow> True
      | Some (ts, eid) \<Rightarrow> ts \<le> pe_ts (pc_event c) \<and> (ts = pe_ts (pc_event c) \<longrightarrow> eid = pe_event_id (pc_event c)))"

definition same_ledgers :: "('s, 'r) pod_web \<Rightarrow> ('s, 'r) pod_web \<Rightarrow> bool" where
  "same_ledgers st st' \<longleftrightarrow> pw_seen st' = pw_seen st \<and> hm_get (pw_last st') = hm_get (pw_last st) \<and>
     pw_pods st' = pw_pods st \<and> pw_budget st' = pw_budget st \<and> pw_reputation st' = pw_reputation st"

lemma pods_result_cases:
  assumes "pods_result T R E M J cfg st c = (st', r)"
  obtains (unchanged) "st' = st"
      "\<forall>p. r = Inr p \<longrightarrow> pe_event_id (pc_event c) \<in> pw_seen st \<and> find (\<lambda>p. pd_id p = pc_id c) (pw_pods st) = Some p"
    | (unposted) err where "r = Inl err" "same_ledgers st st'" "pe_event_id (pc_event c) \<notin> pw_seen st"
    | (applied) result existing where "admitted E M J cfg st c result existing"
        "r = Inr (commit_status result existing)" "applied_effects T R E st c result existing st'"
        "pw_seen st' = insert (pe_event_id (pc_event c)) (pw_seen st)"
        "pw_last st' = hm_insert (pc_id c) (pe_ts (pc_event c), pe_event_id (pc_event c)) (pw_last st)"
proof -
  let ?st = "st\<lparr>pw_last := hm_insert (pc_id c) (pe_ts (pc_event c), pe_event_id (pc_event c)) (pw_last st),
      pw_seen := insert (pe_event_id (pc_event c)) (pw_seen st)\<rparr>"
  consider (stop) "st' = st"
      "\<forall>p. r = Inr p \<longrightarrow> pe_event_id (pc_event c) \<in> pw_seen st \<and> find (\<lambda>p. pd_id p = pc_id c) (pw_pods st) = Some p"
    | (go) result existing where "admitted E M J cfg st c result existing"
        "apply_event T R E ?st c result existing (hm_get (pw_last st) (pc_id c)) = (st', r)"
    using assms unfolding pods_result_def Let_def admitted_def authoritative_pod_transition_allowed_def
    by (auto split: sum.splits option.splits if_splits prod.splits simp: not_less)
  then show thesis
  proof cases
    case stop
    then show thesis by (rule unchanged)
  next
    case (go result existing)
    then have found: "find (\<lambda>p. pd_id p = pc_id c) (pw_pods ?st) = Some existing"
      and new: "pe_event_id (pc_event c) \<notin> pw_seen st"
      by (simp_all add: admitted_def)
    note cs = apply_event_cases[OF go(2) found]
    show thesis
    proof (cases r)
      case (Inl err)
      with cs new have "same_ledgers st st'"
        by (auto simp: same_ledgers_def fun_upd_idem split: option.splits)
      with Inl new show thesis using unposted by blast
    next
      case (Inr p)
      with cs have "applied_effects T R E ?st c result existing st'" "p = commit_status result existing"
          "pw_seen st' = pw_seen ?st" "pw_last st' = pw_last ?st"
        by auto
      moreover have "applied_effects T R E ?st c result existing st' = applied_effects T R E st c result existing st'"
        by (cases "pr_cost_usd result") (simp_all add: applied_effects_def event_message_def)
      ultimately show thesis using applied go(1) Inr by simp
    qed
  qed
qed


section \<open>Runs\<close>

text \<open>
  What happens to the pods over time: callbacks, commits of polls begun from an earlier reading
  of the pod, and spawns. A run records, for each callback applied, its pod, time and event id.
\<close>

datatype pod_act =
    ACallback pod_call
  | APoll pod_record string "(string + pod_status) option"
  | ASpawn time "(string + string \<times> pod_status) option" pod_spec

type_synonym applied_log = "(string \<times> int \<times> string) list"

fun pod_act_step ::
  "'s store_ops \<Rightarrow> ('r \<Rightarrow> event \<Rightarrow> 'r result) \<Rightarrow> env \<Rightarrow> mac_env \<Rightarrow> json_env \<Rightarrow> results_config
    \<Rightarrow> ('s, 'r) pod_web \<times> applied_log \<Rightarrow> pod_act \<Rightarrow> ('s, 'r) pod_web \<times> applied_log" where
  "pod_act_step T R E M J cfg (st, lg) (ACallback c) =
     (let (st', r) = pods_result T R E M J cfg st c
      in (st', if \<not> isl r \<and> pe_event_id (pc_event c) \<notin> pw_seen st
               then lg @ [(pc_id c, pe_ts (pc_event c), pe_event_id (pc_event c))] else lg))"
| "pod_act_step T R E M J cfg (st, lg) (APoll p i poll) = (fst (pods_get_finish st p i poll), lg)"
| "pod_act_step T R E M J cfg (st, lg) (ASpawn now gateway spec) = (fst (pods_spawn E st now gateway spec), lg)"

text \<open>The guard and the log agree.\<close>

definition guard_inv :: "('s, 'r) pod_web \<times> applied_log \<Rightarrow> bool" where
  "guard_inv x \<longleftrightarrow> (let (st, lg) = x in
     pw_seen st = (\<lambda>(i, ts, eid). eid) ` set lg \<and> distinct (map (\<lambda>(i, ts, eid). eid) lg) \<and>
     sorted_wrt (\<lambda>(i, ts, eid) (j, us, fid). i = j \<longrightarrow> ts < us) lg \<and>
     (\<forall>i ts eid. (i, ts, eid) \<in> set lg \<longrightarrow> (\<exists>us fid. hm_get (pw_last st) i = Some (us, fid) \<and> ts \<le> us)) \<and>
     (\<forall>i us fid. hm_get (pw_last st) i = Some (us, fid) \<longrightarrow> (i, us, fid) \<in> set lg))"

lemma guard_invD:
  assumes "guard_inv (st, lg)"
  shows "pw_seen st = (\<lambda>(i, ts, eid). eid) ` set lg" "distinct (map (\<lambda>(i, ts, eid). eid) lg)"
    "sorted_wrt (\<lambda>(i, ts, eid) (j, us, fid). i = j \<longrightarrow> ts < us) lg"
    "(i, ts, eid) \<in> set lg \<Longrightarrow> \<exists>us fid. hm_get (pw_last st) i = Some (us, fid) \<and> ts \<le> us"
    "hm_get (pw_last st) i = Some (us, fid) \<Longrightarrow> (i, us, fid) \<in> set lg"
  using assms unfolding guard_inv_def Let_def prod.case by blast+

lemma guard_inv_same:
  assumes "guard_inv (st, lg)" "pw_seen st' = pw_seen st" "hm_get (pw_last st') = hm_get (pw_last st)"
  shows "guard_inv (st', lg)"
  using assms by (simp add: guard_inv_def)

lemma guard_inv_apply:
  assumes inv: "guard_inv (st, lg)" and adm: "admitted E M J cfg st c result existing"
    and "pw_seen st' = insert (pe_event_id (pc_event c)) (pw_seen st)"
    and "pw_last st' = hm_insert (pc_id c) (pe_ts (pc_event c), pe_event_id (pc_event c)) (pw_last st)"
  shows "guard_inv (st', lg @ [(pc_id c, pe_ts (pc_event c), pe_event_id (pc_event c))])"
proof -
  let ?i = "pc_id c" and ?ts = "pe_ts (pc_event c)" and ?eid = "pe_event_id (pc_event c)"
  have new: "?eid \<notin> pw_seen st" using adm by (simp add: admitted_def)
  note g = guard_invD[OF inv]
  have later: "ts < ?ts" if d: "(?i, ts, eid) \<in> set lg" for ts eid
  proof -
    obtain us fid where last: "hm_get (pw_last st) ?i = Some (us, fid)" "ts \<le> us"
      using g(4)[OF d] by blast
    from g(5)[OF last(1)] have "fid \<in> pw_seen st" unfolding g(1) by force
    with new have "fid \<noteq> ?eid" by auto
    with adm last(1) have "us < ?ts" by (auto simp: admitted_def)
    with last(2) show ?thesis by simp
  qed
  have "sorted_wrt (\<lambda>(i, ts, eid) (j, us, fid). i = j \<longrightarrow> ts < us) (lg @ [(?i, ?ts, ?eid)])"
    using g(3) later by (auto simp: sorted_wrt_append)
  moreover have "distinct (map (\<lambda>(i, ts, eid). eid) (lg @ [(?i, ?ts, ?eid)]))"
    using g(2) new unfolding g(1) by auto
  moreover have "\<exists>us fid. hm_get (pw_last st') i = Some (us, fid) \<and> ts \<le> us"
    if mem: "(i, ts, eid) \<in> set (lg @ [(?i, ?ts, ?eid)])" for i ts eid
  proof (cases "i = ?i")
    case True
    with mem later have "ts \<le> ?ts" by (auto dest: less_imp_le)
    with True show ?thesis by (simp add: assms(4))
  next
    case False
    with mem g(4) show ?thesis by (simp add: assms(4))
  qed
  moreover have "(i, us, fid) \<in> set (lg @ [(?i, ?ts, ?eid)])" if "hm_get (pw_last st') i = Some (us, fid)" for i us fid
    using that g(5) by (auto simp: assms(4) split: if_splits)
  moreover have "pw_seen st' = (\<lambda>(i, ts, eid). eid) ` set (lg @ [(?i, ?ts, ?eid)])"
    unfolding assms(3) g(1) by simp
  ultimately show ?thesis unfolding guard_inv_def by (simp only: Let_def prod.case) blast
qed


lemma poll_frame:
  "pw_seen (fst (pods_get_finish st p i poll)) = pw_seen st \<and> pw_last (fst (pods_get_finish st p i poll)) = pw_last st"
  by (auto simp: pods_get_finish_def split: option.split sum.split prod.split)

lemma spawn_frame:
  "pw_seen (fst (pods_spawn E st now gateway spec)) = pw_seen st \<and> pw_last (fst (pods_spawn E st now gateway spec)) = pw_last st"
  by (auto simp: pods_spawn_def Let_def split: option.split sum.split prod.split)

lemma pod_act_step_inv: "guard_inv x \<Longrightarrow> guard_inv (pod_act_step T R E M J cfg x a)"
proof -
  assume inv: "guard_inv x"
  obtain st lg where x: "x = (st, lg)" by (rule prod.exhaust)
  show ?thesis
  proof (cases a)
    case (ACallback c)
    obtain st' r where res: "pods_result T R E M J cfg st c = (st', r)" by (rule prod.exhaust)
    from res show ?thesis
    proof (cases rule: pods_result_cases)
      case unchanged
      then have "isl r \<or> pe_event_id (pc_event c) \<in> pw_seen st" by (cases r) simp_all
      with inv unchanged(1) show ?thesis by (auto simp: x ACallback res)
    next
      case (unposted err)
      with inv guard_inv_same[of st lg st'] show ?thesis
        by (simp add: x ACallback res same_ledgers_def)
    next
      case (applied result existing)
      from guard_inv_apply[OF inv[unfolded x] applied(1,4,5)] applied(1,2) show ?thesis
        by (simp add: x ACallback res admitted_def)
    qed
  next
    case (APoll p i poll)
    with inv x show ?thesis using guard_inv_same[of st lg "fst (pods_get_finish st p i poll)"] poll_frame[of st p i poll] by simp
  next
    case (ASpawn now gateway spec)
    with inv x show ?thesis using guard_inv_same[of st lg "fst (pods_spawn E st now gateway spec)"] spawn_frame[of E st now gateway spec] by simp
  qed
qed

lemma pod_run_inv: "guard_inv x \<Longrightarrow> guard_inv (foldl (pod_act_step T R E M J cfg) x acts)"
  by (induction acts arbitrary: x) (simp_all add: pod_act_step_inv)

text \<open>A terminal pod stays as it is.\<close>

lemma pod_act_step_terminal:
  assumes "find (\<lambda>p. pd_id p = i) (pw_pods st) = Some p" "is_terminal (pd_status p)"
  shows "find (\<lambda>p. pd_id p = i) (pw_pods (fst (pod_act_step T R E M J cfg (st, lg) a))) = Some p"
proof (cases a)
  case (ACallback c)
  obtain st' r where res: "pods_result T R E M J cfg st c = (st', r)" by (rule prod.exhaust)
  from res show ?thesis
  proof (cases rule: pods_result_cases)
    case unchanged
    with assms show ?thesis by (simp add: ACallback res)
  next
    case (unposted err)
    with assms show ?thesis by (simp add: ACallback res same_ledgers_def)
  next
    case (applied result existing)
    have "pc_id c \<noteq> i" using applied(1) assms by (auto simp: admitted_def)
    then have "find (\<lambda>p. pd_id p = i) (pw_pods st') = find (\<lambda>p. pd_id p = i) (pw_pods st)"
      using applied(3) find_update_first_other[of "\<lambda>p. pd_id p = pc_id c" "\<lambda>p. pd_id p = i" "commit_status result" "pw_pods st"]
      by (auto simp: applied_effects_def Let_def commit_status_def)
    with assms show ?thesis by (simp add: ACallback res)
  qed
next
  case (APoll observed j poll)
  define f :: "pod_status \<Rightarrow> pod_record \<Rightarrow> pod_record" where "f = (\<lambda>s q. if pd_revision q = pd_revision observed \<and> \<not> is_terminal (pd_status q)
    then q\<lparr>pd_status := s, pd_revision := saturating_inc (pd_revision q)\<rparr> else q)"
  have ids: "pd_id (f s q) = pd_id q" for s q by (simp add: f_def)
  have "find (\<lambda>p. pd_id p = i) (update_first (\<lambda>p. pd_id p = j) (f s) (pw_pods st)) = Some p" for s
  proof (cases "i = j")
    case True
    with assms find_update_first[of "\<lambda>p. pd_id p = j" "f s" "pw_pods st"] ids show ?thesis
      by (simp add: f_def)
  next
    case False
    with assms find_update_first_other[of "\<lambda>p. pd_id p = j" "\<lambda>p. pd_id p = i" "f s" "pw_pods st"] ids
    show ?thesis by simp
  qed
  then show ?thesis
    using assms unfolding f_def by (auto simp: APoll pods_get_finish_def commit_polled_status_def Let_def
        split: option.split sum.split)
next
  case (ASpawn now gateway spec)
  have "find P (xs @ ys) = Some p" if "find P xs = Some p" for P xs ys
    using that by (induction xs) (auto split: if_splits)
  with assms show ?thesis
    by (auto simp: ASpawn pods_spawn_def Let_def split: option.split sum.split prod.split)
qed

lemma pod_run_terminal:
  assumes "find (\<lambda>p. pd_id p = i) (pw_pods (fst x)) = Some p" "is_terminal (pd_status p)"
  shows "find (\<lambda>p. pd_id p = i) (pw_pods (fst (foldl (pod_act_step T R E M J cfg) x acts))) = Some p"
  using assms
proof (induction acts arbitrary: x)
  case (Cons a acts)
  then show ?case using pod_act_step_terminal[of i "fst x" p T R E M J cfg "snd x" a] by simp
qed simp

section \<open>Properties\<close>

text \<open>
  Property C29. Over any history of callbacks, polls and spawns from an empty guard: no event id
  is applied twice; the events applied to one pod have strictly increasing times; delivering an
  applied event again, to any pod and at any later time, changes nothing at all; and a pod that
  has reached a terminal state keeps that record whatever happens.
\<close>

theorem pod_events_once_in_order:
  assumes "pw_seen st0 = {}" "pw_last st0 = hm_empty"
    and "foldl (pod_act_step T R E M J cfg) (st0, []) acts = (st, lg)"
  shows "distinct (map (\<lambda>(i, ts, eid). eid) lg) \<and>
    sorted_wrt (\<lambda>(i, ts, eid) (j, us, fid). i = j \<longrightarrow> ts < us) lg \<and>
    (\<forall>c i ts. (i, ts, pe_event_id (pc_event c)) \<in> set lg \<longrightarrow> fst (pods_result T R E M J cfg st c) = st) \<and>
    (\<forall>i p acts'. find (\<lambda>p. pd_id p = i) (pw_pods st) = Some p \<longrightarrow> is_terminal (pd_status p) \<longrightarrow>
       find (\<lambda>p. pd_id p = i) (pw_pods (fst (foldl (pod_act_step T R E M J cfg) (st, lg) acts'))) = Some p)"
proof -
  have "guard_inv (st0, [])" by (simp add: guard_inv_def assms(1,2))
  then have inv: "guard_inv (st, lg)" using pod_run_inv assms(3) by metis
  have "fst (pods_result T R E M J cfg st c) = st" if "(i, ts, pe_event_id (pc_event c)) \<in> set lg" for c i ts
  proof -
    have seen: "pe_event_id (pc_event c) \<in> pw_seen st"
      unfolding guard_invD(1)[OF inv] using that by force
    obtain st' r where res: "pods_result T R E M J cfg st c = (st', r)" by (rule prod.exhaust)
    from res show ?thesis
    proof (cases rule: pods_result_cases)
      case unchanged
      with res show ?thesis by simp
    qed (use seen in \<open>simp_all add: admitted_def\<close>)
  qed
  moreover have "find (\<lambda>p. pd_id p = i) (pw_pods (fst (foldl (pod_act_step T R E M J cfg) (st, lg) acts'))) = Some p"
    if "find (\<lambda>p. pd_id p = i) (pw_pods st) = Some p" "is_terminal (pd_status p)" for i p acts'
    by (rule pod_run_terminal) (use that in simp_all)
  ultimately show ?thesis using guard_invD(2,3)[OF inv] by blast
qed

text \<open>The results of events: only a cancelled pod is terminal.\<close>

lemma result_never_completes:
  assumes "pod_result_from_event e = Inr r"
  shows "pr_status r \<notin> {Completed, pod_status.Failed, Spawned}"
  using assms
  by (auto simp: pod_result_from_event_def event_result_status_def Let_def split: if_splits sum.splits
      elim!: obind.elims)

text \<open>A node with one live pod whose room is the open board of the service's witnesses.\<close>

definition demo_pod :: pod_record where
  "demo_pod = \<lparr>pd_id = ''pod-0000'', pd_status = Executing, pd_created_at = [],
     pd_spec = \<lparr>sp_template = demo_template\<lparr>pt_registered_room := ''general''\<rparr>, sp_tier = None,
       sp_idempotency_key = None\<rparr>, pd_revision = 0\<rparr>"

definition demo_web :: "(memory_store, memory_reporter) pod_web" where
  "demo_web = \<lparr>pw_bbs = demo_open, pw_agents = hm_empty, pw_pods = [demo_pod], pw_seen = {}, pw_last = hm_empty,
     pw_budget = budget_new, pw_reputation = reputation_new\<rparr>"

definition demo_config :: results_config where
  "demo_config = \<lparr>rc_key_id = ''k'', rc_secret = ''sec'', rc_previous_id = [], rc_previous = [], rc_account = ''acct''\<rparr>"

definition demo_callback :: "string \<Rightarrow> int \<Rightarrow> string \<Rightarrow> pod_call" where
  "demo_callback eid ts status = \<lparr>pc_id = ''pod-0000'', pc_event = demo_event eid ts status, pc_now_ms = ts,
     pc_rnd = demo_seed 3, pc_board_at = 1, pc_board_event_at = 2, pc_post_at = 3, pc_post_event_at = 4\<rparr>"

lemma demo_callback_applied:
  assumes "status = ''IDLE'' \<or> status = ''CANCELLED''"
  shows "\<exists>st' p. pods_result memory_ops mr_report demo_env demo_mac demo_json demo_config demo_web
    (demo_callback ''e1'' 5 status) = (st', Inr p)"
proof -
  let ?c = "demo_callback ''e1'' 5 status"
  obtain result where res: "pod_result_from_event (pc_event ?c) = Inr result"
    using assms by (auto simp: demo_callback_def pod_result_from_event_def event_result_status_def event_tier_def)
  have ver: "event_verify demo_env demo_mac demo_json (demo_event ''e1'' 5 status) ''sec'' ''k'' ''acct'' ''pod-0000'' 5 = Inr ()"
    by (rule demo_event_verifies) simp_all
  let ?st = "demo_web\<lparr>pw_last := hm_insert (pc_id ?c) (pe_ts (pc_event ?c), pe_event_id (pc_event ?c)) (pw_last demo_web),
      pw_seen := insert (pe_event_id (pc_event ?c)) (pw_seen demo_web)\<rparr>"
  have step: "pods_result memory_ops mr_report demo_env demo_mac demo_json demo_config demo_web ?c =
      apply_event memory_ops mr_report demo_env ?st ?c result demo_pod (hm_get (pw_last demo_web) (pc_id ?c))"
    using res ver unfolding pods_result_def Let_def
    by (simp add: demo_callback_def results_secret_def demo_config_def demo_web_def demo_pod_def
        authoritative_pod_transition_allowed_def)
  obtain agents where ag: "agent_identity demo_env (pw_agents ?st) (''pod:'' @ pc_id ?c) (pc_rnd ?c) =
      (agents, from_seed demo_env (demo_seed 3))"
    by (simp add: agent_identity_def demo_web_def demo_callback_def generate_def secret_seed_def from_seed_def Let_def)
  let ?i = "from_seed demo_env (demo_seed 3)"
  have room: "ensure_room memory_ops mr_report (pc_board_at ?c) (pc_board_event_at ?c) (pw_bbs ?st)
      (pt_registered_room (sp_template (pd_spec demo_pod))) (pt_domain (sp_template (pd_spec demo_pod))) (ident ?i) = demo_open"
    by (simp add: ensure_room_def demo_web_def demo_pod_def demo_open_store mem_defs bt_get_def)
  have "caps_contains (role_caps Agent) POST"
    by (simp add: caps_contains_def caps_all_def caps_default_def cap_bits)
  then obtain b s where post: "tool_post_message memory_ops mr_report demo_env (pc_post_at ?c) (pc_post_event_at ?c)
      demo_open (role_caps Agent) ?i (pt_registered_room (sp_template (pd_spec demo_pod)))
      (''pod '' @ pc_id ?c @ '' step'') (result_text result) (''pod:'' @ pt_domain (sp_template (pd_spec demo_pod))) = (b, Inr s)"
    using demo_posts[OF identity_wf_from_seed[OF length_demo_seed[of 3]], of "role_caps Agent"
        "''pod '' @ pc_id ?c @ '' step''" "result_text result" "''pod:'' @ pt_domain (sp_template (pd_spec demo_pod))"]
    by (auto simp: demo_callback_def demo_pod_def simp del: role_caps.simps)
  have "\<exists>st' p. apply_event memory_ops mr_report demo_env ?st ?c result demo_pod (hm_get (pw_last demo_web) (pc_id ?c)) = (st', Inr p)"
    unfolding apply_event_def Let_def ag prod.case room post sum.case
    by (simp add: demo_web_def demo_pod_def demo_callback_def)
  with step show ?thesis by simp
qed

theorem pod_events_once_in_order_witness:
  "\<exists>st. foldl (pod_act_step memory_ops mr_report demo_env demo_mac demo_json demo_config) (demo_web, [])
      [ACallback (demo_callback ''e1'' 5 ''CANCELLED'')] = (st, [(''pod-0000'', 5, ''e1'')]) \<and>
    fst (pods_result memory_ops mr_report demo_env demo_mac demo_json demo_config st (demo_callback ''e1'' 5 ''IDLE'')) = st"
proof -
  obtain st p where call: "pods_result memory_ops mr_report demo_env demo_mac demo_json demo_config demo_web
      (demo_callback ''e1'' 5 ''CANCELLED'') = (st, Inr p)"
    using demo_callback_applied by blast
  have run: "foldl (pod_act_step memory_ops mr_report demo_env demo_mac demo_json demo_config) (demo_web, [])
      [ACallback (demo_callback ''e1'' 5 ''CANCELLED'')] = (st, [(''pod-0000'', 5, ''e1'')])"
    by (simp add: call) (simp add: demo_callback_def demo_web_def)
  have "pw_seen demo_web = {}" "pw_last demo_web = hm_empty" by (simp_all add: demo_web_def)
  from pod_events_once_in_order[OF this run]
  have again: "(i, ts, pe_event_id (pc_event c)) \<in> set [(''pod-0000'', 5 :: int, ''e1'')] \<Longrightarrow>
      fst (pods_result memory_ops mr_report demo_env demo_mac demo_json demo_config st c) = st" for c i ts
    by blast
  have "(''pod-0000'', 5, pe_event_id (pc_event (demo_callback ''e1'' 5 ''IDLE''))) \<in> set [(''pod-0000'', 5 :: int, ''e1'')]"
    by (simp add: demo_callback_def)
  from again[OF this] run show ?thesis by blast
qed

text \<open>
  Property C30. What an applied event does, and that nothing else does it: the first delivery of
  an event that is answered with a pod was verified for this pod and account, posts one message
  signed by the pod's key to the pod's room, charges the step's cost to the pod's budget and to
  no other, and gives the pod the reported state and the next revision; every other call leaves
  pods, guard, budget and reputation as they were.
\<close>

theorem applied_event_effects:
  assumes "pods_result T R E M J cfg st c = (st', r)"
  shows "if \<not> isl r \<and> pe_event_id (pc_event c) \<notin> pw_seen st
    then \<exists>result existing. admitted E M J cfg st c result existing \<and>
      r = Inr (commit_status result existing) \<and> applied_effects T R E st c result existing st'
    else same_ledgers st st'"
  using assms
proof (cases rule: pods_result_cases)
  case unchanged
  then have "isl r \<or> pe_event_id (pc_event c) \<in> pw_seen st" by (cases r) simp_all
  with unchanged(1) show ?thesis by (auto simp: same_ledgers_def)
next
  case (unposted err)
  then show ?thesis by simp
next
  case (applied result existing)
  then show ?thesis by (auto simp: admitted_def)
qed

theorem applied_event_effects_witness:
  "\<exists>st' p result. pods_result memory_ops mr_report demo_env demo_mac demo_json demo_config demo_web
      (demo_callback ''e1'' 5 ''IDLE'') = (st', Inr p) \<and> p = commit_status result demo_pod \<and>
    applied_effects memory_ops mr_report demo_env demo_web (demo_callback ''e1'' 5 ''IDLE'') result demo_pod st'"
proof -
  obtain st' p where call: "pods_result memory_ops mr_report demo_env demo_mac demo_json demo_config demo_web
      (demo_callback ''e1'' 5 ''IDLE'') = (st', Inr p)"
    using demo_callback_applied by blast
  have "pe_event_id (pc_event (demo_callback ''e1'' 5 ''IDLE'')) \<notin> pw_seen demo_web" by (simp add: demo_web_def)
  with applied_event_effects[OF call] obtain result existing where
    a: "admitted demo_env demo_mac demo_json demo_config demo_web (demo_callback ''e1'' 5 ''IDLE'') result existing"
      "p = commit_status result existing"
      "applied_effects memory_ops mr_report demo_env demo_web (demo_callback ''e1'' 5 ''IDLE'') result existing st'"
    by auto
  then have "existing = demo_pod" by (simp add: admitted_def demo_web_def demo_callback_def demo_pod_def)
  with a call show ?thesis by blast
qed

text \<open>
  No pod can earn a success: an event cannot carry a completed or failed state, so
  the only terminal outcome that ever reaches the reputation ledger is a cancellation, recorded
  as a failure; from an empty ledger, every outcome the pod handlers have recorded after any
  history is a failure.
\<close>

theorem pods_never_succeed:
  assumes "pw_reputation st0 = reputation_new" "foldl (pod_act_step T R E M J cfg) (st0, []) acts = (st, lg)"
  shows "\<forall>oc \<in> set (rl_records (pw_reputation st)). \<not> oc_success oc"
proof -
  let ?P = "\<lambda>x :: ('a, 'b) pod_web \<times> applied_log. \<forall>oc \<in> set (rl_records (pw_reputation (fst x))). \<not> oc_success oc"
  have step: "?P (pod_act_step T R E M J cfg x a)" if "?P x" for x a
  proof -
    obtain s l where x: "x = (s, l)" by (rule prod.exhaust)
    show ?thesis
    proof (cases a)
      case (ACallback c)
      obtain s' r where res: "pods_result T R E M J cfg s c = (s', r)" by (rule prod.exhaust)
      from res show ?thesis
      proof (cases rule: pods_result_cases)
        case unchanged
        with that show ?thesis by (simp add: x ACallback res)
      next
        case (unposted err)
        with that show ?thesis by (simp add: x ACallback res same_ledgers_def)
      next
        case (applied result existing)
        have "pr_status result \<noteq> Completed"
          using applied(1) result_never_completes by (auto simp: admitted_def)
        with that applied(3) show ?thesis
          by (auto simp: x ACallback res applied_effects_def Let_def reputation_record_def split: if_splits)
      qed
    next
      case (APoll p i poll)
      with that show ?thesis
        by (auto simp: x pods_get_finish_def split: option.split sum.split prod.split)
    next
      case (ASpawn now gateway spec)
      with that show ?thesis
        by (auto simp: x pods_spawn_def Let_def split: option.split sum.split prod.split)
    qed
  qed
  have "?P (foldl (pod_act_step T R E M J cfg) x acts)" if "?P x" for x
    using that
  proof (induction acts arbitrary: x)
    case (Cons a acts)
    show ?case unfolding foldl_Cons by (rule Cons.IH[OF step[OF Cons.prems]])
  qed (simp only: foldl_Nil)
  from this[of "(st0, [])"] assms show ?thesis by (simp add: reputation_new_def)
qed

theorem pods_never_succeed_witness:
  "\<exists>st. fst (foldl (pod_act_step memory_ops mr_report demo_env demo_mac demo_json demo_config) (demo_web, [])
      [ACallback (demo_callback ''e1'' 5 ''CANCELLED'')]) = st \<and>
    filter oc_success (rl_records (pw_reputation st)) = []"
proof -
  obtain st lg where run: "foldl (pod_act_step memory_ops mr_report demo_env demo_mac demo_json demo_config) (demo_web, [])
      [ACallback (demo_callback ''e1'' 5 ''CANCELLED'')] = (st, lg)"
    by (rule prod.exhaust)
  have "pw_reputation demo_web = reputation_new" by (simp add: demo_web_def)
  note pods_never_succeed[OF this run]
  then have "filter oc_success (rl_records (pw_reputation st)) = []"
    unfolding filter_empty_conv .
  then show ?thesis unfolding run fst_conv by blast
qed

section \<open>Concurrent spawns\<close>

text \<open>
  \<open>api_pods_spawn\<close> without a gateway, lock by lock: the scan for the idempotency key, the count
  that numbers the pod and the append are three critical sections, and another request may run
  between any two of them.
\<close>

datatype spawn_at = SpWaiting | SpScanned | SpNumbered string | SpAnswered pod_record

fun spawn_atom :: "env \<Rightarrow> time \<Rightarrow> pod_spec \<Rightarrow> pod_record list \<times> spawn_at \<Rightarrow> pod_record list \<times> spawn_at" where
  "spawn_atom E now spec (pods, SpWaiting) =
     (case (case sp_idempotency_key spec of None \<Rightarrow> None
            | Some key \<Rightarrow> find (\<lambda>p. sp_idempotency_key (pd_spec p) = Some key) pods) of
        Some existing \<Rightarrow> (pods, SpAnswered existing)
      | None \<Rightarrow> (pods, SpScanned))"
| "spawn_atom E now spec (pods, SpScanned) = (pods, SpNumbered (''pod-'' @ zero_pad 4 (length pods)))"
| "spawn_atom E now spec (pods, SpNumbered i) =
     (let r = \<lparr>pd_id = i, pd_status = Spawned, pd_created_at = rfc3339 E now, pd_spec = spec, pd_revision = 0\<rparr>
      in (pods @ [r], SpAnswered r))"
| "spawn_atom E now spec (pods, SpAnswered r) = (pods, SpAnswered r)"

text \<open>Run without interruption, the three sections are the handler.\<close>

lemma spawn_atoms_sequential:
  assumes "spec_validate spec = Inr ()"
    and "(spawn_atom E now spec ^^ 3) (pw_pods st, SpWaiting) = (pods, at)"
  shows "\<exists>r. at = SpAnswered r \<and> pods_spawn E st now None spec = (st\<lparr>pw_pods := pods\<rparr>, Inr r)"
  using assms
  by (auto simp: pods_spawn_def Let_def numeral_3_eq_3 split: option.splits)

text \<open>Two requests with one spec, and a schedule that says whose turn it is.\<close>

fun race_step :: "env \<Rightarrow> time \<Rightarrow> pod_spec \<Rightarrow> pod_record list \<times> spawn_at \<times> spawn_at \<Rightarrow> bool
    \<Rightarrow> pod_record list \<times> spawn_at \<times> spawn_at" where
  "race_step E now spec (pods, a, b) turn =
     (if turn then (let (pods, a) = spawn_atom E now spec (pods, a) in (pods, a, b))
      else (let (pods, b) = spawn_atom E now spec (pods, b) in (pods, a, b)))"

text \<open>
  The idempotency key does not hold against concurrency: two requests with one
  key, whose scans both come before either append, spawn two pods, under one id, both with that
  key; the second is unreachable, since every lookup finds the first.
\<close>

theorem spawn_race:
  assumes "sp_idempotency_key spec = Some key"
    and "find (\<lambda>p. sp_idempotency_key (pd_spec p) = Some key) pods = None"
  shows "\<exists>sched r s. foldl (race_step E now spec) (pods, SpWaiting, SpWaiting) sched =
      (pods @ [r, s], SpAnswered r, SpAnswered s) \<and> pd_id r = pd_id s \<and>
    sp_idempotency_key (pd_spec r) = Some key \<and> sp_idempotency_key (pd_spec s) = Some key"
  using assms
  by (intro exI[of _ "[True, False, True, False, True, False]"]) (simp add: Let_def)

theorem spawn_race_witness:
  "\<exists>sched r s. foldl (race_step demo_env 0 ((demo_spec Low)\<lparr>sp_idempotency_key := Some ''k''\<rparr>))
      ([], SpWaiting, SpWaiting) sched = ([r, s], SpAnswered r, SpAnswered s) \<and> pd_id r = pd_id s"
  using spawn_race[of "(demo_spec Low)\<lparr>sp_idempotency_key := Some ''k''\<rparr>" "''k''" "[]" demo_env 0] by auto

end
