(* ===== verification/Web_Runs.thy ===== *)
theory Web_Runs
  imports Playbook Web_Auth Tools Decision Web_Agents
begin

text \<open>
  Playbook runs on the web server (\<open>agentbbs-web/src/lib.rs\<close>): starting and advancing a run,
  its progress thread, the record of its completion, and the recording of an approval. The
  administration gate in front of them is in \<open>Web_Auth\<close>; here a request has passed it, its
  body is parsed, and the configured approvers, board, clock and random bytes are arguments.
\<close>

section \<open>Driving a run\<close>

text \<open>\<open>advance\<close> answers \<open>Running\<close> only when it has moved and a step is left.\<close>

lemma advance_running:
  assumes "snd (advance E r gate approvers) = Running"
  shows "run_playbook (fst (advance E r gate approvers)) = run_playbook r \<and>
    run_cursor (fst (advance E r gate approvers)) = Suc (run_cursor r) \<and>
    Suc (run_cursor r) < length (pb_steps (run_playbook r))"
  using assms by (auto simp: advance_def Let_def split: if_splits)

function drive_run :: "env \<Rightarrow> playbook_run \<Rightarrow> approval_gate \<Rightarrow> agent_id list \<Rightarrow> playbook_run" where
  "drive_run E r gate approvers =
     (if snd (advance E r gate approvers) = Running then drive_run E (fst (advance E r gate approvers)) gate approvers
      else fst (advance E r gate approvers))"
  by pat_completeness auto

termination
proof (relation "measure (\<lambda>(E, r, gate, approvers). length (pb_steps (run_playbook r)) - run_cursor r)")
  fix E r gate approvers
  assume "snd (advance E r gate approvers) = Running"
  note moved = advance_running[OF this]
  then have "length (pb_steps (run_playbook r)) - Suc (run_cursor r) < length (pb_steps (run_playbook r)) - run_cursor r"
    by (intro diff_less_mono2) linarith+
  with moved show "((E, fst (advance E r gate approvers), gate, approvers), E, r, gate, approvers)
      \<in> measure (\<lambda>(E, r, gate, approvers). length (pb_steps (run_playbook r)) - run_cursor r)"
    by simp
qed simp

declare drive_run.simps [simp del]

section \<open>State and posts\<close>

record run_entry =
  re_id :: string
  re_run :: playbook_run
  re_board :: string
  re_milestone :: "message_id option"
  re_steps_posted :: nat

text \<open>The part of \<open>AppState\<close> the run handlers use.\<close>

record ('s, 'r) run_web =
  rw_bbs :: "('s, 'r) bbs"
  rw_agents :: "(string, identity) hmap"
  rw_gate :: approval_gate
  rw_runs :: "run_entry list"
  rw_decisions :: decision_log

definition autopilot_body :: "identity \<Rightarrow> string \<Rightarrow> string \<Rightarrow> string \<Rightarrow> message_kind \<Rightarrow> message_id option \<Rightarrow> time
    \<Rightarrow> message_body" where
  "autopilot_body i board subject body kind parent created =
     \<lparr>mb_board = board, mb_parent = parent, mb_subject = subject, mb_body = body, mb_author = ident i,
      mb_handle = ''autopilot'', mb_created_at = created, mb_kind = kind\<rparr>"

definition post_autopilot ::
  "'s store_ops \<Rightarrow> ('r \<Rightarrow> event \<Rightarrow> 'r result) \<Rightarrow> env \<Rightarrow> time \<Rightarrow> time \<Rightarrow> (string \<Rightarrow> bytes) \<Rightarrow> ('s, 'r) bbs \<times> (string, identity) hmap
    \<Rightarrow> string \<Rightarrow> string \<Rightarrow> string \<Rightarrow> message_kind \<Rightarrow> message_id option
    \<Rightarrow> (('s, 'r) bbs \<times> (string, identity) hmap) \<times> message_id option" where
  "post_autopilot T R E created now rnd s board subject body kind parent =
     (let (b, agents) = s;
          (agents, identity) = agent_identity E agents ''autopilot'' (rnd ''autopilot'')
      in case message_sign E identity (autopilot_body identity board subject body kind parent created) of
           Inl _ \<Rightarrow> ((b, agents), None)
         | Inr m \<Rightarrow> (let (b, r) = svc_post T R E now b (role_caps Agent) m
             in ((b, agents), case r of Inl _ \<Rightarrow> None | Inr k \<Rightarrow> Some k)))"

text \<open>A black triangle, a check mark, and quotes.\<close>

definition milestone_subject :: "playbook \<Rightarrow> string" where
  "milestone_subject pb = [CHR 0xE2, CHR 0x96, CHR 0xB6] @ '' Playbook '' @ [CHR 0x27] @ pb_name pb @ [CHR 0x27] @
     '' v'' @ pb_version pb"

definition milestone_body :: "playbook \<Rightarrow> string" where
  "milestone_body pb = ''Autopilot started '' @ [CHR 0x27] @ pb_name pb @ [CHR 0x27] @ '' (trigger: '' @
     pb_trigger pb @ '')'' @ em_dash @ dec (length (pb_steps pb)) @ '' step(s).''"

definition step_subject :: "playbook_step \<Rightarrow> string" where
  "step_subject s = [CHR 0xE2, CHR 0x9C, CHR 0x93] @ '' '' @ ps_id s"

text \<open>
  The progress thread. \<open>clk\<close> gives the readings of the clock: two for the milestone, two for
  each step; the loop posts the steps from the first not yet posted up to the first not yet
  completed, whatever becomes of the posts.
\<close>

definition post_run_progress ::
  "'s store_ops \<Rightarrow> ('r \<Rightarrow> event \<Rightarrow> 'r result) \<Rightarrow> env \<Rightarrow> (nat \<Rightarrow> time) \<Rightarrow> (string \<Rightarrow> bytes)
    \<Rightarrow> ('s, 'r) bbs \<times> (string, identity) hmap \<Rightarrow> run_entry
    \<Rightarrow> (('s, 'r) bbs \<times> (string, identity) hmap) \<times> run_entry" where
  "post_run_progress T R E clk rnd s entry =
     (let pb = run_playbook (re_run entry);
          (s, entry) = (if re_milestone entry = None
            then (let (s, k) = post_autopilot T R E (clk 0) (clk 1) rnd s (re_board entry)
                    (milestone_subject pb) (milestone_body pb) Milestone None
                  in (s, entry\<lparr>re_milestone := k\<rparr>))
            else (s, entry))
      in case re_milestone entry of
           None \<Rightarrow> (s, entry)
         | Some k \<Rightarrow>
             let completed = steps_completed (re_run entry)
             in (foldl (\<lambda>s n. fst (post_autopilot T R E (clk (2 + 2 * n)) (clk (3 + 2 * n)) rnd s (re_board entry)
                    (step_subject (pb_steps pb ! n)) (progress_summary (pb_steps pb ! n)) Step (Some k)))
                  s [re_steps_posted entry..<completed],
                 entry\<lparr>re_steps_posted := max (re_steps_posted entry) completed\<rparr>))"

definition completion_title :: "playbook \<Rightarrow> string" where
  "completion_title pb = ''Playbook '' @ [CHR 0x27] @ pb_name pb @ [CHR 0x27] @ '' completed''"

definition completion_rationale :: "playbook \<Rightarrow> string" where
  "completion_rationale pb = ''playbook '' @ pb_name pb @ ''@'' @ pb_version pb @ '' ran to completion via the autopilot''"

definition record_run_completion :: "env \<Rightarrow> time \<Rightarrow> (string \<Rightarrow> bytes) \<Rightarrow> ('s, 'r) run_web \<Rightarrow> playbook_run \<Rightarrow> ('s, 'r) run_web" where
  "record_run_completion E now rnd st r =
     (let pb = run_playbook r;
          (agents, org) = agent_identity E (rw_agents st) ''org-governance'' (rnd ''org-governance'');
          rec = record_new E org (completion_title pb)
            ''All steps executed and approval gates signed off''
            (completion_rationale pb)
            ''general'' now
      in st\<lparr>rw_agents := agents,
            rw_decisions := (case dlog_add E (rw_decisions st) rec of Inl _ \<Rightarrow> rw_decisions st | Inr l \<Rightarrow> l)\<rparr>)"

section \<open>Handlers\<close>

record run_view =
  rv_run_id :: string
  rv_status :: run_status
  rv_current_step :: "string option"
  rv_gate_action_id :: "string option"

definition run_view_of :: "string \<Rightarrow> playbook_run \<Rightarrow> run_view" where
  "run_view_of i r = \<lparr>rv_run_id = i, rv_status = run_status r,
     rv_current_step = map_option ps_id (run_current r), rv_gate_action_id = gate_action_id r\<rparr>"

definition run_number :: "nat \<Rightarrow> string" where
  "run_number n = ''run-'' @ zero_pad 4 n"

definition api_playbook_run ::
  "'s store_ops \<Rightarrow> ('r \<Rightarrow> event \<Rightarrow> 'r result) \<Rightarrow> env \<Rightarrow> (nat \<Rightarrow> time) \<Rightarrow> time \<Rightarrow> (string \<Rightarrow> bytes) \<Rightarrow> string \<Rightarrow> agent_id list
    \<Rightarrow> ('s, 'r) run_web \<Rightarrow> playbook \<Rightarrow> ('s, 'r) run_web \<times> (status_code \<times> string + run_view)" where
  "api_playbook_run T R E clk done_at rnd board approvers st pb =
     (case run_start pb of
        Inl e \<Rightarrow> (st, Inl (BAD_REQUEST, ''invalid playbook: '' @ error_display e))
      | Inr r \<Rightarrow>
          let r = drive_run E r (rw_gate st) approvers;
              st = (if run_status r = Completed then record_run_completion E done_at rnd st r else st);
              i = run_number (length (rw_runs st));
              entry = \<lparr>re_id = i, re_run = r, re_board = board, re_milestone = None, re_steps_posted = 0\<rparr>;
              ((b, agents), entry) = post_run_progress T R E clk rnd (rw_bbs st, rw_agents st) entry
          in (st\<lparr>rw_bbs := b, rw_agents := agents, rw_runs := rw_runs st @ [entry]\<rparr>, Inr (run_view_of i (re_run entry))))"

definition api_run_advance ::
  "'s store_ops \<Rightarrow> ('r \<Rightarrow> event \<Rightarrow> 'r result) \<Rightarrow> env \<Rightarrow> (nat \<Rightarrow> time) \<Rightarrow> time \<Rightarrow> (string \<Rightarrow> bytes) \<Rightarrow> agent_id list
    \<Rightarrow> ('s, 'r) run_web \<Rightarrow> string \<Rightarrow> ('s, 'r) run_web \<times> (status_code \<times> string + run_view)" where
  "api_run_advance T R E clk done_at rnd approvers st i =
     (case find (\<lambda>e. re_id e = i) (rw_runs st) of
        None \<Rightarrow> (st, Inl (NOT_FOUND, ''run not found''))
      | Some entry \<Rightarrow>
          let was = run_status (re_run entry);
              entry = entry\<lparr>re_run := drive_run E (re_run entry) (rw_gate st) approvers\<rparr>;
              ((b, agents), entry) = post_run_progress T R E clk rnd (rw_bbs st, rw_agents st) entry;
              st = st\<lparr>rw_bbs := b, rw_agents := agents, rw_runs := update_first (\<lambda>e. re_id e = i) (\<lambda>_. entry) (rw_runs st)\<rparr>;
              st = (if was \<noteq> Completed \<and> run_status (re_run entry) = Completed
                then record_run_completion E done_at rnd st (re_run entry) else st)
          in (st, Inr (run_view_of (re_id entry) (re_run entry))))"

definition api_approvals_decide :: "env \<Rightarrow> agent_id list \<Rightarrow> ('s, 'r) run_web \<Rightarrow> signed_decision
    \<Rightarrow> ('s, 'r) run_web \<times> (status_code \<times> string + unit)" where
  "api_approvals_decide E approvers st d =
     (case check_approver (sd_decider d) approvers of
        Inl reason \<Rightarrow> (st, Inl (FORBIDDEN, reason))
      | Inr _ \<Rightarrow>
     (case gate_record E (rw_gate st) d of
        Inl _ \<Rightarrow> (st, Inl (BAD_REQUEST, ''decision signature invalid''))
      | Inr g \<Rightarrow> (st\<lparr>rw_gate := g\<rparr>, Inr ())))"

section \<open>Driving to a gate\<close>

text \<open>Where a run stops: at the end, or parked at a gate that is not authorized.\<close>

definition run_stopped :: "env \<Rightarrow> approval_gate \<times> agent_id list \<Rightarrow> playbook_run \<Rightarrow> bool" where
  "run_stopped E c r \<longleftrightarrow> run_status r = Completed \<or>
     run_status r = AwaitingApproval \<and> gate_at (run_playbook r) (run_cursor r) \<and>
     \<not> approved_at E (run_playbook r) (run_cursor r) c"

lemma drive_run_stop: "snd (advance E r g al) \<noteq> Running \<Longrightarrow> drive_run E r g al = fst (advance E r g al)"
  by (subst drive_run.simps) simp

lemma drive_run_go: "snd (advance E r g al) = Running \<Longrightarrow> drive_run E r g al = drive_run E (fst (advance E r g al)) g al"
  by (subst drive_run.simps) simp

lemma advance_status: "snd (advance E r g al) = run_status (fst (advance E r g al))"
  by (simp add: advance_def Let_def)

lemma drive_run_spec:
  assumes "run_ok r"
  shows "run_ok (drive_run E r g al) \<and> run_playbook (drive_run E r g al) = run_playbook r \<and>
    run_cursor r \<le> run_cursor (drive_run E r g al) \<and> run_stopped E (g, al) (drive_run E r g al) \<and>
    (\<forall>i. run_cursor r \<le> i \<longrightarrow> i < run_cursor (drive_run E r g al) \<longrightarrow> gate_at (run_playbook r) i \<longrightarrow>
      approved_at E (run_playbook r) i (g, al))"
  using assms
proof (induction E r g al rule: drive_run.induct)
  case (1 E r g al)
  let ?r = "fst (advance E r g al)"
  have ok: "run_ok ?r" "run_playbook ?r = run_playbook r" using advance_ok[OF "1.prems"] by simp_all
  from "1.prems" show ?case
  proof (cases rule: advance_cases[of r E g al])
    case finished
    then show ?thesis using "1.prems" by (simp add: drive_run_stop run_stopped_def)
  next
    case parked
    then show ?thesis
      using "1.prems" ok by (simp add: drive_run_stop run_stopped_def gate_at_def approved_at_def)
  next
    case moved
    have here: "gate_at (run_playbook r) (run_cursor r) \<Longrightarrow> approved_at E (run_playbook r) (run_cursor r) (g, al)"
      using moved(2) by (simp add: gate_at_def approved_at_def)
    show ?thesis
    proof (cases "snd (advance E r g al) = Running")
      case True
      have "i = run_cursor r \<or> Suc (run_cursor r) \<le> i" if "run_cursor r \<le> i" for i
        using that by linarith
      then show ?thesis
        using "1.IH"[OF True ok(1)] moved(5) ok here by (simp add: drive_run_go[OF True]) (metis Suc_leD)
    next
      case False
      have "run_status ?r \<noteq> AwaitingApproval"
        using moved(1,5) "1.prems" by (auto simp: advance_def Let_def split: if_splits)
      then have "run_status ?r = Completed"
        using False ok(1) by (cases "run_status ?r") (auto simp: advance_status run_ok_def)
      then show ?thesis
        using False moved(5) ok here by (simp add: drive_run_stop run_stopped_def) (metis le_antisym less_Suc_eq_le)
    qed
  qed
qed

text \<open>The loop is so many calls of \<open>advance\<close>: one for each step left, and more change nothing.\<close>

lemma stopped_advance:
  assumes "run_ok r" "run_stopped E (g, al) r"
  shows "fst (advance E r g al) = r"
  using assms(1)
proof (cases rule: advance_cases[of r E g al])
  case moved
  then show ?thesis
    using assms by (auto simp: run_stopped_def gate_at_def approved_at_def)
qed (use assms in \<open>auto simp: run_stopped_def\<close>)

lemma stopped_drive:
  "run_ok r \<Longrightarrow> run_stopped E (g, al) r \<Longrightarrow> drive E r (replicate n (g, al)) = r"
  by (induction n) (simp_all add: stopped_advance)

lemma drive_run_drive:
  assumes "run_ok r" "length (pb_steps (run_playbook r)) - run_cursor r \<le> n"
  shows "drive E r (replicate (Suc n) (g, al)) = drive_run E r g al"
  using assms
proof (induction n arbitrary: r)
  case 0
  then have "run_status r = Completed" by (auto simp: run_ok_def)
  then show ?case by (simp add: advance_def drive_run_stop)
next
  case (Suc n)
  let ?r = "fst (advance E r g al)"
  have ok: "run_ok ?r" "run_playbook ?r = run_playbook r" using advance_ok[OF Suc.prems(1)] by simp_all
  show ?case
  proof (cases "snd (advance E r g al) = Running")
    case True
    have "length (pb_steps (run_playbook ?r)) - run_cursor ?r \<le> n"
      using advance_running[OF True] Suc.prems(2) by simp
    then show ?thesis
      using Suc.IH[OF ok(1)] by (simp add: drive_run_go[OF True])
  next
    case False
    then have "drive_run E r g al = ?r" by (rule drive_run_stop)
    then show ?thesis
      using stopped_drive[OF ok(1), of E g al "Suc n"] drive_run_spec[OF Suc.prems(1), of E g al] by simp
  qed
qed

text \<open>
  Driving a run ends, and ends where it should: with the gate and approvers of one
  request the loop makes at most one call per step left (calling on changes nothing), every gate
  it passes is authorized, and it stops either with the run completed or parked at the first
  gate that is not authorized.
\<close>

theorem drive_run_settles:
  assumes "run_ok r" "length (pb_steps (run_playbook r)) - run_cursor r \<le> n"
  shows "let r' = drive_run E r g al in r' = drive E r (replicate (Suc n) (g, al)) \<and>
    run_ok r' \<and> run_playbook r' = run_playbook r \<and>
    filter (\<lambda>i. gate_at (run_playbook r) i \<and> \<not> approved_at E (run_playbook r) i (g, al))
      [run_cursor r..<run_cursor r'] = [] \<and>
    (run_status r' = Completed \<or> run_status r' = AwaitingApproval \<and>
      gate_at (run_playbook r) (run_cursor r') \<and> \<not> approved_at E (run_playbook r) (run_cursor r') (g, al))"
proof -
  note spec = drive_run_spec[OF assms(1), of E g al]
  have "filter (\<lambda>i. gate_at (run_playbook r) i \<and> \<not> approved_at E (run_playbook r) i (g, al))
      [run_cursor r..<run_cursor (drive_run E r g al)] = []"
    using spec by (auto simp: filter_empty_conv)
  moreover have "run_stopped E (g, al) (drive_run E r g al)" "run_playbook (drive_run E r g al) = run_playbook r"
      "run_ok (drive_run E r g al)"
    using spec by simp_all
  ultimately show ?thesis
    unfolding Let_def drive_run_drive[OF assms] run_stopped_def by simp
qed

lemma demo_run_parks: "advance demo_env (demo_run\<lparr>run_cursor := 1\<rparr>) gate_new [] =
    (demo_run\<lparr>run_cursor := 1, run_status := AwaitingApproval\<rparr>, AwaitingApproval)"
  by (simp add: advance_def run_current_def demo_run_def demo_playbook_def playbook_new_def demo_steps_def
      is_authorized_def gate_new_def Let_def)

lemma demo_run_moves: "advance demo_env demo_run g al = (demo_run\<lparr>run_cursor := 1\<rparr>, Running)"
  by (simp add: advance_def run_current_def demo_run_def demo_playbook_def playbook_new_def demo_steps_def Let_def)

lemma demo_run_ok: "run_ok demo_run"
  using run_start_ok[OF demo_run_start] by simp

lemma demo_run_steps: "length (pb_steps (run_playbook demo_run)) = 2"
  by (simp add: demo_run_def demo_playbook_def playbook_new_def demo_steps_def)

theorem drive_run_settles_witness:
  "drive_run demo_env demo_run gate_new [] = demo_run\<lparr>run_cursor := 1, run_status := AwaitingApproval\<rparr>"
proof -
  have "length (pb_steps (run_playbook demo_run)) - run_cursor demo_run \<le> 2" by (simp add: demo_run_steps)
  from drive_run_settles[OF demo_run_ok this, of demo_env gate_new "[]", unfolded Let_def, THEN conjunct1]
  show ?thesis
    using demo_run_parks by (simp add: demo_run_moves numeral_2_eq_2) (simp add: advance_def run_current_def
      demo_run_def demo_playbook_def playbook_new_def demo_steps_def is_authorized_def gate_new_def Let_def)
qed

definition gate_ids :: "playbook \<Rightarrow> string set" where
  "gate_ids p = ps_id ` set (filter (\<lambda>s. is_gate (ps_kind s)) (pb_steps p))"

lemma drive_run_completed_iff:
  assumes "run_start p = Inr r"
  shows "run_status (drive_run E r g al) = Completed \<longleftrightarrow>
    (\<forall>i \<in> gate_ids p. is_authorized E g (''playbook:'' @ pb_id p @ '':'' @ i) al)"
proof -
  have start: "run_ok r" "run_playbook r = p" "run_cursor r = 0" using run_start_ok[OF assms] by simp_all
  let ?r = "drive_run E r g al"
  note spec = drive_run_spec[OF start(1), of E g al]
  have ids: "(\<forall>i \<in> gate_ids p. is_authorized E g (''playbook:'' @ pb_id p @ '':'' @ i) al) \<longleftrightarrow>
      (\<forall>i < length (pb_steps p). gate_at p i \<longrightarrow> approved_at E p i (g, al))"
    by (auto simp: gate_ids_def gate_at_def approved_at_def action_id_def in_set_conv_nth)
  show ?thesis
  proof
    assume "run_status ?r = Completed"
    then have "run_cursor ?r = length (pb_steps p)" using spec start(2) by (auto simp: run_ok_def)
    then show "\<forall>i \<in> gate_ids p. is_authorized E g (''playbook:'' @ pb_id p @ '':'' @ i) al"
      unfolding ids using spec start by simp
  next
    assume "\<forall>i \<in> gate_ids p. is_authorized E g (''playbook:'' @ pb_id p @ '':'' @ i) al"
    note all = iffD1[OF ids this]
    show "run_status ?r = Completed"
    proof (rule ccontr)
      assume open_run: "run_status ?r \<noteq> Completed"
      then have "run_cursor ?r < length (pb_steps p)" using spec start(2) by (auto simp: run_ok_def)
      with open_run all spec start(2) show False by (auto simp: run_stopped_def)
    qed
  qed
qed

text \<open>
  Property C25. An approval is bound to what a playbook calls itself, not to what it does: once
  one run of a playbook has passed its gates, a run of any valid playbook whose submitted
  \<open>playbook_id\<close> is the same and whose gates reuse step ids of the first runs to completion
  under the decisions already recorded, with no new sign-off, whatever its other steps are.
  Nothing on the way checks a submitted id against the content it should be the hash of.
\<close>

theorem approval_follows_claimed_id:
  assumes "run_start p = Inr r" "run_status (drive_run E r g al) = Completed"
    and "run_start q = Inr r'" "pb_id q = pb_id p" "gate_ids q \<subseteq> gate_ids p"
  shows "run_status (drive_run E r' g al) = Completed"
  using assms(2,4,5) unfolding drive_run_completed_iff[OF assms(1)] drive_run_completed_iff[OF assms(3)]
  by auto

text \<open>The approved playbook's id, over a payment nobody approved.\<close>

definition demo_forged :: playbook where
  "demo_forged = demo_playbook\<lparr>pb_steps := \<lparr>ps_id = ''pay'', ps_kind = Tool ''wire''\<rparr> # demo_steps\<rparr>"

lemma demo_forged_start: "run_start demo_forged =
    Inr \<lparr>run_playbook = demo_forged, run_cursor = 0, run_status = Running\<rparr>"
proof -
  have "validate_steps {} (\<lparr>ps_id = ''pay'', ps_kind = Tool ''wire''\<rparr> # demo_steps) = Inr ()" by code_simp
  then show ?thesis
    by (simp add: run_start_def playbook_validate_def demo_forged_def demo_playbook_def playbook_new_def
        demo_names del: validate_steps.simps)
qed

theorem approval_follows_claimed_id_witness:
  "pb_id demo_forged \<noteq> pb_id (playbook_new demo_env ''triage'' ''1'' ''manual'' (pb_steps demo_forged)) \<and>
   run_status (drive_run demo_env \<lparr>run_playbook = demo_forged, run_cursor = 0, run_status = Running\<rparr>
     demo_spend_gate [ident (demo_id 1)]) = Completed"
proof
  have "blake3 demo_env m = m" for m by (simp add: demo_env_def)
  then have "pb_id demo_forged = pb_id (playbook_new demo_env ''triage'' ''1'' ''manual'' (pb_steps demo_forged))
      \<longrightarrow> length (pb_steps demo_forged) = length demo_steps"
    by (auto simp: demo_forged_def demo_playbook_def playbook_new_def blake3_hex_def hex_enc_inj[OF demo_hex_ok]
        playbook_bytes_inj dest: arg_cong[of _ _ length])
  then show "pb_id demo_forged \<noteq>
      pb_id (playbook_new demo_env ''triage'' ''1'' ''manual'' (pb_steps demo_forged))"
    by (auto simp: demo_forged_def)
next
  have auth: "is_authorized demo_env demo_spend_gate (action_id demo_playbook (demo_steps ! 1)) [ident (demo_id 1)]"
    by (simp add: is_authorized_def demo_spend_gate_def decision_sign_def)
  have gates: "gate_ids demo_playbook = {''spend''}" "gate_ids demo_forged = {''spend''}"
      "pb_id demo_forged = pb_id demo_playbook"
    by (auto simp: gate_ids_def demo_forged_def demo_playbook_def playbook_new_def demo_steps_def)
  have "run_status (drive_run demo_env demo_run demo_spend_gate [ident (demo_id 1)]) = Completed"
    using auth by (simp add: drive_run_completed_iff[OF demo_run_start] gates(1) action_id_def demo_steps_def)
  from approval_follows_claimed_id[OF demo_run_start this demo_forged_start] gates
  show "run_status (drive_run demo_env \<lparr>run_playbook = demo_forged, run_cursor = 0, run_status = Running\<rparr>
     demo_spend_gate [ident (demo_id 1)]) = Completed"
    by simp
qed

section \<open>The run registry\<close>

text \<open>
  What reaches the registry: runs started and advanced, decisions, and whatever other requests do
  to the boards in between.
\<close>

datatype ('s, 'r) run_event =
    Start_run "nat \<Rightarrow> time" time "string \<Rightarrow> bytes" string "agent_id list" playbook
  | Advance_run "nat \<Rightarrow> time" time "string \<Rightarrow> bytes" "agent_id list" string
  | Decide "agent_id list" signed_decision
  | Board_traffic "('s, 'r) bbs"

fun run_web_step :: "'s store_ops \<Rightarrow> ('r \<Rightarrow> event \<Rightarrow> 'r result) \<Rightarrow> env \<Rightarrow> ('s, 'r) run_web \<Rightarrow> ('s, 'r) run_event
    \<Rightarrow> ('s, 'r) run_web" where
  "run_web_step T R E st (Start_run clk done_at rnd board approvers pb) =
     fst (api_playbook_run T R E clk done_at rnd board approvers st pb)"
| "run_web_step T R E st (Advance_run clk done_at rnd approvers i) =
     fst (api_run_advance T R E clk done_at rnd approvers st i)"
| "run_web_step T R E st (Decide approvers d) = fst (api_approvals_decide E approvers st d)"
| "run_web_step T R E st (Board_traffic b) = st\<lparr>rw_bbs := b\<rparr>"

fun event_random_ok :: "('s, 'r) run_event \<Rightarrow> bool" where
  "event_random_ok (Start_run clk done_at rnd board approvers pb) \<longleftrightarrow> (\<forall>h. length (rnd h) = 32)"
| "event_random_ok (Advance_run clk done_at rnd approvers i) \<longleftrightarrow> (\<forall>h. length (rnd h) = 32)"
| "event_random_ok _ \<longleftrightarrow> True"

text \<open>A verified record in the log that tells of the completion of a playbook.\<close>

definition completion_recorded :: "env \<Rightarrow> decision_log \<Rightarrow> playbook \<Rightarrow> bool" where
  "completion_recorded E l pb \<longleftrightarrow> (\<exists>rec i t. rec \<in> set (records l) \<and> record_verify E rec = Inr () \<and>
     dr_id rec = dr_id (record_new E i (completion_title pb)
            ''All steps executed and approval gates signed off''
            (completion_rationale pb)
            ''general'' t))"

text \<open>What the thread has told: nothing before the milestone is posted, then every completed step.\<close>

definition thread_ok :: "run_entry \<Rightarrow> bool" where
  "thread_ok e \<longleftrightarrow> re_steps_posted e = (case re_milestone e of None \<Rightarrow> 0 | Some _ \<Rightarrow> run_cursor (re_run e))"

definition entry_ok :: "run_entry \<Rightarrow> bool" where
  "entry_ok e \<longleftrightarrow> run_ok (re_run e) \<and> run_status (re_run e) \<in> {AwaitingApproval, Completed} \<and> thread_ok e"

definition runs_inv :: "env \<Rightarrow> ('s, 'r) run_web \<Rightarrow> bool" where
  "runs_inv E st \<longleftrightarrow> agents_wf E (rw_agents st) \<and>
     list_all (\<lambda>x. record_verify E x = Inr ()) (records (rw_decisions st)) \<and>
     list_all entry_ok (rw_runs st) \<and>
     map re_id (rw_runs st) = map run_number [0..<length (rw_runs st)] \<and>
     list_all (\<lambda>e. run_status (re_run e) = Completed \<longrightarrow>
        completion_recorded E (rw_decisions st) (run_playbook (re_run e))) (rw_runs st)"

subsection \<open>Ids\<close>

lemma run_number_inj [simp]: "run_number m = run_number n \<longleftrightarrow> m = n"
  by (simp add: run_number_def)

subsection \<open>Posting\<close>

lemma post_autopilot_agents:
  assumes "agents_wf E (snd s)" "length (rnd ''autopilot'') = 32"
  shows "agents_wf E (snd (fst (post_autopilot T R E c n rnd s board subject body kind parent)))"
proof -
  obtain agents i where ag: "agent_identity E (snd s) ''autopilot'' (rnd ''autopilot'') = (agents, i)"
    by (meson surj_pair)
  then show ?thesis
    using agent_identity_wf[OF assms ag]
    by (simp add: post_autopilot_def case_prod_beta Let_def split: sum.splits)
qed

lemma post_autopilot_loop_agents:
  assumes "\<And>s n. agents_wf E (snd s) \<Longrightarrow> agents_wf E (snd (f s n))" "agents_wf E (snd s)"
  shows "agents_wf E (snd (foldl f s ns))"
  using assms(2)
proof (induction ns arbitrary: s)
  case (Cons n ns)
  show ?case using Cons.IH[OF assms(1)[OF Cons.prems]] by simp
qed simp

lemma post_run_progress_entry:
  assumes "post_run_progress T R E clk rnd s entry = (s', entry')"
    and "re_steps_posted entry \<le> run_cursor (re_run entry)"
      "re_milestone entry = None \<Longrightarrow> re_steps_posted entry = 0"
  shows "re_run entry' = re_run entry \<and> re_id entry' = re_id entry \<and> thread_ok entry'"
  using assms
  by (auto simp: post_run_progress_def thread_ok_def steps_completed_def case_prod_beta Let_def
      split: option.splits if_splits)

lemma post_run_progress_agents:
  fixes s :: "('a, 'b) bbs \<times> (string, identity) hmap"
  assumes "agents_wf E (snd s)" "length (rnd ''autopilot'') = 32"
  shows "agents_wf E (snd (fst (post_run_progress T R E clk rnd s entry)))"
proof -
  have one: "agents_wf E (snd s) \<Longrightarrow>
      agents_wf E (snd (fst (post_autopilot T R E c n rnd s board subject body kind parent)))"
    for s :: "('a, 'b) bbs \<times> (string, identity) hmap" and c n board subject body kind parent
    by (rule post_autopilot_agents[where rnd = rnd, OF _ assms(2)])
  have many: "agents_wf E (snd s) \<Longrightarrow> agents_wf E (snd (foldl (\<lambda>s n. fst (post_autopilot T R E (c n) (d n) rnd s
      board (subject n) (body n) kind parent)) s ns))"
    for s :: "('a, 'b) bbs \<times> (string, identity) hmap" and c d ns board subject body kind parent
    by (rule post_autopilot_loop_agents) (rule one)
  show ?thesis
    using assms(1)
    by (auto simp: post_run_progress_def case_prod_beta Let_def one many split: option.splits)
qed

subsection \<open>The thread\<close>

text \<open>
  What a progress update from entry \<open>e\<close> to \<open>e'\<close> posts, as a list of signed messages with the
  times they are posted at: the milestone unless there is one, and when one is up then, a
  \<open>Step\<close> post under it for each completed step that had none.
\<close>

definition autopilot_message :: "env \<Rightarrow> identity \<Rightarrow> string \<Rightarrow> string \<Rightarrow> string \<Rightarrow> message_kind \<Rightarrow> message_id option \<Rightarrow> time
    \<Rightarrow> message" where
  "autopilot_message E i board subject body kind parent created =
     (let b = autopilot_body i board subject body kind parent created
      in \<lparr>msg_id = body_id E b, msg_body = b, msg_signature = sign E i (body_signing_bytes E b)\<rparr>)"

definition autopilot_key :: "env \<Rightarrow> (string, identity) hmap \<Rightarrow> (string \<Rightarrow> bytes) \<Rightarrow> identity" where
  "autopilot_key E agents rnd = snd (agent_identity E agents ''autopilot'' (rnd ''autopilot''))"

definition milestone_posts :: "env \<Rightarrow> identity \<Rightarrow> (nat \<Rightarrow> time) \<Rightarrow> run_entry \<Rightarrow> (message \<times> time) list" where
  "milestone_posts E i clk e = (let pb = run_playbook (re_run e) in
     if re_milestone e = None
     then [(autopilot_message E i (re_board e) (milestone_subject pb) (milestone_body pb) Milestone None (clk 0), clk 1)]
     else [])"

definition step_posts :: "env \<Rightarrow> identity \<Rightarrow> (nat \<Rightarrow> time) \<Rightarrow> run_entry \<Rightarrow> message_id \<Rightarrow> nat list \<Rightarrow> (message \<times> time) list" where
  "step_posts E i clk e k ns = (let pb = run_playbook (re_run e) in
     map (\<lambda>n. (autopilot_message E i (re_board e) (step_subject (pb_steps pb ! n)) (progress_summary (pb_steps pb ! n))
       Step (Some k) (clk (2 + 2 * n)), clk (3 + 2 * n))) ns)"

definition thread_posts :: "env \<Rightarrow> identity \<Rightarrow> (nat \<Rightarrow> time) \<Rightarrow> run_entry \<Rightarrow> run_entry \<Rightarrow> (message \<times> time) list" where
  "thread_posts E i clk e e' = milestone_posts E i clk e @
     (case re_milestone e' of None \<Rightarrow> []
      | Some k \<Rightarrow> step_posts E i clk e' k [re_steps_posted e..<steps_completed (re_run e')])"

definition post_thread :: "'s store_ops \<Rightarrow> ('r \<Rightarrow> event \<Rightarrow> 'r result) \<Rightarrow> env \<Rightarrow> ('s, 'r) bbs \<Rightarrow> (message \<times> time) list
    \<Rightarrow> ('s, 'r) bbs" where
  "post_thread T R E b xs = foldl (\<lambda>b (m, t). fst (svc_post T R E t b (role_caps Agent) m)) b xs"

lemma post_autopilot_eq:
  assumes "agent_identity E agents ''autopilot'' (rnd ''autopilot'') = (agents', i)"
  shows "post_autopilot T R E created now rnd (b, agents) board subject body kind parent =
    (let p = svc_post T R E now b (role_caps Agent) (autopilot_message E i board subject body kind parent created)
     in ((fst p, agents'), case snd p of Inl _ \<Rightarrow> None | Inr k \<Rightarrow> Some k))"
  by (simp add: post_autopilot_def assms message_sign_def autopilot_message_def autopilot_body_def Let_def split_beta
      del: role_caps.simps)

lemma step_loop_posts:
  assumes "autopilot_key E (snd s) rnd = i"
  shows "fst (foldl (\<lambda>s n. fst (post_autopilot T R E (clk (2 + 2 * n)) (clk (3 + 2 * n)) rnd s (re_board e)
      (step_subject (pb_steps (run_playbook (re_run e)) ! n)) (progress_summary (pb_steps (run_playbook (re_run e)) ! n))
      Step (Some k))) s ns) =
    post_thread T R E (fst s) (step_posts E i clk e k ns)"
  using assms
proof (induction ns arbitrary: s)
  case Nil
  then show ?case by (simp add: post_thread_def step_posts_def)
next
  case (Cons n ns)
  obtain agents' where ag: "agent_identity E (snd s) ''autopilot'' (rnd ''autopilot'') = (agents', i)"
    using Cons.prems by (cases "agent_identity E (snd s) ''autopilot'' (rnd ''autopilot'')") (auto simp: autopilot_key_def)
  have "autopilot_key E agents' rnd = i"
    using agent_identity_stable[OF ag] by (simp add: autopilot_key_def)
  then show ?case
    using Cons.IH post_autopilot_eq[of E "snd s" rnd, OF ag, of T R _ _ "fst s"]
    by (simp add: post_thread_def step_posts_def Let_def del: role_caps.simps)
qed

text \<open>The milestone is up when there was one or the post of one is accepted.\<close>

definition milestone_after :: "'s store_ops \<Rightarrow> ('r \<Rightarrow> event \<Rightarrow> 'r result) \<Rightarrow> env \<Rightarrow> ('s, 'r) bbs \<Rightarrow> identity \<Rightarrow> (nat \<Rightarrow> time)
    \<Rightarrow> run_entry \<Rightarrow> message_id option" where
  "milestone_after T R E b i clk e = (case milestone_posts E i clk e of
     [] \<Rightarrow> re_milestone e
   | (m, t) # _ \<Rightarrow> (case snd (svc_post T R E t b (role_caps Agent) m) of Inl _ \<Rightarrow> None | Inr k \<Rightarrow> Some k))"

lemma post_run_progress_posts:
  assumes "post_run_progress T R E clk rnd (b, agents) e = ((b', agents'), e')" "autopilot_key E agents rnd = i"
  shows "b' = post_thread T R E b (thread_posts E i clk e e') \<and>
    re_milestone e' = milestone_after T R E b i clk e"
proof -
  obtain agents1 where ag: "agent_identity E agents ''autopilot'' (rnd ''autopilot'') = (agents1, i)"
    using assms(2) by (cases "agent_identity E agents ''autopilot'' (rnd ''autopilot'')") (auto simp: autopilot_key_def)
  then have key1: "autopilot_key E agents1 rnd = i"
    using agent_identity_stable[OF ag] by (simp add: autopilot_key_def)
  show ?thesis
  proof (cases "re_milestone e")
    case (Some k)
    with assms(1) have run: "(b', agents') = foldl (\<lambda>s n. fst (post_autopilot T R E (clk (2 + 2 * n)) (clk (3 + 2 * n)) rnd s
          (re_board e) (step_subject (pb_steps (run_playbook (re_run e)) ! n))
          (progress_summary (pb_steps (run_playbook (re_run e)) ! n)) Step (Some k))) (b, agents)
          [re_steps_posted e..<steps_completed (re_run e)]"
      and e': "e' = e\<lparr>re_steps_posted := max (re_steps_posted e) (steps_completed (re_run e))\<rparr>"
      by (auto simp: post_run_progress_def Let_def)
    have "fst (b', agents') = post_thread T R E b (step_posts E i clk e k [re_steps_posted e..<steps_completed (re_run e)])"
      unfolding run by (subst step_loop_posts[where i = i]) (simp_all add: assms(2))
    then have "b' = post_thread T R E b (step_posts E i clk e k [re_steps_posted e..<steps_completed (re_run e)])" by simp
    with Some show ?thesis by (simp add: e' milestone_after_def thread_posts_def milestone_posts_def step_posts_def Let_def)
  next
    case None
    let ?pb = "run_playbook (re_run e)"
    define m where "m = autopilot_message E i (re_board e) (milestone_subject ?pb) (milestone_body ?pb) Milestone None (clk 0)"
    obtain b1 r where post: "svc_post T R E (clk 1) b (role_caps Agent) m = (b1, r)" by fastforce
    have hd: "milestone_posts E i clk e = [(m, clk 1)]" by (simp add: milestone_posts_def None m_def Let_def)
    show ?thesis
    proof (cases r)
      case (Inl x)
      then show ?thesis
        using assms(1) post None
        by (auto simp: post_run_progress_def Let_def post_autopilot_eq[where rnd = rnd, OF ag] m_def[symmetric] thread_posts_def
            milestone_after_def post_thread_def hd simp del: role_caps.simps)
    next
      case (Inr k)
      let ?e = "e\<lparr>re_milestone := Some k\<rparr>"
      have run: "(b', agents') = foldl (\<lambda>s n. fst (post_autopilot T R E (clk (2 + 2 * n)) (clk (3 + 2 * n)) rnd s
          (re_board ?e) (step_subject (pb_steps (run_playbook (re_run ?e)) ! n))
          (progress_summary (pb_steps (run_playbook (re_run ?e)) ! n)) Step (Some k))) (b1, agents1)
          [re_steps_posted e..<steps_completed (re_run e)]"
        and e': "e' = ?e\<lparr>re_steps_posted := max (re_steps_posted e) (steps_completed (re_run e))\<rparr>"
        using assms(1) post None Inr
        by (auto simp: post_run_progress_def Let_def post_autopilot_eq[where rnd = rnd, OF ag] m_def[symmetric] simp del: role_caps.simps)
      have "fst (b', agents') = post_thread T R E b1 (step_posts E i clk ?e k [re_steps_posted e..<steps_completed (re_run e)])"
        unfolding run by (subst step_loop_posts[where i = i]) (simp_all add: key1)
      then have "b' = post_thread T R E b1 (step_posts E i clk ?e k [re_steps_posted e..<steps_completed (re_run e)])" by simp
      moreover have "post_thread T R E b (milestone_posts E i clk e @ xs) = post_thread T R E b1 xs" for xs
        using post by (simp add: post_thread_def hd del: role_caps.simps)
      ultimately show ?thesis
        using None post by (simp add: e' thread_posts_def step_posts_def milestone_after_def hd Inr Let_def del: role_caps.simps)
    qed
  qed
qed

subsection \<open>Completion\<close>

lemma record_run_completion_spec:
  fixes st :: "('s, 'r) run_web"
  assumes "sig_ok E" "agents_wf E (rw_agents st)" "length (rnd ''org-governance'') = 32"
  shows "let st' = record_run_completion E now rnd st r in agents_wf E (rw_agents st') \<and>
    rw_runs st' = rw_runs st \<and> rw_bbs st' = rw_bbs st \<and> rw_gate st' = rw_gate st \<and>
    set (records (rw_decisions st)) \<subseteq> set (records (rw_decisions st')) \<and>
    (list_all (\<lambda>x. record_verify E x = Inr ()) (records (rw_decisions st)) \<longrightarrow>
      list_all (\<lambda>x. record_verify E x = Inr ()) (records (rw_decisions st')) \<and>
      completion_recorded E (rw_decisions st') (run_playbook r))"
proof -
  obtain agents org where ag: "agent_identity E (rw_agents st) ''org-governance'' (rnd ''org-governance'') = (agents, org)"
    by (meson surj_pair)
  note wf = agent_identity_wf[OF assms(2,3) ag]
  define rec where "rec = record_new E org (completion_title (run_playbook r))
    ''All steps executed and approval gates signed off'' (completion_rationale (run_playbook r)) ''general'' now"
  have ver: "record_verify E rec = Inr ()"
    unfolding rec_def by (rule record_new_verifies[OF assms(1)]) (use wf in simp)
  have st': "record_run_completion E now rnd st r = st\<lparr>rw_agents := agents, rw_decisions :=
      (if dr_id rec \<in> dr_id ` set (records (rw_decisions st)) then rw_decisions st
       else (rw_decisions st)\<lparr>records := records (rw_decisions st) @ [rec]\<rparr>)\<rparr>"
    unfolding record_run_completion_def Let_def ag prod.case rec_def[symmetric]
    by (simp add: dlog_add_def ver list_ex_key)
  have "completion_recorded E l (run_playbook r)"
    if "x \<in> set (records l)" "record_verify E x = Inr ()" "dr_id x = dr_id rec" for l x
    using that unfolding completion_recorded_def rec_def by blast
  note told = this
  have "completion_recorded E (rw_decisions st\<lparr>records := records (rw_decisions st) @ [rec]\<rparr>) (run_playbook r)"
    by (rule told[of rec]) (simp_all add: ver)
  with wf ver told show ?thesis
    unfolding st' Let_def by (auto simp: list_all_iff)
qed

lemma completion_recorded_mono:
  "completion_recorded E l pb \<Longrightarrow> set (records l) \<subseteq> set (records l') \<Longrightarrow> completion_recorded E l' pb"
  unfolding completion_recorded_def by blast

subsection \<open>Steps keep the invariant\<close>

lemma start_keeps_inv:
  fixes st :: "('s, 'r) run_web"
  assumes "sig_ok E" "runs_inv E st" "\<And>h. length (rnd h) = 32"
  shows "runs_inv E (fst (api_playbook_run T R E clk done_at rnd board approvers st pb))"
proof (cases "run_start pb")
  case (Inl e)
  then show ?thesis using assms(2) by (simp add: api_playbook_run_def)
next
  case (Inr r)
  have start: "run_ok r" "run_playbook r = pb" using run_start_ok[OF Inr] by simp_all
  let ?r = "drive_run E r (rw_gate st) approvers"
  note drv = drive_run_spec[OF start(1), of E "rw_gate st" approvers]
  define st1 where "st1 = (if run_status ?r = Completed then record_run_completion E done_at rnd st ?r else st)"
  define entry where "entry = \<lparr>re_id = run_number (length (rw_runs st)), re_run = ?r, re_board = board,
    re_milestone = None, re_steps_posted = 0\<rparr>"
  obtain b agents entry' where post: "post_run_progress T R E clk rnd (rw_bbs st1, rw_agents st1) entry = ((b, agents), entry')"
    by (metis surj_pair)
  have rec: "agents_wf E (rw_agents st1)" "rw_runs st1 = rw_runs st"
      "set (records (rw_decisions st)) \<subseteq> set (records (rw_decisions st1))"
      "list_all (\<lambda>x. record_verify E x = Inr ()) (records (rw_decisions st1))"
      "run_status ?r = Completed \<Longrightarrow> completion_recorded E (rw_decisions st1) (run_playbook ?r)"
    using record_run_completion_spec[where rnd = rnd and now = done_at and r = ?r and st = st, OF assms(1) _ assms(3)] assms(2)
    by (simp_all add: st1_def runs_inv_def Let_def)
  have e: "re_run entry' = ?r" "re_id entry' = run_number (length (rw_runs st))" "thread_ok entry'"
    using post_run_progress_entry[OF post] by (simp_all add: entry_def)
  have ag: "agents_wf E agents"
    using post_run_progress_agents[where rnd = rnd, of E "(rw_bbs st1, rw_agents st1)" T R clk entry] rec(1) assms(3) post
    by simp
  have res: "fst (api_playbook_run T R E clk done_at rnd board approvers st pb) =
      st1\<lparr>rw_bbs := b, rw_agents := agents, rw_runs := rw_runs st @ [entry']\<rparr>"
    using post by (simp add: api_playbook_run_def Inr Let_def st1_def[symmetric] rec(2) entry_def[symmetric])
  have ok: "entry_ok entry'" using e drv by (auto simp: entry_ok_def run_stopped_def)
  have old: "list_all (\<lambda>e. run_status (re_run e) = Completed \<longrightarrow>
      completion_recorded E (rw_decisions st1) (run_playbook (re_run e))) (rw_runs st)"
    using assms(2) rec(3) by (auto simp: runs_inv_def list_all_iff intro: completion_recorded_mono)
  show ?thesis
    using assms(2) old ok ag rec(4,5) by (simp add: res runs_inv_def e)
qed

lemma advance_keeps_inv:
  fixes st :: "('s, 'r) run_web"
  assumes "sig_ok E" "runs_inv E st" "\<And>h. length (rnd h) = 32"
  shows "runs_inv E (fst (api_run_advance T R E clk done_at rnd approvers st i))"
proof (cases "find (\<lambda>e. re_id e = i) (rw_runs st)")
  case None
  then show ?thesis using assms(2) by (simp add: api_run_advance_def)
next
  case (Some old)
  then have old: "old \<in> set (rw_runs st)" "re_id old = i" by (auto simp: find_Some_iff in_set_conv_nth)
  with assms(2) have old_ok: "entry_ok old" by (auto simp: runs_inv_def list_all_iff)
  then have r: "run_ok (re_run old)" "thread_ok old" by (simp_all add: entry_ok_def)
  let ?r = "drive_run E (re_run old) (rw_gate st) approvers"
  note drv = drive_run_spec[OF r(1), of E "rw_gate st" approvers]
  obtain b agents entry where post: "post_run_progress T R E clk rnd (rw_bbs st, rw_agents st) (old\<lparr>re_run := ?r\<rparr>) = ((b, agents), entry)"
    by (metis surj_pair)
  have e: "re_run entry = ?r" "re_id entry = i" "thread_ok entry"
    using post_run_progress_entry[OF post] drv r(2) old(2)
    by (auto simp: thread_ok_def split: option.splits)
  have ag: "agents_wf E agents"
    using post_run_progress_agents[where rnd = rnd, of E "(rw_bbs st, rw_agents st)" T R clk "old\<lparr>re_run := ?r\<rparr>"]
      assms(2,3) post by (simp add: runs_inv_def)
  define st1 where "st1 = st\<lparr>rw_bbs := b, rw_agents := agents,
    rw_runs := update_first (\<lambda>e. re_id e = i) (\<lambda>_. entry) (rw_runs st)\<rparr>"
  define st2 where "st2 = (if run_status (re_run old) \<noteq> Completed \<and> run_status ?r = Completed
    then record_run_completion E done_at rnd st1 ?r else st1)"
  have res: "fst (api_run_advance T R E clk done_at rnd approvers st i) = st2"
    using post by (simp add: api_run_advance_def Some Let_def e(1) st1_def st2_def)
  have rec: "agents_wf E (rw_agents st2)" "rw_runs st2 = rw_runs st1"
      "set (records (rw_decisions st)) \<subseteq> set (records (rw_decisions st2))"
      "list_all (\<lambda>x. record_verify E x = Inr ()) (records (rw_decisions st2))"
      "run_status (re_run old) \<noteq> Completed \<Longrightarrow> run_status ?r = Completed \<Longrightarrow>
        completion_recorded E (rw_decisions st2) (run_playbook ?r)"
    using record_run_completion_spec[where rnd = rnd and now = done_at and r = ?r and st = st1, OF assms(1) _ assms(3)] assms(2) ag
    by (simp_all add: st2_def st1_def runs_inv_def Let_def)
  have ok: "entry_ok entry" using e drv by (auto simp: entry_ok_def run_stopped_def)
  have kept: "completion_recorded E (rw_decisions st2) (run_playbook (re_run x))"
    if "x \<in> set (rw_runs st)" "run_status (re_run x) = Completed" for x
    using that assms(2) rec(3) by (auto simp: runs_inv_def list_all_iff intro: completion_recorded_mono)
  have new: "completion_recorded E (rw_decisions st2) (run_playbook (re_run entry))"
    if "run_status (re_run entry) = Completed"
    using that kept[OF old(1)] rec(5) drv by (cases "run_status (re_run old) = Completed") (simp_all add: e(1))
  have sub: "set (rw_runs st1) \<subseteq> insert entry (set (rw_runs st))"
    using set_update_first[of "\<lambda>e. re_id e = i" "\<lambda>_. entry" "rw_runs st"] by (auto simp: st1_def)
  have ids: "map re_id (rw_runs st1) = map re_id (rw_runs st)"
    by (simp add: st1_def map_update_first e(2))
  have len: "length (rw_runs st1) = length (rw_runs st)" by (simp add: st1_def)
  have "list_all entry_ok (rw_runs st1)"
    using sub ok assms(2) by (auto simp: runs_inv_def list_all_iff)
  moreover have "list_all (\<lambda>e. run_status (re_run e) = Completed \<longrightarrow>
      completion_recorded E (rw_decisions st2) (run_playbook (re_run e))) (rw_runs st1)"
    using sub new kept by (auto simp: list_all_iff)
  ultimately show ?thesis
    using assms(2) rec(1,2,4) ids len by (simp add: res runs_inv_def)
qed

lemma decide_keeps_inv: "runs_inv E st \<Longrightarrow> runs_inv E (fst (api_approvals_decide E approvers st d))"
  by (auto simp: api_approvals_decide_def runs_inv_def split: sum.splits)

lemma traffic_keeps_inv: "runs_inv E st \<Longrightarrow> runs_inv E (st\<lparr>rw_bbs := b\<rparr>)"
  by (simp add: runs_inv_def)

lemma step_keeps_inv:
  "sig_ok E \<Longrightarrow> runs_inv E st \<Longrightarrow> event_random_ok ev \<Longrightarrow> runs_inv E (run_web_step T R E st ev)"
  by (cases ev) (simp_all add: start_keeps_inv advance_keeps_inv decide_keeps_inv traffic_keeps_inv)

lemma steps_keep_inv:
  "sig_ok E \<Longrightarrow> runs_inv E st \<Longrightarrow> list_all event_random_ok evs \<Longrightarrow>
    runs_inv E (foldl (run_web_step T R E) st evs)"
  by (induction evs arbitrary: st) (simp_all add: step_keeps_inv)

text \<open>Advancing a run that has nowhere to go, with its thread posted, changes nothing.\<close>

lemma update_first_same: "find p xs = Some x \<Longrightarrow> update_first p (\<lambda>_. x) xs = xs"
  by (induction xs) (auto split: if_splits)

lemma drive_run_stopped: "run_ok r \<Longrightarrow> run_stopped E (g, al) r \<Longrightarrow> drive_run E r g al = r"
  using drive_run_stop[of E r g al] by (auto simp: advance_status stopped_advance run_stopped_def)

lemma settled_advance:
  assumes "find (\<lambda>e. re_id e = i) (rw_runs st) = Some e" "entry_ok e" "re_milestone e \<noteq> None"
    and "run_stopped E (rw_gate st, al) (re_run e)"
  shows "fst (api_run_advance T R E clk done_at rnd al st i) = st"
proof -
  have same: "drive_run E (re_run e) (rw_gate st) al = re_run e"
    using assms(2,4) by (simp add: entry_ok_def drive_run_stopped)
  have posted: "post_run_progress T R E clk rnd s e = (s, e)" for s
    using assms(2,3) by (auto simp: post_run_progress_def entry_ok_def thread_ok_def steps_completed_def Let_def)
  show ?thesis
    by (simp add: api_run_advance_def assms(1) Let_def same posted update_first_same[OF assms(1)])
qed

lemma runs_inv_find:
  assumes "runs_inv E st" "e \<in> set (rw_runs st)"
  shows "find (\<lambda>x. re_id x = re_id e) (rw_runs st) = Some e"
proof -
  have "distinct (map re_id (rw_runs st))"
    using assms(1) by (simp add: runs_inv_def distinct_map inj_on_def)
  then have "x = e" if "x \<in> set (rw_runs st)" "re_id x = re_id e" for x
    using that assms(2) by (meson distinct_map inj_onD)
  moreover have "find (\<lambda>x. re_id x = re_id e) (rw_runs st) \<noteq> None"
    using assms(2) by (auto simp: find_None_iff)
  ultimately show ?thesis by (auto simp: find_Some_iff in_set_conv_nth)
qed

text \<open>What one request does to the thread of a run.\<close>

lemma thread_posts_cong: "run_playbook r = run_playbook (re_run e) \<Longrightarrow>
    thread_posts E i clk (e\<lparr>re_run := r\<rparr>) e' = thread_posts E i clk e e' \<and>
    milestone_after T R E b i clk (e\<lparr>re_run := r\<rparr>) = milestone_after T R E b i clk e"
  by (simp add: thread_posts_def milestone_after_def milestone_posts_def step_posts_def Let_def split: option.split)

lemma advance_thread:
  assumes "find (\<lambda>x. re_id x = i) (rw_runs st) = Some e" "run_ok (re_run e)"
  shows "let st' = fst (api_run_advance T R E clk done_at rnd al st i); key = autopilot_key E (rw_agents st) rnd
    in \<exists>e'. find (\<lambda>x. re_id x = i) (rw_runs st') = Some e' \<and> re_run e' = drive_run E (re_run e) (rw_gate st) al \<and>
      re_milestone e' = milestone_after T R E (rw_bbs st) key clk e \<and>
      rw_bbs st' = post_thread T R E (rw_bbs st) (thread_posts E key clk e e')"
proof -
  let ?r = "drive_run E (re_run e) (rw_gate st) al"
  obtain b agents e' where post: "post_run_progress T R E clk rnd (rw_bbs st, rw_agents st) (e\<lparr>re_run := ?r\<rparr>) = ((b, agents), e')"
    by (metis surj_pair)
  have id: "re_id e = i" using assms(1) by (auto simp: find_Some_iff)
  have run: "re_run e' = ?r" "re_id e' = i"
    using post id by (auto simp: post_run_progress_def case_prod_beta Let_def split: option.splits if_splits)
  have pb: "run_playbook ?r = run_playbook (re_run e)" using drive_run_spec[OF assms(2)] by simp
  have entry: "find (\<lambda>x. re_id x = i) (update_first (\<lambda>x. re_id x = i) (\<lambda>_. e') (rw_runs st)) = Some e'"
    using assms(1) run(2) by (simp add: find_update_first)
  note told = post_run_progress_posts[OF post refl, unfolded conjunct1[OF thread_posts_cong[OF pb]]
      conjunct2[OF thread_posts_cong[OF pb]]]
  define st' where "st' = fst (api_run_advance T R E clk done_at rnd al st i)"
  have "rw_bbs st' = b" "rw_runs st' = update_first (\<lambda>x. re_id x = i) (\<lambda>_. e') (rw_runs st)"
    using post by (simp_all add: st'_def api_run_advance_def assms(1) record_run_completion_def case_prod_beta Let_def)
  with told run(1) entry show ?thesis by (simp add: Let_def flip: st'_def)
qed

lemma start_thread:
  assumes "run_start pb = Inr r" "runs_inv E st"
  shows "let st' = fst (api_playbook_run T R E clk done_at rnd board al st pb); key = autopilot_key E (rw_agents st) rnd;
      e = \<lparr>re_id = run_number (length (rw_runs st)), re_run = r, re_board = board, re_milestone = None, re_steps_posted = 0\<rparr>
    in \<exists>e'. rw_runs st' = rw_runs st @ [e'] \<and> re_run e' = drive_run E r (rw_gate st) al \<and>
      re_milestone e' = milestone_after T R E (rw_bbs st) key clk e \<and>
      rw_bbs st' = post_thread T R E (rw_bbs st) (thread_posts E key clk e e')"
proof -
  let ?r = "drive_run E r (rw_gate st) al"
  let ?e = "\<lparr>re_id = run_number (length (rw_runs st)), re_run = r, re_board = board, re_milestone = None, re_steps_posted = 0\<rparr>"
  define st1 where "st1 = (if run_status ?r = Completed then record_run_completion E done_at rnd st ?r else st)"
  have same: "rw_runs st1 = rw_runs st" "rw_bbs st1 = rw_bbs st"
    by (simp_all add: st1_def record_run_completion_def case_prod_beta Let_def)
  have "hm_get (rw_agents st1) ''autopilot'' = hm_get (rw_agents st) ''autopilot''"
    using agent_identity_other[of E "rw_agents st" "''org-governance''" "rnd ''org-governance''" _ _ "''autopilot''"]
    by (simp add: st1_def record_run_completion_def case_prod_beta Let_def) (metis prod.collapse)
  then have key: "autopilot_key E (rw_agents st1) rnd = autopilot_key E (rw_agents st) rnd"
    by (auto simp: autopilot_key_def agent_identity_def Let_def split: option.splits)
  obtain b agents e' where post: "post_run_progress T R E clk rnd (rw_bbs st1, rw_agents st1) (?e\<lparr>re_run := ?r\<rparr>) = ((b, agents), e')"
    by (metis surj_pair)
  have run: "re_run e' = ?r"
    using post by (auto simp: post_run_progress_def case_prod_beta Let_def split: option.splits if_splits)
  have pb: "run_playbook ?r = run_playbook (re_run ?e)"
    using drive_run_spec[of r E "rw_gate st" al] run_start_ok[OF assms(1)] by simp
  note told = post_run_progress_posts[OF post key, unfolded conjunct1[OF thread_posts_cong[OF pb]]
      conjunct2[OF thread_posts_cong[OF pb]] same]
  have "fst (api_playbook_run T R E clk done_at rnd board al st pb) =
      st1\<lparr>rw_bbs := b, rw_agents := agents, rw_runs := rw_runs st @ [e']\<rparr>"
    using post by (simp add: api_playbook_run_def assms(1) st1_def[symmetric] same Let_def)
  with told run show ?thesis by (simp add: Let_def)
qed

text \<open>
  Property C24. What runs leave behind: however runs are started and advanced, decisions
  recorded and boards used in between, a run of the registry is parked at a gate or complete
  and is the one its id finds. Advancing it does to the boards exactly this: the milestone is
  posted if none is up yet, and once one is up, a \<open>Step\<close> post under it for each completed step
  that had none, in order, all signed by the autopilot's key, so that the entry always counts
  a post attempted for every completed step. Starting a run does the same from an empty thread.
  When a run is complete, the decision log holds a verified record saying so, and advancing it
  again changes nothing, except that a run whose milestone was refused tries its thread again.
\<close>

theorem completed_runs_recorded:
  assumes "sig_ok E" "list_all event_random_ok evs"
    and "st = foldl (run_web_step T R E) \<lparr>rw_bbs = b, rw_agents = hm_empty, rw_gate = gate_new, rw_runs = [],
        rw_decisions = dlog_new\<rparr> evs"
    and "e \<in> set (rw_runs st)"
  shows "run_status (re_run e) \<in> {AwaitingApproval, Completed} \<and>
    re_steps_posted e = (if re_milestone e = None then 0 else steps_completed (re_run e)) \<and>
    find (\<lambda>x. re_id x = re_id e) (rw_runs st) = Some e \<and>
    (let st' = fst (api_run_advance T R E clk done_at rnd al st (re_id e)); key = autopilot_key E (rw_agents st) rnd
     in \<exists>e'. find (\<lambda>x. re_id x = re_id e) (rw_runs st') = Some e' \<and> re_run e' = drive_run E (re_run e) (rw_gate st) al \<and>
       re_milestone e' = milestone_after T R E (rw_bbs st) key clk e \<and>
       rw_bbs st' = post_thread T R E (rw_bbs st) (thread_posts E key clk e e')) \<and>
    (run_start pb = Inr r \<longrightarrow>
      (let st' = fst (api_playbook_run T R E clk done_at rnd board al st pb); key = autopilot_key E (rw_agents st) rnd;
         e0 = \<lparr>re_id = run_number (length (rw_runs st)), re_run = r, re_board = board, re_milestone = None, re_steps_posted = 0\<rparr>
       in \<exists>e'. rw_runs st' = rw_runs st @ [e'] \<and> re_run e' = drive_run E r (rw_gate st) al \<and>
         re_milestone e' = milestone_after T R E (rw_bbs st) key clk e0 \<and>
         rw_bbs st' = post_thread T R E (rw_bbs st) (thread_posts E key clk e0 e'))) \<and>
    (run_status (re_run e) = Completed \<longrightarrow>
      completion_recorded E (rw_decisions st) (run_playbook (re_run e)) \<and>
      (re_milestone e \<noteq> None \<longrightarrow> fst (api_run_advance T R E clk done_at rnd al st (re_id e)) = st))"
proof -
  have "runs_inv E \<lparr>rw_bbs = b, rw_agents = hm_empty, rw_gate = gate_new, rw_runs = [], rw_decisions = dlog_new\<rparr>"
    by (simp add: runs_inv_def dlog_new_def)
  with assms(1-3) have inv: "runs_inv E st" by (simp add: steps_keep_inv)
  note found = runs_inv_find[OF inv assms(4)]
  have ok: "entry_ok e" "run_status (re_run e) = Completed \<Longrightarrow>
      completion_recorded E (rw_decisions st) (run_playbook (re_run e))"
    using inv assms(4) by (auto simp: runs_inv_def list_all_iff)
  have settled: "fst (api_run_advance T R E clk done_at rnd al st (re_id e)) = st"
    if "run_status (re_run e) = Completed" "re_milestone e \<noteq> None"
    using settled_advance[OF found ok(1) that(2)] that(1) by (simp add: run_stopped_def)
  have "run_ok (re_run e)" using ok(1) by (simp add: entry_ok_def)
  note threads = advance_thread[OF found this, of T R E clk done_at rnd al] start_thread[OF _ inv, of pb r T R clk done_at rnd board al]
  have count: "run_status (re_run e) \<in> {AwaitingApproval, Completed}"
      "re_steps_posted e = (if re_milestone e = None then 0 else steps_completed (re_run e))"
    using ok(1) by (auto simp: entry_ok_def thread_ok_def steps_completed_def split: option.splits)
  show ?thesis
    by (intro conjI impI count found threads ok settled)
qed

lemma api_playbook_run_entry:
  assumes "run_start pb = Inr r"
  shows "\<exists>entry. rw_runs (fst (api_playbook_run T R E clk done_at rnd board approvers st pb)) = rw_runs st @ [entry] \<and>
    re_run entry = drive_run E r (rw_gate st) approvers"
proof -
  let ?r = "drive_run E r (rw_gate st) approvers"
  define st1 where "st1 = (if run_status ?r = Completed then record_run_completion E done_at rnd st ?r else st)"
  have same: "rw_runs st1 = rw_runs st" by (simp add: st1_def record_run_completion_def case_prod_beta Let_def)
  define entry where "entry = \<lparr>re_id = run_number (length (rw_runs st)), re_run = ?r, re_board = board,
    re_milestone = None, re_steps_posted = 0\<rparr>"
  obtain b agents entry' where post: "post_run_progress T R E clk rnd (rw_bbs st1, rw_agents st1) entry = ((b, agents), entry')"
    by (metis surj_pair)
  have "re_run entry' = ?r"
    using post_run_progress_entry[OF post] by (simp add: entry_def)
  moreover have "rw_runs (fst (api_playbook_run T R E clk done_at rnd board approvers st pb)) = rw_runs st @ [entry']"
    using post by (simp add: api_playbook_run_def assms Let_def st1_def[symmetric] same entry_def[symmetric])
  ultimately show ?thesis by blast
qed

definition demo_run_events :: "(memory_store, memory_reporter) run_event list" where
  "demo_run_events = [Decide [ident (demo_id 1)] (decision_sign demo_env (demo_id 1)
       (action_id demo_playbook (demo_steps ! 1)) Approve ''ok'' 5),
     Start_run (\<lambda>n. 6) 7 (\<lambda>h. demo_seed 3) ''general'' [ident (demo_id 1)] demo_playbook]"

theorem completed_runs_recorded_witness:
  "\<exists>st e. st = foldl (run_web_step memory_ops mr_report demo_env) \<lparr>rw_bbs = demo_open, rw_agents = hm_empty,
       rw_gate = gate_new, rw_runs = [], rw_decisions = dlog_new\<rparr> demo_run_events \<and> e \<in> set (rw_runs st) \<and>
     run_status (re_run e) = Completed \<and> completion_recorded demo_env (rw_decisions st) demo_playbook"
proof -
  let ?st0 = "\<lparr>rw_bbs = demo_open, rw_agents = hm_empty, rw_gate = gate_new, rw_runs = [], rw_decisions = dlog_new\<rparr>"
  let ?d = "decision_sign demo_env (demo_id 1) (action_id demo_playbook (demo_steps ! 1)) Approve ''ok'' 5"
  let ?st1 = "?st0\<lparr>rw_gate := demo_spend_gate\<rparr>"
  have decide: "run_web_step memory_ops mr_report demo_env ?st0 (Decide [ident (demo_id 1)] ?d) = ?st1"
    using decision_sign_verifies[OF demo_sig_ok demo_id_wf]
    by (simp add: api_approvals_decide_def check_approver_def gate_record_def gate_new_def demo_spend_gate_def
        decision_sign_def)
  define st where "st = foldl (run_web_step memory_ops mr_report demo_env) ?st0 demo_run_events"
  have run: "st = run_web_step memory_ops mr_report demo_env ?st1
      (Start_run (\<lambda>n. 6) 7 (\<lambda>h. demo_seed 3) ''general'' [ident (demo_id 1)] demo_playbook)"
    by (simp only: st_def demo_run_events_def foldl.simps decide)
  obtain e where e: "rw_runs st = [e]" "re_run e = drive_run demo_env demo_run demo_spend_gate [ident (demo_id 1)]"
    using api_playbook_run_entry[OF demo_run_start, of memory_ops mr_report demo_env "\<lambda>n. 6" 7 "\<lambda>h. demo_seed 3"
      "''general''" "[ident (demo_id 1)]" ?st1] by (auto simp: run)
  have "is_authorized demo_env demo_spend_gate (action_id demo_playbook (demo_steps ! 1)) [ident (demo_id 1)]"
    by (simp add: is_authorized_def demo_spend_gate_def decision_sign_def)
  moreover have "gate_ids demo_playbook = {''spend''}"
    by (auto simp: gate_ids_def demo_playbook_def playbook_new_def demo_steps_def)
  ultimately have complete: "run_status (re_run e) = Completed"
    by (simp add: e(2) drive_run_completed_iff[OF demo_run_start] action_id_def demo_steps_def)
  have "list_all event_random_ok demo_run_events" by (simp add: demo_run_events_def)
  from completed_runs_recorded[OF demo_sig_ok this st_def, of e] e(1) complete
  have "completion_recorded demo_env (rw_decisions st) (run_playbook (re_run e))" by simp
  moreover have "run_playbook (re_run e) = demo_playbook"
    using drive_run_spec[OF demo_run_ok, of demo_env demo_spend_gate "[ident (demo_id 1)]"]
    by (simp add: e(2)) (simp add: demo_run_def)
  ultimately show ?thesis
    using e(1) complete by (intro exI[of _ st] exI[of _ e]) (simp add: st_def)
qed

end
