(* ===== verification/Pareto.thy ===== *)
theory Pareto
  imports Float64
begin

text \<open>
  Pareto dominance on accuracy and cost and the tiers it gives (\<open>agentbbs-arena/src/pareto.rs\<close>),
  in IEEE double arithmetic with the comparison slack of the code.
\<close>

section \<open>Model\<close>

record pareto_point =
  pp_coverage :: f64
  pp_cost :: f64

text \<open>\<open>1e-9\<close>.\<close>

definition EPS :: f64 where
  "EPS = 0x3E112E0BE826D695"

definition dominates :: "pareto_point \<Rightarrow> pareto_point \<Rightarrow> bool" where
  "dominates a b \<longleftrightarrow>
     (f64_le (f64_sub (pp_coverage b) EPS) (pp_coverage a) \<and> f64_le (pp_cost a) (f64_add (pp_cost b) EPS)) \<and>
     (f64_lt (f64_add (pp_coverage b) EPS) (pp_coverage a) \<or> f64_lt (pp_cost a) (f64_sub (pp_cost b) EPS))"

text \<open>The indices of \<open>remaining\<close> that no other of them dominates; all of them when there are none.\<close>

definition front_of :: "pareto_point list \<Rightarrow> nat list \<Rightarrow> nat list" where
  "front_of points remaining =
     (let front = filter (\<lambda>i. \<not> list_ex (\<lambda>j. j \<noteq> i \<and> dominates (points ! j) (points ! i)) remaining) remaining
      in if front = [] then remaining else front)"

lemma set_front_of: "set (front_of points remaining) \<subseteq> set remaining"
  by (auto simp: front_of_def Let_def)

lemma front_of_nonempty: "remaining \<noteq> [] \<Longrightarrow> front_of points remaining \<noteq> []"
  by (auto simp: front_of_def Let_def)

lemma front_shrinks:
  assumes "remaining \<noteq> []"
  shows "length (filter (\<lambda>i. i \<notin> set (front_of points remaining)) remaining) < length remaining"
proof -
  obtain i where "i \<in> set (front_of points remaining)"
    using front_of_nonempty[OF assms] by (meson list.set_sel(1))
  then show ?thesis
    using set_front_of[of points remaining] by (intro length_filter_less) auto
qed

function tier_loop :: "pareto_point list \<Rightarrow> u32 list \<Rightarrow> nat list \<Rightarrow> u32 \<Rightarrow> u32 list" where
  "tier_loop points tier remaining current =
     (if remaining = [] then tier
      else let front = front_of points remaining
           in tier_loop points (foldl (\<lambda>t i. t[i := current]) tier front)
                (filter (\<lambda>i. i \<notin> set front) remaining) (current + 1))"
  by pat_completeness auto
termination
  by (relation "measure (\<lambda>(points, tier, remaining, current). length remaining)") (simp_all add: front_shrinks)

declare tier_loop.simps [simp del]

definition nondominated_tiers :: "pareto_point list \<Rightarrow> u32 list" where
  "nondominated_tiers points = tier_loop points (replicate (length points) 0) [0..<length points] 1"

section \<open>Dominance\<close>

lemma EPS_simps [simp]: "f64_nonneg EPS" "\<not> f64_is_nan EPS" "\<not> f64_is_inf EPS"
  by (simp_all add: EPS_def f64_bits)

lemma add_key_ge:
  assumes "f64_nonneg e" "\<not> f64_is_inf e" "\<not> f64_is_nan x"
  shows "f64_key x \<le> f64_key (f64_add x e) \<and> f64_key (f64_sub x e) \<le> f64_key x"
proof (cases "f64_is_inf x")
  case True
  with assms show ?thesis by (simp add: f64_sub_def f64_add_def f64_nonneg_def)
next
  case False
  have e: "\<not> f64_is_nan e" "0 \<le> f64_units e" "f64_units (f64_flip e) \<le> 0"
    using assms(1) by (auto simp: f64_nonneg_def f64_units_def)
  have x: "f64_key x = signed_round (f64_units x)" using False assms(3) by (simp add: signed_round_units)
  have "f64_key (f64_add x e) = signed_round (f64_units x + f64_units e)"
    using False assms(2,3) e(1) by (simp add: key_add)
  moreover have "f64_key (f64_sub x e) = signed_round (f64_units x + f64_units (f64_flip e))"
    using False assms(2,3) e(1) by (simp add: f64_sub_def key_add)
  ultimately show ?thesis
    unfolding x using e(2,3) by (auto intro!: signed_round_mono)
qed

lemma sum_not_nan:
  assumes "f64_nonneg x"
  shows "\<not> f64_is_nan (f64_add x EPS)" "\<not> f64_is_nan (f64_sub x EPS)"
  using assms round_mag_le_inf by (auto simp: f64_sub_def f64_add_def Let_def f64_nan_of f64_nonneg_def)

lemma dominates_irrefl [simp]: "\<not> dominates p p"
proof -
  have "\<not> f64_lt (f64_add x EPS) x" "\<not> f64_lt x (f64_sub x EPS)" for x
    using add_key_ge[of EPS x] by (auto simp: f64_lt_def)
  then show ?thesis by (simp add: dominates_def)
qed

section \<open>Layers\<close>

text \<open>
  The reference: the points of a set no point of it dominates (all of them when there are none),
  what is left when the first layers are taken off, and the number of the layer of a point.
\<close>

definition layer :: "pareto_point set \<Rightarrow> pareto_point set" where
  "layer S = (let front = {p \<in> S. \<not> (\<exists>q \<in> S. dominates q p)} in if front = {} then S else front)"

primrec peel :: "pareto_point set \<Rightarrow> nat \<Rightarrow> pareto_point set" where
  "peel S 0 = S"
| "peel S (Suc k) = peel S k - layer (peel S k)"

definition pareto_tier :: "pareto_point set \<Rightarrow> pareto_point \<Rightarrow> nat" where
  "pareto_tier S p = Suc (LEAST k. p \<notin> peel S (Suc k))"

lemma layer_subset: "layer S \<subseteq> S"
  by (auto simp: layer_def Let_def)

lemma layer_nonempty: "S \<noteq> {} \<Longrightarrow> layer S \<noteq> {}"
  by (auto simp: layer_def Let_def)

lemma peel_antimono: "k \<le> l \<Longrightarrow> peel S l \<subseteq> peel S k"
  by (induction l) (auto simp: le_Suc_eq)

lemma peel_subset: "peel S k \<subseteq> S"
  using peel_antimono[of 0 k S] by simp

lemma card_peel:
  assumes "finite S" shows "card (peel S k) \<le> card S - k"
proof (induction k)
  case 0
  then show ?case by simp
next
  case (Suc k)
  have fin: "finite (peel S k)" using finite_subset[OF peel_subset assms] .
  show ?case
  proof (cases "peel S k = {}")
    case False
    then have "card (peel S k - layer (peel S k)) < card (peel S k)"
      using layer_nonempty[of "peel S k"] layer_subset[of "peel S k"] fin by (intro psubset_card_mono) auto
    with Suc show ?thesis by simp
  qed simp
qed

lemma pareto_tier_eq:
  assumes "p \<in> peel S k" "p \<in> layer (peel S k)"
  shows "pareto_tier S p = Suc k"
proof -
  have "(LEAST j. p \<notin> peel S (Suc j)) = k"
  proof (rule Least_equality)
    show "p \<notin> peel S (Suc k)" using assms by simp
    show "k \<le> j" if "p \<notin> peel S (Suc j)" for j
      using that assms(1) peel_antimono[of "Suc j" k S] by (meson not_less_eq_eq subsetD)
  qed
  then show ?thesis by (simp add: pareto_tier_def)
qed

lemma peel_out:
  assumes "finite S" "p \<in> S"
  shows "\<exists>k < card S. p \<notin> peel S (Suc k)"
proof -
  have pos: "0 < card S" using assms by (auto simp: card_gt_0_iff)
  have "peel S (card S) = {}"
    using card_peel[OF assms(1), of "card S"] finite_subset[OF peel_subset assms(1)] by simp
  then have "p \<notin> peel S (Suc (card S - 1))" using pos by simp
  with pos show ?thesis by (intro exI[of _ "card S - 1"]) simp
qed

lemma pareto_tier_bounds:
  assumes "finite S" "p \<in> S"
  shows "1 \<le> pareto_tier S p \<and> pareto_tier S p \<le> card S"
proof -
  obtain k where k: "k < card S" "p \<notin> peel S (Suc k)" using peel_out[OF assms] by blast
  have "(LEAST k. p \<notin> peel S (Suc k)) \<le> k" by (rule Least_le) (rule k(2))
  with k(1) show ?thesis by (simp add: pareto_tier_def)
qed

lemma pareto_tier_one:
  assumes "finite S" "p \<in> S"
  shows "pareto_tier S p = 1 \<longleftrightarrow> p \<in> layer S"
proof
  assume "pareto_tier S p = 1"
  then have zero: "(LEAST k. p \<notin> peel S (Suc k)) = 0" by (simp add: pareto_tier_def)
  obtain k where "p \<notin> peel S (Suc k)" using peel_out[OF assms] by blast
  then have "p \<notin> peel S (Suc (LEAST k. p \<notin> peel S (Suc k)))" by (rule LeastI)
  with assms(2) show "p \<in> layer S" unfolding zero by simp
next
  show "p \<in> layer S \<Longrightarrow> pareto_tier S p = 1" using pareto_tier_eq[of p S 0] assms(2) by simp
qed

section \<open>The loop\<close>

lemma foldl_update:
  assumes "\<And>i. i \<in> set is \<Longrightarrow> i < length t"
  shows "foldl (\<lambda>t i. t[i := c]) t is = map (\<lambda>i. if i \<in> set is then c else t ! i) [0..<length t]"
  using assms
proof (induction "is" arbitrary: t)
  case Nil
  then show ?case by (simp add: map_nth)
next
  case (Cons j js)
  then show ?case by (auto simp: nth_list_update)
qed

lemma front_of_layer:
  assumes "R = filter (\<lambda>i. ps ! i \<in> peel (set ps) k) [0..<length ps]"
  shows "set (front_of ps R) = {i. i < length ps \<and> ps ! i \<in> layer (peel (set ps) k)}"
proof -
  have "\<exists>i \<in> set R. ps ! i = q" if "q \<in> peel (set ps) k" for q
  proof -
    have "q \<in> set ps" using that peel_subset by blast
    then obtain i where "i < length ps" "ps ! i = q" by (auto simp: in_set_conv_nth)
    with that show ?thesis unfolding assms by auto
  qed
  then have range: "(!) ps ` set R = peel (set ps) k" unfolding assms by auto
  have bad: "list_ex (\<lambda>j. j \<noteq> i \<and> dominates (ps ! j) (ps ! i)) R \<longleftrightarrow> (\<exists>q \<in> peel (set ps) k. dominates q (ps ! i))" for i
    unfolding range[symmetric] list_ex_iff by (metis (no_types, lifting) dominates_irrefl image_iff)
  let ?F = "{p \<in> peel (set ps) k. \<not> (\<exists>q \<in> peel (set ps) k. dominates q p)}"
  define G where "G = filter (\<lambda>i. \<not> list_ex (\<lambda>j. j \<noteq> i \<and> dominates (ps ! j) (ps ! i)) R) R"
  have front: "front_of ps R = (if G = [] then R else G)" by (simp add: front_of_def G_def Let_def)
  have G: "set G = {i \<in> set R. ps ! i \<in> ?F}"
    unfolding G_def bad using assms by auto
  have "?F = {} \<longleftrightarrow> {i \<in> set R. ps ! i \<in> ?F} = {}"
    unfolding range[symmetric] by auto
  then have empty: "?F = {} \<longleftrightarrow> G = []" unfolding G[symmetric] set_empty .
  have R: "set R = {i. i < length ps \<and> ps ! i \<in> peel (set ps) k}" unfolding assms by auto
  show ?thesis
  proof (cases "?F = {}")
    case True
    then show ?thesis using empty R by (simp add: front layer_def Let_def)
  next
    case False
    then have "set (front_of ps R) = {i \<in> set R. ps ! i \<in> ?F}"
      using empty by (simp only: front G if_False)
    then show ?thesis using False R by (auto simp: layer_def Let_def)
  qed
qed

lemma tier_loop_spec:
  assumes "R = filter (\<lambda>i. ps ! i \<in> peel (set ps) k) [0..<length ps]" "length tier = length ps"
  shows "tier_loop ps tier R (of_nat (Suc k)) =
    map (\<lambda>i. if ps ! i \<in> peel (set ps) k then of_nat (pareto_tier (set ps) (ps ! i)) else tier ! i) [0..<length ps]"
  using assms
proof (induction "length R" arbitrary: R tier k rule: less_induct)
  case less
  show ?case
  proof (cases "R = []")
    case True
    then have "\<forall>i < length ps. ps ! i \<notin> peel (set ps) k" using less.prems(1) by (auto simp: filter_empty_conv)
    then have "map (\<lambda>i. if ps ! i \<in> peel (set ps) k then of_nat (pareto_tier (set ps) (ps ! i)) else tier ! i) [0..<length ps] = tier"
      using less.prems(2) by (auto intro: nth_equalityI)
    with True show ?thesis by (subst tier_loop.simps) simp
  next
    case False
    note front = front_of_layer[OF less.prems(1)]
    let ?front = "front_of ps R"
    let ?R = "filter (\<lambda>i. i \<notin> set ?front) R"
    define tier' where "tier' = foldl (\<lambda>t i. t[i := of_nat (Suc k)]) tier ?front"
    have R: "?R = filter (\<lambda>i. ps ! i \<in> peel (set ps) (Suc k)) [0..<length ps]"
    proof -
      have "?R = filter (\<lambda>i. ps ! i \<notin> layer (peel (set ps) k)) R"
      proof (rule filter_cong[OF refl])
        fix i assume "i \<in> set R"
        then have "i < length ps" unfolding less.prems(1) by simp
        then show "(i \<notin> set ?front) = (ps ! i \<notin> layer (peel (set ps) k))" by (simp add: front)
      qed
      then show ?thesis unfolding less.prems(1) by (simp add: conj_commute)
    qed
    have t: "tier' = map (\<lambda>i. if i \<in> set ?front then of_nat (Suc k) else tier ! i) [0..<length ps]"
      using foldl_update[of ?front tier "of_nat (Suc k)"] front less.prems(2)
      unfolding tier'_def by simp
    have "tier_loop ps tier R (of_nat (Suc k)) = tier_loop ps tier' ?R (of_nat (Suc (Suc k)))"
      using False unfolding tier'_def by (subst tier_loop.simps) (simp add: Let_def add.commute)
    also have "\<dots> = map (\<lambda>i. if ps ! i \<in> peel (set ps) (Suc k) then of_nat (pareto_tier (set ps) (ps ! i)) else tier' ! i) [0..<length ps]"
      by (rule less.hyps[OF front_shrinks[OF False] R]) (simp add: t)
    also have "\<dots> = map (\<lambda>i. if ps ! i \<in> peel (set ps) k then of_nat (pareto_tier (set ps) (ps ! i)) else tier ! i) [0..<length ps]"
    proof (rule map_cong[OF refl])
      fix i assume "i \<in> set [0..<length ps]"
      then have i: "i < length ps" by simp
      then show "(if ps ! i \<in> peel (set ps) (Suc k) then of_nat (pareto_tier (set ps) (ps ! i)) else tier' ! i) =
          (if ps ! i \<in> peel (set ps) k then of_nat (pareto_tier (set ps) (ps ! i)) else tier ! i)"
        using pareto_tier_eq[of "ps ! i" "set ps" k] layer_subset[of "peel (set ps) k"]
        by (auto simp: t front)
    qed
    finally show ?thesis .
  qed
qed

lemma tier_map: "nondominated_tiers ps = map (\<lambda>p. of_nat (pareto_tier (set ps) p)) ps"
proof -
  have "[0..<length ps] = filter (\<lambda>i. ps ! i \<in> peel (set ps) 0) [0..<length ps]"
    by (simp add: filter_id_conv)
  from tier_loop_spec[OF this, of "replicate (length ps) 0"]
  have "nondominated_tiers ps = map (\<lambda>i. of_nat (pareto_tier (set ps) (ps ! i))) [0..<length ps]"
    by (simp add: nondominated_tiers_def cong: map_cong)
  also have "\<dots> = map (\<lambda>p. of_nat (pareto_tier (set ps) p)) ps"
    by (rule nth_equalityI) simp_all
  finally show ?thesis .
qed

section \<open>Properties\<close>

text \<open>
  Property C21. The tiers are the layers of dominance, and depend on the points alone: the loop
  ends, and the tier of each point is the number of the layer it falls in when the layers are
  taken off the set of the points one by one, from 1 to at most the number of points, whatever
  their order and repetitions; where some point is undominated, tier 1 is exactly the
  undominated ones.
\<close>

theorem tiers_are_pareto_layers:
  "nondominated_tiers ps = map (\<lambda>p. of_nat (pareto_tier (set ps) p)) ps \<and>
   (\<forall>p \<in> set ps. 1 \<le> pareto_tier (set ps) p \<and> pareto_tier (set ps) p \<le> card (set ps) \<and>
     ((\<exists>q \<in> set ps. \<not> (\<exists>r \<in> set ps. dominates r q)) \<longrightarrow>
       (pareto_tier (set ps) p = 1 \<longleftrightarrow> \<not> (\<exists>r \<in> set ps. dominates r p))))"
proof (rule conjI[OF tier_map])
  show "\<forall>p \<in> set ps. 1 \<le> pareto_tier (set ps) p \<and> pareto_tier (set ps) p \<le> card (set ps) \<and>
     ((\<exists>q \<in> set ps. \<not> (\<exists>r \<in> set ps. dominates r q)) \<longrightarrow>
       (pareto_tier (set ps) p = 1 \<longleftrightarrow> \<not> (\<exists>r \<in> set ps. dominates r p)))"
    using pareto_tier_bounds[of "set ps"] pareto_tier_one[of "set ps"]
    by (auto simp: layer_def Let_def)
qed

text \<open>Two points, each of which dominates the other: the slack is not a multiple of their spacing.\<close>

definition demo_point_a :: pareto_point where
  "demo_point_a = \<lparr>pp_coverage = 0x3e212e0be826d698, pp_cost = 0x3e212e0be826d697\<rparr>"

definition demo_point_b :: pareto_point where
  "demo_point_b = \<lparr>pp_coverage = 0x3e29c511dc3a41e3, pp_cost = 0x3e29c511dc3a41e2\<rparr>"

lemma excess_unique: "hidden \<le> q div 2 ^ s \<Longrightarrow> q div 2 ^ s < 2 * hidden \<Longrightarrow> excess q = s"
proof (induction s arbitrary: q)
  case 0
  then show ?case by (subst excess.simps) simp
next
  case (Suc s)
  have "q div 2 div 2 ^ s = q div 2 ^ Suc s" by (simp add: div_mult2_eq)
  with Suc have "excess (q div 2) = s" by simp
  moreover have "\<not> q < 2 * hidden"
  proof
    assume "q < 2 * hidden"
    then have "q div 2 < hidden" by (simp add: less_mult_imp_div_less mult.commute)
    then have "q div 2 div 2 ^ s < hidden" by (meson div_le_dividend le_less_trans)
    with Suc.prems(1) show False by (simp add: div_mult2_eq)
  qed
  ultimately show ?case by (subst excess.simps) simp
qed

lemma round_scaled:
  assumes "hidden \<le> n div 2 ^ j" "n div 2 ^ j < 2 * hidden"
  shows "round_mag (n * 2 ^ s) 1 = min inf_mag ((s + j) * hidden + half_even n (2 ^ j))"
proof -
  have "n * 2 ^ s div 2 ^ (s + j) = n div 2 ^ j" by (simp add: power_add)
  with assms have "excess (n * 2 ^ s) = s + j" by (intro excess_unique) simp_all
  then show ?thesis
    using half_even_scale[of "2 ^ s" n "2 ^ j"] by (simp add: round_mag_def power_add mult.commute)
qed

lemma demo_units:
  "units (f64_mag EPS) = 4835703278458517 * 2 ^ 992"
  "units (f64_mag (pp_coverage demo_point_a)) = 9671406556917040 * 2 ^ 992"
  "units (f64_mag (pp_cost demo_point_a)) = 9671406556917038 * 2 ^ 992"
  "units (f64_mag (pp_coverage demo_point_b)) = 14507109835375558 * 2 ^ 992"
  "units (f64_mag (pp_cost demo_point_b)) = 14507109835375556 * 2 ^ 992"
  by (simp_all add: units_def demo_point_a_def demo_point_b_def EPS_def f64_bits Let_def)

lemma demo_key_add:
  assumes "f64_nonneg x" "units (f64_mag x) = n * 2 ^ 992"
    and "hidden \<le> (n + 4835703278458517) div 2 ^ j" "(n + 4835703278458517) div 2 ^ j < 2 * hidden"
  shows "f64_key (f64_add x EPS) = int (min inf_mag ((992 + j) * hidden + half_even (n + 4835703278458517) (2 ^ j)))"
proof -
  note sum = add_nonneg[OF assms(1) EPS_simps(1)]
  have "units (f64_mag x) + units (f64_mag EPS) = (n + 4835703278458517) * 2 ^ 992"
    unfolding assms(2) demo_units(1) by (rule distrib_right[symmetric])
  with sum show ?thesis
    by (simp only: key_nonneg round_scaled[OF assms(3,4)])
qed

lemma demo_key_sub:
  assumes "f64_nonneg x" "\<not> f64_is_inf x" "units (f64_mag x) = (n + 4835703278458517) * 2 ^ 992"
    and "hidden \<le> n div 2 ^ j" "n div 2 ^ j < 2 * hidden"
  shows "f64_key (f64_sub x EPS) = int (min inf_mag ((992 + j) * hidden + half_even n (2 ^ j)))"
proof -
  have "f64_units x + f64_units (f64_flip EPS) = int (n * 2 ^ 992)"
    using assms(1,3) demo_units(1) EPS_simps(1) by (simp add: f64_units_def f64_nonneg_def distrib_right)
  moreover have "\<not> f64_is_nan x" using assms(1) by (simp add: f64_nonneg_def)
  ultimately have "f64_key (f64_sub x EPS) = signed_round (int (n * 2 ^ 992))"
    using assms(2) by (simp only: f64_sub_def key_add flip_simps EPS_simps not_False_eq_True)
  then show ?thesis using round_scaled[OF assms(4,5)] by (simp only: signed_round_def nat_int) simp
qed

lemma demo_points_nonneg:
  "f64_nonneg (pp_coverage demo_point_a)" "f64_nonneg (pp_cost demo_point_a)"
  "f64_nonneg (pp_coverage demo_point_b)" "f64_nonneg (pp_cost demo_point_b)"
  "\<not> f64_is_inf (pp_coverage demo_point_a)" "\<not> f64_is_inf (pp_cost demo_point_a)"
  "\<not> f64_is_inf (pp_coverage demo_point_b)" "\<not> f64_is_inf (pp_cost demo_point_b)"
  by (simp_all add: demo_point_a_def demo_point_b_def f64_bits)

lemma demo_sums:
  "f64_key (f64_add (pp_coverage demo_point_a) EPS) = 0x3e29c511dc3a41e2"
  "f64_key (f64_add (pp_cost demo_point_a) EPS) = 0x3e29c511dc3a41e2"
  "f64_key (f64_add (pp_cost demo_point_b) EPS) = 0x3e312e0be826d696"
  "f64_key (f64_sub (pp_coverage demo_point_a) EPS) = 0x3e112e0be826d69b"
  "f64_key (f64_sub (pp_coverage demo_point_b) EPS) = 0x3e212e0be826d698"
  "f64_key (f64_sub (pp_cost demo_point_b) EPS) = 0x3e212e0be826d698"
  using demo_key_add[OF demo_points_nonneg(1) demo_units(2), of 1]
    demo_key_add[OF demo_points_nonneg(2) demo_units(3), of 1]
    demo_key_add[OF demo_points_nonneg(4) demo_units(5), of 2]
    demo_key_sub[OF demo_points_nonneg(1,5), of 4835703278458523 0]
    demo_key_sub[OF demo_points_nonneg(3,7), of 9671406556917041 1]
    demo_key_sub[OF demo_points_nonneg(4,8), of 9671406556917039 1]
  unfolding demo_units by (simp_all add: hidden_def inf_mag_def half_even_def Let_def)

lemma demo_mutual: "dominates demo_point_a demo_point_b" "dominates demo_point_b demo_point_a"
proof -
  have keys: "f64_key (pp_coverage demo_point_a) = 0x3e212e0be826d698" "f64_key (pp_cost demo_point_a) = 0x3e212e0be826d697"
      "f64_key (pp_coverage demo_point_b) = 0x3e29c511dc3a41e3" "f64_key (pp_cost demo_point_b) = 0x3e29c511dc3a41e2"
    by (simp_all add: demo_point_a_def demo_point_b_def f64_bits)
  note nan = demo_points_nonneg[unfolded f64_nonneg_def] sum_not_nan
  show "dominates demo_point_a demo_point_b" "dominates demo_point_b demo_point_a"
    using nan demo_points_nonneg(1-4) by (simp_all add: dominates_def f64_le_def f64_lt_def keys demo_sums)
qed

text \<open>
  The comparison slack breaks the strictness the loop relies on: there are two
  distinct points, near costs of a few billionths, each of which dominates the other, so that no
  point of the two is undominated; only the guard of the loop keeps it from running for ever,
  and puts both in tier 1.
\<close>

theorem dominance_not_asymmetric:
  "\<exists>p q. p \<noteq> q \<and> dominates p q \<and> dominates q p \<and> nondominated_tiers [p, q] = [1, 1]"
proof (intro exI conjI)
  show "dominates demo_point_a demo_point_b" "dominates demo_point_b demo_point_a" by (rule demo_mutual)+
  show "demo_point_a \<noteq> demo_point_b" by (simp add: demo_point_a_def demo_point_b_def)
  have "front_of [demo_point_a, demo_point_b] [0, 1] = [0, 1]"
    by (simp add: front_of_def demo_mutual Let_def)
  then show "nondominated_tiers [demo_point_a, demo_point_b] = [1, 1]"
    by (simp add: nondominated_tiers_def tier_loop.simps upt_conv_Cons numeral_2_eq_2 Let_def)
qed

text \<open>Two points in two tiers, whichever comes first.\<close>

theorem tiers_are_pareto_layers_witness:
  "nondominated_tiers [\<lparr>pp_coverage = f64_one, pp_cost = 0\<rparr>, \<lparr>pp_coverage = 0, pp_cost = f64_one\<rparr>] = [1, 2] \<and>
   nondominated_tiers [\<lparr>pp_coverage = 0, pp_cost = f64_one\<rparr>, \<lparr>pp_coverage = f64_one, pp_cost = 0\<rparr>] = [2, 1]"
proof -
  let ?p = "\<lparr>pp_coverage = f64_one, pp_cost = 0\<rparr>" and ?q = "\<lparr>pp_coverage = 0, pp_cost = f64_one\<rparr>"
  have zero: "f64_add 0 EPS = EPS" by (rule add_zero) simp
  have small: "f64_lt EPS f64_one" by (simp add: EPS_def f64_one_def f64_bits)
  have "f64_le (f64_sub 0 EPS) f64_one" "f64_le 0 (f64_add f64_one EPS)"
    using add_key_ge[of EPS 0] add_key_ge[of EPS f64_one] sum_not_nan[of 0] sum_not_nan[of f64_one]
    by (simp_all add: f64_le_def f64_key_def)
  then have "dominates ?p ?q" "\<not> dominates ?q ?p"
    using small by (simp_all add: dominates_def zero f64_le_def f64_lt_def)
  then have dom: "(\<exists>r \<in> {?p, ?q}. dominates r ?q)" "\<not> (\<exists>r \<in> {?p, ?q}. dominates r ?p)" by simp_all
  have card: "card {?p, ?q} \<le> 2" by (simp add: card_insert_if)
  note spec = tiers_are_pareto_layers[of "[?p, ?q]"] tiers_are_pareto_layers[of "[?q, ?p]"]
  have set: "set [?p, ?q] = {?p, ?q}" "set [?q, ?p] = {?p, ?q}" by auto
  have "pareto_tier {?p, ?q} ?p = 1" "pareto_tier {?p, ?q} ?q \<noteq> 1" "1 \<le> pareto_tier {?p, ?q} ?q"
      "pareto_tier {?p, ?q} ?q \<le> card {?p, ?q}"
    using spec(1) dom unfolding set by blast+
  moreover from this card have "pareto_tier {?p, ?q} ?q = 2" by linarith
  ultimately show ?thesis
    using spec(1)[THEN conjunct1] spec(2)[THEN conjunct1] unfolding set by simp
qed

end
