(* ===== verification/Podrank.thy ===== *)
theory Podrank
  imports Pareto Rust_Str
begin

text \<open>Ranking of pod configurations (\<open>agentbbs-arena/src/podrank.rs\<close>).\<close>

section \<open>Model\<close>

record pod_config =
  pc_domain :: string
  pc_host :: string
  pc_tier :: string

text \<open>The label separates the parts by a multiplication sign, in UTF-8.\<close>

definition config_label :: "pod_config \<Rightarrow> string" where
  "config_label c = pc_domain c @ [CHR 0xC3, CHR 0x97] @ pc_host c @ [CHR 0xC3, CHR 0x97] @ pc_tier c"

record pod_config_result =
  cr_config :: pod_config
  cr_accuracy :: f64
  cr_cost_usd :: f64
  cr_runs :: u32

record pod_config_standing =
  cs_config :: pod_config
  cs_accuracy :: f64
  cs_cost_usd :: f64
  cs_pareto_tier :: u32
  cs_on_frontier :: bool
  cs_rank :: nat

definition result_point :: "pod_config_result \<Rightarrow> pareto_point" where
  "result_point r = \<lparr>pp_coverage = cr_accuracy r, pp_cost = cr_cost_usd r\<rparr>"

definition config_before :: "pod_config_standing \<Rightarrow> pod_config_standing \<Rightarrow> bool" where
  "config_before a b \<longleftrightarrow>
     (if cs_pareto_tier a \<noteq> cs_pareto_tier b then cs_pareto_tier a < cs_pareto_tier b
      else desc_then (cs_accuracy a) (cs_accuracy b)
        (asc_then (cs_cost_usd a) (cs_cost_usd b) (config_label (cs_config a) \<le> config_label (cs_config b))))"

definition unranked :: "pod_config_result \<Rightarrow> u32 \<Rightarrow> pod_config_standing" where
  "unranked r t = \<lparr>cs_config = cr_config r, cs_accuracy = cr_accuracy r, cs_cost_usd = cr_cost_usd r,
     cs_pareto_tier = t, cs_on_frontier = (t = 1), cs_rank = 0\<rparr>"

definition rank_pod_configs :: "pod_config_result list \<Rightarrow> pod_config_standing list" where
  "rank_pod_configs results =
     (let tiers = nondominated_tiers (map result_point results);
          standings = sort_by config_before (map (\<lambda>(r, t). unranked r t) (zip results tiers))
      in map (\<lambda>(i, s). s\<lparr>cs_rank := i + 1\<rparr>) (zip [0..<length standings] standings))"

section \<open>Properties\<close>

lemma config_before_total:
  assumes "\<And>a. a \<in> A \<Longrightarrow> \<not> f64_is_nan (cs_accuracy a) \<and> \<not> f64_is_nan (cs_cost_usd a)"
  shows "total_on_set A config_before"
  unfolding total_on_set_def
  by (auto simp: config_before_def desc_then_key asc_then_key assms)

text \<open>The standings before they are numbered: each result with the tier of its point.\<close>

definition tiered :: "pod_config_result list \<Rightarrow> pod_config_standing list" where
  "tiered results = map (\<lambda>r. unranked r (of_nat (pareto_tier (result_point ` set results) (result_point r)))) results"

lemma rank_pod_configs_eq:
  "rank_pod_configs results =
   (let standings = sort_by config_before (tiered results)
    in map (\<lambda>(i, s). s\<lparr>cs_rank := i + 1\<rparr>) (zip [0..<length standings] standings))"
proof -
  have "map (\<lambda>(r, t). unranked r t) (zip results (nondominated_tiers (map result_point results))) = tiered results"
    using tier_map[of "map result_point results"]
    by (intro nth_equalityI) (simp_all add: tiered_def)
  then show ?thesis by (simp only: rank_pod_configs_def Let_def)
qed

lemma numbered:
  "map cs_rank (map (\<lambda>(i, s). s\<lparr>cs_rank := i + 1\<rparr>) (zip [0..<length xs] xs)) = [1..<Suc (length xs)]"
  "(\<And>s n. f (s\<lparr>cs_rank := n\<rparr>) = f s) \<Longrightarrow>
    map f (map (\<lambda>(i, s). s\<lparr>cs_rank := i + 1\<rparr>) (zip [0..<length xs] xs)) = map f xs"
  by (simp_all add: map_enumerate comp_def map_nth_upt del: upt_Suc flip: map_Suc_upt)

text \<open>What a standing says of its result.\<close>

definition standing_view :: "pod_config_standing \<Rightarrow> pod_config \<times> f64 \<times> f64 \<times> nat \<times> bool" where
  "standing_view s = (cs_config s, cs_accuracy s, cs_cost_usd s, unat (cs_pareto_tier s), cs_on_frontier s)"

definition result_view :: "pareto_point set \<Rightarrow> pod_config_result \<Rightarrow> pod_config \<times> f64 \<times> f64 \<times> nat \<times> bool" where
  "result_view S r = (let t = pareto_tier S (result_point r) in (cr_config r, cr_accuracy r, cr_cost_usd r, t, t = 1))"

lemma unranked_view:
  assumes "pareto_tier S (result_point r) < 2 ^ 32"
  shows "standing_view (unranked r (of_nat (pareto_tier S (result_point r)))) = result_view S r"
  by (simp only: standing_view_def result_view_def unranked_def Let_def pod_config_standing.simps
      u32_of_nat[OF assms] u32_of_nat_one[OF assms])

lemma tier_is_u32:
  assumes "length results < 2 ^ 32" "r \<in> set results"
  shows "pareto_tier (result_point ` set results) (result_point r) < 2 ^ 32"
proof -
  have "card (result_point ` set results) \<le> length results"
    by (meson card_image_le card_length finite_set le_trans)
  then show ?thesis
    using pareto_tier_bounds[of "result_point ` set results" "result_point r"] assms by simp
qed

lemma tiered_views:
  assumes "length results < 2 ^ 32"
  shows "map standing_view (tiered results) = map (result_view (result_point ` set results)) results"
  unfolding tiered_def map_map comp_def
  by (rule map_cong[OF refl], rule unranked_view, rule tier_is_u32[OF assms])

lemma ranked_views:
  "map standing_view (rank_pod_configs results) = map standing_view (sort_by config_before (tiered results))"
  unfolding rank_pod_configs_eq Let_def by (rule numbered(2)) (simp add: standing_view_def)

lemma ranked_numbers: "map cs_rank (rank_pod_configs results) = [1..<Suc (length results)]"
  unfolding rank_pod_configs_eq Let_def numbered(1) by (simp add: tiered_def del: upt_Suc)

lemma config_before_rank [simp]:
  "config_before (a\<lparr>cs_rank := m\<rparr>) b = config_before a b" "config_before a (b\<lparr>cs_rank := m\<rparr>) = config_before a b"
  by (simp_all add: config_before_def)

lemma sorted_wrt_numbered:
  "sorted_wrt config_before xs \<Longrightarrow>
   sorted_wrt config_before (map (\<lambda>(i, s). s\<lparr>cs_rank := i + 1\<rparr>) (zip [0..<length xs] xs))"
  by (simp add: sorted_wrt_iff_nth_less)

text \<open>The order of the board, written out.\<close>

definition places_before :: "pod_config_standing \<Rightarrow> pod_config_standing \<Rightarrow> bool" where
  "places_before a b \<longleftrightarrow>
     unat (cs_pareto_tier a) < unat (cs_pareto_tier b) \<or>
     cs_pareto_tier a = cs_pareto_tier b \<and>
       (f64_lt (cs_accuracy b) (cs_accuracy a) \<or>
        f64_eq (cs_accuracy b) (cs_accuracy a) \<and>
          (f64_lt (cs_cost_usd a) (cs_cost_usd b) \<or>
           f64_eq (cs_cost_usd a) (cs_cost_usd b) \<and>
             config_label (cs_config a) \<le> config_label (cs_config b)))"

lemma config_before_places:
  assumes "config_before a b"
    "\<not> f64_is_nan (cs_accuracy a)" "\<not> f64_is_nan (cs_cost_usd a)"
    "\<not> f64_is_nan (cs_accuracy b)" "\<not> f64_is_nan (cs_cost_usd b)"
  shows "places_before a b"
proof (cases "cs_pareto_tier a = cs_pareto_tier b")
  case True
  have "desc_then (cs_accuracy a) (cs_accuracy b)
        (asc_then (cs_cost_usd a) (cs_cost_usd b) (config_label (cs_config a) \<le> config_label (cs_config b)))"
    using assms(1) True by (simp add: config_before_def)
  then show ?thesis
    unfolding places_before_def using True assms(2-)
    by (auto simp: desc_then_key asc_then_key f64_lt_def f64_eq_def)
next
  case False
  then show ?thesis using assms(1) by (simp add: config_before_def places_before_def word_less_nat_alt)
qed

lemma ranked_no_nan:
  assumes "list_all (\<lambda>r. \<not> f64_is_nan (cr_accuracy r) \<and> \<not> f64_is_nan (cr_cost_usd r)) results"
    and "s \<in> set (rank_pod_configs results)"
  shows "\<not> f64_is_nan (cs_accuracy s) \<and> \<not> f64_is_nan (cs_cost_usd s)"
proof -
  have "standing_view s \<in> standing_view ` set (tiered results)"
    using assms(2) arg_cong[OF ranked_views[of results], of set] by auto
  then obtain r where "r \<in> set results" "cs_accuracy s = cr_accuracy r" "cs_cost_usd s = cr_cost_usd r"
    by (auto simp: tiered_def standing_view_def unranked_def)
  then show ?thesis using assms(1) by (auto simp: list_all_iff)
qed

text \<open>
  The ranking of pod configurations is the Pareto order: it lists every result
  once, numbered from 1; the tier of each is the layer its point falls in, and the frontier is
  tier 1; and of two places the earlier has the smaller tier, or in one tier the higher
  accuracy, or at equal accuracy the lower cost, or at equal cost the smaller label.
\<close>

theorem pod_ranking_is_pareto_order:
  assumes "list_all (\<lambda>r. \<not> f64_is_nan (cr_accuracy r) \<and> \<not> f64_is_nan (cr_cost_usd r)) results"
    and "length results < 2 ^ 32"
  shows "map cs_rank (rank_pod_configs results) = [1..<Suc (length results)] \<and>
    mset (map standing_view (rank_pod_configs results)) =
      mset (map (result_view (result_point ` set results)) results) \<and>
    sorted_wrt places_before (rank_pod_configs results)"
proof (intro conjI)
  show "map cs_rank (rank_pod_configs results) = [1..<Suc (length results)]" by (rule ranked_numbers)
  show "mset (map standing_view (rank_pod_configs results)) =
      mset (map (result_view (result_point ` set results)) results)"
    by (metis ranked_views tiered_views[OF assms(2)] mset_map mset_sort_by)
  have no_nan: "\<not> f64_is_nan (cs_accuracy s) \<and> \<not> f64_is_nan (cs_cost_usd s)" if "s \<in> set (tiered results)" for s
    using that assms(1) by (auto simp: tiered_def unranked_def list_all_iff)
  have "sorted_wrt config_before (sort_by config_before (tiered results))"
    by (rule sorted_sort_by, rule config_before_total) (rule no_nan)
  then have before: "sorted_wrt config_before (rank_pod_configs results)"
    unfolding rank_pod_configs_eq Let_def by (rule sorted_wrt_numbered)
  show "sorted_wrt places_before (rank_pod_configs results)"
    by (rule sorted_wrt_mono_rel[OF _ before], rule config_before_places)
      (simp_all add: ranked_no_nan[OF assms(1)])
qed

text \<open>One configuration is the frontier by itself.\<close>

theorem pod_ranking_is_pareto_order_witness:
  "map cs_rank (rank_pod_configs [\<lparr>cr_config = \<lparr>pc_domain = ''d'', pc_host = ''h'', pc_tier = ''low''\<rparr>,
      cr_accuracy = f64_one, cr_cost_usd = 0, cr_runs = 10\<rparr>]) = [1] \<and>
   map cs_on_frontier (rank_pod_configs [\<lparr>cr_config = \<lparr>pc_domain = ''d'', pc_host = ''h'', pc_tier = ''low''\<rparr>,
      cr_accuracy = f64_one, cr_cost_usd = 0, cr_runs = 10\<rparr>]) = [True]"
proof -
  let ?r = "\<lparr>cr_config = \<lparr>pc_domain = ''d'', pc_host = ''h'', pc_tier = ''low''\<rparr>,
      cr_accuracy = f64_one, cr_cost_usd = 0, cr_runs = 10\<rparr>"
  have tier: "pareto_tier {result_point ?r} (result_point ?r) = 1"
    using pareto_tier_one[of "{result_point ?r}" "result_point ?r"] by (simp add: layer_def)
  have "list_all (\<lambda>r. \<not> f64_is_nan (cr_accuracy r) \<and> \<not> f64_is_nan (cr_cost_usd r)) [?r]" by simp
  from pod_ranking_is_pareto_order[OF this] have ranks: "map cs_rank (rank_pod_configs [?r]) = [1]"
    and views: "mset (map standing_view (rank_pod_configs [?r])) = {#result_view {result_point ?r} ?r#}"
    by simp_all
  obtain s where s: "rank_pod_configs [?r] = [s]" using ranks by (cases "rank_pod_configs [?r]") auto
  have "standing_view s = result_view {result_point ?r} ?r" using views unfolding s by simp
  then have "cs_on_frontier s" unfolding standing_view_def result_view_def Let_def tier by simp
  with ranks s show ?thesis by simp
qed

end
