(* ===== verification/Submission.thy ===== *)
theory Submission
  imports Signed Float_Text Hash_Map
begin

text \<open>
  The arena's benchmarks (\<open>agentbbs-arena/src/benchmark.rs\<close>), signed submissions
  (\<open>submission.rs\<close>) and leaderboard (\<open>leaderboard.rs\<close>). The free-form detail of a run is
  of any type \<open>'j\<close>, with the equality \<open>serde_json::Value\<close> has as an argument.
\<close>

section \<open>Benchmarks\<close>

datatype score_kind = PassRate | Points | LatencySeconds

definition higher_is_better :: "score_kind \<Rightarrow> bool" where
  "higher_is_better k \<longleftrightarrow> k \<noteq> LatencySeconds"

record benchmark =
  bm_id :: string
  bm_name :: string
  bm_description :: string
  bm_score_kind :: score_kind
  bm_harness :: string
  bm_categories :: "string list"

definition cve_bench :: benchmark where
  "cve_bench = \<lparr>bm_id = ''cve-bench'', bm_name = ''CVE-Bench'',
     bm_description = ''Exploit 40 real-world, critical-severity (CVSS '' @ [CHR 0xE2, CHR 0x89, CHR 0xA5] @
       '' 9.0) web-app CVEs inside a Docker sandbox. Scored pass@1.'',
     bm_score_kind = PassRate, bm_harness = ''npx ruflo bench cve-bench --agent {agent}'',
     bm_categories = [''denial-of-service'', ''file-access'', ''remote-code-execution'', ''database-modification'',
       ''database-access'', ''unauthorized-admin-login'', ''privilege-escalation'', ''outbound-service'']\<rparr>"

definition swe_agent :: benchmark where
  "swe_agent = \<lparr>bm_id = ''swe-agent'', bm_name = ''SWE-Agent'',
     bm_description = ''Resolve real GitHub issues; scored by fraction of resolved tasks.'',
     bm_score_kind = PassRate, bm_harness = ''npx ruflo bench swe --agent {agent}'',
     bm_categories = [''bugfix'', ''feature'']\<rparr>"

definition speed_run :: benchmark where
  "speed_run = \<lparr>bm_id = ''speed-run'', bm_name = ''Speed Run'',
     bm_description = ''Fastest correct completion of the standard task set; lower is better.'',
     bm_score_kind = LatencySeconds, bm_harness = ''npx ruflo bench speed --agent {agent}'',
     bm_categories = [''latency'']\<rparr>"

definition RETORT_BENCHMARK_ID :: string where
  "RETORT_BENCHMARK_ID = ''retort-metaharness''"

definition retort_benchmark :: benchmark where
  "retort_benchmark = \<lparr>bm_id = RETORT_BENCHMARK_ID, bm_name = ''Retort MetaHarness (DoE/ANOVA)'',
     bm_description = ''Rank agent+harness+model stacks on a Design-of-Experiments coding grid by '' @
       ''their accuracy(requirement_coverage)-vs-cost($/task) Pareto frontier position. ANOVA '' @
       ''attributes variance to {model, harness-config, language, task}. TOOLING false-fails '' @
       ''are excluded (honest scoring).'',
     bm_score_kind = PassRate, bm_harness = ''npx retort bench metaharness --doe {design} --json'',
     bm_categories = [''pareto-frontier'', ''requirement-coverage'', ''cost-efficiency'', ''doe-anova'']\<rparr>"

definition catalogue :: "benchmark list" where
  "catalogue = [cve_bench, swe_agent, speed_run, retort_benchmark]"

section \<open>Submissions\<close>

record 'j run_result =
  rr_benchmark :: string
  rr_competitor :: agent_id
  rr_handle :: string
  rr_score :: f64
  rr_passed :: u32
  rr_total :: u32
  rr_harness :: string
  rr_at :: time
  rr_detail :: 'j

text \<open>The detail is not among the signed bytes.\<close>

definition run_signing_bytes :: "env \<Rightarrow> 'j run_result \<Rightarrow> bytes" where
  "run_signing_bytes E r =
     ''agentbbs.arena.run.v1'' @ [newline] @ rr_benchmark r @ [newline] @ to_hex E (rr_competitor r) @ [newline] @
     rr_handle r @ [newline] @ fixed 6 (rr_score r) @ [newline] @
     (dec (unat (rr_passed r)) @ ''/'' @ dec (unat (rr_total r))) @ [newline] @
     rr_harness r @ [newline] @ rfc3339 E (rr_at r)"

record 'j submission =
  sub_result :: "'j run_result"
  sub_signature :: signature

definition submission_sign :: "env \<Rightarrow> identity \<Rightarrow> 'j run_result \<Rightarrow> 'j submission result" where
  "submission_sign E i r =
     (if ident i \<noteq> rr_competitor r then Inl (malformed ''submission'' ''signing identity is not the competitor'')
      else if rr_total r < rr_passed r then Inl (malformed ''submission'' ''passed exceeds total'')
      else Inr \<lparr>sub_result = r, sub_signature = sign E i (run_signing_bytes E r)\<rparr>)"

definition submission_verify :: "env \<Rightarrow> 'j submission \<Rightarrow> unit result" where
  "submission_verify E s =
     verify_sig E (rr_competitor (sub_result s)) (run_signing_bytes E (sub_result s)) (sub_signature s)"

text \<open>The derived equality of submissions: that of doubles on the score, and of values on the detail.\<close>

definition submission_eq :: "('j \<Rightarrow> 'j \<Rightarrow> bool) \<Rightarrow> 'j submission \<Rightarrow> 'j submission \<Rightarrow> bool" where
  "submission_eq eq s t \<longleftrightarrow>
     (let a = sub_result s; b = sub_result t
      in rr_benchmark a = rr_benchmark b \<and> rr_competitor a = rr_competitor b \<and> rr_handle a = rr_handle b \<and>
         f64_eq (rr_score a) (rr_score b) \<and> rr_passed a = rr_passed b \<and> rr_total a = rr_total b \<and>
         rr_harness a = rr_harness b \<and> rr_at a = rr_at b \<and> eq (rr_detail a) (rr_detail b)) \<and>
     sub_signature s = sub_signature t"

section \<open>Best of each key\<close>

text \<open>
  The loop of both boards: a map from keys to the best element so far, where a later element
  replaces an earlier one only when it is strictly better.
\<close>

definition best_step :: "('s \<Rightarrow> 's \<Rightarrow> bool) \<Rightarrow> ('s \<Rightarrow> 'k) \<Rightarrow> ('k, 's) hmap \<Rightarrow> 's \<Rightarrow> ('k, 's) hmap" where
  "best_step better key m s =
     (case hm_get m (key s) of
        None \<Rightarrow> hm_insert (key s) s m
      | Some prev \<Rightarrow> if better s prev then hm_insert (key s) s m else m)"

definition best_by :: "('s \<Rightarrow> 's \<Rightarrow> bool) \<Rightarrow> ('s \<Rightarrow> 'k) \<Rightarrow> 's list \<Rightarrow> ('k, 's) hmap" where
  "best_by better key xs = foldl (best_step better key) hm_empty xs"

lemma hm_wf_best_by [simp]: "hm_wf (best_by better key xs)"
proof -
  have "hm_wf m \<Longrightarrow> hm_wf (foldl (best_step better key) m xs)" for m
    by (induction xs arbitrary: m) (auto simp: best_step_def hm_wf_insert split: option.splits)
  then show ?thesis by (simp add: best_by_def hm_wf_empty)
qed

lemma best_by_Nil: "best_by better key [] = hm_empty"
  by (simp add: best_by_def)

lemma best_by_snoc: "best_by better key (xs @ [x]) = best_step better key (best_by better key xs) x"
  by (simp add: best_by_def)

lemma best_by_None: "hm_get (best_by better key xs) k = None \<longleftrightarrow> k \<notin> key ` set xs"
  by (induction xs rule: rev_induct)
    (auto simp: best_by_Nil best_by_snoc best_step_def split: option.splits)

text \<open>It keeps, of each key, the first of the elements that none beats.\<close>

lemma best_by_Some:
  assumes "\<And>x y z. better x y \<Longrightarrow> better z x \<Longrightarrow> better z y" "\<And>x. \<not> better x x"
    and "hm_get (best_by better key xs) k = Some s"
  shows "s \<in> set xs \<and> key s = k \<and> (\<forall>t \<in> set xs. key t = k \<longrightarrow> \<not> better t s)"
  using assms(3)
proof (induction xs arbitrary: s rule: rev_induct)
  case Nil
  then show ?case by (simp add: best_by_Nil)
next
  case (snoc x xs)
  show ?case
  proof (cases "hm_get (best_by better key xs) (key x)")
    case None
    have "\<forall>t \<in> set xs. key t \<noteq> key x" using iffD1[OF best_by_None None] by (metis imageI)
    moreover have "if k = key x then s = x else hm_get (best_by better key xs) k = Some s"
      using snoc.prems None by (auto simp: best_by_snoc best_step_def split: if_splits)
    ultimately show ?thesis using snoc.IH[of s] assms(2) by (auto split: if_splits)
  next
    case (Some prev)
    show ?thesis
    proof (cases "key x = k")
      case False
      then have "hm_get (best_by better key xs) k = Some s"
        using snoc.prems Some by (auto simp: best_by_snoc best_step_def split: if_splits)
      then show ?thesis using snoc.IH[of s] False by simp
    next
      case True
      then have best: "prev \<in> set xs \<and> key prev = k \<and> (\<forall>t \<in> set xs. key t = k \<longrightarrow> \<not> better t prev)"
        using snoc.IH[of prev] Some by simp
      have s: "s = (if better x prev then x else prev)"
        using snoc.prems Some True by (simp add: best_by_snoc best_step_def split: if_splits)
      have "\<not> better t x" if "better x prev" "t \<in> set xs" "key t = k" for t
        using best assms(1)[OF that(1), of t] that by blast
      then show ?thesis unfolding s using best True assms(2) by auto
    qed
  qed
qed

lemma best_by_key: "hm_get (best_by better key xs) k = Some s \<Longrightarrow> key s = k"
  by (induction xs arbitrary: k s rule: rev_induct)
    (auto simp: best_by_Nil best_by_snoc best_step_def split: option.splits if_splits)

lemma best_by_entries: "(k, s) \<in> set (best_by better key xs) \<longleftrightarrow> hm_get (best_by better key xs) k = Some s"
  using hm.entries_get[OF hm_wf_best_by, of k s better key xs] by (simp add: hm_entries_def)

lemma best_by_keyed: "(k, s) \<in> set (best_by better key xs) \<Longrightarrow> key s = k"
  unfolding best_by_entries by (rule best_by_key)

lemma best_by_values:
  "map key (hm_values (best_by better key xs)) = hm_keys (best_by better key xs)"
  by (auto simp: hm_values_def hm_keys_def intro: best_by_keyed)

lemma distinct_best_by: "distinct (map key (hm_values (best_by better key xs)))"
  using hm_wf_best_by[of better key xs] unfolding best_by_values by (simp add: hm_wf_def hm_keys_def)

lemma key_best_by: "key ` set (hm_values (best_by better key xs)) = key ` set xs"
proof -
  have "k \<in> set (hm_keys (best_by better key xs)) \<longleftrightarrow> k \<in> key ` set xs" for k
    unfolding set_hm_keys using best_by_None[of better key xs k] by (simp add: domIff)
  then show ?thesis by (metis best_by_values image_set subsetI subset_antisym)
qed

lemma in_best_by:
  "s \<in> set (hm_values (best_by better key xs)) \<longleftrightarrow> hm_get (best_by better key xs) (key s) = Some s"
proof
  assume "s \<in> set (hm_values (best_by better key xs))"
  then obtain k where k: "(k, s) \<in> set (best_by better key xs)" by (auto simp: hm_values_def)
  then show "hm_get (best_by better key xs) (key s) = Some s"
    using best_by_keyed[OF k] by (simp only: best_by_entries)
next
  assume "hm_get (best_by better key xs) (key s) = Some s"
  then have "(key s, s) \<in> set (best_by better key xs)" by (simp only: best_by_entries)
  then show "s \<in> set (hm_values (best_by better key xs))" by (force simp: hm_values_def)
qed

section \<open>Leaderboard\<close>

record standing =
  st_rank :: u32
  st_competitor :: agent_id
  st_handle :: string
  st_best_score :: f64
  st_passed :: u32
  st_total :: u32

definition beats :: "score_kind \<Rightarrow> 'j submission \<Rightarrow> 'j submission \<Rightarrow> bool" where
  "beats k s prev \<longleftrightarrow>
     (if higher_is_better k then f64_lt (rr_score (sub_result prev)) (rr_score (sub_result s))
      else f64_lt (rr_score (sub_result s)) (rr_score (sub_result prev)))"

definition standing_of :: "u32 \<Rightarrow> 'j submission \<Rightarrow> standing" where
  "standing_of n s = \<lparr>st_rank = n, st_competitor = rr_competitor (sub_result s),
     st_handle = rr_handle (sub_result s), st_best_score = rr_score (sub_result s),
     st_passed = rr_passed (sub_result s), st_total = rr_total (sub_result s)\<rparr>"

text \<open>\<open>values\<close> is the order in which the hash map of the best runs gives its values.\<close>

definition rank_runs :: "('j submission list \<Rightarrow> 'j submission list) \<Rightarrow> score_kind \<Rightarrow> 'j submission list \<Rightarrow> standing list" where
  "rank_runs values k submissions =
     (let best = best_by (beats k) (\<lambda>s. rr_competitor (sub_result s)) submissions;
          rows = sort_by (\<lambda>a b. if higher_is_better k
              then desc_then (rr_score (sub_result a)) (rr_score (sub_result b)) True
              else asc_then (rr_score (sub_result a)) (rr_score (sub_result b)) True) (values (hm_values best))
      in map (\<lambda>(i, s). standing_of (of_nat (i + 1)) s) (zip [0..<length rows] rows))"

definition for_benchmark :: "string \<Rightarrow> 'j submission list \<Rightarrow> 'j submission list" where
  "for_benchmark b submissions = filter (\<lambda>s. rr_benchmark (sub_result s) = b) submissions"

text \<open>What is documented of a hash map's iteration: every entry once, in any order.\<close>

definition hash_order :: "('a list \<Rightarrow> 'a list) \<Rightarrow> bool" where
  "hash_order values \<longleftrightarrow> (\<forall>xs. mset (values xs) = mset xs)"

lemma hash_order_set [simp]: "hash_order values \<Longrightarrow> set (values xs) = set xs"
  unfolding hash_order_def by (metis set_mset_mset)

lemma hash_order_distinct: "hash_order values \<Longrightarrow> distinct (map f (values xs)) = distinct (map f xs)"
  unfolding hash_order_def by (metis mset_eq_imp_distinct_iff mset_map)

section \<open>Signatures\<close>

lemma verify_submission_sign:
  "sig_ok E \<Longrightarrow> identity_wf E i \<Longrightarrow> submission_sign E i r = Inr s \<Longrightarrow>
   submission_verify E s = Inr () \<and> sub_result s = r"
  using verify_sign[of E i "run_signing_bytes E r"]
  by (auto simp: submission_sign_def submission_verify_def split: if_splits)

lemma detail_unsigned [simp]: "run_signing_bytes E (r\<lparr>rr_detail := d\<rparr>) = run_signing_bytes E r"
  by (simp add: run_signing_bytes_def)

lemma detail_replaceable [simp]:
  "submission_verify E (s\<lparr>sub_result := (sub_result s)\<lparr>rr_detail := d\<rparr>\<rparr>) = submission_verify E s"
  by (simp add: submission_verify_def)

text \<open>The signed view of a result.\<close>

definition signed_view :: "'j run_result \<Rightarrow> string \<times> agent_id \<times> string \<times> string \<times> u32 \<times> u32 \<times> string \<times> time" where
  "signed_view r = (rr_benchmark r, rr_competitor r, rr_handle r, fixed 6 (rr_score r), rr_passed r, rr_total r,
     rr_harness r, rr_at r)"

definition one_line :: "'j run_result \<Rightarrow> bool" where
  "one_line r \<longleftrightarrow> newline \<notin> set (rr_benchmark r) \<and> newline \<notin> set (rr_handle r) \<and> newline \<notin> set (rr_harness r)"

lemma dec_no_slash [simp]: "CHR ''/'' \<notin> set (dec k)"
  using dec_digits[of "CHR ''/''" k] by (auto simp: is_digit_def)

lemma run_bytes_binding:
  assumes "hex_ok E" "time_ok E" "one_line a" "one_line b"
  shows "run_signing_bytes E a = run_signing_bytes E b \<longleftrightarrow> signed_view a = signed_view b"
  using assms(3,4)
  unfolding run_signing_bytes_def one_line_def signed_view_def
  by (simp add: split_at_sep_iff newline_not_to_hex[OF assms(1)] to_hex_inj[OF assms(1)] rfc3339_inj[OF assms(2)] word_unat_eq_iff)

text \<open>
  What the signature of a benchmark run covers: results without line breaks in
  their text fields have the same signed bytes exactly when they agree on every field but the
  detail, the score to six decimals; so a signature stays valid when the detail is exchanged
  for any other, and with nothing else changed.
\<close>

theorem signature_covers_all_but_detail:
  assumes "hex_ok E" "time_ok E" "one_line a" "one_line b"
  shows "(run_signing_bytes E a = run_signing_bytes E b \<longleftrightarrow> signed_view a = signed_view b) \<and>
    submission_verify E \<lparr>sub_result = a\<lparr>rr_detail := d\<rparr>, sub_signature = sg\<rparr> =
      submission_verify E \<lparr>sub_result = a, sub_signature = sg\<rparr>"
  using run_bytes_binding[OF assms] by (simp add: submission_verify_def)

definition demo_bench_run :: "nat \<Rightarrow> f64 \<Rightarrow> 'j \<Rightarrow> 'j run_result" where
  "demo_bench_run n score d = \<lparr>rr_benchmark = ''cve-bench'', rr_competitor = ident (demo_id n), rr_handle = ''h'',
     rr_score = score, rr_passed = 1, rr_total = 1, rr_harness = ''x'', rr_at = 0, rr_detail = d\<rparr>"

theorem signature_covers_all_but_detail_witness:
  "run_signing_bytes demo_env (demo_bench_run 1 0 True) \<noteq> run_signing_bytes demo_env ((demo_bench_run 1 0 True)\<lparr>rr_harness := ''y''\<rparr>) \<and>
   submission_verify demo_env \<lparr>sub_result = demo_bench_run 1 0 False, sub_signature = SignatureBytes []\<rparr> =
     submission_verify demo_env \<lparr>sub_result = demo_bench_run 1 0 True, sub_signature = SignatureBytes []\<rparr>"
proof -
  have lines: "one_line (demo_bench_run 1 0 True)" "one_line ((demo_bench_run 1 0 True)\<lparr>rr_harness := ''y''\<rparr>)"
    by (simp_all add: one_line_def demo_bench_run_def)
  note binds = signature_covers_all_but_detail[OF demo_hex_ok demo_time_ok lines, of False "SignatureBytes []"]
  have "signed_view (demo_bench_run 1 0 True) \<noteq> signed_view ((demo_bench_run 1 0 True)\<lparr>rr_harness := ''y''\<rparr>)"
    by (simp add: signed_view_def demo_bench_run_def)
  moreover have "(demo_bench_run 1 0 True)\<lparr>rr_detail := False\<rparr> = demo_bench_run 1 0 False" by (simp add: demo_bench_run_def)
  ultimately show ?thesis using binds by simp
qed

text \<open>With line breaks in its text fields one signed run has a second reading, with another score.\<close>

definition two_readings :: "agent_id \<Rightarrow> (unit run_result \<times> unit run_result)" where
  "two_readings k =
     (\<lparr>rr_benchmark = ''cve-bench'', rr_competitor = k, rr_handle = ''h'', rr_score = 0, rr_passed = 1, rr_total = 1,
        rr_harness = ''x'' @ [newline] @ fixed 6 f64_one @ [newline] @ ''1/1'' @ [newline] @ ''y'', rr_at = 0, rr_detail = ()\<rparr>,
      \<lparr>rr_benchmark = ''cve-bench'', rr_competitor = k,
        rr_handle = ''h'' @ [newline] @ fixed 6 0 @ [newline] @ ''1/1'' @ [newline] @ ''x'', rr_score = f64_one,
        rr_passed = 1, rr_total = 1, rr_harness = ''y'', rr_at = 0, rr_detail = ()\<rparr>)"

lemma run_bytes_ambiguous:
  "run_signing_bytes E (fst (two_readings k)) = run_signing_bytes E (snd (two_readings k)) \<and>
   rr_score (fst (two_readings k)) \<noteq> rr_score (snd (two_readings k))"
proof -
  have "dec 1 = ''1''" "unat (1 :: u32) = 1" by code_simp+
  then show ?thesis by (simp add: run_signing_bytes_def two_readings_def f64_one_def)
qed

section \<open>The ranking\<close>

lemma f64_lt_irrefl [simp]: "\<not> f64_lt x x"
  by (simp add: f64_lt_def)

lemma f64_lt_trans: "f64_lt x y \<Longrightarrow> f64_lt y z \<Longrightarrow> f64_lt x z"
  by (auto simp: f64_lt_def)

lemma beats_strict: "\<not> beats k s s" "beats k s t \<Longrightarrow> beats k u s \<Longrightarrow> beats k u t"
  by (auto simp: beats_def intro: f64_lt_trans split: if_splits)

lemma best_run:
  "hm_get (best_by (beats k) key xs) c = Some s \<Longrightarrow>
   s \<in> set xs \<and> key s = c \<and> (\<forall>t \<in> set xs. key t = c \<longrightarrow> \<not> beats k t s)"
  by (erule best_by_Some[rotated 2]) (simp_all add: beats_strict(1), rule beats_strict(2))

definition row_before :: "score_kind \<Rightarrow> 'j submission \<Rightarrow> 'j submission \<Rightarrow> bool" where
  "row_before k a b \<longleftrightarrow>
     (if higher_is_better k then desc_then (rr_score (sub_result a)) (rr_score (sub_result b)) True
      else asc_then (rr_score (sub_result a)) (rr_score (sub_result b)) True)"

lemma row_before_total:
  assumes "\<And>s. s \<in> A \<Longrightarrow> \<not> f64_is_nan (rr_score (sub_result s))"
  shows "total_on_set A (row_before k)"
  unfolding total_on_set_def by (auto simp: row_before_def desc_then_key asc_then_key assms)

lemma row_before_beats:
  "row_before k a b \<Longrightarrow> \<not> f64_is_nan (rr_score (sub_result a)) \<Longrightarrow> \<not> f64_is_nan (rr_score (sub_result b)) \<Longrightarrow>
   \<not> beats k b a"
  by (auto simp: row_before_def beats_def desc_then_key asc_then_key f64_lt_def split: if_splits)

lemma standing_of_simps [simp]:
  "st_rank (standing_of n s) = n" "st_competitor (standing_of n s) = rr_competitor (sub_result s)"
  by (simp_all add: standing_of_def)

text \<open>The runs behind the rows, in the order of the board.\<close>

definition board_runs :: "('j submission list \<Rightarrow> 'j submission list) \<Rightarrow> score_kind \<Rightarrow> 'j submission list \<Rightarrow> 'j submission list" where
  "board_runs values k subs =
     sort_by (row_before k) (values (hm_values (best_by (beats k) (\<lambda>s. rr_competitor (sub_result s)) subs)))"

lemma rank_runs_eq:
  "rank_runs values k subs =
   map (\<lambda>i. standing_of (of_nat (i + 1)) (board_runs values k subs ! i)) [0..<length (board_runs values k subs)]"
  by (simp add: rank_runs_def board_runs_def row_before_def[abs_def] Let_def map_enumerate)

lemma set_board_runs:
  "hash_order values \<Longrightarrow> set (board_runs values k subs) =
     set (hm_values (best_by (beats k) (\<lambda>s. rr_competitor (sub_result s)) subs))"
  by (simp add: board_runs_def)

text \<open>
  The leaderboard is one row for each competitor, whatever the order of the hash
  map: its ranks count from 1, no competitor appears twice and none is missing; a row is a
  submission of its competitor that no other of theirs beats; and no row beats an earlier one,
  in the direction of the benchmark's score.
\<close>

theorem leaderboard_ranks_best_runs:
  assumes "hash_order values" and finite: "list_all (\<lambda>s. \<not> f64_is_nan (rr_score (sub_result s))) subs"
  shows "\<exists>runs. rank_runs values k subs = map (\<lambda>i. standing_of (of_nat (i + 1)) (runs ! i)) [0..<length runs] \<and>
    distinct (map (\<lambda>s. rr_competitor (sub_result s)) runs) \<and>
    (\<lambda>s. rr_competitor (sub_result s)) ` set runs = (\<lambda>s. rr_competitor (sub_result s)) ` set subs \<and>
    (\<forall>s \<in> set runs. s \<in> set subs \<and>
      (\<forall>t \<in> set subs. rr_competitor (sub_result t) = rr_competitor (sub_result s) \<longrightarrow> \<not> beats k t s)) \<and>
    sorted_wrt (\<lambda>a b. \<not> beats k b a) runs"
proof (intro exI conjI)
  let ?key = "\<lambda>s. rr_competitor (sub_result s)"
  let ?runs = "board_runs values k subs"
  note members = set_board_runs[OF assms(1), of k subs]
  show "rank_runs values k subs = map (\<lambda>i. standing_of (of_nat (i + 1)) (?runs ! i)) [0..<length ?runs]"
    by (rule rank_runs_eq)
  have "distinct (map ?key (values (hm_values (best_by (beats k) ?key subs))))"
    using distinct_best_by[of ?key "beats k" subs] hash_order_distinct[OF assms(1)] by blast
  then show "distinct (map ?key ?runs)"
    unfolding board_runs_def by (metis mset_eq_imp_distinct_iff mset_map mset_sort_by)
  show "?key ` set ?runs = ?key ` set subs"
    unfolding members by (rule key_best_by)
  show best: "\<forall>s \<in> set ?runs. s \<in> set subs \<and> (\<forall>t \<in> set subs. ?key t = ?key s \<longrightarrow> \<not> beats k t s)"
  proof
    fix s assume "s \<in> set ?runs"
    then have "hm_get (best_by (beats k) ?key subs) (?key s) = Some s"
      unfolding members by (rule iffD1[OF in_best_by])
    then show "s \<in> set subs \<and> (\<forall>t \<in> set subs. ?key t = ?key s \<longrightarrow> \<not> beats k t s)"
      using best_run[of k ?key subs] by blast
  qed
  have no_nan: "\<not> f64_is_nan (rr_score (sub_result s))" if "s \<in> set ?runs" for s
    using best finite that by (auto simp: list_all_iff)
  have "set (values (hm_values (best_by (beats k) ?key subs))) = set ?runs"
    using members assms(1) by simp
  then have "sorted_wrt (row_before k) ?runs"
    unfolding board_runs_def by (intro sorted_sort_by row_before_total) (simp add: no_nan board_runs_def[symmetric])
  then show "sorted_wrt (\<lambda>a b. \<not> beats k b a) ?runs"
    by (rule sorted_wrt_mono_rel[rotated]) (erule row_before_beats, (erule no_nan)+)
qed

text \<open>Two runs of one competitor and one of another: the better of the two comes first.\<close>

definition demo_sub :: "nat \<Rightarrow> f64 \<Rightarrow> unit submission" where
  "demo_sub n score = \<lparr>sub_result = demo_bench_run n score (), sub_signature = SignatureBytes []\<rparr>"

theorem leaderboard_ranks_best_runs_witness:
  "\<exists>runs. rank_runs rev PassRate [demo_sub 1 0, demo_sub 1 f64_one] =
      map (\<lambda>i. standing_of (of_nat (i + 1)) (runs ! i)) [0..<length runs] \<and>
    set runs = {demo_sub 1 f64_one}"
proof -
  have order: "hash_order (rev :: unit submission list \<Rightarrow> _)" by (simp add: hash_order_def)
  have "list_all (\<lambda>s. \<not> f64_is_nan (rr_score (sub_result s))) [demo_sub 1 0, demo_sub 1 f64_one]"
    by (simp add: demo_sub_def demo_bench_run_def)
  from leaderboard_ranks_best_runs[OF order this, of PassRate] obtain runs where runs:
    "rank_runs rev PassRate [demo_sub 1 0, demo_sub 1 f64_one] =
      map (\<lambda>i. standing_of (of_nat (i + 1)) (runs ! i)) [0..<length runs]"
    "(\<lambda>s. rr_competitor (sub_result s)) ` set runs = (\<lambda>s. rr_competitor (sub_result s)) ` set [demo_sub 1 0, demo_sub 1 f64_one]"
    "\<forall>s \<in> set runs. s \<in> set [demo_sub 1 0, demo_sub 1 f64_one] \<and>
      (\<forall>t \<in> set [demo_sub 1 0, demo_sub 1 f64_one].
        rr_competitor (sub_result t) = rr_competitor (sub_result s) \<longrightarrow> \<not> beats PassRate t s)"
    by blast
  have "beats PassRate (demo_sub 1 f64_one) (demo_sub 1 0)"
    by (simp add: beats_def higher_is_better_def demo_sub_def demo_bench_run_def f64_lt_def f64_key_def one_mag_le)
  moreover have "rr_competitor (sub_result (demo_sub 1 f64_one)) = rr_competitor (sub_result (demo_sub 1 0))"
    by (simp add: demo_sub_def demo_bench_run_def)
  ultimately have "set runs \<subseteq> {demo_sub 1 f64_one}" using runs(3) by auto
  moreover have "set runs \<noteq> {}" using runs(2) by auto
  ultimately have "set runs = {demo_sub 1 f64_one}" by (metis subset_singletonD)
  with runs(1) show ?thesis by blast
qed

end
