(* ===== verification/Retort.thy ===== *)
theory Retort
  imports Submission Pareto
begin

text \<open>
  The Retort track (\<open>agentbbs-arena/src/retort.rs\<close>): the results contract, the aggregation of
  its cells into stacks, the signed run of each stack, and the board that ranks stacks by
  Pareto tier. Parameters: the JSON codec of the detail (with the equality of JSON values), the
  JSON parser of a bundle with Rust's debug form of a string, and the order of the hash map of
  the best runs. The counters are \<open>u32\<close> and wrap.
\<close>

section \<open>The results contract\<close>

definition RETORT_SCHEMA :: string where
  "RETORT_SCHEMA = ''retort.metaharness.results.v1''"

datatype diagnosis = Pass | Genuine | Tooling

definition is_scored :: "diagnosis \<Rightarrow> bool" where
  "is_scored d \<longleftrightarrow> d \<noteq> Tooling"

record doe_design =
  dd_models :: "string list"
  dd_harness_configs :: "string list"
  dd_languages :: "string list"
  dd_tasks :: "string list"

record retort_cell =
  rc_model :: string
  rc_harness_config :: string
  rc_language :: string
  rc_task :: string
  rc_requirement_coverage :: f64
  rc_code_quality :: f64
  rc_cost_usd :: f64
  rc_latency_seconds :: f64
  rc_diagnosis :: diagnosis
  rc_passed :: bool
  rc_baseline :: bool

record factor_attribution =
  fa_factor :: string
  fa_sum_of_squares :: f64
  fa_df :: u32
  fa_mean_square :: f64
  fa_f_stat :: f64
  fa_p_value :: f64
  fa_variance_explained :: f64

record anova_result =
  an_response :: string
  an_factors :: "factor_attribution list"
  an_residual_sum_of_squares :: f64
  an_residual_df :: u32
  an_total_variance_explained :: f64

text \<open>\<open>max_by\<close>: a later row replaces the best unless the best is greater; a NaN is equal to all.\<close>

definition dominant_factor :: "anova_result \<Rightarrow> factor_attribution option" where
  "dominant_factor a =
     (case an_factors a of
        [] \<Rightarrow> None
      | f # fs \<Rightarrow> Some (foldl (\<lambda>x y. if f64_lt (fa_variance_explained y) (fa_variance_explained x) then x else y) f fs))"

datatype stack_key = StackKey (sk_model: string) (sk_harness_config: string) (sk_language: string)

text \<open>The derived order compares the fields one after the other.\<close>

instantiation stack_key :: linorder
begin

definition less_eq_stack_key :: "stack_key \<Rightarrow> stack_key \<Rightarrow> bool" where
  "a \<le> b \<longleftrightarrow> sk_model a < sk_model b \<or> sk_model a = sk_model b \<and>
     (sk_harness_config a < sk_harness_config b \<or> sk_harness_config a = sk_harness_config b \<and>
       sk_language a \<le> sk_language b)"

definition less_stack_key :: "stack_key \<Rightarrow> stack_key \<Rightarrow> bool" where
  "a < b \<longleftrightarrow> a \<le> b \<and> \<not> b \<le> (a :: stack_key)"

instance
  by standard (auto simp: less_eq_stack_key_def less_stack_key_def intro: stack_key.expand)

end

definition middle_dot :: string where
  "middle_dot = '' '' @ [CHR 0xC2, CHR 0xB7] @ '' ''"

definition stack_display :: "stack_key \<Rightarrow> string" where
  "stack_display k = sk_model k @ middle_dot @ sk_harness_config k @ middle_dot @ sk_language k"

record pareto_report =
  pr_frontier :: "stack_key list"

record retort_results =
  rt_schema :: string
  rt_harness_version :: string
  rt_generated_at :: time
  rt_design :: doe_design
  rt_cells :: "retort_cell list"
  rt_anova :: anova_result
  rt_pareto :: "pareto_report option"

definition results_from_json :: "(string \<Rightarrow> string + retort_results) \<Rightarrow> (string \<Rightarrow> string) \<Rightarrow> string \<Rightarrow> retort_results result" where
  "results_from_json parse debug s =
     (case parse s of
        Inl e \<Rightarrow> Inl (malformed ''retort results'' (''invalid JSON: '' @ e))
      | Inr r \<Rightarrow>
          if rt_schema r \<noteq> RETORT_SCHEMA
          then Inl (malformed ''retort results''
            (''unexpected schema '' @ debug (rt_schema r) @ '', want '' @ debug RETORT_SCHEMA))
          else if rt_cells r = [] then Inl (malformed ''retort results'' ''no cells'')
          else Inr r)"

text \<open>The built-in demo bundle; a decimal literal is its numerator and denominator, correctly rounded.\<close>

definition lit :: "nat \<times> nat \<Rightarrow> f64" where
  "lit q = f64_lit (fst q) (snd q)"

definition sample_cell :: "string \<Rightarrow> string \<Rightarrow> string \<Rightarrow> nat \<times> nat \<Rightarrow> nat \<times> nat \<Rightarrow> nat \<times> nat \<Rightarrow> nat \<times> nat
    \<Rightarrow> diagnosis \<Rightarrow> bool \<Rightarrow> bool \<Rightarrow> retort_cell" where
  "sample_cell model harness task cov quality cost latency diag passed baseline =
     \<lparr>rc_model = model, rc_harness_config = harness, rc_language = ''rust'', rc_task = task,
      rc_requirement_coverage = lit cov, rc_code_quality = lit quality, rc_cost_usd = lit cost,
      rc_latency_seconds = lit latency, rc_diagnosis = diag, rc_passed = passed, rc_baseline = baseline\<rparr>"

definition sample_factor :: "string \<Rightarrow> nat \<times> nat \<Rightarrow> nat \<times> nat \<Rightarrow> factor_attribution" where
  "sample_factor factor ss ve =
     \<lparr>fa_factor = factor, fa_sum_of_squares = lit ss, fa_df = 1, fa_mean_square = lit ss, fa_f_stat = 0,
      fa_p_value = 0, fa_variance_explained = lit ve\<rparr>"

definition sample_stack :: "string \<Rightarrow> string \<Rightarrow> stack_key" where
  "sample_stack model harness = StackKey model harness ''rust''"

definition sample_cells :: "retort_cell list" where
  "sample_cells =
      [sample_cell ''claude-opus-4.8'' ''claude-code'' ''task-a'' (95, 100) (91, 100) (510, 1000) (58, 1) Pass True True,
       sample_cell ''claude-opus-4.8'' ''claude-code'' ''task-b'' (92, 100) (89, 100) (490, 1000) (55, 1) Pass True True,
       sample_cell ''claude-opus-4.8'' ''ruflo-3tier'' ''task-a'' (95, 100) (90, 100) (88, 1000) (41, 1) Pass True False,
       sample_cell ''claude-opus-4.8'' ''ruflo-3tier'' ''task-b'' (93, 100) (89, 100) (82, 1000) (39, 1) Pass True False,
       sample_cell ''claude-opus-4.8'' ''single-shot'' ''task-a'' (85, 100) (80, 100) (42, 1000) (22, 1) Pass True False,
       sample_cell ''claude-opus-4.8'' ''single-shot'' ''task-b'' (0, 1) (0, 1) (40, 1000) (21, 1) Tooling False False,
       sample_cell ''deepseek-v4'' ''ruflo-3tier'' ''task-a'' (70, 100) (66, 100) (12, 1000) (33, 1) Genuine False False,
       sample_cell ''deepseek-v4'' ''ruflo-3tier'' ''task-b'' (65, 100) (60, 100) (11, 1000) (31, 1) Genuine False False,
       sample_cell ''deepseek-v4'' ''single-shot'' ''task-a'' (55, 100) (52, 100) (6, 1000) (18, 1) Genuine False False,
       sample_cell ''deepseek-v4'' ''single-shot'' ''task-b'' (50, 100) (48, 100) (5, 1000) (17, 1) Genuine False False]"

definition sample :: retort_results where
  "sample =
     \<lparr>rt_schema = RETORT_SCHEMA, rt_harness_version = ''retort-metaharness@0.1.0'',
      rt_generated_at = 1782648000000000000,
      rt_design = \<lparr>dd_models = [''claude-opus-4.8'', ''deepseek-v4''],
        dd_harness_configs = [''claude-code'', ''ruflo-3tier'', ''single-shot''],
        dd_languages = [''rust''], dd_tasks = [''task-a'', ''task-b'']\<rparr>,
      rt_cells = sample_cells,
      rt_anova = \<lparr>an_response = ''requirement_coverage'',
        an_factors = [sample_factor ''model'' (2048, 10000) (612, 1000),
          sample_factor ''harness_config'' (512, 10000) (153, 1000),
          sample_factor ''task'' (98, 10000) (29, 1000), sample_factor ''language'' (0, 1) (0, 1)],
        an_residual_sum_of_squares = lit (686, 10000), an_residual_df = 3,
        an_total_variance_explained = lit (794, 1000)\<rparr>,
      rt_pareto = Some \<lparr>pr_frontier =
        [sample_stack ''claude-opus-4.8'' ''ruflo-3tier'', sample_stack ''claude-opus-4.8'' ''single-shot'',
         sample_stack ''deepseek-v4'' ''ruflo-3tier'', sample_stack ''deepseek-v4'' ''single-shot'']\<rparr>\<rparr>"

section \<open>Aggregation\<close>

definition cost_bin :: "f64 \<Rightarrow> string" where
  "cost_bin c =
     (let at_most = [CHR 0xE2, CHR 0x89, CHR 0xA4]
      in if f64_le c 0 then ''free''
         else if f64_le c (f64_lit 1 100) then at_most @ ''$0.01''
         else if f64_le c (f64_lit 10 100) then at_most @ ''$0.10''
         else if f64_le c f64_one then at_most @ ''$1.00''
         else if f64_le c (f64_lit 10 1) then at_most @ ''$10.00''
         else ''>$10.00'')"

record stack_aggregate =
  sa_key :: stack_key
  sa_mean_requirement_coverage :: f64
  sa_mean_code_quality :: f64
  sa_mean_cost_usd :: f64
  sa_cost_bin :: string
  sa_mean_latency_seconds :: f64
  sa_cells_passed :: u32
  sa_cells_total :: u32
  sa_cells_excluded_tooling :: u32
  sa_is_baseline :: bool

record stack_acc =
  ac_cov :: f64
  ac_quality :: f64
  ac_cost :: f64
  ac_latency :: f64
  ac_passed :: u32
  ac_scored :: u32
  ac_excluded :: u32
  ac_baseline :: bool

definition acc_zero :: stack_acc where
  "acc_zero = \<lparr>ac_cov = 0, ac_quality = 0, ac_cost = 0, ac_latency = 0,
     ac_passed = 0, ac_scored = 0, ac_excluded = 0, ac_baseline = False\<rparr>"

definition cell_key :: "retort_cell \<Rightarrow> stack_key" where
  "cell_key c = StackKey (rc_model c) (rc_harness_config c) (rc_language c)"

definition acc_cell :: "stack_acc \<Rightarrow> retort_cell \<Rightarrow> stack_acc" where
  "acc_cell a0 c =
     (let a = a0\<lparr>ac_baseline := ac_baseline a0 \<or> rc_baseline c\<rparr>
      in if \<not> is_scored (rc_diagnosis c) then a\<lparr>ac_excluded := ac_excluded a + 1\<rparr>
         else a\<lparr>ac_cov := f64_add (ac_cov a) (rc_requirement_coverage c),
           ac_quality := f64_add (ac_quality a) (rc_code_quality c),
           ac_cost := f64_add (ac_cost a) (rc_cost_usd c),
           ac_latency := f64_add (ac_latency a) (rc_latency_seconds c),
           ac_scored := ac_scored a + 1,
           ac_passed := (if rc_diagnosis c = Pass \<and> rc_passed c then ac_passed a + 1 else ac_passed a)\<rparr>)"

definition stack_cell :: "(stack_key, stack_acc) btree \<Rightarrow> retort_cell \<Rightarrow> (stack_key, stack_acc) btree" where
  "stack_cell m c = bt_insert (cell_key c) (acc_cell (unwrap_or acc_zero (bt_get m (cell_key c))) c) m"

definition aggregate_of :: "stack_key \<Rightarrow> stack_acc \<Rightarrow> stack_aggregate" where
  "aggregate_of key a =
     (let n = f64_of_nat (unat (max (ac_scored a) 1)); mean_cost = f64_div (ac_cost a) n
      in \<lparr>sa_key = key, sa_mean_requirement_coverage = f64_div (ac_cov a) n,
          sa_mean_code_quality = f64_div (ac_quality a) n, sa_mean_cost_usd = mean_cost,
          sa_cost_bin = cost_bin mean_cost, sa_mean_latency_seconds = f64_div (ac_latency a) n,
          sa_cells_passed = ac_passed a, sa_cells_total = ac_scored a,
          sa_cells_excluded_tooling = ac_excluded a, sa_is_baseline = ac_baseline a\<rparr>)"

definition aggregate_stacks :: "retort_results \<Rightarrow> stack_aggregate list" where
  "aggregate_stacks results =
     map (\<lambda>(key, a). aggregate_of key a) (bt_entries (foldl stack_cell bt_empty (rt_cells results)))"

section \<open>The signed run of a stack\<close>

record retort_detail =
  rd_kind :: string
  rd_stack :: stack_key
  rd_placement_metric :: string
  rd_code_quality :: f64
  rd_cost_usd :: f64
  rd_cost_bin :: string
  rd_latency_seconds :: f64
  rd_cells_total :: u32
  rd_cells_excluded_tooling :: u32
  rd_anova :: anova_result
  rd_is_baseline :: bool
  rd_reported_frontier :: "bool option"

text \<open>\<open>serde_json\<close> on the detail: \<open>to_value\<close>, \<open>from_value\<close>, \<open>Value::Null\<close> and equality.\<close>

record 'j value_codec =
  to_value :: "retort_detail \<Rightarrow> string + 'j"
  from_value :: "'j \<Rightarrow> string + retort_detail"
  value_null :: 'j
  value_eq :: "'j \<Rightarrow> 'j \<Rightarrow> bool"

definition to_run_result :: "'j value_codec \<Rightarrow> stack_aggregate \<Rightarrow> agent_id \<Rightarrow> anova_result \<Rightarrow> string \<Rightarrow> time
    \<Rightarrow> bool option \<Rightarrow> 'j run_result" where
  "to_run_result V agg operator anova harness_version at reported_frontier =
     (let detail = \<lparr>rd_kind = ''retort.stack.v1'', rd_stack = sa_key agg,
          rd_placement_metric = ''pareto(requirement_coverage, $/task)'',
          rd_code_quality = sa_mean_code_quality agg, rd_cost_usd = sa_mean_cost_usd agg,
          rd_cost_bin = sa_cost_bin agg, rd_latency_seconds = sa_mean_latency_seconds agg,
          rd_cells_total = sa_cells_total agg, rd_cells_excluded_tooling = sa_cells_excluded_tooling agg,
          rd_anova = anova, rd_is_baseline = sa_is_baseline agg, rd_reported_frontier = reported_frontier\<rparr>
      in \<lparr>rr_benchmark = RETORT_BENCHMARK_ID, rr_competitor = operator, rr_handle = stack_display (sa_key agg),
          rr_score = sa_mean_requirement_coverage agg, rr_passed = sa_cells_passed agg,
          rr_total = sa_cells_total agg, rr_harness = harness_version, rr_at = at,
          rr_detail = (case to_value V detail of Inl _ \<Rightarrow> value_null V | Inr v \<Rightarrow> v)\<rparr>)"

definition stack_run :: "'j value_codec \<Rightarrow> retort_results \<Rightarrow> identity \<Rightarrow> stack_aggregate \<Rightarrow> 'j run_result" where
  "stack_run V results i agg =
     to_run_result V agg (ident i) (rt_anova results) (rt_harness_version results) (rt_generated_at results)
       (map_option (\<lambda>p. sa_key agg \<in> set (pr_frontier p)) (rt_pareto results))"

fun sign_each :: "env \<Rightarrow> identity \<Rightarrow> 'j run_result list \<Rightarrow> 'j submission list result" where
  "sign_each E i [] = Inr []"
| "sign_each E i (r # rs) = rbind (submission_sign E i r) (\<lambda>s. rbind (sign_each E i rs) (\<lambda>ss. Inr (s # ss)))"

definition retort_ingest :: "env \<Rightarrow> 'j value_codec \<Rightarrow> retort_results \<Rightarrow> identity \<Rightarrow> 'j submission list result" where
  "retort_ingest E V results i = sign_each E i (map (stack_run V results i) (aggregate_stacks results))"

section \<open>Aggregation against its reference\<close>

text \<open>
  The reference: the stacks of the bundle in their order; of each, the means over its scored
  cells, added up in the order of the bundle, and the counts.
\<close>

definition stack_cells :: "retort_results \<Rightarrow> stack_key \<Rightarrow> retort_cell list" where
  "stack_cells r k = filter (\<lambda>c. cell_key c = k) (rt_cells r)"

definition scored_cells :: "retort_results \<Rightarrow> stack_key \<Rightarrow> retort_cell list" where
  "scored_cells r k = filter (\<lambda>c. is_scored (rc_diagnosis c)) (stack_cells r k)"

definition mean_of :: "(retort_cell \<Rightarrow> f64) \<Rightarrow> retort_cell list \<Rightarrow> f64" where
  "mean_of f cs = f64_div (foldl f64_add 0 (map f cs)) (f64_of_nat (max (length cs) 1))"

definition stack_reference :: "retort_results \<Rightarrow> stack_key \<Rightarrow> stack_aggregate" where
  "stack_reference r k =
     (let cs = scored_cells r k
      in \<lparr>sa_key = k, sa_mean_requirement_coverage = mean_of rc_requirement_coverage cs,
          sa_mean_code_quality = mean_of rc_code_quality cs, sa_mean_cost_usd = mean_of rc_cost_usd cs,
          sa_cost_bin = cost_bin (mean_of rc_cost_usd cs), sa_mean_latency_seconds = mean_of rc_latency_seconds cs,
          sa_cells_passed = of_nat (length (filter (\<lambda>c. rc_diagnosis c = Pass \<and> rc_passed c) cs)),
          sa_cells_total = of_nat (length cs),
          sa_cells_excluded_tooling = of_nat (length (stack_cells r k) - length cs),
          sa_is_baseline = list_ex rc_baseline (stack_cells r k)\<rparr>)"

lemma bt_wf_stack_cells: "bt_wf m \<Longrightarrow> bt_wf (foldl stack_cell m cs)"
  by (induction cs arbitrary: m) (simp_all add: stack_cell_def bt_wf_insert)

lemma bt_get_stack_cells:
  assumes "bt_wf m"
  shows "bt_get (foldl stack_cell m cs) k =
    (if bt_get m k = None \<and> k \<notin> cell_key ` set cs then None
     else Some (foldl acc_cell (unwrap_or acc_zero (bt_get m k)) (filter (\<lambda>c. cell_key c = k) cs)))"
  using assms
proof (induction cs arbitrary: m)
  case Nil
  then show ?case by (cases "bt_get m k") auto
next
  case (Cons c cs)
  have "bt_wf (stack_cell m c)" using Cons.prems by (simp add: stack_cell_def bt_wf_insert)
  from Cons.IH[OF this] Cons.prems show ?case
    by (auto simp: stack_cell_def bt_get_insert)
qed

lemma acc_cells_spec:
  "foldl acc_cell a cs =
   (let ss = filter (\<lambda>c. is_scored (rc_diagnosis c)) cs
    in \<lparr>ac_cov = foldl f64_add (ac_cov a) (map rc_requirement_coverage ss),
        ac_quality = foldl f64_add (ac_quality a) (map rc_code_quality ss),
        ac_cost = foldl f64_add (ac_cost a) (map rc_cost_usd ss),
        ac_latency = foldl f64_add (ac_latency a) (map rc_latency_seconds ss),
        ac_passed = ac_passed a + of_nat (length (filter (\<lambda>c. rc_diagnosis c = Pass \<and> rc_passed c) ss)),
        ac_scored = ac_scored a + of_nat (length ss),
        ac_excluded = ac_excluded a + of_nat (length (filter (\<lambda>c. \<not> is_scored (rc_diagnosis c)) cs)),
        ac_baseline = (ac_baseline a \<or> list_ex rc_baseline cs)\<rparr>)"
  by (induction cs arbitrary: a) (simp_all add: Let_def acc_cell_def algebra_simps)

lemma length_scored_le: "length (scored_cells r k) \<le> length (rt_cells r)"
  unfolding scored_cells_def stack_cells_def by (meson length_filter_le le_trans)

lemma length_excluded:
  "length (filter (\<lambda>c. \<not> is_scored (rc_diagnosis c)) (stack_cells r k)) = length (stack_cells r k) - length (scored_cells r k)"
  using sum_length_filter_compl[of "\<lambda>c. is_scored (rc_diagnosis c)" "stack_cells r k"]
  by (simp add: scored_cells_def)

lemma unat_max_one: "n < 2 ^ 32 \<Longrightarrow> unat (max (of_nat n :: u32) 1) = max n 1"
  using u32_of_nat[of n] by (simp add: max_def word_le_nat_alt)

lemma aggregate_of_cells:
  assumes "length (rt_cells r) < 2 ^ 32"
  shows "aggregate_of k (foldl acc_cell acc_zero (stack_cells r k)) = stack_reference r k"
proof -
  have "length (scored_cells r k) < 2 ^ 32" using length_scored_le[of r k] assms by simp
  note counts = unat_max_one[OF this] length_excluded[of r k]
  show ?thesis
    unfolding aggregate_of_def acc_cells_spec stack_reference_def mean_of_def scored_cells_def[symmetric] Let_def
    by (simp add: acc_zero_def counts)
qed

lemma aggregate_stacks_reference:
  assumes "length (rt_cells r) < 2 ^ 32"
  shows "aggregate_stacks r = map (stack_reference r) (sorted_list_of_set (cell_key ` set (rt_cells r)))"
proof -
  let ?m = "foldl stack_cell bt_empty (rt_cells r)"
  have wf: "bt_wf ?m" by (rule bt_wf_stack_cells) (rule bt.wf_empty)
  note get = bt_get_stack_cells[OF bt.wf_empty, of "rt_cells r", unfolded bt.get_empty]
  have "set (map fst ?m) = dom (bt_get ?m)" using set_bt_keys[OF wf] by (simp add: bt_keys_def)
  also have "\<dots> = cell_key ` set (rt_cells r)" by (auto simp: get split: if_splits)
  finally have "map fst ?m = sorted_list_of_set (cell_key ` set (rt_cells r))"
    using wf unfolding bt_wf_def strict_sorted_iff by (metis sorted_list_of_set.idem_if_sorted_distinct)
  moreover have "aggregate_stacks r = map (stack_reference r) (map fst ?m)"
    unfolding aggregate_stacks_def bt_entries_def map_map
  proof (rule map_cong[OF refl])
    fix e assume "e \<in> set ?m"
    then have "bt_get ?m (fst e) = Some (snd e)" using bt_distinct[OF wf] by (simp add: bt_get_def)
    then have "snd e = foldl acc_cell acc_zero (stack_cells r (fst e))"
      by (simp add: get stack_cells_def split: if_splits)
    then show "(case e of (key, a) \<Rightarrow> aggregate_of key a) = (stack_reference r \<circ> fst) e"
      using aggregate_of_cells[OF assms, of "fst e"] by (simp add: case_prod_beta)
  qed
  ultimately show ?thesis by simp
qed

text \<open>
  Property C20. The aggregation is its reference: one aggregate for each stack of the bundle, in
  the order of the stacks; its means are over the stack's cells that are not tooling failures,
  in IEEE arithmetic, and it counts its passes, its scored cells and the excluded ones.
\<close>

theorem aggregation_excludes_tooling:
  assumes "length (rt_cells r) < 2 ^ 32"
  shows "aggregate_stacks r = map (stack_reference r) (sorted_list_of_set (cell_key ` set (rt_cells r)))"
  by (rule aggregate_stacks_reference[OF assms])

text \<open>The demo bundle: five stacks, one of which loses a cell to a tooling failure.\<close>

lemma cell_key_sample [simp]: "cell_key (sample_cell m h t a b c d e f g) = sample_stack m h"
  by (simp add: cell_key_def sample_cell_def sample_stack_def)

lemma sample_keys:
  "sorted_list_of_set (cell_key ` set (rt_cells sample)) =
   [sample_stack ''claude-opus-4.8'' ''claude-code'', sample_stack ''claude-opus-4.8'' ''ruflo-3tier'',
    sample_stack ''claude-opus-4.8'' ''single-shot'', sample_stack ''deepseek-v4'' ''ruflo-3tier'',
    sample_stack ''deepseek-v4'' ''single-shot'']"
  (is "_ = ?ks")
proof -
  have "cell_key ` set (rt_cells sample) = set ?ks"
    by (simp add: sample_def sample_cells_def)
  moreover have "sorted ?ks" "distinct ?ks" by code_simp+
  ultimately show ?thesis by (simp only: sorted_list_of_set.idem_if_sorted_distinct)
qed

lemma stack_reference_counts:
  "sa_key (stack_reference r k) = k" "sa_cells_total (stack_reference r k) = of_nat (length (scored_cells r k))"
  "sa_cells_excluded_tooling (stack_reference r k) = of_nat (length (stack_cells r k) - length (scored_cells r k))"
  by (simp_all add: stack_reference_def Let_def)

lemma sample_cell_diagnosis: "rc_diagnosis (sample_cell m h t a b c d e f g) = e"
  by (simp add: sample_cell_def)

lemma rt_cells_sample: "rt_cells sample = sample_cells"
  by (simp add: sample_def)

theorem aggregation_excludes_tooling_witness:
  "map (\<lambda>a. (sa_cells_total a, sa_cells_excluded_tooling a)) (aggregate_stacks sample) =
     [(2, 0), (2, 0), (1, 1), (2, 0), (2, 0)]"
proof -
  have "length (rt_cells sample) < 2 ^ 32" by (simp add: rt_cells_sample sample_cells_def)
  note agg = aggregation_excludes_tooling[OF this, unfolded sample_keys]
  show ?thesis unfolding agg
    by (simp add: stack_reference_counts scored_cells_def stack_cells_def rt_cells_sample sample_cells_def
        sample_stack_def sample_cell_diagnosis is_scored_def)
qed

section \<open>Ingestion signs one run for each stack\<close>

definition signed_run :: "env \<Rightarrow> identity \<Rightarrow> 'j run_result \<Rightarrow> 'j submission" where
  "signed_run E i r = \<lparr>sub_result = r, sub_signature = sign E i (run_signing_bytes E r)\<rparr>"

lemma signed_run_result [simp]: "sub_result (signed_run E i r) = r"
  by (simp add: signed_run_def)

lemma sign_each_all:
  "\<forall>r \<in> set rs. rr_competitor r = ident i \<and> rr_passed r \<le> rr_total r \<Longrightarrow>
   sign_each E i rs = Inr (map (signed_run E i) rs)"
  by (induction rs) (auto simp: submission_sign_def signed_run_def not_less)

lemma verify_signed_run:
  "sig_ok E \<Longrightarrow> identity_wf E i \<Longrightarrow> rr_competitor r = ident i \<Longrightarrow> submission_verify E (signed_run E i r) = Inr ()"
  using verify_sign[of E i "run_signing_bytes E r"] by (simp add: signed_run_def submission_verify_def)

lemma stack_run_simps [simp]:
  "rr_benchmark (stack_run V r i a) = RETORT_BENCHMARK_ID" "rr_competitor (stack_run V r i a) = ident i"
  "rr_handle (stack_run V r i a) = stack_display (sa_key a)"
  "rr_score (stack_run V r i a) = sa_mean_requirement_coverage a"
  "rr_passed (stack_run V r i a) = sa_cells_passed a" "rr_total (stack_run V r i a) = sa_cells_total a"
  by (simp_all add: stack_run_def to_run_result_def Let_def)

lemma reference_counts:
  assumes "length (rt_cells r) < 2 ^ 32"
  shows "sa_cells_passed (stack_reference r k) \<le> sa_cells_total (stack_reference r k)"
    "sa_cells_total (stack_reference r k) = 0 \<longleftrightarrow> scored_cells r k = []"
proof -
  let ?p = "length (filter (\<lambda>c. rc_diagnosis c = Pass \<and> rc_passed c) (scored_cells r k))"
  have n: "length (scored_cells r k) < 2 ^ 32" using length_scored_le[of r k] assms by simp
  have p: "?p \<le> length (scored_cells r k)" by (rule length_filter_le)
  then have "?p < 2 ^ 32" using n by (rule le_less_trans)
  then show "sa_cells_passed (stack_reference r k) \<le> sa_cells_total (stack_reference r k)"
    using p u32_of_nat[OF n] u32_of_nat[of ?p]
    by (simp add: stack_reference_def Let_def word_le_nat_alt)
  show "sa_cells_total (stack_reference r k) = 0 \<longleftrightarrow> scored_cells r k = []"
    using u32_of_nat[OF n] by (auto simp: stack_reference_counts dest: arg_cong[of _ _ unat])
qed

abbreviation stacks_of :: "retort_results \<Rightarrow> stack_key list" where
  "stacks_of r \<equiv> sorted_list_of_set (cell_key ` set (rt_cells r))"

lemma retort_ingest_spec:
  assumes "length (rt_cells r) < 2 ^ 32"
  shows "retort_ingest E V r i = Inr (map (\<lambda>k. signed_run E i (stack_run V r i (stack_reference r k))) (stacks_of r))"
  unfolding retort_ingest_def aggregate_stacks_reference[OF assms] map_map comp_def
  by (subst sign_each_all) (auto simp: reference_counts[OF assms])

end
