(* ===== verification/Retort_Board.thy ===== *)
theory Retort_Board
  imports Retort
begin

text \<open>
  The board of the Retort track (\<open>rank_stacks\<close>, \<open>frontier\<close>, \<open>insight_for\<close> of
  \<open>agentbbs-arena/src/retort.rs\<close>): the best run of each stack, placed by Pareto tier of
  coverage and cost. The order in which the hash map of the best runs gives its values is an
  argument.
\<close>

section \<open>Model\<close>

record stack_standing =
  ss_rank :: u32
  ss_operator :: agent_id
  ss_stack :: string
  ss_requirement_coverage :: f64
  ss_code_quality :: f64
  ss_cost_usd :: f64
  ss_cost_bin :: string
  ss_passed :: u32
  ss_total :: u32
  ss_excluded_tooling :: u32
  ss_dominant_factor :: "string option"
  ss_pareto_optimal :: bool
  ss_pareto_tier :: u32
  ss_is_baseline :: bool
  ss_reported_frontier :: "bool option"
  ss_insight :: string

definition f64_infinity :: f64 where
  "f64_infinity = f64_of False inf_mag"

definition f64_abs :: "f64 \<Rightarrow> f64" where
  "f64_abs x = f64_of False (f64_mag x)"

definition f64_hundred :: f64 where
  "f64_hundred = f64_lit 100 1"

definition detail_of :: "'j value_codec \<Rightarrow> 'j submission \<Rightarrow> retort_detail option" where
  "detail_of V s = (case from_value V (rr_detail (sub_result s)) of Inl _ \<Rightarrow> None | Inr d \<Rightarrow> Some d)"

definition pct_lower :: "f64 \<Rightarrow> f64 \<Rightarrow> int" where
  "pct_lower low high =
     (if f64_le high 0 \<or> f64_le high low then 0
      else round_i64 (f64_mul (f64_sub f64_one (f64_div low high)) f64_hundred))"

definition points_gap :: "f64 \<Rightarrow> f64 \<Rightarrow> int" where
  "points_gap a b = round_i64 (f64_mul (f64_sub a b) f64_hundred)"

text \<open>The cheapest point of the frontier that dominates \<open>me\<close>, the first of equally cheap ones.\<close>

definition cheapest_dominator :: "pareto_point list \<Rightarrow> u32 list \<Rightarrow> pareto_point \<Rightarrow> (f64 \<times> f64) option" where
  "cheapest_dominator points tiers me =
     foldl (\<lambda>dom (k, p).
        if tiers ! k \<noteq> 1 then dom
        else if dominates p me \<and> (case dom of None \<Rightarrow> True | Some (_, c) \<Rightarrow> f64_lt (pp_cost p) c)
        then Some (pp_coverage p, pp_cost p) else dom)
      None (zip [0..<length points] points)"

definition times_sign :: string where
  "times_sign = [CHR 0xC3, CHR 0x97]"

definition insight_for :: "f64 \<Rightarrow> f64 \<Rightarrow> u32 \<Rightarrow> (f64 \<times> f64) option \<Rightarrow> pareto_point list \<Rightarrow> u32 list \<Rightarrow> string" where
  "insight_for coverage cost tier anchor points tiers =
     (let me = \<lparr>pp_coverage = coverage, pp_cost = cost\<rparr>
      in if 1 < tier then
           (case cheapest_dominator points tiers me of
              Some (dcov, dcost) \<Rightarrow>
                (let cheaper = pct_lower dcost cost
                 in if f64_le (f64_abs (f64_sub dcov coverage)) (f64_lit 2 100)
                    then ''dominated'' @ middle_dot @ ''same reliability available at '' @ dec_int cheaper @ ''% lower cost''
                    else ''dominated'' @ middle_dot @ ''frontier gives +'' @ dec_int (points_gap dcov coverage) @
                      '' pts at '' @ dec_int cheaper @ ''% lower cost'')
            | None \<Rightarrow> ''dominated'')
         else
           (case anchor of
              Some (acov, acost) \<Rightarrow>
                if f64_le (f64_abs (f64_sub acov coverage)) EPS \<and> f64_le (f64_abs (f64_sub acost cost)) EPS
                then ''frontier'' @ middle_dot @ ''most reliable ('' @ fixed 0 (f64_mul coverage f64_hundred) @
                  ''%) at $'' @ fixed 3 cost @ ''/task''
                else (let cheaper = pct_lower cost acost;
                          times = (if f64_lt 0 cost then f64_div acost cost else f64_infinity);
                          pts = points_gap acov coverage
                      in ''frontier'' @ middle_dot @ dec_int cheaper @ ''% cheaper than top (top: more reliable at '' @
                        fixed 1 times @ times_sign @ '' cost, +'' @ dec_int pts @ '' pts)'')
            | None \<Rightarrow> ''frontier''))"

record 'j stack_row =
  br_sub :: "'j submission"
  br_detail :: "retort_detail option"
  br_coverage :: f64
  br_cost :: f64

definition stack_row :: "'j value_codec \<Rightarrow> 'j submission \<Rightarrow> 'j stack_row" where
  "stack_row V s =
     \<lparr>br_sub = s, br_detail = detail_of V s, br_coverage = rr_score (sub_result s),
      br_cost = (case detail_of V s of None \<Rightarrow> f64_infinity | Some d \<Rightarrow> rd_cost_usd d)\<rparr>"

definition row_point :: "'j stack_row \<Rightarrow> pareto_point" where
  "row_point r = \<lparr>pp_coverage = br_coverage r, pp_cost = br_cost r\<rparr>"

definition best_stacks :: "'j submission list \<Rightarrow> (string, 'j submission) hmap" where
  "best_stacks submissions =
     foldl (\<lambda>m s. if rr_benchmark (sub_result s) \<noteq> RETORT_BENCHMARK_ID then m
        else best_step (\<lambda>a b. f64_lt (rr_score (sub_result b)) (rr_score (sub_result a)))
          (\<lambda>s. rr_handle (sub_result s)) m s) hm_empty submissions"

text \<open>The comparison of two rows with their tiers.\<close>

definition stack_before :: "u32 \<times> 'j stack_row \<Rightarrow> u32 \<times> 'j stack_row \<Rightarrow> bool" where
  "stack_before a b \<longleftrightarrow>
     (if fst a \<noteq> fst b then fst a < fst b
      else desc_then (br_coverage (snd a)) (br_coverage (snd b))
        (asc_then (br_cost (snd a)) (br_cost (snd b))
          (rr_handle (sub_result (br_sub (snd a))) \<le> rr_handle (sub_result (br_sub (snd b))))))"

definition stack_standing_of :: "u32 \<Rightarrow> 'j stack_row \<Rightarrow> u32 \<Rightarrow> string \<Rightarrow> stack_standing" where
  "stack_standing_of n r tier insight =
     (let s = sub_result (br_sub r); detail = br_detail r
      in \<lparr>ss_rank = n, ss_operator = rr_competitor s, ss_stack = rr_handle s,
          ss_requirement_coverage = br_coverage r,
          ss_code_quality = unwrap_or 0 (map_option rd_code_quality detail),
          ss_cost_usd = unwrap_or 0 (map_option rd_cost_usd detail),
          ss_cost_bin = unwrap_or ''?'' (map_option rd_cost_bin detail),
          ss_passed = rr_passed s, ss_total = rr_total s,
          ss_excluded_tooling = unwrap_or 0 (map_option rd_cells_excluded_tooling detail),
          ss_dominant_factor = Option.bind detail (\<lambda>d. map_option fa_factor (dominant_factor (rd_anova d))),
          ss_pareto_optimal = (tier = 1), ss_pareto_tier = tier,
          ss_is_baseline = unwrap_or False (map_option rd_is_baseline detail),
          ss_reported_frontier = Option.bind detail rd_reported_frontier,
          ss_insight = insight\<rparr>)"

definition rank_stacks :: "('j submission list \<Rightarrow> 'j submission list) \<Rightarrow> 'j value_codec \<Rightarrow> 'j submission list
    \<Rightarrow> stack_standing list" where
  "rank_stacks values V submissions =
     (let rows = map (stack_row V) (values (hm_values (best_stacks submissions)));
          points = map row_point rows;
          tiers = nondominated_tiers points;
          order = sort_by (\<lambda>i j. stack_before (tiers ! i, rows ! i) (tiers ! j, rows ! j)) [0..<length rows];
          anchor = map_option (\<lambda>i. (br_coverage (rows ! i), br_cost (rows ! i))) (find (\<lambda>i. tiers ! i = 1) order)
      in map (\<lambda>(rank0, i). stack_standing_of (of_nat (rank0 + 1)) (rows ! i) (tiers ! i)
            (insight_for (br_coverage (rows ! i)) (br_cost (rows ! i)) (tiers ! i) anchor points tiers))
          (zip [0..<length order] order))"

definition frontier :: "stack_standing list \<Rightarrow> stack_standing list" where
  "frontier standings =
     sort_by (\<lambda>a b. asc_then (ss_cost_usd a) (ss_cost_usd b) True) (filter ss_pareto_optimal standings)"

section \<open>The rows of the board\<close>

abbreviation retort_runs :: "'j submission list \<Rightarrow> 'j submission list" where
  "retort_runs subs \<equiv> filter (\<lambda>s. rr_benchmark (sub_result s) = RETORT_BENCHMARK_ID) subs"

abbreviation handle_of :: "'j submission \<Rightarrow> string" where
  "handle_of s \<equiv> rr_handle (sub_result s)"

lemma best_stacks_eq:
  "best_stacks subs = best_by (beats PassRate) handle_of (retort_runs subs)"
proof -
  have loop: "foldl (\<lambda>m s. if rr_benchmark (sub_result s) \<noteq> RETORT_BENCHMARK_ID then m
        else best_step (beats PassRate) handle_of m s) m subs =
      foldl (best_step (beats PassRate) handle_of) m (retort_runs subs)" for m
    by (induction subs arbitrary: m) auto
  have score: "beats PassRate = (\<lambda>a b. f64_lt (rr_score (sub_result b)) (rr_score (sub_result a)))"
    by (intro ext) (simp add: beats_def higher_is_better_def)
  show ?thesis unfolding best_stacks_def best_by_def score by (rule loop[unfolded score])
qed

text \<open>The best run of each stack.\<close>

definition best_runs :: "'j submission list \<Rightarrow> 'j submission list" where
  "best_runs subs = hm_values (best_stacks subs)"

lemma best_runs_distinct: "distinct (map handle_of (best_runs subs))"
  unfolding best_runs_def best_stacks_eq by (rule distinct_best_by)

lemma best_runs_handles: "handle_of ` set (best_runs subs) = handle_of ` set (retort_runs subs)"
  unfolding best_runs_def best_stacks_eq by (rule key_best_by)

lemma best_runs_best:
  assumes "s \<in> set (best_runs subs)"
  shows "s \<in> set (retort_runs subs) \<and>
    (\<forall>t \<in> set (retort_runs subs). handle_of t = handle_of s \<longrightarrow> \<not> beats PassRate t s)"
proof -
  have "hm_get (best_by (beats PassRate) handle_of (retort_runs subs)) (handle_of s) = Some s"
    using assms unfolding best_runs_def best_stacks_eq by (rule iffD1[OF in_best_by])
  from best_run[OF this] show ?thesis by blast
qed

text \<open>Each run with its point, and the tier of that among the points of the board.\<close>

definition run_point :: "'j value_codec \<Rightarrow> 'j submission \<Rightarrow> pareto_point" where
  "run_point V s = row_point (stack_row V s)"

definition run_tier :: "'j value_codec \<Rightarrow> 'j submission list \<Rightarrow> 'j submission \<Rightarrow> nat" where
  "run_tier V subs s = pareto_tier (run_point V ` set (best_runs subs)) (run_point V s)"

definition placed_row :: "'j value_codec \<Rightarrow> 'j submission list \<Rightarrow> 'j submission \<Rightarrow> u32 \<times> 'j stack_row" where
  "placed_row V subs s = (of_nat (run_tier V subs s), stack_row V s)"

definition without_insight :: "stack_standing \<Rightarrow> stack_standing" where
  "without_insight s = s\<lparr>ss_insight := []\<rparr>"

definition place_row :: "nat \<Rightarrow> u32 \<times> 'j stack_row \<Rightarrow> stack_standing" where
  "place_row n p = stack_standing_of (of_nat (n + 1)) (snd p) (fst p) []"

lemma without_insight_standing:
  "without_insight (stack_standing_of n r t text') = stack_standing_of n r t []"
  by (simp add: without_insight_def stack_standing_of_def Let_def)

lemma rank_stacks_rows:
  assumes "hash_order values"
  shows "map without_insight (rank_stacks values V subs) =
    (let sorted = sort_by stack_before (map (placed_row V subs) (values (best_runs subs)))
     in map (\<lambda>i. place_row i (sorted ! i)) [0..<length sorted])"
proof -
  define rows where "rows = map (stack_row V) (values (best_runs subs))"
  define tiers where "tiers = nondominated_tiers (map row_point rows)"
  define order where "order = sort_by (\<lambda>i j. stack_before (tiers ! i, rows ! i) (tiers ! j, rows ! j)) [0..<length rows]"
  have "row_point ` set rows = run_point V ` set (best_runs subs)"
    using assms by (auto simp: rows_def run_point_def)
  then have "map (\<lambda>i. (tiers ! i, rows ! i)) [0..<length rows] = map (placed_row V subs) (values (best_runs subs))"
    by (intro nth_equalityI) (simp_all add: placed_row_def run_tier_def run_point_def tiers_def tier_map rows_def hash_order_set[OF assms])
  then have sorted: "map (\<lambda>i. (tiers ! i, rows ! i)) order = sort_by stack_before (map (placed_row V subs) (values (best_runs subs)))"
    unfolding order_def map_sort_by[where f = "\<lambda>i. (tiers ! i, rows ! i)"] by simp
  have "map without_insight (rank_stacks values V subs) =
      map (\<lambda>(n, i). place_row n (tiers ! i, rows ! i)) (zip [0..<length order] order)"
    unfolding rank_stacks_def best_runs_def[symmetric] rows_def[symmetric] Let_def tiers_def[symmetric] order_def[symmetric]
    by (simp add: without_insight_standing place_row_def case_prod_beta comp_def)
  also have "\<dots> = map (\<lambda>i. place_row i (map (\<lambda>i. (tiers ! i, rows ! i)) order ! i)) [0..<length order]"
    by (simp add: map_enumerate)
  finally show ?thesis unfolding sorted[symmetric] Let_def length_map .
qed

section \<open>The order of the board\<close>

definition run_cost :: "'j value_codec \<Rightarrow> 'j submission \<Rightarrow> f64" where
  "run_cost V s = br_cost (stack_row V s)"

definition comparable :: "'j value_codec \<Rightarrow> 'j submission \<Rightarrow> bool" where
  "comparable V s \<longleftrightarrow> \<not> f64_is_nan (rr_score (sub_result s)) \<and> \<not> f64_is_nan (run_cost V s)"

definition outranks :: "'j value_codec \<Rightarrow> 'j submission list \<Rightarrow> 'j submission \<Rightarrow> 'j submission \<Rightarrow> bool" where
  "outranks V subs a b \<longleftrightarrow>
     run_tier V subs a < run_tier V subs b \<or>
     run_tier V subs a = run_tier V subs b \<and>
       (f64_lt (rr_score (sub_result b)) (rr_score (sub_result a)) \<or>
        f64_eq (rr_score (sub_result b)) (rr_score (sub_result a)) \<and>
          (f64_lt (run_cost V a) (run_cost V b) \<or>
           f64_eq (run_cost V a) (run_cost V b) \<and> handle_of a \<le> handle_of b))"

lemma run_tier_u32:
  assumes "length subs < 2 ^ 32" "s \<in> set (best_runs subs)"
  shows "run_tier V subs s < 2 ^ 32"
proof -
  have "card (run_point V ` set (best_runs subs)) \<le> card (set (best_runs subs))" by (simp add: card_image_le)
  also have "set (best_runs subs) \<subseteq> set subs" using best_runs_best by fastforce
  then have "card (set (best_runs subs)) \<le> length subs"
    by (meson card_length card_mono finite_set le_trans)
  finally have "card (run_point V ` set (best_runs subs)) < 2 ^ 32" using assms(1) by simp
  then show ?thesis
    using pareto_tier_bounds[of "run_point V ` set (best_runs subs)" "run_point V s"] assms(2)
    by (simp add: run_tier_def)
qed

lemma stack_before_outranks:
  assumes "length subs < 2 ^ 32" "a \<in> set (best_runs subs)" "b \<in> set (best_runs subs)" "comparable V a" "comparable V b"
  shows "stack_before (placed_row V subs a) (placed_row V subs b) \<longleftrightarrow> outranks V subs a b"
proof -
  note tiers = u32_of_nat[OF run_tier_u32[OF assms(1,2)], of V] u32_of_nat[OF run_tier_u32[OF assms(1,3)], of V]
  have "(of_nat (run_tier V subs a) :: u32) = of_nat (run_tier V subs b) \<longleftrightarrow> run_tier V subs a = run_tier V subs b"
    "(of_nat (run_tier V subs a) :: u32) < of_nat (run_tier V subs b) \<longleftrightarrow> run_tier V subs a < run_tier V subs b"
    using tiers by (metis, simp add: word_less_nat_alt)
  moreover have "br_coverage (stack_row V s) = rr_score (sub_result s)" "br_sub (stack_row V s) = s" for s
    by (simp_all add: stack_row_def)
  ultimately show ?thesis
    using assms(4,5)
    by (auto simp: stack_before_def placed_row_def outranks_def comparable_def desc_then_key asc_then_key
        run_cost_def f64_lt_def f64_eq_def)
qed

lemma outranks_total:
  assumes "\<And>s. s \<in> A \<Longrightarrow> comparable V s"
  shows "total_on_set A (outranks V subs)"
  unfolding total_on_set_def
  using assms by (auto simp: outranks_def comparable_def f64_lt_def f64_eq_def)

lemma outranks_antisym:
  assumes "outranks V subs a b" "outranks V subs b a"
  shows "handle_of a = handle_of b"
  using assms by (auto simp: outranks_def f64_lt_def f64_eq_def)

text \<open>The runs of the board in its order: any order of the hash map gives the same.\<close>

definition ranked_runs :: "'j value_codec \<Rightarrow> 'j submission list \<Rightarrow> 'j submission list" where
  "ranked_runs V subs = sort_by (outranks V subs) (best_runs subs)"

lemma ranked_runs_unique:
  assumes "hash_order values" "list_all (comparable V) subs"
  shows "sort_by (outranks V subs) (values (best_runs subs)) = ranked_runs V subs"
proof (rule sorted_mset_unique)
  have comp: "comparable V s" if "s \<in> set (best_runs subs)" for s
    using best_runs_best[OF that] assms(2) by (auto simp: list_all_iff)
  have mem: "set (values (best_runs subs)) = set (best_runs subs)" by (rule hash_order_set[OF assms(1)])
  show "sorted_wrt (outranks V subs) (sort_by (outranks V subs) (values (best_runs subs)))"
    by (rule sorted_sort_by, rule outranks_total) (simp add: mem comp)
  show "sorted_wrt (outranks V subs) (ranked_runs V subs)"
    unfolding ranked_runs_def by (rule sorted_sort_by, rule outranks_total) (rule comp)
  show "mset (sort_by (outranks V subs) (values (best_runs subs))) = mset (ranked_runs V subs)"
    using assms(1) by (simp add: ranked_runs_def hash_order_def)
  show "x = y" if "x \<in> set (sort_by (outranks V subs) (values (best_runs subs)))"
      "y \<in> set (sort_by (outranks V subs) (values (best_runs subs)))" "outranks V subs x y" "outranks V subs y x" for x y
    using that outranks_antisym[OF that(3,4)] best_runs_distinct[of subs]
    by (simp add: mem distinct_map inj_on_def)
qed

lemma rank_stacks_ranked:
  assumes "hash_order values" "list_all (comparable V) subs" "length subs < 2 ^ 32"
  shows "map without_insight (rank_stacks values V subs) =
    map (\<lambda>i. place_row i (placed_row V subs (ranked_runs V subs ! i))) [0..<length (ranked_runs V subs)]"
proof -
  have "sort_by stack_before (map (placed_row V subs) (values (best_runs subs))) =
      map (placed_row V subs) (sort_by (\<lambda>a b. stack_before (placed_row V subs a) (placed_row V subs b)) (values (best_runs subs)))"
    by (rule map_sort_by[symmetric])
  also have "sort_by (\<lambda>a b. stack_before (placed_row V subs a) (placed_row V subs b)) (values (best_runs subs)) =
      sort_by (outranks V subs) (values (best_runs subs))"
  proof (rule sort_by_cong)
    fix a b assume "a \<in> set (values (best_runs subs))" "b \<in> set (values (best_runs subs))"
    then have in_best: "a \<in> set (best_runs subs)" "b \<in> set (best_runs subs)" using assms(1) by simp_all
    then have "comparable V a" "comparable V b"
      using best_runs_best[of a subs] best_runs_best[of b subs] assms(2) by (auto simp: list_all_iff)
    with in_best assms(3) show "stack_before (placed_row V subs a) (placed_row V subs b) = outranks V subs a b"
      by (intro stack_before_outranks)
  qed
  also have "\<dots> = ranked_runs V subs" by (rule ranked_runs_unique[OF assms(1,2)])
  finally show ?thesis
    unfolding rank_stacks_rows[OF assms(1)] Let_def by simp
qed

lemma retort_board_order:
  assumes "list_all (comparable V) subs" "length subs < 2 ^ 32"
  shows "(\<forall>values. hash_order values \<longrightarrow> map without_insight (rank_stacks values V subs) =
      map (\<lambda>i. place_row i (placed_row V subs (ranked_runs V subs ! i))) [0..<length (ranked_runs V subs)]) \<and>
    distinct (map handle_of (ranked_runs V subs)) \<and>
    handle_of ` set (ranked_runs V subs) = handle_of ` set (retort_runs subs) \<and>
    (\<forall>s \<in> set (ranked_runs V subs). s \<in> set (retort_runs subs) \<and>
      (\<forall>t \<in> set (retort_runs subs). handle_of t = handle_of s \<longrightarrow> \<not> beats PassRate t s)) \<and>
    sorted_wrt (outranks V subs) (ranked_runs V subs)"
proof (intro conjI allI impI)
  show "map without_insight (rank_stacks values V subs) =
      map (\<lambda>i. place_row i (placed_row V subs (ranked_runs V subs ! i))) [0..<length (ranked_runs V subs)]"
    if "hash_order values" for "values"
    by (rule rank_stacks_ranked[OF that assms])
  have mem: "set (ranked_runs V subs) = set (best_runs subs)" by (simp add: ranked_runs_def)
  show "distinct (map handle_of (ranked_runs V subs))"
    unfolding ranked_runs_def by (metis best_runs_distinct mset_eq_imp_distinct_iff mset_map mset_sort_by)
  show "handle_of ` set (ranked_runs V subs) = handle_of ` set (retort_runs subs)"
    unfolding mem by (rule best_runs_handles)
  show best: "\<forall>s \<in> set (ranked_runs V subs). s \<in> set (retort_runs subs) \<and>
      (\<forall>t \<in> set (retort_runs subs). handle_of t = handle_of s \<longrightarrow> \<not> beats PassRate t s)"
    unfolding mem by (blast dest: best_runs_best)
  show "sorted_wrt (outranks V subs) (ranked_runs V subs)"
    unfolding ranked_runs_def
    by (rule sorted_sort_by, rule outranks_total) (use best assms(1) mem in \<open>auto simp: list_all_iff\<close>)
qed

text \<open>
  Property C19. The Retort board does not depend on the order of the hash map, insights aside:
  for every such order its rows are the same runs in the same places. They are one run for
  each stack, of the best coverage filed for it by anyone; the tier of each is the Pareto layer
  of its coverage and cost; and the places are by tier, then higher coverage, then lower cost,
  then handle.
\<close>

theorem retort_board_is_pareto_order:
  assumes "list_all (comparable V) subs" "length subs < 2 ^ 32"
  shows "(\<forall>values. hash_order values \<longrightarrow> map without_insight (rank_stacks values V subs) =
      map (\<lambda>i. place_row i (placed_row V subs (ranked_runs V subs ! i))) [0..<length (ranked_runs V subs)]) \<and>
    distinct (map handle_of (ranked_runs V subs)) \<and>
    handle_of ` set (ranked_runs V subs) = handle_of ` set (retort_runs subs) \<and>
    (\<forall>s \<in> set (ranked_runs V subs). s \<in> set (retort_runs subs) \<and>
      (\<forall>t \<in> set (retort_runs subs). handle_of t = handle_of s \<longrightarrow> \<not> beats PassRate t s)) \<and>
    sorted_wrt (outranks V subs) (ranked_runs V subs)"
  by (rule retort_board_order[OF assms])

section \<open>The cost is not signed\<close>

definition with_detail :: "'j \<Rightarrow> 'j submission \<Rightarrow> 'j submission" where
  "with_detail d s = s\<lparr>sub_result := (sub_result s)\<lparr>rr_detail := d\<rparr>\<rparr>"

lemma with_detail_simps [simp]:
  "submission_verify E (with_detail d s) = submission_verify E s" "handle_of (with_detail d s) = handle_of s"
  "rr_score (sub_result (with_detail d s)) = rr_score (sub_result s)"
  "rr_benchmark (sub_result (with_detail d s)) = rr_benchmark (sub_result s)"
  "rr_detail (sub_result (with_detail d s)) = d"
  by (simp_all add: with_detail_def)

lemma f64_infinity [simp]: "\<not> f64_is_nan f64_infinity" "f64_is_inf f64_infinity" "\<not> f64_neg f64_infinity"
    "f64_key f64_infinity = int inf_mag" "f64_mag f64_infinity = inf_mag"
  by (simp_all add: f64_infinity_def f64_is_nan_def f64_is_inf_def f64_key_def)

lemma free_dominates:
  assumes "\<not> f64_is_nan c"
  shows "dominates \<lparr>pp_coverage = c, pp_cost = 0\<rparr> \<lparr>pp_coverage = c, pp_cost = f64_infinity\<rparr>"
    "\<not> dominates \<lparr>pp_coverage = c, pp_cost = f64_infinity\<rparr> \<lparr>pp_coverage = c, pp_cost = 0\<rparr>"
proof -
  have slack: "f64_key (f64_sub c EPS) \<le> f64_key c" using add_key_ge[of EPS c] assms by simp
  have sub_nan: "\<not> f64_is_nan (f64_sub c EPS)"
    using assms round_mag_le_inf by (auto simp: f64_sub_def f64_add_def Let_def f64_nan_of)
  have inf: "f64_add f64_infinity EPS = f64_infinity" "f64_sub f64_infinity EPS = f64_infinity"
    by (simp_all add: f64_sub_def f64_add_def)
  have eps: "f64_add 0 EPS = EPS" "f64_key EPS < int inf_mag"
    by (simp add: add_zero, simp add: EPS_def f64_bits)
  show "dominates \<lparr>pp_coverage = c, pp_cost = 0\<rparr> \<lparr>pp_coverage = c, pp_cost = f64_infinity\<rparr>"
    using slack sub_nan assms one_mag_le unfolding dominates_def pareto_point.simps inf
    by (simp add: f64_le_def f64_lt_def)
  show "\<not> dominates \<lparr>pp_coverage = c, pp_cost = f64_infinity\<rparr> \<lparr>pp_coverage = c, pp_cost = 0\<rparr>"
    using eps(2) unfolding dominates_def pareto_point.simps eps(1) by (simp add: f64_le_def)
qed

lemma two_listing: "distinct xs \<Longrightarrow> set xs = {a, b} \<Longrightarrow> a \<noteq> b \<Longrightarrow> xs = [a, b] \<or> xs = [b, a]"
proof -
  assume xs: "distinct xs" "set xs = {a, b}" "a \<noteq> b"
  then have "length xs = 2" using distinct_card[of xs] by simp
  then obtain x y where "xs = [x, y]" by (auto simp: numeral_2_eq_2 length_Suc_conv)
  with xs show ?thesis by auto
qed

text \<open>Of two stacks of one coverage the one whose detail says it is free comes before one without cost.\<close>

lemma free_stack_first:
  assumes "set subs = {a, b}" "length subs = 2" "handle_of a \<noteq> handle_of b"
    and "rr_benchmark (sub_result a) = RETORT_BENCHMARK_ID" "rr_benchmark (sub_result b) = RETORT_BENCHMARK_ID"
    and score: "rr_score (sub_result a) = rr_score (sub_result b)" "\<not> f64_is_nan (rr_score (sub_result b))"
    and cost: "run_cost V a = 0" "run_cost V b = f64_infinity"
    and "hash_order values"
  shows "map ss_stack (rank_stacks values V subs) = [handle_of a, handle_of b]"
proof -
  have comp: "list_all (comparable V) subs"
    unfolding list_all_iff assms(1) using score cost by (simp add: comparable_def)
  have runs: "set (retort_runs subs) = {a, b}" using assms(1,4,5) by auto
  have small: "length subs < 2 ^ 32" using assms(2) by simp
  note board = retort_board_order[OF comp small]
  let ?r = "ranked_runs V subs"
  have handles: "handle_of ` set ?r = {handle_of a, handle_of b}" using board runs by simp
  have sub: "set ?r \<subseteq> {a, b}" using board runs by blast
  have r: "set ?r = {a, b}"
  proof (rule subset_antisym[OF sub])
    have "handle_of a \<in> handle_of ` set ?r" "handle_of b \<in> handle_of ` set ?r" unfolding handles by simp_all
    then obtain x y where xy: "x \<in> set ?r" "handle_of a = handle_of x" "y \<in> set ?r" "handle_of b = handle_of y"
      by (auto elim!: imageE)
    then have "x = a" "y = b" using sub assms(3) by auto
    with xy show "{a, b} \<subseteq> set ?r" by simp
  qed
  then have best: "set (best_runs subs) = {a, b}" by (simp add: ranked_runs_def)
  define c where "c = rr_score (sub_result b)"
  have points: "run_point V a = \<lparr>pp_coverage = c, pp_cost = 0\<rparr>" "run_point V b = \<lparr>pp_coverage = c, pp_cost = f64_infinity\<rparr>"
    using score(1) cost by (simp_all add: run_point_def row_point_def run_cost_def c_def stack_row_def)
  note dom = free_dominates[OF score(2), folded c_def, folded points]
  have "layer {run_point V a, run_point V b} = {run_point V a}"
    using dom by (auto simp: layer_def Let_def)
  moreover have "run_point V a \<noteq> run_point V b" using dom by auto
  ultimately have "run_tier V subs a = 1" "run_tier V subs b \<noteq> 1"
    using pareto_tier_one[of "{run_point V a, run_point V b}"] by (simp_all add: run_tier_def best)
  moreover have "1 \<le> run_tier V subs b"
    using pareto_tier_bounds[of "{run_point V a, run_point V b}" "run_point V b"] by (simp add: run_tier_def best)
  ultimately have "\<not> outranks V subs b a" by (simp add: outranks_def)
  moreover have "sorted_wrt (outranks V subs) ?r" "distinct ?r" using board distinct_map by blast+
  moreover have "a \<noteq> b" using assms(3) by auto
  ultimately have "?r = [a, b]"
    using r two_listing[of ?r a b] by auto
  moreover have "map ss_stack (rank_stacks values V subs) = map ss_stack (map without_insight (rank_stacks values V subs))"
    by (simp add: without_insight_def)
  ultimately show ?thesis
    using board assms(10) by (simp add: place_row_def placed_row_def stack_standing_of_def Let_def stack_row_def)
qed

text \<open>
  The order of the Retort board is not covered by the signatures. Take accepted
  runs of two stacks with one coverage, and exchange their unsigned details: the run whose
  detail claims no cost comes first and the one whose detail does not parse comes last, either
  way round, and all four submissions verify as the two did.
\<close>

theorem unsigned_cost_orders_board:
  assumes "hash_order values"
    and "rr_benchmark (sub_result s) = RETORT_BENCHMARK_ID" "rr_benchmark (sub_result t) = RETORT_BENCHMARK_ID"
    and "handle_of s \<noteq> handle_of t" "rr_score (sub_result s) = rr_score (sub_result t)"
    and "f64_is_finite (rr_score (sub_result t))"
    and "from_value V free = Inr d" "rd_cost_usd d = 0" "from_value V bad = Inl e"
  shows "map ss_stack (rank_stacks values V [with_detail free s, with_detail bad t]) = [handle_of s, handle_of t] \<and>
    map ss_stack (rank_stacks values V [with_detail bad s, with_detail free t]) = [handle_of t, handle_of s] \<and>
    submission_verify E (with_detail free s) = submission_verify E s \<and>
    submission_verify E (with_detail bad s) = submission_verify E s \<and>
    submission_verify E (with_detail free t) = submission_verify E t \<and>
    submission_verify E (with_detail bad t) = submission_verify E t"
proof (intro conjI)
  have cost: "run_cost V (with_detail free u) = 0" "run_cost V (with_detail bad u) = f64_infinity" for u
    using assms(7-9) by (simp_all add: run_cost_def stack_row_def detail_of_def)
  have nan: "\<not> f64_is_nan (rr_score (sub_result t))"
    using assms(6) by (simp add: f64_is_finite_def f64_is_nan_def)
  show "map ss_stack (rank_stacks values V [with_detail free s, with_detail bad t]) = [handle_of s, handle_of t]"
    using free_stack_first[of "[with_detail free s, with_detail bad t]" "with_detail free s" "with_detail bad t" V "values"]
      assms(1-5) cost nan by simp
  show "map ss_stack (rank_stacks values V [with_detail bad s, with_detail free t]) = [handle_of t, handle_of s]"
    using free_stack_first[of "[with_detail bad s, with_detail free t]" "with_detail free t" "with_detail bad s" V "values"]
      assms(1-5) cost nan by (simp add: insert_commute)
qed simp_all

text \<open>Details that are \<open>Some\<close> a detail or \<open>None\<close>, and the two runs of a bundle.\<close>

definition demo_detail_codec :: "retort_detail option value_codec" where
  "demo_detail_codec = \<lparr>to_value = (\<lambda>d. Inr (Some d)), from_value = (\<lambda>v. case v of None \<Rightarrow> Inl ''null'' | Some d \<Rightarrow> Inr d),
     value_null = None, value_eq = (=)\<rparr>"

definition demo_detail :: retort_detail where
  "demo_detail = \<lparr>rd_kind = ''retort.stack.v1'', rd_stack = sample_stack ''m'' ''h'', rd_placement_metric = [],
     rd_code_quality = 0, rd_cost_usd = 0, rd_cost_bin = ''free'', rd_latency_seconds = 0, rd_cells_total = 1,
     rd_cells_excluded_tooling = 0, rd_anova = rt_anova sample, rd_is_baseline = False, rd_reported_frontier = None\<rparr>"

definition demo_stack_run :: "string \<Rightarrow> retort_detail option submission" where
  "demo_stack_run handle = signed_run demo_env (demo_id 1)
     ((demo_bench_run 1 f64_one None)\<lparr>rr_benchmark := RETORT_BENCHMARK_ID, rr_handle := handle\<rparr>)"

lemma demo_stack_run_simps:
  "rr_benchmark (sub_result (demo_stack_run h)) = RETORT_BENCHMARK_ID" "handle_of (demo_stack_run h) = h"
  "rr_score (sub_result (demo_stack_run h)) = f64_one" "submission_verify demo_env (demo_stack_run h) = Inr ()"
  unfolding demo_stack_run_def
  by (simp_all add: demo_bench_run_def verify_signed_run demo_sig_ok demo_id_wf)

theorem unsigned_cost_orders_board_witness:
  "map ss_stack (rank_stacks rev demo_detail_codec
     [with_detail None (demo_stack_run ''a''), with_detail (Some demo_detail) (demo_stack_run ''b'')]) = [''b'', ''a''] \<and>
   submission_verify demo_env (with_detail (Some demo_detail) (demo_stack_run ''b'')) = Inr ()"
proof -
  have order: "hash_order (rev :: retort_detail option submission list \<Rightarrow> _)" by (simp add: hash_order_def)
  have codec: "from_value demo_detail_codec (Some demo_detail) = Inr demo_detail" "from_value demo_detail_codec None = Inl ''null''"
    "rd_cost_usd demo_detail = 0"
    by (simp_all add: demo_detail_codec_def demo_detail_def)
  from unsigned_cost_orders_board[where E = demo_env and s = "demo_stack_run ''a''" and t = "demo_stack_run ''b''",
      OF order _ _ _ _ _ codec(1,3,2)]
  show ?thesis unfolding demo_stack_run_simps by simp
qed

text \<open>The board of one run.\<close>

theorem retort_board_is_pareto_order_witness:
  "\<exists>s. ranked_runs demo_detail_codec [with_detail (Some demo_detail) (demo_stack_run ''a'')] = [s] \<and> handle_of s = ''a''"
proof -
  let ?subs = "[with_detail (Some demo_detail) (demo_stack_run ''a'')]"
  have comp: "list_all (comparable demo_detail_codec) ?subs"
    by (simp add: comparable_def run_cost_def stack_row_def detail_of_def demo_detail_codec_def demo_detail_def demo_stack_run_simps)
  have "length ?subs < 2 ^ 32" by simp
  note board = retort_board_is_pareto_order[OF comp this]
  have distinct: "distinct (map handle_of (ranked_runs demo_detail_codec ?subs))" using board by blast
  have "handle_of ` set (ranked_runs demo_detail_codec ?subs) = handle_of ` set (retort_runs ?subs)" using board by blast
  then have handles: "set (map handle_of (ranked_runs demo_detail_codec ?subs)) = {''a''}"
    by (simp add: demo_stack_run_simps)
  have "length (map handle_of (ranked_runs demo_detail_codec ?subs)) = 1"
    using distinct_card[OF distinct] unfolding handles by simp
  then obtain s where "ranked_runs demo_detail_codec ?subs = [s]" by (auto simp: length_Suc_conv)
  with handles show ?thesis by auto
qed

end
