(* ===== verification/Arena.thy ===== *)
theory Arena
  imports Retort_Board
begin

text \<open>
  The arena (\<open>agentbbs-arena/src/arena.rs\<close>) and its harness reports (\<open>harness.rs\<close>): the
  catalogue, the competitors, the log of accepted submissions, and the operations on them.
  Running a harness and parsing its JSON are arguments.
\<close>

section \<open>Harness reports\<close>

record 'j harness_report =
  hr_benchmark :: string
  hr_score :: f64
  hr_passed :: u32
  hr_total :: u32
  hr_harness :: string
  hr_detail :: 'j

text \<open>The whole of the output, or else the last line that looks like and parses as a report.\<close>

fun last_report :: "(string \<Rightarrow> 'j harness_report option) \<Rightarrow> string list \<Rightarrow> 'j harness_report option" where
  "last_report parse [] = None"
| "last_report parse (line # rest) =
     (let l = trim line
      in if prefix ''{'' l then (case parse l of Some r \<Rightarrow> Some r | None \<Rightarrow> last_report parse rest)
         else last_report parse rest)"

definition parse_report :: "(string \<Rightarrow> 'j harness_report option) \<Rightarrow> string \<Rightarrow> 'j harness_report result" where
  "parse_report parse stdout =
     (case parse (trim stdout) of
        Some r \<Rightarrow> Inr r
      | None \<Rightarrow>
          (case last_report parse (rev (str_lines stdout)) of
             Some r \<Rightarrow> Inr r
           | None \<Rightarrow> Inl (malformed ''harness report'' ''no parseable JSON report on stdout'')))"

record 'j meta_harness =
  mh_runner :: "string \<Rightarrow> string list \<Rightarrow> string result"
  mh_parse :: "string \<Rightarrow> 'j harness_report option"
  mh_package :: string

definition meta_harness_new :: "(string \<Rightarrow> string list \<Rightarrow> string result) \<Rightarrow> (string \<Rightarrow> 'j harness_report option) \<Rightarrow> 'j meta_harness" where
  "meta_harness_new runner parse = \<lparr>mh_runner = runner, mh_parse = parse, mh_package = ''ruflo''\<rparr>"

definition run_benchmark :: "'j meta_harness \<Rightarrow> string \<Rightarrow> string \<Rightarrow> 'j harness_report result" where
  "run_benchmark h bench agent =
     rbind (mh_runner h ''npx'' [mh_package h, ''bench'', bench, ''--agent'', agent, ''--json''])
       (parse_report (mh_parse h))"

definition run_cve_bench :: "'j meta_harness \<Rightarrow> string \<Rightarrow> 'j harness_report result" where
  "run_cve_bench h agent = run_benchmark h ''cve-bench'' agent"

section \<open>The arena\<close>

record competitor =
  co_id :: agent_id
  co_handle :: string

record 'j arena =
  ar_benchmarks :: "(string, benchmark) hmap"
  ar_competitors :: "(agent_id, competitor) hmap"
  ar_submissions :: "'j submission list"

definition arena_new :: "'j arena" where
  "arena_new = \<lparr>ar_benchmarks = foldl (\<lambda>m b. hm_insert (bm_id b) b m) hm_empty catalogue,
     ar_competitors = hm_empty, ar_submissions = []\<rparr>"

definition register_benchmark :: "benchmark \<Rightarrow> 'j arena \<Rightarrow> 'j arena" where
  "register_benchmark b A = A\<lparr>ar_benchmarks := hm_insert (bm_id b) b (ar_benchmarks A)\<rparr>"

definition benchmarks :: "(benchmark list \<Rightarrow> benchmark list) \<Rightarrow> 'j arena \<Rightarrow> benchmark list" where
  "benchmarks values A = sort_by (\<lambda>a b. bm_id a \<le> bm_id b) (values (hm_values (ar_benchmarks A)))"

definition benchmark_of :: "'j arena \<Rightarrow> string \<Rightarrow> benchmark option" where
  "benchmark_of A slug = hm_get (ar_benchmarks A) slug"

definition register_competitor :: "agent_id \<Rightarrow> string \<Rightarrow> 'j arena \<Rightarrow> 'j arena" where
  "register_competitor k handle A =
     A\<lparr>ar_competitors := hm_insert k \<lparr>co_id = k, co_handle = handle\<rparr> (ar_competitors A)\<rparr>"

definition submit :: "env \<Rightarrow> ('j \<Rightarrow> 'j \<Rightarrow> bool) \<Rightarrow> 'j arena \<Rightarrow> 'j submission \<Rightarrow> 'j arena result" where
  "submit E eq A s =
     (let r = sub_result s
      in if hm_get (ar_benchmarks A) (rr_benchmark r) = None then Inl (NotFound (''benchmark '' @ rr_benchmark r))
         else rbind (submission_verify E s) (\<lambda>_.
           if rr_total r = 0 \<or> rr_total r < rr_passed r \<or> \<not> f64_is_finite (rr_score r)
           then Inl (malformed ''submission'' ''invalid score/totals'')
           else Inr (A\<lparr>
             ar_competitors := (case hm_get (ar_competitors A) (rr_competitor r) of
                 Some _ \<Rightarrow> ar_competitors A
               | None \<Rightarrow> hm_insert (rr_competitor r) \<lparr>co_id = rr_competitor r, co_handle = rr_handle r\<rparr> (ar_competitors A)),
             ar_submissions := (if list_ex (\<lambda>t. submission_eq eq t s) (ar_submissions A)
               then ar_submissions A else ar_submissions A @ [s])\<rparr>)))"

definition submission_count :: "'j arena \<Rightarrow> nat" where
  "submission_count A = length (ar_submissions A)"

definition leaderboard :: "('j submission list \<Rightarrow> 'j submission list) \<Rightarrow> 'j arena \<Rightarrow> string \<Rightarrow> standing list result" where
  "leaderboard values A b =
     rbind (ok_or (NotFound (''benchmark '' @ b)) (hm_get (ar_benchmarks A) b)) (\<lambda>bench.
       Inr (rank_runs values (bm_score_kind bench) (for_benchmark b (ar_submissions A))))"

text \<open>The loop of \<open>ingest_retort\<close>: submissions accepted before an error stay.\<close>

fun submit_each :: "env \<Rightarrow> ('j \<Rightarrow> 'j \<Rightarrow> bool) \<Rightarrow> 'j arena \<Rightarrow> 'j submission list \<Rightarrow> 'j arena \<times> unit result" where
  "submit_each E eq A [] = (A, Inr ())"
| "submit_each E eq A (s # ss) =
     (case submit E eq A s of Inl e \<Rightarrow> (A, Inl e) | Inr A' \<Rightarrow> submit_each E eq A' ss)"

definition ingest_retort :: "env \<Rightarrow> 'j value_codec \<Rightarrow> 'j arena \<Rightarrow> retort_results \<Rightarrow> identity \<Rightarrow> 'j arena \<times> nat result" where
  "ingest_retort E V A0 results i =
     (let A = (if hm_get (ar_benchmarks A0) RETORT_BENCHMARK_ID = None
               then register_benchmark retort_benchmark A0 else A0)
      in case retort_ingest E V results i of
           Inl e \<Rightarrow> (A, Inl e)
         | Inr subs \<Rightarrow>
             (case submit_each E (value_eq V) A subs of
                (A', Inl e) \<Rightarrow> (A', Inl e)
              | (A', Inr _) \<Rightarrow> (A', Inr (length subs))))"

definition retort_leaderboard :: "('j submission list \<Rightarrow> 'j submission list) \<Rightarrow> 'j value_codec \<Rightarrow> 'j arena \<Rightarrow> stack_standing list" where
  "retort_leaderboard values V A = rank_stacks values V (ar_submissions A)"

definition compete :: "env \<Rightarrow> ('j \<Rightarrow> 'j \<Rightarrow> bool) \<Rightarrow> ('j submission list \<Rightarrow> 'j submission list) \<Rightarrow> time \<Rightarrow> 'j arena
    \<Rightarrow> 'j meta_harness \<Rightarrow> identity \<Rightarrow> string \<Rightarrow> string \<Rightarrow> 'j arena \<times> u32 result" where
  "compete E eq values now A h i handle b =
     (if hm_get (ar_benchmarks A) b = None then (A, Inl (NotFound (''benchmark '' @ b)))
      else case run_benchmark h b handle of
        Inl e \<Rightarrow> (A, Inl e)
      | Inr report \<Rightarrow>
          (let r = \<lparr>rr_benchmark = b, rr_competitor = ident i, rr_handle = handle, rr_score = hr_score report,
               rr_passed = hr_passed report, rr_total = hr_total report, rr_harness = hr_harness report,
               rr_at = now, rr_detail = hr_detail report\<rparr>
           in case rbind (submission_sign E i r) (submit E eq A) of
                Inl e \<Rightarrow> (A, Inl e)
              | Inr A' \<Rightarrow>
                  (A', rbind (leaderboard values A' b) (\<lambda>rows.
                     Inr (unwrap_or 0 (map_option st_rank (find (\<lambda>s. st_competitor s = ident i) rows)))))))"

section \<open>The arena's invariant\<close>

definition run_valid :: "'j run_result \<Rightarrow> bool" where
  "run_valid r \<longleftrightarrow> rr_total r \<noteq> 0 \<and> rr_passed r \<le> rr_total r \<and> f64_is_finite (rr_score r)"

definition arena_wf :: "env \<Rightarrow> ('j \<Rightarrow> 'j \<Rightarrow> bool) \<Rightarrow> 'j arena \<Rightarrow> bool" where
  "arena_wf E eq A \<longleftrightarrow>
     hm_wf (ar_benchmarks A) \<and> (\<forall>k b. hm_get (ar_benchmarks A) k = Some b \<longrightarrow> bm_id b = k) \<and>
     hm_wf (ar_competitors A) \<and> (\<forall>k c. hm_get (ar_competitors A) k = Some c \<longrightarrow> co_id c = k) \<and>
     (\<forall>s \<in> set (ar_submissions A). submission_verify E s = Inr () \<and> run_valid (sub_result s) \<and>
        hm_get (ar_benchmarks A) (rr_benchmark (sub_result s)) \<noteq> None \<and>
        hm_get (ar_competitors A) (rr_competitor (sub_result s)) \<noteq> None) \<and>
     sorted_wrt (\<lambda>s t. \<not> submission_eq eq s t) (ar_submissions A)"

text \<open>The log of one arena extends that of another, which knows no more benchmarks.\<close>

definition arena_grows :: "'j arena \<Rightarrow> 'j arena \<Rightarrow> bool" where
  "arena_grows A B \<longleftrightarrow> prefix (ar_submissions A) (ar_submissions B) \<and>
     dom (hm_get (ar_benchmarks A)) \<subseteq> dom (hm_get (ar_benchmarks B))"

lemma arena_grows_refl [simp]: "arena_grows A A"
  by (simp add: arena_grows_def)

lemma arena_grows_trans: "arena_grows A B \<Longrightarrow> arena_grows B C \<Longrightarrow> arena_grows A C"
  unfolding arena_grows_def by (meson prefix_order.trans subset_trans)

definition arena_step_ok :: "env \<Rightarrow> ('j \<Rightarrow> 'j \<Rightarrow> bool) \<Rightarrow> 'j arena \<Rightarrow> 'j arena \<Rightarrow> bool" where
  "arena_step_ok E eq A B \<longleftrightarrow> (arena_wf E eq A \<longrightarrow> arena_wf E eq B) \<and> arena_grows A B"

lemma step_ok_refl [simp, inv_intros]: "arena_step_ok E eq A A"
  by (simp add: arena_step_ok_def)

lemma step_ok_trans: "arena_step_ok E eq A B \<Longrightarrow> arena_step_ok E eq B C \<Longrightarrow> arena_step_ok E eq A C"
  unfolding arena_step_ok_def by (meson arena_grows_trans)

lemma register_benchmark_ok [inv_intros]: "arena_step_ok E eq A (register_benchmark b A)"
  by (auto simp: arena_step_ok_def arena_wf_def arena_grows_def register_benchmark_def hm_wf_insert)

lemma register_competitor_ok [inv_intros]: "arena_step_ok E eq A (register_competitor k handle A)"
  by (auto simp: arena_step_ok_def arena_wf_def arena_grows_def register_competitor_def hm_wf_insert)

lemma submit_Inr_iff:
  "submit E eq A s = Inr B \<longleftrightarrow>
     hm_get (ar_benchmarks A) (rr_benchmark (sub_result s)) \<noteq> None \<and> submission_verify E s = Inr () \<and>
     run_valid (sub_result s) \<and>
     B = A\<lparr>ar_competitors := (case hm_get (ar_competitors A) (rr_competitor (sub_result s)) of
              Some _ \<Rightarrow> ar_competitors A
            | None \<Rightarrow> hm_insert (rr_competitor (sub_result s))
                \<lparr>co_id = rr_competitor (sub_result s), co_handle = rr_handle (sub_result s)\<rparr> (ar_competitors A)),
            ar_submissions := (if list_ex (\<lambda>t. submission_eq eq t s) (ar_submissions A)
              then ar_submissions A else ar_submissions A @ [s])\<rparr>"
  by (auto simp: submit_def Let_def result_simps run_valid_def)

lemma submit_invalid:
  "hm_get (ar_benchmarks A) (rr_benchmark (sub_result s)) \<noteq> None \<Longrightarrow> submission_verify E s = Inr () \<Longrightarrow>
   \<not> run_valid (sub_result s) \<Longrightarrow> submit E eq A s = Inl (malformed ''submission'' ''invalid score/totals'')"
  by (auto simp: submit_def run_valid_def Let_def not_le)

lemma submit_ok [inv_intros]:
  assumes "submit E eq A s = Inr B"
  shows "arena_step_ok E eq A B"
proof -
  note B = assms[unfolded submit_Inr_iff]
  have "arena_grows A B" using B by (auto simp: arena_grows_def)
  moreover have "arena_wf E eq B" if "arena_wf E eq A"
  proof -
    have "hm_wf (ar_competitors B)" "\<forall>k c. hm_get (ar_competitors B) k = Some c \<longrightarrow> co_id c = k"
      "\<forall>k. hm_get (ar_competitors A) k \<noteq> None \<longrightarrow> hm_get (ar_competitors B) k \<noteq> None"
      "hm_get (ar_competitors B) (rr_competitor (sub_result s)) \<noteq> None"
      using B that by (auto simp: arena_wf_def hm_wf_insert split: option.splits)
    moreover have "sorted_wrt (\<lambda>s t. \<not> submission_eq eq s t) (ar_submissions B)"
      using B that by (auto simp: arena_wf_def sorted_wrt_append list_ex_iff)
    moreover have "submission_verify E t = Inr () \<and> run_valid (sub_result t) \<and>
        hm_get (ar_benchmarks B) (rr_benchmark (sub_result t)) \<noteq> None \<and>
        hm_get (ar_competitors B) (rr_competitor (sub_result t)) \<noteq> None" if "t \<in> set (ar_submissions B)" for t
    proof -
      have benches: "ar_benchmarks B = ar_benchmarks A" using B by simp
      have "t = s \<or> t \<in> set (ar_submissions A)" using that B by (auto split: if_splits)
      then show ?thesis
      proof
        assume "t = s" then show ?thesis using B calculation(4) benches by simp
      next
        assume "t \<in> set (ar_submissions A)"
        then show ?thesis using \<open>arena_wf E eq A\<close> calculation(3) unfolding arena_wf_def benches by blast
      qed
    qed
    moreover have "ar_benchmarks B = ar_benchmarks A" using B by simp
    ultimately show ?thesis using that unfolding arena_wf_def by simp
  qed
  ultimately show ?thesis by (simp add: arena_step_ok_def)
qed

lemma submit_each_ok [inv_intros]: "arena_step_ok E eq A (fst (submit_each E eq A ss))"
  by (induction ss arbitrary: A) (auto split: sum.splits intro: step_ok_trans submit_ok)

lemma ingest_retort_ok [inv_intros]: "arena_step_ok E (value_eq V) A (fst (ingest_retort E V A results i))"
proof -
  let ?A = "if hm_get (ar_benchmarks A) RETORT_BENCHMARK_ID = None then register_benchmark retort_benchmark A else A"
  have start: "arena_step_ok E (value_eq V) A ?A" by (auto intro: inv_intros)
  have "fst (ingest_retort E V A results i) = (case retort_ingest E V results i of
      Inl _ \<Rightarrow> ?A | Inr subs \<Rightarrow> fst (submit_each E (value_eq V) ?A subs))"
    by (simp add: ingest_retort_def Let_def split: sum.splits prod.splits)
  then show ?thesis
    using start by (auto split: sum.splits intro: step_ok_trans submit_each_ok)
qed

lemma compete_ok [inv_intros]: "arena_step_ok E eq A (fst (compete E eq values now A h i handle b))"
  by (auto simp: compete_def Let_def result_simps split: sum.splits intro: submit_ok)

text \<open>A request to the arena.\<close>

datatype 'j arena_op =
    RegisterBenchmark benchmark
  | RegisterCompetitor agent_id string
  | Submit "'j submission"
  | IngestRetort retort_results identity
  | Compete "'j meta_harness" identity string string time

fun arena_step :: "env \<Rightarrow> 'j value_codec \<Rightarrow> ('j submission list \<Rightarrow> 'j submission list) \<Rightarrow> 'j arena \<Rightarrow> 'j arena_op \<Rightarrow> 'j arena" where
  "arena_step E V values A (RegisterBenchmark b) = register_benchmark b A"
| "arena_step E V values A (RegisterCompetitor k handle) = register_competitor k handle A"
| "arena_step E V values A (Submit s) = attempt (submit E (value_eq V)) A s"
| "arena_step E V values A (IngestRetort results i) = fst (ingest_retort E V A results i)"
| "arena_step E V values A (Compete h i handle b now) = fst (compete E (value_eq V) values now A h i handle b)"

lemma arena_step_keeps [inv_intros]: "arena_step_ok E (value_eq V) A (arena_step E V values A op)"
  by (cases op) (auto simp: attempt_def split: sum.splits intro: inv_intros)

lemma arena_steps_ok: "arena_step_ok E (value_eq V) A (foldl (arena_step E V values) A ops)"
proof (induction ops arbitrary: A)
  case (Cons op ops)
  show ?case
    using step_ok_trans[OF arena_step_keeps[of E V A "values" op] Cons.IH] by simp
qed simp

definition seeded :: "(string, benchmark) hmap \<Rightarrow> bool" where
  "seeded m \<longleftrightarrow> hm_wf m \<and> (\<forall>k b. hm_get m k = Some b \<longrightarrow> bm_id b = k)"

lemma seeded_insert: "seeded m \<Longrightarrow> seeded (hm_insert (bm_id b) b m)"
  unfolding seeded_def hm_get_insert fun_upd_apply
  by (metis hm_wf_insert option.inject)

lemma seeded_inserts: "seeded m \<Longrightarrow> seeded (foldl (\<lambda>m b. hm_insert (bm_id b) b m) m bs)"
  by (induction bs arbitrary: m) (simp, simp only: foldl.simps seeded_insert)

lemma arena_new_wf: "arena_wf E eq arena_new"
proof -
  have "seeded hm_empty" by (simp add: seeded_def hm_wf_empty)
  then have "seeded (ar_benchmarks arena_new)"
    by (simp add: arena_new_def seeded_inserts)
  note benches = this[unfolded seeded_def, THEN conjunct1] this[unfolded seeded_def, THEN conjunct2]
  have rest: "ar_competitors arena_new = hm_empty" "ar_submissions arena_new = []"
    by (simp_all add: arena_new_def)
  show ?thesis
    unfolding arena_wf_def rest by (intro conjI benches) (simp_all add: hm_wf_empty)
qed

text \<open>
  Property C4. The arena is well formed after any history of requests: its maps are keyed by
  the ids they hold, and every submission on file verifies under its competitor's key, has at
  least one task, no more passes than tasks and a finite score, is for a benchmark and of a
  competitor the arena knows, and appears once; the log only grows, and benchmarks stay known.
\<close>

theorem arena_well_formed:
  "arena_wf E (value_eq V) (foldl (arena_step E V values) arena_new ops) \<and>
   arena_grows (foldl (arena_step E V values) arena_new ops) (foldl (arena_step E V values) arena_new (ops @ more_ops))"
  using arena_steps_ok[of E V arena_new "values" ops] arena_new_wf[of E "value_eq V"]
    arena_steps_ok[of E V "foldl (arena_step E V values) arena_new ops" "values" more_ops]
  by (simp add: arena_step_ok_def)

section \<open>Ingesting a bundle\<close>

abbreviation bundle_run :: "env \<Rightarrow> 'j value_codec \<Rightarrow> retort_results \<Rightarrow> identity \<Rightarrow> stack_key \<Rightarrow> 'j submission" where
  "bundle_run E V r i k \<equiv> signed_run E i (stack_run V r i (stack_reference r k))"

definition on_file :: "('j \<Rightarrow> 'j \<Rightarrow> bool) \<Rightarrow> 'j arena \<Rightarrow> 'j submission \<Rightarrow> bool" where
  "on_file eq A s \<longleftrightarrow> list_ex (\<lambda>t. t = s \<or> submission_eq eq t s) (ar_submissions A)"

lemma on_file_grows: "on_file eq A s \<Longrightarrow> arena_grows A B \<Longrightarrow> on_file eq B s"
  by (auto simp: on_file_def arena_grows_def list_ex_iff dest: set_mono_prefix)

lemma submit_on_file: "submit E eq A s = Inr B \<Longrightarrow> on_file eq B s"
  by (auto simp: submit_Inr_iff on_file_def list_ex_iff)

definition bundle_ok :: "env \<Rightarrow> identity \<Rightarrow> retort_results \<Rightarrow> bool" where
  "bundle_ok E i r \<longleftrightarrow> sig_ok E \<and> identity_wf E i \<and> length (rt_cells r) < 2 ^ 32 \<and>
     list_all (\<lambda>k. f64_is_finite (mean_of rc_requirement_coverage (scored_cells r k))) (stacks_of r)"

lemma submit_bundle_run:
  assumes "bundle_ok E i r" "k \<in> set (stacks_of r)" "hm_get (ar_benchmarks A) RETORT_BENCHMARK_ID \<noteq> None"
  shows "if scored_cells r k = [] then submit E eq A (bundle_run E V r i k) = Inl (malformed ''submission'' ''invalid score/totals'')
    else \<exists>B. submit E eq A (bundle_run E V r i k) = Inr B"
proof -
  let ?s = "bundle_run E V r i k"
  have len: "length (rt_cells r) < 2 ^ 32" and keys: "sig_ok E" "identity_wf E i" using assms(1) by (simp_all add: bundle_ok_def)
  have result: "sub_result ?s = stack_run V r i (stack_reference r k)" by (simp add: signed_run_def)
  have verifies: "submission_verify E ?s = Inr ()" using keys by (simp add: verify_signed_run)
  have "f64_is_finite (sa_mean_requirement_coverage (stack_reference r k))"
    using assms(1,2) unfolding bundle_ok_def list_all_iff by (simp add: stack_reference_def Let_def) blast
  then have "run_valid (sub_result ?s) \<longleftrightarrow> scored_cells r k \<noteq> []"
    unfolding result run_valid_def using reference_counts[OF len, of k] by simp
  moreover have "hm_get (ar_benchmarks A) (rr_benchmark (sub_result ?s)) \<noteq> None" using assms(3) by (simp add: result)
  moreover have "\<exists>B. submit E eq A ?s = Inr B" if "run_valid (sub_result ?s)"
    unfolding submit_Inr_iff using calculation(2) verifies that by blast
  ultimately show ?thesis
    using verifies submit_invalid[of A ?s E eq] by presburger
qed

lemma submit_each_bundle:
  assumes "bundle_ok E i r" "set ks \<subseteq> set (stacks_of r)" "hm_get (ar_benchmarks A) RETORT_BENCHMARK_ID \<noteq> None"
  shows "snd (submit_each E eq A (map (bundle_run E V r i) ks)) =
      (if list_all (\<lambda>k. scored_cells r k \<noteq> []) ks then Inr () else Inl (malformed ''submission'' ''invalid score/totals'')) \<and>
    list_all (\<lambda>k. on_file eq (fst (submit_each E eq A (map (bundle_run E V r i) ks))) (bundle_run E V r i k))
      (takeWhile (\<lambda>k. scored_cells r k \<noteq> []) ks)"
  using assms(2,3)
proof (induction ks arbitrary: A)
  case (Cons k ks)
  have k: "k \<in> set (stacks_of r)" using Cons.prems(1) by simp
  note sub = submit_bundle_run[OF assms(1) k Cons.prems(2), of eq V]
  show ?case
  proof (cases "scored_cells r k = []")
    case False
    then obtain B where B: "submit E eq A (bundle_run E V r i k) = Inr B" using sub by auto
    have "hm_get (ar_benchmarks B) RETORT_BENCHMARK_ID \<noteq> None"
      using B Cons.prems(2) by (simp add: submit_Inr_iff)
    note rest = Cons.IH[OF _ this]
    have "on_file eq (fst (submit_each E eq B (map (bundle_run E V r i) ks))) (bundle_run E V r i k)"
      using on_file_grows[OF submit_on_file[OF B]] submit_each_ok by (metis arena_step_ok_def)
    with False B rest Cons.prems(1) show ?thesis by simp
  qed (use sub in simp)
qed simp

text \<open>
  Ingesting a bundle signs and files one run for each stack, in the order of the
  stacks, up to the first stack all of whose cells were excluded as tooling failures: that one
  is rejected for its total of zero and the ingestion fails, with the runs before it on file
  and those after it dropped. Without such a stack it returns the number of stacks.
\<close>

theorem ingestion_stops_at_excluded_stack:
  assumes "bundle_ok E i r"
  shows "snd (ingest_retort E V A r i) =
      (if list_all (\<lambda>k. scored_cells r k \<noteq> []) (stacks_of r) then Inr (length (stacks_of r))
       else Inl (malformed ''submission'' ''invalid score/totals'')) \<and>
    list_all (\<lambda>k. on_file (value_eq V) (fst (ingest_retort E V A r i)) (bundle_run E V r i k))
      (takeWhile (\<lambda>k. scored_cells r k \<noteq> []) (stacks_of r))"
proof -
  let ?A = "if hm_get (ar_benchmarks A) RETORT_BENCHMARK_ID = None then register_benchmark retort_benchmark A else A"
  have "hm_get (ar_benchmarks ?A) RETORT_BENCHMARK_ID \<noteq> None"
    by (auto simp: register_benchmark_def retort_benchmark_def)
  note each = submit_each_bundle[OF assms subset_refl this, of "value_eq V" V]
  have len: "length (rt_cells r) < 2 ^ 32" using assms by (simp add: bundle_ok_def)
  obtain B res where B: "submit_each E (value_eq V) ?A (map (bundle_run E V r i) (stacks_of r)) = (B, res)"
    by (meson surj_pair)
  have ing: "ingest_retort E V A r i = (B, case res of Inl e \<Rightarrow> Inl e | Inr _ \<Rightarrow> Inr (length (stacks_of r)))"
    unfolding ingest_retort_def Let_def retort_ingest_spec[OF len] using B by (simp split: sum.splits)
  show ?thesis using each unfolding B ing by (auto split: sum.splits if_splits)
qed

text \<open>A bundle whose one stack has a tooling failure only.\<close>

definition demo_bundle :: retort_results where
  "demo_bundle = sample\<lparr>rt_cells := [sample_cell ''m'' ''h'' ''t'' (0, 1) (0, 1) (0, 1) (0, 1) Tooling False False]\<rparr>"

lemma mean_of_none: "f64_is_finite (mean_of f [])"
proof -
  have "f64_of_nat 1 = f64_one"
    using round_one[of 1] f64_of_self[of f64_one] by (simp add: f64_of_nat_def f64_lit_def)
  then show ?thesis using one_mag_le by (simp add: mean_of_def f64_div_def f64_is_finite_def f64_nan_of)
qed

theorem ingestion_stops_at_excluded_stack_witness:
  "snd (ingest_retort demo_env demo_detail_codec arena_new demo_bundle (demo_id 1)) = Inl (malformed ''submission'' ''invalid score/totals'')"
proof -
  have stacks: "stacks_of demo_bundle = [sample_stack ''m'' ''h'']" by (simp add: demo_bundle_def)
  have none: "scored_cells demo_bundle (sample_stack ''m'' ''h'') = []"
    by (simp add: scored_cells_def stack_cells_def demo_bundle_def sample_cell_diagnosis is_scored_def)
  have "bundle_ok demo_env (demo_id 1) demo_bundle"
    unfolding bundle_ok_def stacks using none
    by (simp add: demo_sig_ok demo_id_wf mean_of_none demo_bundle_def)
  from ingestion_stops_at_excluded_stack[OF this, of demo_detail_codec arena_new] show ?thesis
    unfolding stacks using none by simp
qed

end
