(* ===== verification/Str_Split.thy ===== *)
theory Str_Split
  imports Rust_Str
begin

text \<open>
  The string splitting of the standard library that the bridges use: \<open>split\<close>, \<open>splitn(2, ..)\<close>,
  \<open>rsplitn(2, ..)\<close>, \<open>strip_prefix\<close>, \<open>trim_start_matches\<close>, \<open>trim_end_matches\<close>; and
  the allowlists written as comma-separated pairs.
\<close>

fun split_from :: "string \<Rightarrow> char \<Rightarrow> string \<Rightarrow> string list" where
  "split_from acc c [] = [rev acc]"
| "split_from acc c (x # xs) = (if x = c then rev acc # split_from [] c xs else split_from (x # acc) c xs)"

definition split_on :: "char \<Rightarrow> string \<Rightarrow> string list" where
  "split_on c s = split_from [] c s"

text \<open>The two pieces of a split at the first, or the last, separator; no second piece without one.\<close>

definition split2 :: "char \<Rightarrow> string \<Rightarrow> string \<times> string option" where
  "split2 c s = (takeWhile (\<lambda>x. x \<noteq> c) s,
     case dropWhile (\<lambda>x. x \<noteq> c) s of [] \<Rightarrow> None | _ # rest \<Rightarrow> Some rest)"

definition rsplit2 :: "char \<Rightarrow> string \<Rightarrow> string \<times> string option" where
  "rsplit2 c s = (case split2 c (rev s) of (a, b) \<Rightarrow> (rev a, map_option rev b))"

fun split_str :: "string \<Rightarrow> string \<Rightarrow> string \<times> string option" where
  "split_str sep [] = ([], if sep = [] then Some [] else None)"
| "split_str sep (x # xs) =
     (if prefix sep (x # xs) then ([], Some (drop (length sep) (x # xs)))
      else case split_str sep xs of (a, b) \<Rightarrow> (x # a, b))"

definition strip_prefix :: "string \<Rightarrow> string \<Rightarrow> string option" where
  "strip_prefix p s = (if prefix p s then Some (drop (length p) s) else None)"

definition trim_start_char :: "char \<Rightarrow> string \<Rightarrow> string" where
  "trim_start_char c s = dropWhile (\<lambda>x. x = c) s"

definition trim_end_chars :: "char list \<Rightarrow> string \<Rightarrow> string" where
  "trim_end_chars cs s = rev (dropWhile (\<lambda>x. x \<in> set cs) (rev s))"

definition ascii_upper_char :: "char \<Rightarrow> char" where
  "ascii_upper_char c = (let n = (of_char c :: nat) in if 97 \<le> n \<and> n \<le> 122 then char_of (n - 32) else c)"

definition to_ascii_uppercase :: "string \<Rightarrow> string" where
  "to_ascii_uppercase s = map ascii_upper_char s"

text \<open>
  \<open>"a=b,c=d"\<close> as pairs: each comma-separated piece is split into its two parts, which are
  trimmed; a piece without a second part, or with an empty one, is skipped.
\<close>

definition allow_pair :: "(string \<Rightarrow> string \<times> string option) \<Rightarrow> string \<Rightarrow> (string \<times> string) option" where
  "allow_pair split pair =
     (case split pair of
        (_, None) \<Rightarrow> None
      | (a, Some b) \<Rightarrow> if trim a = [] \<or> trim b = [] then None else Some (trim a, trim b))"

definition allowlist :: "(string \<Rightarrow> string \<times> string option) \<Rightarrow> string \<Rightarrow> (string \<times> string) list" where
  "allowlist split spec = List.map_filter (allow_pair split) (split_on (CHR '','') spec)"

lemma strip_prefix_iff: "strip_prefix p s = Some r \<longleftrightarrow> s = p @ r"
  by (auto simp: strip_prefix_def prefix_def)

lemma strip_prefix_case: "(case strip_prefix p s of None \<Rightarrow> False | Some r \<Rightarrow> P r) \<longleftrightarrow> (\<exists>r. s = p @ r \<and> P r)"
  by (cases "strip_prefix p s") (auto simp: strip_prefix_iff[symmetric])

lemma strip_prefix_append [simp]: "strip_prefix p (p @ r) = Some r"
  by (simp add: strip_prefix_iff)

lemma allow_pair_Some: "allow_pair split p = Some (k, b) \<Longrightarrow> k \<noteq> [] \<and> b \<noteq> []"
  by (auto simp: allow_pair_def split: prod.splits option.splits if_splits)

lemma allowlist_parts: "(k, b) \<in> set (allowlist split spec) \<Longrightarrow> k \<noteq> [] \<and> b \<noteq> []"
proof -
  assume "(k, b) \<in> set (allowlist split spec)"
  then obtain p where "allow_pair split p = Some (k, b)"
    by (auto simp: allowlist_def List.map_filter_def)
  then show ?thesis by (rule allow_pair_Some)
qed

end
