(* ===== verification/Bridge.thy ===== *)
theory Bridge
  imports Board Report Hash_Map Str_Split
begin

text \<open>
  The chat bridge (\<open>agentbbs-bridge/src/lib.rs\<close>, \<open>inbound.rs\<close>, \<open>irc.rs\<close>): what of a
  board is mirrored to the configured webhooks, the signing of inbound messages under a key of
  their source, and the IRC listener. HTTP, the process environment and the JSON of the
  configuration are arguments.
\<close>

section \<open>Outbound\<close>

datatype target = Slack | Teams | Discord | WhatsApp

fun target_display :: "target \<Rightarrow> string" where
  "target_display Slack = ''slack''"
| "target_display Teams = ''teams''"
| "target_display Discord = ''discord''"
| "target_display WhatsApp = ''whatsapp''"

record outbound_post =
  op_target :: target
  op_url :: string
  op_payload :: json
  op_auth_token_env :: "string option"

definition WHATSAPP_GRAPH_VERSION :: string where
  "WHATSAPP_GRAPH_VERSION = ''v21.0''"

record whatsapp_target =
  wt_phone_number_id :: string
  wt_recipient :: string
  wt_token_env :: string

record board_mapping =
  bm_board :: string
  bm_slack_webhook :: "string option"
  bm_teams_webhook :: "string option"
  bm_discord_webhook :: "string option"
  bm_whatsapp :: "whatsapp_target option"

record bridge_config =
  bc_mappings :: "board_mapping list"

definition mapping_for :: "bridge_config \<Rightarrow> string \<Rightarrow> board_mapping option" where
  "mapping_for c board = find (\<lambda>m. bm_board m = board) (bc_mappings c)"

definition is_bridged :: "message \<Rightarrow> bool" where
  "is_bridged m \<longleftrightarrow> prefix ''bridge:'' (mb_handle (msg_body m))"

definition display_handle :: "env \<Rightarrow> message \<Rightarrow> string" where
  "display_handle E m =
     (if mb_handle (msg_body m) = []
      then ''@'' @ take (min 8 (length (to_hex E (mb_author (msg_body m))))) (to_hex E (mb_author (msg_body m)))
      else mb_handle (msg_body m))"

definition signed_mark :: "env \<Rightarrow> message \<Rightarrow> string" where
  "signed_mark E m =
     (if is_ok (message_verify E m) then [CHR 0xE2, CHR 0x9C, CHR 0x93] @ '' signed''
      else [CHR 0xE2, CHR 0x9C, CHR 0x97] @ '' unsigned'')"

definition chat_text :: "env \<Rightarrow> message \<Rightarrow> string" where
  "chat_text E m = ''*'' @ display_handle E m @ ''* in #'' @ mb_board (msg_body m) @ ''  _'' @ signed_mark E m @
     ''_'' @ [newline] @ mb_body (msg_body m)"

definition format_slack :: "env \<Rightarrow> message \<Rightarrow> json" where
  "format_slack E m = JObj [(''text'', JStr (chat_text E m))]"

definition format_teams :: "env \<Rightarrow> message \<Rightarrow> json" where
  "format_teams E m =
     JObj [(''attachments'', JArr [JObj [
         (''content'', JObj [
           (''$schema'', JStr ''http://adaptivecards.io/schemas/adaptive-card.json''),
           (''body'', JArr [
             JObj [(''text'', JStr (display_handle E m @ '' in #'' @ mb_board (msg_body m))),
               (''type'', JStr ''TextBlock''), (''weight'', JStr ''Bolder'')],
             JObj [(''isSubtle'', JBool True), (''spacing'', JStr ''None''), (''text'', JStr (signed_mark E m)),
               (''type'', JStr ''TextBlock'')],
             JObj [(''text'', JStr (mb_body (msg_body m))), (''type'', JStr ''TextBlock''), (''wrap'', JBool True)]]),
           (''type'', JStr ''AdaptiveCard''),
           (''version'', JStr ''1.4'')]),
         (''contentType'', JStr ''application/vnd.microsoft.card.adaptive'')]]),
       (''type'', JStr ''message'')]"

definition format_discord :: "env \<Rightarrow> message \<Rightarrow> json" where
  "format_discord E m =
     JObj [(''embeds'', JArr [JObj [
       (''author'', JObj [(''name'', JStr (display_handle E m))]),
       (''description'', JStr (mb_body (msg_body m))),
       (''footer'', JObj [(''text'', JStr (''#'' @ mb_board (msg_body m) @ '' '' @ [CHR 0xC2, CHR 0xB7] @ '' '' @
         signed_mark E m))])]])]"

definition format_whatsapp :: "env \<Rightarrow> message \<Rightarrow> string \<Rightarrow> json" where
  "format_whatsapp E m recipient =
     JObj [(''messaging_product'', JStr ''whatsapp''), (''recipient_type'', JStr ''individual''),
       (''text'', JObj [(''body'', JStr (chat_text E m)), (''preview_url'', JBool False)]),
       (''to'', JStr recipient), (''type'', JStr ''text'')]"

definition webhook_post :: "target \<Rightarrow> json \<Rightarrow> string option \<Rightarrow> outbound_post list" where
  "webhook_post t payload url =
     (case url of None \<Rightarrow> []
      | Some u \<Rightarrow> [\<lparr>op_target = t, op_url = u, op_payload = payload, op_auth_token_env = None\<rparr>])"

definition whatsapp_post :: "env \<Rightarrow> message \<Rightarrow> whatsapp_target option \<Rightarrow> outbound_post list" where
  "whatsapp_post E m target =
     (case target of None \<Rightarrow> []
      | Some wa \<Rightarrow> [\<lparr>op_target = WhatsApp,
          op_url = ''https://graph.facebook.com/'' @ WHATSAPP_GRAPH_VERSION @ ''/'' @ wt_phone_number_id wa @ ''/messages'',
          op_payload = format_whatsapp E m (wt_recipient wa), op_auth_token_env = Some (wt_token_env wa)\<rparr>])"

definition bridge_plan :: "env \<Rightarrow> bridge_config \<Rightarrow> message \<Rightarrow> outbound_post list" where
  "bridge_plan E c m =
     (if is_bridged m then []
      else case mapping_for c (mb_board (msg_body m)) of
        None \<Rightarrow> []
      | Some mapping \<Rightarrow>
          webhook_post Slack (format_slack E m) (bm_slack_webhook mapping) @
          webhook_post Teams (format_teams E m) (bm_teams_webhook mapping) @
          webhook_post Discord (format_discord E m) (bm_discord_webhook mapping) @
          whatsapp_post E m (bm_whatsapp mapping))"

text \<open>The window of free-form replies; instants are \<open>i64\<close> seconds.\<close>

definition WHATSAPP_SESSION_WINDOW_SECS :: int where
  "WHATSAPP_SESSION_WINDOW_SECS = 24 * 60 * 60"

record session_window =
  sw_last_inbound :: "(string, int) hmap"

definition session_window_new :: session_window where
  "session_window_new = \<lparr>sw_last_inbound = hm_empty\<rparr>"

definition window_record :: "string \<Rightarrow> int \<Rightarrow> session_window \<Rightarrow> session_window" where
  "window_record key now w = w\<lparr>sw_last_inbound := hm_insert key now (sw_last_inbound w)\<rparr>"

definition window_is_open :: "session_window \<Rightarrow> string \<Rightarrow> int \<Rightarrow> int \<Rightarrow> bool" where
  "window_is_open w key now window_secs =
     (case hm_get (sw_last_inbound w) key of None \<Rightarrow> False
      | Some t \<Rightarrow> (let delta = now - t in 0 \<le> delta \<and> delta \<le> window_secs))"

datatype bridge_error = Http string | MissingToken string

fun bridge_error_display :: "bridge_error \<Rightarrow> string" where
  "bridge_error_display (Http e) = ''bridge http error: '' @ e"
| "bridge_error_display (MissingToken var) = ''bridge auth token env var not set: '' @ var"

text \<open>
  Sending the planned posts: \<open>var\<close> reads the process environment, \<open>http\<close> sends one request
  with its bearer token and says what went wrong. The result also lists the requests sent.
\<close>

type_synonym request = "string \<times> json \<times> string option"

fun deliver :: "(string \<Rightarrow> string option) \<Rightarrow> (request \<Rightarrow> string option) \<Rightarrow> target list \<Rightarrow> outbound_post list
    \<Rightarrow> request list \<times> (bridge_error + target list)" where
  "deliver var http done_so_far [] = ([], Inr done_so_far)"
| "deliver var http done_so_far (p # ps) =
     (case (case op_auth_token_env p of None \<Rightarrow> Inr None
            | Some v \<Rightarrow> (case var v of None \<Rightarrow> Inl (MissingToken v) | Some token \<Rightarrow> Inr (Some token))) of
        Inl e \<Rightarrow> ([], Inl e)
      | Inr token \<Rightarrow>
          (let req = (op_url p, op_payload p, token)
           in case http req of
                Some e \<Rightarrow> ([req], Inl (Http e))
              | None \<Rightarrow> (case deliver var http (done_so_far @ [op_target p]) ps of (reqs, r) \<Rightarrow> (req # reqs, r))))"

section \<open>Inbound\<close>

record bridge_identity =
  bi_root_seed :: bytes

definition subkey :: "env \<Rightarrow> bridge_identity \<Rightarrow> string \<Rightarrow> identity" where
  "subkey E b source =
     from_seed E (blake3 E (''agentbbs.bridge.subkey.v1'' @ [newline] @ bi_root_seed b @ source))"

record inbound =
  in_platform :: string
  in_workspace :: string
  in_user_id :: string
  in_display_name :: string
  in_text :: string
  in_external_msg_id :: string
  in_board :: string

definition inbound_source :: "inbound \<Rightarrow> string" where
  "inbound_source i = in_platform i @ '':'' @ in_workspace i"

definition inbound_body :: "env \<Rightarrow> bridge_identity \<Rightarrow> inbound \<Rightarrow> time \<Rightarrow> message_body" where
  "inbound_body E b i created_at =
     \<lparr>mb_board = in_board i, mb_parent = None, mb_subject = in_user_id i @ ''@'' @ in_workspace i,
      mb_body = in_text i, mb_author = ident (subkey E b (inbound_source i)),
      mb_handle = ''bridge:'' @ in_platform i @ '':'' @ in_display_name i,
      mb_created_at = created_at, mb_kind = Post\<rparr>"

text \<open>An error is the panic of \<open>expect\<close>; \<open>sign_inbound_total\<close> excludes it.\<close>

definition sign_inbound :: "env \<Rightarrow> bridge_identity \<Rightarrow> inbound \<Rightarrow> time \<Rightarrow> message result" where
  "sign_inbound E b i created_at =
     message_sign E (subkey E b (inbound_source i)) (inbound_body E b i created_at)"

record seen_set =
  seen_ids :: "string set"

definition seen_set_new :: seen_set where
  "seen_set_new = \<lparr>seen_ids = {}\<rparr>"

definition seen_or_record :: "string \<Rightarrow> seen_set \<Rightarrow> seen_set \<times> bool" where
  "seen_or_record i s = (s\<lparr>seen_ids := insert i (seen_ids s)\<rparr>, i \<in> seen_ids s)"

section \<open>The IRC listener\<close>

text \<open>Collecting pairs into a hash map: a later pair replaces an earlier one of its key.\<close>

type_synonym channel_map = "(string, string) hmap"

definition collect_map :: "(string \<times> string) list \<Rightarrow> channel_map" where
  "collect_map pairs = foldl (\<lambda>m (k, v). hm_insert k v m) hm_empty pairs"

definition parse_channel_map :: "string \<Rightarrow> channel_map" where
  "parse_channel_map spec = collect_map (allowlist (split2 (CHR ''='')) spec)"

datatype irc_event = Nick string | Join string | Privmsg string string | Ping string | OtherEvent

definition parse_line :: "string \<Rightarrow> irc_event" where
  "parse_line line0 =
     (let line = trim_end_chars [CHR 0x0D, newline] line0
      in case strip_prefix ''PING '' line of
           Some rest \<Rightarrow> Ping (trim_start_char (CHR '':'') rest)
         | None \<Rightarrow>
             (let cmd = fst (split2 (CHR '' '') line);
                  rest = trim (unwrap_or [] (snd (split2 (CHR '' '') line)));
                  c = to_ascii_uppercase cmd
              in if c = ''NICK'' \<and> rest \<noteq> [] then Nick rest
                 else if c = ''JOIN'' \<and> rest \<noteq> [] then Join (trim_start_char (CHR ''#'') rest)
                 else if c = ''PRIVMSG'' then
                   (let target = trim (fst (split_str '' :'' rest));
                        text' = unwrap_or [] (snd (split_str '' :'' rest))
                    in case strip_prefix ''#'' target of
                         Some ch \<Rightarrow> if ch \<noteq> [] \<and> text' \<noteq> [] then Privmsg ch text' else OtherEvent
                       | None \<Rightarrow> OtherEvent)
                 else OtherEvent))"

definition irc_inbound :: "string \<Rightarrow> string \<Rightarrow> string \<Rightarrow> string \<Rightarrow> string \<Rightarrow> inbound" where
  "irc_inbound network nick text' ext_id board =
     \<lparr>in_platform = ''irc'', in_workspace = network, in_user_id = nick, in_display_name = nick,
      in_text = text', in_external_msg_id = ext_id, in_board = board\<rparr>"

definition handle_privmsg :: "env \<Rightarrow> time \<Rightarrow> bridge_identity \<Rightarrow> seen_set \<Rightarrow> channel_map \<Rightarrow> string \<Rightarrow> string \<Rightarrow> string
    \<Rightarrow> string \<Rightarrow> string \<Rightarrow> seen_set \<times> message option" where
  "handle_privmsg E now b seen m network nick channel text' ext_id =
     (case hm_get m channel of
        None \<Rightarrow> (seen, None)
      | Some board \<Rightarrow>
          (case seen_or_record ext_id seen of
             (seen', True) \<Rightarrow> (seen', None)
           | (seen', False) \<Rightarrow>
               (seen', case sign_inbound E b (irc_inbound network nick text' ext_id board) now of
                  Inl _ \<Rightarrow> None | Inr msg \<Rightarrow> Some msg)))"

datatype irc_output = Pong string | Delivered message

record irc_conn =
  ic_nick :: string
  ic_counter :: u64
  ic_seen :: seen_set
  ic_output :: "irc_output list"

text \<open>
  A connection: the listener's constants, the clock reading of the message a counter numbers,
  and whether the peer still takes a reply.
\<close>

record irc_session =
  is_identity :: bridge_identity
  is_map :: channel_map
  is_network :: string
  is_conn_tag :: string
  is_clock :: "u64 \<Rightarrow> time"
  is_write :: "string \<Rightarrow> string option"

definition irc_ext_id :: "irc_session \<Rightarrow> u64 \<Rightarrow> string" where
  "irc_ext_id S n = ''irc:'' @ is_network S @ '':'' @ is_conn_tag S @ '':'' @ dec (unat n)"

definition irc_line :: "env \<Rightarrow> irc_session \<Rightarrow> irc_conn \<Rightarrow> string \<Rightarrow> string + irc_conn" where
  "irc_line E S c line =
     (case parse_line line of
        Nick n \<Rightarrow> Inr (c\<lparr>ic_nick := n\<rparr>)
      | Ping token \<Rightarrow>
          (let reply = ''PONG :'' @ token @ [CHR 0x0D, newline]
           in case is_write S reply of Some e \<Rightarrow> Inl e | None \<Rightarrow> Inr (c\<lparr>ic_output := ic_output c @ [Pong reply]\<rparr>))
      | Privmsg channel text' \<Rightarrow>
          (let n = ic_counter c + 1
           in case handle_privmsg E (is_clock S n) (is_identity S) (ic_seen c) (is_map S) (is_network S)
                (ic_nick c) channel text' (irc_ext_id S n) of
                (seen, msg) \<Rightarrow> Inr (c\<lparr>ic_counter := n, ic_seen := seen,
                  ic_output := ic_output c @ (case msg of None \<Rightarrow> [] | Some m \<Rightarrow> [Delivered m])\<rparr>))
      | _ \<Rightarrow> Inr c)"

text \<open>The lines read, an error of the reader among them; an error ends the connection.\<close>

fun irc_lines :: "env \<Rightarrow> irc_session \<Rightarrow> irc_conn \<Rightarrow> (string + string) list \<Rightarrow> irc_conn \<times> (string + unit)" where
  "irc_lines E S c [] = (c, Inr ())"
| "irc_lines E S c (Inl e # rest) = (c, Inl e)"
| "irc_lines E S c (Inr line # rest) =
     (case irc_line E S c line of Inl e \<Rightarrow> (c, Inl e) | Inr c' \<Rightarrow> irc_lines E S c' rest)"

definition irc_open :: "seen_set \<Rightarrow> irc_conn" where
  "irc_open seen = \<lparr>ic_nick = ''unknown'', ic_counter = 0, ic_seen = seen, ic_output = []\<rparr>"

definition run_connection :: "env \<Rightarrow> irc_session \<Rightarrow> seen_set \<Rightarrow> (string + string) list \<Rightarrow> irc_conn \<times> (string + unit)" where
  "run_connection E S seen lines = irc_lines E S (irc_open seen) lines"

section \<open>Inbound messages\<close>

lemma sign_inbound_Inr:
  "sign_inbound E b i now = Inr m \<longleftrightarrow>
   m = \<lparr>msg_id = body_id E (inbound_body E b i now), msg_body = inbound_body E b i now,
     msg_signature = sign E (subkey E b (inbound_source i)) (body_signing_bytes E (inbound_body E b i now))\<rparr>"
  by (auto simp: sign_inbound_def message_sign_def inbound_body_def Let_def)

lemma sign_inbound_total: "\<exists>m. sign_inbound E b i now = Inr m"
  by (simp add: sign_inbound_Inr)

definition blake3_len :: "env \<Rightarrow> bool" where
  "blake3_len E \<longleftrightarrow> (\<forall>m. length (blake3 E m) = 32)"

lemma sign_inbound_verifies:
  assumes "sig_ok E" "blake3_len E" "sign_inbound E b i now = Inr m"
  shows "message_verify E m = Inr ()"
proof -
  have "identity_wf E (subkey E b (inbound_source i))"
    using assms(2) by (simp add: subkey_def blake3_len_def identity_wf_from_seed)
  then show ?thesis
    using message_sign_verifies[OF assms(1)] assms(3) by (simp add: sign_inbound_def)
qed

lemma inbound_is_bridged: "sign_inbound E b i now = Inr m \<Longrightarrow> is_bridged m"
  by (simp add: sign_inbound_Inr is_bridged_def inbound_body_def)

lemma bridged_no_plan: "is_bridged m \<Longrightarrow> bridge_plan E c m = []"
  by (simp add: bridge_plan_def)

text \<open>Collision-free digests and seeds keep the keys of two sources apart.\<close>

lemma inbound_source_inj:
  "CHR '':'' \<notin> set (in_platform i) \<Longrightarrow> CHR '':'' \<notin> set (in_platform j) \<Longrightarrow>
   inbound_source i = inbound_source j \<longleftrightarrow> in_platform i = in_platform j \<and> in_workspace i = in_workspace j"
  by (simp add: inbound_source_def split_at_sep_iff)

lemma bridge_keys_scoped:
  assumes "inj (blake3 E)" "inj (pub_of E)" "CHR '':'' \<notin> set (in_platform i)" "CHR '':'' \<notin> set (in_platform j)"
  shows "ident (subkey E b (inbound_source i)) = ident (subkey E b (inbound_source j)) \<longleftrightarrow>
    in_platform i = in_platform j \<and> in_workspace i = in_workspace j"
  unfolding subkey_def from_seed_def identity.simps agent_id.inject
  by (simp only: inj_eq[OF assms(2)] inj_eq[OF assms(1)] same_append_eq inbound_source_inj[OF assms(3,4)])

section \<open>A connection\<close>

text \<open>The messages a connection hands on, and what a line asks for: a board and a text.\<close>

definition posts_of :: "irc_output list \<Rightarrow> message list" where
  "posts_of os = List.map_filter (\<lambda>out. case out of Delivered m \<Rightarrow> Some m | Pong _ \<Rightarrow> None) os"

lemma posts_of_simps [simp]:
  "posts_of [] = []" "posts_of (os @ ps) = posts_of os @ posts_of ps"
  "posts_of [Pong r] = []" "posts_of [Delivered m] = [m]"
  by (simp_all add: posts_of_def List.map_filter_def)

definition asked_post :: "channel_map \<Rightarrow> string \<Rightarrow> (string \<times> string) option" where
  "asked_post m line = (case parse_line line of
     Privmsg channel text' \<Rightarrow> map_option (\<lambda>board. (board, text')) (hm_get m channel) | _ \<Rightarrow> None)"

definition irc_authentic :: "env \<Rightarrow> irc_session \<Rightarrow> message \<Rightarrow> bool" where
  "irc_authentic E S m \<longleftrightarrow> message_verify E m = Inr () \<and>
     mb_author (msg_body m) = ident (subkey E (is_identity S) (''irc:'' @ is_network S)) \<and>
     (\<forall>c. bridge_plan E c m = [])"

definition fresh_after :: "irc_session \<Rightarrow> irc_conn \<Rightarrow> nat \<Rightarrow> bool" where
  "fresh_after S c k \<longleftrightarrow> unat (ic_counter c) + k < 2 ^ 64 \<and>
     (\<forall>n. unat (ic_counter c) < unat n \<longrightarrow> irc_ext_id S n \<notin> seen_ids (ic_seen c))"

lemma unat_succ: "unat (n :: u64) + 1 < 2 ^ 64 \<Longrightarrow> unat (n + 1) = unat n + 1"
  using unat_add_lem[of n 1] by simp

lemma irc_ext_id_inj: "irc_ext_id S m = irc_ext_id S n \<longleftrightarrow> m = n"
  by (simp add: irc_ext_id_def word_unat_eq_iff)

lemma irc_line_spec:
  assumes "sig_ok E" "blake3_len E" "\<And>r. is_write S r = None" "fresh_after S c (Suc k)"
  shows "\<exists>c'. irc_line E S c line = Inr c' \<and> fresh_after S c' k \<and>
    (\<exists>new. posts_of (ic_output c') = posts_of (ic_output c) @ new \<and> list_all (irc_authentic E S) new \<and>
      map (\<lambda>m. (mb_board (msg_body m), mb_body (msg_body m))) new =
        (case asked_post (is_map S) line of None \<Rightarrow> [] | Some p \<Rightarrow> [p]))"
proof (cases "parse_line line")
  case (Privmsg channel text')
  define n where "n = ic_counter c + 1"
  have n: "unat n = unat (ic_counter c) + 1"
    unfolding n_def using assms(4) by (intro unat_succ) (simp add: fresh_after_def)
  have fresh: "irc_ext_id S n \<notin> seen_ids (ic_seen c)" using assms(4) n by (simp add: fresh_after_def)
  have later: "unat n + k < 2 ^ 64" "irc_ext_id S i \<notin> insert (irc_ext_id S n) (seen_ids (ic_seen c))" if "unat n < unat i" for i
    using assms(4) n that by (auto simp: fresh_after_def irc_ext_id_inj)
  have room: "unat n + k < 2 ^ 64" using assms(4) n by (simp add: fresh_after_def)
  show ?thesis
  proof (cases "hm_get (is_map S) channel")
    case None
    then show ?thesis
      using Privmsg n assms(4)
      by (auto simp: irc_line_def handle_privmsg_def asked_post_def fresh_after_def n_def[symmetric] Let_def)
  next
    case (Some board)
    define i where "i = irc_inbound (is_network S) (ic_nick c) text' (irc_ext_id S n) board"
    obtain m where m: "sign_inbound E (is_identity S) i (is_clock S n) = Inr m" using sign_inbound_total by blast
    have "message_verify E m = Inr ()" by (rule sign_inbound_verifies[OF assms(1,2) m])
    moreover have body: "msg_body m = inbound_body E (is_identity S) i (is_clock S n)" using m by (simp add: sign_inbound_Inr)
    ultimately have "irc_authentic E S m"
      using inbound_is_bridged[OF m] unfolding irc_authentic_def body
      by (simp add: bridged_no_plan inbound_body_def inbound_source_def i_def irc_inbound_def)
    moreover have "mb_board (msg_body m) = board" "mb_body (msg_body m) = text'"
      by (simp_all add: body inbound_body_def i_def irc_inbound_def)
    moreover have "irc_line E S c line = Inr (c\<lparr>ic_counter := n,
        ic_seen := (ic_seen c)\<lparr>seen_ids := insert (irc_ext_id S n) (seen_ids (ic_seen c))\<rparr>,
        ic_output := ic_output c @ [Delivered m]\<rparr>)"
      using Privmsg Some m fresh
      by (simp add: irc_line_def handle_privmsg_def seen_or_record_def n_def[symmetric] Let_def i_def)
    ultimately show ?thesis
      using Some Privmsg room later(2) by (auto simp: asked_post_def fresh_after_def)
  qed
qed (use assms(3,4) in \<open>auto simp: irc_line_def asked_post_def fresh_after_def Let_def\<close>)

lemma irc_lines_spec:
  assumes "sig_ok E" "blake3_len E" "\<And>r. is_write S r = None" "fresh_after S c (length ls)"
  shows "snd (irc_lines E S c (map Inr ls)) = Inr () \<and>
    (\<exists>new. posts_of (ic_output (fst (irc_lines E S c (map Inr ls)))) = posts_of (ic_output c) @ new \<and>
      list_all (irc_authentic E S) new \<and>
      map (\<lambda>m. (mb_board (msg_body m), mb_body (msg_body m))) new = List.map_filter (asked_post (is_map S)) ls)"
  using assms(4)
proof (induction ls arbitrary: c)
  case Nil
  show ?case by (simp add: List.map_filter_def)
next
  case (Cons line ls)
  have "fresh_after S c (Suc (length ls))" using Cons.prems by simp
  from irc_line_spec[OF assms(1-3) this, of line] obtain c' new1 where c':
    "irc_line E S c line = Inr c'" "fresh_after S c' (length ls)"
    "posts_of (ic_output c') = posts_of (ic_output c) @ new1" "list_all (irc_authentic E S) new1"
    "map (\<lambda>m. (mb_board (msg_body m), mb_body (msg_body m))) new1 =
        (case asked_post (is_map S) line of None \<Rightarrow> [] | Some p \<Rightarrow> [p])"
    by blast
  from Cons.IH[OF c'(2)] obtain new2 where rest: "snd (irc_lines E S c' (map Inr ls)) = Inr ()"
    "posts_of (ic_output (fst (irc_lines E S c' (map Inr ls)))) = posts_of (ic_output c') @ new2"
    "list_all (irc_authentic E S) new2"
    "map (\<lambda>m. (mb_board (msg_body m), mb_body (msg_body m))) new2 = List.map_filter (asked_post (is_map S)) ls"
    by blast
  have "map (\<lambda>m. (mb_board (msg_body m), mb_body (msg_body m))) (new1 @ new2) =
      List.map_filter (asked_post (is_map S)) (line # ls)"
    unfolding map_append c'(5) rest(4) by (simp add: List.map_filter_simps split: option.splits)
  then show ?case
    using c' rest by (intro conjI exI[of _ "new1 @ new2"]) simp_all
qed

text \<open>
  Property C22. The IRC listener hands on each message of a mapped channel exactly once and in
  order, with its text and the board of its channel, and nothing of other channels. Each is
  signed by the bridge's key of the network and verifies, and no configuration of the outbound
  bridge mirrors it back, so the bridge never loops.
\<close>

theorem irc_bridges_each_once:
  assumes "sig_ok E" "blake3_len E" "\<forall>r. is_write S r = None" "length ls < 2 ^ 64"
    and "\<forall>n. irc_ext_id S n \<notin> seen_ids seen"
  shows "snd (run_connection E S seen (map Inr ls)) = Inr () \<and>
    (let posts = posts_of (ic_output (fst (run_connection E S seen (map Inr ls))))
     in map (\<lambda>m. (mb_board (msg_body m), mb_body (msg_body m))) posts = List.map_filter (asked_post (is_map S)) ls \<and>
        list_all (irc_authentic E S) posts)"
proof -
  have "fresh_after S (irc_open seen) (length ls)"
    using assms(4,5) by (simp add: fresh_after_def irc_open_def)
  from irc_lines_spec[OF assms(1,2) _ this] show ?thesis
    using assms(3) by (auto simp: run_connection_def irc_open_def Let_def)
qed

text \<open>A nick, a message of a mapped channel and one of another.\<close>

definition demo_irc :: irc_session where
  "demo_irc = \<lparr>is_identity = \<lparr>bi_root_seed = []\<rparr>, is_map = [(''general'', ''lobby'')], is_network = ''n'',
     is_conn_tag = ''c'', is_clock = (\<lambda>_. 0), is_write = (\<lambda>_. None)\<rparr>"

definition digest_env :: env where
  "digest_env = demo_env\<lparr>blake3 := (\<lambda>m. replicate 32 (CHR ''s''))\<rparr>"

lemma digest_env_ok: "sig_ok digest_env" "blake3_len digest_env"
  using demo_sig_ok by (simp_all add: digest_env_def sig_ok_def blake3_len_def)

theorem irc_bridges_each_once_witness:
  "map (\<lambda>m. (mb_board (msg_body m), mb_body (msg_body m))) (posts_of (ic_output (fst (run_connection digest_env demo_irc
     seen_set_new (map Inr [''NICK ann'', ''PRIVMSG #general :hi'', ''PRIVMSG #other :no'']))))) = [(''lobby'', ''hi'')]"
proof -
  have asked: "List.map_filter (asked_post (is_map demo_irc)) [''NICK ann'', ''PRIVMSG #general :hi'', ''PRIVMSG #other :no'']
      = [(''lobby'', ''hi'')]"
    by code_simp
  have "\<forall>r. is_write demo_irc r = None" "length [''NICK ann'', ''PRIVMSG #general :hi'', ''PRIVMSG #other :no''] < 2 ^ 64"
    "\<forall>n. irc_ext_id demo_irc n \<notin> seen_ids seen_set_new"
    by (simp_all add: demo_irc_def seen_set_new_def)
  from irc_bridges_each_once[OF digest_env_ok this] show ?thesis
    unfolding asked by (simp only: Let_def)
qed

end
