(* ===== verification/Web_Bridges.thy ===== *)
theory Web_Bridges
  imports Bridge Web_Auth Federation
begin

text \<open>
  The webhooks of the web server that take chat messages in
  (\<open>agentbbs-web/src/slack_bridge.rs\<close>, \<open>whatsapp_bridge.rs\<close>, \<open>teams_bridge.rs\<close> and their
  handlers in \<open>lib.rs\<close>), and the mirror of board messages to WhatsApp. The process
  environment, JSON parsing and JWT validation are arguments, and so are the readings of the
  clock. Seconds are \<open>i64\<close> with the wrapping arithmetic of a release build.
\<close>

section \<open>Slack requests\<close>

definition i64_wrap :: "int \<Rightarrow> int" where
  "i64_wrap x = (x + 2 ^ 63) mod 2 ^ 64 - 2 ^ 63"

definition REPLAY_WINDOW_SECS :: int where
  "REPLAY_WINDOW_SECS = 300"

definition slack_base :: "string \<Rightarrow> string \<Rightarrow> bytes" where
  "slack_base stamp body = ''v0:'' @ stamp @ '':'' @ body"

definition slack_verify_signature :: "env \<Rightarrow> mac_env \<Rightarrow> string \<Rightarrow> string \<Rightarrow> string \<Rightarrow> string \<Rightarrow> time \<Rightarrow> bool" where
  "slack_verify_signature E M signing_secret stamp body sg now =
     (case parse_i64 stamp of
        None \<Rightarrow> False
      | Some ts \<Rightarrow>
          if REPLAY_WINDOW_SECS < i64_wrap \<bar>i64_wrap (timestamp now - ts)\<bar> then False
          else case strip_prefix ''v0='' sg of
            None \<Rightarrow> False
          | Some sig_hex \<Rightarrow>
              (case hex_dec E sig_hex of
                 Inl _ \<Rightarrow> False
               | Inr expected \<Rightarrow> hmac_sha256 M signing_secret (slack_base stamp body) = expected))"

record slack_message =
  sl_team_id :: string
  sl_channel :: string
  sl_user :: string
  sl_text :: string
  sl_ts :: string

datatype slack_event = UrlVerification string | SlackMessage slack_message | SlackIgnored

text \<open>Indexing a JSON value: \<open>Null\<close> where there is nothing.\<close>

definition jindex :: "json \<Rightarrow> string \<Rightarrow> json" where
  "jindex v k = unwrap_or JNull (json_get v k)"

definition as_array :: "json \<Rightarrow> json list option" where
  "as_array v = (case v of JArr xs \<Rightarrow> Some xs | _ \<Rightarrow> None)"

definition slack_parse_event :: "json \<Rightarrow> slack_event" where
  "slack_parse_event payload =
     (if jindex payload ''type'' = JStr ''url_verification''
      then UrlVerification (unwrap_or [] (as_str (jindex payload ''challenge'')))
      else if jindex payload ''type'' \<noteq> JStr ''event_callback'' then SlackIgnored
      else
        (let event = jindex payload ''event''
         in if jindex event ''type'' \<noteq> JStr ''message'' \<or> jindex event ''bot_id'' \<noteq> JNull then SlackIgnored
            else case (as_str (jindex payload ''team_id''), as_str (jindex event ''channel''),
                as_str (jindex event ''user''), as_str (jindex event ''text''), as_str (jindex event ''ts'')) of
              (Some team, Some channel, Some user, Some text', Some ts) \<Rightarrow>
                SlackMessage \<lparr>sl_team_id = team, sl_channel = channel, sl_user = user, sl_text = text', sl_ts = ts\<rparr>
            | _ \<Rightarrow> SlackIgnored))"

definition slack_channel_map :: "string \<Rightarrow> channel_map" where
  "slack_channel_map spec = collect_map (allowlist (split2 (CHR '':'')) spec)"

definition parse_seed_hex :: "env \<Rightarrow> string \<Rightarrow> bytes option" where
  "parse_seed_hex E s = (case hex_dec E (trim s) of Inl _ \<Rightarrow> None | Inr b \<Rightarrow> if length b = 32 then Some b else None)"

section \<open>WhatsApp requests\<close>

definition whatsapp_verify_signature :: "env \<Rightarrow> mac_env \<Rightarrow> string \<Rightarrow> string \<Rightarrow> string \<Rightarrow> bool" where
  "whatsapp_verify_signature E M app_secret body sg =
     (case strip_prefix ''sha256='' sg of
        None \<Rightarrow> False
      | Some sig_hex \<Rightarrow>
          (case hex_dec E sig_hex of Inl _ \<Rightarrow> False | Inr expected \<Rightarrow> hmac_sha256 M app_secret body = expected))"

definition verify_handshake :: "string \<Rightarrow> string \<Rightarrow> string \<Rightarrow> string \<Rightarrow> string option" where
  "verify_handshake configured_token mode token challenge =
     (if mode = ''subscribe'' \<and> configured_token \<noteq> [] \<and> token = configured_token then Some challenge else None)"

record whatsapp_message =
  wm_phone_number_id :: string
  wm_from :: string
  wm_id :: string
  wm_text :: string

definition whatsapp_text :: "string option \<Rightarrow> json \<Rightarrow> whatsapp_message option" where
  "whatsapp_text phone_number_id m =
     (if jindex m ''type'' \<noteq> JStr ''text'' then None
      else case (phone_number_id, as_str (jindex m ''from''), as_str (jindex m ''id''),
          as_str (jindex (jindex m ''text'') ''body'')) of
        (Some pnid, Some from', Some i, Some text') \<Rightarrow>
          Some \<lparr>wm_phone_number_id = pnid, wm_from = from', wm_id = i, wm_text = text'\<rparr>
      | _ \<Rightarrow> None)"

definition whatsapp_change :: "json \<Rightarrow> whatsapp_message list" where
  "whatsapp_change change =
     (let v = jindex change ''value'';
          phone_number_id = as_str (jindex (jindex v ''metadata'') ''phone_number_id'')
      in case as_array (jindex v ''messages'') of
           None \<Rightarrow> []
         | Some messages \<Rightarrow> List.map_filter (whatsapp_text phone_number_id) messages)"

definition parse_messages :: "json \<Rightarrow> whatsapp_message list" where
  "parse_messages payload =
     (case as_array (jindex payload ''entry'') of
        None \<Rightarrow> []
      | Some entries \<Rightarrow>
          concat (map (\<lambda>entry. case as_array (jindex entry ''changes'') of
              None \<Rightarrow> [] | Some changes \<Rightarrow> concat (map whatsapp_change changes)) entries))"

definition parse_number_map :: "string \<Rightarrow> channel_map" where
  "parse_number_map spec = collect_map (allowlist (split2 (CHR '':'')) spec)"

section \<open>Teams requests\<close>

record teams_message =
  tm_conversation :: string
  tm_user :: string
  tm_name :: string
  tm_text :: string
  tm_activity_id :: string

datatype teams_event = TeamsMessage teams_message | TeamsIgnored

definition parse_activity :: "json \<Rightarrow> teams_event" where
  "parse_activity payload =
     (if jindex payload ''type'' \<noteq> JStr ''message'' then TeamsIgnored
      else
        (let from_id = as_str (jindex (jindex payload ''from'') ''id'');
             recipient_id = as_str (jindex (jindex payload ''recipient'') ''id'')
         in if from_id \<noteq> None \<and> from_id = recipient_id then TeamsIgnored
            else
              (let conversation = (case as_str (jindex (jindex (jindex payload ''channelData'') ''channel'') ''id'') of
                     Some c \<Rightarrow> Some c | None \<Rightarrow> as_str (jindex (jindex payload ''conversation'') ''id''));
                   name = unwrap_or [] (as_str (jindex (jindex payload ''from'') ''name''))
               in case (conversation, from_id, as_str (jindex payload ''text''), as_str (jindex payload ''id'')) of
                    (Some c, Some user, Some text', Some activity_id) \<Rightarrow>
                      TeamsMessage \<lparr>tm_conversation = c, tm_user = user, tm_name = name, tm_text = text',
                        tm_activity_id = activity_id\<rparr>
                  | _ \<Rightarrow> TeamsIgnored)))"

text \<open>The board is what follows the last colon.\<close>

definition split_last :: "char \<Rightarrow> string \<Rightarrow> string \<times> string option" where
  "split_last c pair =
     (if c \<in> set pair then case rsplit2 c pair of (board, conv) \<Rightarrow> (unwrap_or [] conv, Some board) else (pair, None))"

definition teams_channel_map :: "string \<Rightarrow> channel_map" where
  "teams_channel_map spec = collect_map (allowlist (split_last (CHR '':'')) spec)"

section \<open>Handlers\<close>

text \<open>The part of the server's state the bridges use.\<close>

record ('s, 'r) bridge_web =
  bw_bbs :: "('s, 'r) bbs"
  bw_slack_seen :: seen_set
  bw_whatsapp_seen :: seen_set
  bw_teams_seen :: seen_set
  bw_whatsapp_window :: session_window

text \<open>
  A call: the process environment, the readings of the clock (when the request is checked,
  and, for the n-th message of it, when the window is opened, the message is signed, and the
  service logs it), JSON parsing and JWT validation.
\<close>

record bridge_call =
  be_var :: "string \<Rightarrow> string option"
  be_now :: time
  be_recorded :: "nat \<Rightarrow> time"
  be_signed :: "nat \<Rightarrow> time"
  be_posted :: "nat \<Rightarrow> time"
  be_json :: "string \<Rightarrow> string + json"
  be_jwt_ok :: "string \<Rightarrow> bytes \<Rightarrow> string \<Rightarrow> string \<Rightarrow> bool"  \<comment> \<open>token, key, issuer, audience\<close>

type_synonym reply = "(nat \<times> string) + json"

definition ok_json :: json where
  "ok_json = JObj [(''ok'', JBool True)]"

definition header_or_empty :: "headers \<Rightarrow> string \<Rightarrow> string" where
  "header_or_empty h name = unwrap_or [] (header_str h name)"

text \<open>Signing an inbound message and posting it as an agent; a refused post is only logged.\<close>

definition post_inbound :: "'s store_ops \<Rightarrow> ('r \<Rightarrow> event \<Rightarrow> 'r result) \<Rightarrow> env \<Rightarrow> time \<Rightarrow> time \<Rightarrow> bridge_identity \<Rightarrow> inbound
    \<Rightarrow> ('s, 'r) bbs \<Rightarrow> ('s, 'r) bbs" where
  "post_inbound T R E signed_at posted_at b i bbs =
     (case sign_inbound E b i signed_at of
        Inl _ \<Rightarrow> bbs
      | Inr m \<Rightarrow> fst (svc_post T R E posted_at bbs (role_caps Agent) m))"

definition bridge_of :: "env \<Rightarrow> bridge_call \<Rightarrow> string \<Rightarrow> bridge_identity option" where
  "bridge_of E C name =
     map_option (\<lambda>seed. \<lparr>bi_root_seed = seed\<rparr>) (Option.bind (be_var C name) (parse_seed_hex E))"

definition slack_ext_id :: "slack_message \<Rightarrow> string" where
  "slack_ext_id m = ''slack:'' @ sl_team_id m @ '':'' @ sl_ts m"

definition slack_inbound :: "slack_message \<Rightarrow> string \<Rightarrow> inbound" where
  "slack_inbound m board =
     \<lparr>in_platform = ''slack'', in_workspace = sl_team_id m, in_user_id = sl_user m, in_display_name = sl_user m,
      in_text = sl_text m, in_external_msg_id = slack_ext_id m, in_board = board\<rparr>"

definition deliver_slack_message :: "'s store_ops \<Rightarrow> ('r \<Rightarrow> event \<Rightarrow> 'r result) \<Rightarrow> env \<Rightarrow> bridge_call \<Rightarrow> slack_message
    \<Rightarrow> ('s, 'r) bridge_web \<Rightarrow> ('s, 'r) bridge_web" where
  "deliver_slack_message T R E C m w =
     (case be_var C ''AGENTBBS_SLACK_CHANNEL_MAP'' of
        None \<Rightarrow> w
      | Some spec \<Rightarrow>
          (case hm_get (slack_channel_map spec) (sl_channel m) of
             None \<Rightarrow> w
           | Some board \<Rightarrow>
               (case bridge_of E C ''AGENTBBS_SLACK_BRIDGE_SEED_HEX'' of
                  None \<Rightarrow> w
                | Some b \<Rightarrow>
                    (case seen_or_record (slack_ext_id m) (bw_slack_seen w) of
                       (seen, was_seen) \<Rightarrow>
                         (let w1 = w\<lparr>bw_slack_seen := seen\<rparr>
                          in if was_seen then w1
                             else w1\<lparr>bw_bbs := post_inbound T R E (be_signed C 0) (be_posted C 0) b
                               (slack_inbound m board) (bw_bbs w1)\<rparr>)))))"

definition api_slack_events :: "'s store_ops \<Rightarrow> ('r \<Rightarrow> event \<Rightarrow> 'r result) \<Rightarrow> env \<Rightarrow> mac_env \<Rightarrow> bridge_call \<Rightarrow> headers \<Rightarrow> string
    \<Rightarrow> ('s, 'r) bridge_web \<Rightarrow> ('s, 'r) bridge_web \<times> reply" where
  "api_slack_events T R E M C h body w =
     (let secret = unwrap_or [] (be_var C ''AGENTBBS_SLACK_SIGNING_SECRET'')
      in if secret = [] then (w, Inl (503, ''slack bridge not configured''))
         else
           (let ts = header_or_empty h ''x-slack-request-timestamp'';
                sg = header_or_empty h ''x-slack-signature''
            in if \<not> slack_verify_signature E M secret ts body sg (be_now C)
               then (w, Inl (401, ''invalid signature''))
               else case be_json C body of
                 Inl e \<Rightarrow> (w, Inl (400, ''invalid json: '' @ e))
               | Inr payload \<Rightarrow>
                   (case slack_parse_event payload of
                      UrlVerification challenge \<Rightarrow> (w, Inr (JObj [(''challenge'', JStr challenge)]))
                    | SlackMessage m \<Rightarrow> (deliver_slack_message T R E C m w, Inr ok_json)
                    | SlackIgnored \<Rightarrow> (w, Inr ok_json))))"

definition api_whatsapp_verify :: "bridge_call \<Rightarrow> (string \<Rightarrow> string option) \<Rightarrow> (nat \<times> string) + string" where
  "api_whatsapp_verify C params =
     (let token = unwrap_or [] (be_var C ''AGENTBBS_WHATSAPP_VERIFY_TOKEN'');
          get = \<lambda>k. unwrap_or [] (params k)
      in if token = [] then Inl (503, ''whatsapp bridge not configured'')
         else case verify_handshake token (get ''hub.mode'') (get ''hub.verify_token'') (get ''hub.challenge'') of
           Some challenge \<Rightarrow> Inr challenge
         | None \<Rightarrow> Inl (403, ''verification failed''))"

definition whatsapp_ext_id :: "whatsapp_message \<Rightarrow> string" where
  "whatsapp_ext_id m = ''whatsapp:'' @ wm_id m"

definition whatsapp_inbound :: "whatsapp_message \<Rightarrow> string \<Rightarrow> inbound" where
  "whatsapp_inbound m board =
     \<lparr>in_platform = ''whatsapp'', in_workspace = wm_phone_number_id m, in_user_id = wm_from m,
      in_display_name = wm_from m, in_text = wm_text m, in_external_msg_id = whatsapp_ext_id m, in_board = board\<rparr>"

definition deliver_whatsapp_message :: "'s store_ops \<Rightarrow> ('r \<Rightarrow> event \<Rightarrow> 'r result) \<Rightarrow> env \<Rightarrow> bridge_call \<Rightarrow> nat
    \<Rightarrow> whatsapp_message \<Rightarrow> ('s, 'r) bridge_web \<Rightarrow> ('s, 'r) bridge_web" where
  "deliver_whatsapp_message T R E C n m w =
     (case be_var C ''AGENTBBS_WHATSAPP_NUMBER_MAP'' of
        None \<Rightarrow> w
      | Some spec \<Rightarrow>
          (case hm_get (parse_number_map spec) (wm_phone_number_id m) of
             None \<Rightarrow> w
           | Some board \<Rightarrow>
               (case bridge_of E C ''AGENTBBS_WHATSAPP_BRIDGE_SEED_HEX'' of
                  None \<Rightarrow> w
                | Some b \<Rightarrow>
                    (case seen_or_record (whatsapp_ext_id m) (bw_whatsapp_seen w) of
                       (seen, was_seen) \<Rightarrow>
                         (let w1 = w\<lparr>bw_whatsapp_seen := seen\<rparr>
                          in if was_seen then w1
                             else
                               (let w2 = w1\<lparr>bw_whatsapp_window :=
                                    window_record (wm_from m) (timestamp (be_recorded C n)) (bw_whatsapp_window w1)\<rparr>
                                in w2\<lparr>bw_bbs := post_inbound T R E (be_signed C n) (be_posted C n) b
                                     (whatsapp_inbound m board) (bw_bbs w2)\<rparr>))))))"

fun deliver_whatsapp_from :: "'s store_ops \<Rightarrow> ('r \<Rightarrow> event \<Rightarrow> 'r result) \<Rightarrow> env \<Rightarrow> bridge_call \<Rightarrow> nat
    \<Rightarrow> whatsapp_message list \<Rightarrow> ('s, 'r) bridge_web \<Rightarrow> ('s, 'r) bridge_web" where
  "deliver_whatsapp_from T R E C n [] w = w"
| "deliver_whatsapp_from T R E C n (m # ms) w =
     deliver_whatsapp_from T R E C (Suc n) ms (deliver_whatsapp_message T R E C n m w)"

definition api_whatsapp_events :: "'s store_ops \<Rightarrow> ('r \<Rightarrow> event \<Rightarrow> 'r result) \<Rightarrow> env \<Rightarrow> mac_env \<Rightarrow> bridge_call \<Rightarrow> headers \<Rightarrow> string
    \<Rightarrow> ('s, 'r) bridge_web \<Rightarrow> ('s, 'r) bridge_web \<times> reply" where
  "api_whatsapp_events T R E M C h body w =
     (let secret = unwrap_or [] (be_var C ''AGENTBBS_WHATSAPP_APP_SECRET'')
      in if secret = [] then (w, Inl (503, ''whatsapp bridge not configured''))
         else if \<not> whatsapp_verify_signature E M secret body (header_or_empty h ''x-hub-signature-256'')
         then (w, Inl (401, ''invalid signature''))
         else case be_json C body of
           Inl e \<Rightarrow> (w, Inl (400, ''invalid json: '' @ e))
         | Inr payload \<Rightarrow> (deliver_whatsapp_from T R E C 0 (parse_messages payload) w, Inr ok_json))"

definition teams_ext_id :: "teams_message \<Rightarrow> string" where
  "teams_ext_id m = ''teams:'' @ tm_activity_id m"

definition teams_inbound :: "teams_message \<Rightarrow> string \<Rightarrow> inbound" where
  "teams_inbound m board =
     \<lparr>in_platform = ''teams'', in_workspace = tm_conversation m, in_user_id = tm_user m,
      in_display_name = (if tm_name m = [] then tm_user m else tm_name m),
      in_text = tm_text m, in_external_msg_id = teams_ext_id m, in_board = board\<rparr>"

definition deliver_teams_message :: "'s store_ops \<Rightarrow> ('r \<Rightarrow> event \<Rightarrow> 'r result) \<Rightarrow> env \<Rightarrow> bridge_call \<Rightarrow> teams_message
    \<Rightarrow> ('s, 'r) bridge_web \<Rightarrow> ('s, 'r) bridge_web" where
  "deliver_teams_message T R E C m w =
     (case be_var C ''AGENTBBS_TEAMS_CHANNEL_MAP'' of
        None \<Rightarrow> w
      | Some spec \<Rightarrow>
          (case hm_get (teams_channel_map spec) (tm_conversation m) of
             None \<Rightarrow> w
           | Some board \<Rightarrow>
               (case bridge_of E C ''AGENTBBS_TEAMS_BRIDGE_SEED_HEX'' of
                  None \<Rightarrow> w
                | Some b \<Rightarrow>
                    (case seen_or_record (teams_ext_id m) (bw_teams_seen w) of
                       (seen, was_seen) \<Rightarrow>
                         (let w1 = w\<lparr>bw_teams_seen := seen\<rparr>
                          in if was_seen then w1
                             else w1\<lparr>bw_bbs := post_inbound T R E (be_signed C 0) (be_posted C 0) b
                               (teams_inbound m board) (bw_bbs w1)\<rparr>)))))"

definition bearer_token :: "headers \<Rightarrow> string" where
  "bearer_token h = unwrap_or [] (Option.bind (header_str h ''authorization'') (strip_prefix ''Bearer ''))"

definition api_teams_messages :: "'s store_ops \<Rightarrow> ('r \<Rightarrow> event \<Rightarrow> 'r result) \<Rightarrow> env \<Rightarrow> bridge_call \<Rightarrow> headers \<Rightarrow> string
    \<Rightarrow> ('s, 'r) bridge_web \<Rightarrow> ('s, 'r) bridge_web \<times> reply" where
  "api_teams_messages T R E C h body w =
     (let app_id = unwrap_or [] (be_var C ''AGENTBBS_TEAMS_APP_ID'');
          issuer = unwrap_or [] (be_var C ''AGENTBBS_TEAMS_JWT_ISSUER'');
          pem = unwrap_or [] (be_var C ''AGENTBBS_TEAMS_JWT_PUBKEY_PEM'')
      in if app_id = [] \<or> issuer = [] \<or> pem = [] then (w, Inl (503, ''teams bridge not configured''))
         else if \<not> be_jwt_ok C (bearer_token h) pem issuer app_id then (w, Inl (401, ''invalid token''))
         else case be_json C body of
           Inl e \<Rightarrow> (w, Inl (400, ''invalid json: '' @ e))
         | Inr payload \<Rightarrow>
             (case parse_activity payload of
                TeamsMessage m \<Rightarrow> (deliver_teams_message T R E C m w, Inr ok_json)
              | TeamsIgnored \<Rightarrow> (w, Inr ok_json)))"

section \<open>The mirror to WhatsApp\<close>

definition plan_whatsapp_outbound :: "env \<Rightarrow> bridge_config \<Rightarrow> session_window \<Rightarrow> message \<Rightarrow> int \<Rightarrow> outbound_post list" where
  "plan_whatsapp_outbound E config sw m now =
     filter (\<lambda>p. case as_str (jindex (op_payload p) ''to'') of
         None \<Rightarrow> False | Some to \<Rightarrow> window_is_open sw to now WHATSAPP_SESSION_WINDOW_SECS)
       (filter (\<lambda>p. op_target p = WhatsApp) (bridge_plan E config m))"

text \<open>The posts handed to a background task, if any; a configuration that does not parse is only logged.\<close>

definition maybe_mirror_whatsapp_outbound :: "env \<Rightarrow> (string \<Rightarrow> bridge_config option) \<Rightarrow> bridge_call \<Rightarrow> message
    \<Rightarrow> ('s, 'r) bridge_web \<Rightarrow> outbound_post list" where
  "maybe_mirror_whatsapp_outbound E parse C m w =
     (case Option.bind (be_var C ''AGENTBBS_WHATSAPP_BRIDGE_CONFIG'') parse of
        None \<Rightarrow> []
      | Some config \<Rightarrow> plan_whatsapp_outbound E config (bw_whatsapp_window w) m (timestamp (be_now C)))"

section \<open>Slack's replay window\<close>

lemma sum_case_ok: "(case r of Inl _ \<Rightarrow> False | Inr x \<Rightarrow> y = x) \<longleftrightarrow> r = Inr y"
  by (cases r) auto

lemma i64_wrap_in: "- (2 ^ 63) \<le> x \<Longrightarrow> x < 2 ^ 63 \<Longrightarrow> i64_wrap x = x"
  by (simp add: i64_wrap_def)

lemma i64_wrap_over: "2 ^ 63 \<le> x \<Longrightarrow> x < 2 ^ 64 + 2 ^ 63 \<Longrightarrow> i64_wrap x = x - 2 ^ 64"
proof -
  assume x: "2 ^ 63 \<le> x" "x < 2 ^ 64 + 2 ^ 63"
  have "(x + 2 ^ 63) mod 2 ^ 64 = (x + 2 ^ 63 - 2 ^ 64) mod 2 ^ 64" by (rule minus_mod_self2[symmetric])
  also have "\<dots> = x + 2 ^ 63 - 2 ^ 64" using x by (intro mod_pos_pos_trivial) simp_all
  finally show ?thesis by (simp add: i64_wrap_def)
qed

lemma parse_i64_range: "parse_i64 s = Some n \<Longrightarrow> - (2 ^ 63) \<le> n \<and> n < 2 ^ 63"
  by (auto simp: parse_i64_def Let_def split: if_splits)

lemma skew_iff:
  assumes "0 \<le> now" "now < 2 ^ 62" "- (2 ^ 63) \<le> ts" "ts < 2 ^ 63"
  shows "i64_wrap \<bar>i64_wrap (now - ts)\<bar> \<le> REPLAY_WINDOW_SECS \<longleftrightarrow> \<bar>now - ts\<bar> \<le> 300 \<or> ts = now - 2 ^ 63"
proof (cases "now - ts < 2 ^ 63")
  case True
  then have d: "i64_wrap (now - ts) = now - ts" using assms by (intro i64_wrap_in) simp_all
  have "i64_wrap \<bar>now - ts\<bar> = \<bar>now - ts\<bar>" using assms True by (intro i64_wrap_in) linarith+
  then show ?thesis using True assms by (auto simp: d REPLAY_WINDOW_SECS_def)
next
  case False
  then have d: "i64_wrap (now - ts) = now - ts - 2 ^ 64" using assms by (intro i64_wrap_over) simp_all
  show ?thesis
  proof (cases "now - ts = 2 ^ 63")
    case True
    then show ?thesis unfolding d by (simp add: i64_wrap_def REPLAY_WINDOW_SECS_def)
  next
    case False
    have abs: "\<bar>now - ts - 2 ^ 64\<bar> = 2 ^ 64 - (now - ts)" using assms by simp
    have "i64_wrap (2 ^ 64 - (now - ts)) = 2 ^ 64 - (now - ts)"
      using assms False \<open>\<not> now - ts < 2 ^ 63\<close> by (intro i64_wrap_in) simp_all
    then show ?thesis
      unfolding d abs using assms False \<open>\<not> now - ts < 2 ^ 63\<close> by (auto simp: REPLAY_WINDOW_SECS_def)
  qed
qed

text \<open>
  A Slack request is accepted exactly when its signature is the HMAC of its
  timestamp and body under the secret and its timestamp is within five minutes of the clock,
  or is the one second \<open>2^63\<close> before it: there the difference overflows and so does its
  absolute value, which a release build compares as a negative number.
\<close>

theorem slack_window_overflows:
  assumes "0 \<le> timestamp now" "timestamp now < 2 ^ 62"
  shows "slack_verify_signature E M secret stamp body sg now \<longleftrightarrow>
    (\<exists>ts sig_hex. parse_i64 stamp = Some ts \<and>
      (\<bar>timestamp now - ts\<bar> \<le> 300 \<or> ts = timestamp now - 2 ^ 63) \<and>
      sg = ''v0='' @ sig_hex \<and> hex_dec E sig_hex = Inr (hmac_sha256 M secret (slack_base stamp body)))"
proof (cases "parse_i64 stamp")
  case (Some ts)
  have "\<not> REPLAY_WINDOW_SECS < i64_wrap \<bar>i64_wrap (timestamp now - ts)\<bar> \<longleftrightarrow>
      \<bar>timestamp now - ts\<bar> \<le> 300 \<or> ts = timestamp now - 2 ^ 63"
    using skew_iff[OF assms] parse_i64_range[OF Some] by (simp only: not_less)
  then show ?thesis
    unfolding slack_verify_signature_def Some option.case strip_prefix_case sum_case_ok by auto
qed (simp add: slack_verify_signature_def)

lemma far_stamp: "parse_i64 (dec_int (1 - 2 ^ 63)) = Some (1 - 2 ^ 63)"
proof -
  have "list_all is_digit (dec (2 ^ 63 - 1))" using dec_digits[of _ "2 ^ 63 - 1"] by (auto simp: list_all_iff)
  then show ?thesis by (simp add: dec_int_def parse_i64_def Let_def)
qed

theorem slack_window_overflows_witness:
  "slack_verify_signature demo_env demo_mac ''k'' (dec_int (1 - 2 ^ 63)) ''body''
     (''v0='' @ hex_enc demo_env (hmac_sha256 demo_mac ''k'' (slack_base (dec_int (1 - 2 ^ 63)) ''body''))) 1000000000"
proof -
  have now: "0 \<le> timestamp 1000000000" "timestamp 1000000000 < 2 ^ 62" "timestamp 1000000000 = 1"
    by (simp_all add: timestamp_def)
  have hex: "hex_dec demo_env (hex_enc demo_env m) = Inr m" for m using demo_hex_ok by (simp add: hex_ok_def)
  show ?thesis
    unfolding slack_window_overflows[OF now(1,2)] now(3) using far_stamp hex by auto
qed

section \<open>What a webhook can do\<close>

text \<open>
  The state after one message of a platform: unchanged, or its id is recorded and, unless it
  was before, a message of the bridge's key for its source is posted on the board its channel
  is mapped to.
\<close>

definition posts_signed :: "'s store_ops \<Rightarrow> ('r \<Rightarrow> event \<Rightarrow> 'r result) \<Rightarrow> env \<Rightarrow> inbound \<Rightarrow> ('s, 'r) bbs \<Rightarrow> ('s, 'r) bbs \<Rightarrow> bool" where
  "posts_signed T R E i bbs bbs' \<longleftrightarrow>
     (\<exists>b signed_at posted_at m. sign_inbound E b i signed_at = Inr m \<and>
        bbs' = fst (svc_post T R E posted_at bbs (role_caps Agent) m))"

lemma post_inbound_signed: "posts_signed T R E i bbs (post_inbound T R E signed_at posted_at b i bbs)"
proof -
  obtain m where "sign_inbound E b i signed_at = Inr m" using sign_inbound_total by blast
  then show ?thesis by (auto simp: posts_signed_def post_inbound_def)
qed

lemma deliver_slack_cases:
  "deliver_slack_message T R E C m w = w \<or>
   (\<exists>spec board. be_var C ''AGENTBBS_SLACK_CHANNEL_MAP'' = Some spec \<and>
     hm_get (slack_channel_map spec) (sl_channel m) = Some board \<and>
     (let w' = deliver_slack_message T R E C m w
      in bw_slack_seen w' = (bw_slack_seen w)\<lparr>seen_ids := insert (slack_ext_id m) (seen_ids (bw_slack_seen w))\<rparr> \<and>
         (if slack_ext_id m \<in> seen_ids (bw_slack_seen w) then bw_bbs w' = bw_bbs w
          else posts_signed T R E (slack_inbound m board) (bw_bbs w) (bw_bbs w'))))"
  by (auto simp: deliver_slack_message_def seen_or_record_def Let_def post_inbound_signed split: option.splits)

lemma deliver_teams_cases:
  "deliver_teams_message T R E C m w = w \<or>
   (\<exists>spec board. be_var C ''AGENTBBS_TEAMS_CHANNEL_MAP'' = Some spec \<and>
     hm_get (teams_channel_map spec) (tm_conversation m) = Some board \<and>
     (let w' = deliver_teams_message T R E C m w
      in bw_teams_seen w' = (bw_teams_seen w)\<lparr>seen_ids := insert (teams_ext_id m) (seen_ids (bw_teams_seen w))\<rparr> \<and>
         (if teams_ext_id m \<in> seen_ids (bw_teams_seen w) then bw_bbs w' = bw_bbs w
          else posts_signed T R E (teams_inbound m board) (bw_bbs w) (bw_bbs w'))))"
  by (auto simp: deliver_teams_message_def seen_or_record_def Let_def post_inbound_signed split: option.splits)

text \<open>
  Requests to the three webhooks, and what they have to hold: an authentic request is one the
  platform's secret (or token) vouches for, and it carries a message for a board when its
  payload parses to one, the platform's allow-list maps its channel to the board, and the
  bridge's key is configured.
\<close>

datatype hook =
    SlackHook bridge_call headers string
  | WhatsappHook bridge_call headers string
  | TeamsHook bridge_call headers string

fun hook_step :: "'s store_ops \<Rightarrow> ('r \<Rightarrow> event \<Rightarrow> 'r result) \<Rightarrow> env \<Rightarrow> mac_env \<Rightarrow> ('s, 'r) bridge_web \<Rightarrow> hook
    \<Rightarrow> ('s, 'r) bridge_web" where
  "hook_step T R E M w (SlackHook C h body) = fst (api_slack_events T R E M C h body w)"
| "hook_step T R E M w (WhatsappHook C h body) = fst (api_whatsapp_events T R E M C h body w)"
| "hook_step T R E M w (TeamsHook C h body) = fst (api_teams_messages T R E C h body w)"

fun hook_authentic :: "env \<Rightarrow> mac_env \<Rightarrow> hook \<Rightarrow> bool" where
  "hook_authentic E M (SlackHook C h body) \<longleftrightarrow> (\<exists>secret. be_var C ''AGENTBBS_SLACK_SIGNING_SECRET'' = Some secret \<and>
     secret \<noteq> [] \<and> slack_verify_signature E M secret (header_or_empty h ''x-slack-request-timestamp'') body
       (header_or_empty h ''x-slack-signature'') (be_now C))"
| "hook_authentic E M (WhatsappHook C h body) \<longleftrightarrow> (\<exists>secret. be_var C ''AGENTBBS_WHATSAPP_APP_SECRET'' = Some secret \<and>
     secret \<noteq> [] \<and> whatsapp_verify_signature E M secret body (header_or_empty h ''x-hub-signature-256''))"
| "hook_authentic E M (TeamsHook C h body) \<longleftrightarrow> (\<exists>app_id issuer pem. be_var C ''AGENTBBS_TEAMS_APP_ID'' = Some app_id \<and>
     be_var C ''AGENTBBS_TEAMS_JWT_ISSUER'' = Some issuer \<and> be_var C ''AGENTBBS_TEAMS_JWT_PUBKEY_PEM'' = Some pem \<and>
     app_id \<noteq> [] \<and> issuer \<noteq> [] \<and> pem \<noteq> [] \<and> be_jwt_ok C (bearer_token h) pem issuer app_id)"

definition slack_route :: "env \<Rightarrow> bridge_call \<Rightarrow> slack_message \<Rightarrow> bridge_identity \<Rightarrow> inbound \<Rightarrow> bool" where
  "slack_route E C m b i \<longleftrightarrow> (\<exists>spec board. be_var C ''AGENTBBS_SLACK_CHANNEL_MAP'' = Some spec \<and>
     hm_get (slack_channel_map spec) (sl_channel m) = Some board \<and>
     bridge_of E C ''AGENTBBS_SLACK_BRIDGE_SEED_HEX'' = Some b \<and> i = slack_inbound m board)"

definition whatsapp_route :: "env \<Rightarrow> bridge_call \<Rightarrow> whatsapp_message \<Rightarrow> bridge_identity \<Rightarrow> inbound \<Rightarrow> bool" where
  "whatsapp_route E C m b i \<longleftrightarrow> (\<exists>spec board. be_var C ''AGENTBBS_WHATSAPP_NUMBER_MAP'' = Some spec \<and>
     hm_get (parse_number_map spec) (wm_phone_number_id m) = Some board \<and>
     bridge_of E C ''AGENTBBS_WHATSAPP_BRIDGE_SEED_HEX'' = Some b \<and> i = whatsapp_inbound m board)"

definition teams_route :: "env \<Rightarrow> bridge_call \<Rightarrow> teams_message \<Rightarrow> bridge_identity \<Rightarrow> inbound \<Rightarrow> bool" where
  "teams_route E C m b i \<longleftrightarrow> (\<exists>spec board. be_var C ''AGENTBBS_TEAMS_CHANNEL_MAP'' = Some spec \<and>
     hm_get (teams_channel_map spec) (tm_conversation m) = Some board \<and>
     bridge_of E C ''AGENTBBS_TEAMS_BRIDGE_SEED_HEX'' = Some b \<and> i = teams_inbound m board)"

fun hook_carries :: "env \<Rightarrow> mac_env \<Rightarrow> hook \<Rightarrow> bridge_identity \<Rightarrow> inbound \<Rightarrow> bool" where
  "hook_carries E M (SlackHook C h body) b i \<longleftrightarrow> hook_authentic E M (SlackHook C h body) \<and>
     (\<exists>payload m. be_json C body = Inr payload \<and> slack_parse_event payload = SlackMessage m \<and> slack_route E C m b i)"
| "hook_carries E M (WhatsappHook C h body) b i \<longleftrightarrow> hook_authentic E M (WhatsappHook C h body) \<and>
     (\<exists>payload. be_json C body = Inr payload \<and> (\<exists>m \<in> set (parse_messages payload). whatsapp_route E C m b i))"
| "hook_carries E M (TeamsHook C h body) b i \<longleftrightarrow> hook_authentic E M (TeamsHook C h body) \<and>
     (\<exists>payload m. be_json C body = Inr payload \<and> parse_activity payload = TeamsMessage m \<and> teams_route E C m b i)"

text \<open>The ids a platform has recorded, and what a stretch of deliveries posts and records.\<close>

definition platform_seen :: "('s, 'r) bridge_web \<Rightarrow> string \<Rightarrow> string set" where
  "platform_seen w p = (if p = ''slack'' then seen_ids (bw_slack_seen w)
     else if p = ''whatsapp'' then seen_ids (bw_whatsapp_seen w)
     else if p = ''teams'' then seen_ids (bw_teams_seen w) else {})"

type_synonym bridged = "inbound \<times> message \<times> time"

definition bridged_id :: "bridged \<Rightarrow> string \<times> string" where
  "bridged_id x = (in_platform (fst x), in_external_msg_id (fst x))"

definition post_bridged :: "'s store_ops \<Rightarrow> ('r \<Rightarrow> event \<Rightarrow> 'r result) \<Rightarrow> env \<Rightarrow> ('s, 'r) bbs \<Rightarrow> bridged list
    \<Rightarrow> ('s, 'r) bbs" where
  "post_bridged T R E bbs xs = foldl (\<lambda>b (i, m, t). fst (svc_post T R E t b (role_caps Agent) m)) bbs xs"

definition bridges where
  "bridges T R E w xs w' \<longleftrightarrow> bw_bbs w' = post_bridged T R E (bw_bbs w) xs \<and> distinct (map bridged_id xs) \<and>
     (\<forall>x \<in> set xs. in_external_msg_id (fst x) \<notin> platform_seen w (in_platform (fst x))) \<and>
     (\<forall>p. platform_seen w' p = platform_seen w p \<union> {k. (p, k) \<in> bridged_id ` set xs})"

lemma bridges_nil: "bw_bbs w' = bw_bbs w \<Longrightarrow> platform_seen w' = platform_seen w \<Longrightarrow> bridges T R E w [] w'"
  by (simp add: bridges_def post_bridged_def)

lemma bridges_append:
  assumes "bridges T R E w xs w1" "bridges T R E w1 ys w2"
  shows "bridges T R E w (xs @ ys) w2"
proof -
  have seen: "platform_seen w1 p = platform_seen w p \<union> {k. (p, k) \<in> bridged_id ` set xs}"
      "platform_seen w2 p = platform_seen w1 p \<union> {k. (p, k) \<in> bridged_id ` set ys}" for p
    using assms by (simp_all add: bridges_def)
  have fresh: "snd (bridged_id y) \<notin> platform_seen w1 (fst (bridged_id y))" if "y \<in> set ys" for y
    using assms(2) that by (auto simp: bridges_def bridged_id_def)
  then have "bridged_id y \<notin> bridged_id ` set xs" if "y \<in> set ys" for y
    using that unfolding seen(1) by (metis (no_types, lifting) UnI2 mem_Collect_eq prod.collapse)
  then have "set (map bridged_id xs) \<inter> set (map bridged_id ys) = {}" by fastforce
  then have "distinct (map bridged_id (xs @ ys))"
    using assms unfolding bridges_def map_append distinct_append by blast
  moreover have "snd (bridged_id y) \<notin> platform_seen w (fst (bridged_id y))" if "y \<in> set ys" for y
    using fresh[OF that] by (simp add: seen(1))
  ultimately show ?thesis
    using assms unfolding bridges_def bridged_id_def
    by (auto simp: post_bridged_def simp del: map_append)
qed

text \<open>One message of a platform: \<open>route\<close> says which key posts what for it.\<close>

definition delivered where
  "delivered T R E route w w' \<longleftrightarrow> (\<exists>xs. bridges T R E w xs w' \<and>
     (\<forall>(i, m, t) \<in> set xs. \<exists>b signed_at. route b i \<and> sign_inbound E b i signed_at = Inr m) \<and>
     (\<forall>b i. route b i \<longrightarrow> in_external_msg_id i \<in> platform_seen w' (in_platform i)))"

lemma delivered_same: "(\<nexists>b i. route b i) \<Longrightarrow> delivered T R E route w w"
  unfolding delivered_def by (intro exI[of _ "[]"]) (auto intro: bridges_nil)

lemma platform_seen_update [simp]:
  "platform_seen (w\<lparr>bw_bbs := b\<rparr>) = platform_seen w"
  "platform_seen (w\<lparr>bw_whatsapp_window := v\<rparr>) = platform_seen w"
  by (auto simp: platform_seen_def fun_eq_iff)

lemma delivered_one:
  assumes "\<And>b' i'. route b' i' \<longleftrightarrow> b' = b \<and> i' = i"
    and "platform_seen w' = (platform_seen w)(in_platform i := insert (in_external_msg_id i) (platform_seen w (in_platform i)))"
    and "bw_bbs w' = (if in_external_msg_id i \<in> platform_seen w (in_platform i) then bw_bbs w
      else post_inbound T R E signed_at posted_at b i (bw_bbs w))"
  shows "delivered T R E route w w'"
proof (cases "in_external_msg_id i \<in> platform_seen w (in_platform i)")
  case True
  with assms(2) have "platform_seen w' = platform_seen w" by (auto simp: insert_absorb)
  with True assms(1,3) show ?thesis
    unfolding delivered_def by (intro exI[of _ "[]"]) (auto intro: bridges_nil)
next
  case False
  obtain m where m: "sign_inbound E b i signed_at = Inr m" using sign_inbound_total by blast
  with False assms(3) have "bw_bbs w' = post_bridged T R E (bw_bbs w) [(i, m, posted_at)]"
    by (simp add: post_bridged_def post_inbound_def)
  with False assms(2) have "bridges T R E w [(i, m, posted_at)] w'"
    by (auto simp: bridges_def bridged_id_def)
  with m assms(1,2) show ?thesis
    unfolding delivered_def by (intro exI[of _ "[(i, m, posted_at)]"]) auto
qed

lemma deliver_slack_delivered:
  "delivered T R E (slack_route E C m) w (deliver_slack_message T R E C m w)"
proof (cases "\<exists>b i. slack_route E C m b i")
  case True
  then obtain spec board b where r: "be_var C ''AGENTBBS_SLACK_CHANNEL_MAP'' = Some spec"
      "hm_get (slack_channel_map spec) (sl_channel m) = Some board"
      "bridge_of E C ''AGENTBBS_SLACK_BRIDGE_SEED_HEX'' = Some b"
    by (auto simp: slack_route_def)
  show ?thesis
    by (rule delivered_one[where b = b and i = "slack_inbound m board" and signed_at = "be_signed C 0" and posted_at = "be_posted C 0"])
       (auto simp: r slack_route_def deliver_slack_message_def seen_or_record_def slack_inbound_def
         platform_seen_def fun_eq_iff Let_def)
next
  case False
  then have "deliver_slack_message T R E C m w = w"
    by (auto simp: deliver_slack_message_def slack_route_def split: option.splits)
  with False show ?thesis by (simp add: delivered_same)
qed

lemma deliver_teams_delivered:
  "delivered T R E (teams_route E C m) w (deliver_teams_message T R E C m w)"
proof (cases "\<exists>b i. teams_route E C m b i")
  case True
  then obtain spec board b where r: "be_var C ''AGENTBBS_TEAMS_CHANNEL_MAP'' = Some spec"
      "hm_get (teams_channel_map spec) (tm_conversation m) = Some board"
      "bridge_of E C ''AGENTBBS_TEAMS_BRIDGE_SEED_HEX'' = Some b"
    by (auto simp: teams_route_def)
  show ?thesis
    by (rule delivered_one[where b = b and i = "teams_inbound m board" and signed_at = "be_signed C 0" and posted_at = "be_posted C 0"])
       (auto simp: r teams_route_def deliver_teams_message_def seen_or_record_def teams_inbound_def
         platform_seen_def fun_eq_iff Let_def)
next
  case False
  then have "deliver_teams_message T R E C m w = w"
    by (auto simp: deliver_teams_message_def teams_route_def split: option.splits)
  with False show ?thesis by (simp add: delivered_same)
qed

lemma deliver_whatsapp_delivered:
  "delivered T R E (whatsapp_route E C m) w (deliver_whatsapp_message T R E C n m w)"
proof (cases "\<exists>b i. whatsapp_route E C m b i")
  case True
  then obtain spec board b where r: "be_var C ''AGENTBBS_WHATSAPP_NUMBER_MAP'' = Some spec"
      "hm_get (parse_number_map spec) (wm_phone_number_id m) = Some board"
      "bridge_of E C ''AGENTBBS_WHATSAPP_BRIDGE_SEED_HEX'' = Some b"
    by (auto simp: whatsapp_route_def)
  show ?thesis
    by (rule delivered_one[where b = b and i = "whatsapp_inbound m board" and signed_at = "be_signed C n" and posted_at = "be_posted C n"])
       (auto simp: r whatsapp_route_def deliver_whatsapp_message_def seen_or_record_def whatsapp_inbound_def
         platform_seen_def fun_eq_iff Let_def)
next
  case False
  then have "deliver_whatsapp_message T R E C n m w = w"
    by (auto simp: deliver_whatsapp_message_def whatsapp_route_def split: option.splits)
  with False show ?thesis by (simp add: delivered_same)
qed

text \<open>One after another.\<close>

lemma delivered_seq:
  assumes "delivered T R E r1 w w1" "delivered T R E r2 w1 w2"
  shows "delivered T R E (\<lambda>b i. r1 b i \<or> r2 b i) w w2"
proof -
  obtain xs where xs: "bridges T R E w xs w1"
      "\<forall>(i, m, t) \<in> set xs. \<exists>b signed_at. r1 b i \<and> sign_inbound E b i signed_at = Inr m"
      "\<forall>b i. r1 b i \<longrightarrow> in_external_msg_id i \<in> platform_seen w1 (in_platform i)"
    using assms(1) by (auto simp: delivered_def)
  obtain ys where ys: "bridges T R E w1 ys w2"
      "\<forall>(i, m, t) \<in> set ys. \<exists>b signed_at. r2 b i \<and> sign_inbound E b i signed_at = Inr m"
      "\<forall>b i. r2 b i \<longrightarrow> in_external_msg_id i \<in> platform_seen w2 (in_platform i)"
    using assms(2) by (auto simp: delivered_def)
  have "\<forall>(i, m, t) \<in> set (xs @ ys). \<exists>b signed_at. (r1 b i \<or> r2 b i) \<and> sign_inbound E b i signed_at = Inr m"
    using xs(2) ys(2) by fastforce
  moreover have "\<forall>b i. r1 b i \<or> r2 b i \<longrightarrow> in_external_msg_id i \<in> platform_seen w2 (in_platform i)"
    using xs(3) ys(3) ys(1) by (auto simp: bridges_def)
  ultimately show ?thesis
    unfolding delivered_def using bridges_append[OF xs(1) ys(1)] by blast
qed

lemma delivered_cong: "delivered T R E r1 w w' \<Longrightarrow> r1 = r2 \<Longrightarrow> delivered T R E r2 w w'"
  by simp

lemma deliver_whatsapp_from_delivered:
  "delivered T R E (\<lambda>b i. \<exists>m \<in> set ms. whatsapp_route E C m b i) w (deliver_whatsapp_from T R E C n ms w)"
proof (induction ms arbitrary: n w)
  case Nil
  then show ?case by (simp add: delivered_same)
next
  case (Cons m ms)
  show ?case
    unfolding deliver_whatsapp_from.simps
    by (rule delivered_cong[OF delivered_seq[OF deliver_whatsapp_delivered Cons.IH]]) (auto simp: fun_eq_iff)
qed

lemma hook_unauthentic: "\<not> hook_authentic E M ev \<Longrightarrow> hook_step T R E M w ev = w"
proof (cases ev)
  case (SlackHook C h body)
  assume "\<not> hook_authentic E M ev"
  then show ?thesis
    by (cases "be_var C ''AGENTBBS_SLACK_SIGNING_SECRET''") (auto simp: SlackHook api_slack_events_def Let_def)
next
  case (WhatsappHook C h body)
  assume "\<not> hook_authentic E M ev"
  then show ?thesis
    by (cases "be_var C ''AGENTBBS_WHATSAPP_APP_SECRET''") (auto simp: WhatsappHook api_whatsapp_events_def Let_def)
next
  case (TeamsHook C h body)
  assume "\<not> hook_authentic E M ev"
  then show ?thesis
    by (cases "be_var C ''AGENTBBS_TEAMS_APP_ID''"; cases "be_var C ''AGENTBBS_TEAMS_JWT_ISSUER''";
        cases "be_var C ''AGENTBBS_TEAMS_JWT_PUBKEY_PEM''") (auto simp: TeamsHook api_teams_messages_def Let_def)
qed

lemma hook_delivered:
  assumes "hook_authentic E M ev"
  shows "delivered T R E (hook_carries E M ev) w (hook_step T R E M w ev)"
proof (cases ev)
  case (SlackHook C h body)
  from assms have st: "hook_step T R E M w ev = (case be_json C body of Inl e \<Rightarrow> w | Inr payload \<Rightarrow>
      (case slack_parse_event payload of SlackMessage m \<Rightarrow> deliver_slack_message T R E C m w | _ \<Rightarrow> w))"
    by (auto simp: SlackHook api_slack_events_def Let_def split: sum.splits slack_event.splits)
  have route: "hook_carries E M ev = (case be_json C body of Inl e \<Rightarrow> (\<lambda>_ _. False) | Inr payload \<Rightarrow>
      (case slack_parse_event payload of SlackMessage m \<Rightarrow> slack_route E C m | _ \<Rightarrow> (\<lambda>_ _. False)))"
    using assms by (auto simp: SlackHook fun_eq_iff split: sum.splits slack_event.splits)
  show ?thesis
    unfolding st route by (auto simp: delivered_same deliver_slack_delivered split: sum.splits slack_event.splits)
next
  case (WhatsappHook C h body)
  from assms have st: "hook_step T R E M w ev = (case be_json C body of Inl e \<Rightarrow> w | Inr payload \<Rightarrow>
      deliver_whatsapp_from T R E C 0 (parse_messages payload) w)"
    by (auto simp: WhatsappHook api_whatsapp_events_def Let_def split: sum.splits)
  have route: "hook_carries E M ev = (case be_json C body of Inl e \<Rightarrow> (\<lambda>_ _. False) | Inr payload \<Rightarrow>
      (\<lambda>b i. \<exists>m \<in> set (parse_messages payload). whatsapp_route E C m b i))"
    using assms by (auto simp: WhatsappHook fun_eq_iff split: sum.splits)
  show ?thesis
    unfolding st route by (auto simp: delivered_same deliver_whatsapp_from_delivered split: sum.splits)
next
  case (TeamsHook C h body)
  from assms have st: "hook_step T R E M w ev = (case be_json C body of Inl e \<Rightarrow> w | Inr payload \<Rightarrow>
      (case parse_activity payload of TeamsMessage m \<Rightarrow> deliver_teams_message T R E C m w | _ \<Rightarrow> w))"
    by (auto simp: TeamsHook api_teams_messages_def Let_def split: sum.splits teams_event.splits)
  have route: "hook_carries E M ev = (case be_json C body of Inl e \<Rightarrow> (\<lambda>_ _. False) | Inr payload \<Rightarrow>
      (case parse_activity payload of TeamsMessage m \<Rightarrow> teams_route E C m | _ \<Rightarrow> (\<lambda>_ _. False)))"
    using assms by (auto simp: TeamsHook fun_eq_iff split: sum.splits teams_event.splits)
  show ?thesis
    unfolding st route by (auto simp: delivered_same deliver_teams_delivered split: sum.splits teams_event.splits)
qed

lemma hook_step_delivered: "delivered T R E (hook_carries E M ev) w (hook_step T R E M w ev)"
proof (cases "hook_authentic E M ev")
  case True
  then show ?thesis by (rule hook_delivered)
next
  case False
  then have "\<nexists>b i. hook_carries E M ev b i" by (cases ev) auto
  with False show ?thesis by (simp add: hook_unauthentic delivered_same)
qed

lemma hooks_delivered:
  "delivered T R E (\<lambda>b i. \<exists>ev \<in> set evs. hook_carries E M ev b i) w (foldl (hook_step T R E M) w evs)"
proof (induction evs arbitrary: w)
  case Nil
  then show ?case by (simp add: delivered_same)
next
  case (Cons ev evs)
  show ?case
    unfolding foldl.simps
    by (rule delivered_cong[OF delivered_seq[OF hook_step_delivered Cons.IH]]) (auto simp: fun_eq_iff)
qed

lemma hooks_authentic:
  "foldl (hook_step T R E M) w evs = foldl (hook_step T R E M) w (filter (hook_authentic E M) evs)"
  by (induction evs arbitrary: w) (simp_all add: hook_unauthentic)

text \<open>
  Property C23. What a history of webhook requests does. Requests that are not authentic change
  nothing at all. What the others do to the boards is exactly a sequence of posts through the
  service with an agent's capabilities, and each of them is of a message that an authentic
  request of the history carried: it is signed with the bridge's key for the platform and
  workspace it came from, has its text, and goes to the board the allow-list maps its channel
  to. No message id of a platform is posted twice, none that was on record before is posted,
  and every message carried by an authentic request is on record afterwards, so it was posted
  or its id had been there before.
\<close>

theorem webhooks_act_only_authenticated:
  "foldl (hook_step T R E M) w evs = foldl (hook_step T R E M) w (filter (hook_authentic E M) evs) \<and>
   (\<exists>xs. bw_bbs (foldl (hook_step T R E M) w evs) =
        foldl (\<lambda>bbs (i, m, t). fst (svc_post T R E t bbs (role_caps Agent) m)) (bw_bbs w) xs \<and>
      (\<forall>(i, m, t) \<in> set xs. (\<exists>b. (\<exists>ev \<in> set evs. hook_carries E M ev b i) \<and>
         mb_author (msg_body m) = ident (subkey E b (in_platform i @ '':'' @ in_workspace i)) \<and>
         (\<exists>signed_at. message_sign E (subkey E b (in_platform i @ '':'' @ in_workspace i))
            (inbound_body E b i signed_at) = Inr m)) \<and>
         mb_board (msg_body m) = in_board i \<and> mb_body (msg_body m) = in_text i \<and>
         in_external_msg_id i \<notin> platform_seen w (in_platform i)) \<and>
      distinct (map (\<lambda>(i, m, t). (in_platform i, in_external_msg_id i)) xs) \<and>
      (\<forall>ev \<in> set evs. \<forall>b i. hook_carries E M ev b i \<longrightarrow> in_external_msg_id i \<in> platform_seen w (in_platform i) \<or>
         (in_platform i, in_external_msg_id i) \<in> set (map (\<lambda>(i, m, t). (in_platform i, in_external_msg_id i)) xs)))"
proof -
  let ?w' = "foldl (hook_step T R E M) w evs"
  obtain xs where xs: "bridges T R E w xs ?w'"
      "\<forall>(i, m, t) \<in> set xs. \<exists>b signed_at. (\<exists>ev \<in> set evs. hook_carries E M ev b i) \<and> sign_inbound E b i signed_at = Inr m"
      "\<forall>b i. (\<exists>ev \<in> set evs. hook_carries E M ev b i) \<longrightarrow> in_external_msg_id i \<in> platform_seen ?w' (in_platform i)"
    using hooks_delivered[of T R E evs M w] by (auto simp: delivered_def)
  have ids: "map (\<lambda>(i, m, t). (in_platform i, in_external_msg_id i)) xs = map bridged_id xs"
    by (auto simp: bridged_id_def)
  have "\<forall>(i, m, t) \<in> set xs. (\<exists>b. (\<exists>ev \<in> set evs. hook_carries E M ev b i) \<and>
         mb_author (msg_body m) = ident (subkey E b (in_platform i @ '':'' @ in_workspace i)) \<and>
         (\<exists>signed_at. message_sign E (subkey E b (in_platform i @ '':'' @ in_workspace i))
            (inbound_body E b i signed_at) = Inr m)) \<and>
         mb_board (msg_body m) = in_board i \<and> mb_body (msg_body m) = in_text i \<and>
         in_external_msg_id i \<notin> platform_seen w (in_platform i)"
  proof (safe, goal_cases)
    case (1 i m t)
    then obtain b signed_at where s: "\<exists>ev \<in> set evs. hook_carries E M ev b i" "sign_inbound E b i signed_at = Inr m"
      using xs(2) by fastforce
    then have "msg_body m = inbound_body E b i signed_at" by (simp add: sign_inbound_Inr)
    with s show ?case by (auto simp: sign_inbound_def inbound_source_def inbound_body_def)
  next
    case (2 i m t)
    then show ?case using xs(2) by (fastforce simp: sign_inbound_Inr inbound_body_def)
  next
    case (3 i m t)
    then show ?case using xs(2) by (fastforce simp: sign_inbound_Inr inbound_body_def)
  next
    case (4 i m t)
    then show ?case using xs(1) by (fastforce simp: bridges_def)
  qed
  moreover have "\<forall>ev \<in> set evs. \<forall>b i. hook_carries E M ev b i \<longrightarrow> in_external_msg_id i \<in> platform_seen w (in_platform i) \<or>
      (in_platform i, in_external_msg_id i) \<in> set (map bridged_id xs)"
    using xs(1,3) by (auto simp: bridges_def)
  ultimately show ?thesis
    using hooks_authentic[of T R E M w evs] xs(1)
    by (intro conjI exI[of _ xs]) (simp_all only: ids bridges_def post_bridged_def)
qed

text \<open>
  A redelivered message is posted at most once, since its id is recorded before it is posted;
  for the same reason a message whose post was refused is lost, however often it is delivered
  again and whatever has changed.
\<close>

theorem redelivery_never_posts:
  assumes "be_var C ''AGENTBBS_SLACK_CHANNEL_MAP'' = Some spec" "hm_get (slack_channel_map spec) (sl_channel m) = Some board"
    and "bridge_of E C ''AGENTBBS_SLACK_BRIDGE_SEED_HEX'' = Some b"
    and "bw_bbs w' = bbs" "bw_slack_seen w' = bw_slack_seen (deliver_slack_message T R E C m w)"
  shows "bw_bbs (deliver_slack_message T R E C' m w') = bbs"
proof -
  have "slack_ext_id m \<in> seen_ids (bw_slack_seen w')"
    using assms by (simp add: deliver_slack_message_def seen_or_record_def Let_def)
  then show ?thesis
    using deliver_slack_cases[of T R E C' m w'] assms(4) by (auto simp: Let_def)
qed

text \<open>
  A WhatsApp message is posted under its sender's phone number: the posted
  message carries the number in its handle and in its subject, and the key that signs it is
  derived from the business number, not from the sender's.
\<close>

theorem whatsapp_sender_is_published:
  assumes "be_var C ''AGENTBBS_WHATSAPP_NUMBER_MAP'' = Some spec"
    and "hm_get (parse_number_map spec) (wm_phone_number_id m) = Some board"
    and "bridge_of E C ''AGENTBBS_WHATSAPP_BRIDGE_SEED_HEX'' = Some b"
    and "whatsapp_ext_id m \<notin> seen_ids (bw_whatsapp_seen w)"
  shows "\<exists>posted. bw_bbs (deliver_whatsapp_message T R E C n m w) =
      fst (svc_post T R E (be_posted C n) (bw_bbs w) (role_caps Agent) posted) \<and>
    mb_board (msg_body posted) = board \<and> mb_body (msg_body posted) = wm_text m \<and>
    mb_handle (msg_body posted) = ''bridge:whatsapp:'' @ wm_from m \<and>
    mb_subject (msg_body posted) = wm_from m @ ''@'' @ wm_phone_number_id m \<and>
    mb_author (msg_body posted) = ident (subkey E b (''whatsapp:'' @ wm_phone_number_id m))"
proof -
  obtain posted where posted: "sign_inbound E b (whatsapp_inbound m board) (be_signed C n) = Inr posted"
    using sign_inbound_total by blast
  then have body: "msg_body posted = inbound_body E b (whatsapp_inbound m board) (be_signed C n)"
    by (simp add: sign_inbound_Inr)
  have "bw_bbs (deliver_whatsapp_message T R E C n m w) =
      fst (svc_post T R E (be_posted C n) (bw_bbs w) (role_caps Agent) posted)"
    using assms posted by (simp add: deliver_whatsapp_message_def seen_or_record_def Let_def post_inbound_def)
  then show ?thesis
    by (intro exI[of _ posted]) (simp add: body inbound_body_def whatsapp_inbound_def inbound_source_def)
qed

definition demo_call :: bridge_call where
  "demo_call = \<lparr>be_var = (\<lambda>v. if v = ''AGENTBBS_WHATSAPP_NUMBER_MAP'' then Some ''10:lobby''
        else if v = ''AGENTBBS_WHATSAPP_BRIDGE_SEED_HEX'' then Some (hex_enc demo_env (demo_seed 1)) else None),
     be_now = 0, be_recorded = (\<lambda>_. 0), be_signed = (\<lambda>_. 0), be_posted = (\<lambda>_. 0), be_json = (\<lambda>_. Inl []),
     be_jwt_ok = (\<lambda>_ _ _ _. False)\<rparr>"

definition demo_whatsapp :: whatsapp_message where
  "demo_whatsapp = \<lparr>wm_phone_number_id = ''10'', wm_from = ''155'', wm_id = ''i'', wm_text = ''hi''\<rparr>"

definition demo_bridge_web :: "(memory_store, memory_reporter) bridge_web" where
  "demo_bridge_web = \<lparr>bw_bbs = with_memory_reporter memory_store_new, bw_slack_seen = seen_set_new, bw_whatsapp_seen = seen_set_new,
     bw_teams_seen = seen_set_new, bw_whatsapp_window = session_window_new\<rparr>"

lemma demo_call_bridge: "bridge_of demo_env demo_call ''AGENTBBS_WHATSAPP_BRIDGE_SEED_HEX'' = Some \<lparr>bi_root_seed = demo_seed 1\<rparr>"
proof -
  have "parse_seed_hex demo_env (hex_enc demo_env (demo_seed 1)) = Some (demo_seed 1)"
    using demo_hex_ok by (simp add: parse_seed_hex_def trim_hex hex_ok_def)
  then show ?thesis by (simp add: bridge_of_def demo_call_def)
qed

lemma demo_call_map: "be_var demo_call ''AGENTBBS_WHATSAPP_NUMBER_MAP'' = Some ''10:lobby''"
    "hm_get (parse_number_map ''10:lobby'') (wm_phone_number_id demo_whatsapp) = Some ''lobby''"
  by (simp add: demo_call_def, code_simp)

text \<open>A signed WhatsApp request with one text message, to a server with the open board.\<close>

definition demo_payload :: json where
  "demo_payload = JObj [(''entry'', JArr [JObj [(''changes'', JArr [JObj [(''value'', JObj
     [(''metadata'', JObj [(''phone_number_id'', JStr ''10'')]),
      (''messages'', JArr [JObj [(''type'', JStr ''text''), (''from'', JStr ''155''), (''id'', JStr ''i''),
         (''text'', JObj [(''body'', JStr ''hi'')])]])])]])]])]"

definition demo_hook :: hook where
  "demo_hook = WhatsappHook
     (demo_call\<lparr>be_var := (be_var demo_call)(''AGENTBBS_WHATSAPP_APP_SECRET'' \<mapsto> ''k''),
        be_json := (\<lambda>_. Inr demo_payload)\<rparr>)
     [''x-hub-signature-256'' \<mapsto> ''sha256='' @ hex_enc demo_env (hmac_sha256 demo_mac ''k'' ''body'')] ''body''"

lemma demo_payload_messages: "parse_messages demo_payload = [demo_whatsapp]"
  by code_simp

lemma demo_hook_carries:
  "hook_carries demo_env demo_mac demo_hook \<lparr>bi_root_seed = demo_seed 1\<rparr> (whatsapp_inbound demo_whatsapp ''lobby'')"
proof -
  have prefix: "to_str_ok ''sha256=''" by code_simp
  then have "to_str_ok (''sha256='' @ hex_enc demo_env b)" for b
    using to_str_ok_hex[OF demo_hex_ok, of b] by (simp add: to_str_ok_def)
  moreover have "hex_dec demo_env (hex_enc demo_env b) = Inr b" for b
    using demo_hex_ok by (simp add: hex_ok_def)
  moreover have "strip_prefix ''sha256='' (''sha256='' @ b) = Some b" for b
    by (simp add: strip_prefix_def)
  ultimately have auth: "hook_authentic demo_env demo_mac demo_hook"
    by (simp add: demo_hook_def whatsapp_verify_signature_def header_or_empty_def header_str_def)
  have route: "whatsapp_route demo_env (demo_call\<lparr>be_var := (be_var demo_call)(''AGENTBBS_WHATSAPP_APP_SECRET'' \<mapsto> ''k''),
        be_json := (\<lambda>_. Inr demo_payload)\<rparr>) demo_whatsapp \<lparr>bi_root_seed = demo_seed 1\<rparr> (whatsapp_inbound demo_whatsapp ''lobby'')"
    using demo_call_map demo_call_bridge by (auto simp: whatsapp_route_def bridge_of_def)
  show ?thesis
    using auth route by (simp add: demo_hook_def demo_payload_messages)
qed

theorem webhooks_act_only_authenticated_witness:
  "\<exists>(i :: inbound) (m :: message) t rest. bw_bbs (foldl (hook_step memory_ops mr_report demo_env demo_mac) demo_bridge_web [demo_hook, demo_hook]) =
      foldl (\<lambda>bbs (i, m, t). fst (svc_post memory_ops mr_report demo_env t bbs (role_caps Agent) m)) (bw_bbs demo_bridge_web)
        ((i, m, t) # rest) \<and>
    mb_board (msg_body m) = in_board i \<and> mb_body (msg_body m) = in_text i \<and>
    (\<exists>b. mb_author (msg_body m) = ident (subkey demo_env b (in_platform i @ '':'' @ in_workspace i)))"
proof -
  have unseen: "in_external_msg_id (whatsapp_inbound demo_whatsapp ''lobby'') \<notin>
      platform_seen demo_bridge_web (in_platform (whatsapp_inbound demo_whatsapp ''lobby''))"
    by (simp add: demo_bridge_web_def seen_set_new_def platform_seen_def)
  from webhooks_act_only_authenticated[of memory_ops mr_report demo_env demo_mac demo_bridge_web "[demo_hook, demo_hook]",
      THEN conjunct2]
  show ?thesis
  proof (elim conjE exE, goal_cases)
    case (1 xs)
    from 1(4) demo_hook_carries unseen have "xs \<noteq> []" by fastforce
    then obtain i m t rest where xs: "xs = (i, m, t) # rest" by (cases xs) auto
    from 1(2) have "mb_board (msg_body m) = in_board i \<and> mb_body (msg_body m) = in_text i \<and>
        (\<exists>b. mb_author (msg_body m) = ident (subkey demo_env b (in_platform i @ '':'' @ in_workspace i)))"
      by (auto simp: xs)
    with 1(1) show ?case unfolding xs by blast
  qed
qed

section \<open>What the mirror can do\<close>

lemma window_recorded:
  assumes "hm_get (sw_last_inbound (bw_whatsapp_window (deliver_whatsapp_message T R E C n m w))) k = Some t"
  shows "hm_get (sw_last_inbound (bw_whatsapp_window w)) k = Some t \<or> wm_from m = k \<and> t = timestamp (be_recorded C n)"
  using assms
  by (auto simp: deliver_whatsapp_message_def seen_or_record_def Let_def window_record_def
      split: option.splits if_splits)

abbreviation deliveries :: "'s store_ops \<Rightarrow> ('r \<Rightarrow> event \<Rightarrow> 'r result) \<Rightarrow> env
    \<Rightarrow> (bridge_call \<times> nat \<times> whatsapp_message) list \<Rightarrow> ('s, 'r) bridge_web \<Rightarrow> ('s, 'r) bridge_web" where
  "deliveries T R E ds w \<equiv> foldl (\<lambda>w (C, n, m). deliver_whatsapp_message T R E C n m w) w ds"

lemma windows_recorded:
  assumes "hm_get (sw_last_inbound (bw_whatsapp_window (deliveries T R E ds w))) k = Some t"
    and "bw_whatsapp_window w = session_window_new"
  shows "\<exists>(C, n, m) \<in> set ds. wm_from m = k \<and> t = timestamp (be_recorded C n)"
  using assms
proof (induction ds arbitrary: t rule: rev_induct)
  case Nil
  then show ?case by (simp add: session_window_new_def)
next
  case (snoc d ds)
  obtain C n m where d: "d = (C, n, m)" by (cases d)
  with snoc.prems(1) have "hm_get (sw_last_inbound (bw_whatsapp_window (deliveries T R E ds w))) k = Some t \<or>
      wm_from m = k \<and> t = timestamp (be_recorded C n)"
    by (intro window_recorded[of T R E C n m]) simp
  then show ?case using snoc.IH[OF _ snoc.prems(2)] d by auto
qed

lemma webhook_post_target: "p \<in> set (webhook_post t payload url) \<Longrightarrow> op_target p = t"
  by (cases url) (simp_all add: webhook_post_def)

lemma whatsapp_post_payload:
  "p \<in> set (whatsapp_post E m target) \<Longrightarrow> \<exists>k. op_payload p = format_whatsapp E m k"
  by (cases target) (auto simp: whatsapp_post_def)

lemma bridge_plan_whatsapp:
  assumes "p \<in> set (bridge_plan E config m)" and "op_target p = WhatsApp"
  shows "\<not> is_bridged m \<and> (\<exists>k. op_payload p = format_whatsapp E m k)"
  using assms whatsapp_post_payload
  by (auto simp: bridge_plan_def split: if_splits option.splits dest: webhook_post_target)

text \<open>
  A board message is mirrored to a phone number only within a day of a message
  from it: after any deliveries, what the mirror plans is a WhatsApp text to a number from
  which one of them was recorded at most 24 hours before and not after the clock; bridged
  messages are not mirrored.
\<close>

theorem whatsapp_mirrors_only_recent_senders:
  assumes "p \<in> set (plan_whatsapp_outbound E config (bw_whatsapp_window (deliveries T R E ds w)) msg now)"
    and "bw_whatsapp_window w = session_window_new"
  shows "op_target p = WhatsApp \<and> \<not> is_bridged msg \<and>
    (\<exists>(C, n, m) \<in> set ds. op_payload p = format_whatsapp E msg (wm_from m) \<and>
      timestamp (be_recorded C n) \<le> now \<and> now - timestamp (be_recorded C n) \<le> 86400)"
proof -
  let ?win = "bw_whatsapp_window (deliveries T R E ds w)"
  from assms(1) have p: "p \<in> set (bridge_plan E config msg)" "op_target p = WhatsApp"
    and to: "\<exists>k. as_str (jindex (op_payload p) ''to'') = Some k \<and> window_is_open ?win k now WHATSAPP_SESSION_WINDOW_SECS"
    by (auto simp: plan_whatsapp_outbound_def split: option.splits)
  from bridge_plan_whatsapp[OF p] obtain k where payload: "op_payload p = format_whatsapp E msg k" and b: "\<not> is_bridged msg"
    by blast
  have "as_str (jindex (format_whatsapp E msg k) ''to'') = Some k" for k
    by (simp add: format_whatsapp_def jindex_def json_get_def as_str_def)
  with to payload have "window_is_open ?win k now WHATSAPP_SESSION_WINDOW_SECS" by auto
  then obtain t where t: "hm_get (sw_last_inbound ?win) k = Some t" "0 \<le> now - t" "now - t \<le> 86400"
    by (auto simp: window_is_open_def Let_def WHATSAPP_SESSION_WINDOW_SECS_def split: option.splits)
  from windows_recorded[OF t(1) assms(2)] obtain C n m where
    "(C, n, m) \<in> set ds" "wm_from m = k" "t = timestamp (be_recorded C n)" by blast
  with t(2,3) payload have "\<exists>(C, n, m) \<in> set ds. op_payload p = format_whatsapp E msg (wm_from m) \<and>
      timestamp (be_recorded C n) \<le> now \<and> now - timestamp (be_recorded C n) \<le> 86400"
    by (intro bexI[of _ "(C, n, m)"]) simp_all
  with p(2) b show ?thesis by blast
qed

text \<open>One delivery from a number a board is mirrored to, and a reply a second later.\<close>

definition demo_mirror :: bridge_config where
  "demo_mirror = \<lparr>bc_mappings = [\<lparr>bm_board = ''lobby'', bm_slack_webhook = None, bm_teams_webhook = None,
     bm_discord_webhook = None,
     bm_whatsapp = Some \<lparr>wt_phone_number_id = ''10'', wt_recipient = ''155'', wt_token_env = ''T''\<rparr>\<rparr>]\<rparr>"

definition demo_answer :: message where
  "demo_answer = \<lparr>msg_id = MessageId [],
     msg_body = \<lparr>mb_board = ''lobby'', mb_parent = None, mb_subject = [], mb_body = ''hello'',
       mb_author = ident (demo_id 2), mb_handle = ''ann'', mb_created_at = 1, mb_kind = Post\<rparr>,
     msg_signature = SignatureBytes []\<rparr>"

lemma demo_window:
  "hm_get (sw_last_inbound (bw_whatsapp_window (deliver_whatsapp_message memory_ops mr_report demo_env demo_call 0
     demo_whatsapp demo_bridge_web))) ''155'' = Some 0"
  using demo_call_map demo_call_bridge
  by (simp add: deliver_whatsapp_message_def seen_or_record_def demo_bridge_web_def seen_set_new_def Let_def
      window_record_def session_window_new_def demo_whatsapp_def demo_call_def timestamp_def)

theorem whatsapp_mirrors_only_recent_senders_witness:
  "\<exists>p. p \<in> set (plan_whatsapp_outbound demo_env demo_mirror
      (bw_whatsapp_window (deliveries memory_ops mr_report demo_env [(demo_call, 0, demo_whatsapp)] demo_bridge_web))
      demo_answer 1) \<and> op_target p = WhatsApp \<and> op_payload p = format_whatsapp demo_env demo_answer ''155''"
proof -
  let ?plan = "plan_whatsapp_outbound demo_env demo_mirror
      (bw_whatsapp_window (deliveries memory_ops mr_report demo_env [(demo_call, 0, demo_whatsapp)] demo_bridge_web))
      demo_answer 1"
  have "hm_get (sw_last_inbound (bw_whatsapp_window (deliveries memory_ops mr_report demo_env
      [(demo_call, 0, demo_whatsapp)] demo_bridge_web))) ''155'' = Some 0"
    using demo_window by simp
  then have "?plan \<noteq> []"
    by (simp add: plan_whatsapp_outbound_def bridge_plan_def is_bridged_def demo_answer_def demo_mirror_def mapping_for_def
        webhook_post_def whatsapp_post_def format_whatsapp_def jindex_def json_get_def as_str_def window_is_open_def
        WHATSAPP_SESSION_WINDOW_SECS_def Let_def)
  then obtain p where p: "p \<in> set ?plan" by (meson list.set_sel(1))
  have "bw_whatsapp_window demo_bridge_web = session_window_new" by (simp add: demo_bridge_web_def)
  from whatsapp_mirrors_only_recent_senders[OF p this] have "op_target p = WhatsApp"
    "op_payload p = format_whatsapp demo_env demo_answer (wm_from demo_whatsapp)" by auto
  with p show ?thesis by (auto simp: demo_whatsapp_def)
qed

end
