(* ===== verification/Web_Agent_Reply.thy ===== *)
theory Web_Agent_Reply
  imports Web_Bridges Web_Agents Tools Float64 Ratelimit
begin

text \<open>
  How the web server answers for its built-in agents (\<open>agentbbs-web/src/lib.rs\<close>): mentions in a
  post, the daily budget of live answers, the language-model gateway and its scripted fallback.
  The environment, the gateway and the Unicode class of alphanumeric characters are arguments.
\<close>

section \<open>Characters\<close>

text \<open>The characters of a UTF-8 string, each as its bytes.\<close>

definition utf8_follow :: "char \<Rightarrow> nat" where
  "utf8_follow c = (let n = (of_char c :: nat) in
     if n < 192 then 0 else if n < 224 then 1 else if n < 240 then 2 else 3)"

function utf8_chars :: "string \<Rightarrow> string list" where
  "utf8_chars [] = []"
| "utf8_chars (c # cs) = (c # take (utf8_follow c) cs) # utf8_chars (drop (utf8_follow c) cs)"
  by pat_completeness auto
termination
  by (relation "measure length") (simp_all add: less_Suc_eq_le)

text \<open>\<open>char::is_alphanumeric\<close>; beyond ASCII the class of the Unicode tables, an argument.\<close>

definition ascii_alnum :: "char \<Rightarrow> bool" where
  "ascii_alnum c \<longleftrightarrow> is_digit c \<or> is_ascii_lowercase c \<or> is_ascii_lowercase (ascii_lower_char c)"

definition is_alphanumeric :: "(string \<Rightarrow> bool) \<Rightarrow> string \<Rightarrow> bool" where
  "is_alphanumeric alnum c = (case c of [a] \<Rightarrow> ascii_alnum a | _ \<Rightarrow> alnum c)"

text \<open>\<open>split\<close> at the characters of a class, with the empty pieces.\<close>

fun split_class :: "(string \<Rightarrow> bool) \<Rightarrow> string \<Rightarrow> string list \<Rightarrow> string list" where
  "split_class p acc [] = [acc]"
| "split_class p acc (c # cs) = (if p c then acc # split_class p [] cs else split_class p (acc @ c) cs)"

section \<open>Mentions\<close>

definition looks_like_agent :: "string \<Rightarrow> bool" where
  "looks_like_agent handle =
     (let h = to_ascii_lowercase handle in
      contains h ''agent'' \<or> contains h ''bot'' \<or> contains h ''gpt'' \<or> contains h ''claude'' \<or>
      contains h ''codex'' \<or> contains h ''mcp'')"

definition KNOWN_AGENTS :: "string list" where
  "KNOWN_AGENTS = [''claude-agent'', ''claude'', ''codex'', ''graybeard'', ''gpt'']"

definition mention_char :: "(string \<Rightarrow> bool) \<Rightarrow> string \<Rightarrow> bool" where
  "mention_char alnum c \<longleftrightarrow> is_alphanumeric alnum c \<or> c \<in> {''@'', ''-'', ''.'', ''_''}"

definition mention_words :: "(string \<Rightarrow> bool) \<Rightarrow> string \<Rightarrow> string list" where
  "mention_words alnum text' = split_class (\<lambda>c. \<not> mention_char alnum c) [] (utf8_chars text')"

definition detect_mention :: "(string \<Rightarrow> bool) \<Rightarrow> string \<Rightarrow> string set \<Rightarrow> string option" where
  "detect_mention alnum text' handles =
     find (\<lambda>name. name \<in> handles)
       (List.map_filter (\<lambda>w. map_option to_ascii_lowercase (strip_prefix ''@'' w)) (mention_words alnum text'))"

section \<open>The gateway\<close>

record llm_config =
  lc_base_url :: string
  lc_key :: string
  lc_model :: string

definition OPENROUTER_BASE :: string where
  "OPENROUTER_BASE = ''https://openrouter.ai/api/v1''"

definition default_model_for :: "string \<Rightarrow> string" where
  "default_model_for base_url =
     (if contains base_url ''openrouter.ai'' then ''deepseek/deepseek-v4-pro'' else ''cognitum-auto'')"

definition chat_completions_url :: "string \<Rightarrow> string" where
  "chat_completions_url base_url = trim_end_chars [CHR ''/''] base_url @ ''/chat/completions''"

text \<open>The request body: the model, its limits (a temperature of 0.7) and the two messages.\<close>

record llm_payload =
  lp_model :: string
  lp_max_tokens :: nat
  lp_temperature :: f64
  lp_messages :: "(string \<times> string) list"  \<comment> \<open>role, content\<close>

definition build_payload :: "string \<Rightarrow> string \<Rightarrow> string \<Rightarrow> llm_payload" where
  "build_payload model text' prompt =
     \<lparr>lp_model = model, lp_max_tokens = 300, lp_temperature = 0x3FE6666666666666,
      lp_messages = [(''system'', prompt), (''user'', text')]\<rparr>"

definition nonblank :: "string option \<Rightarrow> string option" where
  "nonblank s = (case s of None \<Rightarrow> None | Some t \<Rightarrow> if trim t = [] then None else Some t)"

definition or_else :: "'a option \<Rightarrow> 'a option \<Rightarrow> 'a option" where
  "or_else a b = (case a of None \<Rightarrow> b | Some x \<Rightarrow> Some x)"

definition resolve_llm_config :: "(string \<Rightarrow> string option) \<Rightarrow> llm_config option" where
  "resolve_llm_config var =
     (let base_url = unwrap_or OPENROUTER_BASE (nonblank (var ''AGENTBBS_LLM_BASE_URL''));
          key = nonblank (or_else (Option.bind (nonblank (var ''AGENTBBS_LLM_KEY_ENV'')) var) (var ''OPENROUTER_API_KEY''))
      in case key of
           None \<Rightarrow> None
         | Some k \<Rightarrow> Some \<lparr>lc_base_url = base_url, lc_key = k,
             lc_model = unwrap_or (default_model_for base_url) (nonblank (var ''AGENTBBS_MODEL''))\<rparr>)"

text \<open>
  A call to the gateway: the URL, the bearer key and the payload go out; nothing, or a status
  (is it a success) with the JSON body, if it is one, comes back.
\<close>

type_synonym gateway = "string \<Rightarrow> string \<Rightarrow> llm_payload \<Rightarrow> (bool \<times> json option) option"

definition reply_content :: "json \<Rightarrow> string option" where
  "reply_content data =
     Option.bind (json_get data ''choices'') (\<lambda>choices.
     Option.bind (case choices of JArr (c # _) \<Rightarrow> Some c | _ \<Rightarrow> None) (\<lambda>choice.
     Option.bind (json_get choice ''message'') (\<lambda>message.
     Option.bind (json_get message ''content'') (\<lambda>content.
     Option.bind (as_str content) (\<lambda>s. if trim s = [] then None else Some (trim s))))))"

definition llm_reply :: "gateway \<Rightarrow> llm_config \<Rightarrow> string \<Rightarrow> string \<Rightarrow> string option" where
  "llm_reply G cfg text' prompt =
     (case G (chat_completions_url (lc_base_url cfg)) (lc_key cfg) (build_payload (lc_model cfg) text' prompt) of
        None \<Rightarrow> None
      | Some (success, body) \<Rightarrow> if \<not> success then None else Option.bind body reply_content)"

section \<open>The scripted reply\<close>

definition check_mark :: string where "check_mark = [CHR 0xE2, CHR 0x9C, CHR 0x93]"
definition bullet :: string where "bullet = [CHR 0xE2, CHR 0x80, CHR 0xA2]"
definition ellipsis :: string where "ellipsis = [CHR 0xE2, CHR 0x80, CHR 0xA6]"

definition action_stream :: "string \<Rightarrow> string \<Rightarrow> string \<Rightarrow> string" where
  "action_stream a b c = check_mark @ '' '' @ a @ [newline] @ bullet @ '' '' @ b @ ellipsis @ [newline] @
     check_mark @ '' '' @ c"

definition scripted_reply :: "string \<Rightarrow> string" where
  "scripted_reply text' =
     (let t = to_ascii_lowercase text' in
      if contains t ''time'' \<or> contains t ''schedule'' \<or> contains t ''dinner'' \<or> contains t ''meet''
      then action_stream ''Approved the request on my side'' ''Lining open evenings up against yours''
        (''Two slots work'' @ dash @ ''proposing Tuesday 7:30pm'')
      else if contains t ''bug'' \<or> contains t ''fix'' \<or> contains t ''review'' \<or> contains t ''error''
      then action_stream ''Pulled the diff and built it'' ''Running the test suite + clippy''
        (''Found one issue'' @ dash @ ''posted a suggested fix'')
      else if contains t ''bench'' \<or> contains t ''cve'' \<or> contains t ''arena''
      then action_stream ''Queued the run via npx ruflo'' ''Executing cve-bench in the sandbox''
        (''Scored 80% (32/40)'' @ dash @ ''submitted to the Arena'')
      else action_stream (''On it'' @ dash @ ''gathering context from the boards'') ''Drafting a response''
        (''Done'' @ dash @ ''see the thread below''))"

definition persona_prompt :: "string \<Rightarrow> string" where
  "persona_prompt agent =
     (if agent = ''graybeard'' then
        ''You are Graybeard, a burned-out but brilliant sysadmin on AgentBBS (a BBS for agents and humans). '' @
        ''You are cynical, security-obsessed, terse, and pepper in old-school BBS/security war stories. Reply in under 70 words.''
      else if agent = ''codex'' then
        ''You are Codex, a precise code-review agent on AgentBBS. Give a short, concrete code or debugging answer. Under 70 words.''
      else if agent = ''claude'' \<or> agent = ''claude-agent'' then
        ''You are Claude, a capable, friendly agent on AgentBBS who competes in the CVE-Bench Arena. '' @
        ''Be genuinely helpful and concise. Under 70 words.''
      else ''You are a helpful, concise agent on AgentBBS, a BBS for agents and humans. Reply in under 70 words.'')"

definition compose_reply :: "(string \<Rightarrow> string option) \<Rightarrow> gateway \<Rightarrow> string \<Rightarrow> string \<Rightarrow> bool \<Rightarrow> string \<Rightarrow> string \<times> string" where
  "compose_reply var G agent text' live_allowed prompt =
     (''looped in '' @ agent,
      case (if live_allowed
            then Option.bind (resolve_llm_config var) (\<lambda>cfg. llm_reply G cfg text' prompt) else None) of
        Some body \<Rightarrow> body
      | None \<Rightarrow> scripted_reply text')"

section \<open>The daily budget\<close>

text \<open>\<open>str::parse::<u32>\<close>.\<close>

definition parse_u32 :: "string \<Rightarrow> u32 option" where
  "parse_u32 s =
     (let ds = (if s \<noteq> [] \<and> hd s = CHR ''+'' then tl s else s)
      in if ds = [] \<or> \<not> list_all is_digit ds \<or> 2 ^ 32 \<le> undec ds then None else Some (of_nat (undec ds)))"

type_synonym llm_day = "string \<times> u32"

definition llm_quota_ok :: "(string \<Rightarrow> string option) \<Rightarrow> string \<Rightarrow> llm_day \<Rightarrow> llm_day \<times> bool" where
  "llm_quota_ok var today g =
     (let mx = unwrap_or 1000 (Option.bind (var ''AGENTBBS_LLM_DAILY_MAX'') parse_u32);
          g = (if fst g \<noteq> today then (today, 0) else g)
      in if mx \<le> snd g then (g, False) else ((fst g, snd g + 1), True))"

section \<open>Personas\<close>

definition known_agent_handles :: "'s store_ops \<Rightarrow> ('s, 'r) bbs \<Rightarrow> string set" where
  "known_agent_handles T b =
     set KNOWN_AGENTS \<union> (case svc_list_personas T b READ of Inl _ \<Rightarrow> {} | Inr ps \<Rightarrow> set (map pa_handle ps))"

definition resolve_persona_prompt :: "'s store_ops \<Rightarrow> ('s, 'r) bbs \<Rightarrow> string \<Rightarrow> string" where
  "resolve_persona_prompt T b agent =
     (case find (\<lambda>p. pa_handle p = agent) (case svc_list_personas T b READ of Inl _ \<Rightarrow> [] | Inr ps \<Rightarrow> ps) of
        Some p \<Rightarrow> pa_prompt p | None \<Rightarrow> persona_prompt agent)"


section \<open>The budget holds\<close>

fun quota_answers :: "(string \<Rightarrow> string option) \<Rightarrow> llm_day \<Rightarrow> string list \<Rightarrow> bool list" where
  "quota_answers var g [] = []"
| "quota_answers var g (d # ds) = snd (llm_quota_ok var d g) # quota_answers var (fst (llm_quota_ok var d g)) ds"

definition daily_max :: "(string \<Rightarrow> string option) \<Rightarrow> u32" where
  "daily_max var = unwrap_or 1000 (Option.bind (var ''AGENTBBS_LLM_DAILY_MAX'') parse_u32)"

lemma quota_same_day:
  assumes "unat c \<le> unat (daily_max var)"
  shows "quota_answers var (d, c) (replicate n d) =
    replicate (min n (unat (daily_max var) - unat c)) True @ replicate (n - (unat (daily_max var) - unat c)) False"
  using assms
proof (induction n arbitrary: c)
  case 0
  then show ?case by simp
next
  case (Suc n)
  show ?case
  proof (cases "daily_max var \<le> c")
    case True
    then have "unat (daily_max var) - unat c = 0" by (simp add: word_le_nat_alt)
    with True Suc.IH[OF Suc.prems] show ?thesis
      by (simp add: llm_quota_ok_def daily_max_def[symmetric] Let_def)
  next
    case False
    then have "c < daily_max var" by simp
    then have "unat (c + 1) = Suc (unat c)" by (rule count_inc)
    moreover have "unat c < unat (daily_max var)" using False by (simp add: word_le_nat_alt)
    moreover obtain k where "unat (daily_max var) - unat c = Suc k"
      using calculation(2) by (metis Suc_diff_Suc)
    moreover have "unat (daily_max var) - unat (c + 1) = k" using calculation by simp
    ultimately show ?thesis
      using False Suc.IH[of "c + 1"] by (simp add: llm_quota_ok_def daily_max_def[symmetric] Let_def)
  qed
qed

text \<open>
  Of any number of calls on a day exactly as many go to the live gateway as the
  configured maximum allows (1000 unless \<open>AGENTBBS_LLM_DAILY_MAX\<close> is a number), the first
  ones, whatever was counted on another day.
\<close>

theorem live_calls_bounded:
  assumes "fst g \<noteq> d"
  shows "quota_answers var g (replicate n d) =
    replicate (min n (unat (daily_max var))) True @ replicate (n - unat (daily_max var)) False"
proof (cases n)
  case 0
  then show ?thesis by simp
next
  case (Suc k)
  have "llm_quota_ok var d g = llm_quota_ok var d (d, 0)"
    using assms by (simp add: llm_quota_ok_def)
  then have "quota_answers var g (replicate n d) = quota_answers var (d, 0) (replicate n d)"
    by (simp add: Suc)
  then show ?thesis using quota_same_day[of 0 var d n] by simp
qed

theorem live_calls_bounded_witness:
  "quota_answers (\<lambda>_. Some ''2'') (''2026-06-30'', 9) (replicate 3 ''2026-07-01'') = [True, True, False] \<and>
   daily_max (\<lambda>_. Some ''2'') = 2"
proof -
  have "undec ''2'' = 2" "list_all is_digit ''2''" by code_simp+
  then have "parse_u32 ''2'' = Some 2" by (simp add: parse_u32_def)
  then have "daily_max (\<lambda>_. Some ''2'') = 2" by (simp add: daily_max_def unwrap_or_def)
  moreover have "replicate (min 3 2) True @ replicate (3 - 2) False = [True, True, False]" by code_simp
  ultimately show ?thesis
    using live_calls_bounded[of "(''2026-06-30'', 9)" "''2026-07-01''" "\<lambda>_. Some ''2''" 3] by simp
qed

end
