(* ===== verification/Web_Posts.thy ===== *)
theory Web_Posts
  imports Web_Agent_Reply
begin

text \<open>
  Boards and posts over HTTP (\<open>agentbbs-web/src/lib.rs\<close>): the per-session rate limiter, session
  identities, posting with a server-held key and with a signature made in the browser, the
  looping-in of mentioned agents, and the administration of boards and agent personas. A handler
  is one step; the awaits inside \<open>maybe_loop_in\<close> release no lock it needs afterwards.
\<close>

section \<open>The rate limiter\<close>

text \<open>Instants are nanoseconds of the monotonic clock; \<open>duration_since\<close> saturates at zero.\<close>

definition RATE_MAX_POSTS :: u32 where
  "RATE_MAX_POSTS = 20"

definition RATE_WINDOW :: nat where
  "RATE_WINDOW = 60 * 10 ^ 9"

record rate_window =
  wr_start :: nat
  wr_count :: u32

type_synonym post_rate = "(string, rate_window) hmap"

definition rate_check :: "post_rate \<Rightarrow> string \<Rightarrow> nat \<Rightarrow> post_rate \<times> bool" where
  "rate_check windows session now =
     (let w = (case hm_get windows session of
                 Some w \<Rightarrow> w | None \<Rightarrow> \<lparr>wr_start = now, wr_count = 0\<rparr>);
          w = (if RATE_WINDOW \<le> now - wr_start w then \<lparr>wr_start = now, wr_count = 0\<rparr> else w)
      in if RATE_MAX_POSTS \<le> wr_count w then (hm_insert session w windows, False)
         else (hm_insert session (w\<lparr>wr_count := wr_count w + 1\<rparr>) windows, True))"

section \<open>State and calls\<close>

text \<open>The part of \<open>AppState\<close> the board routes use, over the part the bridges use.\<close>

record ('s, 'r) post_web = "('s, 'r) bridge_web" +
  po_sessions :: "(string, identity) hmap"
  po_rate :: post_rate
  po_agents :: "(string, identity) hmap"
  po_moderation :: moderation_log
  po_llm_day :: llm_day

text \<open>
  What a call brings besides its request: the headers; the clock (the wall clock read when the
  request is checked, when a message is dated, when the service logs it, and again for the
  reply of a looped-in agent; the monotonic one), the date of an instant; random bytes for a
  token, a session key and an agent key; the parsing of times; the class of alphanumeric
  characters; the gateway; and the parsing of the bridge configuration.
\<close>

record post_call = bridge_call +
  pc_headers :: headers
  pc_checked :: time
  pc_authorized :: time
  pc_dated :: time
  pc_logged :: time
  pc_asked :: time
  pc_reply_dated :: time
  pc_reply_logged :: time
  pc_answered :: time
  pc_instant :: nat
  pc_date :: "time \<Rightarrow> string"
  pc_token_seed :: bytes
  pc_session_seed :: bytes
  pc_agent_seed :: bytes
  pc_parse_time :: "string \<Rightarrow> string + time"
  pc_alnum :: "string \<Rightarrow> bool"
  pc_gateway :: gateway
  pc_bridge_config :: "string \<Rightarrow> bridge_config option"

type_synonym 'a answer = "status_code \<times> string + 'a"

definition fresh_session_token :: "env \<Rightarrow> bytes \<Rightarrow> string" where
  "fresh_session_token E rnd = to_hex E (ident (generate E rnd))"

definition session_token :: "env \<Rightarrow> post_call \<Rightarrow> string" where
  "session_token E C =
     (case header_str (pc_headers C) ''x-session'' of
        Some s \<Rightarrow> if s = [] then fresh_session_token E (pc_token_seed C) else s
      | None \<Rightarrow> fresh_session_token E (pc_token_seed C))"

text \<open>The identity of a session, minted on first use.\<close>

definition session_entry :: "env \<Rightarrow> post_call \<Rightarrow> string \<Rightarrow> ('s, 'r) post_web \<Rightarrow> ('s, 'r) post_web \<times> identity" where
  "session_entry E C session w =
     (case hm_get (po_sessions w) session of
        Some i \<Rightarrow> (w, i)
      | None \<Rightarrow> let i = generate E (pc_session_seed C)
          in (w\<lparr>po_sessions := hm_insert session i (po_sessions w)\<rparr>, i))"

definition identity_for :: "env \<Rightarrow> post_call \<Rightarrow> string \<Rightarrow> ('s, 'r) post_web \<Rightarrow> ('s, 'r) post_web \<times> agent_id" where
  "identity_for E C session w = (case session_entry E C session w of (w, i) \<Rightarrow> (w, ident i))"

definition call_caps :: "env \<Rightarrow> mac_env \<Rightarrow> post_call \<Rightarrow> caps" where
  "call_caps E M C =
     resolve_caps E M (unwrap_or [] (be_var C ''AGENTBBS_ROLE_CLAIM_SECRET'')) (pc_headers C)
       (timestamp (pc_authorized C))"

section \<open>Looping in an agent\<close>

definition maybe_loop_in ::
  "'s store_ops \<Rightarrow> ('r \<Rightarrow> event \<Rightarrow> 'r result) \<Rightarrow> env \<Rightarrow> post_call \<Rightarrow> string \<Rightarrow> string \<Rightarrow> string
    \<Rightarrow> ('s, 'r) post_web \<Rightarrow> ('s, 'r) post_web" where
  "maybe_loop_in T R E C board text' poster_handle w =
     (case detect_mention (pc_alnum C) text' (known_agent_handles T (bw_bbs w)) of
        None \<Rightarrow> w
      | Some agent \<Rightarrow>
          if to_ascii_lowercase agent = to_ascii_lowercase poster_handle then w
          else
            (let (agents, identity) = agent_identity E (po_agents w) agent (pc_agent_seed C);
                 (day, live_allowed) = llm_quota_ok (be_var C) (pc_date C (pc_asked C)) (po_llm_day w);
                 prompt = resolve_persona_prompt T (bw_bbs w) agent;
                 (subject, body) = compose_reply (be_var C) (pc_gateway C) agent text' live_allowed prompt
             in w\<lparr>po_agents := agents, po_llm_day := day,
                  bw_bbs := fst (tool_post_message T R E (pc_reply_dated C) (pc_reply_logged C) (bw_bbs w)
                    (role_caps Agent) identity board subject body agent)\<rparr>))"

section \<open>Posting\<close>

record message_view =
  mv_id :: string
  mv_parent :: "string option"
  mv_handle :: string
  mv_author :: string
  mv_subject :: string
  mv_body :: string
  mv_at :: string
  mv_verified :: bool
  mv_agent :: bool
  mv_kind :: string

definition sign_and_post ::
  "'s store_ops \<Rightarrow> ('r \<Rightarrow> event \<Rightarrow> 'r result) \<Rightarrow> env \<Rightarrow> post_call \<Rightarrow> string \<Rightarrow> string \<Rightarrow> string \<Rightarrow> string \<Rightarrow> string
    \<Rightarrow> ('s, 'r) post_web \<Rightarrow> ('s, 'r) post_web \<times> string result" where
  "sign_and_post T R E C session board handle subject text' w =
     (case session_entry E C session w of
        (w, entry) \<Rightarrow>
          let identity = from_seed E (secret_seed entry)
          in case message_sign E identity
               \<lparr>mb_board = board, mb_parent = None, mb_subject = subject, mb_body = text', mb_author = ident identity,
                mb_handle = handle, mb_created_at = pc_dated C, mb_kind = Post\<rparr> of
               Inl e \<Rightarrow> (w, Inl e)
             | Inr m \<Rightarrow>
                 (case svc_post T R E (pc_logged C) (bw_bbs w) (role_caps Agent) m of
                    (b, r) \<Rightarrow> (w\<lparr>bw_bbs := b\<rparr>, map_sum id mid r)))"

record post_request =
  pr_handle :: string
  pr_subject :: string
  pr_text :: string

definition default_subject :: "string \<Rightarrow> string" where
  "default_subject s = (if trim s = [] then ''(msg)'' else s)"

definition post_handle :: "string \<Rightarrow> string \<Rightarrow> string" where
  "post_handle session handle =
     (if trim handle = [] then ''you-'' @ concat (take 4 (utf8_chars session)) else handle)"

definition blocked_text :: "scan_result \<Rightarrow> string" where
  "blocked_text sc = ''post blocked: '' @ join ''; '' (sc_reasons sc)"

definition api_post ::
  "'s store_ops \<Rightarrow> ('r \<Rightarrow> event \<Rightarrow> 'r result) \<Rightarrow> env \<Rightarrow> post_call \<Rightarrow> string \<Rightarrow> post_request
    \<Rightarrow> ('s, 'r) post_web \<Rightarrow> ('s, 'r) post_web \<times> message_view answer" where
  "api_post T R E C slug req w =
     (if trim (pr_text req) = [] then (w, Inl (BAD_REQUEST, ''empty message''))
      else if sc_level (scan E (pr_text req)) = Malicious
      then (w, Inl (UNPROCESSABLE_ENTITY, blocked_text (scan E (pr_text req))))
      else
        (let session = session_token E C;
             (rate, admitted) = rate_check (po_rate w) session (pc_instant C);
             w = w\<lparr>po_rate := rate\<rparr>
         in if \<not> admitted
            then (w, Inl (TOO_MANY_REQUESTS, ''rate limit exceeded: too many posts, slow down''))
            else
              (let handle = post_handle session (pr_handle req);
                   subject = default_subject (pr_subject req)
               in case sign_and_post T R E C session slug handle subject (pr_text req) w of
                    (w, Inl e) \<Rightarrow> (w, Inl (BAD_REQUEST, error_display e))
                  | (w, Inr _) \<Rightarrow>
                      (let w = (if looks_like_agent handle then w
                             else maybe_loop_in T R E C slug (pr_text req) handle w);
                           (w, author) = identity_for E C session w
                       in (w, Inr \<lparr>mv_id = [], mv_parent = None, mv_handle = handle, mv_author = short_id E author,
                            mv_subject = subject, mv_body = pr_text req, mv_at = rfc3339 E (pc_answered C),
                            mv_verified = True, mv_agent = looks_like_agent handle, mv_kind = ''post''\<rparr>)))))"

section \<open>Posts signed in the browser\<close>

record signed_post =
  sp_parent :: "string option"
  sp_subject :: string
  sp_body :: string
  sp_author :: string
  sp_handle :: string
  sp_created_at :: string
  sp_signature :: string

definition signed_body :: "string \<Rightarrow> signed_post \<Rightarrow> agent_id \<Rightarrow> time \<Rightarrow> message_body" where
  "signed_body slug req author created_at =
     \<lparr>mb_board = slug,
      mb_parent = (case sp_parent req of None \<Rightarrow> None | Some p \<Rightarrow> if p = [] then None else Some (MessageId p)),
      mb_subject = default_subject (sp_subject req), mb_body = sp_body req, mb_author = author,
      mb_handle = sp_handle req, mb_created_at = created_at, mb_kind = Post\<rparr>"

fun kind_name :: "message_kind \<Rightarrow> string" where
  "kind_name Post = ''post''"
| "kind_name Milestone = ''milestone''"
| "kind_name Step = ''step''"

definition view_handle :: "env \<Rightarrow> message \<Rightarrow> string" where
  "view_handle E m = (if mb_handle (msg_body m) = [] then short_id E (mb_author (msg_body m)) else mb_handle (msg_body m))"

definition signed_post_view :: "env \<Rightarrow> message \<Rightarrow> message_view" where
  "signed_post_view E m =
     \<lparr>mv_id = mid (msg_id m), mv_parent = map_option mid (mb_parent (msg_body m)), mv_handle = view_handle E m,
      mv_author = short_id E (mb_author (msg_body m)), mv_subject = mb_subject (msg_body m),
      mv_body = mb_body (msg_body m), mv_at = rfc3339 E (mb_created_at (msg_body m)), mv_verified = True,
      mv_agent = looks_like_agent (mb_handle (msg_body m)), mv_kind = kind_name (mb_kind (msg_body m))\<rparr>"

text \<open>The checks behind the rate limiter, in their order: what they accept is the message to post.\<close>

definition signed_message :: "env \<Rightarrow> post_call \<Rightarrow> moderation_log \<Rightarrow> string \<Rightarrow> signed_post \<Rightarrow> message answer" where
  "signed_message E C log slug req =
     (case from_hex E (sp_author req) of
        Inl e \<Rightarrow> Inl (BAD_REQUEST, ''author: '' @ error_display e)
      | Inr author \<Rightarrow>
      if \<not> can_post log author (pc_checked C) then Inl (FORBIDDEN, ''posting is blocked by moderation'')
      else if sc_level (scan E (sp_body req)) = Malicious
      then Inl (UNPROCESSABLE_ENTITY, blocked_text (scan E (sp_body req)))
      else case sig_from_hex E (sp_signature req) of
        Inl e \<Rightarrow> Inl (BAD_REQUEST, ''signature: '' @ error_display e)
      | Inr sg \<Rightarrow>
      (case pc_parse_time C (sp_created_at req) of
        Inl e \<Rightarrow> Inl (BAD_REQUEST, ''created_at: '' @ e)
      | Inr created_at \<Rightarrow>
          let body = signed_body slug req author created_at;
              m = \<lparr>msg_id = body_id E body, msg_body = body, msg_signature = sg\<rparr>
          in case message_verify E m of
               Inl _ \<Rightarrow> Inl (BAD_REQUEST, ''signature verification failed'')
             | Inr _ \<Rightarrow> Inr m))"

text \<open>The answer comes with the posts the mirror hands to its background task.\<close>

definition api_post_signed ::
  "'s store_ops \<Rightarrow> ('r \<Rightarrow> event \<Rightarrow> 'r result) \<Rightarrow> env \<Rightarrow> mac_env \<Rightarrow> post_call \<Rightarrow> string \<Rightarrow> signed_post
    \<Rightarrow> ('s, 'r) post_web \<Rightarrow> ('s, 'r) post_web \<times> outbound_post list \<times> message_view answer" where
  "api_post_signed T R E M C slug req w =
     (if trim (sp_body req) = [] then (w, [], Inl (BAD_REQUEST, ''empty message''))
      else
        (let (rate, admitted) = rate_check (po_rate w) (sp_author req) (pc_instant C);
             w = w\<lparr>po_rate := rate\<rparr>
         in if \<not> admitted then (w, [], Inl (TOO_MANY_REQUESTS, ''rate limit exceeded''))
            else case signed_message E C (po_moderation w) slug req of
              Inl e \<Rightarrow> (w, [], Inl e)
            | Inr m \<Rightarrow>
                (case svc_post T R E (pc_logged C) (bw_bbs w) (call_caps E M C) m of
                   (b, Inl e) \<Rightarrow> (w\<lparr>bw_bbs := b\<rparr>, [], Inl (BAD_REQUEST, error_display e))
                 | (b, Inr _) \<Rightarrow>
                     (let w = w\<lparr>bw_bbs := b\<rparr>;
                          posts = maybe_mirror_whatsapp_outbound E (pc_bridge_config C)
                            (bridge_call.truncate C) m (bridge_web.truncate w)
                      in (if looks_like_agent (mb_handle (msg_body m)) then w
                          else maybe_loop_in T R E C slug (mb_body (msg_body m)) (view_handle E m) w,
                          posts, Inr (signed_post_view E m))))))"


section \<open>What a signed post goes through\<close>

lemma tool_post_store:
  "bbs_store (fst (tool_post_message T R E t now b cs i slug subject txt handle)) = bbs_store b \<or>
   (\<exists>m. message_verify E m = Inr () \<and> op_put_message T (bbs_store b) m =
      Inr (bbs_store (fst (tool_post_message T R E t now b cs i slug subject txt handle))))"
proof (cases "tool_post_message T R E t now b cs i slug subject txt handle")
  case (Pair b' r)
  show ?thesis
  proof (cases r)
    case (Inl e)
    with Pair show ?thesis by (simp add: tool_post_Inl_store)
  next
    case (Inr s)
    with Pair have "tool_post_message T R E t now b cs i slug subject txt handle = (b', Inr s)" by simp
    then obtain m where "message_verify E m = Inr ()" "op_put_message T (bbs_store b) m = Inr (bbs_store b')"
      by (rule tool_post_Inr)
    with Pair show ?thesis by auto
  qed
qed

lemma loop_in_store:
  "bbs_store (bw_bbs (maybe_loop_in T R E C board text' handle w)) = bbs_store (bw_bbs w) \<or>
   (\<exists>m. message_verify E m = Inr () \<and> op_put_message T (bbs_store (bw_bbs w)) m =
      Inr (bbs_store (bw_bbs (maybe_loop_in T R E C board text' handle w))))"
proof -
  have "bw_bbs (maybe_loop_in T R E C board text' handle w) = bw_bbs w \<or>
      (\<exists>i subject body agent. bw_bbs (maybe_loop_in T R E C board text' handle w) =
        fst (tool_post_message T R E (pc_reply_dated C) (pc_reply_logged C) (bw_bbs w) (role_caps Agent) i board
          subject body agent))"
    by (auto simp: maybe_loop_in_def Let_def split: option.split prod.split)
  then show ?thesis using tool_post_store by metis
qed

lemma rate_only [simp]:
  "po_rate (maybe_loop_in T R E C board text' handle w) = po_rate w"
  "po_moderation (maybe_loop_in T R E C board text' handle w) = po_moderation w"
  by (auto simp: maybe_loop_in_def Let_def split: option.splits prod.splits)

text \<open>A signed request only ever touches the window of the author it names.\<close>

lemma signed_rate:
  "po_rate (fst (api_post_signed T R E M C slug req w)) =
     (if trim (sp_body req) = [] then po_rate w else fst (rate_check (po_rate w) (sp_author req) (pc_instant C)))"
  by (auto simp: api_post_signed_def Let_def split: prod.splits sum.splits)

lemma signed_message_status: "signed_message E C log slug req = Inl (s, e) \<Longrightarrow> s \<noteq> TOO_MANY_REQUESTS"
  by (auto simp: signed_message_def Let_def split: sum.splits if_splits)

lemma signed_message_Inr:
  "signed_message E C log slug req = Inr m \<longleftrightarrow>
    (\<exists>author sg t. from_hex E (sp_author req) = Inr author \<and> can_post log author (pc_checked C) \<and>
      sc_level (scan E (sp_body req)) \<noteq> Malicious \<and> sig_from_hex E (sp_signature req) = Inr sg \<and>
      pc_parse_time C (sp_created_at req) = Inr t \<and>
      m = \<lparr>msg_id = body_id E (signed_body slug req author t), msg_body = signed_body slug req author t, msg_signature = sg\<rparr> \<and>
      message_verify E m = Inr ())"
  by (auto simp: signed_message_def Let_def split: sum.splits if_splits)

lemma svc_post_refused: "svc_post T R E now b cs m = (b', Inl e) \<Longrightarrow> bbs_store b' = bbs_store b"
  by (rule svc_post_Inl_store)

text \<open>
  Property C11. What the signed-post route lets through. An answer with a view means that the
  message was admitted by the limiter, names an author who is not silenced, passed the content
  scan, verifies under the author's key with the id the node computed, and was posted with the
  capabilities of the request's role claim. Any other answer leaves the store as it was and
  mirrors nothing.
\<close>

theorem signed_post_through_gates:
  "case api_post_signed T R E M C slug req w of
     (w', posts, Inl e) \<Rightarrow> bbs_store (bw_bbs w') = bbs_store (bw_bbs w) \<and> posts = []
   | (w', posts, Inr v) \<Rightarrow>
       \<exists>author t m b. from_hex E (sp_author req) = Inr author \<and> snd (rate_check (po_rate w) (sp_author req) (pc_instant C)) \<and>
         can_post (po_moderation w) author (pc_checked C) \<and> sc_level (scan E (sp_body req)) \<noteq> Malicious \<and>
         msg_body m = signed_body slug req author t \<and> message_verify E m = Inr () \<and> v = signed_post_view E m \<and>
         svc_post T R E (pc_logged C) (bw_bbs w) (call_caps E M C) m = (b, Inr (msg_id m)) \<and>
         (bbs_store (bw_bbs w') = bbs_store b \<or> (\<exists>reply. message_verify E reply = Inr () \<and>
           op_put_message T (bbs_store b) reply = Inr (bbs_store (bw_bbs w'))))"
proof (cases "trim (sp_body req) = []")
  case True
  then show ?thesis by (simp add: api_post_signed_def)
next
  case body: False
  obtain rate admitted where rate: "rate_check (po_rate w) (sp_author req) (pc_instant C) = (rate, admitted)"
    by (rule prod.exhaust)
  show ?thesis
  proof (cases "admitted")
    case False
    with body rate show ?thesis by (simp add: api_post_signed_def)
  next
    case True
    show ?thesis
    proof (cases "signed_message E C (po_moderation w) slug req")
      case (Inl e)
      with body rate True show ?thesis by (simp add: api_post_signed_def)
    next
      case (Inr m)
      obtain b r where post: "svc_post T R E (pc_logged C) (bw_bbs w) (call_caps E M C) m = (b, r)"
        by (rule prod.exhaust)
      show ?thesis
      proof (cases r)
        case (Inl e)
        with post have "bbs_store b = bbs_store (bw_bbs w)" by (simp add: svc_post_refused)
        with body rate True \<open>signed_message _ _ _ _ _ = Inr m\<close> post Inl show ?thesis
          by (simp add: api_post_signed_def)
      next
        case ok: (Inr k)
        with post have "k = msg_id m" by (auto dest: svc_post_accepted)
        moreover obtain author t where "from_hex E (sp_author req) = Inr author"
            "can_post (po_moderation w) author (pc_checked C)" "sc_level (scan E (sp_body req)) \<noteq> Malicious"
            "msg_body m = signed_body slug req author t" "message_verify E m = Inr ()"
          using Inr by (auto simp: signed_message_Inr)
        moreover have "bbs_store (bw_bbs (fst (api_post_signed T R E M C slug req w))) = bbs_store b \<or>
            (\<exists>reply. message_verify E reply = Inr () \<and>
              op_put_message T (bbs_store b) reply = Inr (bbs_store (bw_bbs (fst (api_post_signed T R E M C slug req w)))))"
          using body rate True Inr post ok loop_in_store[of T R E C slug "mb_body (msg_body m)" "view_handle E m"
            "w\<lparr>po_rate := rate, bw_bbs := b\<rparr>"]
          by (simp add: api_post_signed_def Let_def)
        moreover obtain w' posts where res: "api_post_signed T R E M C slug req w = (w', posts, Inr (signed_post_view E m))"
          using body rate True Inr post ok by (simp add: api_post_signed_def Let_def)
        ultimately show ?thesis
          using rate True post ok by (simp add: res) blast
      qed
    qed
  qed
qed


section \<open>The quota and who spends it\<close>

text \<open>Requests handled one after the other, each with its call; the answers are collected.\<close>

type_synonym signed_request = "post_call \<times> string \<times> signed_post"

fun signed_posts :: "'s store_ops \<Rightarrow> ('r \<Rightarrow> event \<Rightarrow> 'r result) \<Rightarrow> env \<Rightarrow> mac_env \<Rightarrow> ('s, 'r) post_web
    \<Rightarrow> signed_request list \<Rightarrow> ('s, 'r) post_web \<times> message_view answer list" where
  "signed_posts T R E M w [] = (w, [])"
| "signed_posts T R E M w ((C, slug, req) # rs) =
     (case api_post_signed T R E M C slug req w of
        (w', _, a) \<Rightarrow> (case signed_posts T R E M w' rs of (w'', as) \<Rightarrow> (w'', a # as)))"

definition limited :: "message_view answer \<Rightarrow> bool" where
  "limited a \<longleftrightarrow> (\<exists>e. a = Inl (TOO_MANY_REQUESTS, e))"

lemma rate_check_fresh: "hm_get ws k = None \<Longrightarrow> snd (rate_check ws k now)"
  by (simp add: rate_check_def RATE_MAX_POSTS_def Let_def)

lemma rate_check_other: "k \<noteq> key \<Longrightarrow> hm_get (fst (rate_check ws key now)) k = hm_get ws k"
  by (simp add: rate_check_def Let_def)

lemma limited_iff:
  "limited (snd (snd (api_post_signed T R E M C slug req w))) \<longleftrightarrow>
    trim (sp_body req) \<noteq> [] \<and> \<not> snd (rate_check (po_rate w) (sp_author req) (pc_instant C))"
  by (auto simp: limited_def api_post_signed_def Let_def dest: signed_message_status
      split: prod.splits sum.splits)

lemma signed_posts_fresh:
  assumes "\<forall>(C, slug, req) \<in> set rs. hm_get (po_rate w) (sp_author req) = None"
    and "distinct (map (\<lambda>(C, slug, req). sp_author req) rs)"
  shows "\<not> list_ex limited (snd (signed_posts T R E M w rs))"
  using assms
proof (induction rs arbitrary: w)
  case Nil
  then show ?case by simp
next
  case (Cons r rs)
  obtain C slug req where r: "r = (C, slug, req)" by (cases r)
  obtain w' ps a where step: "api_post_signed T R E M C slug req w = (w', ps, a)" by (metis prod.exhaust)
  have "\<not> limited a"
    using limited_iff[of T R E M C slug req w] Cons.prems(1) rate_check_fresh by (auto simp: r step)
  moreover have "hm_get (po_rate w') (sp_author q) = None" if "(D, sl, q) \<in> set rs" for D sl q
  proof -
    have "sp_author q \<noteq> sp_author req" using Cons.prems(2) that by (force simp: r)
    then have "hm_get (po_rate w') (sp_author q) = hm_get (po_rate w) (sp_author q)"
      using signed_rate[of T R E M C slug req w] rate_check_other by (auto simp: step split: if_splits)
    with Cons.prems(1) that show ?thesis by auto
  qed
  then have "\<not> list_ex limited (snd (signed_posts T R E M w' rs))"
    using Cons.prems(2) by (intro Cons.IH) auto
  ultimately show ?case by (simp add: r step split_beta)
qed

text \<open>Spellings of an author that no window has yet: blanks in front are trimmed when it is read.\<close>

definition spelling :: "nat \<Rightarrow> string \<Rightarrow> string" where
  "spelling n a = replicate n (CHR '' '') @ a"

lemma from_hex_spelling: "from_hex E (spelling n a) = from_hex E a"
  by (simp add: spelling_def from_hex_def trim_spaces)

lemma spelling_inj: "spelling m a = spelling n a \<longleftrightarrow> m = n"
  by (metis add_right_cancel length_append length_replicate spelling_def)

lemma unused_spelling:
  assumes "sum_list (map (length \<circ> fst) ws) < n"
  shows "hm_get ws (spelling n a) = None"
proof -
  have "length k \<le> sum_list (map (length \<circ> fst) ws)" if "(k, x) \<in> set ws" for k x
    using that member_le_sum_list[of "length k" "map (length \<circ> fst) ws"] by force
  then have "spelling n a \<notin> fst ` set ws"
    using assms by (force simp: spelling_def)
  then show ?thesis by (simp add: hm_get_def map_of_eq_None_iff)
qed

text \<open>
  Property C16. The limiter of signed posts does not bound an author. The quota is counted per
  spelling of the key, and blanks around a key are dropped when it is read: whatever is on
  record, any number of posts of one author at one instant can be spelled so that they all name
  that author and none is answered with 429.
\<close>

theorem quota_is_per_spelling:
  "\<exists>names. length names = n \<and> list_all (\<lambda>a. from_hex E a = from_hex E (sp_author req)) names \<and>
    \<not> list_ex limited (snd (signed_posts T R E M w (map (\<lambda>a. (C, slug, req\<lparr>sp_author := a\<rparr>)) names)))"
proof -
  define N where "N = Suc (sum_list (map (length \<circ> fst) (po_rate w)))"
  define names where "names = map (\<lambda>i. spelling i (sp_author req)) [N..<N + n]"
  define rs where "rs = map (\<lambda>a. (C, slug, req\<lparr>sp_author := a\<rparr>)) names"
  have unused: "hm_get (po_rate w) a = None" if "a \<in> set names" for a
    using that by (auto simp: names_def N_def intro!: unused_spelling)
  have "distinct names"
    by (auto simp: names_def distinct_map inj_on_def spelling_inj)
  then have "distinct (map (\<lambda>(C, slug, req). sp_author req) rs)"
    by (simp add: rs_def comp_def)
  moreover have "\<forall>(D, sl, q) \<in> set rs. hm_get (po_rate w) (sp_author q) = None"
    using unused by (auto simp: rs_def)
  ultimately have "\<not> list_ex limited (snd (signed_posts T R E M w rs))"
    by (intro signed_posts_fresh)
  moreover have "length names = n" "list_all (\<lambda>a. from_hex E a = from_hex E (sp_author req)) names"
    by (simp_all add: names_def list_all_iff from_hex_spelling)
  ultimately show ?thesis unfolding rs_def by blast
qed


text \<open>Within a window each attempt counts until the quota is spent.\<close>

lemma rate_check_in_window:
  assumes "hm_get ws k = Some \<lparr>wr_start = s, wr_count = of_nat c\<rparr>" "c \<le> 20" "now - s < RATE_WINDOW"
  shows "hm_get (fst (rate_check ws k now)) k = Some \<lparr>wr_start = s, wr_count = of_nat (min 20 (Suc c))\<rparr>"
    and "snd (rate_check ws k now) \<longleftrightarrow> c < 20"
proof -
  have c: "(20 :: u32) \<le> of_nat c \<longleftrightarrow> \<not> c < 20"
    using assms(2) by (auto simp: word_le_nat_alt unat_of_nat)
  with assms show "hm_get (fst (rate_check ws k now)) k = Some \<lparr>wr_start = s, wr_count = of_nat (min 20 (Suc c))\<rparr>"
    by (auto simp: rate_check_def RATE_MAX_POSTS_def Let_def)
  from c assms show "snd (rate_check ws k now) \<longleftrightarrow> c < 20"
    by (auto simp: rate_check_def RATE_MAX_POSTS_def Let_def)
qed

text \<open>The limiter has no window of the key, or one that is over by time \<open>t\<close>.\<close>

definition no_window :: "post_rate \<Rightarrow> string \<Rightarrow> nat \<Rightarrow> bool" where
  "no_window ws k t \<longleftrightarrow> (case hm_get ws k of None \<Rightarrow> True | Some w \<Rightarrow> wr_start w + RATE_WINDOW \<le> t)"

lemma rate_check_first:
  assumes "no_window ws k t" "t \<le> now"
  shows "hm_get (fst (rate_check ws k now)) k = Some \<lparr>wr_start = now, wr_count = of_nat 1\<rparr>"
  using assms
  by (auto simp: no_window_def rate_check_def RATE_MAX_POSTS_def RATE_WINDOW_def Let_def split: option.splits)

definition names_at :: "string \<Rightarrow> nat \<Rightarrow> signed_request \<Rightarrow> bool" where
  "names_at a t r = (case r of (C, slug, req) \<Rightarrow> sp_author req = a \<and> trim (sp_body req) \<noteq> [] \<and>
     t \<le> pc_instant C \<and> pc_instant C < t + RATE_WINDOW)"

lemma signed_posts_Cons:
  "fst (signed_posts T R E M w ((C, slug, req) # rs)) =
    fst (signed_posts T R E M (fst (api_post_signed T R E M C slug req w)) rs)"
  by (simp add: split_beta)

lemma attempts_counted:
  assumes "list_all (names_at a t) rs" "t \<le> s" "c \<le> 20"
    and "hm_get (po_rate w) a = Some \<lparr>wr_start = s, wr_count = of_nat c\<rparr>"
  shows "hm_get (po_rate (fst (signed_posts T R E M w rs))) a =
    Some \<lparr>wr_start = s, wr_count = of_nat (min 20 (c + length rs))\<rparr>"
  using assms
proof (induction rs arbitrary: w c)
  case Nil
  then show ?case by (simp add: min_absorb2)
next
  case (Cons r rs)
  obtain C slug req where r: "r = (C, slug, req)" by (cases r)
  with Cons.prems(1) have req: "sp_author req = a" "trim (sp_body req) \<noteq> []" "pc_instant C < t + RATE_WINDOW"
    by (simp_all add: names_at_def)
  with Cons.prems(2) have "pc_instant C - s < RATE_WINDOW" by (simp add: RATE_WINDOW_def)
  then have "hm_get (po_rate (fst (api_post_signed T R E M C slug req w))) a =
      Some \<lparr>wr_start = s, wr_count = of_nat (min 20 (Suc c))\<rparr>"
    using rate_check_in_window(1)[OF Cons.prems(4,3)] by (simp add: signed_rate req)
  moreover have "list_all (names_at a t) rs" using Cons.prems(1) by simp
  ultimately have "hm_get (po_rate (fst (signed_posts T R E M (fst (api_post_signed T R E M C slug req w)) rs))) a =
      Some \<lparr>wr_start = s, wr_count = of_nat (min 20 (min 20 (Suc c) + length rs))\<rparr>"
    using Cons.prems(2) Cons.IH[of "min 20 (Suc c)" "fst (api_post_signed T R E M C slug req w)"] by linarith
  moreover have "min 20 (min 20 (Suc c) + length rs) = min 20 (c + length (r # rs))" by simp
  ultimately show ?case by (simp only: r signed_posts_Cons)
qed

text \<open>
  Property C15. Anyone can spend the quota of a spelling of an author's key. The limiter runs
  before the signature is looked at: take a text and a minute at whose start the limiter has
  no running window of that text (it never saw it, or its last window is over). After twenty
  requests within the minute that have the text as their author and some body, whatever else
  they hold, every further post of the minute with exactly that text as its author is answered
  with 429 and not stored, however well it is signed. Posts that spell the key differently are
  counted apart, as C16 says.
\<close>

theorem quota_spent_by_anyone:
  assumes "list_all (names_at a t) rs" and "20 \<le> length rs" and "names_at a t (C, slug, req)"
    and "no_window (po_rate w) a t"
  shows "case api_post_signed T R E M C slug req (fst (signed_posts T R E M w rs)) of
    (w', posts, answer) \<Rightarrow> limited answer \<and> posts = [] \<and> bw_bbs w' = bw_bbs (fst (signed_posts T R E M w rs))"
proof -
  obtain r0 rs' where rs: "rs = r0 # rs'" using assms(2) by (cases rs) auto
  obtain C0 slug0 req0 where r0: "r0 = (C0, slug0, req0)" by (cases r0)
  have first: "names_at a t (C0, slug0, req0)" using assms(1) by (simp add: rs r0)
  then have "hm_get (po_rate (fst (api_post_signed T R E M C0 slug0 req0 w))) a =
      Some \<lparr>wr_start = pc_instant C0, wr_count = of_nat 1\<rparr>"
    using rate_check_first[OF assms(4)] by (simp add: signed_rate names_at_def del: of_nat_1)
  then have "hm_get (po_rate (fst (signed_posts T R E M w rs))) a =
      Some \<lparr>wr_start = pc_instant C0, wr_count = of_nat (min 20 (1 + length rs'))\<rparr>"
    using assms(1) first attempts_counted[of a t rs' "pc_instant C0" 1]
    by (simp add: rs r0 signed_posts_Cons names_at_def del: signed_posts.simps of_nat_1 One_nat_def)
  moreover have "min 20 (1 + length rs') = 20" using assms(2) by (simp add: rs)
  ultimately have "hm_get (po_rate (fst (signed_posts T R E M w rs))) a =
      Some \<lparr>wr_start = pc_instant C0, wr_count = of_nat 20\<rparr>" by (simp only:)
  moreover have "pc_instant C - pc_instant C0 < RATE_WINDOW"
    using assms(3) first by (auto simp: names_at_def)
  ultimately have "\<not> snd (rate_check (po_rate (fst (signed_posts T R E M w rs))) a (pc_instant C))"
    using rate_check_in_window(2) by blast
  then show ?thesis
    using assms(3) by (auto simp: api_post_signed_def names_at_def limited_def Let_def split: prod.split)
qed


text \<open>A minute of requests that name a key: no key or signature of theirs needs to be right.\<close>

definition demo_post_call :: post_call where
  "demo_post_call = bridge_call.extend demo_call
     \<lparr>pc_headers = \<lambda>_. None, pc_checked = 0, pc_authorized = 0, pc_dated = 0, pc_logged = 0, pc_asked = 0,
      pc_reply_dated = 0, pc_reply_logged = 0, pc_answered = 0, pc_instant = 5, pc_date = \<lambda>_. ''2026-01-01'',
      pc_token_seed = demo_seed 3, pc_session_seed = demo_seed 4, pc_agent_seed = demo_seed 5,
      pc_parse_time = \<lambda>_. Inr 0, pc_alnum = \<lambda>_. False, pc_gateway = \<lambda>_ _ _. None, pc_bridge_config = \<lambda>_. None\<rparr>"

definition demo_signed_post :: signed_post where
  "demo_signed_post = \<lparr>sp_parent = None, sp_subject = [], sp_body = ''hi'', sp_author = ''victim'', sp_handle = [],
     sp_created_at = [], sp_signature = []\<rparr>"

definition demo_post_web :: "(memory_store, memory_reporter) post_web" where
  "demo_post_web = bridge_web.extend demo_bridge_web
     \<lparr>po_sessions = hm_empty, po_rate = hm_empty, po_agents = hm_empty, po_moderation = mod_log_new, po_llm_day = ([], 0)\<rparr>"

lemma demo_names_victim: "names_at ''victim'' 0 (demo_post_call, ''lobby'', demo_signed_post)"
proof -
  have "trim ''hi'' \<noteq> []" by code_simp
  then show ?thesis
    by (simp add: names_at_def demo_signed_post_def demo_post_call_def bridge_call.defs RATE_WINDOW_def)
qed

theorem quota_spent_by_anyone_witness:
  "limited (snd (snd (api_post_signed memory_ops mr_report demo_env demo_mac demo_post_call ''lobby'' demo_signed_post
    (fst (signed_posts memory_ops mr_report demo_env demo_mac demo_post_web
      (replicate 20 (demo_post_call, ''lobby'', demo_signed_post)))))))"
proof -
  have "list_all (names_at ''victim'' 0) (replicate 20 (demo_post_call, ''lobby'', demo_signed_post))"
    using demo_names_victim by (simp add: list_all_iff)
  moreover have "no_window (po_rate demo_post_web) ''victim'' 0"
    by (simp add: no_window_def demo_post_web_def bridge_web.defs)
  ultimately show ?thesis
    using quota_spent_by_anyone[OF _ _ demo_names_victim, of "replicate 20 (demo_post_call, ''lobby'', demo_signed_post)"
      demo_post_web memory_ops mr_report demo_env demo_mac]
    by (simp add: split_beta)
qed

section \<open>The limiter is the core's\<close>

fun rate_answers :: "post_rate \<Rightarrow> (string \<times> nat) list \<Rightarrow> bool list" where
  "rate_answers ws [] = []"
| "rate_answers ws ((k, n) # cs) = snd (rate_check ws k n) # rate_answers (fst (rate_check ws k n)) cs"

fun rl_answers :: "rate_limiter \<Rightarrow> (string \<times> u64) list \<Rightarrow> bool list" where
  "rl_answers l [] = []"
| "rl_answers l ((k, n) # cs) = snd (rl_allow l k n) # rl_answers (fst (rl_allow l k n)) cs"

definition core_window :: "rate_window \<Rightarrow> rl_window" where
  "core_window w = \<lparr>rw_start_ms = of_nat (wr_start w), rw_count = wr_count w\<rparr>"

definition same_rate :: "post_rate \<Rightarrow> rate_limiter \<Rightarrow> bool" where
  "same_rate ws l \<longleftrightarrow> rl_max l = 20 \<and> rl_window_ms l = 60000000000 \<and>
     (\<forall>k. hm_get (rl_windows l) k = map_option core_window (hm_get ws k)) \<and>
     (\<forall>k w. hm_get ws k = Some w \<longrightarrow> wr_start w < 2 ^ 64)"

lemma expired_core:
  assumes "s < 2 ^ 64" "n < 2 ^ 64"
  shows "(60000000000 :: u64) \<le> saturating_sub (of_nat n) (of_nat s) \<longleftrightarrow> RATE_WINDOW \<le> n - s"
  using assms by (simp add: expired_iff unat_of_nat take_bit_nat_eq_self_iff RATE_WINDOW_def)

lemma rate_check_core:
  assumes "same_rate ws l" "n < 2 ^ 64"
  shows "same_rate (fst (rate_check ws k n)) (fst (rl_allow l k (of_nat n))) \<and>
    snd (rate_check ws k n) = snd (rl_allow l k (of_nat n))"
proof -
  define w where "w = (case hm_get ws k of Some w \<Rightarrow> w | None \<Rightarrow> \<lparr>wr_start = n, wr_count = 0\<rparr>)"
  define v where "v = (if RATE_WINDOW \<le> n - wr_start w then \<lparr>wr_start = n, wr_count = 0\<rparr> else w)"
  define u where "u = (if RATE_MAX_POSTS \<le> wr_count v then v else v\<lparr>wr_count := wr_count v + 1\<rparr>)"
  have small: "wr_start w < 2 ^ 64" using assms by (auto simp: w_def same_rate_def split: option.split)
  then have u_small: "wr_start u < 2 ^ 64" using assms(2) by (simp add: u_def v_def)
  have params: "rl_max l = 20" "rl_window_ms l = 60000000000" using assms(1) by (simp_all add: same_rate_def)
  have web: "rate_check ws k n = (hm_insert k u ws, wr_count v < RATE_MAX_POSTS)"
    by (simp add: rate_check_def w_def[symmetric] v_def[symmetric] u_def Let_def) (auto simp: not_le)
  have cw: "(case hm_get (rl_windows l) k of Some w \<Rightarrow> w | None \<Rightarrow> \<lparr>rw_start_ms = of_nat n, rw_count = 0\<rparr>) = core_window w"
    using assms(1) by (auto simp: same_rate_def w_def core_window_def split: option.split)
  have cv: "(if rl_window_ms l \<le> saturating_sub (of_nat n) (rw_start_ms (core_window w))
      then \<lparr>rw_start_ms = of_nat n, rw_count = 0\<rparr> else core_window w) = core_window v"
    using expired_core[OF small assms(2)] by (simp add: params core_window_def v_def)
  have core: "rl_allow l k (of_nat n) =
      (l\<lparr>rl_windows := hm_insert k (core_window u) (rl_windows l)\<rparr>, wr_count v < RATE_MAX_POSTS)"
    unfolding rl_allow_def Let_def cw cv
    by (auto simp: params u_def core_window_def RATE_MAX_POSTS_def not_le)
  from web core u_small assms(1) show ?thesis
    by (auto simp: same_rate_def)
qed

text \<open>
  The web server's limiter is the core's limiter with a quota of 20 and a window of
  a minute: fed the same calls, each no later than the \<open>u64\<close> nanosecond counter reaches, the two
  give the same answers.
\<close>

theorem post_limiter_is_core_limiter:
  assumes "list_all (\<lambda>(k, n). n < 2 ^ 64) calls"
  shows "rate_answers hm_empty calls = rl_answers (rl_new 20 60000000000) (map (\<lambda>(k, n). (k, of_nat n)) calls)"
proof -
  have "rate_answers ws calls = rl_answers l (map (\<lambda>(k, n). (k, of_nat n)) calls)" if "same_rate ws l" for ws l
    using assms that
  proof (induction calls arbitrary: ws l)
    case (Cons c cs)
    obtain k n where "c = (k, n)" by (cases c)
    with Cons show ?case using rate_check_core[of ws l n k] by simp
  qed simp
  moreover have "same_rate hm_empty (rl_new 20 60000000000)"
    by (simp add: same_rate_def rl_new_def)
  ultimately show ?thesis .
qed

theorem post_limiter_is_core_limiter_witness:
  "rate_answers hm_empty [(''a'', 0), (''b'', 7), (''a'', 60000000000)] =
   rl_answers (rl_new 20 60000000000) [(''a'', 0), (''b'', 7), (''a'', 60000000000)]"
  using post_limiter_is_core_limiter[of "[(''a'', 0), (''b'', 7), (''a'', 60000000000)]"] by simp

end
