(* ===== verification/Web_Boards.thy ===== *)
theory Web_Boards
  imports Web_Posts
begin

text \<open>
  The administration of boards and agent personas over HTTP and the views of the boards
  (\<open>agentbbs-web/src/lib.rs\<close>), and what the board routes together can do to the store.
\<close>

section \<open>Names\<close>

definition board_admin_error :: "error \<Rightarrow> status_code \<times> string" where
  "board_admin_error e =
     ((case e of PermissionDenied _ \<Rightarrow> FORBIDDEN | AlreadyExists _ \<Rightarrow> CONFLICT | NotFound _ \<Rightarrow> NOT_FOUND
       | _ \<Rightarrow> BAD_REQUEST), error_display e)"

definition slug_edge :: "char \<Rightarrow> bool" where
  "slug_edge b \<longleftrightarrow> is_ascii_lowercase b \<or> is_digit b"

definition valid_board_slug :: "string \<Rightarrow> bool" where
  "valid_board_slug s =
     (let n = length s in
      if n = 0 \<or> n > 64 then False
      else if \<not> slug_edge (s ! 0) \<or> \<not> slug_edge (s ! (n - 1)) then False
      else list_all (\<lambda>b. slug_edge b \<or> b = CHR ''-'' \<or> b = CHR ''.'') s)"

definition valid_agent_handle :: "string \<Rightarrow> bool" where
  "valid_agent_handle s \<longleftrightarrow> s \<noteq> [] \<and> length s \<le> 64 \<and>
     list_all (\<lambda>c. is_ascii_lowercase c \<or> is_digit c \<or> c = CHR ''-'' \<or> c = CHR ''_'') s"

section \<open>Boards\<close>

record create_board_request =
  cb_slug :: string
  cb_title :: string
  cb_description :: string

record board_meta_view =
  bv_slug :: string
  bv_title :: string
  bv_description :: string
  bv_locked :: bool

definition api_create_board ::
  "'s store_ops \<Rightarrow> ('r \<Rightarrow> event \<Rightarrow> 'r result) \<Rightarrow> env \<Rightarrow> mac_env \<Rightarrow> post_call \<Rightarrow> create_board_request
    \<Rightarrow> ('s, 'r) post_web \<Rightarrow> ('s, 'r) post_web \<times> board_meta_view answer" where
  "api_create_board T R E M C req w =
     (if \<not> valid_board_slug (cb_slug req) then (w, Inl (BAD_REQUEST, ''invalid slug''))
      else if trim (cb_title req) = [] then (w, Inl (BAD_REQUEST, ''title is required''))
      else
        (let cs = call_caps E M C;
             (w, founder) = identity_for E C (session_token E C) w;
             bd = (board_new (cb_slug req) (cb_title req) founder (pc_dated C))\<lparr>bd_description := cb_description req\<rparr>
         in case svc_create_board T R (pc_logged C) (bw_bbs w) cs bd of
              (b, Inl e) \<Rightarrow> (w\<lparr>bw_bbs := b\<rparr>, Inl (board_admin_error e))
            | (b, Inr _) \<Rightarrow> (w\<lparr>bw_bbs := b\<rparr>, Inr \<lparr>bv_slug = cb_slug req, bv_title = cb_title req,
                bv_description = cb_description req, bv_locked = False\<rparr>)))"

definition api_set_locked ::
  "'s store_ops \<Rightarrow> ('r \<Rightarrow> event \<Rightarrow> 'r result) \<Rightarrow> env \<Rightarrow> mac_env \<Rightarrow> post_call \<Rightarrow> string \<Rightarrow> bool
    \<Rightarrow> ('s, 'r) post_web \<Rightarrow> ('s, 'r) post_web \<times> (string \<times> bool) answer" where
  "api_set_locked T R E M C slug locked w =
     (let cs = call_caps E M C;
          (w, actor) = identity_for E C (session_token E C) w
      in case svc_set_locked T R (pc_logged C) (bw_bbs w) cs slug locked actor of
           (b, Inl e) \<Rightarrow> (w\<lparr>bw_bbs := b\<rparr>, Inl (board_admin_error e))
         | (b, Inr _) \<Rightarrow> (w\<lparr>bw_bbs := b\<rparr>, Inr (slug, locked)))"

section \<open>Agent personas\<close>

record agent_persona_view =
  av_handle :: string
  av_system_prompt :: string
  av_custom :: bool

text \<open>The roster: the built-in agents, each overridden by a custom persona of its handle.\<close>

definition api_list_agents :: "'s store_ops \<Rightarrow> ('s, 'r) post_web \<Rightarrow> agent_persona_view list" where
  "api_list_agents T w =
     (let customs = (case svc_list_personas T (bw_bbs w) READ of Inl _ \<Rightarrow> [] | Inr ps \<Rightarrow> ps);
          builtin = foldl (\<lambda>m h. bt_insert h \<lparr>av_handle = h, av_system_prompt = persona_prompt h, av_custom = False\<rparr> m)
            bt_empty KNOWN_AGENTS
      in map snd (bt_entries (foldl (\<lambda>m p. bt_insert (pa_handle p)
           \<lparr>av_handle = pa_handle p, av_system_prompt = pa_prompt p, av_custom = True\<rparr> m) builtin customs)))"

definition api_set_agent ::
  "'s store_ops \<Rightarrow> ('r \<Rightarrow> event \<Rightarrow> 'r result) \<Rightarrow> env \<Rightarrow> mac_env \<Rightarrow> post_call \<Rightarrow> string \<Rightarrow> string
    \<Rightarrow> ('s, 'r) post_web \<Rightarrow> ('s, 'r) post_web \<times> agent_persona_view answer" where
  "api_set_agent T R E M C req_handle system_prompt w =
     (let handle = to_ascii_lowercase (trim_start_char (CHR ''@'') (trim req_handle))
      in if \<not> valid_agent_handle handle then (w, Inl (BAD_REQUEST, ''invalid handle''))
         else if trim system_prompt = [] then (w, Inl (BAD_REQUEST, ''system_prompt is required''))
         else
           (let cs = call_caps E M C;
                (w, actor) = identity_for E C (session_token E C) w
            in case svc_set_persona T R (pc_logged C) (bw_bbs w) cs \<lparr>pa_handle = handle, pa_prompt = system_prompt\<rparr> actor of
                 (b, Inl e) \<Rightarrow> (w\<lparr>bw_bbs := b\<rparr>, Inl (board_admin_error e))
               | (b, Inr _) \<Rightarrow> (w\<lparr>bw_bbs := b\<rparr>,
                   Inr \<lparr>av_handle = handle, av_system_prompt = system_prompt, av_custom = True\<rparr>)))"

definition api_delete_agent ::
  "'s store_ops \<Rightarrow> ('r \<Rightarrow> event \<Rightarrow> 'r result) \<Rightarrow> env \<Rightarrow> mac_env \<Rightarrow> post_call \<Rightarrow> string
    \<Rightarrow> ('s, 'r) post_web \<Rightarrow> ('s, 'r) post_web \<times> string answer" where
  "api_delete_agent T R E M C handle w =
     (let cs = call_caps E M C;
          (w, actor) = identity_for E C (session_token E C) w
      in case svc_delete_persona T R (pc_logged C) (bw_bbs w) cs handle actor of
           (b, Inl e) \<Rightarrow> (w\<lparr>bw_bbs := b\<rparr>, Inl (board_admin_error e))
         | (b, Inr _) \<Rightarrow> (w\<lparr>bw_bbs := b\<rparr>, Inr handle))"

section \<open>Views\<close>

record board_summary =
  bs_slug :: string
  bs_title :: string
  bs_description :: string
  bs_count :: nat
  bs_locked :: bool

record state_response =
  sr_node :: string
  sr_boards :: "board_summary list"
  sr_total_messages :: nat

definition ok_or_else :: "'a \<Rightarrow> 'a result \<Rightarrow> 'a" where
  "ok_or_else d r = (case r of Inl _ \<Rightarrow> d | Inr x \<Rightarrow> x)"

definition api_state :: "'s store_ops \<Rightarrow> ('s, 'r) post_web \<Rightarrow> state_response" where
  "api_state T w =
     \<lparr>sr_node = PROTOCOL_VERSION,
      sr_boards = map (\<lambda>b. \<lparr>bs_slug = bd_slug b, bs_title = bd_title b, bs_description = bd_description b,
          bs_count = ok_or_else 0 (rbind (svc_read_board T (bw_bbs w) READ (bd_slug b) 1000) (\<lambda>ms. Inr (length ms))),
          bs_locked = bd_locked b\<rparr>)
        (ok_or_else [] (svc_list_boards T (bw_bbs w) READ)),
      sr_total_messages = ok_or_else 0 (op_message_count T (bbs_store (bw_bbs w)))\<rparr>"

text \<open>A message as the board shows it: with the full key of its author.\<close>

definition board_view :: "env \<Rightarrow> message \<Rightarrow> message_view" where
  "board_view E m =
     \<lparr>mv_id = mid (msg_id m), mv_parent = map_option mid (mb_parent (msg_body m)), mv_handle = view_handle E m,
      mv_author = to_hex E (mb_author (msg_body m)), mv_subject = mb_subject (msg_body m),
      mv_body = mb_body (msg_body m), mv_at = rfc3339 E (mb_created_at (msg_body m)),
      mv_verified = (message_verify E m = Inr ()), mv_agent = looks_like_agent (mb_handle (msg_body m)),
      mv_kind = kind_name (mb_kind (msg_body m))\<rparr>"

record board_response =
  br_slug :: string
  br_title :: string
  br_description :: string
  br_messages :: "message_view list"

definition api_board :: "'s store_ops \<Rightarrow> env \<Rightarrow> string \<Rightarrow> ('s, 'r) post_web \<Rightarrow> status_code + board_response" where
  "api_board T E slug w =
     (case ok_or_else None (op_get_board T (bbs_store (bw_bbs w)) slug) of
        None \<Rightarrow> Inl NOT_FOUND
      | Some bd \<Rightarrow> Inr \<lparr>br_slug = bd_slug bd, br_title = bd_title bd, br_description = bd_description bd,
          br_messages = map (board_view E) (ok_or_else [] (svc_read_board T (bw_bbs w) READ slug 500))\<rparr>)"

record whoami_response =
  wi_session :: string
  wi_agent_id :: string
  wi_short :: string

definition api_whoami :: "env \<Rightarrow> post_call \<Rightarrow> ('s, 'r) post_web \<Rightarrow> ('s, 'r) post_web \<times> whoami_response" where
  "api_whoami E C w =
     (let session = session_token E C; (w, a) = identity_for E C session w
      in (w, \<lparr>wi_session = session, wi_agent_id = to_hex E a, wi_short = short_id E a\<rparr>))"

record online_entry =
  oe_handle :: string
  oe_kind :: string
  oe_action :: string

record online_response =
  or_sessions :: nat
  or_you :: string
  or_online :: "online_entry list"

text \<open>Handles in the order they are first met; each once.\<close>

definition online_message :: "env \<Rightarrow> string \<Rightarrow> online_entry list \<Rightarrow> message \<Rightarrow> online_entry list" where
  "online_message E slug online m =
     (let handle = view_handle E m
      in if handle \<in> set (map oe_handle online) then online
         else online @ [\<lparr>oe_handle = handle, oe_kind = (if looks_like_agent handle then ''agent'' else ''human''),
           oe_action = ''active in #'' @ slug\<rparr>])"

definition api_online :: "'s store_ops \<Rightarrow> env \<Rightarrow> post_call \<Rightarrow> ('s, 'r) post_web \<Rightarrow> ('s, 'r) post_web \<times> online_response" where
  "api_online T E C w =
     (let (w, me) = identity_for E C (session_token E C) w;
          boards = ok_or_else [] (svc_list_boards T (bw_bbs w) READ);
          online = foldl (\<lambda>online b. foldl (online_message E (bd_slug b)) online
            (ok_or_else [] (svc_read_board T (bw_bbs w) READ (bd_slug b) 50))) [] boards
      in (w, \<lparr>or_sessions = length (po_sessions w), or_you = short_id E me, or_online = online\<rparr>))"


section \<open>Requests\<close>

datatype web_request =
    RPost string post_request
  | RSigned string signed_post
  | RCreate create_board_request
  | RLock string bool
  | RSetAgent string string
  | RDeleteAgent string
  | RWhoami
  | ROnline

fun web_step :: "'s store_ops \<Rightarrow> ('r \<Rightarrow> event \<Rightarrow> 'r result) \<Rightarrow> env \<Rightarrow> mac_env \<Rightarrow> ('s, 'r) post_web
    \<Rightarrow> post_call \<times> web_request \<Rightarrow> ('s, 'r) post_web" where
  "web_step T R E M w (C, RPost slug req) = fst (api_post T R E C slug req w)"
| "web_step T R E M w (C, RSigned slug req) = fst (api_post_signed T R E M C slug req w)"
| "web_step T R E M w (C, RCreate req) = fst (api_create_board T R E M C req w)"
| "web_step T R E M w (C, RLock slug locked) = fst (api_set_locked T R E M C slug locked w)"
| "web_step T R E M w (C, RSetAgent handle prompt) = fst (api_set_agent T R E M C handle prompt w)"
| "web_step T R E M w (C, RDeleteAgent handle) = fst (api_delete_agent T R E M C handle w)"
| "web_step T R E M w (C, RWhoami) = fst (api_whoami E C w)"
| "web_step T R E M w (C, ROnline) = fst (api_online T E C w)"

section \<open>The routes as service requests\<close>

text \<open>
  Two states of the service are related when the second comes from the first by service
  requests, each with the capabilities of the call or those of an agent.
\<close>

definition served :: "'s store_ops \<Rightarrow> ('r \<Rightarrow> event \<Rightarrow> 'r result) \<Rightarrow> env \<Rightarrow> caps \<Rightarrow> ('s, 'r) bbs \<Rightarrow> ('s, 'r) bbs \<Rightarrow> bool" where
  "served T R E cs b b' \<longleftrightarrow> (\<exists>reqs. b' = foldl (svc_step T R E) b reqs \<and>
     list_all (\<lambda>(t, q). req_caps q \<in> {cs, role_caps Agent}) reqs)"

lemma served_refl [simp, intro]: "served T R E cs b b"
  by (auto simp: served_def intro: exI[of _ "[]"])

lemma served_trans: "served T R E cs b1 b2 \<Longrightarrow> served T R E cs b2 b3 \<Longrightarrow> served T R E cs b1 b3"
  unfolding served_def by (metis (no_types, lifting) foldl_append list_all_append)

lemma served_step: "req_caps q = cs \<or> req_caps q = role_caps Agent \<Longrightarrow> served T R E cs b (svc_step T R E b (t, q))"
  unfolding served_def by (intro exI[of _ "[(t, q)]"]) auto

lemma served_tool_post: "served T R E cs b (fst (tool_post_message T R E created now b (role_caps Agent) i slug subj txt h))"
proof -
  let ?body = "\<lparr>mb_board = slug, mb_parent = None, mb_subject = subj, mb_body = txt, mb_author = ident i,
    mb_handle = h, mb_created_at = created, mb_kind = Post\<rparr>"
  have "caps_contains (role_caps Agent) POST" by code_simp
  then have "fst (tool_post_message T R E created now b (role_caps Agent) i slug subj txt h) =
      (case message_sign E i ?body of Inl e \<Rightarrow> b | Inr m \<Rightarrow> svc_step T R E b (now, SPost (role_caps Agent) m))"
    by (auto simp: tool_post_message_def require_cap_def split: sum.split prod.split)
  then show ?thesis
    by (cases "message_sign E i ?body") (auto simp del: svc_step.simps intro: served_step)
qed

lemma served_loop_in: "served T R E cs (bw_bbs w) (bw_bbs (maybe_loop_in T R E C board txt h w))"
  by (auto simp: maybe_loop_in_def Let_def served_tool_post simp del: role_caps.simps split: option.split prod.split)

lemma session_bbs [simp]: "bw_bbs (fst (session_entry E C s w)) = bw_bbs w" "bw_bbs (fst (identity_for E C s w)) = bw_bbs w"
  by (auto simp: session_entry_def identity_for_def Let_def split: option.split prod.split)

lemma served_sign_and_post: "served T R E cs (bw_bbs w) (bw_bbs (fst (sign_and_post T R E C s board h subj txt w)))"
proof -
  obtain w1 i where s: "session_entry E C s w = (w1, i)" by (rule prod.exhaust)
  have b: "bw_bbs w1 = bw_bbs w" using session_bbs(1)[of E C s w] by (simp add: s)
  let ?i = "from_seed E (secret_seed i)"
  let ?body = "\<lparr>mb_board = board, mb_parent = None, mb_subject = subj, mb_body = txt, mb_author = ident ?i,
    mb_handle = h, mb_created_at = pc_dated C, mb_kind = Post\<rparr>"
  show ?thesis
  proof (cases "message_sign E ?i ?body")
    case (Inl e)
    with s b show ?thesis by (simp add: sign_and_post_def Let_def)
  next
    case (Inr m)
    have "bw_bbs (fst (sign_and_post T R E C s board h subj txt w)) =
        svc_step T R E (bw_bbs w) (pc_logged C, SPost (role_caps Agent) m)"
      using Inr s b by (simp add: sign_and_post_def Let_def split: prod.split)
    then show ?thesis by (simp del: svc_step.simps add: served_step)
  qed
qed

lemma served_post: "served T R E cs (bw_bbs w) (bw_bbs (fst (api_post T R E C slug req w)))"
proof -
  let ?s = "session_token E C" and ?h = "post_handle (session_token E C) (pr_handle req)"
  obtain rate ok where rate: "rate_check (po_rate w) ?s (pc_instant C) = (rate, ok)" by (rule prod.exhaust)
  obtain w1 r where sp: "sign_and_post T R E C ?s slug ?h (default_subject (pr_subject req)) (pr_text req)
      (w\<lparr>po_rate := rate\<rparr>) = (w1, r)" by (rule prod.exhaust)
  define w2 where "w2 = (if looks_like_agent ?h then w1 else maybe_loop_in T R E C slug (pr_text req) ?h w1)"
  have b1: "served T R E cs (bw_bbs w) (bw_bbs w1)"
    using served_sign_and_post[of T R E cs "w\<lparr>po_rate := rate\<rparr>" C ?s slug ?h "default_subject (pr_subject req)" "pr_text req"]
    by (simp add: sp)
  have b2: "served T R E cs (bw_bbs w) (bw_bbs w2)"
    using b1 served_trans[OF b1 served_loop_in] by (simp add: w2_def)
  obtain w3 a where i: "identity_for E C ?s w2 = (w3, a)" by (rule prod.exhaust)
  have b3: "bw_bbs w3 = bw_bbs w2" using session_bbs(2)[of E C ?s w2] by (simp add: i)
  have "bw_bbs (fst (api_post T R E C slug req w)) \<in> {bw_bbs w, bw_bbs w1, bw_bbs w2}"
    by (cases r) (simp_all add: api_post_def Let_def rate sp w2_def[symmetric] i b3)
  with b1 b2 show ?thesis by auto
qed

lemma served_signed: "served T R E (call_caps E M C) (bw_bbs w) (bw_bbs (fst (api_post_signed T R E M C slug req w)))"
proof -
  define rate where "rate = fst (rate_check (po_rate w) (sp_author req) (pc_instant C))"
  show ?thesis
  proof (cases "signed_message E C (po_moderation w) slug req")
    case (Inl e)
    then show ?thesis by (auto simp: api_post_signed_def Let_def split: prod.split)
  next
    case (Inr m)
    obtain b r where post: "svc_post T R E (pc_logged C) (bw_bbs w) (call_caps E M C) m = (b, r)" by (rule prod.exhaust)
    have "b = svc_step T R E (bw_bbs w) (pc_logged C, SPost (call_caps E M C) m)" using post by simp
    then have b: "served T R E (call_caps E M C) (bw_bbs w) b" by (simp add: served_step del: svc_step.simps)
    have "served T R E (call_caps E M C) (bw_bbs w) (bw_bbs (maybe_loop_in T R E C slug (mb_body (msg_body m)) (view_handle E m)
        (w\<lparr>po_rate := rate, bw_bbs := b\<rparr>)))"
      using served_trans[OF b] served_loop_in[of T R E "call_caps E M C" "w\<lparr>po_rate := rate, bw_bbs := b\<rparr>"] by simp
    with b Inr post show ?thesis
      by (cases r) (auto simp: api_post_signed_def Let_def rate_def split: prod.split)
  qed
qed

lemma answered_bbs:
  "bw_bbs (fst (case p of (b, Inl e) \<Rightarrow> (w\<lparr>bw_bbs := b\<rparr>, f e) | (b, Inr x) \<Rightarrow> (w\<lparr>bw_bbs := b\<rparr>, g x))) = fst p"
  by (simp split: prod.split sum.split)

text \<open>The four administration routes are one service request after their session is looked up.\<close>

lemma served_admin:
  "served T R E (call_caps E M C) (bw_bbs w) (bw_bbs (fst (api_create_board T R E M C req w)))"
  "served T R E (call_caps E M C) (bw_bbs w) (bw_bbs (fst (api_set_locked T R E M C slug locked w)))"
  "served T R E (call_caps E M C) (bw_bbs w) (bw_bbs (fst (api_set_agent T R E M C handle prompt w)))"
  "served T R E (call_caps E M C) (bw_bbs w) (bw_bbs (fst (api_delete_agent T R E M C handle w)))"
proof -
  obtain w1 a where i: "identity_for E C (session_token E C) w = (w1, a)" by (rule prod.exhaust)
  have b: "bw_bbs w1 = bw_bbs w" using session_bbs(2)[of E C "session_token E C" w] by (simp add: i)
  let ?cs = "call_caps E M C" and ?now = "pc_logged C"
  show "served T R E ?cs (bw_bbs w) (bw_bbs (fst (api_create_board T R E M C req w)))"
    using served_step[of "SCreate ?cs ((board_new (cb_slug req) (cb_title req) a (pc_dated C))\<lparr>bd_description := cb_description req\<rparr>)"
      ?cs T R E "bw_bbs w" ?now]
    by (simp add: api_create_board_def i b Let_def answered_bbs)
  show "served T R E ?cs (bw_bbs w) (bw_bbs (fst (api_set_locked T R E M C slug locked w)))"
    using served_step[of "SLock ?cs slug locked a" ?cs T R E "bw_bbs w" ?now]
    by (simp add: api_set_locked_def i b Let_def answered_bbs)
  show "served T R E ?cs (bw_bbs w) (bw_bbs (fst (api_set_agent T R E M C handle prompt w)))"
    using served_step[of "SSetPersona ?cs \<lparr>pa_handle = to_ascii_lowercase (trim_start_char (CHR ''@'') (trim handle)),
      pa_prompt = prompt\<rparr> a" ?cs T R E "bw_bbs w" ?now]
    by (simp add: api_set_agent_def i b Let_def answered_bbs)
  show "served T R E ?cs (bw_bbs w) (bw_bbs (fst (api_delete_agent T R E M C handle w)))"
    using served_step[of "SDeletePersona ?cs handle a" ?cs T R E "bw_bbs w" ?now]
    by (simp add: api_delete_agent_def i b Let_def answered_bbs)
qed

lemma served_web_step: "served T R E (call_caps E M C) (bw_bbs w) (bw_bbs (web_step T R E M w (C, r)))"
  by (cases r)
     (auto simp: served_post served_signed served_admin api_whoami_def api_online_def Let_def split: prod.split
       dest: arg_cong[of _ _ "\<lambda>x. bw_bbs (fst x)"])


section \<open>What the routes can do\<close>

abbreviation web_run :: "'s store_ops \<Rightarrow> ('r \<Rightarrow> event \<Rightarrow> 'r result) \<Rightarrow> env \<Rightarrow> mac_env \<Rightarrow> ('s, 'r) post_web
    \<Rightarrow> (post_call \<times> web_request) list \<Rightarrow> ('s, 'r) post_web" where
  "web_run T R E M \<equiv> foldl (web_step T R E M)"

lemma web_run_served:
  "\<exists>reqs. bw_bbs (web_run T R E M w rs) = foldl (svc_step T R E) (bw_bbs w) reqs \<and>
    (\<lambda>(t, q). req_caps q) ` set reqs \<subseteq> insert (role_caps Agent) ((\<lambda>(C, r). call_caps E M C) ` set rs)"
proof (induction rs arbitrary: w)
  case Nil
  then show ?case by (auto intro: exI[of _ "[]"])
next
  case (Cons cr rs)
  obtain C r where cr: "cr = (C, r)" by (cases cr)
  obtain reqs1 where one: "bw_bbs (web_step T R E M w (C, r)) = foldl (svc_step T R E) (bw_bbs w) reqs1"
      "list_all (\<lambda>(t, q). req_caps q \<in> {call_caps E M C, role_caps Agent}) reqs1"
    using served_web_step[of T R E M C w r] unfolding served_def by blast
  obtain reqs where rest: "bw_bbs (web_run T R E M (web_step T R E M w (C, r)) rs) =
        foldl (svc_step T R E) (bw_bbs (web_step T R E M w (C, r))) reqs"
      "(\<lambda>(t, q). req_caps q) ` set reqs \<subseteq> insert (role_caps Agent) ((\<lambda>(C, r). call_caps E M C) ` set rs)"
    using Cons.IH by blast
  show ?case
    using one rest
    by (intro exI[of _ "reqs1 @ reqs"]) (auto simp: cr list_all_iff simp del: role_caps.simps web_step.simps)
qed

text \<open>
  Property C12. The web server goes through the service. Whatever board requests it handles, the
  service and its reporter end where some sequence of service requests would have brought them,
  each made with the capabilities of one of the calls or with those of an agent.
\<close>

theorem web_refines_service:
  "\<exists>reqs. bw_bbs (web_run T R E M w rs) = foldl (svc_step T R E) (bw_bbs w) reqs \<and>
    (\<lambda>(t, q). req_caps q) ` set reqs \<subseteq> insert (role_caps Agent) ((\<lambda>(C, r). call_caps E M C) ` set rs)"
  by (rule web_run_served)

lemma unprivileged_caps:
  assumes "cs = role_caps Agent \<or> cs = role_caps Guest"
  shows "\<not> caps_contains cs CREATE_BOARD" "\<not> caps_contains cs MODERATE" "\<not> caps_contains cs SYSOP"
proof -
  have "\<not> caps_contains (role_caps Agent) CREATE_BOARD" "\<not> caps_contains (role_caps Agent) MODERATE"
    "\<not> caps_contains (role_caps Agent) SYSOP" "\<not> caps_contains (role_caps Guest) CREATE_BOARD"
    "\<not> caps_contains (role_caps Guest) MODERATE" "\<not> caps_contains (role_caps Guest) SYSOP" by code_simp+
  with assms show "\<not> caps_contains cs CREATE_BOARD" "\<not> caps_contains cs MODERATE" "\<not> caps_contains cs SYSOP" by blast+
qed

lemma unprivileged_step:
  assumes "req_caps q = role_caps Agent \<or> req_caps q = role_caps Guest"
  shows "\<exists>ms. writes T (bbs_store b) (map PutMessage ms) (bbs_store (svc_step T R E b (t, q))) \<and>
    list_all (\<lambda>m. message_verify E m = Inr ()) ms"
proof -
  note no = unprivileged_caps[OF assms]
  consider "bbs_store (svc_step T R E b (t, q)) = bbs_store b"
    | p where "store_exec T (bbs_store b) p = (bbs_store (svc_step T R E b (t, q)), Done)"
      "justified T E (bbs_store b) (req_caps q) p"
    using svc_step_effect[of T R E b t q] by blast
  then show ?thesis
  proof cases
    case 1
    then show ?thesis by (intro exI[of _ "[]"]) simp
  next
    case 2
    from 2(2) no obtain m where "p = PutMessage m" "message_verify E m = Inr ()" by cases auto
    with 2(1) show ?thesis by (intro exI[of _ "[m]"]) (simp del: store_exec.simps)
  qed
qed

lemma unprivileged_run:
  assumes "(\<lambda>(t, q). req_caps q) ` set reqs \<subseteq> {role_caps Agent, role_caps Guest}"
  shows "\<exists>ms. writes T (bbs_store b) (map PutMessage ms) (bbs_store (foldl (svc_step T R E) b reqs)) \<and>
    list_all (\<lambda>m. message_verify E m = Inr ()) ms"
  using assms
proof (induction reqs arbitrary: b)
  case Nil
  then show ?case by (auto intro: exI[of _ "[]"])
next
  case (Cons tq reqs)
  obtain t q where tq: "tq = (t, q)" by (cases tq)
  obtain ms1 where 1: "writes T (bbs_store b) (map PutMessage ms1) (bbs_store (svc_step T R E b (t, q)))"
      "list_all (\<lambda>m. message_verify E m = Inr ()) ms1"
    using unprivileged_step[of q T b R E t] Cons.prems by (auto simp: tq simp del: role_caps.simps)
  obtain ms2 where 2: "writes T (bbs_store (svc_step T R E b (t, q))) (map PutMessage ms2)
        (bbs_store (foldl (svc_step T R E) (svc_step T R E b (t, q)) reqs))"
      "list_all (\<lambda>m. message_verify E m = Inr ()) ms2"
    using Cons.IH[of "svc_step T R E b (t, q)"] Cons.prems by (auto simp del: role_caps.simps svc_step.simps)
  show ?case
    using 1 2 by (intro exI[of _ "ms1 @ ms2"]) (auto simp: tq writes_append simp del: svc_step.simps)
qed

text \<open>
  Property C13. Boards and personas are out of reach without a role. Over any history of board
  requests none of which carries a verified claim to more than the agent role, all that is
  written to the store are messages that verify: no board is created, locked or unlocked, and no
  persona changes.
\<close>

theorem administration_needs_a_role:
  assumes "\<forall>(C, r) \<in> set rs. call_caps E M C = role_caps Agent \<or> call_caps E M C = role_caps Guest"
  shows "\<exists>ms. writes T (bbs_store (bw_bbs w)) (map PutMessage ms) (bbs_store (bw_bbs (web_run T R E M w rs))) \<and>
    list_all (\<lambda>m. message_verify E m = Inr ()) ms"
proof -
  obtain reqs where reqs: "bw_bbs (web_run T R E M w rs) = foldl (svc_step T R E) (bw_bbs w) reqs"
    "(\<lambda>(t, q). req_caps q) ` set reqs \<subseteq> insert (role_caps Agent) ((\<lambda>(C, r). call_caps E M C) ` set rs)"
    using web_run_served by blast
  moreover have "(\<lambda>(C, r). call_caps E M C) ` set rs \<subseteq> {role_caps Agent, role_caps Guest}"
    using assms by (auto simp del: role_caps.simps)
  ultimately have "(\<lambda>(t, q). req_caps q) ` set reqs \<subseteq> {role_caps Agent, role_caps Guest}" by blast
  from unprivileged_run[OF this, of T "bw_bbs w" R E] show ?thesis by (simp only: reqs(1))
qed

theorem administration_needs_a_role_witness:
  "call_caps demo_env demo_mac demo_post_call = role_caps Agent \<and>
   (\<exists>ms. writes memory_ops (bbs_store (bw_bbs demo_post_web)) (map PutMessage ms)
      (bbs_store (bw_bbs (web_run memory_ops mr_report demo_env demo_mac demo_post_web
        [(demo_post_call, RLock ''lobby'' True), (demo_post_call, RSigned ''lobby'' demo_signed_post)]))) \<and>
    list_all (\<lambda>m. message_verify demo_env m = Inr ()) ms)"
proof -
  have caps: "call_caps demo_env demo_mac demo_post_call = role_caps Agent"
    by (simp add: call_caps_def resolve_caps_def demo_post_call_def demo_call_def bridge_call.defs unwrap_or_def)
  then have "\<forall>(C, r) \<in> set [(demo_post_call, RLock ''lobby'' True), (demo_post_call, RSigned ''lobby'' demo_signed_post)].
      call_caps demo_env demo_mac C = role_caps Agent \<or> call_caps demo_env demo_mac C = role_caps Guest"
    by (simp del: role_caps.simps)
  from administration_needs_a_role[OF this, of memory_ops demo_post_web mr_report] caps show ?thesis by blast
qed

end
