(* ===== verification/Web_Control.thy ===== *)
theory Web_Control
  imports Web_Boards Web_Pods Credential Decision Approval
begin

text \<open>
  The control-plane routes of the web server (\<open>agentbbs-web/src/lib.rs\<close>): moderation,
  credentials, key rotation, drafts, decisions, proposals and their approval, and the budget with
  its top-ups. The handlers sit in front of the components of the core; a JSON body is already
  parsed, except where the bytes are what an administration proof is bound to.
\<close>

section \<open>State and calls\<close>

record ('s, 'r) control_web = "('s, 'r) post_web" +
  cw_credentials :: credential_store
  cw_rotation :: rotation_chain
  cw_drafts :: draft_queue
  cw_decisions :: decision_log
  cw_proposals :: "action_proposal list"
  cw_gate :: approval_gate
  cw_budget :: budget_ledger
  cw_pods :: "pod_record list"
  cw_admin_replays :: replay_guard

text \<open>
  Besides what a post call brings: the parsing of a top-up from its bytes, \<open>f64\<close> from and to
  text, the configured approvers, and the time of an administration check.
\<close>

record control_call = post_call +
  cc_parse_topup :: "bytes \<Rightarrow> (status_code \<times> string) + (string \<times> f64)"
  cc_parse_f64 :: "string \<Rightarrow> f64 option"
  cc_show_f64 :: "f64 \<Rightarrow> string"
  cc_approvers :: "agent_id list"
  cc_admin_at :: time

section \<open>Moderation\<close>

definition api_moderation_act :: "env \<Rightarrow> mac_env \<Rightarrow> control_call \<Rightarrow> mod_action \<Rightarrow> ('s, 'r) control_web
    \<Rightarrow> ('s, 'r) control_web \<times> unit answer" where
  "api_moderation_act E M C a w =
     (case require_cap (call_caps E M (post_call.truncate C)) MODERATE ''moderate'' of
        Inl e \<Rightarrow> (w, Inl (FORBIDDEN, error_display e))
      | Inr _ \<Rightarrow>
          (case mod_record E (po_moderation w) a of
             Inl _ \<Rightarrow> (w, Inl (BAD_REQUEST, ''moderation action signature invalid''))
           | Inr l \<Rightarrow> (w\<lparr>po_moderation := l\<rparr>, Inr ())))"

record moderation_entry =
  me_agent :: string
  me_banned :: bool
  me_muted :: bool
  me_timed_out_until :: "time option"
  me_can_post :: bool

definition api_moderation_list :: "env \<Rightarrow> time \<Rightarrow> ('s, 'r) control_web \<Rightarrow> moderation_entry list" where
  "api_moderation_list E now w =
     map (\<lambda>t. let st = mod_status_of (po_moderation w) t in
        \<lparr>me_agent = to_hex E t, me_banned = banned st, me_muted = muted st,
         me_timed_out_until = timed_out_until st, me_can_post = status_can_post st now\<rparr>)
       (targets (po_moderation w))"

section \<open>Credentials and rotation\<close>

record credential_view =
  cv_subject :: string
  cv_claim :: string
  cv_issuer :: string
  cv_issued_at :: time
  cv_expires_at :: "time option"

definition credential_view_of :: "env \<Rightarrow> credential \<Rightarrow> credential_view" where
  "credential_view_of E c =
     \<lparr>cv_subject = to_hex E (cr_subject c), cv_claim = cr_claim c, cv_issuer = to_hex E (cr_issuer c),
      cv_issued_at = cr_issued_at c, cv_expires_at = cr_expires_at c\<rparr>"

definition api_credentials_list :: "env \<Rightarrow> time \<Rightarrow> ('s, 'r) control_web \<Rightarrow> credential_view list" where
  "api_credentials_list E now w =
     map (credential_view_of E) (filter (\<lambda>c. cred_is_valid E c now) (cred_all (cw_credentials w)))"

definition api_credentials_issue :: "env \<Rightarrow> credential \<Rightarrow> ('s, 'r) control_web \<Rightarrow> ('s, 'r) control_web \<times> unit answer" where
  "api_credentials_issue E c w =
     (case cred_add E (cw_credentials w) c of
        Inl _ \<Rightarrow> (w, Inl (BAD_REQUEST, ''credential signature invalid''))
      | Inr s \<Rightarrow> (w\<lparr>cw_credentials := s\<rparr>, Inr ()))"

definition api_rotation_link :: "env \<Rightarrow> rotation_link \<Rightarrow> ('s, 'r) control_web \<Rightarrow> ('s, 'r) control_web \<times> unit answer" where
  "api_rotation_link E l w =
     (case chain_add E (cw_rotation w) l of
        Inl _ \<Rightarrow> (w, Inl (BAD_REQUEST, ''rotation link invalid''))
      | Inr c \<Rightarrow> (w\<lparr>cw_rotation := c\<rparr>, Inr ()))"

text \<open>The key, the key it resolves to, and whether they differ.\<close>

definition api_rotation_resolve :: "env \<Rightarrow> string \<Rightarrow> ('s, 'r) control_web \<Rightarrow> (string \<times> string \<times> bool) answer" where
  "api_rotation_resolve E i w =
     (case from_hex E i of
        Inl e \<Rightarrow> Inl (BAD_REQUEST, ''id: '' @ error_display e)
      | Inr agent \<Rightarrow> let resolved = resolve E (cw_rotation w) agent
          in Inr (to_hex E agent, to_hex E resolved, resolved \<noteq> agent))"

section \<open>Drafts\<close>

record draft_create_req =
  dc_target :: string
  dc_in_reply_to :: "string option"
  dc_agent :: string
  dc_context :: string

definition api_drafts_create :: "'s store_ops \<Rightarrow> env \<Rightarrow> control_call \<Rightarrow> draft_create_req \<Rightarrow> ('s, 'r) control_web
    \<Rightarrow> ('s, 'r) control_web \<times> draft answer" where
  "api_drafts_create T E C req w =
     (let agent = to_lower E (trim_start_char (CHR ''@'') (trim (dc_agent req)));
          (day, live_allowed) = llm_quota_ok (be_var C) (pc_date C (pc_asked C)) (po_llm_day w);
          w = w\<lparr>po_llm_day := day\<rparr>;
          prompt = resolve_persona_prompt T (bw_bbs w) agent;
          (subject, body) = compose_reply (be_var C) (pc_gateway C) agent (dc_context req) live_allowed prompt
      in case draft_reply E (dc_target req) (dc_in_reply_to req) agent subject body (dc_context req) (pc_dated C) of
           Inl e \<Rightarrow> (w, Inl (UNPROCESSABLE_ENTITY, ''draft refused: '' @ error_display e))
         | Inr d \<Rightarrow> (w\<lparr>cw_drafts := draft_add (cw_drafts w) d\<rparr>, Inr d))"

definition api_drafts_list :: "('s, 'r) control_web \<Rightarrow> draft list" where
  "api_drafts_list w = draft_pending (cw_drafts w)"

definition drafts_answer :: "('s, 'r) control_web \<Rightarrow> draft_queue \<times> bool \<Rightarrow> ('s, 'r) control_web \<times> unit answer" where
  "drafts_answer w r = (case r of (q, ok) \<Rightarrow>
     (w\<lparr>cw_drafts := q\<rparr>, if ok then Inr () else Inl (NOT_FOUND, ''draft not found or already decided'')))"

definition api_drafts_edit :: "string \<Rightarrow> string \<Rightarrow> ('s, 'r) control_web \<Rightarrow> ('s, 'r) control_web \<times> unit answer" where
  "api_drafts_edit i body w = drafts_answer w (draft_edit (cw_drafts w) i body)"

definition api_drafts_mark_sent :: "string \<Rightarrow> ('s, 'r) control_web \<Rightarrow> ('s, 'r) control_web \<times> unit answer" where
  "api_drafts_mark_sent i w = drafts_answer w (draft_mark_sent (cw_drafts w) i)"

definition api_drafts_discard :: "string \<Rightarrow> ('s, 'r) control_web \<Rightarrow> ('s, 'r) control_web \<times> unit answer" where
  "api_drafts_discard i w = drafts_answer w (draft_discard (cw_drafts w) i)"

section \<open>Decisions and approvals\<close>

definition api_decision_create :: "env \<Rightarrow> decision_record \<Rightarrow> ('s, 'r) control_web
    \<Rightarrow> ('s, 'r) control_web \<times> decision_record answer" where
  "api_decision_create E r w =
     (case dlog_add E (cw_decisions w) r of
        Inl e \<Rightarrow> (w, Inl (UNPROCESSABLE_ENTITY, ''invalid decision: '' @ error_display e))
      | Inr l \<Rightarrow> (w\<lparr>cw_decisions := l\<rparr>, Inr r))"

record propose_req =
  pq_kind :: string
  pq_summary :: string
  pq_proposer :: string
  pq_board :: string

definition api_approvals_propose :: "env \<Rightarrow> control_call \<Rightarrow> propose_req \<Rightarrow> ('s, 'r) control_web
    \<Rightarrow> ('s, 'r) control_web \<times> action_proposal answer" where
  "api_approvals_propose E C req w =
     (case from_hex E (pq_proposer req) of
        Inl e \<Rightarrow> (w, Inl (BAD_REQUEST, ''proposer: '' @ error_display e))
      | Inr proposer \<Rightarrow>
          if trim (pq_summary req) = [] \<or> trim (pq_kind req) = []
          then (w, Inl (BAD_REQUEST, ''kind and summary required''))
          else (let p = proposal_new E (pq_kind req) (pq_summary req) proposer (pq_board req) (pc_dated C)
                in (w\<lparr>cw_proposals := cw_proposals w @ [p]\<rparr>, Inr p)))"

definition approvals_decide :: "env \<Rightarrow> control_call \<Rightarrow> signed_decision \<Rightarrow> ('s, 'r) control_web
    \<Rightarrow> ('s, 'r) control_web \<times> unit answer" where
  "approvals_decide E C d w =
     (case check_approver (sd_decider d) (cc_approvers C) of
        Inl reason \<Rightarrow> (w, Inl (FORBIDDEN, reason))
      | Inr _ \<Rightarrow>
          (case gate_record E (cw_gate w) d of
             Inl _ \<Rightarrow> (w, Inl (BAD_REQUEST, ''decision signature invalid''))
           | Inr g \<Rightarrow> (w\<lparr>cw_gate := g\<rparr>, Inr ())))"

record approval_view =
  al_proposal :: action_proposal
  al_authorized :: bool
  al_decisions :: "(string \<times> verdict \<times> string) list"  \<comment> \<open>decider, verdict, reason\<close>

definition api_approvals_list :: "env \<Rightarrow> agent_id list \<Rightarrow> ('s, 'r) control_web \<Rightarrow> approval_view list" where
  "api_approvals_list E approvers w =
     map (\<lambda>p. \<lparr>al_proposal = p, al_authorized = is_authorized E (cw_gate w) (ap_action_id p) approvers,
        al_decisions = map (\<lambda>d. (to_hex E (sd_decider d), sd_verdict d, sd_reason d))
          (decisions_for (cw_gate w) (ap_action_id p))\<rparr>) (cw_proposals w)"

section \<open>The budget\<close>

text \<open>The budget of each pod, by pod and domain.\<close>

definition api_budget :: "('s, 'r) control_web \<Rightarrow> (string \<times> string \<times> budget_status) list" where
  "api_budget w =
     map (\<lambda>p. (pd_id p, pt_domain (sp_template (pd_spec p)),
        budget_status_of (cw_budget w) (pd_id p) (pt_per_agent_cap_usd (sp_template (pd_spec p))))) (cw_pods w)"

definition DEFAULT_TOPUP_MAX_USD :: f64 where
  "DEFAULT_TOPUP_MAX_USD = 0x4039000000000000"  \<comment> \<open>25.0\<close>

definition topup_max_usd :: "control_call \<Rightarrow> f64" where
  "topup_max_usd C =
     (case Option.bind (be_var C ''AGENTBBS_TOPUP_MAX_USD'') (\<lambda>v. cc_parse_f64 C (trim v)) of
        Some v \<Rightarrow> if f64_is_finite v \<and> f64_lt 0 v then v else DEFAULT_TOPUP_MAX_USD
      | None \<Rightarrow> DEFAULT_TOPUP_MAX_USD)"

definition topup_request :: "control_call \<Rightarrow> bytes \<Rightarrow> admin_request" where
  "topup_request C body = \<lparr>ar_now = timestamp (cc_admin_at C), ar_headers = pc_headers C, ar_action = TOPUP,
     ar_path = ''/api/budget/topup'', ar_body = body\<rparr>"

definition api_budget_topup :: "env \<Rightarrow> mac_env \<Rightarrow> control_call \<Rightarrow> bytes \<Rightarrow> ('s, 'r) control_web
    \<Rightarrow> ('s, 'r) control_web \<times> unit answer" where
  "api_budget_topup E M C body w =
     (case require_admin_action E M (unwrap_or [] (be_var C ''AGENTBBS_ADMIN_ACTION_SECRET''))
             (unwrap_or [] (be_var C ''AGENTBBS_ADMIN_ACTION_AUDIENCE'')) (cw_admin_replays w) (topup_request C body) of
        (g, Inl e) \<Rightarrow> (w\<lparr>cw_admin_replays := g\<rparr>, Inl e)
      | (g, Inr _) \<Rightarrow>
          (let w = w\<lparr>cw_admin_replays := g\<rparr>
           in case cc_parse_topup C body of
                Inl e \<Rightarrow> (w, Inl e)
              | Inr (pod_id, amount) \<Rightarrow>
                  if \<not> f64_is_finite amount \<or> f64_le amount 0 then (w, Inl (BAD_REQUEST, ''amount must be > 0''))
                  else if f64_lt (topup_max_usd C) amount
                  then (w, Inl (BAD_REQUEST, ''amount exceeds the per-request top-up limit of '' @
                         cc_show_f64 C (topup_max_usd C) @ '' USD''))
                  else (w\<lparr>cw_budget := bump_cap (cw_budget w) pod_id amount\<rparr>, Inr ())))"


section \<open>Runs\<close>

datatype control_request =
    CModerate mod_action
  | CCredential credential
  | CLink rotation_link
  | CDraft draft_create_req
  | CEdit string string
  | CSent string
  | CDiscard string
  | CDecision decision_record
  | CPropose propose_req
  | CDecide signed_decision
  | CTopup bytes

fun control_step :: "'s store_ops \<Rightarrow> env \<Rightarrow> mac_env \<Rightarrow> ('s, 'r) control_web \<Rightarrow> control_call \<times> control_request
    \<Rightarrow> ('s, 'r) control_web" where
  "control_step T E M w (C, CModerate a) = fst (api_moderation_act E M C a w)"
| "control_step T E M w (C, CCredential c) = fst (api_credentials_issue E c w)"
| "control_step T E M w (C, CLink l) = fst (api_rotation_link E l w)"
| "control_step T E M w (C, CDraft req) = fst (api_drafts_create T E C req w)"
| "control_step T E M w (C, CEdit i body) = fst (api_drafts_edit i body w)"
| "control_step T E M w (C, CSent i) = fst (api_drafts_mark_sent i w)"
| "control_step T E M w (C, CDiscard i) = fst (api_drafts_discard i w)"
| "control_step T E M w (C, CDecision r) = fst (api_decision_create E r w)"
| "control_step T E M w (C, CPropose req) = fst (api_approvals_propose E C req w)"
| "control_step T E M w (C, CDecide d) = fst (approvals_decide E C d w)"
| "control_step T E M w (C, CTopup body) = fst (api_budget_topup E M C body w)"

section \<open>The ceiling of a top-up\<close>

lemma finite_not_nan: "f64_is_finite x \<Longrightarrow> \<not> f64_is_nan x"
  by (auto simp: f64_is_finite_def f64_is_nan_def)

lemma finite_not_le: "f64_is_finite x \<Longrightarrow> f64_is_finite y \<Longrightarrow> \<not> f64_le x y \<Longrightarrow> f64_lt y x"
  by (auto simp: f64_le_def f64_lt_def finite_not_nan)

lemma finite_not_lt: "f64_is_finite x \<Longrightarrow> f64_is_finite y \<Longrightarrow> \<not> f64_lt x y \<Longrightarrow> f64_le y x"
  by (auto simp: f64_le_def f64_lt_def finite_not_nan)

lemma topup_max_finite: "f64_is_finite (topup_max_usd C)"
proof -
  have "f64_is_finite DEFAULT_TOPUP_MAX_USD"
    by (simp add: DEFAULT_TOPUP_MAX_USD_def f64_is_finite_def f64_mag_def inf_mag_def sign_bit_def hidden_def)
  then show ?thesis by (simp add: topup_max_usd_def split: option.split)
qed

section \<open>Where the records come from\<close>

text \<open>The four logs of signed records, and for each what a request may add to it.\<close>

definition mod_sources :: "env \<Rightarrow> mac_env \<Rightarrow> (control_call \<times> control_request) set \<Rightarrow> mod_action set" where
  "mod_sources E M rs = {a. mod_verify E a = Inr () \<and>
     (\<exists>C. (C, CModerate a) \<in> rs \<and> caps_contains (call_caps E M (post_call.truncate C)) MODERATE)}"

definition cred_sources :: "env \<Rightarrow> (control_call \<times> control_request) set \<Rightarrow> credential set" where
  "cred_sources E rs = {c. cred_verify E c = Inr () \<and> (\<exists>C. (C, CCredential c) \<in> rs)}"

definition record_sources :: "env \<Rightarrow> (control_call \<times> control_request) set \<Rightarrow> decision_record set" where
  "record_sources E rs = {r. record_verify E r = Inr () \<and> (\<exists>C. (C, CDecision r) \<in> rs)}"

definition decision_sources :: "env \<Rightarrow> (control_call \<times> control_request) set \<Rightarrow> signed_decision set" where
  "decision_sources E rs = {d. decision_verify E d = Inr () \<and>
     (\<exists>C. (C, CDecide d) \<in> rs \<and> sd_decider d \<in> set (cc_approvers C))}"

lemmas sources = mod_sources_def cred_sources_def record_sources_def decision_sources_def

definition sourced :: "env \<Rightarrow> mac_env \<Rightarrow> (control_call \<times> control_request) set \<Rightarrow> ('s, 'r) control_web \<Rightarrow> ('s, 'r) control_web \<Rightarrow> bool" where
  "sourced E M rs w w' \<longleftrightarrow>
     set (actions (po_moderation w')) \<subseteq> set (actions (po_moderation w)) \<union> mod_sources E M rs \<and>
     set (creds (cw_credentials w')) \<subseteq> set (creds (cw_credentials w)) \<union> cred_sources E rs \<and>
     set (records (cw_decisions w')) \<subseteq> set (records (cw_decisions w)) \<union> record_sources E rs \<and>
     set (decisions (cw_gate w')) \<subseteq> set (decisions (cw_gate w)) \<union> decision_sources E rs"

lemma sourced_refl [simp]: "sourced E M rs w w"
  by (simp add: sourced_def)

lemma sources_mono:
  assumes "rs \<subseteq> qs"
  shows "mod_sources E M rs \<subseteq> mod_sources E M qs" "cred_sources E rs \<subseteq> cred_sources E qs"
    "record_sources E rs \<subseteq> record_sources E qs" "decision_sources E rs \<subseteq> decision_sources E qs"
  using assms by (auto simp: sources)

lemma subset_chain: "A2 \<subseteq> A1 \<union> Q \<Longrightarrow> A1 \<subseteq> A \<union> P \<Longrightarrow> P \<subseteq> U \<Longrightarrow> Q \<subseteq> U \<Longrightarrow> A2 \<subseteq> A \<union> U"
  by blast

lemma sourced_trans:
  assumes "sourced E M rs w w1" "sourced E M qs w1 w2"
  shows "sourced E M (rs \<union> qs) w w2"
proof -
  have sub: "rs \<subseteq> rs \<union> qs" "qs \<subseteq> rs \<union> qs" by blast+
  note mono = sources_mono[OF sub(1)] sources_mono[OF sub(2)]
  from assms show ?thesis
    unfolding sourced_def by (elim conjE) (intro conjI; erule (1) subset_chain; rule mono)
qed

lemma check_approver_Inr: "check_approver a approvers = Inr u \<longleftrightarrow> a \<in> set approvers"
  by (auto simp: check_approver_def list_ex_iff)

lemma sourced_moderate: "sourced E M {(C, CModerate a)} w (fst (api_moderation_act E M C a w))"
proof (cases "require_cap (call_caps E M (post_call.truncate C)) MODERATE ''moderate''")
  case (Inl e)
  then show ?thesis by (simp add: api_moderation_act_def)
next
  case (Inr u)
  show ?thesis
  proof (cases "mod_record E (po_moderation w) a")
    case (Inl e)
    with Inr show ?thesis by (simp add: api_moderation_act_def)
  next
    case ok: (Inr l)
    have "caps_contains (call_caps E M (post_call.truncate C)) MODERATE" using Inr by (simp add: require_cap_Inr_iff)
    with Inr ok mod_log.admit_items[OF ok] mod_log.admit_verified[OF ok] show ?thesis
      by (auto simp: api_moderation_act_def sourced_def sources)
  qed
qed

lemma sourced_decide: "sourced E M {(C, CDecide d)} w (fst (approvals_decide E C d w))"
proof (cases "check_approver (sd_decider d) (cc_approvers C)")
  case (Inl e)
  then show ?thesis by (simp add: approvals_decide_def)
next
  case (Inr u)
  show ?thesis
  proof (cases "gate_record E (cw_gate w) d")
    case (Inl e)
    with Inr show ?thesis by (simp add: approvals_decide_def)
  next
    case ok: (Inr g)
    have "sd_decider d \<in> set (cc_approvers C)" using Inr by (metis check_approver_Inr)
    with Inr ok gate_log.admit_items[OF ok] gate_log.admit_verified[OF ok] show ?thesis
      by (auto simp: approvals_decide_def sourced_def sources)
  qed
qed

lemma sourced_credential: "sourced E M {(C, CCredential c)} w (fst (api_credentials_issue E c w))"
proof (cases "cred_add E (cw_credentials w) c")
  case (Inl e)
  then show ?thesis by (simp add: api_credentials_issue_def)
next
  case (Inr s)
  with cred_log.admit_items[OF Inr] cred_log.admit_verified[OF Inr] show ?thesis
    by (auto simp: api_credentials_issue_def sourced_def sources)
qed

lemma sourced_record: "sourced E M {(C, CDecision r)} w (fst (api_decision_create E r w))"
proof (cases "dlog_add E (cw_decisions w) r")
  case (Inl e)
  then show ?thesis by (simp add: api_decision_create_def)
next
  case (Inr l)
  with dlog.admit_items[OF Inr] dlog.admit_verified[OF Inr] show ?thesis
    by (auto simp: api_decision_create_def sourced_def sources)
qed

text \<open>The other routes keep their hands off the four logs.\<close>

lemma other_logs:
  assumes "case r of CModerate _ \<Rightarrow> False | CCredential _ \<Rightarrow> False | CDecision _ \<Rightarrow> False | CDecide _ \<Rightarrow> False | _ \<Rightarrow> True"
  shows "po_moderation (control_step T E M w (C, r)) = po_moderation w \<and>
    cw_credentials (control_step T E M w (C, r)) = cw_credentials w \<and>
    cw_decisions (control_step T E M w (C, r)) = cw_decisions w \<and> cw_gate (control_step T E M w (C, r)) = cw_gate w"
  using assms
  by (cases r)
     (auto simp: api_rotation_link_def api_drafts_create_def api_drafts_edit_def api_drafts_mark_sent_def
       api_drafts_discard_def drafts_answer_def api_approvals_propose_def api_budget_topup_def Let_def
       split: sum.split prod.split)

lemma sourced_step: "sourced E M {(C, r)} w (control_step T E M w (C, r))"
proof (cases "case r of CModerate _ \<Rightarrow> False | CCredential _ \<Rightarrow> False | CDecision _ \<Rightarrow> False | CDecide _ \<Rightarrow> False | _ \<Rightarrow> True")
  case True
  then show ?thesis using other_logs[OF True, of T E M w C] by (simp add: sourced_def)
next
  case False
  then show ?thesis
    by (cases r) (simp_all add: sourced_moderate sourced_credential sourced_record sourced_decide)
qed

text \<open>
  Property C14. Every record on the control plane has a source. Over any history of requests a
  moderation action on file verifies and came with a claim to MODERATE, a decision of the gate
  verifies and its decider was a configured approver of the call, and every credential and
  decision record verifies and was filed by a request; nothing else enters the four logs.
\<close>

theorem control_records_have_sources:
  "sourced E M (set rs) w (foldl (control_step T E M) w rs)"
proof (induction rs arbitrary: w)
  case Nil
  then show ?case by simp
next
  case (Cons cr rs)
  obtain C r where cr: "cr = (C, r)" by (cases cr)
  have "sourced E M ({(C, r)} \<union> set rs) w (foldl (control_step T E M) (control_step T E M w (C, r)) rs)"
    by (rule sourced_trans[OF sourced_step Cons.IH])
  then show ?case by (simp add: cr)
qed

text \<open>
  Property C39. A top-up that is accepted carried an administration proof for exactly this path
  and body that had not been used, and raised the cap of the pod it names by a finite positive
  amount within the ceiling of a request; one that is not accepted leaves the budget alone.
\<close>

theorem topup_is_bounded:
  "case api_budget_topup E M C body w of
     (w', Inl e) \<Rightarrow> cw_budget w' = cw_budget w
   | (w', Inr _) \<Rightarrow> \<exists>proof pod_id amount.
       admin_verify E M (pc_headers C) TOPUP \<lparr>br_method = ''POST'', br_path = ''/api/budget/topup'', br_body = body\<rparr>
         (unwrap_or [] (be_var C ''AGENTBBS_ADMIN_ACTION_SECRET''))
         (unwrap_or [] (be_var C ''AGENTBBS_ADMIN_ACTION_AUDIENCE'')) (timestamp (cc_admin_at C)) = Inr proof \<and>
       consume (cw_admin_replays w) (vp_jti proof) (vp_exp proof) (timestamp (cc_admin_at C)) = (cw_admin_replays w', Inr ()) \<and>
       cc_parse_topup C body = Inr (pod_id, amount) \<and> f64_is_finite amount \<and> f64_lt 0 amount \<and>
       f64_le amount (topup_max_usd C) \<and> cw_budget w' = bump_cap (cw_budget w) pod_id amount"
proof -
  let ?r = "topup_request C body" and ?s = "unwrap_or [] (be_var C ''AGENTBBS_ADMIN_ACTION_SECRET'')"
    and ?a = "unwrap_or [] (be_var C ''AGENTBBS_ADMIN_ACTION_AUDIENCE'')"
  obtain g res where adm: "require_admin_action E M ?s ?a (cw_admin_replays w) ?r = (g, res)" by (rule prod.exhaust)
  show ?thesis
  proof (cases res)
    case (Inl e)
    with adm show ?thesis by (simp add: api_budget_topup_def)
  next
    case (Inr p)
    with adm have ver: "admin_verify E M (ar_headers ?r) (ar_action ?r) (ar_bound ?r) ?s ?a (ar_now ?r) = Inr p"
      and con: "consume (cw_admin_replays w) (vp_jti p) (vp_exp p) (ar_now ?r) = (g, Inr ())"
      by (auto simp: require_admin_action_def split: sum.splits prod.splits)
    show ?thesis
    proof (cases "cc_parse_topup C body")
      case (Inl e)
      with adm \<open>res = Inr p\<close> show ?thesis by (simp add: api_budget_topup_def)
    next
      case parsed: (Inr pa)
      obtain pod_id amount where pa: "pa = (pod_id, amount)" by (rule prod.exhaust)
      show ?thesis
      proof (cases "f64_is_finite amount \<and> \<not> f64_le amount 0 \<and> \<not> f64_lt (topup_max_usd C) amount")
        case True
        then have "f64_lt 0 amount" "f64_le amount (topup_max_usd C)"
          using finite_not_le[of amount 0] zero_finite finite_not_lt[of "topup_max_usd C" amount] topup_max_finite by auto
        with adm Inr parsed pa True ver con show ?thesis
          by (auto simp: api_budget_topup_def topup_request_def ar_bound_def)
      next
        case False
        then have "snd (api_budget_topup E M C body w) \<noteq> Inr ()" "cw_budget (fst (api_budget_topup E M C body w)) = cw_budget w"
          by (auto simp: api_budget_topup_def adm Inr parsed pa Let_def)
        then show ?thesis by (auto split: prod.split sum.split)
      qed
    qed
  qed
qed

end
