(* ===== verification/Mcp.thy ===== *)
theory Mcp
  imports Tools Ratelimit Str_Split
begin

text \<open>
  The bridge to the Model Context Protocol (\<open>agentbbs-mcp\<close>): JSON-RPC messages
  (\<open>jsonrpc.rs\<close>), the server and its tools (\<open>server.rs\<close>) and the line loop that drives it
  (\<open>transport.rs\<close>). Reading and writing JSON text, the sink the replies go to and the clock are
  arguments; the server reports to the reporter of its service, as the program sets it up.
\<close>

section \<open>JSON-RPC\<close>

definition JSONRPC_VERSION :: string where
  "JSONRPC_VERSION = ''2.0''"

definition PARSE_ERROR :: int where "PARSE_ERROR = -32700"
definition INVALID_REQUEST :: int where "INVALID_REQUEST = -32600"
definition METHOD_NOT_FOUND :: int where "METHOD_NOT_FOUND = -32601"
definition INVALID_PARAMS :: int where "INVALID_PARAMS = -32602"
definition INTERNAL_ERROR :: int where "INTERNAL_ERROR = -32603"
definition APPLICATION_ERROR :: int where "APPLICATION_ERROR = -32000"

record rpc_request =
  rq_jsonrpc :: string
  rq_id :: "json option"
  rq_method :: string
  rq_params :: json

definition request_new :: "json \<Rightarrow> string \<Rightarrow> json \<Rightarrow> rpc_request" where
  "request_new i method params =
     \<lparr>rq_jsonrpc = JSONRPC_VERSION, rq_id = Some i, rq_method = method, rq_params = params\<rparr>"

definition is_notification :: "rpc_request \<Rightarrow> bool" where
  "is_notification r \<longleftrightarrow> rq_id r = None"

record rpc_error =
  re_code :: int
  re_message :: string
  re_data :: "json option"

definition rpc_error_new :: "int \<Rightarrow> string \<Rightarrow> rpc_error" where
  "rpc_error_new code message = \<lparr>re_code = code, re_message = message, re_data = None\<rparr>"

definition rpc_error_with_data :: "int \<Rightarrow> string \<Rightarrow> json \<Rightarrow> rpc_error" where
  "rpc_error_with_data code message data = \<lparr>re_code = code, re_message = message, re_data = Some data\<rparr>"

record rpc_response =
  rp_jsonrpc :: string
  rp_id :: json
  rp_result :: "json option"
  rp_error :: "rpc_error option"

definition response_ok :: "json \<Rightarrow> json \<Rightarrow> rpc_response" where
  "response_ok i result = \<lparr>rp_jsonrpc = JSONRPC_VERSION, rp_id = i, rp_result = Some result, rp_error = None\<rparr>"

definition response_err :: "json \<Rightarrow> rpc_error \<Rightarrow> rpc_response" where
  "response_err i e = \<lparr>rp_jsonrpc = JSONRPC_VERSION, rp_id = i, rp_result = None, rp_error = Some e\<rparr>"

section \<open>Values\<close>

text \<open>\<open>as_u64\<close>, \<open>as_array\<close> and \<open>as_f64\<close>.\<close>

fun json_u64 :: "json \<Rightarrow> nat option" where
  "json_u64 (JNum n) = (if 0 \<le> n \<and> n < 2 ^ 64 then Some (nat n) else None)"
| "json_u64 _ = None"

fun json_array :: "json \<Rightarrow> json list option" where
  "json_array (JArr xs) = Some xs"
| "json_array _ = None"

fun json_f64 :: "json \<Rightarrow> f64 option" where
  "json_f64 (JNum n) = Some (f64_of (n < 0) (f64_mag (f64_of_nat (nat \<bar>n\<bar>))))"
| "json_f64 (JFloat x) = Some x"
| "json_f64 _ = None"

definition str_arg :: "string \<Rightarrow> json \<Rightarrow> string option" where
  "str_arg k args = Option.bind (json_get args k) as_str"

text \<open>\<open>collect::<Option<Vec<f32>>>\<close>: one element that is no number, and there is no vector.\<close>

fun f32_vector :: "json list \<Rightarrow> f32 list option" where
  "f32_vector [] = Some []"
| "f32_vector (v # vs) =
     (case json_f64 v of None \<Rightarrow> None | Some x \<Rightarrow> map_option ((#) (f32_of_f64 x)) (f32_vector vs))"

section \<open>The server\<close>

definition MCP_PROTOCOL_VERSION :: string where
  "MCP_PROTOCOL_VERSION = ''2024-11-05''"

record ('s, 'r) mcp =
  mcp_bbs :: "('s, 'r) bbs"
  mcp_identity :: identity
  mcp_caps :: caps
  mcp_memory :: "json rvf_store"
  mcp_rate :: rate_limiter

definition mcp_new :: "('s, 'r) bbs \<Rightarrow> identity \<Rightarrow> caps \<Rightarrow> nat \<Rightarrow> ('s, 'r) mcp" where
  "mcp_new b i cs mem_dim = \<lparr>mcp_bbs = b, mcp_identity = i, mcp_caps = cs, mcp_memory = rvf_new mem_dim,
     mcp_rate = rl_new 120 60000\<rparr>"

definition with_rate_limit :: "u32 \<Rightarrow> u64 \<Rightarrow> ('s, 'r) mcp \<Rightarrow> ('s, 'r) mcp" where
  "with_rate_limit mx window_ms S = S\<lparr>mcp_rate := rl_new mx window_ms\<rparr>"

definition upsert_memory :: "json rvf_record \<Rightarrow> ('s, 'r) mcp \<Rightarrow> ('s, 'r) mcp \<times> unit result" where
  "upsert_memory rec S =
     (case rvf_upsert (mcp_memory S) rec of
        Inl e \<Rightarrow> (S, Inl e)
      | Inr m \<Rightarrow> (S\<lparr>mcp_memory := m\<rparr>, Inr ()))"

text \<open>
  What a call reads from outside: the milliseconds since the server started, the time of a
  message, of the event of the service and of the event of the bridge; and how a hit's metadata
  is displayed.
\<close>

record mcp_call =
  ml_now_ms :: u64
  ml_created :: time
  ml_posted :: time
  ml_reported :: time
  ml_display :: "json \<Rightarrow> string"

definition domain_error_to_rpc :: "error \<Rightarrow> rpc_error" where
  "domain_error_to_rpc e =
     rpc_error_with_data
       (case e of
          PermissionDenied _ \<Rightarrow> APPLICATION_ERROR
        | BadSignature \<Rightarrow> APPLICATION_ERROR
        | NotFound _ \<Rightarrow> APPLICATION_ERROR
        | Malformed _ _ \<Rightarrow> INVALID_PARAMS
        | _ \<Rightarrow> INTERNAL_ERROR)
       (error_display e) (JObj [(''kind'', JStr ''domain_error'')])"

definition mcp_initialize :: json where
  "mcp_initialize = JObj
     [(''capabilities'', JObj
         [(''resources'', JObj [(''listChanged'', JBool False), (''subscribe'', JBool False)]),
          (''tools'', JObj [(''listChanged'', JBool False)])]),
      (''protocolVersion'', JStr MCP_PROTOCOL_VERSION),
      (''serverInfo'', JObj [(''name'', JStr ''agentbbs-mcp''), (''version'', JStr ''0.1.0'')])]"

text \<open>A property of an input schema: its name, its keywords; and a tool of the listing.\<close>

definition object_schema :: "(string \<times> json) list \<Rightarrow> string list \<Rightarrow> json" where
  "object_schema props required = JObj
     ([(''additionalProperties'', JBool False), (''properties'', JObj props)] @
      (if required = [] then [] else [(''required'', JArr (map JStr required))]) @ [(''type'', JStr ''object'')])"

definition tool_entry :: "string \<Rightarrow> string \<Rightarrow> json \<Rightarrow> json" where
  "tool_entry name description schema =
     JObj [(''description'', JStr description), (''inputSchema'', schema), (''name'', JStr name)]"

definition string_prop :: "string \<Rightarrow> json" where
  "string_prop description = JObj [(''description'', JStr description), (''type'', JStr ''string'')]"

definition integer_prop :: "string \<Rightarrow> int \<Rightarrow> json" where
  "integer_prop description dflt =
     JObj [(''default'', JNum dflt), (''description'', JStr description), (''type'', JStr ''integer'')]"

definition mcp_tools_list :: json where
  "mcp_tools_list = JObj [(''tools'', JArr
     [tool_entry ''list_boards'' ''List all message boards on the BBS.'' (object_schema [] []),
      tool_entry ''read_board'' ''Read recent messages from a board.''
        (object_schema [(''board'', string_prop ''Board slug.''), (''limit'', integer_prop ''Max messages.'' 20)] [''board'']),
      tool_entry ''post_message'' ''Post a signed message to a board.''
        (object_schema [(''board'', string_prop ''Board slug.''), (''subject'', string_prop ''Subject line.''),
           (''text'', string_prop ''Message body.'')] [''board'', ''text'']),
      tool_entry ''search_memory'' ''Semantic nearest-neighbour search over agent memory vectors.''
        (object_schema
           [(''query'', JObj [(''description'', JStr ''Query embedding vector.''),
               (''items'', JObj [(''type'', JStr ''number'')]), (''type'', JStr ''array'')]),
            (''top_k'', integer_prop ''Neighbours to return.'' 5)] [''query''])])]"

section \<open>Tools\<close>

definition call_list_boards :: "'s store_ops \<Rightarrow> ('s, 'r) mcp \<Rightarrow> string result" where
  "call_list_boards T S = tool_list_boards T (mcp_bbs S) (mcp_caps S)"

definition missing :: "string \<Rightarrow> error" where
  "missing k = malformed ''arguments'' (''missing '' @ k)"

definition call_read_board :: "'s store_ops \<Rightarrow> env \<Rightarrow> ('s, 'r) mcp \<Rightarrow> json \<Rightarrow> string result" where
  "call_read_board T E S args =
     rbind (ok_or (missing ''board'') (str_arg ''board'' args)) (\<lambda>slug.
       let limit = unwrap_or 20 (Option.bind (json_get args ''limit'') json_u64)
       in tool_read_board T E (mcp_bbs S) (mcp_caps S) slug limit)"

definition call_post_message ::
  "'s store_ops \<Rightarrow> ('r \<Rightarrow> event \<Rightarrow> 'r result) \<Rightarrow> env \<Rightarrow> mcp_call \<Rightarrow> ('s, 'r) mcp \<Rightarrow> json
    \<Rightarrow> ('s, 'r) bbs \<times> string result" where
  "call_post_message T R E C S args =
     (let b = mcp_bbs S in
      orelse_keep b (ok_or (missing ''board'') (str_arg ''board'' args)) (\<lambda>slug.
      orelse_keep b (ok_or (missing ''text'') (str_arg ''text'' args)) (\<lambda>txt.
        tool_post_message T R E (ml_created C) (ml_posted C) b (mcp_caps S) (mcp_identity S) slug
          (unwrap_or [] (str_arg ''subject'' args)) txt [])))"

definition call_search_memory :: "mcp_call \<Rightarrow> ('s, 'r) mcp \<Rightarrow> json \<Rightarrow> string result" where
  "call_search_memory C S args =
     rbind (ok_or (missing ''query'') (Option.bind (json_get args ''query'') json_array)) (\<lambda>items.
     rbind (ok_or (malformed ''query'' ''non-numeric element'') (f32_vector items)) (\<lambda>query.
       tool_search_memory (ml_display C) (mcp_memory S) query
         (unwrap_or 5 (Option.bind (json_get args ''top_k'') json_u64))))"

text \<open>The tool of a name, if there is one.\<close>

definition run_tool ::
  "'s store_ops \<Rightarrow> ('r \<Rightarrow> event \<Rightarrow> 'r result) \<Rightarrow> env \<Rightarrow> mcp_call \<Rightarrow> ('s, 'r) mcp \<Rightarrow> string \<Rightarrow> json
    \<Rightarrow> (('s, 'r) bbs \<times> string result) option" where
  "run_tool T R E C S name args =
     (if name = ''list_boards'' then Some (mcp_bbs S, call_list_boards T S)
      else if name = ''read_board'' then Some (mcp_bbs S, call_read_board T E S args)
      else if name = ''post_message'' then Some (call_post_message T R E C S args)
      else if name = ''search_memory'' then Some (mcp_bbs S, call_search_memory C S args)
      else None)"

definition mcp_report :: "('r \<Rightarrow> event \<Rightarrow> 'r result) \<Rightarrow> mcp_call \<Rightarrow> ('s, 'r) mcp \<Rightarrow> string \<Rightarrow> bool \<Rightarrow> ('s, 'r) mcp" where
  "mcp_report R C S tool ok =
     S\<lparr>mcp_bbs := emit R (mcp_bbs S)
        (event_with (JObj [(''ok'', JBool ok), (''tool'', JStr tool)])
          (event_by (ident (mcp_identity S)) (event_now (ml_reported C) EvMcpCall tool)))\<rparr>"

definition text_content :: "string \<Rightarrow> json" where
  "text_content t = JObj [(''content'', JArr [JObj [(''text'', JStr t), (''type'', JStr ''text'')]]), (''isError'', JBool False)]"

definition tools_call ::
  "'s store_ops \<Rightarrow> ('r \<Rightarrow> event \<Rightarrow> 'r result) \<Rightarrow> env \<Rightarrow> mcp_call \<Rightarrow> ('s, 'r) mcp \<Rightarrow> json
    \<Rightarrow> ('s, 'r) mcp \<times> (rpc_error + json)" where
  "tools_call T R E C S params =
     (case rl_allow (mcp_rate S) ''mcp'' (ml_now_ms C) of
        (rate, admitted) \<Rightarrow>
          (let S = S\<lparr>mcp_rate := rate\<rparr> in
           if \<not> admitted
           then (S\<lparr>mcp_bbs := emit R (mcp_bbs S) (event_now (ml_reported C) EvSecurity ''mcp.rate_limited'')\<rparr>,
                 Inl (rpc_error_new APPLICATION_ERROR ''rate limit exceeded: too many tool calls, slow down''))
           else case str_arg ''name'' params of
               None \<Rightarrow> (S, Inl (rpc_error_new INVALID_PARAMS ''missing tool name''))
             | Some name \<Rightarrow>
                 (case run_tool T R E C S name (unwrap_or JNull (json_get params ''arguments'')) of
                    None \<Rightarrow> (S, Inl (rpc_error_new METHOD_NOT_FOUND (''unknown tool: '' @ name)))
                  | Some (b, out) \<Rightarrow>
                      (mcp_report R C (S\<lparr>mcp_bbs := b\<rparr>) name (is_ok out),
                       case out of Inl e \<Rightarrow> Inl (domain_error_to_rpc e) | Inr t \<Rightarrow> Inr (text_content t)))))"

section \<open>Resources and dispatch\<close>

definition BOARD_URI :: string where
  "BOARD_URI = ''agentbbs://board/''"

definition resource_entry :: "board \<Rightarrow> json" where
  "resource_entry bd = JObj
     [(''description'', JStr (''Recent messages on board '' @ [CHR 0x27] @ bd_slug bd @ [CHR 0x27] @ ''.'')),
      (''mimeType'', JStr ''text/plain''), (''name'', JStr (bd_title bd)), (''uri'', JStr (BOARD_URI @ bd_slug bd))]"

definition resources_list :: "'s store_ops \<Rightarrow> ('s, 'r) mcp \<Rightarrow> rpc_error + json" where
  "resources_list T S =
     (case svc_list_boards T (mcp_bbs S) (mcp_caps S) of
        Inl e \<Rightarrow> Inl (domain_error_to_rpc e)
      | Inr boards \<Rightarrow> Inr (JObj [(''resources'', JArr (map resource_entry boards))]))"

definition resources_read :: "'s store_ops \<Rightarrow> env \<Rightarrow> ('s, 'r) mcp \<Rightarrow> json \<Rightarrow> rpc_error + json" where
  "resources_read T E S params =
     (case str_arg ''uri'' params of
        None \<Rightarrow> Inl (rpc_error_new INVALID_PARAMS ''missing uri'')
      | Some uri \<Rightarrow>
          (case strip_prefix BOARD_URI uri of
             None \<Rightarrow> Inl (rpc_error_new INVALID_PARAMS (''unsupported uri: '' @ uri))
           | Some slug \<Rightarrow>
               (case svc_read_board T (mcp_bbs S) (mcp_caps S) slug 20 of
                  Inl e \<Rightarrow> Inl (domain_error_to_rpc e)
                | Inr msgs \<Rightarrow> Inr (JObj [(''contents'', JArr [JObj
                    [(''mimeType'', JStr ''text/plain''), (''text'', JStr (render_messages E slug msgs)),
                     (''uri'', JStr uri)]])]))))"

definition mcp_dispatch ::
  "'s store_ops \<Rightarrow> ('r \<Rightarrow> event \<Rightarrow> 'r result) \<Rightarrow> env \<Rightarrow> mcp_call \<Rightarrow> ('s, 'r) mcp \<Rightarrow> rpc_request
    \<Rightarrow> ('s, 'r) mcp \<times> (rpc_error + json)" where
  "mcp_dispatch T R E C S req =
     (let m = rq_method req in
      if m = ''initialize'' then (S, Inr mcp_initialize)
      else if m = ''tools/list'' then (S, Inr mcp_tools_list)
      else if m = ''tools/call'' then tools_call T R E C S (rq_params req)
      else if m = ''resources/list'' then (S, resources_list T S)
      else if m = ''resources/read'' then (S, resources_read T E S (rq_params req))
      else (S, Inl (rpc_error_new METHOD_NOT_FOUND (''method not found: '' @ m))))"

definition mcp_handle ::
  "'s store_ops \<Rightarrow> ('r \<Rightarrow> event \<Rightarrow> 'r result) \<Rightarrow> env \<Rightarrow> mcp_call \<Rightarrow> ('s, 'r) mcp \<Rightarrow> rpc_request
    \<Rightarrow> ('s, 'r) mcp \<times> rpc_response" where
  "mcp_handle T R E C S req =
     (let i = unwrap_or JNull (rq_id req) in
      case mcp_dispatch T R E C S req of
        (S, Inr v) \<Rightarrow> (S, response_ok i v)
      | (S, Inl e) \<Rightarrow> (S, response_err i e))"

section \<open>The line loop\<close>

text \<open>
  How a line is read as a request and a response written as JSON, and what becomes of the sink
  when bytes are written and flushed to it.
\<close>

record 'w mcp_io =
  io_parse :: "string \<Rightarrow> string + rpc_request"
  io_write :: "rpc_response \<Rightarrow> bytes option"
  io_sink :: "'w \<Rightarrow> bytes \<Rightarrow> 'w \<times> (string + unit)"

definition SERIALIZE_FAILED :: bytes where
  "SERIALIZE_FAILED = (let q = [CHR 0x22] in
     ''{'' @ q @ ''jsonrpc'' @ q @ '':'' @ q @ ''2.0'' @ q @ '','' @ q @ ''id'' @ q @ '':null,'' @ q @ ''error'' @ q @ '':{'' @
     q @ ''code'' @ q @ '':-32603,'' @ q @ ''message'' @ q @ '':'' @ q @ ''serialize failed'' @ q @ ''}}'')"

definition reply_line :: "'w mcp_io \<Rightarrow> rpc_response \<Rightarrow> bytes" where
  "reply_line io r = unwrap_or SERIALIZE_FAILED (io_write io r) @ [newline]"

text \<open>The response of the loop to a line, if it sends one.\<close>

definition answer_line ::
  "'s store_ops \<Rightarrow> ('r \<Rightarrow> event \<Rightarrow> 'r result) \<Rightarrow> env \<Rightarrow> 'w mcp_io \<Rightarrow> ('s, 'r) mcp \<Rightarrow> mcp_call \<times> string
    \<Rightarrow> ('s, 'r) mcp \<times> rpc_response option" where
  "answer_line T R E io S cl =
     (case cl of (C, line) \<Rightarrow>
       if trim line = [] then (S, None)
       else case io_parse io line of
           Inl e \<Rightarrow> (S, Some (response_err JNull (rpc_error_new PARSE_ERROR (''parse error: '' @ e))))
         | Inr req \<Rightarrow>
             (case mcp_handle T R E C S req of
                (S, resp) \<Rightarrow> (S, if is_notification req then None else Some resp)))"

fun serve_stdio ::
  "'s store_ops \<Rightarrow> ('r \<Rightarrow> event \<Rightarrow> 'r result) \<Rightarrow> env \<Rightarrow> 'w mcp_io \<Rightarrow> ('s, 'r) mcp \<Rightarrow> 'w
    \<Rightarrow> (mcp_call \<times> (string + string)) list \<Rightarrow> ('s, 'r) mcp \<times> 'w \<times> (string + unit)" where
  "serve_stdio T R E io S w [] = (S, w, Inr ())"
| "serve_stdio T R E io S w ((C, Inl e) # ls) = (S, w, Inl e)"
| "serve_stdio T R E io S w ((C, Inr line) # ls) =
     (case answer_line T R E io S (C, line) of
        (S, None) \<Rightarrow> serve_stdio T R E io S w ls
      | (S, Some resp) \<Rightarrow>
          (case io_sink io w (reply_line io resp) of
             (w, Inl e) \<Rightarrow> (S, w, Inl e)
           | (w, Inr _) \<Rightarrow> serve_stdio T R E io S w ls))"

section \<open>Lemmas\<close>

text \<open>A sink that keeps everything, and the lines the loop answers with the id it echoes.\<close>

definition buffered :: "'w mcp_io \<Rightarrow> bytes mcp_io" where
  "buffered io = \<lparr>io_parse = io_parse io, io_write = io_write io, io_sink = \<lambda>w b. (w @ b, Inr ())\<rparr>"

definition asked :: "'w mcp_io \<Rightarrow> string \<Rightarrow> bool" where
  "asked io line \<longleftrightarrow> trim line \<noteq> [] \<and> (case io_parse io line of Inl _ \<Rightarrow> True | Inr req \<Rightarrow> \<not> is_notification req)"

definition asked_id :: "'w mcp_io \<Rightarrow> string \<Rightarrow> json" where
  "asked_id io line = (case io_parse io line of Inl _ \<Rightarrow> JNull | Inr req \<Rightarrow> unwrap_or JNull (rq_id req))"

definition response_wf :: "rpc_response \<Rightarrow> bool" where
  "response_wf r \<longleftrightarrow> rp_jsonrpc r = ''2.0'' \<and> (rp_result r = None) \<noteq> (rp_error r = None)"

lemma response_simps [simp]:
  "rp_id (response_ok i v) = i" "rp_id (response_err i e) = i" "response_wf (response_ok i v)" "response_wf (response_err i e)"
  by (simp_all add: response_ok_def response_err_def response_wf_def JSONRPC_VERSION_def)

lemma mcp_handle_response:
  "rp_id (snd (mcp_handle T R E C S req)) = unwrap_or JNull (rq_id req) \<and> response_wf (snd (mcp_handle T R E C S req))"
  by (auto simp: mcp_handle_def Let_def split: prod.splits sum.splits)

lemma answer_line_reply:
  "case snd (answer_line T R E io S (C, line)) of
     None \<Rightarrow> \<not> asked io line
   | Some r \<Rightarrow> asked io line \<and> rp_id r = asked_id io line \<and> response_wf r"
proof (cases "io_parse io line")
  case (Inl e)
  then show ?thesis by (simp add: answer_line_def asked_def asked_id_def)
next
  case (Inr req)
  obtain S' r where h: "mcp_handle T R E C S req = (S', r)" by (rule prod.exhaust)
  then have "rp_id r = unwrap_or JNull (rq_id req) \<and> response_wf r"
    using mcp_handle_response[of T R E C S req] by simp
  with h Inr show ?thesis by (simp add: answer_line_def asked_def asked_id_def)
qed

section \<open>What a call does\<close>

text \<open>
  The posts of a session: each is signed by the server's key and, as the rest of the tools only
  read, nothing else is written.
\<close>

definition own_posts :: "'s store_ops \<Rightarrow> env \<Rightarrow> ('s, 'r) mcp \<Rightarrow> message list \<Rightarrow> 's \<Rightarrow> bool" where
  "own_posts T E S ms s' \<longleftrightarrow> writes T (bbs_store (mcp_bbs S)) (map PutMessage ms) s' \<and>
     list_all (\<lambda>m. message_verify E m = Inr () \<and> mb_author (msg_body m) = ident (mcp_identity S)) ms \<and>
     (caps_contains (mcp_caps S) POST \<or> ms = [])"

lemma own_posts_none [simp]: "own_posts T E S [] s' \<longleftrightarrow> s' = bbs_store (mcp_bbs S)"
  by (auto simp: own_posts_def)

lemma tool_post_own:
  obtains ms where "own_posts T E S ms (bbs_store (fst (tool_post_message T R E created now (mcp_bbs S) (mcp_caps S)
      (mcp_identity S) slug subject txt handle)))" "length ms \<le> 1"
proof (cases "tool_post_message T R E created now (mcp_bbs S) (mcp_caps S) (mcp_identity S) slug subject txt handle")
  case (Pair b' r)
  show thesis
  proof (cases r)
    case (Inl e)
    with Pair tool_post_Inl_store show thesis by (intro that[of "[]"]) (auto dest: tool_post_Inl_store)
  next
    case (Inr s)
    with Pair obtain m where m: "msg_body m = \<lparr>mb_board = slug, mb_parent = None, mb_subject = subject, mb_body = txt,
        mb_author = ident (mcp_identity S), mb_handle = handle, mb_created_at = created, mb_kind = Post\<rparr>"
      "message_verify E m = Inr ()" "caps_contains (mcp_caps S) POST"
      "op_put_message T (bbs_store (mcp_bbs S)) m = Inr (bbs_store b')"
      by (auto elim!: tool_post_Inr)
    with Pair show thesis by (intro that[of "[m]"]) (auto simp: own_posts_def)
  qed
qed

lemma call_post_own:
  obtains ms where "own_posts T E S ms (bbs_store (fst (call_post_message T R E C S args)))" "length ms \<le> 1"
proof (cases "str_arg ''board'' args"; cases "str_arg ''text'' args")
  fix slug body assume "str_arg ''board'' args = Some slug" "str_arg ''text'' args = Some body"
  then have "call_post_message T R E C S args = tool_post_message T R E (ml_created C) (ml_posted C) (mcp_bbs S)
      (mcp_caps S) (mcp_identity S) slug (unwrap_or [] (str_arg ''subject'' args)) body []"
    by (simp add: call_post_message_def ok_or_def Let_def)
  with tool_post_own[of T E S R "ml_created C" "ml_posted C" slug "unwrap_or [] (str_arg ''subject'' args)" body "[]"] that
  show thesis by metis
qed (auto simp: call_post_message_def ok_or_def Let_def intro: that[of "[]"])

lemma run_tool_own:
  assumes "run_tool T R E C S name args = Some (b, out)"
  obtains ms where "own_posts T E S ms (bbs_store b)" "length ms \<le> 1"
proof (cases "name = ''post_message''")
  case True
  with assms have "b = fst (call_post_message T R E C S args)" by (simp add: run_tool_def)
  with call_post_own that show thesis by metis
next
  case False
  with assms have "b = mcp_bbs S" by (auto simp: run_tool_def split: if_splits)
  then show thesis by (intro that[of "[]"]) simp_all
qed

text \<open>
  The effect of a line: its posts, and the limiter, which counts a tool call whatever becomes of
  it and lets at most one message of an admitted one through.
\<close>

definition call_effect :: "'s store_ops \<Rightarrow> env \<Rightarrow> mcp_call \<Rightarrow> ('s, 'r) mcp \<Rightarrow> message list \<Rightarrow> ('s, 'r) mcp \<Rightarrow> bool" where
  "call_effect T E C S ms S' \<longleftrightarrow> own_posts T E S ms (bbs_store (mcp_bbs S')) \<and>
     mcp_identity S' = mcp_identity S \<and> mcp_caps S' = mcp_caps S \<and> mcp_memory S' = mcp_memory S \<and>
     (mcp_rate S' = mcp_rate S \<and> ms = [] \<or>
      mcp_rate S' = fst (rl_allow (mcp_rate S) ''mcp'' (ml_now_ms C)) \<and>
      length ms \<le> (if snd (rl_allow (mcp_rate S) ''mcp'' (ml_now_ms C)) then 1 else 0))"

lemma call_effect_refl: "call_effect T E C S [] S"
  by (simp add: call_effect_def)

lemma own_posts_rate [simp]: "own_posts T E (S\<lparr>mcp_rate := r\<rparr>) ms s' = own_posts T E S ms s'"
  by (simp add: own_posts_def)

lemma tools_call_effect: "\<exists>ms. call_effect T E C S ms (fst (tools_call T R E C S params))"
proof -
  obtain r ok where allow: "rl_allow (mcp_rate S) ''mcp'' (ml_now_ms C) = (r, ok)" by (rule prod.exhaust)
  let ?S = "S\<lparr>mcp_rate := r\<rparr>" and ?args = "unwrap_or JNull (json_get params ''arguments'')"
  show ?thesis
  proof (cases "ok \<and> (\<exists>name b out. str_arg ''name'' params = Some name \<and> run_tool T R E C ?S name ?args = Some (b, out))")
    case True
    then obtain name b out where n: "ok" "str_arg ''name'' params = Some name" "run_tool T R E C ?S name ?args = Some (b, out)"
      by blast
    obtain ms where "own_posts T E ?S ms (bbs_store b)" "length ms \<le> 1" by (rule run_tool_own[OF n(3)])
    with n allow show ?thesis
      by (intro exI[of _ ms]) (simp add: call_effect_def tools_call_def mcp_report_def)
  next
    case False
    have "call_effect T E C S [] (fst (tools_call T R E C S params))"
    proof (cases "ok")
      case ok: True
      show ?thesis
      proof (cases "str_arg ''name'' params")
        case (Some name)
        with False ok have "run_tool T R E C ?S name ?args = None" by (metis not_None_eq surj_pair)
        with Some ok allow show ?thesis by (simp add: call_effect_def tools_call_def)
      qed (use ok allow in \<open>simp add: call_effect_def tools_call_def\<close>)
    qed (use allow in \<open>simp add: call_effect_def tools_call_def\<close>)
    then show ?thesis by blast
  qed
qed

lemma dispatch_effect: "\<exists>ms. call_effect T E C S ms (fst (mcp_dispatch T R E C S req))"
proof (cases "rq_method req = ''tools/call''")
  case True
  with tools_call_effect show ?thesis by (simp add: mcp_dispatch_def)
next
  case False
  then have "fst (mcp_dispatch T R E C S req) = S" by (simp add: mcp_dispatch_def Let_def)
  with call_effect_refl show ?thesis by metis
qed

lemma fst_mcp_handle: "fst (mcp_handle T R E C S req) = fst (mcp_dispatch T R E C S req)"
  by (auto simp: mcp_handle_def Let_def split: prod.splits sum.splits)

lemma answer_line_effect: "\<exists>ms. call_effect T E C S ms (fst (answer_line T R E io S (C, line)))"
proof (cases "trim line = [] \<or> (\<exists>e. io_parse io line = Inl e)")
  case True
  then have "fst (answer_line T R E io S (C, line)) = S" by (auto simp: answer_line_def)
  with call_effect_refl show ?thesis by metis
next
  case False
  then obtain req where "io_parse io line = Inr req" by (cases "io_parse io line") auto
  with False have "fst (answer_line T R E io S (C, line)) = fst (mcp_handle T R E C S req)"
    by (simp add: answer_line_def split: prod.split)
  with dispatch_effect show ?thesis by (metis fst_mcp_handle)
qed

lemma own_posts_append:
  assumes "own_posts T E S ms (bbs_store (mcp_bbs S1))" "mcp_identity S1 = mcp_identity S" "mcp_caps S1 = mcp_caps S"
    and "own_posts T E S1 ms' s'"
  shows "own_posts T E S (ms @ ms') s'"
  using assms by (auto simp: own_posts_def writes_append)

section \<open>Sessions\<close>

text \<open>The clock readings of a session, and as calls to the limiter.\<close>

definition session_times :: "(mcp_call \<times> 'l) list \<Rightarrow> nat list" where
  "session_times ls = map (\<lambda>(C, _). unat (ml_now_ms C)) ls"

definition session_calls :: "(mcp_call \<times> 'l) list \<Rightarrow> rl_event list" where
  "session_calls ls = map (\<lambda>(C, _). Call ''mcp'' (ml_now_ms C)) ls"

text \<open>Of what happened at given times, how much in \<open>[t, t + width)\<close>.\<close>

definition in_stretch :: "nat \<Rightarrow> nat \<Rightarrow> (nat \<times> 'a) list \<Rightarrow> nat" where
  "in_stretch t width ps = length (filter (\<lambda>x. t \<le> fst x \<and> fst x < t + width) ps)"

lemma in_stretch_simps [simp]:
  "in_stretch t width [] = 0"
  "in_stretch t width (ps @ qs) = in_stretch t width ps + in_stretch t width qs"
  "in_stretch t width (map (\<lambda>m. (n, m)) ms) = (if t \<le> n \<and> n < t + width then length ms else 0)"
  by (auto simp: in_stretch_def filter_map comp_def)

abbreviation mcp_budget :: "nat \<Rightarrow> nat \<Rightarrow> ('s, 'r) mcp \<Rightarrow> nat" where
  "mcp_budget t lo S \<equiv> rl_budget (unat (rl_max (mcp_rate S))) t (unat (rl_window_ms (mcp_rate S))) lo
     (hm_get (rl_windows (mcp_rate S)) ''mcp'')"

lemma call_effect_rate:
  assumes "call_effect T E C S ms S'"
  shows "length ms \<le> 1" "rl_max (mcp_rate S') = rl_max (mcp_rate S)"
    "rl_window_ms (mcp_rate S') = rl_window_ms (mcp_rate S)" "rl_wf (mcp_rate S) \<Longrightarrow> rl_wf (mcp_rate S')"
  using assms by (auto simp: call_effect_def rl_allow_wf split: if_splits)

lemma call_effect_budget:
  assumes "call_effect T E C S ms S'" "rl_wf (mcp_rate S)" "lo \<le> unat (ml_now_ms C)"
    and "0 < unat (rl_window_ms (mcp_rate S))"
  shows "in_stretch t (unat (rl_window_ms (mcp_rate S))) (map (\<lambda>m. (unat (ml_now_ms C), m)) ms) +
    mcp_budget t (unat (ml_now_ms C)) S' \<le> mcp_budget t lo S"
proof -
  let ?a = "rl_allow (mcp_rate S) ''mcp'' (ml_now_ms C)"
  consider "mcp_rate S' = mcp_rate S" "ms = []"
    | "mcp_rate S' = fst ?a" "length ms \<le> (if snd ?a then 1 else 0)"
    using assms(1) by (auto simp: call_effect_def)
  then show ?thesis
  proof cases
    case 1
    with rl_budget_mono[OF assms(3)] show ?thesis by simp
  next
    case 2
    with rl_allow_budget[OF assms(3) refl refl assms(4,2), of "''mcp''" t] show ?thesis
      by (auto split: if_splits)
  qed
qed

text \<open>
  The posts of a whole session with the times of their lines; when the clock does not run
  back, a stretch of any start has no more of them than the limiter's state allows.
\<close>

lemma session_posts:
  "\<exists>ps. own_posts T E S (map snd ps) (bbs_store (mcp_bbs (fst (serve_stdio T R E io S w ls)))) \<and>
    subseq (map fst ps) (session_times ls) \<and>
    (\<forall>lo t. rl_wf (mcp_rate S) \<longrightarrow> clocked lo (session_calls ls) \<longrightarrow> 0 < unat (rl_window_ms (mcp_rate S)) \<longrightarrow>
      in_stretch t (unat (rl_window_ms (mcp_rate S))) ps \<le> mcp_budget t lo S)"
proof (induction ls arbitrary: S w)
  case Nil
  then show ?case by (intro exI[of _ "[]"]) simp
next
  case (Cons cl ls)
  obtain C input where cl: "cl = (C, input)" by (cases cl)
  let ?now = "unat (ml_now_ms C)"
  show ?case
  proof (cases input)
    case (Inl e)
    then show ?thesis by (intro exI[of _ "[]"]) (simp add: cl)
  next
    case (Inr line)
    obtain S1 reply where al: "answer_line T R E io S (C, line) = (S1, reply)" by (rule prod.exhaust)
    then obtain ms1 where e1: "call_effect T E C S ms1 S1" using answer_line_effect[of T E C S R io line] by auto
    then have own1: "own_posts T E S ms1 (bbs_store (mcp_bbs S1))" "mcp_identity S1 = mcp_identity S"
        "mcp_caps S1 = mcp_caps S" by (auto simp: call_effect_def)
    note rate1 = call_effect_rate[OF e1]
    let ?ps1 = "map (\<lambda>m. (?now, m)) ms1"
    have sub1: "subseq (map fst ?ps1) [?now]" using rate1(1) by (cases ms1) (auto simp: Suc_le_eq)
    obtain w1 stop where next_state: "fst (serve_stdio T R E io S w (cl # ls)) =
        (if stop then S1 else fst (serve_stdio T R E io S1 w1 ls))"
    proof (cases reply)
      case None
      with al Inr that[of False w] show thesis by (simp add: cl)
    next
      case (Some resp)
      obtain w2 out where "io_sink io w (reply_line io resp) = (w2, out)" by (rule prod.exhaust)
      with Some al Inr that[of True w] that[of False w2] show thesis by (cases out) (simp_all add: cl)
    qed
    obtain ps2 where ps2: "own_posts T E S1 (map snd ps2) (bbs_store (mcp_bbs (fst (serve_stdio T R E io S1 w1 ls))))"
        "subseq (map fst ps2) (session_times ls)"
        "\<forall>lo t. rl_wf (mcp_rate S1) \<longrightarrow> clocked lo (session_calls ls) \<longrightarrow> 0 < unat (rl_window_ms (mcp_rate S1)) \<longrightarrow>
          in_stretch t (unat (rl_window_ms (mcp_rate S1))) ps2 \<le> mcp_budget t lo S1"
      using Cons.IH by blast
    define ps where "ps = (if stop then ?ps1 else ?ps1 @ ps2)"
    have "own_posts T E S (map snd ps) (bbs_store (mcp_bbs (fst (serve_stdio T R E io S w (cl # ls)))))"
      using own1(1) own_posts_append[OF own1 ps2(1)] next_state by (simp add: ps_def comp_def)
    moreover have "subseq (map fst ps) (session_times (cl # ls))"
    proof -
      have "subseq (map fst ps) (map fst ?ps1 @ map fst ps2)"
        by (auto simp: ps_def comp_def intro: prefix_imp_subseq)
      also have "subseq (map fst ?ps1 @ map fst ps2) ([?now] @ session_times ls)"
        by (rule list_emb_append_mono[OF sub1 ps2(2)])
      finally show ?thesis by (simp add: session_times_def cl)
    qed
    moreover have "in_stretch t (unat (rl_window_ms (mcp_rate S))) ps \<le> mcp_budget t lo S"
      if "rl_wf (mcp_rate S)" "clocked lo (session_calls (cl # ls))" "0 < unat (rl_window_ms (mcp_rate S))" for lo t
    proof -
      have now: "lo \<le> ?now" "clocked ?now (session_calls ls)"
        using that(2) by (auto simp: cl session_calls_def)
      have "in_stretch t (unat (rl_window_ms (mcp_rate S))) ps2 \<le> mcp_budget t ?now S1"
        using ps2(3) now(2) that(1,3) rate1(3,4) by metis
      with call_effect_budget[OF e1 that(1) now(1) that(3), of t] show ?thesis
        by (simp add: ps_def)
    qed
    ultimately show ?thesis by (intro exI[of _ ps]) blast
  qed
qed

lemma rl_budget_le: "rl_budget mx t width lo w \<le> 2 * mx"
  by (cases w) auto

text \<open>
  Property C7. Whatever a client sends over a whole session of the bridge, of any length, the
  store gains only messages that verify under the key of the server, at most one per line and
  in the order of the lines, and none at all when the server was not given POST. And when the
  server's clock does not run back, in every stretch of the session as long as the window of
  the limiter, wherever it starts, at most twice the quota of them is posted.
\<close>

theorem mcp_session_posts_only:
  "\<exists>ps. writes T (bbs_store (mcp_bbs S)) (map PutMessage (map snd ps))
      (bbs_store (mcp_bbs (fst (serve_stdio T R E io S w ls)))) \<and>
    list_all (\<lambda>m. message_verify E m = Inr () \<and> mb_author (msg_body m) = ident (mcp_identity S)) (map snd ps) \<and>
    (caps_contains (mcp_caps S) POST \<or> ps = []) \<and> subseq (map fst ps) (session_times ls) \<and>
    (rl_wf (mcp_rate S) \<and> clocked 0 (session_calls ls) \<longrightarrow>
      (\<forall>t. in_stretch t (unat (rl_window_ms (mcp_rate S))) ps \<le> 2 * unat (rl_max (mcp_rate S))))"
proof -
  obtain ps where ps: "own_posts T E S (map snd ps) (bbs_store (mcp_bbs (fst (serve_stdio T R E io S w ls))))"
      "subseq (map fst ps) (session_times ls)"
    and rate: "\<forall>lo t. rl_wf (mcp_rate S) \<longrightarrow> clocked lo (session_calls ls) \<longrightarrow>
      0 < unat (rl_window_ms (mcp_rate S)) \<longrightarrow>
      in_stretch t (unat (rl_window_ms (mcp_rate S))) ps \<le> mcp_budget t lo S"
    using session_posts[of T E S R io w ls] by blast
  have "in_stretch t (unat (rl_window_ms (mcp_rate S))) ps \<le> 2 * unat (rl_max (mcp_rate S))"
    if "rl_wf (mcp_rate S)" "clocked 0 (session_calls ls)" for t
  proof (cases "unat (rl_window_ms (mcp_rate S)) = 0")
    case True
    then show ?thesis by (simp add: in_stretch_def)
  next
    case False
    with rate that have "in_stretch t (unat (rl_window_ms (mcp_rate S))) ps \<le> mcp_budget t 0 S" by blast
    then show ?thesis using rl_budget_le le_trans by blast
  qed
  with ps show ?thesis by (intro exI[of _ ps]) (auto simp: own_posts_def)
qed

text \<open>
  Property C8. The bridge answers each request once and in order. With a sink that keeps what it is given, the
  output of a session is one line for every line that is not blank and is a request with an id or
  no request at all, in the order of the lines; each is a JSON-RPC 2.0 response with a result or an
  error but not both, under the id of its request (null for a line that is no request); a
  notification is carried out and not answered; and the session ends without an error.
\<close>

theorem one_reply_per_request:
  "\<exists>S' rs. serve_stdio T R E (buffered io) S w (map (\<lambda>(C, l). (C, Inr l)) ls) =
      (S', w @ concat (map (reply_line io) rs), Inr ()) \<and>
    map rp_id rs = map (asked_id io) (filter (asked io) (map snd ls)) \<and> list_all response_wf rs"
proof (induction ls arbitrary: S w)
  case Nil
  then show ?case by simp
next
  case (Cons cl ls)
  obtain C line where cl: "cl = (C, line)" by (cases cl)
  obtain S1 reply where al: "answer_line T R E (buffered io) S (C, line) = (S1, reply)" by (rule prod.exhaust)
  have same: "asked (buffered io) = asked io" "asked_id (buffered io) = asked_id io"
      "reply_line (buffered io) = reply_line io" "io_sink (buffered io) = (\<lambda>w b. (w @ b, Inr ()))"
    by (auto simp: asked_def asked_id_def reply_line_def buffered_def fun_eq_iff)
  note reply = answer_line_reply[where T = T and R = R and E = E and io = "buffered io" and S = S and C = C and line = line, unfolded al snd_conv same]
  show ?case
  proof (cases reply)
    case None
    with Cons.IH[of S1 w] reply al show ?thesis by (simp add: cl)
  next
    case (Some r)
    obtain S' rs where "serve_stdio T R E (buffered io) S1 (w @ reply_line io r) (map (\<lambda>(C, l). (C, Inr l)) ls) =
        (S', (w @ reply_line io r) @ concat (map (reply_line io) rs), Inr ())"
      "map rp_id rs = map (asked_id io) (filter (asked io) (map snd ls))" "list_all response_wf rs"
      using Cons.IH[of S1 "w @ reply_line io r"] by blast
    with Some reply al show ?thesis by (intro exI[of _ S'] exI[of _ "r # rs"]) (simp add: cl same)
  qed
qed

text \<open>A session of two tool calls, the second more than a window later.\<close>

definition demo_line :: "nat \<Rightarrow> mcp_call" where
  "demo_line n = \<lparr>ml_now_ms = of_nat n, ml_created = 3, ml_posted = 4, ml_reported = 4, ml_display = \<lambda>_. []\<rparr>"

definition demo_io :: "bytes mcp_io" where
  "demo_io = \<lparr>io_parse = \<lambda>l. Inr (request_new (JNum 1) ''tools/call''
       (JObj [(''arguments'', JObj [(''board'', JStr ''general''), (''text'', JStr l)]), (''name'', JStr ''post_message'')])),
     io_write = \<lambda>_. Some ''{}'', io_sink = \<lambda>w b. (w @ b, Inr ())\<rparr>"

definition demo_mcp :: "(memory_store, memory_reporter) mcp" where
  "demo_mcp = mcp_new demo_open (demo_id 2) caps_default 4"

theorem mcp_session_posts_only_witness:
  "\<exists>ps. writes memory_ops (bbs_store demo_open) (map PutMessage (map snd ps))
      (bbs_store (mcp_bbs (fst (serve_stdio memory_ops mr_report demo_env demo_io demo_mcp []
        [(demo_line 0, Inr ''hello''), (demo_line 70000, Inr ''again'')])))) \<and>
    list_all (\<lambda>m. message_verify demo_env m = Inr () \<and> mb_author (msg_body m) = ident (demo_id 2)) (map snd ps) \<and>
    subseq (map fst ps) [0, 70000] \<and> (\<forall>t. in_stretch t 60000 ps \<le> 240)"
proof -
  let ?ls = "[(demo_line 0, Inr ''hello''), (demo_line 70000, Inr ''again'')] :: (mcp_call \<times> (string + string)) list"
  have wf: "rl_wf (mcp_rate demo_mcp)"
    by (simp add: demo_mcp_def mcp_new_def rl_new_def rl_wf_def hm_wf_empty)
  have n: "unat (60000 :: u64) = 60000" "unat (120 :: u32) = 120" by simp_all
  have w: "unat (rl_window_ms (mcp_rate demo_mcp)) = 60000" "unat (rl_max (mcp_rate demo_mcp)) = 120"
    and d: "mcp_bbs demo_mcp = demo_open" "mcp_identity demo_mcp = demo_id 2"
    by (simp_all add: demo_mcp_def mcp_new_def rl_new_def)
  have clock: "clocked 0 (session_calls ?ls)" and times: "session_times ?ls = [0, 70000]"
    by (simp_all add: session_calls_def session_times_def demo_line_def)
  obtain ps where "writes memory_ops (bbs_store (mcp_bbs demo_mcp)) (map PutMessage (map snd ps))
      (bbs_store (mcp_bbs (fst (serve_stdio memory_ops mr_report demo_env demo_io demo_mcp [] ?ls))))"
    "list_all (\<lambda>m. message_verify demo_env m = Inr () \<and> mb_author (msg_body m) = ident (mcp_identity demo_mcp)) (map snd ps)"
    "subseq (map fst ps) (session_times ?ls)"
    "\<forall>t. in_stretch t (unat (rl_window_ms (mcp_rate demo_mcp))) ps \<le> 2 * unat (rl_max (mcp_rate demo_mcp))"
    using mcp_session_posts_only[of memory_ops demo_mcp mr_report demo_env demo_io "[]" ?ls] wf clock by blast
  then show ?thesis unfolding d w times by (intro exI[of _ ps]) simp
qed

section \<open>Where the text and the code part\<close>

text \<open>
  The header of \<open>server.rs\<close> says that capabilities are enforced per tool, READ for reads, and
  that every tool call is reported. The memory is searched for callers without any capability,
  and a call of a tool that does not exist reports nothing.
\<close>

lemma memory_search_unguarded:
  "run_tool T R E C (S\<lparr>mcp_caps := cs\<rparr>) ''search_memory'' args = run_tool T R E C S ''search_memory'' args"
  by (simp add: run_tool_def call_search_memory_def)

lemma unknown_tool_unreported:
  assumes "str_arg ''name'' params = Some name" "run_tool T R E C (S\<lparr>mcp_rate := r\<rparr>) name (unwrap_or JNull (json_get params ''arguments'')) = None"
    and "rl_allow (mcp_rate S) ''mcp'' (ml_now_ms C) = (r, True)"
  shows "mcp_bbs (fst (tools_call T R E C S params)) = mcp_bbs S"
  using assms by (simp add: tools_call_def)

end
