(* ===== verification/Mcp_Client.thy ===== *)
theory Mcp_Client
  imports Mcp
begin

text \<open>
  The client of the protocol (\<open>agentbbs-mcp/src/client.rs\<close>): one request and the next line of the
  peer. JSON text and the writer are arguments; the lines still to come are a list, at the end of
  which the peer has closed.
\<close>

datatype client_error = CeIo string | CeSerde string | CeClosed | CeRpc rpc_error

text \<open>How a signed number is written is that of \<open>i64\<close>.\<close>

definition show_i64 :: "int \<Rightarrow> string" where
  "show_i64 n = (if n < 0 then ''-'' @ dec (nat (- n)) else dec (nat n))"

fun client_error_display :: "client_error \<Rightarrow> string" where
  "client_error_display (CeIo e) = ''io: '' @ e"
| "client_error_display (CeSerde e) = ''serde: '' @ e"
| "client_error_display CeClosed = ''connection closed''"
| "client_error_display (CeRpc e) = ''rpc error '' @ show_i64 (re_code e) @ '': '' @ re_message e"

record 'w client_io =
  ci_encode :: "rpc_request \<Rightarrow> string + bytes"
  ci_decode :: "string \<Rightarrow> string + rpc_response"
  ci_sink :: "'w \<Rightarrow> bytes \<Rightarrow> 'w \<times> (string + unit)"

record 'w mcp_client =
  mc_next_id :: u64
  mc_writer :: 'w
  mc_lines :: "(string + string) list"

definition client_new :: "(string + string) list \<Rightarrow> 'w \<Rightarrow> 'w mcp_client" where
  "client_new lines w = \<lparr>mc_next_id = 1, mc_writer = w, mc_lines = lines\<rparr>"

definition alloc_id :: "'w mcp_client \<Rightarrow> 'w mcp_client \<times> int" where
  "alloc_id c = (c\<lparr>mc_next_id := mc_next_id c + 1\<rparr>, sint (mc_next_id c))"

definition response_outcome :: "rpc_response \<Rightarrow> client_error + json" where
  "response_outcome resp =
     (case rp_error resp of Some e \<Rightarrow> Inl (CeRpc e) | None \<Rightarrow> Inr (unwrap_or JNull (rp_result resp)))"

definition read_response :: "'w client_io \<Rightarrow> 'w mcp_client \<Rightarrow> 'w mcp_client \<times> (client_error + json)" where
  "read_response io c =
     (case mc_lines c of
        [] \<Rightarrow> (c, Inl CeClosed)
      | Inl e # ls \<Rightarrow> (c\<lparr>mc_lines := ls\<rparr>, Inl (CeIo e))
      | Inr line # ls \<Rightarrow>
          (c\<lparr>mc_lines := ls\<rparr>,
           case ci_decode io line of Inl e \<Rightarrow> Inl (CeSerde e) | Inr resp \<Rightarrow> response_outcome resp))"

definition client_request :: "'w client_io \<Rightarrow> string \<Rightarrow> json \<Rightarrow> 'w mcp_client \<Rightarrow> 'w mcp_client \<times> (client_error + json)" where
  "client_request io method params c =
     (case alloc_id c of (c, i) \<Rightarrow>
        (case ci_encode io (request_new (JNum i) method params) of
           Inl e \<Rightarrow> (c, Inl (CeSerde e))
         | Inr line \<Rightarrow>
             (case ci_sink io (mc_writer c) (line @ [newline]) of
                (w, Inl e) \<Rightarrow> (c\<lparr>mc_writer := w\<rparr>, Inl (CeIo e))
              | (w, Inr _) \<Rightarrow> read_response io (c\<lparr>mc_writer := w\<rparr>))))"

definition client_initialize :: "'w client_io \<Rightarrow> 'w mcp_client \<Rightarrow> 'w mcp_client \<times> (client_error + json)" where
  "client_initialize io = client_request io ''initialize'' (JObj
     [(''capabilities'', JObj []),
      (''clientInfo'', JObj [(''name'', JStr ''agentbbs-mcp-client''), (''version'', JStr ''0.1.0'')]),
      (''protocolVersion'', JStr MCP_PROTOCOL_VERSION)])"

definition client_list_tools :: "'w client_io \<Rightarrow> 'w mcp_client \<Rightarrow> 'w mcp_client \<times> (client_error + json)" where
  "client_list_tools io = client_request io ''tools/list'' JNull"

definition client_call_tool :: "'w client_io \<Rightarrow> string \<Rightarrow> json \<Rightarrow> 'w mcp_client \<Rightarrow> 'w mcp_client \<times> (client_error + json)" where
  "client_call_tool io name args = client_request io ''tools/call'' (JObj [(''arguments'', args), (''name'', JStr name)])"

definition client_list_resources :: "'w client_io \<Rightarrow> 'w mcp_client \<Rightarrow> 'w mcp_client \<times> (client_error + json)" where
  "client_list_resources io = client_request io ''resources/list'' JNull"

definition client_read_resource :: "'w client_io \<Rightarrow> string \<Rightarrow> 'w mcp_client \<Rightarrow> 'w mcp_client \<times> (client_error + json)" where
  "client_read_resource io uri = client_request io ''resources/read'' (JObj [(''uri'', JStr uri)])"

section \<open>Client and server\<close>

text \<open>
  The two ends fit: when each reads what the other writes, a call over the bridge gives the caller
  the outcome the server's dispatch has, an error of the server as an error of the call.
\<close>

theorem call_through_bridge:
  assumes "ci_encode cio (request_new (JNum (sint (mc_next_id c))) method params) = Inr line" "trim line \<noteq> []"
    and "io_parse sio line = Inr (request_new (JNum (sint (mc_next_id c))) method params)"
    and "answer_line T R E sio S (C, line) = (S', Some resp)" "io_write sio resp = Some text"
    and "ci_decode cio text = Inr resp" "ci_sink cio (mc_writer c) (line @ [newline]) = (w, Inr ())"
    and "mc_lines c = Inr text # ls"
  shows "snd (client_request cio method params c) =
    (case snd (mcp_dispatch T R E C S (request_new (JNum (sint (mc_next_id c))) method params)) of
       Inl e \<Rightarrow> Inl (CeRpc e) | Inr v \<Rightarrow> Inr v)"
proof -
  let ?req = "request_new (JNum (sint (mc_next_id c))) method params"
  have "snd (mcp_handle T R E C S ?req) = resp"
    using assms(2-4) by (auto simp: answer_line_def split: prod.splits if_splits)
  then have "resp = (case snd (mcp_dispatch T R E C S ?req) of
      Inl e \<Rightarrow> response_err (JNum (sint (mc_next_id c))) e | Inr v \<Rightarrow> response_ok (JNum (sint (mc_next_id c))) v)"
    by (auto simp: mcp_handle_def request_new_def unwrap_or_def Let_def split: prod.splits sum.splits)
  with assms show ?thesis
    by (auto simp: client_request_def alloc_id_def read_response_def response_outcome_def response_err_def response_ok_def
        unwrap_or_def split: sum.splits)
qed

text \<open>
  The comment on \<open>request\<close> speaks of the matching response. The client takes the next line: the
  id of the response does not matter.
\<close>

lemma response_id_unchecked: "response_outcome (resp\<lparr>rp_id := i\<rparr>) = response_outcome resp"
  by (simp add: response_outcome_def split: option.split)

end
