(* ===== verification/Adapters.thy ===== *)
theory Adapters
  imports Identity Peer Hash_Map
begin

text \<open>
  The command-line adapters of the federation crate (\<open>agentbbs-federation/src/adapter.rs\<close>,
  \<open>collab.rs\<close>) and its in-process transport (\<open>transport.rs\<close>). An adapter builds the arguments of
  a program and hands them to a runner; spawning the process is an argument.
\<close>

section \<open>Runners\<close>

type_synonym runner = "string \<Rightarrow> string list \<Rightarrow> string result"

text \<open>What a process leaves: success, how its status displays, and its two outputs, decoded lossily.\<close>

record process_output =
  ou_success :: bool
  ou_status :: string
  ou_stdout :: string
  ou_stderr :: string

definition tokio_run :: "(string \<Rightarrow> string list \<Rightarrow> string + process_output) \<Rightarrow> runner" where
  "tokio_run spawn program args =
     (case spawn program args of
        Inl e \<Rightarrow> Inl (Other (''spawn '' @ program @ '': '' @ e))
      | Inr out \<Rightarrow>
          if \<not> ou_success out
          then Inl (Other (program @ '' exited with '' @ ou_status out @ '': '' @ ou_stderr out))
          else Inr (ou_stdout out))"

record fake_runner =
  fr_output :: string
  fr_calls :: "string list list"

definition fake_run :: "fake_runner \<Rightarrow> string \<Rightarrow> string list \<Rightarrow> fake_runner \<times> string result" where
  "fake_run f program args = (f\<lparr>fr_calls := fr_calls f @ [program # args]\<rparr>, Inr (fr_output f))"

section \<open>ruflo and agentdb\<close>

definition ruflo_federation :: "runner \<Rightarrow> string \<Rightarrow> string list \<Rightarrow> string result" where
  "ruflo_federation run sub extra = run ''npx'' ([''ruflo'', ''federation'', sub] @ extra)"

definition ruflo_init :: "runner \<Rightarrow> string result" where
  "ruflo_init run = ruflo_federation run ''init'' []"

definition ruflo_join :: "runner \<Rightarrow> string \<Rightarrow> string result" where
  "ruflo_join run addr = ruflo_federation run ''join'' [addr]"

definition ruflo_status :: "runner \<Rightarrow> string result" where
  "ruflo_status run = ruflo_federation run ''status'' []"

record memory_record =
  my_key :: string
  my_value :: string

definition store_memory :: "runner \<Rightarrow> string \<Rightarrow> string \<Rightarrow> string result" where
  "store_memory run key value' = run ''npx'' [''agentdb'', ''store'', key, value']"

definition query_memory :: "runner \<Rightarrow> (string \<Rightarrow> string + memory_record list) \<Rightarrow> string \<Rightarrow> memory_record list result" where
  "query_memory run parse key =
     rbind (run ''npx'' [''agentdb'', ''query'', key]) (\<lambda>out.
       if trim out = [] then Inr [] else serde_err (parse (trim out)))"

section \<open>GitHub and Jujutsu\<close>

datatype merge_method = Squash | Merge | Rebase

fun merge_flag :: "merge_method \<Rightarrow> string" where
  "merge_flag Squash = ''--squash''"
| "merge_flag Merge = ''--merge''"
| "merge_flag Rebase = ''--rebase''"

definition issue_list :: "runner \<Rightarrow> string \<Rightarrow> string result" where
  "issue_list run repo =
     run ''gh'' [''issue'', ''list'', ''--repo'', repo, ''--state'', ''open'', ''--json'', ''number,title,labels'']"

definition issue_create :: "runner \<Rightarrow> string \<Rightarrow> string \<Rightarrow> string \<Rightarrow> string result" where
  "issue_create run repo title body =
     run ''gh'' [''issue'', ''create'', ''--repo'', repo, ''--title'', title, ''--body'', body]"

definition issue_comment :: "runner \<Rightarrow> string \<Rightarrow> u64 \<Rightarrow> string \<Rightarrow> string result" where
  "issue_comment run repo number body =
     run ''gh'' [''issue'', ''comment'', dec (unat number), ''--repo'', repo, ''--body'', body]"

definition pr_list :: "runner \<Rightarrow> string \<Rightarrow> string result" where
  "pr_list run repo = run ''gh'' [''pr'', ''list'', ''--repo'', repo, ''--state'', ''open'', ''--json'',
     ''number,title,headRefName,mergeable'']"

definition pr_create :: "runner \<Rightarrow> string \<Rightarrow> string \<Rightarrow> string \<Rightarrow> string \<Rightarrow> string \<Rightarrow> string result" where
  "pr_create run repo title body head base = run ''gh'' [''pr'', ''create'', ''--repo'', repo, ''--title'', title,
     ''--body'', body, ''--head'', head, ''--base'', base]"

definition pr_comment :: "runner \<Rightarrow> string \<Rightarrow> u64 \<Rightarrow> string \<Rightarrow> string result" where
  "pr_comment run repo number body =
     run ''gh'' [''pr'', ''comment'', dec (unat number), ''--repo'', repo, ''--body'', body]"

definition pr_merge :: "runner \<Rightarrow> string \<Rightarrow> u64 \<Rightarrow> merge_method \<Rightarrow> string result" where
  "pr_merge run repo number m = run ''gh'' [''pr'', ''merge'', dec (unat number), ''--repo'', repo, merge_flag m]"

definition jj_status :: "runner \<Rightarrow> string result" where "jj_status run = run ''jj'' [''status'']"
definition jj_diff :: "runner \<Rightarrow> string result" where "jj_diff run = run ''jj'' [''diff'']"
definition jj_log :: "runner \<Rightarrow> u32 \<Rightarrow> string result" where "jj_log run limit = run ''jj'' [''log'', ''-n'', dec (unat limit)]"
definition jj_new_change :: "runner \<Rightarrow> string \<Rightarrow> string result" where "jj_new_change run msg = run ''jj'' [''new'', ''-m'', msg]"
definition jj_describe :: "runner \<Rightarrow> string \<Rightarrow> string result" where "jj_describe run msg = run ''jj'' [''describe'', ''-m'', msg]"
definition jj_git_push :: "runner \<Rightarrow> string result" where "jj_git_push run = run ''jj'' [''git'', ''push'']"

section \<open>The loopback transport\<close>

text \<open>
  Unbounded channels by number: what is queued on each and which receivers are gone. Registering a
  node again gives it a new channel; a message to a node without one is dropped.
\<close>

record loopback =
  lb_inboxes :: "(string, nat) hmap"
  lb_queues :: "bytes list list"
  lb_closed :: "nat set"

definition loopback_new :: loopback where
  "loopback_new = \<lparr>lb_inboxes = hm_empty, lb_queues = [], lb_closed = {}\<rparr>"

definition loopback_inbox :: "env \<Rightarrow> agent_id \<Rightarrow> loopback \<Rightarrow> loopback \<times> nat" where
  "loopback_inbox E node l =
     (l\<lparr>lb_inboxes := hm_insert (to_hex E node) (length (lb_queues l)) (lb_inboxes l), lb_queues := lb_queues l @ [[]]\<rparr>,
      length (lb_queues l))"

definition loopback_send :: "env \<Rightarrow> peer \<Rightarrow> bytes \<Rightarrow> loopback \<Rightarrow> loopback \<times> unit result" where
  "loopback_send E p bytes l =
     (case hm_get (lb_inboxes l) (to_hex E (pr_node p)) of
        None \<Rightarrow> (l, Inr ())
      | Some c \<Rightarrow>
          (if c \<in> lb_closed l then l else l\<lparr>lb_queues := (lb_queues l)[c := lb_queues l ! c @ [bytes]]\<rparr>, Inr ()))"

section \<open>Properties\<close>

definition loopback_wf :: "loopback \<Rightarrow> bool" where
  "loopback_wf l \<longleftrightarrow> (\<forall>k c. hm_get (lb_inboxes l) k = Some c \<longrightarrow> c < length (lb_queues l))"

lemma loopback_preserves:
  "loopback_wf loopback_new" "loopback_wf l \<Longrightarrow> loopback_wf (fst (loopback_inbox E node l))"
  "loopback_wf l \<Longrightarrow> loopback_wf (fst (loopback_send E p bytes l))"
  by (auto simp: loopback_wf_def loopback_new_def loopback_inbox_def loopback_send_def less_Suc_eq split: option.split)

text \<open>
  What is sent to a registered, live node is the last thing on its queue, in the order of the sends,
  and no other queue changes; a node that is not there costs nothing.
\<close>

lemma loopback_delivers:
  assumes "loopback_wf l" "hm_get (lb_inboxes l) (to_hex E (pr_node p)) = Some c" "c \<notin> lb_closed l"
  shows "lb_queues (fst (loopback_send E p bytes l)) ! c = lb_queues l ! c @ [bytes]"
    "d \<noteq> c \<Longrightarrow> lb_queues (fst (loopback_send E p bytes l)) ! d = lb_queues l ! d"
  using assms by (auto simp: loopback_send_def loopback_wf_def)

end
