(* ===== verification/Tui_Thread.thy ===== *)
theory Tui_Thread
  imports Board Str_Split Hash_Map
begin

text \<open>
  How the terminal client reads a board (\<open>apply_control_messages\<close> in \<open>agentbbs-tui/src/app.rs\<close>):
  a message whose subject starts with \<open>agentbbs/ctl:\<close> is not shown; one that retracts or edits
  another message, named by its id, is applied to it.
\<close>

section \<open>Control messages\<close>

definition CTL :: string where
  "CTL = ''agentbbs/ctl:''"

record control =
  ct_retracted :: "(string, agent_id) hmap"
  ct_edits :: "(string, string \<times> agent_id \<times> time) hmap"

definition is_control :: "message \<Rightarrow> bool" where
  "is_control m \<longleftrightarrow> prefix CTL (mb_subject (msg_body m))"

text \<open>The message a retraction or an edit is for.\<close>

definition retracts :: "message \<Rightarrow> string option" where
  "retracts m = map_option (\<lambda>tid. if mb_body (msg_body m) = [] then tid else mb_body (msg_body m))
     (strip_prefix (CTL @ ''retract:'') (mb_subject (msg_body m)))"

definition edits :: "message \<Rightarrow> string option" where
  "edits m = strip_prefix (CTL @ ''edit:'') (mb_subject (msg_body m))"

definition apply_control :: "control \<Rightarrow> message \<Rightarrow> control" where
  "apply_control c m =
     (case retracts m of
        Some tid \<Rightarrow> c\<lparr>ct_retracted := hm_insert tid (mb_author (msg_body m)) (ct_retracted c)\<rparr>
      | None \<Rightarrow>
          (case edits m of
             None \<Rightarrow> c
           | Some tid \<Rightarrow>
               if (case hm_get (ct_edits c) tid of None \<Rightarrow> True | Some (_, _, at) \<Rightarrow> at < mb_created_at (msg_body m))
               then c\<lparr>ct_edits := hm_insert tid
                      (mb_body (msg_body m), mb_author (msg_body m), mb_created_at (msg_body m)) (ct_edits c)\<rparr>
               else c))"

definition controls :: "message list \<Rightarrow> control" where
  "controls ms = foldl apply_control \<lparr>ct_retracted = hm_empty, ct_edits = hm_empty\<rparr> ms"

definition not_retracted :: "control \<Rightarrow> message \<Rightarrow> bool" where
  "not_retracted c m \<longleftrightarrow>
     (case hm_get (ct_retracted c) (mid (msg_id m)) of None \<Rightarrow> True | Some a \<Rightarrow> a \<noteq> mb_author (msg_body m))"

definition own_edit :: "control \<Rightarrow> message \<Rightarrow> string option" where
  "own_edit c m =
     (case hm_get (ct_edits c) (mid (msg_id m)) of
        None \<Rightarrow> None
      | Some (text', a, _) \<Rightarrow> if a = mb_author (msg_body m) then Some text' else None)"

definition with_edit :: "control \<Rightarrow> message \<Rightarrow> message" where
  "with_edit c m = (case own_edit c m of None \<Rightarrow> m | Some t \<Rightarrow> m\<lparr>msg_body := (msg_body m)\<lparr>mb_body := t\<rparr>\<rparr>)"

text \<open>The messages shown, whether each message verified as fetched, and the ids shown edited.\<close>

definition apply_control_messages :: "env \<Rightarrow> message list \<Rightarrow> message list \<times> (string, bool) hmap \<times> string set" where
  "apply_control_messages E ms =
     (let c = controls ms;
          kept = filter (not_retracted c) (filter (\<lambda>m. \<not> is_control m) ms)
      in (map (with_edit c) kept,
          foldl (\<lambda>h m. hm_insert (mid (msg_id m)) (is_ok (message_verify E m)) h) hm_empty ms,
          set (map (\<lambda>m. mid (msg_id m)) (filter (\<lambda>m. own_edit c m \<noteq> None) kept))))"

section \<open>Lemmas\<close>

text \<open>Every entry comes from a control message of its author.\<close>

definition backed :: "message list \<Rightarrow> control \<Rightarrow> bool" where
  "backed ms c \<longleftrightarrow>
     (\<forall>tid a. hm_get (ct_retracted c) tid = Some a \<longrightarrow>
       (\<exists>r \<in> set ms. retracts r = Some tid \<and> mb_author (msg_body r) = a)) \<and>
     (\<forall>tid t a at. hm_get (ct_edits c) tid = Some (t, a, at) \<longrightarrow>
       (\<exists>e \<in> set ms. edits e = Some tid \<and> mb_author (msg_body e) = a \<and> mb_body (msg_body e) = t))"

lemma backed_step:
  assumes "backed ms c" "m \<in> set ms"
  shows "backed ms (apply_control c m)"
proof (cases "retracts m")
  case (Some tid)
  with assms show ?thesis by (auto simp: backed_def apply_control_def hm_get_insert split: if_splits)
next
  case None
  show ?thesis
  proof (cases "edits m")
    case (Some tid)
    with None assms show ?thesis
      unfolding backed_def apply_control_def by (auto simp: hm_get_insert split: if_splits option.splits)
  qed (use None assms in \<open>simp add: apply_control_def\<close>)
qed

lemma controls_backed: "backed ms (controls ms)"
proof -
  have "backed ms (foldl apply_control c ns)" if "backed ms c" "set ns \<subseteq> set ms" for c ns
    using that by (induction ns arbitrary: c) (simp_all add: backed_step)
  moreover have "backed ms \<lparr>ct_retracted = hm_empty, ct_edits = hm_empty\<rparr>" by (simp add: backed_def)
  ultimately show ?thesis unfolding controls_def by blast
qed

section \<open>Properties\<close>

lemma with_edit_simps [simp]: "msg_id (with_edit c m) = msg_id m" "mb_author (msg_body (with_edit c m)) = mb_author (msg_body m)"
  by (simp_all add: with_edit_def split: option.split)

text \<open>
  Property C9. Only its author takes a message away or changes what it says. What is shown are the messages
  that are no control messages, in their order and under their ids; each of them is as fetched or
  carries the text of an edit signed for by the same author; and one that is not shown was
  retracted by its own author.
\<close>

theorem control_messages_are_the_authors:
  "\<exists>kept. fst (apply_control_messages E ms) = map (with_edit (controls ms)) kept \<and>
    subseq kept (filter (\<lambda>m. \<not> is_control m) ms) \<and>
    list_all (\<lambda>m. with_edit (controls ms) m = m \<or>
      (\<exists>e \<in> set ms. edits e = Some (mid (msg_id m)) \<and> mb_author (msg_body e) = mb_author (msg_body m) \<and>
        with_edit (controls ms) m = m\<lparr>msg_body := (msg_body m)\<lparr>mb_body := mb_body (msg_body e)\<rparr>\<rparr>)) kept \<and>
    list_all (\<lambda>m. m \<in> set kept \<or> is_control m \<or>
      (\<exists>r \<in> set ms. retracts r = Some (mid (msg_id m)) \<and> mb_author (msg_body r) = mb_author (msg_body m))) ms"
proof (intro exI conjI)
  let ?c = "controls ms" and ?plain = "filter (\<lambda>m. \<not> is_control m) ms"
  show "fst (apply_control_messages E ms) = map (with_edit ?c) (filter (not_retracted ?c) ?plain)"
    by (simp add: apply_control_messages_def Let_def)
  show "subseq (filter (not_retracted ?c) ?plain) ?plain" by (rule subseq_filter_left)
  have b: "\<exists>r \<in> set ms. retracts r = Some (mid (msg_id m)) \<and> mb_author (msg_body r) = mb_author (msg_body m)"
    if "\<not> not_retracted ?c m" for m
    using that controls_backed[of ms] by (auto simp: not_retracted_def backed_def split: option.splits)
  then show "list_all (\<lambda>m. m \<in> set (filter (not_retracted ?c) ?plain) \<or> is_control m \<or>
      (\<exists>r \<in> set ms. retracts r = Some (mid (msg_id m)) \<and> mb_author (msg_body r) = mb_author (msg_body m))) ms"
    by (auto simp: list_all_iff)
  have "with_edit ?c m = m \<or> (\<exists>e \<in> set ms. edits e = Some (mid (msg_id m)) \<and>
      mb_author (msg_body e) = mb_author (msg_body m) \<and>
      with_edit ?c m = m\<lparr>msg_body := (msg_body m)\<lparr>mb_body := mb_body (msg_body e)\<rparr>\<rparr>)" for m
  proof (cases "own_edit ?c m")
    case (Some t)
    then obtain a at where "hm_get (ct_edits ?c) (mid (msg_id m)) = Some (t, a, at)" "a = mb_author (msg_body m)"
      by (auto simp: own_edit_def split: option.splits if_splits)
    then obtain e where "e \<in> set ms" "edits e = Some (mid (msg_id m))" "mb_author (msg_body e) = mb_author (msg_body m)"
      "mb_body (msg_body e) = t"
      using controls_backed[of ms] unfolding backed_def by blast
    with Some show ?thesis by (intro disjI2 bexI[of _ e]) (simp_all add: with_edit_def)
  qed (simp add: with_edit_def)
  then show "list_all (\<lambda>m. with_edit ?c m = m \<or> (\<exists>e \<in> set ms. edits e = Some (mid (msg_id m)) \<and>
      mb_author (msg_body e) = mb_author (msg_body m) \<and>
      with_edit ?c m = m\<lparr>msg_body := (msg_body m)\<lparr>mb_body := mb_body (msg_body e)\<rparr>\<rparr>)) (filter (not_retracted ?c) ?plain)"
    by (simp add: list_all_iff)
qed

text \<open>
  Property C10. A retraction does not last. One entry per message is kept, the last, whoever wrote it, and only
  then is its author compared: after a retraction of the message by anyone else, the message its
  author took away is shown again.
\<close>

theorem foreign_retraction_revives:
  assumes "m \<in> set ms" "\<not> is_control m"
    and "retracts f = Some (mid (msg_id m))" "mb_author (msg_body f) \<noteq> mb_author (msg_body m)"
  shows "\<exists>m' \<in> set (fst (apply_control_messages E (ms @ [f]))). msg_id m' = msg_id m"
proof -
  let ?c = "controls (ms @ [f])"
  have "hm_get (ct_retracted ?c) (mid (msg_id m)) = Some (mb_author (msg_body f))"
    using assms(3) by (simp add: controls_def apply_control_def)
  then have "not_retracted ?c m" using assms(4) by (simp add: not_retracted_def)
  with assms(1,2) have "with_edit ?c m \<in> set (fst (apply_control_messages E (ms @ [f])))"
    by (simp add: apply_control_messages_def Let_def)
  then show ?thesis by (intro bexI[of _ "with_edit ?c m"]) simp_all
qed

definition demo_text :: "nat \<Rightarrow> string \<Rightarrow> string \<Rightarrow> string \<Rightarrow> message" where
  "demo_text who i subject body = \<lparr>msg_id = MessageId i, msg_body = \<lparr>mb_board = ''general'', mb_parent = None,
     mb_subject = subject, mb_body = body, mb_author = ident (demo_id who), mb_handle = [], mb_created_at = 0, mb_kind = Post\<rparr>,
     msg_signature = SignatureBytes []\<rparr>"

lemma demo_authors: "ident (demo_id 1) \<noteq> ident (demo_id 2)"
  by code_simp

lemma demo_retraction:
  "retracts (demo_text n i ''agentbbs/ctl:retract:a'' []) = Some ''a''" "\<not> is_control (demo_text n i ''hi'' body)"
  "is_control (demo_text n i ''agentbbs/ctl:retract:a'' [])"
  by (simp_all add: retracts_def is_control_def demo_text_def CTL_def strip_prefix_def)

text \<open>Retracted by its author a message is gone; a retraction of a stranger brings it back.\<close>

theorem foreign_retraction_revives_witness:
  "fst (apply_control_messages demo_env
     [demo_text 1 ''a'' ''hi'' ''secret'', demo_text 1 ''b'' ''agentbbs/ctl:retract:a'' []]) = [] \<and>
   (\<exists>m' \<in> set (fst (apply_control_messages demo_env ([demo_text 1 ''a'' ''hi'' ''secret'',
      demo_text 1 ''b'' ''agentbbs/ctl:retract:a'' []] @ [demo_text 2 ''c'' ''agentbbs/ctl:retract:a'' []]))).
      msg_id m' = MessageId ''a'')"
proof
  show "fst (apply_control_messages demo_env
     [demo_text 1 ''a'' ''hi'' ''secret'', demo_text 1 ''b'' ''agentbbs/ctl:retract:a'' []]) = []"
    by (simp add: apply_control_messages_def Let_def demo_retraction controls_def apply_control_def not_retracted_def)
      (simp add: demo_text_def edits_def retracts_def CTL_def strip_prefix_def)
  have ids: "msg_id (demo_text n i s b) = MessageId i"
    "mb_author (msg_body (demo_text n i s b)) = ident (demo_id n)" for n i s b by (simp_all add: demo_text_def)
  show "\<exists>m' \<in> set (fst (apply_control_messages demo_env ([demo_text 1 ''a'' ''hi'' ''secret'',
      demo_text 1 ''b'' ''agentbbs/ctl:retract:a'' []] @ [demo_text 2 ''c'' ''agentbbs/ctl:retract:a'' []]))).
      msg_id m' = MessageId ''a''"
    using foreign_retraction_revives[of "demo_text 1 ''a'' ''hi'' ''secret''"
        "[demo_text 1 ''a'' ''hi'' ''secret'', demo_text 1 ''b'' ''agentbbs/ctl:retract:a'' []]"
        "demo_text 2 ''c'' ''agentbbs/ctl:retract:a'' []" demo_env] demo_authors
    by (simp add: demo_retraction ids)
qed

end
