(* ===== verification/Tui.thy ===== *)
theory Tui
  imports Tui_Thread Presence Web_Runs Market Moderation Credential Budget Reputation Pod Arena Adapters Web_Agent_Reply
begin

text \<open>
  The terminal client (\<open>agentbbs-tui/src/app.rs\<close>): the session's state and what each operation
  does to it: here reading boards, threads and direct messages. Writing is in \<open>Tui_Write\<close>, the other
  panels in \<open>Tui_Work\<close>, keys in \<open>Tui_Keys\<close>; drawing is not modelled. A text buffer holds UTF-8;
  clocks, random bytes, the order of a hash map and running a program are arguments.
\<close>

section \<open>Screens and state\<close>

datatype screen = ScSplash | ScMain | ScBoards | ScRead | ScCompose | ScWho | ScDoors | ScArena | ScMarket
  | ScFederation | ScSysop | ScPods | ScApprovals | ScBudget | ScDecisions | ScDirectory | ScPlaybooks | ScDigest
  | ScDm | ScPassport | ScConsole | ScPalette | ScAppearance | ScCollab | ScDrafts | ScGoodbye

definition MENU :: "(char \<times> string \<times> screen) list" where
  "MENU =
     [(CHR ''M'', ''Message Bases'', ScBoards), (CHR ''W'', ''Who'' @ [CHR 0x27] @ ''s Online'', ScWho),
      (CHR ''D'', ''Door Games'', ScDoors), (CHR ''A'', ''Arena (Benchmarks)'', ScArena), (CHR ''P'', ''Pods'', ScPods),
      (CHR ''V'', ''Approvals'', ScApprovals), (CHR ''B'', ''Budget'', ScBudget), (CHR ''C'', ''Decisions'', ScDecisions),
      (CHR ''H'', ''Agent Directory'', ScDirectory), (CHR ''L'', ''Playbooks'', ScPlaybooks),
      (CHR ''I'', ''Daily Digest'', ScDigest), (CHR ''T'', ''Direct Messages'', ScDm), (CHR ''X'', ''Passport'', ScPassport),
      (CHR ''K'', ''Marketplace'', ScMarket), (CHR ''F'', ''Federation'', ScFederation), (CHR ''S'', ''Sysop Report'', ScSysop),
      (CHR ''E'', ''Console'', ScConsole), (CHR ''O'', ''Appearance'', ScAppearance), (CHR ''U'', ''Collab (jj)'', ScCollab),
      (CHR ''N'', ''Agent Inbox (Drafts)'', ScDrafts), (CHR ''G'', ''Goodbye / Log Off'', ScGoodbye)]"

datatype theme_name = Retro | Dark | Light | Aubergine | Nord | Solarized | Terminal

definition ALL_THEMES :: "theme_name list" where
  "ALL_THEMES = [Retro, Dark, Light, Aubergine, Nord, Solarized, Terminal]"

fun theme_label :: "theme_name \<Rightarrow> string" where
  "theme_label Retro = ''Retro (amber CRT)''"
| "theme_label Dark = ''Dark''"
| "theme_label Light = ''Light''"
| "theme_label Aubergine = ''Aubergine''"
| "theme_label Nord = ''Nord''"
| "theme_label Solarized = ''Solarized''"
| "theme_label Terminal = ''Terminal''"

datatype compose_field = CfSubject | CfBody

datatype decision_field = DfTitle | DfDecision | DfRationale

fun next_decision_field :: "decision_field \<Rightarrow> decision_field" where
  "next_decision_field DfTitle = DfDecision"
| "next_decision_field DfDecision = DfRationale"
| "next_decision_field DfRationale = DfTitle"

datatype collab_view = CvStatus | CvDiff | CvLog | CvIssues | CvPrs

fun needs_repo :: "collab_view \<Rightarrow> bool" where
  "needs_repo CvIssues = True"
| "needs_repo CvPrs = True"
| "needs_repo _ = False"

record tui_session =
  se_identity :: identity
  se_handle :: string
  se_caps :: caps

record reply_target =
  rt_id :: message_id
  rt_handle :: string
  rt_subject :: string

record tui_pod =
  td_id :: string
  td_status :: pod_status
  td_created_at :: time
  td_spec :: pod_spec

text \<open>
  The fields of \<open>App\<close>, in four groups: reading, writing, the ledgers, and the prompts. The service
  always reports to a \<open>MemoryReporter\<close>; other sessions share its store, and the presence registry.
\<close>

record 's tui_read =
  tu_bbs :: "('s, memory_reporter) bbs"
  tu_session :: tui_session
  tu_screen :: screen
  tu_menu_index :: nat
  tu_boards :: "board list"
  tu_board_index :: nat
  tu_current_board :: "string option"
  tu_messages :: "message list"
  tu_verified :: "(string, bool) hmap"
  tu_edited :: "string set"
  tu_read_index :: nat
  tu_board_seen :: "(string, nat) hmap"
  tu_expanded :: "message_id set"
  tu_presence :: presence
  tu_status :: string
  tu_should_quit :: bool

record 's tui_write = "'s tui_read" +
  tu_compose_subject :: string
  tu_compose_body :: string
  tu_compose_field :: compose_field
  tu_reply_to :: "reply_target option"
  tu_edit_target :: "message_id option"
  tu_moderation :: moderation_log
  tu_drafts :: draft_queue
  tu_draft_index :: nat
  tu_draft_editing :: bool
  tu_draft_input :: string
  tu_decisions :: decision_log
  tu_decision_editing :: bool
  tu_decision_field :: decision_field
  tu_title_input :: string
  tu_body_input :: string
  tu_rationale_input :: string

record ('s, 'j) tui_work = "'s tui_write" +
  tu_arena :: "'j arena"
  tu_arena_index :: nat
  tu_market :: market
  tu_market_index :: nat
  tu_credits :: u64  \<comment> \<open>the bits of an \<open>i64\<close>\<close>
  tu_installed :: "string set"
  tu_pods :: "tui_pod list"
  tu_pod_index :: nat
  tu_proposals :: "action_proposal list"
  tu_gate :: approval_gate
  tu_approval_index :: nat
  tu_budget :: budget_ledger
  tu_reputation :: reputation_ledger
  tu_credentials :: credential_store
  tu_directory :: "(agent_id \<times> string) list"
  tu_directory_index :: nat
  tu_org :: identity
  tu_playbook :: playbook
  tu_run :: "playbook_run option"
  tu_milestone :: "message_id option"
  tu_steps_posted :: nat
  tu_rotation :: rotation_chain
  tu_rotated_from :: "agent_id option"

record ('s, 'j) app = "('s, 'j) tui_work" +
  tu_palette_query :: string
  tu_palette_index :: nat
  tu_palette_return :: screen
  tu_theme :: theme_name
  tu_appearance_index :: nat
  tu_fed_status :: "(string + string) option"
  tu_fed_editing :: bool
  tu_fed_input :: string
  tu_collab_view :: collab_view
  tu_jj_status :: "(string + string) option"
  tu_jj_diff :: "(string + string) option"
  tu_jj_log :: "(string + string) option"
  tu_repo :: string
  tu_repo_editing :: bool
  tu_repo_input :: string
  tu_gh_issues :: "(string + string) option"
  tu_gh_prs :: "(string + string) option"
  tu_dm_index :: nat
  tu_dm_editing :: bool
  tu_dm_input :: string
  tu_claim_editing :: bool
  tu_claim_input :: string
  tu_who_index :: nat

text \<open>
  What a key reads from outside, by the number of the reading where there are several: the session
  clock in milliseconds, the wall clock, random bytes and the order in which the presence registry
  lists its members; the date as printed; why no runtime starts, if none does; and the programs run.
\<close>

record tui_call =
  tk_ms :: "nat \<Rightarrow> u64"
  tk_at :: "nat \<Rightarrow> time"
  tk_rnd :: "nat \<Rightarrow> bytes"
  tk_order :: "nat \<Rightarrow> member list \<Rightarrow> member list"
  tk_date :: string
  tk_runtime :: "string option"
  tk_run :: runner

definition res_or :: "'a \<Rightarrow> 'e + 'a \<Rightarrow> 'a" where
  "res_or d r = (case r of Inl _ \<Rightarrow> d | Inr x \<Rightarrow> x)"

definition str_err :: "'a result \<Rightarrow> string + 'a" where
  "str_err r = (case r of Inl e \<Rightarrow> Inl (error_display e) | Inr x \<Rightarrow> Inr x)"

definition nth_opt :: "'a list \<Rightarrow> nat \<Rightarrow> 'a option" where
  "nth_opt xs i = (if i < length xs then Some (xs ! i) else None)"

definition position :: "('a \<Rightarrow> bool) \<Rightarrow> 'a list \<Rightarrow> nat option" where
  "position P xs = find (\<lambda>i. P (xs ! i)) [0..<length xs]"

definition say :: "string \<Rightarrow> ('s, 'j) app \<Rightarrow> ('s, 'j) app" where
  "say s a = a\<lparr>tu_status := s\<rparr>"

definition self :: "('s, 'j) app \<Rightarrow> agent_id" where
  "self a = ident (se_identity (tu_session a))"

section \<open>Boards\<close>

definition tui_heartbeat :: "tui_call \<Rightarrow> ('s, 'j) app \<Rightarrow> ('s, 'j) app" where
  "tui_heartbeat K a = a\<lparr>tu_presence := heartbeat (tu_presence a) (self a) (se_handle (tu_session a)) False (tk_ms K 0)\<rparr>"

definition refresh_boards :: "'s store_ops \<Rightarrow> ('s, 'j) app \<Rightarrow> ('s, 'j) app" where
  "refresh_boards T a =
     (let bs = res_or [] (svc_list_boards T (tu_bbs a) READ) in
      a\<lparr>tu_boards := bs,
        tu_board_index := (if length bs \<le> tu_board_index a then length bs - 1 else tu_board_index a)\<rparr>)"

text \<open>The messages of a board as the store has them now, resolved and counted.\<close>

definition board_now :: "'s store_ops \<Rightarrow> ('s, 'r) bbs \<Rightarrow> string \<Rightarrow> message list" where
  "board_now T b slug = res_or [] (svc_read_board T b READ slug 200)"

definition load_board :: "'s store_ops \<Rightarrow> env \<Rightarrow> string \<Rightarrow> ('s, 'j) app \<Rightarrow> ('s, 'j) app" where
  "load_board T E slug a =
     (let raw = board_now T (tu_bbs a) slug; (shown, ver, ed) = apply_control_messages E raw in
      a\<lparr>tu_board_seen := hm_insert slug (length raw) (tu_board_seen a),
        tu_messages := shown, tu_verified := ver, tu_edited := ed\<rparr>)"

definition open_selected_board :: "'s store_ops \<Rightarrow> env \<Rightarrow> ('s, 'j) app \<Rightarrow> ('s, 'j) app" where
  "open_selected_board T E a =
     (case nth_opt (tu_boards a) (tu_board_index a) of
        None \<Rightarrow> a
      | Some b \<Rightarrow>
          let a' = load_board T E (bd_slug b) a in
          a'\<lparr>tu_read_index := length (tu_messages a') - 1, tu_current_board := Some (bd_slug b),
             tu_screen := ScRead\<rparr>)"

definition refresh_current_board :: "'s store_ops \<Rightarrow> env \<Rightarrow> string \<Rightarrow> ('s, 'j) app \<Rightarrow> ('s, 'j) app" where
  "refresh_current_board T E slug a =
     (let a' = load_board T E slug a in
      a'\<lparr>tu_read_index := min (tu_read_index a') (length (tu_messages a') - 1)\<rparr>)"

text \<open>\<open>usize::MAX\<close> is no bound on a list.\<close>

definition USIZE_MAX :: nat where
  "USIZE_MAX = 2 ^ 64 - 1"

definition board_count :: "'s store_ops \<Rightarrow> ('s, 'j) app \<Rightarrow> string \<Rightarrow> nat" where
  "board_count T a slug = length (res_or [] (svc_read_board T (tu_bbs a) READ slug USIZE_MAX))"

definition unread_for :: "'s store_ops \<Rightarrow> ('s, 'j) app \<Rightarrow> string \<Rightarrow> nat" where
  "unread_for T a slug = board_count T a slug - unwrap_or 0 (hm_get (tu_board_seen a) slug)"

text \<open>The board \<open>delta\<close> further, around the list; of fewer than \<open>2 ^ 31\<close> boards the casts to \<open>i32\<close> keep the number.\<close>

definition switch_board :: "'s store_ops \<Rightarrow> env \<Rightarrow> int \<Rightarrow> ('s, 'j) app \<Rightarrow> ('s, 'j) app" where
  "switch_board T E delta a =
     (if tu_boards a = [] then a
      else open_selected_board T E
        (a\<lparr>tu_board_index := nat ((int (tu_board_index a) + delta) mod int (length (tu_boards a)))\<rparr>))"

section \<open>Threads\<close>

definition has_step_children :: "('s, 'j) app \<Rightarrow> message_id \<Rightarrow> bool" where
  "has_step_children a parent \<longleftrightarrow>
     list_ex (\<lambda>m. mb_kind (msg_body m) = Step \<and> mb_parent (msg_body m) = Some parent) (tu_messages a)"

definition toggle_thread :: "('s, 'j) app \<Rightarrow> ('s, 'j) app" where
  "toggle_thread a =
     (case nth_opt (tu_messages a) (tu_read_index a) of
        None \<Rightarrow> a
      | Some m \<Rightarrow>
          if \<not> has_step_children a (msg_id m) then say ''No agent-process steps to expand on this message.'' a
          else if msg_id m \<in> tu_expanded a
          then say ''Collapsed step thread.'' (a\<lparr>tu_expanded := tu_expanded a - {msg_id m}\<rparr>)
          else say ''Expanded step thread.'' (a\<lparr>tu_expanded := insert (msg_id m) (tu_expanded a)\<rparr>))"

section \<open>Direct messages\<close>

definition directory_handle :: "env \<Rightarrow> ('s, 'j) app \<Rightarrow> agent_id \<Rightarrow> string" where
  "directory_handle E a i =
     (case find (\<lambda>d. fst d = i) (tu_directory a) of Some d \<Rightarrow> snd d | None \<Rightarrow> short_id E i)"

definition dm_peers :: "('s, 'j) app \<Rightarrow> string list" where
  "dm_peers a = foldl (\<lambda>peers b. case strip_prefix ''dm:'' (bd_slug b) of
       None \<Rightarrow> peers
     | Some peer \<Rightarrow> if peer \<in> set peers then peers else peers @ [peer]) (map snd (tu_directory a)) (tu_boards a)"

text \<open>
  The board of a conversation is founded by a throwaway key with a sysop's capabilities; what
  becomes of that is ignored.
\<close>

definition open_dm :: "'s store_ops \<Rightarrow> env \<Rightarrow> tui_call \<Rightarrow> string \<Rightarrow> ('s, 'j) app \<Rightarrow> ('s, 'j) app" where
  "open_dm T E K handle a =
     (let peer = to_lower E (trim_start_char (CHR ''@'') handle);
          slug = ''dm:'' @ peer;
          exists = list_ex (\<lambda>b. bd_slug b = slug) (res_or [] (svc_list_boards T (tu_bbs a) READ));
          a = (if exists then a
               else a\<lparr>tu_bbs := fst (svc_create_board T mr_report (tk_at K 1) (tu_bbs a) (role_caps Sysop)
                  (board_new slug (''DM: @'' @ peer) (ident (generate E (tk_rnd K 0))) (tk_at K 0)))\<rparr>);
          a = refresh_boards T a
      in case position (\<lambda>b. bd_slug b = slug) (tu_boards a) of
           None \<Rightarrow> a
         | Some i \<Rightarrow> open_selected_board T E (a\<lparr>tu_board_index := i\<rparr>))"

end
