(* ===== verification/Tui_Write.thy ===== *)
theory Tui_Write
  imports Tui
begin

text \<open>
  Writing in the terminal client (\<open>agentbbs-tui/src/app.rs\<close>): composing, editing and deleting
  messages, the inbox of drafts, decisions and the digest.
\<close>

section \<open>Composing\<close>

definition begin_reply :: "env \<Rightarrow> ('s, 'j) app \<Rightarrow> ('s, 'j) app" where
  "begin_reply E a =
     (case nth_opt (tu_messages a) (tu_read_index a) of
        None \<Rightarrow> a
      | Some m \<Rightarrow>
          let handle = (if mb_handle (msg_body m) = [] then short_id E (mb_author (msg_body m)) else mb_handle (msg_body m))
          in a\<lparr>tu_reply_to := Some \<lparr>rt_id = msg_id m, rt_handle = handle, rt_subject = mb_subject (msg_body m)\<rparr>,
               tu_compose_subject := ''Re: '' @ mb_subject (msg_body m),
               tu_compose_field := CfBody,
               tu_status := ''Replying'' @ dash @ ''TAB switches field, Ctrl-S sends, ESC cancels.'',
               tu_screen := ScCompose\<rparr>)"

definition begin_edit :: "('s, 'j) app \<Rightarrow> ('s, 'j) app" where
  "begin_edit a =
     (case nth_opt (tu_messages a) (tu_read_index a) of
        None \<Rightarrow> a
      | Some m \<Rightarrow>
          if mb_author (msg_body m) \<noteq> self a then say ''You can only edit your own messages.'' a
          else a\<lparr>tu_edit_target := Some (msg_id m), tu_reply_to := None, tu_compose_body := mb_body (msg_body m),
                 tu_compose_field := CfBody, tu_status := ''Editing'' @ dash @ ''Ctrl-S saves, ESC cancels.'',
                 tu_screen := ScCompose\<rparr>)"

text \<open>A message of the session, and what becomes of posting it; its two clock readings.\<close>

definition own_body :: "('s, 'j) app \<Rightarrow> string \<Rightarrow> message_id option \<Rightarrow> string \<Rightarrow> string \<Rightarrow> string \<Rightarrow> time \<Rightarrow> message_body" where
  "own_body a slug parent subject body handle created =
     \<lparr>mb_board = slug, mb_parent = parent, mb_subject = subject, mb_body = body, mb_author = self a,
      mb_handle = handle, mb_created_at = created, mb_kind = Post\<rparr>"

definition post_own :: "'s store_ops \<Rightarrow> env \<Rightarrow> tui_call \<Rightarrow> ('s, 'j) app \<Rightarrow> message_body \<Rightarrow> ('s, 'j) app \<times> message_id result" where
  "post_own T E K a body =
     (case message_sign E (se_identity (tu_session a)) body of
        Inl e \<Rightarrow> (a, Inl e)
      | Inr m \<Rightarrow> (let (b, r) = svc_post T mr_report E (tk_at K 1) (tu_bbs a) (se_caps (tu_session a)) m
                  in (a\<lparr>tu_bbs := b\<rparr>, r)))"

definition delete_selected :: "'s store_ops \<Rightarrow> env \<Rightarrow> tui_call \<Rightarrow> ('s, 'j) app \<Rightarrow> ('s, 'j) app \<times> (string + unit)" where
  "delete_selected T E K a =
     (case nth_opt (tu_messages a) (tu_read_index a) of
        None \<Rightarrow> (a, Inl ''no message selected'')
      | Some m \<Rightarrow>
          if mb_author (msg_body m) \<noteq> self a then (a, Inl ''you can only delete your own messages'')
          else case tu_current_board a of
            None \<Rightarrow> (a, Inl ''no board selected'')
          | Some slug \<Rightarrow>
              (case post_own T E K a (own_body a slug None (CTL @ ''retract:'' @ mid (msg_id m)) (mid (msg_id m)) ''you'' (tk_at K 0)) of
                 (a, Inl e) \<Rightarrow> (a, Inl (error_display e))
               | (a, Inr _) \<Rightarrow> (refresh_current_board T E slug a, Inr ())))"

text \<open>The subject and the parent that leave the compose screen, and the handle.\<close>

definition compose_subject :: "('s, 'j) app \<Rightarrow> string" where
  "compose_subject a =
     (case tu_edit_target a of
        Some target \<Rightarrow> CTL @ ''edit:'' @ mid target
      | None \<Rightarrow> if trim (tu_compose_subject a) = [] then ''(no subject)'' else tu_compose_subject a)"

definition compose_parent :: "('s, 'j) app \<Rightarrow> message_id option" where
  "compose_parent a = (case tu_edit_target a of Some _ \<Rightarrow> None | None \<Rightarrow> map_option rt_id (tu_reply_to a))"

definition compose_handle :: "('s, 'j) app \<Rightarrow> string" where
  "compose_handle a = (if tu_edit_target a \<noteq> None then ''you'' else se_handle (tu_session a))"

definition submit_compose :: "'s store_ops \<Rightarrow> env \<Rightarrow> tui_call \<Rightarrow> ('s, 'j) app \<Rightarrow> ('s, 'j) app" where
  "submit_compose T E K a =
     (case tu_current_board a of
        None \<Rightarrow> say ''No board selected.'' a
      | Some slug \<Rightarrow>
          if trim (tu_compose_body a) = [] then say ''Cannot post an empty message.'' a
          else if \<not> can_post (tu_moderation a) (self a) (tk_at K 2) then say ''Posting is blocked by moderation.'' a
          else case post_own T E K a (own_body a slug (compose_parent a) (compose_subject a) (tu_compose_body a)
                 (compose_handle a) (tk_at K 0)) of
            (a', Inl e) \<Rightarrow> say (''Post failed: '' @ error_display e) a'
          | (a', Inr _) \<Rightarrow>
              (refresh_current_board T E slug
                (a'\<lparr>tu_compose_subject := [], tu_compose_body := [], tu_compose_field := CfSubject,
                    tu_reply_to := None, tu_edit_target := None\<rparr>))
              \<lparr>tu_status := (if tu_edit_target a \<noteq> None then ''Message edited and signed.''
                             else ''Message posted and signed.''),
               tu_screen := ScRead\<rparr>)"

section \<open>Drafts\<close>

definition begin_draft :: "env \<Rightarrow> tui_call \<Rightarrow> ('s, 'j) app \<Rightarrow> ('s, 'j) app" where
  "begin_draft E K a =
     (case (nth_opt (tu_messages a) (tu_read_index a), tu_current_board a) of
        (Some m, Some board) \<Rightarrow>
          let context = mb_body (msg_body m); agent = ''claude'' in
          (case draft_reply E board (Some (mid (msg_id m))) agent (''looped in '' @ agent) (scripted_reply context)
                  context (tk_at K 0) of
             Inl e \<Rightarrow> say (''Draft refused: '' @ error_display e) a
           | Inr d \<Rightarrow> say (''Draft ready'' @ dash @ ''see Agent Inbox (N) to review.'')
               (a\<lparr>tu_drafts := draft_add (tu_drafts a) d\<rparr>))
      | _ \<Rightarrow> say ''No message selected to draft a reply to.'' a)"

definition clamp_draft_index :: "('s, 'j) app \<Rightarrow> ('s, 'j) app" where
  "clamp_draft_index a =
     (let n = length (draft_pending (tu_drafts a)) in
      if n \<le> tu_draft_index a then a\<lparr>tu_draft_index := n - 1\<rparr> else a)"

definition selected_draft :: "('s, 'j) app \<Rightarrow> draft option" where
  "selected_draft a = nth_opt (draft_pending (tu_drafts a)) (tu_draft_index a)"

definition send_selected_draft :: "'s store_ops \<Rightarrow> env \<Rightarrow> tui_call \<Rightarrow> ('s, 'j) app \<Rightarrow> ('s, 'j) app" where
  "send_selected_draft T E K a =
     (case selected_draft a of
        None \<Rightarrow> say ''No draft selected.'' a
      | Some d \<Rightarrow>
          (case send_draft T mr_report E (tk_at K 0) (tk_at K 1) (tu_bbs a) (se_caps (tu_session a))
                  (se_identity (tu_session a)) d of
             (b, Inl e) \<Rightarrow> say (''Send failed: '' @ error_display e) (a\<lparr>tu_bbs := b\<rparr>)
           | (b, Inr _) \<Rightarrow>
               clamp_draft_index (refresh_current_board T E (df_target d)
                 (say (''Draft sent'' @ dash @ ''signed under your own key.'')
                   (a\<lparr>tu_bbs := b, tu_drafts := fst (draft_mark_sent (tu_drafts a) (df_id d))\<rparr>)))))"

definition discard_selected_draft :: "('s, 'j) app \<Rightarrow> ('s, 'j) app" where
  "discard_selected_draft a =
     (case selected_draft a of
        None \<Rightarrow> a
      | Some d \<Rightarrow> clamp_draft_index (say ''Draft discarded.''
          (a\<lparr>tu_drafts := fst (draft_discard (tu_drafts a) (df_id d))\<rparr>)))"

definition edit_selected_draft :: "string \<Rightarrow> ('s, 'j) app \<Rightarrow> ('s, 'j) app" where
  "edit_selected_draft new_body a =
     (case selected_draft a of
        None \<Rightarrow> a
      | Some d \<Rightarrow> say ''Draft edited.'' (a\<lparr>tu_drafts := fst (draft_edit (tu_drafts a) (df_id d) new_body)\<rparr>))"

section \<open>Decisions and the digest\<close>

definition submit_decision :: "env \<Rightarrow> tui_call \<Rightarrow> ('s, 'j) app \<Rightarrow> ('s, 'j) app" where
  "submit_decision E K a =
     (let title = trim (tu_title_input a); decision = trim (tu_body_input a);
          rationale = trim (tu_rationale_input a) in
      if title = [] \<or> decision = [] then say ''Title and decision are required.'' a
      else case dlog_add E (tu_decisions a) (record_new E (se_identity (tu_session a)) title decision rationale
                  (unwrap_or ''general'' (tu_current_board a)) (tk_at K 0)) of
        Inl e \<Rightarrow> say (''Record failed: '' @ error_display e) a
      | Inr l \<Rightarrow> a\<lparr>tu_decisions := l, tu_decision_editing := False, tu_title_input := [], tu_body_input := [],
          tu_rationale_input := [], tu_decision_field := DfTitle,
          tu_status := ''Decision recorded: '' @ title\<rparr>)"

definition digest_stats :: "'s store_ops \<Rightarrow> ('s, 'j) app \<Rightarrow> nat \<times> nat" where
  "digest_stats T a =
     (let ms = res_or [] (svc_read_board T (tu_bbs a) READ ''general'' USIZE_MAX) in
      (length ms, card ((\<lambda>m. mb_author (msg_body m)) ` set ms)))"

definition post_digest :: "'s store_ops \<Rightarrow> env \<Rightarrow> tui_call \<Rightarrow> ('s, 'j) app \<Rightarrow> ('s, 'j) app \<times> (string + unit)" where
  "post_digest T E K a =
     (let (count, participants) = digest_stats T a in
      case post_own T E K a (own_body a ''general'' None (''Daily Digest'' @ dash @ tk_date K)
             (dec count @ '' message(s) from '' @ dec participants @ '' participant(s) today.'') ''digest'' (tk_at K 0)) of
        (a, Inl e) \<Rightarrow> (a, Inl (error_display e))
      | (a, Inr _) \<Rightarrow> (a, Inr ()))"

end
