(* ===== verification/Tui_Work.thy ===== *)
theory Tui_Work
  imports Tui_Write
begin

text \<open>
  The other panels of the terminal client (\<open>agentbbs-tui/src/app.rs\<close>): pods, approvals, budget, the
  directory and moderation, playbook runs, the marketplace, identity, and the programs behind the
  federation and collaboration screens. A result the user is told of is the second component.
\<close>

section \<open>Pods and the budget\<close>

definition spawn_pod :: "tui_call \<Rightarrow> pod_spec \<Rightarrow> ('s, 'j) app \<Rightarrow> ('s, 'j) app \<times> (string + tui_pod)" where
  "spawn_pod K spec a =
     (case spec_validate spec of
        Inl e \<Rightarrow> (a, Inl (error_display e))
      | Inr _ \<Rightarrow>
     (case (case sp_idempotency_key spec of None \<Rightarrow> None
            | Some key \<Rightarrow> find (\<lambda>p. sp_idempotency_key (td_spec p) = Some key) (tu_pods a)) of
        Some existing \<Rightarrow> (a, Inr existing)
      | None \<Rightarrow>
          let p = \<lparr>td_id = ''pod-'' @ zero_pad 4 (length (tu_pods a)), td_status = Spawned,
                   td_created_at = tk_at K 0, td_spec = spec\<rparr>
          in (a\<lparr>tu_pods := tu_pods a @ [p]\<rparr>, Inr p)))"

text \<open>A quarter of a dollar, and ten cents to the nearest double.\<close>

definition HIRE_CAP :: f64 where
  "HIRE_CAP = 0x3FD0000000000000"

definition TOPUP_STEP :: f64 where
  "TOPUP_STEP = 0x3FB999999999999A"

definition hire :: "env \<Rightarrow> tui_call \<Rightarrow> string \<Rightarrow> string \<Rightarrow> ('s, 'j) app \<Rightarrow> ('s, 'j) app \<times> (string + tui_pod)" where
  "hire E K handle domain a =
     (let h = to_lower E (trim_start_char (CHR ''@'') handle);
          h = (if h = [] then ''agent'' else h)
      in spawn_pod K
        \<lparr>sp_template =
           \<lparr>pt_template_ref = domain @ ''/hired-'' @ h @ ''@1'', pt_domain = domain,
            pt_system_prompt = ''Pod hosted by @'' @ h @ '' (hired from the Directory).'', pt_tools = [],
            pt_bench_assertions = ''produces a useful, gated result'', pt_per_agent_cap_usd = HIRE_CAP,
            pt_cron_schedule = None, pt_max_tier = Mid, pt_registered_room = domain @ ''-ops''\<rparr>,
         sp_tier = Some Mid, sp_idempotency_key = None\<rparr> a)"

definition tui_budget_status :: "('s, 'j) app \<Rightarrow> tui_pod \<Rightarrow> budget_status" where
  "tui_budget_status a p = budget_status_of (tu_budget a) (td_id p) (pt_per_agent_cap_usd (sp_template (td_spec p)))"

definition topup_selected_pod :: "f64 \<Rightarrow> ('s, 'j) app \<Rightarrow> ('s, 'j) app" where
  "topup_selected_pod amount a =
     (case nth_opt (tu_pods a) (tu_pod_index a) of
        None \<Rightarrow> a
      | Some p \<Rightarrow> a\<lparr>tu_budget := bump_cap (tu_budget a) (td_id p) amount\<rparr>)"

section \<open>Approvals\<close>

definition propose_action :: "env \<Rightarrow> tui_call \<Rightarrow> string \<Rightarrow> string \<Rightarrow> string \<Rightarrow> ('s, 'j) app \<Rightarrow> ('s, 'j) app \<times> action_proposal" where
  "propose_action E K kind summary board a =
     (let p = proposal_new E kind summary (self a) board (tk_at K 0)
      in (a\<lparr>tu_proposals := tu_proposals a @ [p]\<rparr>, p))"

definition decide_action :: "env \<Rightarrow> tui_call \<Rightarrow> string \<Rightarrow> verdict \<Rightarrow> string \<Rightarrow> ('s, 'j) app \<Rightarrow> ('s, 'j) app \<times> (string + unit)" where
  "decide_action E K i v reason a =
     (case gate_record E (tu_gate a) (decision_sign E (se_identity (tu_session a)) i v reason (tk_at K 0)) of
        Inl e \<Rightarrow> (a, Inl (error_display e))
      | Inr g \<Rightarrow> (a\<lparr>tu_gate := g\<rparr>, Inr ()))"

text \<open>Whoever has decided is allowed to.\<close>

definition deciders :: "approval_gate \<Rightarrow> string \<Rightarrow> agent_id list" where
  "deciders g i = map sd_decider (decisions_for g i)"

definition is_action_authorized :: "env \<Rightarrow> ('s, 'j) app \<Rightarrow> string \<Rightarrow> bool" where
  "is_action_authorized E a i = is_authorized E (tu_gate a) i (deciders (tu_gate a) i)"

section \<open>The directory\<close>

definition ranked :: "env \<Rightarrow> ('s, 'j) app \<Rightarrow> string + string" where
  "ranked E a = (case nth_opt (rep_ranking E (tu_reputation a)) (tu_directory_index a) of
     None \<Rightarrow> Inl ''no agent selected'' | Some e \<Rightarrow> Inr (rs_agent e))"

definition issue_credential :: "env \<Rightarrow> tui_call \<Rightarrow> string \<Rightarrow> ('s, 'j) app \<Rightarrow> ('s, 'j) app \<times> (string + credential)" where
  "issue_credential E K claim a =
     (case ranked E a of
        Inl e \<Rightarrow> (a, Inl e)
      | Inr agent \<Rightarrow>
     (case from_hex E agent of
        Inl e \<Rightarrow> (a, Inl (error_display e))
      | Inr subject \<Rightarrow>
          let cred = cred_issue E (se_identity (tu_session a)) subject claim (tk_at K 0) None
          in case cred_add E (tu_credentials a) cred of
               Inl e \<Rightarrow> (a, Inl (error_display e))
             | Inr s \<Rightarrow> (a\<lparr>tu_credentials := s\<rparr>, Inr cred)))"

definition hire_selected :: "env \<Rightarrow> tui_call \<Rightarrow> ('s, 'j) app \<Rightarrow> ('s, 'j) app \<times> (string + tui_pod)" where
  "hire_selected E K a =
     (case ranked E a of
        Inl e \<Rightarrow> (a, Inl e)
      | Inr agent \<Rightarrow>
          hire E K (case find (\<lambda>d. to_hex E (fst d) = agent) (tu_directory a) of
                      Some d \<Rightarrow> snd d | None \<Rightarrow> take 8 agent) ''ops'' a)"

definition moderate_selected :: "env \<Rightarrow> tui_call \<Rightarrow> sanction \<Rightarrow> ('s, 'j) app \<Rightarrow> ('s, 'j) app \<times> (string + unit)" where
  "moderate_selected E K s a =
     (if \<not> caps_contains (se_caps (tu_session a)) MODERATE
      then (a, Inl (''requires MODERATE capability'' @ dash @ ''toggle creator mode on Passport''))
      else case ranked E a of
        Inl e \<Rightarrow> (a, Inl e)
      | Inr agent \<Rightarrow>
     (case from_hex E agent of
        Inl e \<Rightarrow> (a, Inl (error_display e))
      | Inr target \<Rightarrow>
          let reason = (case s of Lift \<Rightarrow> ''sysop lifted the sanction'' | _ \<Rightarrow> ''sysop action from the TUI'')
          in case mod_record E (tu_moderation a)
                 (mod_sign E (se_identity (tu_session a)) target s reason (tk_at K 0)) of
               Inl e \<Rightarrow> (a, Inl (error_display e))
             | Inr l \<Rightarrow> (a\<lparr>tu_moderation := l\<rparr>, Inr ())))"

section \<open>Playbook runs\<close>

definition triage_playbook :: "env \<Rightarrow> playbook" where
  "triage_playbook E = playbook_new E ''triage-inbound-lead'' ''1'' ''event:lead.created''
     [\<lparr>ps_id = ''research'', ps_kind = AgentTask ''claude'' ''enrich the lead from public sources''\<rparr>,
      \<lparr>ps_id = ''approve-spend'', ps_kind = ApprovalGate ''approve $5 enrichment spend''\<rparr>,
      \<lparr>ps_id = ''crm'', ps_kind = Tool ''crm.upsert''\<rparr>]"

text \<open>The deciders are read again at every step of the loop.\<close>

definition run_deciders :: "approval_gate \<Rightarrow> playbook_run \<Rightarrow> agent_id list" where
  "run_deciders g r = (case gate_action_id r of Some i \<Rightarrow> deciders g i | None \<Rightarrow> [])"

function tui_drive :: "env \<Rightarrow> approval_gate \<Rightarrow> playbook_run \<Rightarrow> playbook_run" where
  "tui_drive E g r =
     (if snd (advance E r g (run_deciders g r)) = run_status.Running
      then tui_drive E g (fst (advance E r g (run_deciders g r)))
      else fst (advance E r g (run_deciders g r)))"
  by pat_completeness auto

termination
proof (relation "measure (\<lambda>(E, g, r). length (pb_steps (run_playbook r)) - run_cursor r)")
  fix E g r
  assume "snd (advance E r g (run_deciders g r)) = run_status.Running"
  note moved = advance_running[OF this]
  then have "length (pb_steps (run_playbook r)) - Suc (run_cursor r) < length (pb_steps (run_playbook r)) - run_cursor r"
    by (intro diff_less_mono2) linarith+
  with moved show "((E, g, fst (advance E r g (run_deciders g r))), E, g, r)
      \<in> measure (\<lambda>(E, g, r). length (pb_steps (run_playbook r)) - run_cursor r)" by simp
qed simp

declare tui_drive.simps [simp del]

definition tui_post_autopilot ::
  "'s store_ops \<Rightarrow> env \<Rightarrow> (nat \<Rightarrow> time) \<Rightarrow> identity \<Rightarrow> ('s, memory_reporter) bbs \<Rightarrow> string \<Rightarrow> string \<Rightarrow> string
    \<Rightarrow> message_kind \<Rightarrow> message_id option \<Rightarrow> ('s, memory_reporter) bbs \<times> message_id option" where
  "tui_post_autopilot T E clk org b board subject body kind parent =
     (case message_sign E org (autopilot_body org board subject body kind parent (clk 0)) of
        Inl _ \<Rightarrow> (b, None)
      | Inr m \<Rightarrow> (let (b, r) = svc_post T mr_report E (clk 1) b (role_caps Sysop) m
          in (b, case r of Inl _ \<Rightarrow> None | Inr k \<Rightarrow> Some k)))"

definition PROGRESS_BOARD :: string where
  "PROGRESS_BOARD = ''agents.dev''"

text \<open>The clock is read twice for the milestone and twice for each step.\<close>

definition tui_post_run_progress :: "'s store_ops \<Rightarrow> env \<Rightarrow> (nat \<Rightarrow> time) \<Rightarrow> playbook_run \<Rightarrow> ('s, 'j) app \<Rightarrow> ('s, 'j) app" where
  "tui_post_run_progress T E clk r a =
     (let pb = run_playbook r;
          a = (if tu_milestone a = None
            then (let (b, k) = tui_post_autopilot T E clk (tu_org a) (tu_bbs a) PROGRESS_BOARD
                    (milestone_subject pb) (milestone_body pb) Milestone None
                  in a\<lparr>tu_bbs := b, tu_milestone := k\<rparr>)
            else a)
      in case tu_milestone a of
           None \<Rightarrow> a
         | Some k \<Rightarrow>
             a\<lparr>tu_bbs := foldl (\<lambda>b n. fst (tui_post_autopilot T E (\<lambda>i. clk (i + 2 + 2 * n)) (tu_org a) b PROGRESS_BOARD
                    (step_subject (pb_steps pb ! n)) (progress_summary (pb_steps pb ! n)) Step (Some k)))
                  (tu_bbs a) [tu_steps_posted a..<steps_completed r],
               tu_steps_posted := max (tu_steps_posted a) (steps_completed r)\<rparr>)"

definition tui_record_completion :: "env \<Rightarrow> time \<Rightarrow> playbook_run \<Rightarrow> ('s, 'j) app \<Rightarrow> ('s, 'j) app" where
  "tui_record_completion E now r a =
     (let pb = run_playbook r;
          rec = record_new E (tu_org a) (completion_title pb) ''All steps executed and approval gates signed off''
            (completion_rationale pb) ''general'' now
      in a\<lparr>tu_decisions := res_or (tu_decisions a) (dlog_add E (tu_decisions a) rec)\<rparr>)"

fun run_status_debug :: "run_status \<Rightarrow> string" where
  "run_status_debug run_status.Running = ''Running''"
| "run_status_debug run_status.AwaitingApproval = ''AwaitingApproval''"
| "run_status_debug run_status.Completed = ''Completed''"
| "run_status_debug run_status.Failed = ''Failed''"

text \<open>What starting and advancing a run share: drive it, post, record its completion, keep it.\<close>

definition drive_and_post :: "'s store_ops \<Rightarrow> env \<Rightarrow> tui_call \<Rightarrow> playbook_run \<Rightarrow> ('s, 'j) app \<Rightarrow> ('s, 'j) app" where
  "drive_and_post T E K r a =
     (let r = tui_drive E (tu_gate a) r;
          a = tui_post_run_progress T E (\<lambda>n. tk_at K (n + 2)) r a;
          a = (if run_status r = run_status.Completed then tui_record_completion E (tk_at K 1) r a else a)
      in a\<lparr>tu_status := ''Run status: '' @ run_status_debug (run_status r), tu_run := Some r\<rparr>)"

definition tui_run_playbook :: "'s store_ops \<Rightarrow> env \<Rightarrow> tui_call \<Rightarrow> ('s, 'j) app \<Rightarrow> ('s, 'j) app" where
  "tui_run_playbook T E K a =
     (case run_start (tu_playbook a) of
        Inl e \<Rightarrow> say (''Playbook start failed: '' @ error_display e) a
      | Inr r \<Rightarrow> drive_and_post T E K r (a\<lparr>tu_milestone := None, tu_steps_posted := 0\<rparr>))"

definition advance_run :: "'s store_ops \<Rightarrow> env \<Rightarrow> tui_call \<Rightarrow> ('s, 'j) app \<Rightarrow> ('s, 'j) app" where
  "advance_run T E K a =
     (case tu_run a of
        None \<Rightarrow> say (''No active run'' @ dash @ ''press [R] to start one.'') a
      | Some r \<Rightarrow> drive_and_post T E K r a)"

definition approve_current_gate :: "'s store_ops \<Rightarrow> env \<Rightarrow> tui_call \<Rightarrow> string \<Rightarrow> ('s, 'j) app \<Rightarrow> ('s, 'j) app" where
  "approve_current_gate T E K reason a =
     (case Option.bind (tu_run a) gate_action_id of
        None \<Rightarrow> say ''Current step is not an approval gate.'' a
      | Some i \<Rightarrow>
          (case decide_action E K i Approve reason a of
             (a, Inl e) \<Rightarrow> say (''Decision failed: '' @ e) a
           | (a, Inr _) \<Rightarrow> advance_run T E K a))"

section \<open>Identity\<close>

definition rotate_identity :: "env \<Rightarrow> tui_call \<Rightarrow> ('s, 'j) app \<Rightarrow> ('s, 'j) app \<times> (string + unit)" where
  "rotate_identity E K a =
     (let new = generate E (tk_rnd K 0) in
      case chain_add E (tu_rotation a) (rotation_link_new E (se_identity (tu_session a)) new (tk_at K 0)) of
        Inl e \<Rightarrow> (a, Inl (error_display e))
      | Inr c \<Rightarrow> (a\<lparr>tu_rotation := c, tu_rotated_from := Some (self a),
          tu_session := (tu_session a)\<lparr>se_handle := ''agent-'' @ short_id E (ident new), se_identity := new\<rparr>\<rparr>, Inr ()))"

definition toggle_creator_mode :: "('s, 'j) app \<Rightarrow> ('s, 'j) app" where
  "toggle_creator_mode a = a\<lparr>tu_session := (tu_session a)\<lparr>se_caps :=
     (if caps_contains (se_caps (tu_session a)) SYSOP then role_caps Agent else role_caps Sysop)\<rparr>\<rparr>"

section \<open>The marketplace\<close>

text \<open>The price becomes an \<open>i64\<close> by its bits; the comparison is signed, the subtraction wraps.\<close>

definition install_listing :: "string \<Rightarrow> ('s, 'j) app \<Rightarrow> ('s, 'j) app \<times> (string + unit)" where
  "install_listing sku a =
     (if sku \<in> tu_installed a then (a, Inr ())
      else case find (\<lambda>l. ls_sku (li_body l) = sku) (market_all (tu_market a)) of
        None \<Rightarrow> (a, Inl ''listing not found'')
      | Some l \<Rightarrow>
          let price = ls_price (li_body l) in
          if sint (tu_credits a) < sint price then (a, Inl ''insufficient credits'')
          else (a\<lparr>tu_credits := tu_credits a - price, tu_installed := insert sku (tu_installed a)\<rparr>, Inr ()))"

section \<open>Programs\<close>

definition tui_programs :: "tui_call \<Rightarrow> (runner \<Rightarrow> string result) \<Rightarrow> string + string" where
  "tui_programs K prog = (case tk_runtime K of Some e \<Rightarrow> Inl (''tokio runtime: '' @ e) | None \<Rightarrow> str_err (prog (tk_run K)))"

definition join_status :: "string \<Rightarrow> string + string \<Rightarrow> string" where
  "join_status addr r =
     (case r of
        Inr out \<Rightarrow> if trim out = [] then ''Joined peer '' @ addr @ ''.'' else ''Joined peer '' @ addr @ '': '' @ trim out
      | Inl e \<Rightarrow> ''Federation join failed: '' @ e)"

definition federation_refresh_status :: "tui_call \<Rightarrow> ('s, 'j) app \<Rightarrow> ('s, 'j) app" where
  "federation_refresh_status K a = a\<lparr>tu_fed_status := Some (tui_programs K ruflo_status)\<rparr>"

definition federation_join :: "tui_call \<Rightarrow> string \<Rightarrow> ('s, 'j) app \<Rightarrow> ('s, 'j) app" where
  "federation_join K addr a =
     (let r = tui_programs K (\<lambda>run. ruflo_join run addr)
      in a\<lparr>tu_status := join_status addr r, tu_fed_status := Some r\<rparr>)"

definition set_collab :: "string + string \<Rightarrow> ('s, 'j) app \<Rightarrow> ('s, 'j) app" where
  "set_collab r a =
     (case tu_collab_view a of
        CvStatus \<Rightarrow> a\<lparr>tu_jj_status := Some r\<rparr>
      | CvDiff \<Rightarrow> a\<lparr>tu_jj_diff := Some r\<rparr>
      | CvLog \<Rightarrow> a\<lparr>tu_jj_log := Some r\<rparr>
      | CvIssues \<Rightarrow> a\<lparr>tu_gh_issues := Some r\<rparr>
      | CvPrs \<Rightarrow> a\<lparr>tu_gh_prs := Some r\<rparr>)"

definition collab_program :: "('s, 'j) app \<Rightarrow> runner \<Rightarrow> string result" where
  "collab_program a run =
     (case tu_collab_view a of
        CvStatus \<Rightarrow> jj_status run
      | CvDiff \<Rightarrow> jj_diff run
      | CvLog \<Rightarrow> jj_log run 10
      | CvIssues \<Rightarrow> issue_list run (tu_repo a)
      | CvPrs \<Rightarrow> pr_list run (tu_repo a))"

definition collab_refresh :: "tui_call \<Rightarrow> ('s, 'j) app \<Rightarrow> ('s, 'j) app" where
  "collab_refresh K a =
     (if needs_repo (tu_collab_view a) \<and> trim (tu_repo a) = []
      then set_collab (Inl (''no repo set'' @ dash @ ''press E to set owner/repo first'')) a
      else set_collab (tui_programs K (collab_program a)) a)"

definition collab_current :: "('s, 'j) app \<Rightarrow> (string + string) option" where
  "collab_current a =
     (case tu_collab_view a of
        CvStatus \<Rightarrow> tu_jj_status a
      | CvDiff \<Rightarrow> tu_jj_diff a
      | CvLog \<Rightarrow> tu_jj_log a
      | CvIssues \<Rightarrow> tu_gh_issues a
      | CvPrs \<Rightarrow> tu_gh_prs a)"

section \<open>Diagnostics and the palette\<close>

text \<open>The printed form of the capabilities is derived code; it is an argument.\<close>

definition console_diagnostics :: "'s store_ops \<Rightarrow> env \<Rightarrow> tui_call \<Rightarrow> (caps \<Rightarrow> string) \<Rightarrow> ('s, 'j) app \<Rightarrow> (string \<times> string) list" where
  "console_diagnostics T E K show_caps a =
     (let events = mr_snapshot (bbs_reporter (tu_bbs a));
          errors = filter (\<lambda>e. event_severity e \<in> {Warn, Critical}) events
      in [(''version'', PROTOCOL_VERSION),
          (''identity'', CHR ''@'' # short_id E (self a)),
          (''caps'', show_caps (se_caps (tu_session a))),
          (''boards'', dec (length (tu_boards a))),
          (''messages'', dec (res_or 0 (op_message_count T (bbs_store (tu_bbs a))))),
          (''online'', dec (length (online (tk_order K 0) (tu_presence a) (tk_ms K 0)))),
          (''pods'', dec (length (tu_pods a))),
          (''proposals'', dec (length (tu_proposals a))),
          (''credentials'', dec (length (cred_all (tu_credentials a)))),
          (''decisions'', dec (length (dlog_all (tu_decisions a)))),
          (''installed'', dec (card (tu_installed a))),
          (''credits'', dec_int (sint (tu_credits a))),
          (''events retained'', dec (length events)),
          (''errors/warnings'', dec (length errors))])"

definition filtered_palette_entries :: "('s, 'j) app \<Rightarrow> (char \<times> string \<times> screen) list" where
  "filtered_palette_entries a =
     (let q = to_ascii_lowercase (tu_palette_query a)
      in filter (\<lambda>(_, label, _). q = [] \<or> contains (to_ascii_lowercase label) q) MENU)"

end
