(* ===== verification/Tui_Keys.thy ===== *)
theory Tui_Keys
  imports Tui_Work
begin

text \<open>
  Keys of the terminal client (\<open>agentbbs-tui/src/input.rs\<close>): what each key does on each screen.
\<close>

section \<open>Keys\<close>

text \<open>A typed character is its UTF-8 text; any other key is \<open>KOther\<close>.\<close>

datatype key_code = KUp | KDown | KEnter | KEsc | KTab | KBackspace | KChar string | KOther

record key_event =
  ke_code :: key_code
  ke_ctrl :: bool

datatype flow = Continue | Quit

definition is_up :: "key_code \<Rightarrow> bool" where
  "is_up k \<longleftrightarrow> k = KUp \<or> k = KChar ''k''"

definition is_down :: "key_code \<Rightarrow> bool" where
  "is_down k \<longleftrightarrow> k = KDown \<or> k = KChar ''j''"

definition is_back :: "key_code \<Rightarrow> bool" where
  "is_back k \<longleftrightarrow> k = KEsc \<or> k = KChar ''q''"

definition letter :: "char \<Rightarrow> key_code \<Rightarrow> bool" where
  "letter c k \<longleftrightarrow> k = KChar [c] \<or> k = KChar [ascii_upper_char c]"

definition ctrl :: "string \<Rightarrow> key_event \<Rightarrow> bool" where
  "ctrl c k \<longleftrightarrow> ke_ctrl k \<and> ke_code k = KChar c"

text \<open>The cursor moved in a list of \<open>n\<close> rows.\<close>

definition row_moved :: "key_code \<Rightarrow> nat \<Rightarrow> nat \<Rightarrow> nat" where
  "row_moved k n i = (if is_up k then i - 1 else if is_down k \<and> Suc i < n then Suc i else i)"

definition moves :: "key_code \<Rightarrow> bool" where
  "moves k \<longleftrightarrow> is_up k \<or> is_down k"

text \<open>\<open>String::pop\<close> takes the last character, not the last byte.\<close>

definition pop_char :: "string \<Rightarrow> string" where
  "pop_char s = concat (butlast (utf8_chars s))"

fun typed :: "key_code \<Rightarrow> string \<Rightarrow> string" where
  "typed KBackspace s = pop_char s"
| "typed (KChar c) s = s @ c"
| "typed _ s = s"

definition leave_to :: "screen \<Rightarrow> key_code \<Rightarrow> ('s, 'j) app \<Rightarrow> ('s, 'j) app" where
  "leave_to s k a = (if is_back k then a\<lparr>tu_screen := s\<rparr> else a)"

text \<open>The status line after an operation that may fail.\<close>

definition told :: "string \<Rightarrow> ('x \<Rightarrow> string) \<Rightarrow> ('s, 'j) app \<times> (string + 'x) \<Rightarrow> ('s, 'j) app" where
  "told failed ok p = (case p of (a, Inl e) \<Rightarrow> say (failed @ '' failed: '' @ e) a | (a, Inr x) \<Rightarrow> say (ok x) a)"

section \<open>Moving between screens\<close>

definition goto :: "'s store_ops \<Rightarrow> screen \<Rightarrow> ('s, 'j) app \<Rightarrow> ('s, 'j) app" where
  "goto T target a =
     (case target of
        ScBoards \<Rightarrow> refresh_boards T a
      | ScAppearance \<Rightarrow> a\<lparr>tu_appearance_index := unwrap_or 0 (position (\<lambda>t. t = tu_theme a) ALL_THEMES)\<rparr>
      | ScFederation \<Rightarrow> a\<lparr>tu_fed_editing := False, tu_fed_input := []\<rparr>
      | _ \<Rightarrow> a)\<lparr>tu_screen := target\<rparr>"

definition key_splash :: "('s, 'j) app \<Rightarrow> ('s, 'j) app" where
  "key_splash a = (say (''Main menu'' @ dash @ ''use arrows or hotkeys.'') a)\<lparr>tu_screen := ScMain\<rparr>"

definition quit :: "('s, 'j) app \<Rightarrow> ('s, 'j) app \<times> flow" where
  "quit a = (a\<lparr>tu_should_quit := True\<rparr>, Quit)"

text \<open>The arrows and \<open>k\<close> and \<open>j\<close> come first, so only their capitals are hotkeys.\<close>

definition key_main :: "'s store_ops \<Rightarrow> key_code \<Rightarrow> ('s, 'j) app \<Rightarrow> ('s, 'j) app \<times> flow" where
  "key_main T k a =
     (if moves k then (a\<lparr>tu_menu_index := row_moved k (length MENU) (tu_menu_index a)\<rparr>, Continue)
      else case k of
        KEnter \<Rightarrow> (goto T (snd (snd (MENU ! tu_menu_index a))) a, Continue)
      | KChar c \<Rightarrow>
          let up = to_ascii_uppercase c in
          (case find (\<lambda>(h, _, _). [h] = up) MENU of
             Some (_, _, target) \<Rightarrow> (goto T target a, Continue)
           | None \<Rightarrow> if up = ''Q'' then quit a else (a, Continue))
      | KEsc \<Rightarrow> quit a
      | _ \<Rightarrow> (a, Continue))"

definition key_palette :: "'s store_ops \<Rightarrow> key_code \<Rightarrow> ('s, 'j) app \<Rightarrow> ('s, 'j) app" where
  "key_palette T k a =
     (case k of
        KEsc \<Rightarrow> a\<lparr>tu_screen := tu_palette_return a\<rparr>
      | KEnter \<Rightarrow>
          (case nth_opt (filtered_palette_entries a) (tu_palette_index a) of
             Some (_, _, target) \<Rightarrow> goto T target a
           | None \<Rightarrow> a\<lparr>tu_screen := tu_palette_return a\<rparr>)
      | KBackspace \<Rightarrow> a\<lparr>tu_palette_query := pop_char (tu_palette_query a), tu_palette_index := 0\<rparr>
      | KUp \<Rightarrow> a\<lparr>tu_palette_index := tu_palette_index a - 1\<rparr>
      | KDown \<Rightarrow> (if Suc (tu_palette_index a) < length (filtered_palette_entries a)
          then a\<lparr>tu_palette_index := Suc (tu_palette_index a)\<rparr> else a)
      | KChar c \<Rightarrow> a\<lparr>tu_palette_query := tu_palette_query a @ c, tu_palette_index := 0\<rparr>
      | _ \<Rightarrow> a)"

definition key_appearance :: "key_code \<Rightarrow> ('s, 'j) app \<Rightarrow> ('s, 'j) app" where
  "key_appearance k a =
     (if moves k then a\<lparr>tu_appearance_index := row_moved k (length ALL_THEMES) (tu_appearance_index a)\<rparr>
      else if k = KEnter
      then let t = ALL_THEMES ! tu_appearance_index a in
        say (''Theme set to '' @ theme_label t @ ''.'') (a\<lparr>tu_theme := t\<rparr>)
      else leave_to ScMain k a)"

definition key_panel :: "key_code \<Rightarrow> ('s, 'j) app \<Rightarrow> ('s, 'j) app" where
  "key_panel k a = (if k = KEnter then a\<lparr>tu_screen := ScMain\<rparr> else leave_to ScMain k a)"

section \<open>Reading and writing\<close>

definition key_boards :: "'s store_ops \<Rightarrow> env \<Rightarrow> key_code \<Rightarrow> ('s, 'j) app \<Rightarrow> ('s, 'j) app" where
  "key_boards T E k a =
     (if moves k then a\<lparr>tu_board_index := row_moved k (length (tu_boards a)) (tu_board_index a)\<rparr>
      else if k = KEnter then open_selected_board T E a
      else leave_to ScMain k a)"

definition key_read :: "'s store_ops \<Rightarrow> env \<Rightarrow> tui_call \<Rightarrow> key_code \<Rightarrow> ('s, 'j) app \<Rightarrow> ('s, 'j) app" where
  "key_read T E K k a =
     (if moves k then a\<lparr>tu_read_index := row_moved k (length (tu_messages a)) (tu_read_index a)\<rparr>
      else if letter (CHR ''p'') k
      then a\<lparr>tu_reply_to := None, tu_edit_target := None, tu_compose_field := CfSubject,
             tu_status := ''Compose'' @ dash @ ''TAB switches field, Ctrl-S sends, ESC cancels.'',
             tu_screen := ScCompose\<rparr>
      else if letter (CHR ''r'') k then begin_reply E a
      else if letter (CHR ''e'') k then begin_edit a
      else if letter (CHR ''d'') k then told ''Delete'' (\<lambda>_. ''Message deleted.'') (delete_selected T E K a)
      else if letter (CHR ''a'') k then begin_draft E K a
      else if letter (CHR ''t'') k then toggle_thread a
      else if k = KChar ''['' then switch_board T E (- 1) a
      else if k = KChar '']'' then switch_board T E 1 a
      else leave_to ScBoards k a)"

text \<open>Typing goes to the focused field.\<close>

definition compose_typed :: "key_code \<Rightarrow> ('s, 'j) app \<Rightarrow> ('s, 'j) app" where
  "compose_typed k a =
     (case tu_compose_field a of
        CfSubject \<Rightarrow> a\<lparr>tu_compose_subject := typed k (tu_compose_subject a)\<rparr>
      | CfBody \<Rightarrow> a\<lparr>tu_compose_body := typed k (tu_compose_body a)\<rparr>)"

definition key_compose :: "'s store_ops \<Rightarrow> env \<Rightarrow> tui_call \<Rightarrow> key_event \<Rightarrow> ('s, 'j) app \<Rightarrow> ('s, 'j) app" where
  "key_compose T E K e a =
     (if ctrl ''s'' e then submit_compose T E K a
      else case ke_code e of
        KEsc \<Rightarrow> a\<lparr>tu_reply_to := None, tu_edit_target := None, tu_status := ''Compose cancelled.'',
          tu_screen := ScRead\<rparr>
      | KTab \<Rightarrow> a\<lparr>tu_compose_field := (case tu_compose_field a of CfSubject \<Rightarrow> CfBody | CfBody \<Rightarrow> CfSubject)\<rparr>
      | KEnter \<Rightarrow>
          (case tu_compose_field a of
             CfSubject \<Rightarrow> a\<lparr>tu_compose_field := CfBody\<rparr>
           | CfBody \<Rightarrow> a\<lparr>tu_compose_body := tu_compose_body a @ [newline]\<rparr>)
      | k \<Rightarrow> compose_typed k a)"

definition key_drafts :: "'s store_ops \<Rightarrow> env \<Rightarrow> tui_call \<Rightarrow> key_code \<Rightarrow> ('s, 'j) app \<Rightarrow> ('s, 'j) app" where
  "key_drafts T E K k a =
     (if tu_draft_editing a
      then (case k of
          KEsc \<Rightarrow> a\<lparr>tu_draft_editing := False, tu_draft_input := []\<rparr>
        | KEnter \<Rightarrow> edit_selected_draft (tu_draft_input a) (a\<lparr>tu_draft_editing := False, tu_draft_input := []\<rparr>)
        | _ \<Rightarrow> a\<lparr>tu_draft_input := typed k (tu_draft_input a)\<rparr>)
      else if moves k
      then a\<lparr>tu_draft_index := row_moved k (length (draft_pending (tu_drafts a))) (tu_draft_index a)\<rparr>
      else if letter (CHR ''s'') k then send_selected_draft T E K a
      else if letter (CHR ''d'') k then discard_selected_draft a
      else if letter (CHR ''e'') k
      then (case selected_draft a of
          None \<Rightarrow> a
        | Some d \<Rightarrow> say (''Editing draft'' @ dash @ ''ENTER saves, ESC cancels.'')
            (a\<lparr>tu_draft_editing := True, tu_draft_input := df_body d\<rparr>))
      else leave_to ScMain k a)"

definition decision_typed :: "key_code \<Rightarrow> ('s, 'j) app \<Rightarrow> ('s, 'j) app" where
  "decision_typed k a =
     (case tu_decision_field a of
        DfTitle \<Rightarrow> a\<lparr>tu_title_input := typed k (tu_title_input a)\<rparr>
      | DfDecision \<Rightarrow> a\<lparr>tu_body_input := typed k (tu_body_input a)\<rparr>
      | DfRationale \<Rightarrow> a\<lparr>tu_rationale_input := typed k (tu_rationale_input a)\<rparr>)"

definition key_decisions :: "env \<Rightarrow> tui_call \<Rightarrow> key_event \<Rightarrow> ('s, 'j) app \<Rightarrow> ('s, 'j) app" where
  "key_decisions E K e a =
     (if tu_decision_editing a
      then if ctrl ''s'' e then submit_decision E K a
        else (case ke_code e of
            KEsc \<Rightarrow> a\<lparr>tu_decision_editing := False, tu_title_input := [], tu_body_input := [],
              tu_rationale_input := [], tu_decision_field := DfTitle, tu_status := ''Decision cancelled.''\<rparr>
          | KTab \<Rightarrow> a\<lparr>tu_decision_field := next_decision_field (tu_decision_field a)\<rparr>
          | k \<Rightarrow> decision_typed k a)
      else if letter (CHR ''n'') (ke_code e)
      then say (''Recording a decision'' @ dash @ ''TAB switches field, Ctrl-S records, ESC cancels.'')
        (a\<lparr>tu_decision_editing := True, tu_decision_field := DfTitle\<rparr>)
      else leave_to ScMain (ke_code e) a)"

definition key_digest :: "'s store_ops \<Rightarrow> env \<Rightarrow> tui_call \<Rightarrow> key_code \<Rightarrow> ('s, 'j) app \<Rightarrow> ('s, 'j) app" where
  "key_digest T E K k a =
     (if letter (CHR ''p'') k then told ''Digest post'' (\<lambda>_. ''Digest posted to #general.'') (post_digest T E K a)
      else leave_to ScMain k a)"

definition key_who :: "'s store_ops \<Rightarrow> env \<Rightarrow> tui_call \<Rightarrow> key_code \<Rightarrow> ('s, 'j) app \<Rightarrow> ('s, 'j) app" where
  "key_who T E K k a =
     (if moves k
      then a\<lparr>tu_who_index := row_moved k (length (online (tk_order K 0) (tu_presence a) (tk_ms K 1))) (tu_who_index a)\<rparr>
      else if k = KEnter \<or> letter (CHR ''m'') k
      then (case nth_opt (online (tk_order K 1) (tu_presence a) (tk_ms K 2)) (tu_who_index a) of
          Some m \<Rightarrow> if me_id m \<noteq> self a
            then say (''Opened DM with @'' @ me_handle m @ ''.'') (open_dm T E K (me_handle m) a)
            else say ''Select someone else online to DM.'' a
        | None \<Rightarrow> say ''Select someone else online to DM.'' a)
      else leave_to ScMain k a)"

definition key_dm :: "'s store_ops \<Rightarrow> env \<Rightarrow> tui_call \<Rightarrow> key_code \<Rightarrow> ('s, 'j) app \<Rightarrow> ('s, 'j) app" where
  "key_dm T E K k a =
     (if tu_dm_editing a
      then (case k of
          KEsc \<Rightarrow> a\<lparr>tu_dm_editing := False, tu_dm_input := []\<rparr>
        | KEnter \<Rightarrow>
            let peer = trim (tu_dm_input a); a = a\<lparr>tu_dm_editing := False, tu_dm_input := []\<rparr> in
            if peer = [] then say ''Handle cannot be empty.'' a
            else say (''Opened DM with @'' @ trim_start_char (CHR ''@'') peer @ ''.'') (open_dm T E K peer a)
        | _ \<Rightarrow> a\<lparr>tu_dm_input := typed k (tu_dm_input a)\<rparr>)
      else if moves k then a\<lparr>tu_dm_index := row_moved k (length (dm_peers a)) (tu_dm_index a)\<rparr>
      else if k = KEnter
      then (case nth_opt (dm_peers a) (tu_dm_index a) of
          None \<Rightarrow> a
        | Some peer \<Rightarrow> say (''Opened DM with @'' @ peer @ ''.'') (open_dm T E K peer a))
      else if letter (CHR ''n'') k
      then say (''New DM'' @ dash @ ''type a handle, ENTER to open, ESC to cancel.'')
        (a\<lparr>tu_dm_editing := True, tu_dm_input := []\<rparr>)
      else leave_to ScMain k a)"

section \<open>The other panels\<close>

definition key_arena :: "key_code \<Rightarrow> ('s, 'j) app \<Rightarrow> ('s, 'j) app" where
  "key_arena k a =
     (if moves k
      then a\<lparr>tu_arena_index := row_moved k (length (benchmarks (\<lambda>bs. bs) (tu_arena a))) (tu_arena_index a)\<rparr>
      else leave_to ScMain k a)"

definition key_pods :: "env \<Rightarrow> tui_call \<Rightarrow> key_code \<Rightarrow> ('s, 'j) app \<Rightarrow> ('s, 'j) app" where
  "key_pods E K k a =
     (if moves k then a\<lparr>tu_pod_index := row_moved k (length (tu_pods a)) (tu_pod_index a)\<rparr>
      else if letter (CHR ''n'') k
      then told ''Spawn'' (\<lambda>p. ''Spawned '' @ td_id p @ '' in #'' @ pt_registered_room (sp_template (td_spec p)))
        (hire E K ''demo'' ''ops'' a)
      else leave_to ScMain k a)"

definition decide_selected :: "env \<Rightarrow> tui_call \<Rightarrow> verdict \<Rightarrow> string \<Rightarrow> string \<Rightarrow> ('s, 'j) app \<Rightarrow> ('s, 'j) app" where
  "decide_selected E K v reason ok a =
     (case nth_opt (tu_proposals a) (tu_approval_index a) of
        None \<Rightarrow> a
      | Some p \<Rightarrow> told ''Decision'' (\<lambda>_. ok) (decide_action E K (ap_action_id p) v reason a))"

definition key_approvals :: "env \<Rightarrow> tui_call \<Rightarrow> key_code \<Rightarrow> ('s, 'j) app \<Rightarrow> ('s, 'j) app" where
  "key_approvals E K k a =
     (if moves k then a\<lparr>tu_approval_index := row_moved k (length (tu_proposals a)) (tu_approval_index a)\<rparr>
      else if letter (CHR ''n'') k
      then (let (a, p) = propose_action E K ''spend'' ''buy 1 GPU-hr for a pod run'' ''general'' a
            in say (''Proposed '' @ ap_kind p @ '' ('' @ take 8 (ap_action_id p) @ '')'') a)
      else if letter (CHR ''y'') k then decide_selected E K Approve ''looks fine'' ''Approved.'' a
      else if letter (CHR ''r'') k then decide_selected E K Reject ''vetoed'' ''Rejected.'' a
      else leave_to ScMain k a)"

definition key_budget :: "key_code \<Rightarrow> ('s, 'j) app \<Rightarrow> ('s, 'j) app" where
  "key_budget k a =
     (if moves k then a\<lparr>tu_pod_index := row_moved k (length (tu_pods a)) (tu_pod_index a)\<rparr>
      else if k = KChar ''+'' then say ''Raised cap by $0.10.'' (topup_selected_pod TOPUP_STEP a)
      else leave_to ScMain k a)"

definition directory_cursor :: "env \<Rightarrow> key_code \<Rightarrow> ('s, 'j) app \<Rightarrow> ('s, 'j) app" where
  "directory_cursor E k a =
     a\<lparr>tu_directory_index := row_moved k (length (rep_ranking E (tu_reputation a))) (tu_directory_index a)\<rparr>"

definition key_directory :: "env \<Rightarrow> tui_call \<Rightarrow> key_code \<Rightarrow> ('s, 'j) app \<Rightarrow> ('s, 'j) app" where
  "key_directory E K k a =
     (if tu_claim_editing a
      then (case k of
          KEsc \<Rightarrow> a\<lparr>tu_claim_editing := False, tu_claim_input := []\<rparr>
        | KEnter \<Rightarrow>
            let claim = trim (tu_claim_input a); a = a\<lparr>tu_claim_editing := False, tu_claim_input := []\<rparr> in
            if claim = [] then say ''Claim cannot be empty.'' a
            else told ''Issue'' (\<lambda>c. ''Issued '' @ cr_claim c @ '' to the highlighted agent.'') (issue_credential E K claim a)
        | _ \<Rightarrow> a\<lparr>tu_claim_input := typed k (tu_claim_input a)\<rparr>)
      else if moves k then directory_cursor E k a
      else if letter (CHR ''n'') k
      then told ''Hire'' (\<lambda>p. ''Hired'' @ dash @ ''spawned '' @ td_id p @ '' in #'' @
             pt_registered_room (sp_template (td_spec p))) (hire_selected E K a)
      else if letter (CHR ''i'') k
      then say (''Claim (e.g. skill:rust)'' @ dash @ ''ENTER issues, ESC cancels.'')
        (a\<lparr>tu_claim_editing := True, tu_claim_input := []\<rparr>)
      else leave_to ScMain k a)"

definition key_playbooks :: "'s store_ops \<Rightarrow> env \<Rightarrow> tui_call \<Rightarrow> key_code \<Rightarrow> ('s, 'j) app \<Rightarrow> ('s, 'j) app" where
  "key_playbooks T E K k a =
     (if letter (CHR ''r'') k then if tu_run a = None then tui_run_playbook T E K a else advance_run T E K a
      else if letter (CHR ''y'') k then approve_current_gate T E K ''looks fine'' a
      else leave_to ScMain k a)"

definition key_passport :: "env \<Rightarrow> tui_call \<Rightarrow> key_code \<Rightarrow> ('s, 'j) app \<Rightarrow> ('s, 'j) app" where
  "key_passport E K k a =
     (if letter (CHR ''r'') k
      then told ''Rotation'' (\<lambda>_. ''Identity rotated'' @ dash @ ''continuity preserved.'') (rotate_identity E K a)
      else if letter (CHR ''c'') k
      then let a = toggle_creator_mode a in
        say (if caps_contains (se_caps (tu_session a)) SYSOP
          then ''Creator mode enabled'' @ dash @ ''Sysop actions unlocked.'' else ''Creator mode disabled.'') a
      else leave_to ScMain k a)"

definition key_market :: "key_code \<Rightarrow> ('s, 'j) app \<Rightarrow> ('s, 'j) app" where
  "key_market k a =
     (if moves k then a\<lparr>tu_market_index := row_moved k (length (market_all (tu_market a))) (tu_market_index a)\<rparr>
      else if letter (CHR ''n'') k
      then (case nth_opt (market_all (tu_market a)) (tu_market_index a) of
          None \<Rightarrow> a
        | Some l \<Rightarrow>
            let sku = ls_sku (li_body l); p = install_listing sku a in
            told ''Install'' (\<lambda>_. ''Installed '' @ sku @ dash @ dec_int (sint (tu_credits (fst p))) @ '' credits left'') p)
      else leave_to ScMain k a)"

definition key_sysop :: "env \<Rightarrow> tui_call \<Rightarrow> key_code \<Rightarrow> ('s, 'j) app \<Rightarrow> ('s, 'j) app" where
  "key_sysop E K k a =
     (if moves k then directory_cursor E k a
      else if letter (CHR ''m'') k then told ''Moderation'' (\<lambda>_. ''Target muted.'') (moderate_selected E K Mute a)
      else if letter (CHR ''n'') k then told ''Moderation'' (\<lambda>_. ''Target banned.'') (moderate_selected E K Ban a)
      else if letter (CHR ''l'') k then told ''Moderation'' (\<lambda>_. ''Sanction lifted.'') (moderate_selected E K Lift a)
      else leave_to ScMain k a)"

definition key_federation :: "tui_call \<Rightarrow> key_code \<Rightarrow> ('s, 'j) app \<Rightarrow> ('s, 'j) app" where
  "key_federation K k a =
     (if tu_fed_editing a
      then (case k of
          KEsc \<Rightarrow> a\<lparr>tu_fed_editing := False, tu_fed_input := []\<rparr>
        | KEnter \<Rightarrow>
            let addr = trim (tu_fed_input a); a = a\<lparr>tu_fed_editing := False, tu_fed_input := []\<rparr> in
            if addr = [] then say ''Peer address cannot be empty.'' a else federation_join K addr a
        | _ \<Rightarrow> a\<lparr>tu_fed_input := typed k (tu_fed_input a)\<rparr>)
      else if letter (CHR ''j'') k
      then say (''Peer address'' @ dash @ ''ENTER to join, ESC to cancel.'') (a\<lparr>tu_fed_editing := True, tu_fed_input := []\<rparr>)
      else if letter (CHR ''r'') k then federation_refresh_status K a
      else leave_to ScMain k a)"

definition key_collab :: "tui_call \<Rightarrow> key_code \<Rightarrow> ('s, 'j) app \<Rightarrow> ('s, 'j) app" where
  "key_collab K k a =
     (if tu_repo_editing a
      then (case k of
          KEsc \<Rightarrow> a\<lparr>tu_repo_editing := False, tu_repo_input := []\<rparr>
        | KEnter \<Rightarrow>
            let repo = trim (tu_repo_input a) in
            say (if repo = [] then ''Repo cleared.'' else ''Repo set to '' @ repo @ dash @ ''press R to fetch.'')
              (a\<lparr>tu_repo := repo, tu_repo_editing := False, tu_repo_input := []\<rparr>)
        | _ \<Rightarrow> a\<lparr>tu_repo_input := typed k (tu_repo_input a)\<rparr>)
      else if k = KChar ''1'' then a\<lparr>tu_collab_view := CvStatus\<rparr>
      else if k = KChar ''2'' then a\<lparr>tu_collab_view := CvDiff\<rparr>
      else if k = KChar ''3'' then a\<lparr>tu_collab_view := CvLog\<rparr>
      else if k = KChar ''4'' then a\<lparr>tu_collab_view := CvIssues\<rparr>
      else if k = KChar ''5'' then a\<lparr>tu_collab_view := CvPrs\<rparr>
      else if letter (CHR ''e'') k
      then say (''owner/repo'' @ dash @ ''ENTER to set, ESC to cancel.'')
        (a\<lparr>tu_repo_editing := True, tu_repo_input := tu_repo a\<rparr>)
      else if letter (CHR ''r'') k then collab_refresh K a
      else leave_to ScMain k a)"

section \<open>A key\<close>

definition open_palette :: "('s, 'j) app \<Rightarrow> ('s, 'j) app" where
  "open_palette a = a\<lparr>tu_palette_return := tu_screen a, tu_palette_query := [], tu_palette_index := 0,
     tu_screen := ScPalette,
     tu_status := ''Command palette'' @ dash @ ''type to filter, Enter to jump, Esc to cancel.''\<rparr>"

definition key_screen :: "'s store_ops \<Rightarrow> env \<Rightarrow> tui_call \<Rightarrow> key_event \<Rightarrow> ('s, 'j) app \<Rightarrow> ('s, 'j) app \<times> flow" where
  "key_screen T E K e a =
     (let k = ke_code e; go = (\<lambda>a. (a, Continue)) in
      case tu_screen a of
        ScSplash \<Rightarrow> go (key_splash a)
      | ScMain \<Rightarrow> key_main T k a
      | ScBoards \<Rightarrow> go (key_boards T E k a)
      | ScRead \<Rightarrow> go (key_read T E K k a)
      | ScCompose \<Rightarrow> go (key_compose T E K e a)
      | ScArena \<Rightarrow> go (key_arena k a)
      | ScPods \<Rightarrow> go (key_pods E K k a)
      | ScApprovals \<Rightarrow> go (key_approvals E K k a)
      | ScBudget \<Rightarrow> go (key_budget k a)
      | ScDirectory \<Rightarrow> go (key_directory E K k a)
      | ScPlaybooks \<Rightarrow> go (key_playbooks T E K k a)
      | ScDigest \<Rightarrow> go (key_digest T E K k a)
      | ScDm \<Rightarrow> go (key_dm T E K k a)
      | ScPassport \<Rightarrow> go (key_passport E K k a)
      | ScMarket \<Rightarrow> go (key_market k a)
      | ScSysop \<Rightarrow> go (key_sysop E K k a)
      | ScPalette \<Rightarrow> go (key_palette T k a)
      | ScAppearance \<Rightarrow> go (key_appearance k a)
      | ScFederation \<Rightarrow> go (key_federation K k a)
      | ScCollab \<Rightarrow> go (key_collab K k a)
      | ScDrafts \<Rightarrow> go (key_drafts T E K k a)
      | ScDecisions \<Rightarrow> go (key_decisions E K e a)
      | ScWho \<Rightarrow> go (key_who T E K k a)
      | ScDoors \<Rightarrow> go (key_panel k a)
      | ScConsole \<Rightarrow> go (key_panel k a)
      | ScGoodbye \<Rightarrow> quit a)"

definition on_key :: "'s store_ops \<Rightarrow> env \<Rightarrow> ('s, 'j) app \<Rightarrow> tui_call \<times> key_event \<Rightarrow> ('s, 'j) app \<times> flow" where
  "on_key T E a Ke =
     (let (K, e) = Ke; a = tui_heartbeat K a in
      if ctrl ''c'' e then quit a
      else if ctrl ''k'' e \<and> tu_screen a \<noteq> ScPalette \<and> tu_screen a \<noteq> ScGoodbye then (open_palette a, Continue)
      else key_screen T E K e a)"

end
