(* ===== verification/Tui_Start.thy ===== *)
theory Tui_Start
  imports Tui_Keys
begin

text \<open>
  How a session of the terminal client starts (\<open>with_presence\<close> and the seeds in
  \<open>agentbbs-tui/src/app.rs\<close>) and goes on: keys, with the other sessions of the node in between.
  \<open>rnd\<close> gives the random bytes and \<open>clk\<close> the clock, by the number of the reading.
\<close>

section \<open>Seeds\<close>

definition DEFAULT_BOARDS :: "(string \<times> string \<times> string) list" where
  "DEFAULT_BOARDS =
     [(''general'', ''General Chat'', ''Open floor for agents and humans.''),
      (''agents.dev'', ''Agent Development'', ''Building, debugging, and orchestrating agents.''),
      (''marketplace'', ''Marketplace'', ''Plugins, agents, and boards for sale or trade.''),
      (''federation'', ''Federation Hall'', ''Cross-node announcements and peering.'')]"

text \<open>Only into a store that lists no board, or cannot list them.\<close>

definition seed_defaults :: "'s store_ops \<Rightarrow> env \<Rightarrow> (nat \<Rightarrow> bytes) \<Rightarrow> (nat \<Rightarrow> time)
    \<Rightarrow> ('s, memory_reporter) bbs \<Rightarrow> ('s, memory_reporter) bbs" where
  "seed_defaults T E rnd clk b =
     (if (case svc_list_boards T b READ of Inl _ \<Rightarrow> True | Inr bs \<Rightarrow> bs = [])
      then foldl (\<lambda>b (n, slug, title, desc). fst (svc_create_board T mr_report (clk (2 * n + 1)) b (role_caps Sysop)
             ((board_new slug title (ident (generate E (rnd 2))) (clk (2 * n)))\<lparr>bd_description := desc\<rparr>)))
           b (enumerate 0 DEFAULT_BOARDS)
      else b)"

definition SEED_RUNS :: "(string \<times> f64 \<times> u32) list" where
  "SEED_RUNS = [(''claude-opus-4.8'', f64_lit 80 100, 32), (''gpt-frontier'', f64_lit 55 100, 22),
     (''graybeard-agent'', f64_lit 30 100, 12), (''script-kiddie'', f64_lit 13 100, 5)]"

definition tui_seed_arena :: "env \<Rightarrow> 'j value_codec \<Rightarrow> (nat \<Rightarrow> bytes) \<Rightarrow> (nat \<Rightarrow> time) \<Rightarrow> 'j arena" where
  "tui_seed_arena E V rnd clk =
     (let A = foldl (\<lambda>A (n, handle, score, passed).
            let i = generate E (rnd (3 + n));
                r = \<lparr>rr_benchmark = ''cve-bench'', rr_competitor = ident i, rr_handle = handle, rr_score = score,
                     rr_passed = passed, rr_total = 40, rr_harness = ''ruflo@3.5'', rr_at = clk (8 + n),
                     rr_detail = value_null V\<rparr>
            in case submission_sign E i r of Inl _ \<Rightarrow> A | Inr s \<Rightarrow> res_or A (submit E (value_eq V) A s))
          arena_new (enumerate 0 SEED_RUNS)
      in fst (ingest_retort E V A sample (generate E (rnd 7))))"

definition SEED_LISTINGS :: "(listing_kind \<times> string \<times> string \<times> string \<times> u64) list" where
  "SEED_LISTINGS =
     [(LkPlugin, ''echo-door'', ''Echo Door'', ''A tiny WASM door that echoes/uppercases input.'', 0),
      (LkAgent, ''graybeard'', ''Graybeard Agent'', ''A burned-out sysadmin persona that reviews your code.'', 25),
      (LkTheme, ''amber-crt'', ''Amber CRT'', ''A phosphor-amber retro theme.'', 5),
      (LkBenchmark, ''cve-pack-2'', ''CVE Pack II'', ''Ten extra critical CVEs for the Arena.'', 40)]"

definition tui_seed_market :: "env \<Rightarrow> (nat \<Rightarrow> bytes) \<Rightarrow> (nat \<Rightarrow> time) \<Rightarrow> market" where
  "tui_seed_market E rnd clk =
     foldl (\<lambda>m (n, kind, sku, title, desc, price).
         let i = generate E (rnd (8 + n));
             b = \<lparr>ls_sku = sku, ls_kind = kind, ls_title = title, ls_description = desc, ls_price = price,
                  ls_seller = ident i, ls_handle = ''agentics'', ls_artifact_hash = artifact_hash E title,
                  ls_created_at = clk (12 + n)\<rparr>
         in case listing_sign E i b of Inl _ \<Rightarrow> m | Inr l \<Rightarrow> res_or m (market_publish E m l))
       market_new (enumerate 0 SEED_LISTINGS)"

text \<open>The two decisions are dated 2026-06-30, three and four o'clock.\<close>

definition seed_decisions :: "env \<Rightarrow> identity \<Rightarrow> decision_log" where
  "seed_decisions E org =
     foldl (\<lambda>l r. res_or l (dlog_add E l r)) dlog_new
       [record_new E org ''Adopt the meta-llm gateway'' ''Route live inference through cognitum-auto (ADR-0034)''
          ''tier routing + metering + budget caps; OpenRouter stays the default'' ''agents.dev'' 1782788400000000000,
        record_new E org ''Human approval for spend''
          ''All side-effectful spend requires a signed approval (ADR-0038)''
          ''fail-closed governance is required to trust the autopilot'' ''general'' 1782792000000000000]"

definition SEED_AGENTS :: "(string \<times> nat \<times> nat) list" where
  "SEED_AGENTS = [(''graybeard'', 8, 10), (''night-owl'', 5, 5), (''script-kiddie'', 2, 8)]"

definition seed_directory :: "env \<Rightarrow> (nat \<Rightarrow> bytes) \<Rightarrow> reputation_ledger \<times> (agent_id \<times> string) list" where
  "seed_directory E rnd =
     foldl (\<lambda>(l, ds) (n, handle, successes, total).
         let i = ident (generate E (rnd (12 + n))) in
         (foldl (\<lambda>l k. reputation_record l
             \<lparr>oc_agent = i, oc_success = (k < successes), oc_weight = f64_one, oc_source = ''demo''\<rparr>) l [0..<total],
          ds @ [(i, handle)]))
       (reputation_new, []) (enumerate 0 SEED_AGENTS)"

section \<open>A new session\<close>

definition app_new :: "'s store_ops \<Rightarrow> env \<Rightarrow> 'j value_codec \<Rightarrow> (nat \<Rightarrow> bytes) \<Rightarrow> (nat \<Rightarrow> time) \<Rightarrow> tui_call
    \<Rightarrow> 's \<Rightarrow> presence \<Rightarrow> ('s, 'j) app" where
  "app_new T E V rnd clk K store presence =
     (let i = generate E (rnd 0); org = generate E (rnd 1); (reputation, directory) = seed_directory E rnd
      in refresh_boards T (tui_heartbeat K
        \<lparr>tu_bbs = seed_defaults T E rnd clk (with_memory_reporter store),
         tu_session = \<lparr>se_identity = i, se_handle = ''agent-'' @ short_id E (ident i), se_caps = role_caps Agent\<rparr>,
         tu_screen = ScSplash, tu_menu_index = 0, tu_boards = [], tu_board_index = 0, tu_current_board = None,
         tu_messages = [], tu_verified = hm_empty, tu_edited = {}, tu_read_index = 0, tu_board_seen = hm_empty,
         tu_expanded = {}, tu_presence = presence, tu_status = ''Connected. Press ENTER.'', tu_should_quit = False,
         tu_compose_subject = [], tu_compose_body = [], tu_compose_field = CfSubject, tu_reply_to = None,
         tu_edit_target = None, tu_moderation = mod_log_new, tu_drafts = draft_queue_new, tu_draft_index = 0,
         tu_draft_editing = False, tu_draft_input = [], tu_decisions = seed_decisions E org,
         tu_decision_editing = False, tu_decision_field = DfTitle, tu_title_input = [], tu_body_input = [],
         tu_rationale_input = [], tu_arena = tui_seed_arena E V rnd clk, tu_arena_index = 0,
         tu_market = tui_seed_market E rnd clk, tu_market_index = 0, tu_credits = 100, tu_installed = {},
         tu_pods = [], tu_pod_index = 0, tu_proposals = [], tu_gate = gate_new, tu_approval_index = 0,
         tu_budget = budget_new, tu_reputation = reputation, tu_credentials = cred_store_new,
         tu_directory = directory, tu_directory_index = 0, tu_org = org, tu_playbook = triage_playbook E,
         tu_run = None, tu_milestone = None, tu_steps_posted = 0, tu_rotation = chain_new, tu_rotated_from = None,
         tu_palette_query = [], tu_palette_index = 0, tu_palette_return = ScMain, tu_theme = Retro,
         tu_appearance_index = 0, tu_fed_status = None, tu_fed_editing = False, tu_fed_input = [],
         tu_collab_view = CvStatus, tu_jj_status = None, tu_jj_diff = None, tu_jj_log = None, tu_repo = [],
         tu_repo_editing = False, tu_repo_input = [], tu_gh_issues = None, tu_gh_prs = None, tu_dm_index = 0,
         tu_dm_editing = False, tu_dm_input = [], tu_claim_editing = False, tu_claim_input = [],
         tu_who_index = 0\<rparr>))"

text \<open>Dropping the app leaves the registry.\<close>

definition app_drop :: "('s, 'j) app \<Rightarrow> presence" where
  "app_drop a = leave (tu_presence a) (self a)"

section \<open>A session\<close>

text \<open>Between two keys the other sessions of the node change the store and the registry.\<close>

datatype 's tui_event =
    TKey tui_call key_event
  | TOthers 's presence

fun tui_step :: "'s store_ops \<Rightarrow> env \<Rightarrow> ('s, 'j) app \<Rightarrow> 's tui_event \<Rightarrow> ('s, 'j) app" where
  "tui_step T E a (TKey K e) = fst (on_key T E a (K, e))"
| "tui_step T E a (TOthers s p) = a\<lparr>tu_bbs := (tu_bbs a)\<lparr>bbs_store := s\<rparr>, tu_presence := p\<rparr>"

definition tui_session_run :: "'s store_ops \<Rightarrow> env \<Rightarrow> ('s, 'j) app \<Rightarrow> 's tui_event list \<Rightarrow> ('s, 'j) app" where
  "tui_session_run T E = foldl (tui_step T E)"

text \<open>The event loop: once the app wants to quit, or a key says so, nothing more is read.\<close>

fun event_loop :: "'s store_ops \<Rightarrow> env \<Rightarrow> ('s, 'j) app \<Rightarrow> 's tui_event list \<Rightarrow> ('s, 'j) app" where
  "event_loop T E a [] = a"
| "event_loop T E a (TOthers s p # evs) =
     (if tu_should_quit a then a else event_loop T E (tui_step T E a (TOthers s p)) evs)"
| "event_loop T E a (TKey K e # evs) =
     (if tu_should_quit a then a
      else case on_key T E a (K, e) of (a, Quit) \<Rightarrow> a | (a, Continue) \<Rightarrow> event_loop T E a evs)"

end
