(* ===== verification/Tui_Frame.thy ===== *)
theory Tui_Frame
  imports Tui_Start
begin

text \<open>
  What the operations of the terminal client leave alone: the service, the session, and the logs of
  signed records. The lemmas are simplification rules, so the properties only treat the few
  operations that change one of them.
\<close>

section \<open>The core of a session\<close>

text \<open>Identity and capabilities, moderation, decisions on actions, credentials, decision records, org.\<close>

definition core :: "('s, 'j) app
    \<Rightarrow> tui_session \<times> moderation_log \<times> approval_gate \<times> credential_store \<times> decision_log \<times> identity" where
  "core a = (tu_session a, tu_moderation a, tu_gate a, tu_credentials a, tu_decisions a, tu_org a)"

text \<open>And the rest that an operation may depend on: two rows, credits, market and run.\<close>

definition rest :: "('s, 'j) app \<Rightarrow> nat \<times> nat \<times> u64 \<times> market \<times> playbook_run option" where
  "rest a = (tu_menu_index a, tu_appearance_index a, tu_credits a, tu_market a, tu_run a)"

lemma core_fields:
  assumes "core a' = core a"
  shows "tu_session a' = tu_session a" "tu_moderation a' = tu_moderation a" "tu_gate a' = tu_gate a"
    "tu_credentials a' = tu_credentials a" "tu_decisions a' = tu_decisions a" "tu_org a' = tu_org a"
  using assms by (simp_all add: core_def)

lemma say_frame [simp]:
  "core (say s a) = core a" "rest (say s a) = rest a" "tu_screen (say s a) = tu_screen a"
  "tu_bbs (say s a) = tu_bbs a"
  by (simp_all add: say_def core_def rest_def)

lemma told_frame [simp]:
  "core (told f ok p) = core (fst p)" "rest (told f ok p) = rest (fst p)"
  "tu_screen (told f ok p) = tu_screen (fst p)" "tu_bbs (told f ok p) = tu_bbs (fst p)"
  by (simp_all add: told_def split: prod.split sum.split)

lemma leave_to_frame [simp]:
  "core (leave_to s k a) = core a" "rest (leave_to s k a) = rest a" "tu_bbs (leave_to s k a) = tu_bbs a"
  by (simp_all add: leave_to_def core_def rest_def)

lemma heartbeat_frame [simp]:
  "core (tui_heartbeat K a) = core a" "rest (tui_heartbeat K a) = rest a"
  "tu_bbs (tui_heartbeat K a) = tu_bbs a"
    "tu_screen (tui_heartbeat K a) = tu_screen a"
  by (simp_all add: tui_heartbeat_def core_def rest_def)

section \<open>Boards\<close>

lemma load_board_frame [simp]:
  "core (load_board T E slug a) = core a" "rest (load_board T E slug a) = rest a"
  "tu_screen (load_board T E slug a) = tu_screen a" "tu_bbs (load_board T E slug a) = tu_bbs a"
  by (simp_all add: load_board_def core_def rest_def Let_def split: prod.split)

lemma refresh_boards_frame [simp]:
  "core (refresh_boards T a) = core a" "rest (refresh_boards T a) = rest a"
  "tu_screen (refresh_boards T a) = tu_screen a" "tu_bbs (refresh_boards T a) = tu_bbs a"
  by (simp_all add: refresh_boards_def core_def rest_def Let_def)

lemma core_update [simp]:
  "core (a\<lparr>tu_read_index := x1\<rparr>) = core a" "rest (a\<lparr>tu_read_index := x1\<rparr>) = rest a"
  "core (a\<lparr>tu_current_board := x2\<rparr>) = core a"
  "rest (a\<lparr>tu_current_board := x2\<rparr>) = rest a"
  "core (a\<lparr>tu_screen := x3\<rparr>) = core a" "rest (a\<lparr>tu_screen := x3\<rparr>) = rest a"
  "core (a\<lparr>tu_board_index := x4\<rparr>) = core a"
  "rest (a\<lparr>tu_board_index := x4\<rparr>) = rest a"
  "core (a\<lparr>tu_expanded := x5\<rparr>) = core a" "rest (a\<lparr>tu_expanded := x5\<rparr>) = rest a"
  "core (a\<lparr>tu_status := x6\<rparr>) = core a" "rest (a\<lparr>tu_status := x6\<rparr>) = rest a"
  "core (a\<lparr>tu_bbs := x7\<rparr>) = core a" "rest (a\<lparr>tu_bbs := x7\<rparr>) = rest a"
  "core (a\<lparr>tu_drafts := x8\<rparr>) = core a" "rest (a\<lparr>tu_drafts := x8\<rparr>) = rest a"
  "core (a\<lparr>tu_draft_index := x9\<rparr>) = core a"
  "rest (a\<lparr>tu_draft_index := x9\<rparr>) = rest a"
  by (simp_all add: core_def rest_def)

lemma open_selected_frame [simp]:
  "core (open_selected_board T E a) = core a" "rest (open_selected_board T E a) = rest a"
  "tu_bbs (open_selected_board T E a) = tu_bbs a"
  by (simp_all add: open_selected_board_def Let_def split: option.split)

lemma refresh_current_frame [simp]:
  "core (refresh_current_board T E slug a) = core a" "rest (refresh_current_board T E slug a) = rest a"
  "tu_screen (refresh_current_board T E slug a) = tu_screen a"
  "tu_bbs (refresh_current_board T E slug a) = tu_bbs a"
  by (simp_all add: refresh_current_board_def Let_def)

lemma switch_board_frame [simp]:
  "core (switch_board T E d a) = core a" "rest (switch_board T E d a) = rest a"
  "tu_bbs (switch_board T E d a) = tu_bbs a"
  by (simp_all add: switch_board_def)

lemma toggle_thread_frame [simp]:
  "core (toggle_thread a) = core a" "rest (toggle_thread a) = rest a"
  "tu_screen (toggle_thread a) = tu_screen a" "tu_bbs (toggle_thread a) = tu_bbs a"
  by (simp_all add: toggle_thread_def split: option.split)

lemma begin_frame [simp]:
  "core (begin_reply E a) = core a" "rest (begin_reply E a) = rest a" "tu_bbs (begin_reply E a) = tu_bbs a"
  "core (begin_edit a) = core a" "rest (begin_edit a) = rest a" "tu_bbs (begin_edit a) = tu_bbs a"
  by (simp_all add: begin_reply_def begin_edit_def core_def rest_def Let_def say_def split: option.split)

lemma drafts_frame [simp]:
  "core (begin_draft E K a) = core a" "rest (begin_draft E K a) = rest a"
  "tu_screen (begin_draft E K a) = tu_screen a" "tu_bbs (begin_draft E K a) = tu_bbs a"
  "core (clamp_draft_index a) = core a" "rest (clamp_draft_index a) = rest a"
  "tu_screen (clamp_draft_index a) = tu_screen a" "tu_bbs (clamp_draft_index a) = tu_bbs a"
  "core (discard_selected_draft a) = core a" "rest (discard_selected_draft a) = rest a"
  "tu_screen (discard_selected_draft a) = tu_screen a" "tu_bbs (discard_selected_draft a) = tu_bbs a"
  "core (edit_selected_draft body a) = core a" "rest (edit_selected_draft body a) = rest a"
  "tu_screen (edit_selected_draft body a) = tu_screen a" "tu_bbs (edit_selected_draft body a) = tu_bbs a"
  by (simp_all add: begin_draft_def clamp_draft_index_def discard_selected_draft_def edit_selected_draft_def Let_def
      split: option.split sum.split)

section \<open>Panels\<close>

lemma spawn_pod_frame [simp]:
  "core (fst (spawn_pod K spec a)) = core a" "rest (fst (spawn_pod K spec a)) = rest a"
  "tu_screen (fst (spawn_pod K spec a)) = tu_screen a" "tu_bbs (fst (spawn_pod K spec a)) = tu_bbs a"
  by (simp_all add: spawn_pod_def core_def rest_def Let_def split: option.split sum.split)

lemma hire_frame [simp]:
  "core (fst (hire E K h d a)) = core a" "rest (fst (hire E K h d a)) = rest a"
  "tu_screen (fst (hire E K h d a)) = tu_screen a" "tu_bbs (fst (hire E K h d a)) = tu_bbs a"
  "core (fst (hire_selected E K a)) = core a" "rest (fst (hire_selected E K a)) = rest a"
  "tu_screen (fst (hire_selected E K a)) = tu_screen a" "tu_bbs (fst (hire_selected E K a)) = tu_bbs a"
  by (simp_all add: hire_def hire_selected_def Let_def split: sum.split)

lemma topup_frame [simp]:
  "core (topup_selected_pod x a) = core a" "rest (topup_selected_pod x a) = rest a"
  "tu_screen (topup_selected_pod x a) = tu_screen a" "tu_bbs (topup_selected_pod x a) = tu_bbs a"
  by (simp_all add: topup_selected_pod_def core_def rest_def split: option.split)

lemma propose_frame [simp]:
  "core (fst (propose_action E K k s b a)) = core a" "rest (fst (propose_action E K k s b a)) = rest a"
  "tu_screen (fst (propose_action E K k s b a)) = tu_screen a"
  "tu_bbs (fst (propose_action E K k s b a)) = tu_bbs a"
  by (simp_all add: propose_action_def core_def rest_def Let_def)

lemma install_frame [simp]:
  "core (fst (install_listing sku a)) = core a" "tu_screen (fst (install_listing sku a)) = tu_screen a"
  "tu_bbs (fst (install_listing sku a)) = tu_bbs a"
  by (simp_all add: install_listing_def core_def rest_def Let_def split: option.split)

lemma programs_frame [simp]:
  "core (federation_refresh_status K a) = core a" "rest (federation_refresh_status K a) = rest a"
  "tu_screen (federation_refresh_status K a) = tu_screen a" "tu_bbs (federation_refresh_status K a) = tu_bbs a"
  "core (federation_join K addr a) = core a" "rest (federation_join K addr a) = rest a"
  "tu_screen (federation_join K addr a) = tu_screen a" "tu_bbs (federation_join K addr a) = tu_bbs a"
  "core (collab_refresh K a) = core a" "rest (collab_refresh K a) = rest a"
  "tu_screen (collab_refresh K a) = tu_screen a" "tu_bbs (collab_refresh K a) = tu_bbs a"
  by (simp_all add: federation_refresh_status_def federation_join_def collab_refresh_def set_collab_def core_def rest_def Let_def
      split: collab_view.split)

section \<open>Keys\<close>

lemma goto_frame [simp]: "core (goto T s a) = core a" "tu_bbs (goto T s a) = tu_bbs a"
  by (simp_all add: goto_def split: screen.split) (simp_all add: core_def rest_def)

lemma small_keys_frame [simp]:
  "core (key_splash a) = core a" "rest (key_splash a) = rest a" "tu_bbs (key_splash a) = tu_bbs a"
  "core (fst (quit a)) = core a" "rest (fst (quit a)) = rest a" "tu_bbs (fst (quit a)) = tu_bbs a"
  "core (open_palette a) = core a" "rest (open_palette a) = rest a" "tu_bbs (open_palette a) = tu_bbs a"
  "core (compose_typed k a) = core a" "rest (compose_typed k a) = rest a" "tu_bbs (compose_typed k a) = tu_bbs a"
  "core (decision_typed k a) = core a" "rest (decision_typed k a) = rest a"
  "tu_bbs (decision_typed k a) = tu_bbs a"
  "core (directory_cursor E k a) = core a" "rest (directory_cursor E k a) = rest a"
  "tu_bbs (directory_cursor E k a) = tu_bbs a"
  by (simp_all add: key_splash_def quit_def open_palette_def compose_typed_def decision_typed_def directory_cursor_def
      split: compose_field.split decision_field.split) (simp_all add: core_def rest_def)

lemma key_main_frame [simp]: "core (fst (key_main T k a)) = core a" "tu_bbs (fst (key_main T k a)) = tu_bbs a"
  by (simp_all add: key_main_def Let_def split: key_code.split option.split prod.split) (simp_all add: core_def rest_def)

lemma key_palette_frame [simp]: "core (key_palette T k a) = core a" "tu_bbs (key_palette T k a) = tu_bbs a"
  by (simp_all add: key_palette_def split: key_code.split option.split prod.split) (simp_all add: core_def rest_def)

lemma plain_keys_frame [simp]:
  "core (key_appearance k a) = core a" "tu_bbs (key_appearance k a) = tu_bbs a"
  "core (key_panel k a) = core a" "rest (key_panel k a) = rest a" "tu_bbs (key_panel k a) = tu_bbs a"
  "core (key_boards T E k a) = core a" "rest (key_boards T E k a) = rest a"
  "tu_bbs (key_boards T E k a) = tu_bbs a"
  "core (key_arena k a) = core a" "rest (key_arena k a) = rest a" "tu_bbs (key_arena k a) = tu_bbs a"
  "core (key_pods E K k a) = core a" "rest (key_pods E K k a) = rest a" "tu_bbs (key_pods E K k a) = tu_bbs a"
  "core (key_budget k a) = core a" "rest (key_budget k a) = rest a" "tu_bbs (key_budget k a) = tu_bbs a"
  by (simp_all add: key_appearance_def key_panel_def key_boards_def key_arena_def key_pods_def key_budget_def Let_def)
    (simp_all add: core_def rest_def)

lemma key_market_frame [simp]: "core (key_market k a) = core a" "tu_bbs (key_market k a) = tu_bbs a"
  by (simp_all add: key_market_def Let_def split: option.split) (simp_all add: core_def rest_def)

lemma prompt_keys_frame [simp]:
  "core (key_federation K k a) = core a" "rest (key_federation K k a) = rest a"
  "tu_bbs (key_federation K k a) = tu_bbs a"
  "core (key_collab K k a) = core a" "rest (key_collab K k a) = rest a" "tu_bbs (key_collab K k a) = tu_bbs a"
  by (simp_all add: key_federation_def key_collab_def Let_def split: key_code.split) (simp_all add: core_def rest_def)

end
