(* ===== verification/Tui_Props.thy ===== *)
theory Tui_Props
  imports Tui_Frame
begin

text \<open>
  Properties of the terminal client: what a key can write to the node, which signed records it can
  leave, and what holds throughout a session.
\<close>

section \<open>What a key writes\<close>

text \<open>
  A write a key may make: a verified message of the session's own key, from a screen that posts,
  with POST, and from the compose screen only when moderation lets the session post; a verified
  progress message of the autopilot; or a new board for a conversation.
\<close>

definition own_op :: "env \<Rightarrow> tui_call \<Rightarrow> ('s, 'j) app \<Rightarrow> store_op \<Rightarrow> bool" where
  "own_op E K a op =
     (case op of
        PutMessage m \<Rightarrow> message_verify E m = Inr () \<and>
          (mb_author (msg_body m) = self a \<and> caps_contains (se_caps (tu_session a)) POST \<and>
             tu_screen a \<in> {ScRead, ScCompose, ScDrafts, ScDigest} \<and>
             (tu_screen a = ScCompose \<longrightarrow> can_post (tu_moderation a) (self a) (tk_at K 2)) \<or>
           mb_author (msg_body m) = ident (tu_org a) \<and> mb_board (msg_body m) = PROGRESS_BOARD \<and>
             mb_handle (msg_body m) = ''autopilot'' \<and> tu_screen a = ScPlaybooks)
      | PutBoard b \<Rightarrow> prefix ''dm:'' (bd_slug b) \<and> \<not> bd_locked b \<and> tu_screen a \<in> {ScDm, ScWho}
      | _ \<Rightarrow> False)"

definition key_writes :: "'s store_ops \<Rightarrow> env \<Rightarrow> tui_call \<Rightarrow> ('s, 'j) app \<Rightarrow> 's \<Rightarrow> bool" where
  "key_writes T E K a s' \<longleftrightarrow> (\<exists>ops. writes T (bbs_store (tu_bbs a)) ops s' \<and> list_all (own_op E K a) ops \<and>
     (length ops \<le> 1 \<or> tu_screen a = ScPlaybooks))"

lemma key_writes_none [simp]: "key_writes T E K a (bbs_store (tu_bbs a))"
  unfolding key_writes_def by (intro exI[of _ "[]"]) simp

lemma key_writes_one:
  assumes "store_exec T (bbs_store (tu_bbs a)) op = (s', Done)" "own_op E K a op"
  shows "key_writes T E K a s'"
  unfolding key_writes_def using assms by (intro exI[of _ "[op]"]) simp

text \<open>Both depend on the core, the service and the screen only.\<close>

lemma own_op_core:
  assumes "core b = core a" "tu_screen b = tu_screen a"
  shows "own_op E K b = own_op E K a"
  by (intro ext) (simp add: own_op_def self_def core_fields[OF assms(1)] assms(2) split: store_op.split)

lemma key_writes_core:
  assumes "core b = core a" "tu_screen b = tu_screen a" "tu_bbs b = tu_bbs a"
  shows "key_writes T E K b s' = key_writes T E K a s'"
  by (simp add: key_writes_def own_op_core[OF assms(1,2)] assms(2,3))

lemma message_sign_body: "message_sign E i body = Inr m \<Longrightarrow> msg_body m = body"
  by (auto simp: message_sign_def split: if_splits)

text \<open>What came of a post through the service.\<close>

lemma post_store:
  assumes "s' = bbs_store (fst (svc_post T R E now b cs m))"
  obtains "s' = bbs_store b"
    | "store_exec T (bbs_store b) (PutMessage m) = (s', Done)" "message_verify E m = Inr ()" "caps_contains cs POST"
  using svc_post_effect[of T R E now b cs m] assms by (auto elim: justified_PutMessage)

lemma post_own_frame:
  "fst (post_own T E K a body) = a\<lparr>tu_bbs := tu_bbs (fst (post_own T E K a body))\<rparr>"
  by (simp add: post_own_def split: sum.split prod.split)

lemma post_own_core [simp]: "core (fst (post_own T E K a body)) = core a"
  by (subst post_own_frame) simp

lemma post_own_writes:
  assumes "mb_author body = self a" "tu_screen a \<in> {ScRead, ScCompose, ScDrafts, ScDigest}"
    and "tu_screen a = ScCompose \<Longrightarrow> can_post (tu_moderation a) (self a) (tk_at K 2)"
  shows "key_writes T E K a (bbs_store (tu_bbs (fst (post_own T E K a body))))"
proof (cases "message_sign E (se_identity (tu_session a)) body")
  case (Inr m)
  let ?s = "bbs_store (fst (svc_post T mr_report E (tk_at K 1) (tu_bbs a) (se_caps (tu_session a)) m))"
  have st: "bbs_store (tu_bbs (fst (post_own T E K a body))) = ?s"
    by (simp add: post_own_def Inr split: prod.split)
  from refl[of ?s] have "key_writes T E K a ?s"
  proof (cases rule: post_store)
    case 2
    with assms message_sign_body[OF Inr] show ?thesis
      by (intro key_writes_one[of T a "PutMessage m"]) (auto simp: own_op_def)
  qed simp
  with st show ?thesis by simp
qed (simp add: post_own_def)

lemma own_body_author [simp]: "mb_author (own_body a slug p s b h t) = self a"
  by (simp add: own_body_def)

text \<open>The operations that post: what they post is a message of the session.\<close>

lemma delete_effect:
  "core (fst (delete_selected T E K a)) = core a \<and> (tu_bbs (fst (delete_selected T E K a)) = tu_bbs a \<or>
   (\<exists>body. mb_author body = self a \<and> tu_bbs (fst (delete_selected T E K a)) = tu_bbs (fst (post_own T E K a body))))"
proof -
  consider (no) "\<nexists>m slug. nth_opt (tu_messages a) (tu_read_index a) = Some m \<and> mb_author (msg_body m) = self a \<and>
        tu_current_board a = Some slug"
    | m slug where "nth_opt (tu_messages a) (tu_read_index a) = Some m" "mb_author (msg_body m) = self a"
        "tu_current_board a = Some slug" by metis
  then show ?thesis
  proof cases
    case (2 m slug)
    let ?body = "own_body a slug None (CTL @ ''retract:'' @ mid (msg_id m)) (mid (msg_id m)) ''you'' (tk_at K 0)"
    obtain a' r where p: "post_own T E K a ?body = (a', r)" by (rule prod.exhaust)
    then have "core a' = core a" using post_own_core[of T E K a ?body] by simp
    with 2 p show ?thesis by (intro conjI disjI2 exI[of _ ?body]) (cases r; simp add: delete_selected_def)+
  next
    case no
    then have "fst (delete_selected T E K a) = a" by (auto simp: delete_selected_def split: option.splits)
    then show ?thesis by simp
  qed
qed

lemma compose_effect:
  "core (submit_compose T E K a) = core a \<and> (tu_bbs (submit_compose T E K a) = tu_bbs a \<or>
    can_post (tu_moderation a) (self a) (tk_at K 2) \<and>
   (\<exists>body. mb_author body = self a \<and> tu_bbs (submit_compose T E K a) = tu_bbs (fst (post_own T E K a body))))"
proof -
  consider (no) "\<nexists>slug. tu_current_board a = Some slug \<and> trim (tu_compose_body a) \<noteq> [] \<and>
        can_post (tu_moderation a) (self a) (tk_at K 2)"
    | slug where "tu_current_board a = Some slug" "trim (tu_compose_body a) \<noteq> []"
        "can_post (tu_moderation a) (self a) (tk_at K 2)" by metis
  then show ?thesis
  proof cases
    case (2 slug)
    let ?body = "own_body a slug (compose_parent a) (compose_subject a) (tu_compose_body a) (compose_handle a) (tk_at K 0)"
    obtain a' r where p: "post_own T E K a ?body = (a', r)" by (rule prod.exhaust)
    then have "core a' = core a" using post_own_core[of T E K a ?body] by simp
    moreover have "core (a'\<lparr>tu_compose_subject := [], tu_compose_body := [], tu_compose_field := CfSubject,
        tu_reply_to := None, tu_edit_target := None\<rparr>) = core a'" by (simp add: core_def)
    ultimately show ?thesis using 2 p
      by (intro conjI disjI2 exI[of _ ?body]) (cases r; simp add: submit_compose_def)+
  next
    case no
    then show ?thesis by (auto simp: submit_compose_def split: option.splits)
  qed
qed

lemma digest_effect:
  "core (fst (post_digest T E K a)) = core a \<and>
   (\<exists>body. mb_author body = self a \<and> tu_bbs (fst (post_digest T E K a)) = tu_bbs (fst (post_own T E K a body)))"
proof -
  obtain n k where d: "digest_stats T a = (n, k)" by (rule prod.exhaust)
  let ?body = "own_body a ''general'' None (''Daily Digest'' @ dash @ tk_date K)
    (dec n @ '' message(s) from '' @ dec k @ '' participant(s) today.'') ''digest'' (tk_at K 0)"
  obtain a' r where p: "post_own T E K a ?body = (a', r)" by (rule prod.exhaust)
  then have "core a' = core a" using post_own_core[of T E K a ?body] by simp
  with d p show ?thesis by (intro conjI exI[of _ ?body]) (cases r; simp add: post_digest_def)+
qed

lemma send_draft_effect:
  "core (send_selected_draft T E K a) = core a \<and> (tu_screen a = ScDrafts \<longrightarrow>
     key_writes T E K a (bbs_store (tu_bbs (send_selected_draft T E K a))))"
proof (cases "selected_draft a")
  case (Some d)
  obtain b r where p: "send_draft T mr_report E (tk_at K 0) (tk_at K 1) (tu_bbs a) (se_caps (tu_session a))
      (se_identity (tu_session a)) d = (b, r)" by (rule prod.exhaust)
  have st: "core (send_selected_draft T E K a) = core a" "tu_bbs (send_selected_draft T E K a) = b"
    using Some p by (cases r; simp add: send_selected_draft_def)+
  have "key_writes T E K a (bbs_store b)" if scr: "tu_screen a = ScDrafts"
  proof (cases "sc_level (scan E (df_body d)) = Malicious")
    case True
    with p have "b = tu_bbs a" by (auto simp: send_draft_def Let_def)
    then show ?thesis by simp
  next
    case False
    with p have post: "tool_post_message T mr_report E (tk_at K 0) (tk_at K 1) (tu_bbs a) (se_caps (tu_session a))
        (se_identity (tu_session a)) (df_target d) (df_subject d) (strip_agent_preamble E (df_body d)) (df_agent d) = (b, r)"
      by (simp add: send_draft_def Let_def)
    show ?thesis
    proof (cases r)
      case (Inl e)
      with post have "bbs_store b = bbs_store (tu_bbs a)" by (auto dest: tool_post_Inl_store)
      then show ?thesis by simp
    next
      case (Inr x)
      obtain m where mb: "msg_body m = \<lparr>mb_board = df_target d, mb_parent = None, mb_subject = df_subject d,
          mb_body = strip_agent_preamble E (df_body d), mb_author = ident (se_identity (tu_session a)),
          mb_handle = df_agent d, mb_created_at = tk_at K 0, mb_kind = Post\<rparr>"
        "message_verify E m = Inr ()" "caps_contains (se_caps (tu_session a)) POST"
        "op_put_message T (bbs_store (tu_bbs a)) m = Inr (bbs_store b)"
        by (rule tool_post_Inr[OF post[unfolded Inr]])
      then have "mb_author (msg_body m) = self a" by (simp add: self_def)
      with mb(2-4) scr show ?thesis by (intro key_writes_one[of T a "PutMessage m"]) (simp_all add: own_op_def)
    qed
  qed
  with st show ?thesis by simp
qed (simp add: send_selected_draft_def)

text \<open>Opening a conversation makes at most its board.\<close>

lemma create_board_store:
  "bbs_store (fst (svc_create_board T R now b cs bd)) = bbs_store b \<or>
   store_exec T (bbs_store b) (PutBoard bd) = (bbs_store (fst (svc_create_board T R now b cs bd)), Done)"
  using svc_step_effect[of T R undefined b now "SCreate cs bd"]
  by (cases "op_get_board T (bbs_store b) (bd_slug bd)"; cases "op_put_board T (bbs_store b) bd")
    (auto simp: svc_create_board_def require_cap_def)

lemma open_dm_effect:
  "core (open_dm T E K h a) = core a"
  "tu_screen a \<in> {ScDm, ScWho} \<Longrightarrow> key_writes T E K a (bbs_store (tu_bbs (open_dm T E K h a)))"
proof -
  let ?slug = "''dm:'' @ to_lower E (trim_start_char (CHR ''@'') h)"
  let ?bd = "board_new ?slug (''DM: @'' @ to_lower E (trim_start_char (CHR ''@'') h)) (ident (generate E (tk_rnd K 0))) (tk_at K 0)"
  let ?b = "fst (svc_create_board T mr_report (tk_at K 1) (tu_bbs a) (role_caps Sysop) ?bd)"
  show "core (open_dm T E K h a) = core a"
    by (simp add: open_dm_def Let_def split: option.split)
  have "tu_bbs (open_dm T E K h a) \<in> {tu_bbs a, ?b}"
    by (simp add: open_dm_def Let_def split: option.split)
  moreover have "key_writes T E K a (bbs_store ?b)" if "tu_screen a \<in> {ScDm, ScWho}"
    using create_board_store[of T mr_report "tk_at K 1" "tu_bbs a" "role_caps Sysop" ?bd]
  proof
    assume "store_exec T (bbs_store (tu_bbs a)) (PutBoard ?bd) = (bbs_store ?b, Done)"
    then show ?thesis by (rule key_writes_one) (use that in \<open>simp add: own_op_def board_new_def\<close>)
  qed simp
  ultimately show "tu_screen a \<in> {ScDm, ScWho} \<Longrightarrow> key_writes T E K a (bbs_store (tu_bbs (open_dm T E K h a)))"
    by auto
qed

text \<open>The autopilot posts any number of messages, all its own.\<close>

definition auto_posts :: "'s store_ops \<Rightarrow> env \<Rightarrow> identity \<Rightarrow> 's \<Rightarrow> 's \<Rightarrow> bool" where
  "auto_posts T E org s s' \<longleftrightarrow> (\<exists>ms. writes T s (map PutMessage ms) s' \<and>
     list_all (\<lambda>m. message_verify E m = Inr () \<and> mb_author (msg_body m) = ident org \<and>
       mb_board (msg_body m) = PROGRESS_BOARD \<and> mb_handle (msg_body m) = ''autopilot'') ms)"

lemma auto_posts_refl: "auto_posts T E org s s"
  unfolding auto_posts_def by (intro exI[of _ "[]"]) simp

lemma auto_posts_trans:
  assumes "auto_posts T E org s t" "auto_posts T E org t u"
  shows "auto_posts T E org s u"
proof -
  from assms obtain ms ns where "writes T s (map PutMessage ms) t" "writes T t (map PutMessage ns) u"
    and all: "list_all (\<lambda>m. message_verify E m = Inr () \<and> mb_author (msg_body m) = ident org \<and>
       mb_board (msg_body m) = PROGRESS_BOARD \<and> mb_handle (msg_body m) = ''autopilot'') (ms @ ns)"
    unfolding auto_posts_def by auto
  then have "writes T s (map PutMessage (ms @ ns)) u" by (auto simp: writes_append)
  with all show ?thesis unfolding auto_posts_def by blast
qed

lemma autopilot_posts:
  "auto_posts T E org (bbs_store b) (bbs_store (fst (tui_post_autopilot T E clk org b PROGRESS_BOARD subject body kind parent)))"
proof (cases "message_sign E org (autopilot_body org PROGRESS_BOARD subject body kind parent (clk 0))")
  case (Inr m)
  let ?s = "bbs_store (fst (svc_post T mr_report E (clk 1) b (role_caps Sysop) m))"
  have st: "bbs_store (fst (tui_post_autopilot T E clk org b PROGRESS_BOARD subject body kind parent)) = ?s"
    by (simp add: tui_post_autopilot_def Inr split: prod.split)
  from refl[of ?s] have "auto_posts T E org (bbs_store b) ?s"
  proof (cases rule: post_store)
    case 2
    with message_sign_body[OF Inr] show ?thesis
      unfolding auto_posts_def by (intro exI[of _ "[m]"]) (simp add: autopilot_body_def)
  qed (simp add: auto_posts_refl)
  with st show ?thesis by simp
qed (simp add: tui_post_autopilot_def auto_posts_refl)

lemma progress_frame [simp]: "core (tui_post_run_progress T E clk r a) = core a"
  by (simp add: tui_post_run_progress_def Let_def core_def split: option.split prod.split)

lemmas progress_same [simp] = core_fields[OF progress_frame]

lemma progress_posts:
  "auto_posts T E (tu_org a) (bbs_store (tu_bbs a)) (bbs_store (tu_bbs (tui_post_run_progress T E clk r a)))"
proof -
  have steps: "auto_posts T E org (bbs_store b) (bbs_store (foldl (\<lambda>b n. fst (tui_post_autopilot T E (c n) org b PROGRESS_BOARD
      (f n) (g n) Step (Some k))) b ns))" for org b c f g k and ns :: "nat list"
  proof (induction ns arbitrary: b)
    case (Cons n ns)
    show ?case using auto_posts_trans[OF autopilot_posts Cons.IH] by simp
  qed (simp add: auto_posts_refl)
  show ?thesis
  proof (cases "tu_milestone a")
    case (Some k)
    then show ?thesis by (simp add: tui_post_run_progress_def Let_def steps)
  next
    case None
    obtain b k where p: "tui_post_autopilot T E clk (tu_org a) (tu_bbs a) PROGRESS_BOARD
        (milestone_subject (run_playbook r)) (milestone_body (run_playbook r)) Milestone None = (b, k)"
      by (rule prod.exhaust)
    have "auto_posts T E (tu_org a) (bbs_store (tu_bbs a)) (bbs_store b)"
      using autopilot_posts[of T E "tu_org a" "tu_bbs a" clk "milestone_subject (run_playbook r)"
          "milestone_body (run_playbook r)" Milestone None] p by simp
    with None p show ?thesis
      by (cases k) (simp_all add: tui_post_run_progress_def Let_def auto_posts_trans[OF _ steps])
  qed
qed

lemma auto_posts_writes:
  assumes "auto_posts T E (tu_org a) (bbs_store (tu_bbs a)) s'" "tu_screen a = ScPlaybooks"
  shows "key_writes T E K a s'"
proof -
  from assms obtain ms where "writes T (bbs_store (tu_bbs a)) (map PutMessage ms) s'"
    "list_all (own_op E K a) (map PutMessage ms)"
    unfolding auto_posts_def by (auto simp: list_all_iff own_op_def)
  with assms(2) show ?thesis unfolding key_writes_def by blast
qed

section \<open>What a key signs\<close>

text \<open>A log after a key: as it was, or with one more record.\<close>

definition grown :: "('x \<Rightarrow> bool) \<Rightarrow> 'x list \<Rightarrow> 'x list \<Rightarrow> bool" where
  "grown P xs ys \<longleftrightarrow> ys = xs \<or> (\<exists>x. ys = xs @ [x] \<and> P x)"

lemma grown_refl [simp]: "grown P xs xs"
  by (simp add: grown_def)

definition key_signs :: "env \<Rightarrow> ('s, 'j) app \<Rightarrow> ('s, 'j) app \<Rightarrow> bool" where
  "key_signs E a a' \<longleftrightarrow>
     grown (\<lambda>m. mod_verify E m = Inr () \<and> ma_moderator m = self a \<and> tu_screen a = ScSysop \<and>
         caps_contains (se_caps (tu_session a)) MODERATE) (actions (tu_moderation a)) (actions (tu_moderation a')) \<and>
     grown (\<lambda>d. decision_verify E d = Inr () \<and> sd_decider d = self a \<and> tu_screen a \<in> {ScApprovals, ScPlaybooks})
       (decisions (tu_gate a)) (decisions (tu_gate a')) \<and>
     grown (\<lambda>c. cred_verify E c = Inr () \<and> cr_issuer c = self a \<and> tu_screen a = ScDirectory)
       (creds (tu_credentials a)) (creds (tu_credentials a')) \<and>
     grown (\<lambda>r. record_verify E r = Inr () \<and> (dr_decided_by r = self a \<and> tu_screen a = ScDecisions \<or>
         dr_decided_by r = ident (tu_org a) \<and> tu_screen a = ScPlaybooks))
       (records (tu_decisions a)) (records (tu_decisions a')) \<and>
     tu_org a' = tu_org a \<and> (tu_session a' = tu_session a \<or> tu_screen a = ScPassport)"

lemma core_signs:
  assumes "core a' = core a"
  shows "key_signs E a a'"
  by (simp add: key_signs_def core_fields[OF assms])

lemma decide_action_effect:
  "tu_bbs (fst (decide_action E K i v why a)) = tu_bbs a"
  "tu_run (fst (decide_action E K i v why a)) = tu_run a"
  "core ((fst (decide_action E K i v why a))\<lparr>tu_gate := tu_gate a\<rparr>) = core a"
  "grown (\<lambda>d. decision_verify E d = Inr () \<and> sd_decider d = self a) (decisions (tu_gate a))
     (decisions (tu_gate (fst (decide_action E K i v why a))))"
proof -
  let ?d = "decision_sign E (se_identity (tu_session a)) i v why (tk_at K 0)"
  have d: "sd_decider ?d = self a" by (simp add: decision_sign_def self_def)
  have rec: "decision_verify E ?d = Inr () \<and> decisions g = decisions (tu_gate a) @ [?d]"
    if "gate_record E (tu_gate a) ?d = Inr g" for g
    using that by (cases "decision_verify E ?d") (auto simp: gate_record_def)
  show "tu_bbs (fst (decide_action E K i v why a)) = tu_bbs a"
    "tu_run (fst (decide_action E K i v why a)) = tu_run a"
    "core ((fst (decide_action E K i v why a))\<lparr>tu_gate := tu_gate a\<rparr>) = core a"
    by (simp_all add: decide_action_def core_def split: sum.split)
  show "grown (\<lambda>d. decision_verify E d = Inr () \<and> sd_decider d = self a) (decisions (tu_gate a))
       (decisions (tu_gate (fst (decide_action E K i v why a))))"
    using rec d by (cases "gate_record E (tu_gate a) ?d") (simp_all add: decide_action_def grown_def)
qed

lemma gate_only:
  assumes "core (a'\<lparr>tu_gate := tu_gate a\<rparr>) = core a"
  shows "tu_session a' = tu_session a" "tu_moderation a' = tu_moderation a" "tu_credentials a' = tu_credentials a"
    "tu_decisions a' = tu_decisions a" "tu_org a' = tu_org a"
  using assms by (simp_all add: core_def)

text \<open>One log of the core changed, the rest not.\<close>

lemma signs_moderation:
  assumes "mod_record E (tu_moderation a) (mod_sign E (se_identity (tu_session a)) t s why now) = Inr l"
    and "tu_screen a = ScSysop" "caps_contains (se_caps (tu_session a)) MODERATE"
  shows "key_signs E a (a\<lparr>tu_moderation := l\<rparr>)"
proof -
  let ?m = "mod_sign E (se_identity (tu_session a)) t s why now"
  have "mod_verify E ?m = Inr ()" "actions l = actions (tu_moderation a) @ [?m]"
    using assms(1) by (cases "mod_verify E ?m"; auto simp: mod_record_def)+
  moreover have "ma_moderator ?m = self a" by (simp add: mod_sign_def self_def)
  ultimately show ?thesis using assms(2,3) by (simp add: key_signs_def grown_def)
qed

lemma moderate_effect:
  assumes "tu_screen a = ScSysop"
  shows "key_signs E a (fst (moderate_selected E K s a))" "tu_bbs (fst (moderate_selected E K s a)) = tu_bbs a"
proof -
  have refl: "key_signs E a a" by (simp add: core_signs)
  show "key_signs E a (fst (moderate_selected E K s a))" using assms
    by (simp add: moderate_selected_def refl Let_def signs_moderation split: sum.split)
  show "tu_bbs (fst (moderate_selected E K s a)) = tu_bbs a"
    by (simp add: moderate_selected_def Let_def split: sum.split)
qed

lemma signs_credential:
  assumes "cred_add E (tu_credentials a) (cred_issue E (se_identity (tu_session a)) t claim now x) = Inr l"
    and "tu_screen a = ScDirectory"
  shows "key_signs E a (a\<lparr>tu_credentials := l\<rparr>)"
proof -
  let ?c = "cred_issue E (se_identity (tu_session a)) t claim now x"
  have "cred_verify E ?c = Inr ()" "creds l = creds (tu_credentials a) @ [?c]"
    using assms(1) by (cases "cred_verify E ?c"; auto simp: cred_add_def)+
  moreover have "cr_issuer ?c = self a" by (simp add: cred_issue_def self_def)
  ultimately show ?thesis using assms(2) by (simp add: key_signs_def grown_def)
qed

lemma issue_effect:
  assumes "tu_screen a = ScDirectory"
  shows "key_signs E a (fst (issue_credential E K claim a))" "tu_bbs (fst (issue_credential E K claim a)) = tu_bbs a"
proof -
  have refl: "key_signs E a a" by (simp add: core_signs)
  show "key_signs E a (fst (issue_credential E K claim a))" using assms
    by (simp add: issue_credential_def refl Let_def signs_credential split: sum.split)
  show "tu_bbs (fst (issue_credential E K claim a)) = tu_bbs a"
    by (simp add: issue_credential_def Let_def split: sum.split)
qed

lemma dlog_grown:
  assumes "record_verify E r = Inr () \<Longrightarrow> P r"
  shows "dlog_add E l r = Inr l' \<Longrightarrow> grown P (records l) (records l')"
  using assms by (cases "record_verify E r") (auto simp: dlog_add_def grown_def split: if_splits)

lemma submit_decision_effect:
  assumes "tu_screen a = ScDecisions"
  shows "key_signs E a (submit_decision E K a)" "tu_bbs (submit_decision E K a) = tu_bbs a"
proof -
  have by_self: "dr_decided_by (record_new E (se_identity (tu_session a)) t d r b now) = self a" for t d r b now
    by (simp add: record_new_def Let_def self_def)
  have refl: "key_signs E a (say s a)" for s by (simp add: core_signs)
  show "tu_bbs (submit_decision E K a) = tu_bbs a"
    by (simp add: submit_decision_def Let_def split: sum.split)
  show "key_signs E a (submit_decision E K a)"
    by (simp add: submit_decision_def refl Let_def split: sum.split)
      (auto simp: key_signs_def assms by_self intro!: dlog_grown)
qed

text \<open>A run is driven without signing anything but the record of its completion.\<close>

lemma drive_and_post_effect:
  assumes "tu_screen a = ScPlaybooks"
  shows "auto_posts T E (tu_org a) (bbs_store (tu_bbs a)) (bbs_store (tu_bbs (drive_and_post T E K r a)))"
    "core ((drive_and_post T E K r a)\<lparr>tu_decisions := tu_decisions a\<rparr>) = core a"
    "grown (\<lambda>r. record_verify E r = Inr () \<and> dr_decided_by r = ident (tu_org a)) (records (tu_decisions a))
       (records (tu_decisions (drive_and_post T E K r a)))"
proof -
  let ?r = "tui_drive E (tu_gate a) r"
  let ?a = "tui_post_run_progress T E (\<lambda>n. tk_at K (n + 2)) ?r a"
  show "auto_posts T E (tu_org a) (bbs_store (tu_bbs a)) (bbs_store (tu_bbs (drive_and_post T E K r a)))"
    using progress_posts[of T E a "\<lambda>n. tk_at K (n + 2)" ?r]
    by (simp add: drive_and_post_def tui_record_completion_def Let_def)
  show "core ((drive_and_post T E K r a)\<lparr>tu_decisions := tu_decisions a\<rparr>) = core a"
    by (simp add: drive_and_post_def tui_record_completion_def Let_def core_def)
  have by_org: "dr_decided_by (record_new E (tu_org a) t d w b now) = ident (tu_org a)" for t d w b now
    by (simp add: record_new_def Let_def)
  have "grown (\<lambda>r. record_verify E r = Inr () \<and> dr_decided_by r = ident (tu_org a)) (records (tu_decisions a))
      (records (res_or (tu_decisions a) (dlog_add E (tu_decisions a) (record_new E (tu_org a) t d w b now))))" for t d w b now
    using dlog_grown[of E "record_new E (tu_org a) t d w b now"] by_org
    by (cases "dlog_add E (tu_decisions a) (record_new E (tu_org a) t d w b now)") (simp_all add: res_or_def)
  then show "grown (\<lambda>r. record_verify E r = Inr () \<and> dr_decided_by r = ident (tu_org a)) (records (tu_decisions a))
       (records (tu_decisions (drive_and_post T E K r a)))"
    by (simp add: drive_and_post_def tui_record_completion_def Let_def)
qed

text \<open>Rotation and creator mode change only the session.\<close>

lemma passport_effect:
  "tu_bbs (key_passport E K k a) = tu_bbs a"
  "core ((key_passport E K k a)\<lparr>tu_session := tu_session a\<rparr>) = core a"
proof -
  have rot: "tu_bbs (fst (rotate_identity E K a)) = tu_bbs a"
    "core ((fst (rotate_identity E K a))\<lparr>tu_session := tu_session a\<rparr>) = core a"
    by (simp_all add: rotate_identity_def core_def Let_def split: sum.split)
  have tog: "tu_bbs (toggle_creator_mode a) = tu_bbs a"
    "core ((toggle_creator_mode a)\<lparr>tu_session := tu_session a\<rparr>) = core a"
    by (simp_all add: toggle_creator_mode_def core_def)
  have out: "core ((told f ok p)\<lparr>tu_session := s\<rparr>) = core ((fst p)\<lparr>tu_session := s\<rparr>)"
    "core ((say t b)\<lparr>tu_session := s\<rparr>) = core (b\<lparr>tu_session := s\<rparr>)"
    "core ((leave_to sc k b)\<lparr>tu_session := tu_session b\<rparr>) = core b"
    for f ok s t and p :: "('s, 'j) app \<times> (string + unit)" and b :: "('s, 'j) app" and sc
    by (simp_all add: told_def say_def leave_to_def core_def split: prod.split sum.split)
  show "tu_bbs (key_passport E K k a) = tu_bbs a"
    by (simp add: key_passport_def Let_def rot tog)
  show "core ((key_passport E K k a)\<lparr>tu_session := tu_session a\<rparr>) = core a"
    by (simp add: key_passport_def Let_def rot tog out)
qed

lemma passport_signs: "tu_screen a = ScPassport \<Longrightarrow> key_signs E a (key_passport E K k a)"
  using passport_effect(2)[where E = E and K = K and k = k and a = a] by (simp add: core_def key_signs_def)

section \<open>Keys\<close>

text \<open>The handlers that do more than move about, one by one.\<close>

definition key_effect :: "'s store_ops \<Rightarrow> env \<Rightarrow> tui_call \<Rightarrow> ('s, 'j) app \<Rightarrow> ('s, 'j) app \<Rightarrow> bool" where
  "key_effect T E K a a' \<longleftrightarrow> key_writes T E K a (bbs_store (tu_bbs a')) \<and> key_signs E a a'"

lemma plain_effect:
  assumes "core a' = core a" "tu_bbs a' = tu_bbs a"
  shows "key_effect T E K a a'"
  using core_signs[OF assms(1)] assms(2) by (simp add: key_effect_def)

lemma posting_effect:
  assumes "core a' = core a" "key_writes T E K a (bbs_store (tu_bbs a'))"
  shows "key_effect T E K a a'"
  using core_signs[OF assms(1)] assms(2) by (simp add: key_effect_def)

lemma read_effect:
  assumes "tu_screen a = ScRead"
  shows "key_effect T E K a (key_read T E K k a)"
proof (cases "\<not> moves k \<and> \<not> letter (CHR ''p'') k \<and> \<not> letter (CHR ''r'') k \<and> \<not> letter (CHR ''e'') k \<and> letter (CHR ''d'') k")
  case True
  then have "key_read T E K k a = told ''Delete'' (\<lambda>_. ''Message deleted.'') (delete_selected T E K a)"
    by (simp add: key_read_def)
  moreover have "key_writes T E K a (bbs_store (tu_bbs (fst (delete_selected T E K a))))"
    using delete_effect[of T E K a] post_own_writes[of _ a K T E] assms by auto
  ultimately show ?thesis using delete_effect[of T E K a] by (intro posting_effect) simp_all
next
  case False
  then have "core (key_read T E K k a) = core a" "tu_bbs (key_read T E K k a) = tu_bbs a"
    by (auto simp: key_read_def) (simp_all add: core_def)
  then show ?thesis by (rule plain_effect)
qed

lemma compose_key_effect:
  assumes "tu_screen a = ScCompose"
  shows "key_effect T E K a (key_compose T E K e a)"
proof (cases "ctrl ''s'' e")
  case True
  have "key_writes T E K a (bbs_store (tu_bbs (submit_compose T E K a)))"
    using compose_effect[of T E K a] post_own_writes[of _ a K T E] assms by auto
  then show ?thesis using True compose_effect[of T E K a] by (intro posting_effect) (simp_all add: key_compose_def)
next
  case False
  then have "core (key_compose T E K e a) = core a" "tu_bbs (key_compose T E K e a) = tu_bbs a"
    by (simp_all add: key_compose_def split: key_code.split compose_field.split) (simp_all add: core_def)
  then show ?thesis by (rule plain_effect)
qed

lemma drafts_key_effect:
  assumes "tu_screen a = ScDrafts"
  shows "key_effect T E K a (key_drafts T E K k a)"
proof (cases "\<not> tu_draft_editing a \<and> \<not> moves k \<and> letter (CHR ''s'') k")
  case True
  then have "key_drafts T E K k a = send_selected_draft T E K a" by (simp add: key_drafts_def)
  then show ?thesis using send_draft_effect[of T E K a] assms by (intro posting_effect) simp_all
next
  case False
  then have "core (key_drafts T E K k a) = core a" "tu_bbs (key_drafts T E K k a) = tu_bbs a"
    by (auto simp: key_drafts_def split: key_code.split option.split) (simp_all add: core_def)
  then show ?thesis by (rule plain_effect)
qed

lemma digest_key_effect:
  assumes "tu_screen a = ScDigest"
  shows "key_effect T E K a (key_digest T E K k a)"
proof (cases "letter (CHR ''p'') k")
  case True
  have "key_writes T E K a (bbs_store (tu_bbs (fst (post_digest T E K a))))"
    using digest_effect[of T E K a] post_own_writes[of _ a K T E] assms by auto
  then show ?thesis using True digest_effect[of T E K a] by (intro posting_effect) (simp_all add: key_digest_def)
qed (simp add: key_digest_def plain_effect)

lemma dm_key_effect:
  assumes "tu_screen a = ScDm"
  shows "key_effect T E K a (key_dm T E K k a)"
proof -
  have "core (key_dm T E K k a) = core a"
    by (simp add: key_dm_def Let_def open_dm_effect split: key_code.split option.split) (simp add: core_def)
  moreover have "key_writes T E K a (bbs_store (tu_bbs (open_dm T E K h (a\<lparr>tu_dm_editing := x, tu_dm_input := y\<rparr>))))" for h x y
  proof -
    let ?b = "a\<lparr>tu_dm_editing := x, tu_dm_input := y\<rparr>"
    have "core ?b = core a" by (simp add: core_def)
    from key_writes_core[OF this] open_dm_effect(2)[of ?b T E K h] assms show ?thesis by simp
  qed
  moreover note open_dm_effect(2)[of a T E K]
  ultimately show ?thesis using assms
    by (intro posting_effect) (simp_all add: key_dm_def Let_def split: key_code.split option.split)
qed

lemma who_key_effect:
  assumes "tu_screen a = ScWho"
  shows "key_effect T E K a (key_who T E K k a)"
proof -
  have "core (key_who T E K k a) = core a"
    by (simp add: key_who_def open_dm_effect split: option.split) (simp add: core_def)
  with open_dm_effect(2)[of a T E K] assms show ?thesis
    by (intro posting_effect) (simp_all add: key_who_def split: option.split)
qed

lemma signing_effect: "key_signs E a a' \<Longrightarrow> tu_bbs a' = tu_bbs a \<Longrightarrow> key_effect T E K a a'"
  by (simp add: key_effect_def)

lemma signs_core: "core b = core a' \<Longrightarrow> key_signs E a b \<longleftrightarrow> key_signs E a a'"
  unfolding key_signs_def core_fields[of b a'] by (metis core_fields)

lemma told_signs [simp]:
  "key_signs E a (told f ok p) \<longleftrightarrow> key_signs E a (fst p)" "key_signs E a (say s b) \<longleftrightarrow> key_signs E a b"
  by (rule signs_core; simp)+

lemma decisions_key_effect:
  assumes "tu_screen a = ScDecisions"
  shows "key_effect T E K a (key_decisions E K e a)"
proof (cases "tu_decision_editing a \<and> ctrl ''s'' e")
  case True
  then show ?thesis using submit_decision_effect[OF assms] by (simp add: key_decisions_def signing_effect)
next
  case False
  then have "core (key_decisions E K e a) = core a" "tu_bbs (key_decisions E K e a) = tu_bbs a"
    by (auto simp: key_decisions_def split: key_code.split) (simp_all add: core_def)
  then show ?thesis by (rule plain_effect)
qed

lemma directory_key_effect:
  assumes "tu_screen a = ScDirectory"
  shows "key_effect T E K a (key_directory E K k a)"
proof (cases "tu_claim_editing a \<and> k = KEnter \<and> trim (tu_claim_input a) \<noteq> []")
  case True
  let ?b = "a\<lparr>tu_claim_editing := False, tu_claim_input := []\<rparr>"
  have "key_signs E ?b (fst (issue_credential E K (trim (tu_claim_input a)) ?b))"
    using assms by (simp add: issue_effect)
  then have "key_signs E a (fst (issue_credential E K (trim (tu_claim_input a)) ?b))"
    by (simp add: key_signs_def self_def)
  with True assms show ?thesis
    by (intro signing_effect) (simp_all add: key_directory_def issue_effect)
next
  case False
  then have "core (key_directory E K k a) = core a" "tu_bbs (key_directory E K k a) = tu_bbs a"
    by (auto simp: key_directory_def Let_def split: key_code.split) (simp_all add: core_def)
  then show ?thesis by (rule plain_effect)
qed

lemma sysop_key_effect:
  assumes "tu_screen a = ScSysop"
  shows "key_effect T E K a (key_sysop E K k a)"
proof -
  have "key_signs E a (directory_cursor E k a)" "key_signs E a (leave_to ScMain k a)" by (simp_all add: core_signs)
  then show ?thesis using moderate_effect[OF assms]
    by (intro signing_effect) (simp_all add: key_sysop_def)
qed

lemma decide_signs:
  assumes "tu_screen a \<in> {ScApprovals, ScPlaybooks}"
  shows "key_signs E a (fst (decide_action E K i v why a))"
  using decide_action_effect(4)[where E = E and K = K and i = i and v = v and why = why and a = a]
    gate_only[OF decide_action_effect(3)[where E = E and K = K and i = i and v = v and why = why and a = a]] assms
  by (simp add: key_signs_def)

lemma approvals_key_effect:
  assumes "tu_screen a = ScApprovals"
  shows "key_effect T E K a (key_approvals E K k a)"
proof -
  have plain: "key_signs E a b" if "core b = core a" for b using that by (rule core_signs)
  have sel: "key_signs E a (decide_selected E K v why ok a)" "tu_bbs (decide_selected E K v why ok a) = tu_bbs a" for v why ok
    using decide_signs[of a E K] assms by (simp_all add: decide_selected_def plain decide_action_effect split: option.split)
  have "core (a\<lparr>tu_approval_index := x\<rparr>) = core a" "core (a\<lparr>tu_proposals := y\<rparr>) = core a" for x y
    by (simp_all add: core_def)
  then show ?thesis
    by (intro signing_effect) (simp_all add: key_approvals_def sel plain propose_action_def Let_def)
qed

lemma drive_signs:
  assumes "tu_screen a = ScPlaybooks" "core (b\<lparr>tu_gate := tu_gate a\<rparr>) = core a" "tu_bbs b = tu_bbs a" "tu_screen b = ScPlaybooks"
    and "grown (\<lambda>d. decision_verify E d = Inr () \<and> sd_decider d = self a) (decisions (tu_gate a)) (decisions (tu_gate b))"
  shows "key_effect T E K a (drive_and_post T E K r b)"
proof -
  note same = gate_only[OF assms(2)]
  note eff = drive_and_post_effect[OF assms(4), where T = T and E = E and K = K and r = r]
  have c: "core ((drive_and_post T E K r b)\<lparr>tu_decisions := tu_decisions b\<rparr>) = core b" by (rule eff(2))
  then have d: "tu_session (drive_and_post T E K r b) = tu_session a" "tu_moderation (drive_and_post T E K r b) = tu_moderation a"
    "tu_gate (drive_and_post T E K r b) = tu_gate b" "tu_credentials (drive_and_post T E K r b) = tu_credentials a"
    "tu_org (drive_and_post T E K r b) = tu_org a"
    by (simp_all add: core_def same)
  have "key_writes T E K a (bbs_store (tu_bbs (drive_and_post T E K r b)))"
    using eff(1) assms(1,3) by (intro auto_posts_writes) (simp_all add: same)
  moreover have "key_signs E a (drive_and_post T E K r b)"
    using eff(3) assms(1,5) by (simp add: key_signs_def d same)
  ultimately show ?thesis by (simp add: key_effect_def)
qed

lemma playbooks_key_effect:
  assumes "tu_screen a = ScPlaybooks"
  shows "key_effect T E K a (key_playbooks T E K k a)"
proof -
  have plain: "key_effect T E K a b" if "core b = core a" "tu_bbs b = tu_bbs a" for b using that by (rule plain_effect)
  have start: "key_effect T E K a (tui_run_playbook T E K a)"
    by (auto simp: tui_run_playbook_def plain split: sum.split intro!: drive_signs) (simp_all add: core_def assms)
  have adv: "key_effect T E K a (advance_run T E K b)"
    if "core (b\<lparr>tu_gate := tu_gate a\<rparr>) = core a" "tu_bbs b = tu_bbs a" "tu_screen b = ScPlaybooks" "tu_run b \<noteq> None"
      "grown (\<lambda>d. decision_verify E d = Inr () \<and> sd_decider d = self a) (decisions (tu_gate a)) (decisions (tu_gate b))" for b
    using that drive_signs[OF assms that(1-3,5)] by (auto simp: advance_run_def split: option.split)
  have adv0: "key_effect T E K a (advance_run T E K a)"
  proof (cases "tu_run a")
    case None
    then show ?thesis by (simp add: advance_run_def plain)
  next
    case (Some r)
    then show ?thesis using adv[of a] assms by (simp add: core_def)
  qed
  have appr: "key_effect T E K a (approve_current_gate T E K why a)" for why
  proof (cases "Option.bind (tu_run a) gate_action_id")
    case (Some i)
    obtain b r where p: "decide_action E K i Approve why a = (b, r)" by (rule prod.exhaust)
    note eff = decide_action_effect[where E = E and K = K and i = i and v = Approve and why = why and a = a, unfolded p fst_conv]
    have scr: "tu_screen b = ScPlaybooks" using p assms by (auto simp: decide_action_def split: sum.splits)
    show ?thesis
    proof (cases r)
      case (Inl e)
      then have "b = a" using p by (auto simp: decide_action_def split: sum.splits)
      with Inl Some p show ?thesis by (simp add: approve_current_gate_def plain)
    next
      case (Inr u)
      have "tu_run b \<noteq> None" using Some eff(2) by (cases "tu_run a") auto
      with Inr Some p show ?thesis using adv[OF eff(3,1) scr _ eff(4)] by (simp add: approve_current_gate_def)
    qed
  qed (simp add: approve_current_gate_def plain)
  show ?thesis using start adv0 appr by (simp add: key_playbooks_def plain)
qed

lemma screen_effect: "key_effect T E K a (fst (key_screen T E K e a))"
proof -
  have "core (fst (key_screen T E K e a)) = core a \<and> tu_bbs (fst (key_screen T E K e a)) = tu_bbs a"
    if "tu_screen a \<notin> {ScRead, ScCompose, ScDrafts, ScDigest, ScDm, ScWho, ScDecisions, ScDirectory, ScSysop, ScApprovals,
      ScPlaybooks, ScPassport}"
    using that by (cases "tu_screen a") (simp_all add: key_screen_def Let_def)
  then have plain: "key_effect T E K a (fst (key_screen T E K e a))"
    if "tu_screen a \<notin> {ScRead, ScCompose, ScDrafts, ScDigest, ScDm, ScWho, ScDecisions, ScDirectory, ScSysop, ScApprovals,
      ScPlaybooks, ScPassport}" using that plain_effect by blast
  show ?thesis
  proof (cases "tu_screen a \<in> {ScRead, ScCompose, ScDrafts, ScDigest, ScDm, ScWho, ScDecisions, ScDirectory, ScSysop, ScApprovals,
      ScPlaybooks, ScPassport}")
    case True
    then show ?thesis
      by (auto simp: key_screen_def Let_def read_effect compose_key_effect drafts_key_effect digest_key_effect dm_key_effect
          who_key_effect decisions_key_effect directory_key_effect sysop_key_effect approvals_key_effect
          playbooks_key_effect passport_signs passport_effect signing_effect)
  qed (rule plain)
qed

lemma on_key_effect: "key_effect T E K a (fst (on_key T E a (K, e)))"
proof -
  let ?b = "tui_heartbeat K a"
  have "key_effect T E K ?b (fst (on_key T E a (K, e)))"
    by (simp add: on_key_def Let_def screen_effect plain_effect)
  moreover have "key_signs E ?b c = key_signs E a c" for c
    by (simp add: key_signs_def self_def core_fields[OF heartbeat_frame(1)])
  ultimately show ?thesis
    using key_writes_core[of ?b a T E K] by (simp add: key_effect_def)
qed

section \<open>Properties\<close>

text \<open>
  Whatever is typed on whatever screen, a key leaves in the store at most one message of the session,
  verified, under the session's own key and only with POST (from the compose screen only while
  moderation lets it post), or one new conversation board; only on the playbook screen may it leave
  several messages, all verified progress messages of the autopilot. No assumption is made on
  signatures or on the store.
\<close>

theorem key_posts_as_session:
  "\<exists>ops. writes T (bbs_store (tu_bbs a)) ops (bbs_store (tu_bbs (fst (on_key T E a (K, e))))) \<and>
    list_all (own_op E K a) ops \<and> (length ops \<le> 1 \<or> tu_screen a = ScPlaybooks)"
  using on_key_effect[of T E K a e] by (simp add: key_effect_def key_writes_def)

text \<open>
  A key signs only as the session, or the completion of a run as the organisation: each of the four
  logs of signed records is as it was or longer by one record that verifies, made by the session's
  key on the screen for it, a sanction only with the capability to moderate. Identity and
  capabilities change only on the passport screen.
\<close>

theorem key_signs_as_session:
  "let a' = fst (on_key T E a (K, e)) in
    grown (\<lambda>m. mod_verify E m = Inr () \<and> ma_moderator m = self a \<and> tu_screen a = ScSysop \<and>
         caps_contains (se_caps (tu_session a)) MODERATE) (actions (tu_moderation a)) (actions (tu_moderation a')) \<and>
    grown (\<lambda>d. decision_verify E d = Inr () \<and> sd_decider d = self a \<and> tu_screen a \<in> {ScApprovals, ScPlaybooks})
       (decisions (tu_gate a)) (decisions (tu_gate a')) \<and>
    grown (\<lambda>c. cred_verify E c = Inr () \<and> cr_issuer c = self a \<and> tu_screen a = ScDirectory)
       (creds (tu_credentials a)) (creds (tu_credentials a')) \<and>
    grown (\<lambda>r. record_verify E r = Inr () \<and> (dr_decided_by r = self a \<and> tu_screen a = ScDecisions \<or>
         dr_decided_by r = ident (tu_org a) \<and> tu_screen a = ScPlaybooks))
       (records (tu_decisions a)) (records (tu_decisions a')) \<and>
    tu_org a' = tu_org a \<and> (tu_session a' = tu_session a \<or> tu_screen a = ScPassport)"
  using on_key_effect[of T E K a e] by (simp add: key_effect_def key_signs_def Let_def)

end
