(* ===== verification/Tui_Session.thy ===== *)
theory Tui_Session
  imports Tui_Props
begin

text \<open>
  Throughout a session of the terminal client, from its start on: the rows that index a fixed list
  stay inside it, credits are neither made nor overspent, a run stays well formed, and what the
  reading and the composing screen show is the board they post to.
\<close>

section \<open>Rows, credits and the run\<close>

definition prices_ok :: "market \<Rightarrow> bool" where
  "prices_ok m \<longleftrightarrow> list_all (\<lambda>l. 0 \<le> sint (ls_price (li_body l))) (listings m)"

definition rest_ok :: "('s, 'j) app \<Rightarrow> bool" where
  "rest_ok a \<longleftrightarrow> tu_menu_index a < length MENU \<and> tu_appearance_index a < length ALL_THEMES \<and>
     0 \<le> sint (tu_credits a) \<and> sint (tu_credits a) \<le> 100 \<and> prices_ok (tu_market a) \<and>
     (case tu_run a of None \<Rightarrow> True | Some r \<Rightarrow> run_ok r)"

lemma rest_ok_cong: "rest b = rest a \<Longrightarrow> rest_ok b = rest_ok a"
  by (simp add: rest_def rest_ok_def)

lemma rest_ok_frame [simp]:
  "rest_ok (say s a) = rest_ok a" "rest_ok (told f ok p) = rest_ok (fst p)" "rest_ok (leave_to sc k a) = rest_ok a"
  by (rule rest_ok_cong; simp)+

lemma lengths [simp]: "length MENU = 21" "length ALL_THEMES = 7"
  by (simp_all add: MENU_def ALL_THEMES_def)

lemma position_less: "position P xs = Some i \<Longrightarrow> i < length xs"
  by (auto simp: position_def find_Some_iff)

lemma goto_rest: "rest_ok a \<Longrightarrow> rest_ok (goto T s a)"
proof -
  assume ok: "rest_ok a"
  have "unwrap_or 0 (position P ALL_THEMES) < 7" for P
    using position_less[of P ALL_THEMES] by (cases "position P ALL_THEMES") (simp_all add: unwrap_or_def)
  moreover have "rest (goto T s a) = rest a" if "s \<noteq> ScAppearance"
    using that by (cases s) (simp_all add: goto_def, simp_all add: rest_def)
  ultimately show ?thesis using ok rest_ok_cong[of "goto T s a" a]
    by (cases "s = ScAppearance") (simp_all add: goto_def rest_ok_def)
qed

lemma row_moved_less: "i < n \<Longrightarrow> row_moved k n i < n"
  by (auto simp: row_moved_def)

lemma main_rest: "rest_ok a \<Longrightarrow> rest_ok (fst (key_main T k a))"
proof -
  assume ok: "rest_ok a"
  then have "rest_ok (a\<lparr>tu_menu_index := row_moved k (length MENU) (tu_menu_index a)\<rparr>)"
    by (simp add: rest_ok_def row_moved_less)
  moreover have "rest_ok (fst (quit a))" using ok by (simp add: rest_ok_cong[OF small_keys_frame(5)] quit_def rest_ok_def)
  ultimately show ?thesis using ok
    by (simp add: key_main_def Let_def goto_rest split: key_code.split option.split prod.split)
qed

lemma palette_rest: "rest_ok a \<Longrightarrow> rest_ok (key_palette T k a)"
  by (simp add: key_palette_def goto_rest split: key_code.split option.split prod.split) (simp add: rest_ok_def)

lemma appearance_rest: "rest_ok a \<Longrightarrow> rest_ok (key_appearance k a)"
  by (auto simp: key_appearance_def Let_def)
    (auto simp: rest_ok_def intro: row_moved_less)

text \<open>A purchase never overspends: price and balance are non-negative, so nothing wraps.\<close>

lemma sint_sub_le:
  assumes "0 \<le> sint p" "sint p \<le> sint (c :: u64)"
  shows "sint (c - p) = sint c - sint p"
proof -
  have "c - p = word_of_int (sint c - sint p)" by (simp add: wi_hom_sub[symmetric])
  then have "sint (c - p) = signed_take_bit 63 (sint c - sint p)" by (simp only: sint_sbintrunc') simp
  moreover have "sint c < 2 ^ 63" using sint_less[of c] by simp
  ultimately show ?thesis using assms by (simp add: signed_take_bit_int_eq_self)
qed

lemma install_rest: "rest_ok a \<Longrightarrow> rest_ok (fst (install_listing sku a))"
proof -
  assume ok: "rest_ok a"
  show ?thesis
  proof (cases "find (\<lambda>l. ls_sku (li_body l) = sku) (market_all (tu_market a))")
    case (Some l)
    then have "l \<in> set (listings (tu_market a))" by (auto simp: find_Some_iff market_all_def)
    then have p: "0 \<le> sint (ls_price (li_body l))" using ok by (auto simp: rest_ok_def prices_ok_def list_all_iff)
    have "0 \<le> sint (tu_credits a - ls_price (li_body l)) \<and> sint (tu_credits a - ls_price (li_body l)) \<le> 100"
      if "sint (ls_price (li_body l)) \<le> sint (tu_credits a)"
      using sint_sub_le[OF p that] p ok that by (simp add: rest_ok_def)
    with Some ok show ?thesis by (simp add: install_listing_def Let_def rest_ok_def)
  qed (use ok in \<open>simp add: install_listing_def\<close>)
qed

lemma market_rest: "rest_ok a \<Longrightarrow> rest_ok (key_market k a)"
  by (auto simp: key_market_def Let_def install_rest
      split: option.split) (simp_all add: rest_ok_def)

section \<open>Keys\<close>

text \<open>Driving a run to where it stops is a run of the core's \<open>drive\<close>, so what holds of that holds here.\<close>

lemma tui_drive_is_drive: "\<exists>cs. tui_drive E g r = drive E r cs \<and> (\<forall>c \<in> set cs. fst c = g)"
proof (induction E g r rule: tui_drive.induct)
  case (1 E g r)
  let ?c = "(g, run_deciders g r)"
  show ?case
  proof (cases "snd (advance E r g (run_deciders g r)) = run_status.Running")
    case True
    from 1[OF True] obtain cs where "tui_drive E g (fst (advance E r g (run_deciders g r))) =
        drive E (fst (advance E r g (run_deciders g r))) cs" "\<forall>c \<in> set cs. fst c = g" by blast
    with True show ?thesis
      by (intro exI[of _ "?c # cs"]) (subst tui_drive.simps, simp)
  next
    case False
    then show ?thesis by (intro exI[of _ "[?c]"]) (subst tui_drive.simps, simp)
  qed
qed

lemma tui_drive_ok: "run_ok r \<Longrightarrow> run_ok (tui_drive E g r)"
  using tui_drive_is_drive[of E g r] drive_ok[of r E] by auto

lemma run_rest:
  assumes "rest_ok a" "run_ok r"
  shows "rest_ok (drive_and_post T E K r a)"
  using assms tui_drive_ok[of r E "tu_gate a"]
  by (simp add: rest_ok_def drive_and_post_def Let_def tui_record_completion_def tui_post_run_progress_def
      split: prod.split option.split)

lemma playbooks_rest:
  fixes a :: "('s, 'j) app"
  assumes "rest_ok a"
  shows "rest_ok (key_playbooks T E K k a)"
proof -
  have start: "rest_ok (tui_run_playbook T E K a)"
  proof (cases "run_start (tu_playbook a)")
    case (Inr r)
    have "rest_ok (a\<lparr>tu_milestone := None, tu_steps_posted := 0\<rparr>)" using assms by (simp add: rest_ok_def)
    with Inr run_start_ok[OF Inr] show ?thesis by (simp add: tui_run_playbook_def run_rest)
  qed (use assms in \<open>simp add: tui_run_playbook_def\<close>)
  have adv: "rest_ok (advance_run T E K b)" if "rest_ok b" for b :: "('s, 'j) app"
  proof (cases "tu_run b")
    case (Some r)
    then have "run_ok r" using that by (simp add: rest_ok_def)
    with Some that show ?thesis by (simp add: advance_run_def run_rest)
  qed (use that in \<open>simp add: advance_run_def\<close>)
  have "rest (fst (decide_action E K i v why a)) = rest a" for i v why
    by (simp add: decide_action_def rest_def split: sum.split)
  then have dec: "rest_ok (fst (decide_action E K i v why a))" for i v why
    using assms rest_ok_cong by blast
  have "rest_ok (approve_current_gate T E K why a)" for why
  proof (cases "Option.bind (tu_run a) gate_action_id")
    case (Some i)
    obtain b r where p: "decide_action E K i Approve why a = (b, r)" by (rule prod.exhaust)
    then have "rest_ok b" using dec[of i Approve why] by simp
    with Some p adv show ?thesis by (cases r) (simp_all add: approve_current_gate_def)
  qed (use assms in \<open>simp add: approve_current_gate_def\<close>)
  with start adv assms show ?thesis by (simp add: key_playbooks_def)
qed

text \<open>Every other handler leaves the rest alone.\<close>

lemma posting_rest:
  fixes a :: "('s, 'j) app"
  shows
  "rest (fst (delete_selected T E K a)) = rest a" "rest (submit_compose T E K a) = rest a"
  "rest (fst (post_digest T E K a)) = rest a" "rest (send_selected_draft T E K a) = rest a"
proof -
  have own: "rest (fst (post_own T E K a body)) = rest a" for body by (subst post_own_frame) simp
  have case_own: "rest (fst (case post_own T E K a body of (b, Inl e) \<Rightarrow> f b e | (b, Inr x) \<Rightarrow> g b x)) = rest a"
    if "\<And>b e. rest (fst (f b e)) = rest b" "\<And>b x. rest (fst (g b x)) = rest b"
    for body and f :: "('s, 'j) app \<Rightarrow> _ \<Rightarrow> ('s, 'j) app \<times> 'c" and g
  proof -
    obtain b r where p: "post_own T E K a body = (b, r)" by (rule prod.exhaust)
    then have "rest b = rest a" using own[of body] by simp
    with that p show ?thesis by (cases r) simp_all
  qed
  show "rest (fst (delete_selected T E K a)) = rest a"
    by (simp add: delete_selected_def case_own split: option.split)
  show "rest (fst (post_digest T E K a)) = rest a"
    by (simp add: post_digest_def case_own split: prod.split)
  have cleared: "rest (b\<lparr>tu_compose_subject := [], tu_compose_body := [], tu_compose_field := CfSubject,
      tu_reply_to := None, tu_edit_target := None\<rparr>) = rest b" for b :: "('s, 'j) app" by (simp add: rest_def)
  have case_own': "rest (case post_own T E K a body of (b, Inl e) \<Rightarrow> f b e | (b, Inr x) \<Rightarrow> g b x) = rest a"
    if "\<And>b e. rest (f b e) = rest b" "\<And>b x. rest (g b x) = rest b" for body f g
  proof -
    obtain b r where p: "post_own T E K a body = (b, r)" by (rule prod.exhaust)
    then have "rest b = rest a" using own[of body] by simp
    with that p show ?thesis by (cases r) simp_all
  qed
  show "rest (submit_compose T E K a) = rest a"
    by (simp add: submit_compose_def case_own' cleared split: option.split)
  show "rest (send_selected_draft T E K a) = rest a"
    by (simp add: send_selected_draft_def split: option.split prod.split sum.split)
qed

lemma open_dm_rest: "rest (open_dm T E K h a) = rest a"
  by (simp add: open_dm_def Let_def split: option.split)

lemma record_rest:
  "rest (fst (moderate_selected E K s a)) = rest a" "rest (fst (issue_credential E K claim a)) = rest a"
  "rest (fst (decide_action E K i v why a)) = rest a" "rest (fst (rotate_identity E K a)) = rest a"
  "rest (toggle_creator_mode a) = rest a" "rest (submit_decision E K a) = rest a"
  "rest (decide_selected E K v why ok a) = rest a"
  by (simp_all add: moderate_selected_def issue_credential_def decide_action_def rotate_identity_def
      toggle_creator_mode_def submit_decision_def decide_selected_def rest_def Let_def say_def told_def
      split: sum.split option.split prod.split)

lemma plain_rest:
  "rest (key_read T E K k a) = rest a" "rest (key_compose T E K e a) = rest a" "rest (key_drafts T E K k a) = rest a"
  "rest (key_decisions E K e a) = rest a" "rest (key_digest T E K k a) = rest a" "rest (key_dm T E K k a) = rest a"
  "rest (key_who T E K k a) = rest a" "rest (key_approvals E K k a) = rest a" "rest (key_directory E K k a) = rest a"
  "rest (key_passport E K k a) = rest a" "rest (key_sysop E K k a) = rest a"
proof -
  note ops = posting_rest open_dm_rest record_rest Let_def
  show "rest (key_read T E K k a) = rest a" by (simp add: key_read_def ops) (simp add: rest_def)
  show "rest (key_compose T E K e a) = rest a"
    by (simp add: key_compose_def ops split: key_code.split compose_field.split) (simp add: rest_def)
  show "rest (key_drafts T E K k a) = rest a"
    by (simp add: key_drafts_def ops split: key_code.split option.split) (simp add: rest_def)
  show "rest (key_decisions E K e a) = rest a"
    by (simp add: key_decisions_def ops split: key_code.split) (simp add: rest_def)
  show "rest (key_digest T E K k a) = rest a" by (simp add: key_digest_def ops)
  show "rest (key_dm T E K k a) = rest a"
    by (simp add: key_dm_def ops split: key_code.split option.split) (simp add: rest_def)
  show "rest (key_who T E K k a) = rest a" by (simp add: key_who_def ops split: option.split) (simp add: rest_def)
  show "rest (key_approvals E K k a) = rest a"
    by (simp add: key_approvals_def ops propose_action_def) (simp add: rest_def)
  show "rest (key_directory E K k a) = rest a"
    by (simp add: key_directory_def ops split: key_code.split) (simp add: rest_def)
  show "rest (key_passport E K k a) = rest a" by (simp add: key_passport_def ops)
  show "rest (key_sysop E K k a) = rest a" by (simp add: key_sysop_def ops)
qed

lemma on_key_rest:
  assumes "rest_ok a"
  shows "rest_ok (fst (on_key T E a (K, e)))"
proof -
  let ?b = "tui_heartbeat K a"
  have b: "rest_ok ?b" using assms by (simp add: rest_ok_cong[OF heartbeat_frame(2)])
  have plain: "rest_ok c" if "rest c = rest ?b" for c using that b rest_ok_cong by blast
  have "rest_ok (fst (key_screen T E K e ?b))"
    using main_rest[OF b] palette_rest[OF b] appearance_rest[OF b] market_rest[OF b] playbooks_rest[OF b]
    by (cases "tu_screen a") (simp_all add: key_screen_def Let_def plain plain_rest)
  then show ?thesis by (simp add: on_key_def Let_def plain)
qed

section \<open>What is shown\<close>

text \<open>The screens that show a board, now or when the palette is left.\<close>

definition reading :: "('s, 'j) app \<Rightarrow> bool" where
  "reading a \<longleftrightarrow> tu_screen a \<in> {ScRead, ScCompose} \<or>
     tu_screen a = ScPalette \<and> tu_palette_return a \<in> {ScRead, ScCompose}"

text \<open>
  The messages shown are the current board's, in one of the states \<open>B\<close> of the service, and one of
  them is selected if there is any.
\<close>

definition fresh :: "'s store_ops \<Rightarrow> env \<Rightarrow> ('s, memory_reporter) bbs set \<Rightarrow> ('s, 'j) app \<Rightarrow> bool" where
  "fresh T E B a \<longleftrightarrow> (\<exists>b \<in> B. \<exists>slug. tu_current_board a = Some slug \<and>
     tu_messages a = fst (apply_control_messages E (board_now T b slug))) \<and>
     (tu_messages a = [] \<or> tu_read_index a < length (tu_messages a))"

definition view :: "('s, 'j) app \<Rightarrow> string option \<times> message list \<times> nat" where
  "view a = (tu_current_board a, tu_messages a, tu_read_index a)"

lemma fresh_cong: "view b = view a \<Longrightarrow> fresh T E B b = fresh T E B a"
  by (simp add: view_def fresh_def)

definition view_ok :: "'s store_ops \<Rightarrow> env \<Rightarrow> ('s, memory_reporter) bbs set \<Rightarrow> ('s, 'j) app \<Rightarrow> bool" where
  "view_ok T E B a \<longleftrightarrow> (reading a \<longrightarrow> fresh T E B a)"

lemma load_board_shows:
  "tu_messages (load_board T E slug a) = fst (apply_control_messages E (board_now T (tu_bbs a) slug))"
  "tu_current_board (load_board T E slug a) = tu_current_board a" "tu_read_index (load_board T E slug a) = tu_read_index a"
  by (simp_all add: load_board_def Let_def split: prod.split)

lemma clamped [simp]: "min i (length xs - Suc 0) < length xs \<longleftrightarrow> xs \<noteq> []" "length xs - Suc 0 < length xs \<longleftrightarrow> xs \<noteq> []"
  by (cases xs; simp)+

lemma refresh_fresh:
  "tu_current_board a = Some slug \<Longrightarrow> tu_bbs a \<in> B \<Longrightarrow> fresh T E B (refresh_current_board T E slug a)"
  unfolding fresh_def
  by (intro conjI bexI[of _ "tu_bbs a"] exI[of _ slug]) (auto simp: refresh_current_board_def Let_def load_board_shows)

lemma open_selected_fresh:
  assumes "tu_bbs (open_selected_board T E a) \<in> B"
  shows "fresh T E B (open_selected_board T E a) \<or> open_selected_board T E a = a"
proof (cases "nth_opt (tu_boards a) (tu_board_index a)")
  case (Some b)
  have "tu_bbs a \<in> B" using assms by simp
  with Some have "fresh T E B (open_selected_board T E a)"
    unfolding fresh_def
    by (intro conjI bexI[of _ "tu_bbs a"] exI[of _ "bd_slug b"]) (auto simp: open_selected_board_def Let_def load_board_shows)
  then show ?thesis ..
qed (simp add: open_selected_board_def)

lemma switch_fresh:
  assumes "fresh T E B a" "tu_bbs a \<in> B"
  shows "fresh T E B (switch_board T E d a)"
proof -
  let ?b = "a\<lparr>tu_board_index := nat ((int (tu_board_index a) + d) mod int (length (tu_boards a)))\<rparr>"
  have "fresh T E B ?b" using assms(1) by (simp add: fresh_def)
  with assms open_selected_fresh[of T E ?b B] show ?thesis by (auto simp: switch_board_def)
qed

lemma say_view [simp]: "view (say s a) = view a" "view (told f ok p) = view (fst p)"
  by (simp_all add: view_def say_def told_def split: prod.split sum.split)

lemma begin_view [simp]: "view (begin_reply E a) = view a" "view (begin_edit a) = view a" "view (begin_draft E K a) = view a"
    "view (toggle_thread a) = view a"
  by (simp_all add: begin_reply_def begin_edit_def begin_draft_def toggle_thread_def view_def say_def Let_def
      split: option.split sum.split)

lemma post_own_view: "view (fst (post_own T E K a body)) = view a"
  by (subst post_own_frame) (simp add: view_def)

lemma post_own_screen: "tu_screen (fst (post_own T E K a body)) = tu_screen a"
  by (subst post_own_frame) simp

lemma delete_fresh:
  assumes "fresh T E B a" "tu_bbs (fst (delete_selected T E K a)) \<in> B"
  shows "fresh T E B (fst (delete_selected T E K a))"
proof (cases "\<exists>m slug. nth_opt (tu_messages a) (tu_read_index a) = Some m \<and> mb_author (msg_body m) = self a \<and>
    tu_current_board a = Some slug")
  case True
  then obtain m slug where m: "nth_opt (tu_messages a) (tu_read_index a) = Some m" "mb_author (msg_body m) = self a"
    "tu_current_board a = Some slug" by blast
  let ?body = "own_body a slug None (CTL @ ''retract:'' @ mid (msg_id m)) (mid (msg_id m)) ''you'' (tk_at K 0)"
  obtain b r where p: "post_own T E K a ?body = (b, r)" by (rule prod.exhaust)
  then have v: "view b = view a" using post_own_view[of T E K a ?body] by simp
  then have "tu_current_board b = Some slug" using m(3) by (simp add: view_def)
  then show ?thesis using m p refresh_fresh[of b slug B T E] fresh_cong[OF v] assms
    by (cases r) (simp_all add: delete_selected_def)
next
  case False
  then have "fst (delete_selected T E K a) = a" by (auto simp: delete_selected_def split: option.splits)
  with assms show ?thesis by simp
qed

lemma compose_fresh:
  assumes "fresh T E B a" "tu_bbs (submit_compose T E K a) \<in> B"
  shows "fresh T E B (submit_compose T E K a)"
proof -
  from assms obtain slug where slug: "tu_current_board a = Some slug" by (auto simp: fresh_def)
  let ?body = "own_body a slug (compose_parent a) (compose_subject a) (tu_compose_body a) (compose_handle a) (tk_at K 0)"
  obtain b r where p: "post_own T E K a ?body = (b, r)" by (rule prod.exhaust)
  then have v: "view b = view a" using post_own_view[of T E K a ?body] by simp
  let ?c = "b\<lparr>tu_compose_subject := [], tu_compose_body := [], tu_compose_field := CfSubject,
      tu_reply_to := None, tu_edit_target := None\<rparr>"
  have "tu_current_board ?c = Some slug" using v slug by (simp add: view_def)
  note shown = refresh_fresh[OF this, of B T E]
  have "fresh T E B (say s a)" "fresh T E B (say s b)" for s
    using assms fresh_cong[of "say s a" a T E B] fresh_cong[of "say s b" a T E B] v by simp_all
  note same = this
  show ?thesis
  proof (cases "trim (tu_compose_body a) = [] \<or> \<not> can_post (tu_moderation a) (self a) (tk_at K 2)")
    case False
    show ?thesis
    proof (cases r)
      case (Inr x)
      with False slug p have eq: "submit_compose T E K a = refresh_current_board T E slug ?c\<lparr>
          tu_status := (if tu_edit_target a \<noteq> None then ''Message edited and signed.'' else ''Message posted and signed.''),
          tu_screen := ScRead\<rparr>" by (simp add: submit_compose_def)
      then have "tu_bbs ?c \<in> B" using assms(2) by simp
      from shown[OF this] show ?thesis unfolding eq by (simp add: fresh_def)
    qed (use False slug p same in \<open>simp add: submit_compose_def\<close>)
  qed (use slug same in \<open>auto simp: submit_compose_def\<close>)
qed

lemma read_view:
  assumes "tu_screen a = ScRead" "fresh T E B a" "tu_bbs a \<in> B" "tu_bbs (key_read T E K k a) \<in> B"
  shows "view_ok T E B (key_read T E K k a)"
proof -
  have moved: "fresh T E B (a\<lparr>tu_read_index := row_moved k (length (tu_messages a)) (tu_read_index a)\<rparr>)"
    using assms(2) row_moved_less by (auto simp: fresh_def)
  have del: "fresh T E B (told f ok (delete_selected T E K a))" if "tu_bbs (fst (delete_selected T E K a)) \<in> B" for f ok
    using delete_fresh[OF assms(2) that] fresh_cong[OF say_view(2)] by blast
  have same: "fresh T E B b" if "view b = view a" for b using that assms(2) fresh_cong by blast
  have deletes: "key_read T E K k a = told ''Delete'' (\<lambda>_. ''Message deleted.'') (delete_selected T E K a) \<Longrightarrow>
      fresh T E B (key_read T E K k a)"
    using del assms(4) by simp
  have "fresh T E B (key_read T E K k a) \<or> tu_screen (key_read T E K k a) = ScBoards"
  proof (cases "\<not> moves k \<and> \<not> letter (CHR ''p'') k \<and> \<not> letter (CHR ''r'') k \<and> \<not> letter (CHR ''e'') k \<and>
      letter (CHR ''d'') k")
    case True
    then show ?thesis using deletes by (simp add: key_read_def)
  next
    case False
    have p: "view (a\<lparr>tu_reply_to := None, tu_edit_target := None, tu_compose_field := CfSubject,
        tu_status := st, tu_screen := ScCompose\<rparr>) = view a" for st by (simp add: view_def)
    have l: "view (leave_to ScBoards k a) = view a" by (simp add: view_def leave_to_def)
    from False show ?thesis
      using moved switch_fresh[OF assms(2,3)] same[OF p] same[OF l] same[OF begin_view(1)] same[OF begin_view(2)]
        same[OF begin_view(3)] same[OF begin_view(4)]
      by (auto simp: key_read_def)
  qed
  then show ?thesis by (auto simp: view_ok_def reading_def)
qed

lemma compose_view:
  assumes "tu_screen a = ScCompose" "fresh T E B a" "tu_bbs (key_compose T E K e a) \<in> B"
  shows "view_ok T E B (key_compose T E K e a)"
proof -
  have same: "fresh T E B b" if "view b = view a" for b using that assms(2) fresh_cong by blast
  have "fresh T E B (key_compose T E K e a)"
  proof (cases "ctrl ''s'' e")
    case True
    with assms(3) show ?thesis by (simp add: key_compose_def compose_fresh[OF assms(2)])
  next
    case False
    then have "view (key_compose T E K e a) = view a"
      by (simp add: key_compose_def compose_typed_def view_def split: key_code.split compose_field.split)
    then show ?thesis by (rule same)
  qed
  then show ?thesis by (simp add: view_ok_def)
qed

text \<open>A conversation is opened on its board, or nothing is.\<close>

lemma open_dm_fresh:
  assumes "tu_bbs (open_dm T E K h a) \<in> B"
  shows "fresh T E B (open_dm T E K h a) \<or> tu_screen (open_dm T E K h a) = tu_screen a"
proof -
  let ?slug = "''dm:'' @ to_lower E (trim_start_char (CHR ''@'') h)"
  let ?b = "if list_ex (\<lambda>b. bd_slug b = ?slug) (res_or [] (svc_list_boards T (tu_bbs a) READ)) then a
    else a\<lparr>tu_bbs := fst (svc_create_board T mr_report (tk_at K 1) (tu_bbs a) (role_caps Sysop)
      (board_new ?slug (''DM: @'' @ to_lower E (trim_start_char (CHR ''@'') h)) (ident (generate E (tk_rnd K 0))) (tk_at K 0)))\<rparr>"
  obtain c where c: "c = refresh_boards T ?b" by blast
  then have scr: "tu_screen c = tu_screen a" by simp
  have eq: "open_dm T E K h a = (case position (\<lambda>b. bd_slug b = ?slug) (tu_boards c) of
      None \<Rightarrow> c | Some i \<Rightarrow> open_selected_board T E (c\<lparr>tu_board_index := i\<rparr>))"
    by (simp only: open_dm_def Let_def c)
  show ?thesis
  proof (cases "position (\<lambda>b. bd_slug b = ?slug) (tu_boards c)")
    case (Some i)
    then have op: "open_dm T E K h a = open_selected_board T E (c\<lparr>tu_board_index := i\<rparr>)" by (simp only: eq option.case)
    then show ?thesis using open_selected_fresh[of T E "c\<lparr>tu_board_index := i\<rparr>" B] scr assms by auto
  next
    case None
    then have "open_dm T E K h a = c" by (simp only: eq option.case)
    with scr show ?thesis by simp
  qed
qed

lemma goto_screen [simp]: "tu_screen (goto T s a) = s"
  by (simp add: goto_def)

lemma menu_not_reading: "(h, l, s) \<in> set MENU \<Longrightarrow> s \<notin> {ScRead, ScCompose, ScPalette}"
  by (auto simp: MENU_def)

lemma menu_target: "i < length MENU \<Longrightarrow> snd (snd (MENU ! i)) \<notin> {ScRead, ScCompose, ScPalette}"
  using menu_not_reading[of "fst (MENU ! i)" "fst (snd (MENU ! i))" "snd (snd (MENU ! i))"] nth_mem[of i MENU] by simp

lemma main_view:
  assumes "tu_screen a = ScMain" "tu_menu_index a < length MENU"
  shows "view_ok T E B (fst (key_main T k a))"
proof -
  have "s \<notin> {ScRead, ScCompose, ScPalette}" if "find P MENU = Some (h, l, s)" for P h l s
  proof -
    from that have "(h, l, s) \<in> set MENU" by (metis find_Some_iff nth_mem)
    then show ?thesis by (rule menu_not_reading)
  qed
  then have "tu_screen (fst (key_main T k a)) \<notin> {ScRead, ScCompose, ScPalette}"
    using assms menu_target[OF assms(2)]
    by (auto simp: key_main_def Let_def quit_def split: key_code.split option.split prod.split)
  then show ?thesis by (simp add: view_ok_def reading_def)
qed

lemma palette_view:
  assumes "tu_screen a = ScPalette" "view_ok T E B a"
  shows "view_ok T E B (key_palette T k a)"
proof -
  have target: "s \<notin> {ScRead, ScCompose, ScPalette}" if "nth_opt (filtered_palette_entries a) i = Some (h, l, s)" for i h l s
  proof -
    from that have "(h, l, s) \<in> set (filtered_palette_entries a)" by (auto simp: nth_opt_def split: if_splits) (metis nth_mem)
    then have "(h, l, s) \<in> set MENU" by (auto simp: filtered_palette_entries_def Let_def)
    then show ?thesis by (rule menu_not_reading)
  qed
  have returned: "view_ok T E B (a\<lparr>tu_screen := tu_palette_return a\<rparr>)"
    using assms by (auto simp: view_ok_def reading_def fresh_def)
  have typing: "view_ok T E B b" if "view b = view a" "tu_screen b = ScPalette" "tu_palette_return b = tu_palette_return a" for b
    using assms that fresh_cong[OF that(1), of T E B] by (simp add: view_ok_def reading_def)
  have gone: "view_ok T E B (goto T s a)" if "s \<notin> {ScRead, ScCompose, ScPalette}" for s
    using that by (simp add: view_ok_def reading_def)
  show ?thesis using returned target gone
    by (auto simp: key_palette_def assms(2) split: key_code.split option.split intro!: typing) (simp_all add: view_def assms(1))
qed


text \<open>Every other screen is left for the main menu only, but for a board or a conversation that is opened.\<close>

lemma record_screen:
  "tu_screen (fst (moderate_selected E K s a)) = tu_screen a" "tu_screen (fst (issue_credential E K claim a)) = tu_screen a"
  "tu_screen (fst (decide_action E K i v why a)) = tu_screen a" "tu_screen (fst (rotate_identity E K a)) = tu_screen a"
  "tu_screen (toggle_creator_mode a) = tu_screen a" "tu_screen (submit_decision E K a) = tu_screen a"
  "tu_screen (decide_selected E K v why ok a) = tu_screen a" "tu_screen (decision_typed k a) = tu_screen a"
  "tu_screen (directory_cursor E k a) = tu_screen a"
  by (simp_all add: moderate_selected_def issue_credential_def decide_action_def rotate_identity_def
      toggle_creator_mode_def submit_decision_def decide_selected_def decision_typed_def directory_cursor_def
      Let_def say_def told_def
      split: sum.split option.split prod.split decision_field.split)

lemma run_screen:
  fixes a :: "('s, 'j) app"
  shows "tu_screen (tui_run_playbook T E K a) = tu_screen a" "tu_screen (advance_run T E K a) = tu_screen a"
    "tu_screen (approve_current_gate T E K why a) = tu_screen a"
proof -
  have drive: "tu_screen (drive_and_post T E K r b) = tu_screen b" for r and b :: "('s, 'j) app"
    by (simp add: drive_and_post_def Let_def tui_record_completion_def tui_post_run_progress_def
        split: prod.split option.split)
  then show "tu_screen (tui_run_playbook T E K a) = tu_screen a"
    by (simp add: tui_run_playbook_def split: sum.split)
  have adv: "tu_screen (advance_run T E K b) = tu_screen b" for b :: "('s, 'j) app"
    by (simp add: advance_run_def drive split: option.split)
  then show "tu_screen (advance_run T E K a) = tu_screen a" .
  show "tu_screen (approve_current_gate T E K why a) = tu_screen a"
  proof (cases "Option.bind (tu_run a) gate_action_id")
    case (Some i)
    obtain b r where p: "decide_action E K i Approve why a = (b, r)" by (rule prod.exhaust)
    then have "tu_screen b = tu_screen a" using record_screen(3)[of E K i Approve why a] by simp
    with Some p adv show ?thesis by (cases r) (simp_all add: approve_current_gate_def)
  qed (simp add: approve_current_gate_def)
qed

lemma post_screen:
  "tu_screen (fst (post_digest T E K a)) = tu_screen a" "tu_screen (send_selected_draft T E K a) = tu_screen a"
proof -
  have "tu_screen (fst (case post_own T E K a body of (b, Inl e) \<Rightarrow> (b, Inl (f e)) | (b, Inr x) \<Rightarrow> (b, Inr ()))) = tu_screen a"
    for body and f :: "error \<Rightarrow> string"
    using post_own_screen[of T E K a body] by (auto split: prod.split sum.split)
  then show "tu_screen (fst (post_digest T E K a)) = tu_screen a" by (simp add: post_digest_def split: prod.split)
  show "tu_screen (send_selected_draft T E K a) = tu_screen a"
    by (simp add: send_selected_draft_def split: option.split prod.split sum.split)
qed

definition home_or :: "screen \<Rightarrow> ('s, 'j) app \<Rightarrow> bool" where
  "home_or s a \<longleftrightarrow> tu_screen a = s \<or> tu_screen a = ScMain"

lemma home_or_keeps [simp]: "home_or (tu_screen a) a" "home_or (tu_screen a) (leave_to ScMain k a)"
  by (simp_all add: home_or_def leave_to_def)

lemma home_or_same: "tu_screen b = tu_screen a \<Longrightarrow> home_or (tu_screen a) b"
  by (simp add: home_or_def)

lemma panels_home:
  "home_or (tu_screen a) (key_splash a)" "home_or (tu_screen a) (key_appearance k a)" "home_or (tu_screen a) (key_panel k a)"
  "home_or (tu_screen a) (key_arena k a)" "home_or (tu_screen a) (key_pods E K k a)"
  "home_or (tu_screen a) (key_approvals E K k a)" "home_or (tu_screen a) (key_budget k a)"
  "home_or (tu_screen a) (key_playbooks T E K k a)" "home_or (tu_screen a) (key_digest T E K k a)"
  "home_or (tu_screen a) (key_passport E K k a)" "home_or (tu_screen a) (key_sysop E K k a)"
  by (simp_all add: key_appearance_def key_panel_def key_arena_def key_pods_def key_approvals_def key_budget_def
      key_playbooks_def key_digest_def key_passport_def key_sysop_def Let_def home_or_same record_screen run_screen
      post_screen propose_action_def)
    (simp_all add: home_or_def key_splash_def)

lemma prompts_home:
  "home_or (tu_screen a) (key_drafts T E K k a)" "home_or (tu_screen a) (key_decisions E K e a)"
  "home_or (tu_screen a) (key_directory E K k a)" "home_or (tu_screen a) (key_market k a)"
  "home_or (tu_screen a) (key_federation K k a)" "home_or (tu_screen a) (key_collab K k a)"
proof -
  note ops = Let_def home_or_same record_screen post_screen
  show "home_or (tu_screen a) (key_drafts T E K k a)"
    by (simp add: key_drafts_def ops split: key_code.split option.split)
  show "home_or (tu_screen a) (key_decisions E K e a)" by (simp add: key_decisions_def ops split: key_code.split)
  show "home_or (tu_screen a) (key_directory E K k a)" by (simp add: key_directory_def ops split: key_code.split)
  show "home_or (tu_screen a) (key_market k a)" by (simp add: key_market_def ops split: option.split)
  show "home_or (tu_screen a) (key_federation K k a)" by (simp add: key_federation_def ops split: key_code.split)
  show "home_or (tu_screen a) (key_collab K k a)" by (simp add: key_collab_def ops split: key_code.split)
qed

lemma home_view:
  assumes "home_or (tu_screen a) b" "tu_screen a \<notin> {ScRead, ScCompose, ScPalette}"
  shows "view_ok T E B b"
  using assms by (auto simp: home_or_def view_ok_def reading_def)

lemma boards_view:
  assumes "tu_screen a = ScBoards" "tu_bbs a \<in> B"
  shows "view_ok T E B (key_boards T E k a)"
proof -
  have "fresh T E B (open_selected_board T E a) \<or> open_selected_board T E a = a"
    by (rule open_selected_fresh) (simp add: assms(2))
  then show ?thesis using assms(1)
    by (auto simp: key_boards_def view_ok_def reading_def leave_to_def)
qed

lemma say_fresh [simp]: "fresh T E B (say s a) = fresh T E B a"
  by (rule fresh_cong) simp

lemma say_view_ok [simp]: "view_ok T E B (say s a) = view_ok T E B a"
  unfolding view_ok_def say_fresh by (simp add: reading_def say_def)

lemma idle_view: "tu_screen a \<notin> {ScRead, ScCompose, ScPalette} \<Longrightarrow> view_ok T E B a"
  by (auto simp: view_ok_def reading_def)

lemma talk_view:
  "tu_screen b \<notin> {ScRead, ScCompose, ScPalette} \<Longrightarrow> tu_bbs (open_dm T E K h b) \<in> B \<longrightarrow> view_ok T E B (open_dm T E K h b)"
  using open_dm_fresh[of T E K h b B] by (auto simp: view_ok_def reading_def)

lemma who_view:
  assumes "tu_screen a = ScWho" "tu_bbs (key_who T E K k a) \<in> B"
  shows "view_ok T E B (key_who T E K k a)"
proof -
  have "tu_bbs (key_who T E K k a) \<in> B \<longrightarrow> view_ok T E B (key_who T E K k a)"
    using assms(1) by (simp add: key_who_def talk_view idle_view leave_to_def split: option.split)
  with assms(2) show ?thesis by blast
qed

lemma dm_view:
  assumes "tu_screen a = ScDm" "tu_bbs (key_dm T E K k a) \<in> B"
  shows "view_ok T E B (key_dm T E K k a)"
proof -
  have "tu_bbs (key_dm T E K k a) \<in> B \<longrightarrow> view_ok T E B (key_dm T E K k a)"
    using assms(1)
    by (simp add: key_dm_def Let_def talk_view idle_view leave_to_def split: key_code.split option.split)
  with assms(2) show ?thesis by blast
qed

lemma view_only: "view b = view a \<Longrightarrow> reading b \<longrightarrow> reading a \<Longrightarrow> view_ok T E B a \<Longrightarrow> view_ok T E B b"
  unfolding view_ok_def using fresh_cong[of b a T E B] by blast

lemma screen_view:
  assumes ok: "view_ok T E B a" "tu_menu_index a < length MENU" and B: "tu_bbs a \<in> B"
    "tu_bbs (fst (key_screen T E K e a)) \<in> B"
  shows "view_ok T E B (fst (key_screen T E K e a))"
proof (cases "tu_screen a \<in> {ScMain, ScBoards, ScRead, ScCompose, ScDm, ScWho, ScPalette, ScGoodbye}")
  case True
  have fresh: "fresh T E B a" if "tu_screen a \<in> {ScRead, ScCompose}" using that ok(1) by (auto simp: view_ok_def reading_def)
  note to = main_view[OF _ ok(2)] boards_view[OF _ B(1)] read_view compose_view dm_view who_view palette_view[OF _ ok(1)]
  have "view_ok T E B (fst (quit a))" if "tu_screen a = ScGoodbye"
    using that by (intro idle_view) (simp add: quit_def)
  with True B fresh show ?thesis by (auto simp: key_screen_def Let_def intro: to)
next
  case False
  have home: "home_or (tu_screen a) b \<Longrightarrow> view_ok T E B b" for b using False by (intro home_view[of a]) auto
  from False show ?thesis
    by (cases "tu_screen a") (simp_all add: key_screen_def Let_def panels_home[THEN home] prompts_home[THEN home])
qed

lemma on_key_view:
  assumes "view_ok T E B a" "tu_menu_index a < length MENU" "tu_bbs a \<in> B" "tu_bbs (fst (on_key T E a (K, e))) \<in> B"
  shows "view_ok T E B (fst (on_key T E a (K, e)))"
proof -
  let ?b = "tui_heartbeat K a"
  have same: "view ?b = view a" "reading ?b = reading a" "tu_menu_index ?b = tu_menu_index a"
    by (simp_all add: tui_heartbeat_def view_def reading_def)
  then have b: "view_ok T E B ?b" using assms(1) view_only[of ?b a] by simp
  have "view (fst (quit ?b)) = view ?b" "reading (fst (quit ?b)) = reading ?b"
    by (simp_all add: quit_def view_def reading_def)
  with b have stop: "view_ok T E B (fst (quit ?b))" using view_only by blast
  have "view (open_palette ?b) = view ?b" by (simp add: open_palette_def view_def)
  moreover have "reading (open_palette ?b) \<longrightarrow> reading ?b" by (auto simp: open_palette_def reading_def)
  ultimately have pal: "view_ok T E B (open_palette ?b)" using b view_only by blast
  show ?thesis using stop pal screen_view[OF b] assms same by (simp add: on_key_def Let_def split: if_splits)
qed

section \<open>A session\<close>

definition session_ok :: "'s store_ops \<Rightarrow> env \<Rightarrow> ('s, memory_reporter) bbs set \<Rightarrow> ('s, 'j) app \<Rightarrow> bool" where
  "session_ok T E B a \<longleftrightarrow> rest_ok a \<and> view_ok T E B a \<and> tu_bbs a \<in> B"

lemma view_ok_mono: "B \<subseteq> C \<Longrightarrow> view_ok T E B a \<Longrightarrow> view_ok T E C a"
  by (auto simp: view_ok_def fresh_def)

lemma tui_step_ok:
  assumes "session_ok T E B a"
  shows "session_ok T E (insert (tu_bbs (tui_step T E a ev)) B) (tui_step T E a ev)"
proof (cases ev)
  case (TKey K e)
  let ?C = "insert (tu_bbs (fst (on_key T E a (K, e)))) B"
  have "view_ok T E ?C a" "tu_menu_index a < length MENU" "tu_bbs a \<in> ?C"
    using assms view_ok_mono[of B ?C T E a] by (auto simp: session_ok_def rest_ok_def)
  then have "view_ok T E ?C (fst (on_key T E a (K, e)))" by (rule on_key_view) simp
  with TKey assms on_key_rest[of a T E K e] show ?thesis by (simp add: session_ok_def)
next
  case (TOthers s p)
  let ?b = "a\<lparr>tu_bbs := (tu_bbs a)\<lparr>bbs_store := s\<rparr>, tu_presence := p\<rparr>"
  have "rest ?b = rest a" "view ?b = view a" "reading ?b \<longrightarrow> reading a" by (simp_all add: rest_def view_def reading_def)
  with assms rest_ok_cong[of ?b a] view_only[of ?b a T E B] view_ok_mono[of B "insert (tu_bbs ?b) B" T E ?b] TOthers
  show ?thesis by (auto simp: session_ok_def)
qed

lemma session_run_ok:
  assumes "session_ok T E {tu_bbs a} a"
  shows "session_ok T E {tu_bbs (tui_session_run T E a pre) | pre. prefix pre evs} (tui_session_run T E a evs)"
proof (induction evs rule: rev_induct)
  case Nil
  show ?case using assms by (simp add: tui_session_run_def)
next
  case (snoc ev evs)
  have "{tu_bbs (tui_session_run T E a pre) | pre. prefix pre (evs @ [ev])} =
      insert (tu_bbs (tui_step T E (tui_session_run T E a evs) ev)) {tu_bbs (tui_session_run T E a pre) | pre. prefix pre evs}"
    by (auto simp: tui_session_run_def intro: exI[of _ "evs @ [ev]"])
  with tui_step_ok[OF snoc] show ?case by (simp add: tui_session_run_def)
qed

text \<open>The seeded market has no negative price.\<close>

lemma update_first_all: "list_all P xs \<Longrightarrow> P y \<Longrightarrow> list_all P (update_first q (\<lambda>_. y) xs)"
  by (induction xs) auto

lemma publish_prices:
  assumes "prices_ok m" "0 \<le> sint (ls_price (li_body l))"
  shows "prices_ok (res_or m (market_publish E m l))"
  using assms update_first_all[of "\<lambda>l. 0 \<le> sint (ls_price (li_body l))" "listings m" l]
  by (cases "listing_verify E l") (simp_all add: market_publish_def res_or_def prices_ok_def Let_def)

lemma seeded_prices: "prices_ok (tui_seed_market E rnd clk)"
proof -
  have fold: "prices_ok (foldl f m xs)"
    if "\<And>m x. x \<in> set xs \<Longrightarrow> prices_ok m \<Longrightarrow> prices_ok (f m x)" "prices_ok m" for f m and xs :: "'a list"
    using that by (induction xs arbitrary: m) auto
  have "0 \<le> sint price" if "(n, kind, sku, title, desc, price) \<in> set (enumerate 0 SEED_LISTINGS)"
    for n kind sku title desc price
    using that by (auto simp: SEED_LISTINGS_def)
  then show ?thesis unfolding tui_seed_market_def
    by (intro fold) (auto simp: Let_def listing_sign_def publish_prices, simp add: prices_ok_def market_new_def)
qed

lemma app_new_ok: "session_ok T E {tu_bbs (app_new T E V rnd clk K store presence)} (app_new T E V rnd clk K store presence)"
proof -
  let ?a = "app_new T E V rnd clk K store presence"
  have "tu_menu_index ?a = 0" "tu_appearance_index ?a = 0" "tu_credits ?a = 100"
      "tu_market ?a = tui_seed_market E rnd clk" "tu_run ?a = None" "tu_screen ?a = ScSplash"
    by (simp_all add: app_new_def Let_def refresh_boards_def tui_heartbeat_def split: prod.split)
  then show ?thesis by (simp add: session_ok_def rest_ok_def seeded_prices idle_view)
qed

text \<open>
  A session from its start on, through any keys and any changes the other sessions make to the store
  in between: the menu and theme rows stay inside their lists, the balance stays between nothing and
  the hundred credits it starts with, a run is well formed, and when the reading or the composing
  screen is up (or the palette over it), the messages shown are those of the board that a post would
  go to, control messages applied, as its store had them at some point of the session, with a message
  selected if there is one.
\<close>

theorem session_stays_sound:
  "let at = tui_session_run T E (app_new T E V rnd clk K store presence); a = at evs in
    tu_menu_index a < length MENU \<and> tu_appearance_index a < length ALL_THEMES \<and>
    0 \<le> sint (tu_credits a) \<and> sint (tu_credits a) \<le> 100 \<and>
    (case tu_run a of None \<Rightarrow> True | Some r \<Rightarrow> run_ok r) \<and>
    (reading a \<longrightarrow> (\<exists>pre slug. prefix pre evs \<and> tu_current_board a = Some slug \<and>
        tu_messages a = fst (apply_control_messages E (board_now T (tu_bbs (at pre)) slug))) \<and>
      (tu_messages a = [] \<or> tu_read_index a < length (tu_messages a)))"
  using session_run_ok[OF app_new_ok[of T E V rnd clk K store presence], of evs]
  unfolding Let_def session_ok_def rest_ok_def view_ok_def fresh_def by blast

end
