(* ===== verification/Spec2Isabelle.thy ===== *)
theory Spec2Isabelle
  imports Approval Moderation Credential Decision Draft Market Redb Ratelimit
    Wallet Playbook Presence Postguard Rvf Federation_Props Web_Pods Web_Runs Podrank Arena Web_Bridges Web_Boards Web_Control Mcp_Client Adapters Tui_Session
begin

text \<open>
  AgentBBS is a bulletin board for people and agents: signed, content-addressed messages in
  boards, replicated between nodes, with the controls around agents (approvals, moderation,
  budgets, reputation, credentials), an arena for benchmark runs, chat bridges, and a web
  server over all of it. This development models its own crates, under
  \<open>src/crates/agentbbs-*\<close>, and proves what makes each part correct and what holds
  of the parts together.

  \<^bold>\<open>Conventions.\<close> A struct is a record, an enum a datatype, a method a
  definition of the same name with a prefix where two types share one; \<open>Result\<close> is a
  sum with the error at the left. Integers that can wrap are words, sizes and times naturals
  or integers where the code cannot overflow them. Strings are byte lists in UTF-8. A
  \<open>HashMap\<close> is an association list without an order (\<open>Hash_Map\<close>); code that
  walks one takes the order as an argument and the results are proved for every order. A
  \<open>BTreeMap\<close> is a map walked in key order (\<open>BTree_Map\<close>). Doubles are their 64
  bits with rounding to nearest (\<open>Float64\<close>), singles their 32 (\<open>Float32\<close>). Handlers that
  hold locks run as one atomic step, and the clock readings of a call are arguments.

  \<^bold>\<open>Parameters.\<close> Code that is not in the repository is an argument:
  \<^item> \<open>env\<close> (\<open>Identity\<close>): Ed25519, BLAKE3, hexadecimal, Unicode lower casing and
    the rendering of a time. What is assumed of them is named where it is used, such as
    \<open>sig_ok\<close> (a signature verifies under its own key) and \<open>hex_ok\<close>; no theorem
    assumes that hashes do not collide unless it says so;
  \<^item> \<open>wire\<close> (\<open>Envelope\<close>) and \<open>serde\<close> (\<open>Redb\<close>): JSON encodings with the
    round trip they promise, which \<open>Encoding\<close> instantiates;
  \<^item> \<open>mac_env\<close> (\<open>Web_Auth\<close>): HMAC, SHA-256 and RFC 3339 times; the JSON and
    number rendering of \<open>Pod_Events\<close>; the process environment, the clock readings and
    the JWT check of \<open>Web_Bridges\<close>; the language-model gateway of \<open>Web_Agent_Reply\<close>;
  \<^item> the JSON text of a message and the sink of \<open>Mcp\<close>; the processes that \<open>Adapters\<close> and
    the terminal client run;
  \<^item> \<open>store_ops\<close> (\<open>Store\<close>): the trait \<open>Store\<close>, whose contract is the locale
    \<open>store_contract\<close>; the memory store and the durable one both fulfil it.

  \<^bold>\<open>Foundations.\<close> \<open>Prelude\<close> has the error type of \<open>error.rs\<close>, the sum
  monad, fields with length prefixes and their injectivity, sorting, and the interfaces of the
  logs: \<open>verified_log\<close> (a log that files only what verifies) and \<open>first_wins\<close> (a log
  keyed by an id that keeps the first). \<open>Signed\<close> has the interface \<open>signed_record\<close> of
  everything signed over tagged fields. \<open>Rust_Str\<close>, \<open>Str_Split\<close> and \<open>Float_Text\<close> are
  what the code uses of the standard library.

  \<^bold>\<open>Core\<close> (\<open>agentbbs-core/src\<close>; each theory has the name of its file).
  \<^item> \<open>Identity\<close>, \<open>Caps\<close>, \<open>Board\<close> (with personas), \<open>Report\<close>: keys, capability
    bits, messages with their signing bytes and ids, the bounded reporter;
  \<^item> \<open>Store\<close>, \<open>Memory_Store\<close>, \<open>Redb\<close>: the trait, the memory store, and the durable
    store as tables under a fault pattern. Both refine one abstract log, with or without
    faults (\<open>redb_crash_consistent\<close>, \<open>stores_agree\<close>);
  \<^item> \<open>Service\<close>: \<open>Bbs\<close> over any store; what it serves is authentic and a locked board
    stays as it is. \<open>Tools\<close>: the tool layer of agents over the service; what a sent draft
    posts is pinned to the draft, its tag and the scan;
  \<^item> \<open>Approval\<close>, \<open>Moderation\<close>, \<open>Rotation\<close>, \<open>Credential\<close>, \<open>Decision\<close>, \<open>Market\<close>:
    logs of signed records and the questions asked of them; \<open>Draft\<close>: the inbox. The
    resolution of a rotated key follows at most 64 links, the bound of the code;
  \<^item> \<open>Playbook\<close>, \<open>Pod\<close>: state machines of workflow runs and agent pods;
  \<^item> \<open>Budget\<close>, \<open>Wallet\<close>, \<open>Ratelimit\<close>, \<open>Reputation\<close>, \<open>Presence\<close>, \<open>Postguard\<close>,
    \<open>Rvf\<close>: ledgers, the limiter at its 64 and 32 bits, track records with the Wilson bound
    in double arithmetic, membership, the content scan, and the vector file format;
  \<^item> \<open>Rvf_Search\<close>: the exact cosine search over single precision vectors and the hashing index,
    which agrees with it when its budget is full.

  \<^bold>\<open>Federation\<close> (\<open>agentbbs-federation/src\<close>). \<open>Peer\<close>, \<open>Webtrust\<close>, \<open>Pii\<close>,
  \<open>Envelope\<close> and \<open>Federation\<close>: the peer book, endorsements with the bounded
  breadth-first search (equal to shortest paths), scrubbing, sealing, and the replication
  engine; \<open>Federation_Props\<close> has its guarantees: trust is granted only locally; a refused
  ingest leaves no trace in any store, but for the earlier messages of a verified snapshot when a
  later one is refused; and a round of anti-entropy, with the envelopes that \<open>fed_broadcast\<close> hands
  to the transport carried between two nodes over any stores that fulfil the contract, converges.
  \<open>Adapters\<close>: the arguments given to external programs, what is made of their results, and the
  loopback transport.

  \<^bold>\<open>Arena\<close> (\<open>agentbbs-arena/src\<close>). \<open>Submission\<close> (benchmarks, signed runs,
  leaderboards), \<open>Pareto\<close> (dominance with its slack and the tiers), \<open>Podrank\<close>,
  \<open>Retort\<close> and \<open>Retort_Board\<close> (the Retort track: aggregation equal to a reference by
  stack, ingestion, the board as a Pareto order), \<open>Arena\<close> (the catalogue, intake and
  harness reports). The tier loop ends because each round removes a point or its guard stops
  it; no fuel is used.

  \<^bold>\<open>Bridges\<close> (\<open>agentbbs-bridge/src\<close> and the webhooks of the web server).
  \<open>Bridge\<close>: payloads and plans of outbound posts, the session window, inbound signing, the
  IRC connection over the lines it reads. \<open>Web_Bridges\<close>: the Slack, WhatsApp and Teams
  webhooks and the mirror to WhatsApp.

  \<^bold>\<open>Model Context Protocol\<close> (\<open>agentbbs-mcp/src\<close>). \<open>Mcp\<close>: JSON-RPC messages, the
  server, its tools and the line loop; every post of a session, however long, is signed by the
  server's key and needs its capability, and a stretch as long as the limiter's window has at most
  twice the quota of them.
  \<open>Mcp_Client\<close>: the client's side.

  \<^bold>\<open>Web server\<close> (\<open>agentbbs-web/src\<close>). \<open>Web_Auth\<close>: role claims, administration
  proofs and their replay guard, the admission of agent replies. \<open>Web_Posts\<close>: sessions, the
  limiter and the two ways to post; \<open>Web_Boards\<close>: boards and personas, whose histories are
  simulated by requests to the service; \<open>Web_Control\<close>: the routes in front of the logs of signed
  records and the budget. \<open>Pod_Events\<close> and \<open>Web_Pods\<close>: signed runtime callbacks and the pods
  they act on, with concurrent spawns as interleaved atomic steps. \<open>Web_Runs\<close>: playbook runs,
  the messages their threads are given and their completion records; the loop that drives a run
  makes at most one call per step and needs no fuel. \<open>Web_Agents\<close>, \<open>Web_Agent_Reply\<close>: the
  identities of built-in agents and their answers. Of \<open>Web_Bridges\<close> above, a history theorem says
  what any sequence of webhooks leaves on the boards.

  \<^bold>\<open>Terminal client\<close> (\<open>agentbbs-tui/src\<close>). \<open>Tui_Thread\<close>: how a board is read, with its
  control messages. \<open>Tui\<close> (the state of a session, boards, threads and conversations),
  \<open>Tui_Write\<close> (composing, drafts, decisions), \<open>Tui_Work\<close> (the other panels), \<open>Tui_Keys\<close> (what
  each key does on each screen) and \<open>Tui_Start\<close> (seeds and the event loop) have the operations of
  \<open>app.rs\<close> and \<open>input.rs\<close>. \<open>Tui_Frame\<close> says what they leave alone, \<open>Tui_Props\<close> what a key can
  write to the store and sign, \<open>Tui_Session\<close> what holds throughout a session.

  \<^bold>\<open>This theory\<close> joins the service and the federator over one store into a node and
  shows that what a node serves is authentic whatever requests and bytes it handles.

  \<^bold>\<open>Deviations shown.\<close> Some theorems state what the code does where that is less
  than its documentation says: among them \<open>approval_follows_claimed_id\<close>,
  \<open>agent_reply_replayable\<close>, \<open>pods_never_succeed\<close>, \<open>unsigned_cost_orders_board\<close>,
  \<open>ingestion_stops_at_excluded_stack\<close>, \<open>whatsapp_sender_is_published\<close>,
  \<open>quota_is_per_spelling\<close>, \<open>quota_spent_by_anyone\<close>, \<open>foreign_retraction_revives\<close>,
  \<open>broadcast_stops_at_failure\<close>, \<open>memory_search_unguarded\<close>, \<open>unknown_tool_unreported\<close>,
  \<open>response_id_unchecked\<close> and \<open>large_vector_scores_nan\<close>.

  \<^bold>\<open>Not modelled.\<close> The late.sh application the board was forked from
  (\<open>late-*\<close>, \<open>vendor\<close>), a separate product; drawing in the terminal client; the command
  line, key files and SSH server (\<open>agentbbs\<close>): input and output; the WebAssembly host
  (\<open>agentbbs-wasm\<close>), whose behaviour is that of wasmtime; the sockets of \<open>tcp.rs\<close> and of the
  bridge programs; of the arena, starting the harness process; of the web server, its seeds and
  static pages, the handlers of the arena, market, reports and doors, which render what a component
  holds, the calls to the pods gateway and the collaboration routes that run a program.
\<close>

section \<open>A node: service and federation over one store\<close>

text \<open>
  A deployed node gives its service and its federator the same store and reporter. A step of
  the node is a request to the service or bytes from the network, in any order.
\<close>

datatype node_event =
    Request time svc_req
  | Inbound time bytes
  | Endorse endorsement
  | Promote nat
  | Add_peer peer

definition node_service :: "('s, 'r) federator \<Rightarrow> ('s, 'r) bbs" where
  "node_service f = \<lparr>bbs_store = fd_store f, bbs_reporter = fd_reporter f\<rparr>"

fun node_step :: "'s store_ops \<Rightarrow> ('r \<Rightarrow> event \<Rightarrow> 'r result) \<Rightarrow> env \<Rightarrow> wire \<Rightarrow> ('s, 'r) federator
    \<Rightarrow> node_event \<Rightarrow> ('s, 'r) federator" where
  "node_step T R E W f (Request now req) =
     (let b = svc_step T R E (node_service f) (now, req)
      in f\<lparr>fd_store := bbs_store b, fd_reporter := bbs_reporter b\<rparr>)"
| "node_step T R E W f (Inbound now b) = fst (ingest T R E W now f b)"
| "node_step T R E W f (Endorse e) = fst (fed_endorse E f e)"
| "node_step T R E W f (Promote M) = fst (promote_via_trust E f M)"
| "node_step T R E W f (Add_peer p) = fed_add_peer E f p"

text \<open>A write of the node: a board, a persona, or a message that verifies.\<close>

definition clean_write :: "env \<Rightarrow> store_op \<Rightarrow> bool" where
  "clean_write E q \<longleftrightarrow> (\<forall>m. q = PutMessage m \<longrightarrow> message_verify E m = Inr ())"

lemma justified_clean: "justified T E s cs q \<Longrightarrow> clean_write E q"
  by (auto simp: clean_write_def elim: justified.cases)

lemma fed_writes_clean: "q \<in> fed_writes E \<Longrightarrow> clean_write E q"
  by (auto simp: clean_write_def fed_writes_def)

lemma node_step_writes:
  "\<exists>qs. writes T (fd_store f) qs (fd_store (node_step T R E W f ev)) \<and> list_all (clean_write E) qs"
proof (cases ev)
  case (Request now req)
  from svc_step_effect[of T R E "node_service f" now req] show ?thesis
  proof
    assume "bbs_store (svc_step T R E (node_service f) (now, req)) = bbs_store (node_service f)"
    then show ?thesis
      by (intro exI[of _ "[]"]) (simp add: Request node_service_def Let_def)
  next
    assume "\<exists>q. store_exec T (bbs_store (node_service f)) q =
        (bbs_store (svc_step T R E (node_service f) (now, req)), Done) \<and>
        justified T E (bbs_store (node_service f)) (req_caps req) q"
    then obtain q where q: "store_exec T (bbs_store (node_service f)) q =
        (bbs_store (svc_step T R E (node_service f) (now, req)), Done)"
        "justified T E (bbs_store (node_service f)) (req_caps req) q"
      by (elim exE conjE)
    moreover have "clean_write E q" by (rule justified_clean[OF q(2)])
    ultimately show ?thesis
      by (intro exI[of _ "[q]"]) (simp add: Request node_service_def Let_def)
  qed
next
  case (Inbound now b)
  then show ?thesis
    using ingest_writes[of T f R E W now b] fed_writes_clean
    by (fastforce simp: list_all_iff)
next
  case (Endorse e)
  then show ?thesis
    by (intro exI[of _ "[]"]) (simp add: fed_endorse_def split: sum.split)
next
  case (Promote M)
  then show ?thesis
    by (intro exI[of _ "[]"]) (simp add: promote_via_trust_def Let_def split_beta)
next
  case (Add_peer p)
  then show ?thesis
    by (intro exI[of _ "[]"]) (simp add: fed_add_peer_def)
qed

context bbs_over_store
begin

lemma writes_authentic:
  assumes "writes T s qs s'" "refines s a" "list_all (clean_write E) qs"
    and "\<forall>m \<in> set (as_log a). message_verify E m = Inr ()"
  shows "\<exists>a'. refines s' a' \<and> (\<forall>m \<in> set (as_log a'). message_verify E m = Inr ())"
  using assms
proof (induction qs arbitrary: s a)
  case Nil
  then show ?case by auto
next
  case (Cons q qs)
  then obtain s1 where s1: "store_exec T s q = (s1, Done)" "writes T s1 qs s'" by auto
  have "\<forall>m \<in> set (as_log (fst (abs_exec a q))). message_verify E m = Inr ()"
    using Cons.prems(3,4) by (cases q) (auto simp: clean_write_def log_put_def)
  with Cons.IH[OF s1(2) written[OF Cons.prems(2) s1(1)]] Cons.prems(3) show ?case by simp
qed

lemma node_authentic:
  assumes "refines (fd_store f) a" "\<forall>m \<in> set (as_log a). message_verify E m = Inr ()"
  shows "\<exists>a'. refines (fd_store (foldl (node_step T R E W) f evs)) a' \<and>
    (\<forall>m \<in> set (as_log a'). message_verify E m = Inr ())"
  using assms
proof (induction evs arbitrary: f a)
  case Nil
  then show ?case by auto
next
  case (Cons ev evs)
  obtain qs where "writes T (fd_store f) qs (fd_store (node_step T R E W f ev))"
      "list_all (clean_write E) qs"
    using node_step_writes by blast
  from writes_authentic[OF this(1) Cons.prems(1) this(2) Cons.prems(2)] Cons.IH show ?case by auto
qed

end

section \<open>Properties\<close>

text \<open>
  Property C1. A node never serves a forged message: over any store that fulfils the contract,
  whatever requests its users make and whatever bytes arrive from the network, in whatever
  order, every message it ever lists has an id that is the hash of its content and a
  signature that verifies under its author's key.
\<close>

theorem node_serves_only_authentic:
  assumes "store_contract (store_exec T) (\<lambda>q. q) refines init" "fd_store f = init"
    and "op_list_messages T (fd_store (foldl (node_step T R E W) f evs)) slug n = Inr ms"
  shows "set ms \<subseteq> {m. msg_id m = body_id E (msg_body m) \<and> mb_board (msg_body m) = slug \<and>
    verify_sig E (mb_author (msg_body m)) (body_signing_bytes E (msg_body m)) (msg_signature m) = Inr ()}"
proof -
  note svc = bbs_over_storeI[OF assms(1)]
  have "refines (fd_store f) abs_empty"
    using store_contract.refines_init[OF assms(1)] assms(2) by simp
  from bbs_over_store.node_authentic[OF svc this, of E R W evs]
  obtain a where a: "refines (fd_store (foldl (node_step T R E W) f evs)) a"
      "\<forall>m \<in> set (as_log a). message_verify E m = Inr ()"
    by (auto simp: abs_empty_def)
  have "set ms \<subseteq> set (log_board (as_log a) slug)"
    using bbs_over_store.read_back(4)[OF svc a(1) assms(3)] by (simp add: set_window)
  with a(2) show ?thesis
    by (auto simp: log_board_def message_verify_Inr_iff)
qed

theorem node_serves_only_authentic_witness:
  "\<exists>b ms. op_list_messages memory_ops (fd_store (foldl (node_step memory_ops mr_report demo_env demo_wire)
      (demo_fed 5 memory_store_new) [Request 1 (SCreate (role_caps Sysop) demo_board), Inbound 2 b]))
      ''general'' 5 = Inr ms \<and> length ms = 1 \<and>
    set ms \<subseteq> {m. msg_id m = body_id demo_env (msg_body m)}"
proof -
  let ?f = "demo_fed 5 memory_store_new"
  let ?f1 = "node_step memory_ops mr_report demo_env demo_wire ?f (Request 1 (SCreate (role_caps Sysop) demo_board))"
  obtain e where e: "envelope_seal demo_env demo_wire (demo_id 6) (ReplicateMessage demo_message) 0 = Inr e"
    using demo_seal_total by blast
  obtain b where b: "sealed_bytes demo_env demo_wire (demo_id 6) (ReplicateMessage demo_message) 0 = Inr b"
    using demo_to_bytes_total[of e] by (auto simp: sealed_bytes_def e)
  have "mem_refines (fd_store ?f) abs_empty"
    using mem.refines_init by (simp add: demo_fed_def federator_new_def)
  have st: "fd_store ?f1 = bbs_store demo_open"
    by (simp add: demo_open_def node_service_def demo_fed_def federator_new_def
        with_memory_reporter_def bbs_new_def Let_def del: role_caps.simps)
  have ref: "mem_refines (fd_store ?f1) \<lparr>as_boards = [(''general'', demo_board)], as_log = [], as_personas = []\<rparr>"
    unfolding st by (auto simp: mem_refines_def demo_open_store bt_wf_def log_keys_def bt_get_def
        log_get_def log_board_def)
  let ?f2 = "node_step memory_ops mr_report demo_env demo_wire ?f1 (Inbound 2 b)"
  have "mem_refines (fd_store ?f2)
      \<lparr>as_boards = [(''general'', demo_board)], as_log = [demo_message], as_personas = []\<rparr>"
    using ingest_replica[OF demo_sig_ok demo_id_wf demo_wire_ok ref b demo_message_verifies,
        of mr_report 2]
    by (simp add: log_put_def log_get_def)
  then have list: "op_list_messages memory_ops (fd_store ?f2) ''general'' 5 = Inr [demo_message]"
    unfolding memory_ops_def
    by (simp add: mem_list_messages_refines log_board_def demo_message_def demo_body_def)
  have "fd_store ?f = memory_store_new"
    by (simp add: demo_fed_def federator_new_def)
  from node_serves_only_authentic[OF mem.store_contract_axioms this, of mr_report demo_env demo_wire
      "[Request 1 (SCreate (role_caps Sysop) demo_board), Inbound 2 b]" "''general''" 5 "[demo_message]"]
  show ?thesis
    using list by (intro exI[of _ b] exI[of _ "[demo_message]"]) auto
qed

end
